(* ===== verification/Vault_Prelude.thy ===== *)
theory Vault_Prelude
  imports Main "HOL-Library.Sublist"
begin

text \<open>
  Shared ground of the development: the JavaScript string and array functions the
  TypeScript sources call, insertion-ordered maps (a JavaScript \<open>Map\<close> or object),
  event machines with their runs, and the two interfaces most components share.

  Strings. A JavaScript string is a list of UTF-16 code units; here it is HOL's
  \<open>string\<close>, one \<open>char\<close> per code unit below 256 (ASCII and Latin-1), so lengths,
  indices and slices are those of the source on such strings. The only literal of the
  modelled code outside that range which is compared or stored is the mask of eight
  bullets (U+2022); the bullet is the otherwise unused control unit \<open>0x95\<close> (its place
  in Windows-1252). Case mapping is the source's on Latin-1, except that the upper case
  of the two units whose upper case lies outside (micro sign, y with diaeresis) is the
  unit itself.
\<close>

section \<open>Collections of hints\<close>

named_theorems js_simps \<open>characteristic equations of the JavaScript functions\<close>
named_theorems keeps \<open>frame facts: what an operation leaves unchanged\<close>
named_theorems inv_steps \<open>one-step preservation facts of invariants\<close>

section \<open>Characters and strings\<close>

abbreviation code_of :: "char \<Rightarrow> nat" where
  "code_of c \<equiv> of_char c"

definition is_ws :: "char \<Rightarrow> bool" where
  "is_ws c \<longleftrightarrow> (9 \<le> code_of c \<and> code_of c \<le> 13) \<or> code_of c = 32 \<or> code_of c = 160"

definition is_digit :: "char \<Rightarrow> bool" where
  "is_digit c \<longleftrightarrow> 48 \<le> code_of c \<and> code_of c \<le> 57"

definition is_letter :: "char \<Rightarrow> bool" where
  "is_letter c \<longleftrightarrow> (65 \<le> code_of c \<and> code_of c \<le> 90) \<or> (97 \<le> code_of c \<and> code_of c \<le> 122)"

definition lower_char :: "char \<Rightarrow> char" where
  "lower_char c =
     (if (65 \<le> code_of c \<and> code_of c \<le> 90) \<or>
         (192 \<le> code_of c \<and> code_of c \<le> 222 \<and> code_of c \<noteq> 215)
      then char_of (code_of c + 32) else c)"

definition upper_char :: "char \<Rightarrow> string" where
  "upper_char c =
     (if code_of c = 223 then ''SS''
      else if (97 \<le> code_of c \<and> code_of c \<le> 122) \<or>
              (224 \<le> code_of c \<and> code_of c \<le> 254 \<and> code_of c \<noteq> 247)
      then [char_of (code_of c - 32)] else [c])"

definition to_lower :: "string \<Rightarrow> string" where
  "to_lower = map lower_char"

definition to_upper :: "string \<Rightarrow> string" where
  "to_upper s = concat (map upper_char s)"

definition trim_start :: "string \<Rightarrow> string" where
  "trim_start = dropWhile is_ws"

definition trim_end :: "string \<Rightarrow> string" where
  "trim_end s = rev (dropWhile is_ws (rev s))"

definition trim :: "string \<Rightarrow> string" where
  "trim s = trim_end (trim_start s)"

abbreviation starts_with :: "string \<Rightarrow> string \<Rightarrow> bool" where
  "starts_with s p \<equiv> prefix p s"

abbreviation ends_with :: "string \<Rightarrow> string \<Rightarrow> bool" where
  "ends_with s p \<equiv> suffix p s"

fun has_sub :: "string \<Rightarrow> string \<Rightarrow> bool" where
  "has_sub [] p \<longleftrightarrow> p = []"
| "has_sub (c # cs) p \<longleftrightarrow> prefix p (c # cs) \<or> has_sub cs p"

text \<open>\<open>s.indexOf(c)\<close> for one character: \<open>None\<close> is the source's \<open>-1\<close>.\<close>

fun index_of :: "char \<Rightarrow> string \<Rightarrow> nat option" where
  "index_of c [] = None"
| "index_of c (x # xs) = (if x = c then Some 0 else map_option Suc (index_of c xs))"

text \<open>\<open>s.split(c)\<close> for one character, and \<open>xs.join(sep)\<close>.\<close>

fun split_on :: "char \<Rightarrow> string \<Rightarrow> string list" where
  "split_on c [] = [[]]"
| "split_on c (x # xs) =
     (if x = c then [] # split_on c xs
      else (case split_on c xs of [] \<Rightarrow> [[x]] | w # ws \<Rightarrow> (x # w) # ws))"

fun join_with :: "string \<Rightarrow> string list \<Rightarrow> string" where
  "join_with sep [] = []"
| "join_with sep [w] = w"
| "join_with sep (w # ws) = w @ sep @ join_with sep ws"

text \<open>\<open>s.split(sep)\<close> for a separator of any length; the fuel is the length of the string.\<close>

fun split_str_aux :: "nat \<Rightarrow> string \<Rightarrow> string \<Rightarrow> string \<Rightarrow> string list" where
  "split_str_aux 0 sep acc s = [rev acc @ s]"
| "split_str_aux (Suc n) sep acc [] = [rev acc]"
| "split_str_aux (Suc n) sep acc (c # cs) =
     (if prefix sep (c # cs) then rev acc # split_str_aux n sep [] (drop (length sep) (c # cs))
      else split_str_aux n sep (c # acc) cs)"

definition split_str :: "string \<Rightarrow> string \<Rightarrow> string list" where
  "split_str sep s = split_str_aux (length s) sep [] s"

text \<open>A character class repeated at the start of the string, as \<open>/^[..]+/\<close> matches it.\<close>

definition span_class :: "(char \<Rightarrow> bool) \<Rightarrow> string \<Rightarrow> string \<times> string" where
  "span_class P s = (takeWhile P s, dropWhile P s)"

fun show_nat :: "nat \<Rightarrow> string" where
  "show_nat n = (if n < 10 then [char_of (48 + n)] else show_nat (n div 10) @ [char_of (48 + n mod 10)])"

declare show_nat.simps [simp del]

definition digit_val :: "char \<Rightarrow> nat" where
  "digit_val c = code_of c - 48"

definition parse_nat :: "string \<Rightarrow> nat" where
  "parse_nat s = foldl (\<lambda>n c. 10 * n + digit_val c) 0 s"

definition nl :: string where
  "nl = [CHR 0x0A]"

definition backslash :: char where
  "backslash = CHR 0x5C"

definition mask :: string where
  "mask = replicate 8 (CHR 0x95)"

lemma mask_chars:
  "mask = [CHR 0x95, CHR 0x95, CHR 0x95, CHR 0x95, CHR 0x95, CHR 0x95, CHR 0x95, CHR 0x95]"
  by (simp add: mask_def numeral_eq_Suc)

text \<open>Unfolds the string functions on literals.\<close>

lemmas js_eval =
  trim_def trim_end_def trim_start_def is_ws_def is_digit_def is_letter_def
  to_lower_def to_upper_def lower_char_def upper_char_def span_class_def suffix_to_prefix
  backslash_def nl_def mask_chars

text \<open>The same with case changes evaluated on literal characters.\<close>

lemmas js_case_eval = js_eval char_of_def bit_Suc_0_iff

lemma trim_Nil [simp]: "trim [] = []"
  by (simp add: trim_def trim_end_def trim_start_def)


lemma hd_dropWhile_not: "dropWhile P xs = y # ys \<Longrightarrow> \<not> P y"
  by (induction xs) (auto split: if_splits)

lemma dropWhile_fixed: "xs = [] \<or> \<not> P (hd xs) \<Longrightarrow> dropWhile P xs = xs"
  by (cases xs) auto

lemma trim_start_fixed: "trim_start s = s \<longleftrightarrow> s = [] \<or> \<not> is_ws (hd s)"
proof (cases s)
  case (Cons c cs)
  have "length (dropWhile is_ws cs) \<le> length cs" by (rule length_dropWhile_le)
  then have "is_ws c \<Longrightarrow> dropWhile is_ws cs \<noteq> c # cs" by auto
  then show ?thesis using Cons by (auto simp: trim_start_def)
qed (simp add: trim_start_def)

lemma trim_end_fixed: "trim_end s = s \<longleftrightarrow> s = [] \<or> \<not> is_ws (last s)"
proof -
  have "trim_end s = s \<longleftrightarrow> trim_start (rev s) = rev s"
    by (auto simp: trim_end_def trim_start_def rev_swap)
  then show ?thesis by (simp add: trim_start_fixed hd_rev)
qed

lemma trim_end_idem [simp]: "trim_end (trim_end s) = trim_end s"
  by (simp add: trim_end_def)

lemma trim_end_hd: "trim_end s \<noteq> [] \<Longrightarrow> hd (trim_end s) = hd s"
proof -
  assume ne: "trim_end s \<noteq> []"
  have "suffix (dropWhile is_ws (rev s)) (rev s)" by (rule suffix_dropWhile)
  then have "prefix (trim_end s) s"
    by (simp add: trim_end_def suffix_to_prefix)
  then obtain zs where zs: "s = trim_end s @ zs" by (auto simp: prefix_def)
  show ?thesis by (subst (2) zs) (simp add: ne)
qed

lemma trim_start_trim [simp]: "trim_start (trim s) = trim s"
proof (cases "trim s = []")
  case False
  then have ne: "trim_start s \<noteq> []" by (auto simp: trim_def trim_end_def)
  have "hd (trim s) = hd (trim_start s)"
    using False by (simp add: trim_def trim_end_hd)
  moreover have "\<not> is_ws (hd (trim_start s))"
    using ne unfolding trim_start_def by (cases "dropWhile is_ws s") (auto dest: hd_dropWhile_not)
  ultimately show ?thesis by (simp add: trim_start_fixed)
qed (simp add: trim_start_def)

lemma trim_trim [simp]: "trim (trim s) = trim s"
proof -
  have "trim (trim s) = trim_end (trim_start (trim s))" by (simp only: trim_def[of "trim s"])
  also have "\<dots> = trim_end (trim s)" by simp
  also have "\<dots> = trim s" by (simp add: trim_def)
  finally show ?thesis .
qed

lemma includes_iff: "has_sub s p \<longleftrightarrow> sublist p s"
proof (induction s)
  case Nil
  then show ?case by simp
next
  case (Cons c cs)
  then show ?case by (simp add: sublist_Cons_right)
qed

lemma split_on_ne [simp]: "split_on c s \<noteq> []"
  by (induction s) (auto split: list.splits)

lemma split_on_no_sep: "w \<in> set (split_on c s) \<Longrightarrow> c \<notin> set w"
  by (induction s arbitrary: w) (auto split: list.splits if_splits)

lemma split_on_single: "c \<notin> set s \<Longrightarrow> split_on c s = [s]"
  by (induction s) auto

lemma split_on_append_sep: "c \<notin> set w \<Longrightarrow> split_on c (w @ c # s) = w # split_on c s"
  by (induction w) (auto split: list.splits)

lemma join_with_Cons: "ws \<noteq> [] \<Longrightarrow> join_with sep (w # ws) = w @ sep @ join_with sep ws"
  by (cases ws) auto

lemma split_on_join:
  "ws \<noteq> [] \<Longrightarrow> \<forall>w \<in> set ws. c \<notin> set w \<Longrightarrow> split_on c (join_with [c] ws) = ws"
proof (induction ws)
  case Nil
  then show ?case by simp
next
  case (Cons w ws)
  show ?case
  proof (cases "ws = []")
    case True
    with Cons.prems show ?thesis by (simp add: split_on_single)
  next
    case False
    with Cons show ?thesis by (simp add: join_with_Cons split_on_append_sep)
  qed
qed

lemma join_with_Cons_char: "join_with sep ((x # w) # ws) = x # join_with sep (w # ws)"
  by (cases ws) auto

lemma join_split_on: "join_with [c] (split_on c s) = s"
  by (induction s) (auto split: list.splits simp: join_with_Cons join_with_Cons_char)

section \<open>Arrays\<close>

text \<open>\<open>Array.from(new Set(xs))\<close>: the first occurrence of each element, in order.\<close>

definition uniq :: "'a list \<Rightarrow> 'a list" where
  "uniq xs = rev (remdups (rev xs))"

lemma filter_remove_nth:
  "i < length xs \<Longrightarrow>
   filter P xs = filter P (take i xs) @ (if P (xs ! i) then [xs ! i] else []) @ filter P (drop (Suc i) xs)"
  by (subst id_take_nth_drop [of i xs], assumption) simp

text \<open>\<open>xs.findIndex(P)\<close>: \<open>None\<close> is the source's \<open>-1\<close>.\<close>

fun find_index :: "('a \<Rightarrow> bool) \<Rightarrow> 'a list \<Rightarrow> nat option" where
  "find_index P [] = None"
| "find_index P (x # xs) = (if P x then Some 0 else map_option Suc (find_index P xs))"

lemma uniq_Nil [simp]: "uniq [] = []"
  by (simp add: uniq_def)

lemma set_uniq [simp]: "set (uniq xs) = set xs"
  by (simp add: uniq_def)

lemma distinct_uniq [simp]: "distinct (uniq xs)"
  by (simp add: uniq_def)

lemma uniq_distinct [simp]: "distinct xs \<Longrightarrow> uniq xs = xs"
  by (simp add: uniq_def distinct_remdups_id)

lemma uniq_idem: "uniq (uniq xs) = uniq xs"
  by simp

lemma uniq_append: "uniq (xs @ ys) = uniq xs @ filter (\<lambda>y. y \<notin> set xs) (uniq ys)"
proof -
  have gen: "remdups (as @ bs) = filter (\<lambda>a. a \<notin> set bs) (remdups as) @ remdups bs" for as bs :: "'a list"
    by (induction as) auto
  show ?thesis by (simp add: uniq_def gen rev_filter)
qed

lemma uniq_append_left: "\<exists>zs. uniq (xs @ ys) = uniq xs @ zs"
  by (simp add: uniq_append)

lemma find_index_Some: "find_index P xs = Some i \<Longrightarrow> i < length xs \<and> P (xs ! i)"
  by (induction xs arbitrary: i) (auto split: if_splits)

lemma find_index_None: "find_index P xs = None \<longleftrightarrow> (\<forall>x \<in> set xs. \<not> P x)"
  by (induction xs) auto

lemma find_SomeD: "List.find P xs = Some x \<Longrightarrow> x \<in> set xs \<and> P x"
  by (induction xs) (auto split: if_splits)

lemma find_NoneD: "List.find P xs = None \<Longrightarrow> \<forall>x \<in> set xs. \<not> P x"
  by (induction xs) (auto split: if_splits)

lemma map_filter_mem: "y \<in> set (List.map_filter f xs) \<Longrightarrow> \<exists>x \<in> set xs. f x = Some y"
  by (auto simp: List.map_filter_def)

lemma set_slice:
  assumes "b < length xs"
  shows "set (take (Suc b - a) (drop a xs)) = {xs ! n | n. a \<le> n \<and> n \<le> b}" (is "set ?l = ?r")
proof
  show "set ?l \<subseteq> ?r"
  proof
    fix x assume "x \<in> set ?l"
    then obtain k where "k < Suc b - a" "k < length xs - a" "x = drop a xs ! k"
      by (auto simp: in_set_conv_nth)
    then show "x \<in> ?r" by (intro CollectI exI [of _ "a + k"]) auto
  qed
  show "?r \<subseteq> set ?l"
  proof
    fix x assume "x \<in> ?r"
    then obtain n where n: "a \<le> n" "n \<le> b" "x = xs ! n" by auto
    then have "?l ! (n - a) = x" "n - a < length ?l" using assms by auto
    then show "x \<in> set ?l" using nth_mem by blast
  qed
qed

section \<open>Insertion-ordered maps\<close>

type_synonym ('k, 'v) omap = "('k \<times> 'v) list"

abbreviation om_get :: "('k, 'v) omap \<Rightarrow> 'k \<Rightarrow> 'v option" where
  "om_get \<equiv> map_of"

fun om_set :: "'k \<Rightarrow> 'v \<Rightarrow> ('k, 'v) omap \<Rightarrow> ('k, 'v) omap" where
  "om_set k v [] = [(k, v)]"
| "om_set k v ((k', v') # m) = (if k' = k then (k, v) # m else (k', v') # om_set k v m)"

definition om_del :: "'k \<Rightarrow> ('k, 'v) omap \<Rightarrow> ('k, 'v) omap" where
  "om_del k m = filter (\<lambda>p. fst p \<noteq> k) m"

abbreviation om_keys :: "('k, 'v) omap \<Rightarrow> 'k list" where
  "om_keys m \<equiv> map fst m"

abbreviation om_wf :: "('k, 'v) omap \<Rightarrow> bool" where
  "om_wf m \<equiv> distinct (map fst m)"

lemma om_get_set [simp]: "om_get (om_set k v m) = (om_get m)(k \<mapsto> v)"
  by (induction m) (auto simp: fun_eq_iff)

lemma om_get_del [simp]: "om_get (om_del k m) = (om_get m)(k := None)"
  by (induction m) (auto simp: om_del_def fun_eq_iff)

lemma set_om_keys_set [simp]: "fst ` set (om_set k v m) = insert k (fst ` set m)"
proof -
  have "fst ` set (om_set k v m) = dom (om_get (om_set k v m))"
    by (simp only: dom_map_of_conv_image_fst)
  then show ?thesis by (simp add: dom_map_of_conv_image_fst)
qed

lemma om_wf_set [simp]: "om_wf m \<Longrightarrow> om_wf (om_set k v m)"
proof (induction m)
  case (Cons p m)
  then show ?case
    using set_om_keys_set [of k v m] by (cases p) auto
qed simp

lemma om_wf_del [simp]: "om_wf m \<Longrightarrow> om_wf (om_del k m)"
  by (simp add: om_del_def distinct_map_filter)

lemma length_om_set: "length (om_set k v m) = (if k \<in> fst ` set m then length m else Suc (length m))"
  by (induction m) (auto simp: rev_image_eqI)

lemma set_om_set_sub: "set (om_set k v m) \<subseteq> insert (k, v) (set m)"
proof (induction m)
  case (Cons p m)
  then show ?case by (cases p) (auto split: if_splits)
qed simp

lemma set_om_del: "set (om_del k m) = {p \<in> set m. fst p \<noteq> k}"
  by (auto simp: om_del_def)

text \<open>The laws of a finite map, promised by the insertion-ordered map to its clients.\<close>

locale map_store =
  fixes get :: "'m \<Rightarrow> 'k \<Rightarrow> 'v option"
    and put :: "'k \<Rightarrow> 'v \<Rightarrow> 'm \<Rightarrow> 'm"
    and del :: "'k \<Rightarrow> 'm \<Rightarrow> 'm"
    and wf :: "'m \<Rightarrow> bool"
  assumes get_put: "get (put k v m) = (get m)(k \<mapsto> v)"
    and get_del: "get (del k m) = (get m)(k := None)"
    and wf_put: "wf m \<Longrightarrow> wf (put k v m)"
    and wf_del: "wf m \<Longrightarrow> wf (del k m)"
begin

lemma put_same: "get (put k v m) k = Some v"
  by (simp add: get_put)

lemma put_other: "k' \<noteq> k \<Longrightarrow> get (put k v m) k' = get m k'"
  by (simp add: get_put)

lemma del_same: "get (del k m) k = None"
  by (simp add: get_del)

lemma get_fold_put:
  "get (fold (\<lambda>(k, v). put k v) ps m) k =
     (case map_of (rev ps) k of None \<Rightarrow> get m k | Some v \<Rightarrow> Some v)"
  by (induction ps arbitrary: m) (auto simp: get_put map_add_def split: option.splits)

end

interpretation om: map_store om_get om_set om_del om_wf
  by unfold_locales auto

section \<open>Event machines\<close>

text \<open>
  A component with state is a function from an event and a state to the next state; a run
  folds it over a list of events. An invariant kept by every step holds after every run.
\<close>

definition run :: "('e \<Rightarrow> 's \<Rightarrow> 's) \<Rightarrow> 'e list \<Rightarrow> 's \<Rightarrow> 's" where
  "run step es s = fold step es s"

lemma run_Nil [simp]: "run step [] s = s"
  by (simp add: run_def)

lemma run_Cons [simp]: "run step (e # es) s = run step es (step e s)"
  by (simp add: run_def)

lemma run_append [simp]: "run step (es @ fs) s = run step fs (run step es s)"
  by (simp add: run_def)

locale invariant_machine =
  fixes step :: "'e \<Rightarrow> 's \<Rightarrow> 's"
    and inv :: "'s \<Rightarrow> bool"
  assumes step_inv: "inv s \<Longrightarrow> inv (step e s)"
begin

lemma run_inv: "inv s \<Longrightarrow> inv (run step es s)"
  by (induction es arbitrary: s) (auto intro: step_inv)

end

text \<open>
  The request-token discipline: an asynchronous call remembers the value of a counter when
  it starts; its continuation takes effect only while the counter still has that value.
  The machine never decreases the counter. So a result whose token has been overtaken is
  dropped, whatever happens in between.
\<close>

locale token_machine =
  fixes step :: "'e \<Rightarrow> 's \<Rightarrow> 's"
    and tok :: "'s \<Rightarrow> nat"
    and resume :: "nat \<Rightarrow> 'r \<Rightarrow> 's \<Rightarrow> 's"
    and obs :: "'s \<Rightarrow> 'o"
  assumes tok_step: "tok s \<le> tok (step e s)"
    and stale: "t \<noteq> tok s \<Longrightarrow> obs (resume t r s) = obs s"
begin

lemma tok_run: "tok s \<le> tok (run step es s)"
  by (induction es arbitrary: s) (auto intro: order_trans tok_step)

lemma overtaken: "t < tok s \<Longrightarrow> obs (resume t r (run step es s)) = obs (run step es s)"
  using tok_run[of s es] by (intro stale) simp

end

end
