(* ===== verification/Vault_Types.thy ===== *)
theory Vault_Types
  imports Vault_Prelude
begin

text \<open>
  The data of the front end (\<open>src/src/types/index.ts\<close>) and of the interface it
  calls (\<open>src/src/lib/backend.ts\<close>). An interface is a record with the source's fields in
  the source's order (a prefix keeps the selectors apart), an optional or nullable field is
  an \<open>option\<close>, a tagged union is a datatype. String unions that the code computes with
  (field types) stay strings; the literals they range over are listed.
\<close>

section \<open>Breach status\<close>

text \<open>\<open>BreachStatus\<close>, discriminated by \<open>type\<close>.\<close>

datatype breach_status =
    Unknown
  | Checking
  | Safe (safe_checked_at: string)
  | Breached (breach_count: nat) (breached_checked_at: string)
  | BreachError string

section \<open>Attachments and custom fields\<close>

record attachment_info =
  at_id :: string
  at_name :: string
  at_size :: nat
  at_mimeType :: "string option"
  at_mime_type :: "string option"
  at_createdAt :: "string option"
  at_created_at :: "string option"

record new_attachment =
  na_name :: string
  na_mime_type :: string
  na_data :: "nat list"

record custom_field =
  cf_id :: string
  cf_name :: string
  cf_type :: string
  cf_value :: string
  cf_sensitive :: "bool option"

definition field_types :: "string list" where
  "field_types = [''text'', ''password'', ''username'', ''email'', ''url'', ''phone'',
     ''date'', ''address'', ''notes'', ''totp'', ''file'']"

section \<open>The front end's entry\<close>

datatype passkey_action = GeneratePasskey | RemovePasskey

record password_entry =
  pe_id :: string
  pe_title :: string
  pe_username :: string
  pe_password :: string
  pe_url :: string
  pe_email :: string
  pe_notes :: string
  pe_tags :: "string list"
  pe_favorite :: bool
  pe_pinned :: bool
  pe_totpSecret :: "string option"
  pe_recoveryCodes :: "string option"
  pe_customFields :: "custom_field list"
  pe_createdAt :: string
  pe_updatedAt :: string
  pe_breachStatus :: "breach_status option"
  pe_hasPasskey :: bool
  pe_passkeyPublicKey :: "nat list option"
  pe_generatePasskey :: "bool option"
  pe_passkeyAction :: "passkey_action option"
  pe_attachments :: "attachment_info list option"
  pe_newAttachments :: "new_attachment list option"
  pe_deleteAttachmentIds :: "string list option"
  pe_attachmentCount :: "nat option"

record tag =
  tag_id :: string
  tag_name :: string
  tag_color :: string
  tag_icon :: string
  tag_default_url :: "string option"
  tag_count :: nat

record vault =
  va_id :: string
  va_name :: string
  va_path :: string

datatype toast_type = ToastSuccess | ToastError | ToastInfo

record toast_message =
  to_id :: string
  to_message :: string
  to_type :: toast_type

section \<open>The back end's records\<close>

record ipc_attachment =
  ia_id :: string
  ia_name :: string
  ia_size :: nat
  ia_mime_type :: string
  ia_created_at :: string

record ipc_custom_field =
  ic_id :: string
  ic_name :: string
  ic_field_type :: string
  ic_value :: string
  ic_sensitive :: bool

definition ipc_field_types :: "string list" where
  "ipc_field_types = [''Text'', ''Password'', ''Username'', ''Email'', ''Url'', ''Phone'',
     ''Date'', ''Address'', ''Notes'', ''Totp'', ''File'']"

datatype strength_level = Critical | Weak | Fair | Strong | Excellent

record strength_score =
  ss_entropy_bits :: nat
  ss_crack_time :: string
  ss_level :: strength_level
  ss_warnings :: "string list"

datatype entry_type =
    Login | CreditCard | Identity | SecureNote | SshKey | ApiKey | WifiPassword
  | CryptoWallet | CustomEntry

record entry_preview =
  pv_id :: string
  pv_title :: string
  pv_username :: string
  pv_url :: string
  pv_email :: string
  pv_tags :: "string list"
  pv_favorite :: bool
  pv_pinned :: bool
  pv_has_totp :: bool
  pv_entry_type :: entry_type
  pv_updated_at :: string
  pv_breach_status :: breach_status
  pv_strength_score :: "strength_score option"
  pv_password_age_days :: nat
  pv_has_passkey :: bool
  pv_attachment_count :: "nat option"

record decrypted_entry =
  de_id :: string
  de_title :: string
  de_username :: string
  de_password :: string
  de_url :: string
  de_email :: string
  de_notes :: string
  de_tags :: "string list"
  de_favorite :: bool
  de_pinned :: bool
  de_totp_secret :: "string option"
  de_custom_fields :: "ipc_custom_field list"
  de_entry_type :: entry_type
  de_created_at :: string
  de_updated_at :: string
  de_password_changed_at :: string
  de_breach_status :: breach_status
  de_strength_score :: "strength_score option"
  de_password_history_count :: nat
  de_has_passkey :: bool
  de_passkey_public_key :: "nat list option"
  de_attachments :: "ipc_attachment list option"

record new_entry =
  ne_title :: string
  ne_username :: string
  ne_password :: string
  ne_url :: string
  ne_email :: string
  ne_notes :: string
  ne_tags :: "string list"
  ne_totp_secret :: "string option"
  ne_custom_fields :: "ipc_custom_field list"
  ne_entry_type :: "entry_type option"
  ne_generate_passkey :: "bool option"
  ne_attachments :: "new_attachment list option"

record bulk_entry_update =
  bu_title :: "string option"
  bu_username :: "string option"
  bu_url :: "string option"
  bu_favorite :: "bool option"
  bu_pinned :: "bool option"
  bu_notes :: "string option"
  bu_append_notes :: bool
  bu_tags_to_add :: "string list"
  bu_tags_to_remove :: "string list"

record update_entry =
  ue_title :: "string option"
  ue_username :: "string option"
  ue_password :: "string option"
  ue_url :: "string option"
  ue_email :: "string option"
  ue_notes :: "string option"
  ue_tags :: "string list option"
  ue_favorite :: "bool option"
  ue_pinned :: "bool option"
  ue_totp_secret :: "string option"
  ue_custom_fields :: "ipc_custom_field list option"
  ue_breach_status :: "breach_status option"
  ue_passkey_action :: "passkey_action option"
  ue_new_attachments :: "new_attachment list option"
  ue_delete_attachment_ids :: "string list option"

record ipc_tag =
  it_id :: string
  it_name :: string
  it_color :: string
  it_icon :: string
  it_default_url :: "string option"

record merge_stats =
  ms_entries_added :: nat
  ms_entries_updated :: nat
  ms_entries_kept_local :: nat
  ms_tags_merged :: nat
  ms_trash_merged :: nat

record breach_result =
  br_is_breached :: bool
  br_breach_count :: nat
  br_checked_at :: string

record vault_info =
  vi_id :: string
  vi_name :: string
  vi_path :: string
  vi_entry_count :: nat
  vi_last_opened :: "string option"

datatype issue_type =
  IssueBreached | WeakPassword | ReusedPassword | OldPassword | Missing2FA | ShortPassword

datatype issue_severity = InfoSeverity | WarningSeverity | CriticalSeverity

record security_issue =
  si_entry_id :: string
  si_entry_title :: string
  si_issue_type :: issue_type
  si_severity :: issue_severity
  si_description :: string

record generator_options =
  go_diceware :: bool
  go_length :: nat
  go_uppercase :: bool
  go_lowercase :: bool
  go_digits :: bool
  go_symbols :: bool
  go_exclude_ambiguous :: bool
  go_custom_symbols :: "string option"
  go_word_count :: nat
  go_separator :: string
  go_capitalize_words :: bool
  go_add_number :: bool

section \<open>Settings\<close>

datatype operation_mode = Standard | Airgap

datatype theme = DarkTheme | LightTheme | SystemTheme

datatype density = Compact | NormalDensity | Comfortable

datatype tag_sort = TagByName | TagByCount | TagCustom

datatype entry_sort = SortTitle | SortUpdated | SortCreated

record keybind_shortcut =
  ks_ctrlKey :: "bool option"
  ks_altKey :: "bool option"
  ks_shiftKey :: "bool option"
  ks_metaKey :: "bool option"
  ks_key :: string

record keybinds_config =
  kb_search :: keybind_shortcut
  kb_newEntry :: keybind_shortcut
  kb_lockVault :: keybind_shortcut
  kb_copyPassword :: keybind_shortcut
  kb_copyUsername :: keybind_shortcut
  kb_copyUrl :: keybind_shortcut
  kb_copyTotp :: keybind_shortcut
  kb_editEntry :: keybind_shortcut
  kb_deleteEntry :: keybind_shortcut
  kb_openUrl :: keybind_shortcut
  kb_autotype :: keybind_shortcut

record app_settings =
  st_theme :: theme
  st_language :: string
  st_sidebarWidth :: int
  st_passwordListWidth :: int
  st_fontSize :: int
  st_density :: density
  st_autoLockMinutes :: int
  st_clipboardClearSeconds :: int
  st_minimizeToTray :: bool
  st_launchOnStartup :: bool
  st_disableSkeletonDelays :: bool
  st_autoBreachCheck :: bool
  st_showBreachInList :: bool
  st_autotypeCharDelayMs :: int
  st_autotypeFieldDelayMs :: int
  st_autotypeSettleDelayMs :: int
  st_autotypeLaunchBrowser :: bool
  st_tagSortOrder :: "tag_sort option"
  st_showTagCounts :: "bool option"
  st_entrySortOrder :: "entry_sort option"
  st_groupByDate :: "bool option"
  st_keybinds :: "keybinds_config option"
  st_forceMobileView :: "bool option"
  st_windowCaptureProtection :: "bool option"
  st_lockOnFocusLoss :: "bool option"
  st_lockOnSystemLock :: "bool option"
  st_webdavEnabled :: "bool option"
  st_webdavUrl :: "string option"
  st_webdavUser :: "string option"
  st_webdavAutoSync :: "bool option"
  st_p2pAddr :: "string option"
  st_p2pAutoListen :: "bool option"
  st_p2pAutoSyncWifi :: "bool option"
  st_p2pAutoSyncIntervalMinutes :: "int option"
  st_externalFaviconsEnabled :: "bool option"
  st_autoCheckUpdates :: "bool option"
  st_operationMode :: "operation_mode option"

text \<open>Truthiness of the optional values: \<open>undefined\<close>, \<open>false\<close> and \<open>''\<close> are falsy.\<close>

definition truthy :: "bool option \<Rightarrow> bool" where
  "truthy b \<longleftrightarrow> b = Some True"

definition truthy_str :: "string option \<Rightarrow> bool" where
  "truthy_str s \<longleftrightarrow> (case s of None \<Rightarrow> False | Some x \<Rightarrow> x \<noteq> [])"

text \<open>\<open>x || undefined\<close> on an optional string.\<close>

definition or_undefined :: "string option \<Rightarrow> string option" where
  "or_undefined s = (if truthy_str s then s else None)"

text \<open>\<open>x ?? y\<close>.\<close>

definition or_else :: "'a option \<Rightarrow> 'a \<Rightarrow> 'a" where
  "or_else x y = (case x of None \<Rightarrow> y | Some v \<Rightarrow> v)"

lemma truthy_simps [simp]: "\<not> truthy None" "truthy (Some b) = b"
  by (auto simp: truthy_def)

lemma truthy_str_simps [simp]: "\<not> truthy_str None" "truthy_str (Some x) \<longleftrightarrow> x \<noteq> []"
  by (auto simp: truthy_str_def)

lemma or_undefined_simps [simp]:
  "or_undefined None = None" "or_undefined (Some x) = (if x = [] then None else Some x)"
  by (auto simp: or_undefined_def)

lemma or_else_simps [simp]: "or_else None y = y" "or_else (Some v) y = v"
  by (auto simp: or_else_def)

end
