(* ===== verification/Text_Utils.thy ===== *)
theory Text_Utils
  imports Vault_Types
begin

text \<open>
  \<open>src/src/lib/utils.ts\<close>, \<open>src/src/lib/masterPassword.ts\<close> and the attachment icons of
  \<open>src/src/lib/formatters.tsx\<close>: titles, domains, the classification of link targets and
  the field layout of an entry. The \<open>URL\<close> constructor of the web platform is the parameter
  \<open>parse\<close>: \<open>None\<close> where it throws.
\<close>

record url =
  u_protocol :: string
  u_hostname :: string
  u_username :: string
  u_password :: string
  u_href :: string

section \<open>Initials, masks, demo codes\<close>

function (sequential) split_ws :: "string \<Rightarrow> string list" where
  "split_ws s =
     (let w = takeWhile (\<lambda>c. \<not> is_ws c) s; r = dropWhile (\<lambda>c. \<not> is_ws c) s
      in if r = [] then [w] else w # split_ws (dropWhile is_ws r))"
  by pat_completeness auto
termination
proof (relation "measure length")
  fix s w r
  assume r: "r = dropWhile (\<lambda>c. \<not> is_ws c) s" and ne: "r \<noteq> []"
  from ne r have "is_ws (hd r)" by (metis hd_dropWhile)
  with ne have "length (dropWhile is_ws r) < length r"
    by (cases r) (auto intro: le_imp_less_Suc length_dropWhile_le)
  also have "length r \<le> length s" by (simp add: r length_dropWhile_le)
  finally show "(dropWhile is_ws r, s) \<in> measure length" by simp
qed simp

declare split_ws.simps [simp del]

definition getInitials :: "string \<Rightarrow> string" where
  "getInitials title = take 2 (to_upper (concat (map (take 1) (split_ws title))))"

definition maskPassword :: "string \<Rightarrow> string" where
  "maskPassword pw = replicate (min (length pw) 16) (CHR 0x95)"

fun show_hex :: "nat \<Rightarrow> string" where
  "show_hex n =
     (let d = (\<lambda>k. if k < 10 then char_of (48 + k) else (char_of (87 + k) :: char))
      in if n < 16 then [d n] else show_hex (n div 16) @ [d (n mod 16)])"

declare show_hex.simps [simp del]

definition hex_val :: "char \<Rightarrow> nat" where
  "hex_val c = (if is_digit c then code_of c - 48 else code_of c - 87)"

definition pad_start :: "nat \<Rightarrow> char \<Rightarrow> string \<Rightarrow> string" where
  "pad_start n c s = replicate (n - length s) c @ s"

text \<open>\<open>generateTOTP\<close>: the demonstration code of one period; \<open>now\<close> is in seconds.\<close>

definition generateTOTP :: "nat \<Rightarrow> nat \<Rightarrow> nat \<Rightarrow> string" where
  "generateTOTP now period digits =
     (let hash = pad_start 16 (CHR ''0'') (show_hex (now div period))
      in map (\<lambda>i. char_of (48 + hex_val (hash ! (i mod length hash)) mod 10)) [0..<digits])"

definition getTOTPRemainingSeconds :: "nat \<Rightarrow> nat \<Rightarrow> nat" where
  "getTOTPRemainingSeconds now period =
     (let remaining = period - now mod period in if remaining = period then period else remaining)"

definition isValidNewMasterPassword :: "string \<Rightarrow> bool" where
  "isValidNewMasterPassword pw \<longleftrightarrow> length (trim pw) > 0 \<and> length pw \<ge> 12"

section \<open>Link targets\<close>

definition http_scheme :: "string \<Rightarrow> bool" where
  "http_scheme s \<longleftrightarrow> starts_with (to_lower s) ''http://'' \<or> starts_with (to_lower s) ''https://''"

definition scheme_char :: "char \<Rightarrow> bool" where
  "scheme_char c \<longleftrightarrow> is_letter c \<or> is_digit c \<or> c = CHR ''_'' \<or> c = CHR ''-''"

text \<open>The match of \<open>/^[a-zA-Z0-9_-]+:\/\//\<close>: the scheme before \<open>://\<close>.\<close>

definition app_scheme :: "string \<Rightarrow> string option" where
  "app_scheme s =
     (let (name, rest) = span_class scheme_char s
      in if name \<noteq> [] \<and> starts_with rest ''://'' then Some name else None)"

definition blocked_schemes :: "string list" where
  "blocked_schemes = [''http'', ''https'', ''ftp'', ''file'', ''javascript'', ''data'', ''blob'']"

text \<open>The match of \<open>/^[a-zA-Z]:[\\/]/\<close>.\<close>

fun drive_path :: "string \<Rightarrow> bool" where
  "drive_path (c # d # e # _) \<longleftrightarrow> is_letter c \<and> d = CHR '':'' \<and> (e = backslash \<or> e = CHR ''/'')"
| "drive_path _ \<longleftrightarrow> False"

definition unc_path :: "string \<Rightarrow> bool" where
  "unc_path s \<longleftrightarrow> starts_with s [backslash, backslash]"

definition executable_ext :: "string \<Rightarrow> bool" where
  "executable_ext s \<longleftrightarrow>
     (\<exists>e \<in> set [''.exe'', ''.bat'', ''.cmd'', ''.msi'', ''.lnk'']. ends_with (to_lower s) e)"

definition unix_bin :: "string \<Rightarrow> bool" where
  "unix_bin s \<longleftrightarrow>
     (\<exists>p \<in> set [''/applications'', ''/usr'', ''/opt'', ''/bin'', ''/sbin'']. starts_with (to_lower s) p)"

definition isAppPath :: "string option \<Rightarrow> bool" where
  "isAppPath target =
     (case target of
        None \<Rightarrow> False
      | Some t \<Rightarrow>
          if trim t = [] then False
          else let clean = trim t in
            if http_scheme clean then False
            else (case app_scheme clean of
                    Some name \<Rightarrow> to_lower name \<notin> set blocked_schemes
                  | None \<Rightarrow>
                      if drive_path clean \<or> unc_path clean then True
                      else if executable_ext clean then True
                      else if starts_with clean ''/'' \<and> (has_sub clean ''.app'' \<or> unix_bin clean) then True
                      else False))"

definition isWebUrl :: "string option \<Rightarrow> bool" where
  "isWebUrl target =
     (case target of
        None \<Rightarrow> False
      | Some t \<Rightarrow> if trim t = [] then False else \<not> isAppPath target)"

definition strip_www :: "string \<Rightarrow> string" where
  "strip_www host = (if starts_with host ''www.'' then drop 4 host else host)"

definition getDomain :: "(string \<Rightarrow> url option) \<Rightarrow> string \<Rightarrow> string option" where
  "getDomain parse u =
     (if u = [] \<or> isAppPath (Some u) then None
      else let clean = to_lower (trim u);
               clean' = (if http_scheme clean then clean else ''https://'' @ clean)
           in map_option (\<lambda>p. strip_www (u_hostname p)) (parse clean'))"

definition capitalize :: "string \<Rightarrow> string" where
  "capitalize s = to_upper (take 1 s) @ drop 1 s"

section \<open>Opening a link\<close>

text \<open>
  What \<open>openExternalUrl\<close> hands to the outside: the shell plug-in's \<open>open\<close>, or
  \<open>window.open\<close> after an exception. \<open>shell_ok\<close> says whether the plug-in call succeeds.
\<close>

datatype open_action = ShellOpen string | WindowOpen string

text \<open>The match of \<open>/^[a-z0-9+.-]+:/i\<close>.\<close>

definition any_scheme :: "string \<Rightarrow> bool" where
  "any_scheme s \<longleftrightarrow>
     (let (name, rest) = span_class (\<lambda>c. is_letter c \<or> is_digit c \<or> c \<in> set ''+.-'') s
      in name \<noteq> [] \<and> starts_with rest '':'')"

definition openExternalUrl :: "(string \<Rightarrow> url option) \<Rightarrow> bool \<Rightarrow> string \<Rightarrow> open_action list" where
  "openExternalUrl parse shell_ok target =
     (if trim target = [] then []
      else let clean = trim target in
        if isAppPath (Some clean) then [ShellOpen clean]
        else if drive_path clean \<or> unc_path clean \<or> starts_with clean ''/'' then []
        else if \<not> http_scheme clean \<and> any_scheme clean then []
        else let formatted = (if http_scheme clean then clean else ''https://'' @ clean) in
          (case parse formatted of
             None \<Rightarrow> [WindowOpen formatted]
           | Some p \<Rightarrow>
               if u_protocol p \<noteq> ''http:'' \<and> u_protocol p \<noteq> ''https:'' then []
               else if shell_ok then [ShellOpen formatted]
               else [ShellOpen formatted, WindowOpen formatted]))"

section \<open>Titles\<close>

definition tld_list :: "string list" where
  "tld_list = [''com'', ''org'', ''net'', ''io'', ''co'', ''uk'', ''cz'', ''de'', ''fr'', ''app'',
     ''dev'', ''ai'', ''me'', ''edu'', ''gov'']"

definition strip_app_ext :: "string \<Rightarrow> string" where
  "strip_app_ext s =
     (if \<exists>e \<in> set [''.exe'', ''.app'', ''.bat'', ''.cmd'', ''.msi'', ''.lnk'']. ends_with (to_lower s) e
      then take (length s - 4) s else s)"

text \<open>\<open>clean.split(/[\\/]/).pop()\<close>: what follows the last slash or backslash.\<close>

definition last_segment :: "string \<Rightarrow> string" where
  "last_segment s = rev (takeWhile (\<lambda>c. c \<noteq> backslash \<and> c \<noteq> CHR ''/'') (rev s))"

definition domain_title :: "string \<Rightarrow> string" where
  "domain_title domain =
     (let parts = split_on (CHR ''.'') domain;
          nonTld = filter (\<lambda>p. p \<notin> set tld_list) parts;
          mainName = (if nonTld \<noteq> [] \<and> last nonTld \<noteq> [] then last nonTld
                      else if hd parts \<noteq> [] then hd parts else domain)
      in capitalize mainName)"

definition title_fallback :: "string option \<Rightarrow> string option \<Rightarrow> string option \<Rightarrow> string" where
  "title_fallback domain email username =
     (case domain of
        Some d \<Rightarrow> if d \<noteq> [] then domain_title d
                  else if length (trim (or_else email [])) > 0 then trim (or_else email [])
                  else if length (trim (or_else username [])) > 0 then trim (or_else username [])
                  else ''New Entry''
      | None \<Rightarrow> if length (trim (or_else email [])) > 0 then trim (or_else email [])
                else if length (trim (or_else username [])) > 0 then trim (or_else username [])
                else ''New Entry'')"

definition deriveTitle ::
  "(string \<Rightarrow> url option) \<Rightarrow> string \<Rightarrow> string option \<Rightarrow> string option \<Rightarrow> string option \<Rightarrow> string" where
  "deriveTitle parse title url email username =
     (if length (trim title) > 0 then trim title
      else let fallback = title_fallback (getDomain parse (or_else url [])) email username in
        if truthy_str url \<and> isAppPath url then
          (let clean = trim (the url) in
           case app_scheme clean of
             Some scheme \<Rightarrow> capitalize scheme
           | None \<Rightarrow> (let name = strip_app_ext (last_segment clean)
                     in if name \<noteq> [] then capitalize name else fallback))
        else fallback)"

section \<open>Field layout\<close>

definition field_order_name :: string where
  "field_order_name = ''_field_order''"

definition getFieldLayout :: "custom_field list \<Rightarrow> string list \<Rightarrow> string list" where
  "getFieldLayout customFields activeStandardFields =
     (let layoutCf = List.find (\<lambda>cf. cf_name cf = field_order_name) customFields;
          activeCustom = map cf_id (filter (\<lambda>cf. cf_name cf \<noteq> field_order_name \<and> cf_id cf \<noteq> []) customFields);
          validActiveStandard = filter (\<lambda>s. s \<noteq> []) activeStandardFields;
          allActive = uniq (validActiveStandard @ activeCustom)
      in case layoutCf of
           None \<Rightarrow> allActive
         | Some cf \<Rightarrow>
             if cf_value cf = [] then allActive
             else let savedOrder = filter (\<lambda>s. s \<noteq> []) (map trim (split_on (CHR '','') (cf_value cf)));
                      ordered = uniq (filter (\<lambda>i. i \<in> set allActive) savedOrder);
                      missing = filter (\<lambda>i. i \<notin> set ordered) allActive
                  in uniq (ordered @ missing))"

datatype attachment_icon = ImageIcon | TextIcon | ArchiveIcon | ClipIcon

text \<open>\<open>name.split('.').pop()\<close>: what follows the last dot, or the whole name.\<close>

definition file_ext :: "string \<Rightarrow> string" where
  "file_ext name = to_lower (last (split_on (CHR ''.'') name))"

definition getAttachmentIcon :: "string \<Rightarrow> string \<Rightarrow> attachment_icon" where
  "getAttachmentIcon mimeType name =
     (let mime = to_lower mimeType; ext = file_ext name in
      if starts_with mime ''image/'' \<or> ext \<in> set [''png'', ''jpg'', ''jpeg'', ''gif'', ''svg'', ''webp'']
      then ImageIcon
      else if starts_with mime ''text/'' \<or> ext \<in> set [''txt'', ''md'', ''json'', ''csv'', ''log'', ''xml'']
      then TextIcon
      else if has_sub mime ''zip'' \<or> has_sub mime ''tar'' \<or> ext \<in> set [''zip'', ''7z'', ''rar'', ''gz'', ''tar'']
      then ArchiveIcon
      else ClipIcon)"

section \<open>Properties\<close>

lemma TOTP_remaining_bounds:
  "0 < period \<Longrightarrow> 1 \<le> getTOTPRemainingSeconds now period \<and> getTOTPRemainingSeconds now period \<le> period"
  by (auto simp: getTOTPRemainingSeconds_def Let_def Suc_le_eq)

lemma isAppPath_http [simp]: "http_scheme (trim t) \<Longrightarrow> \<not> isAppPath (Some t)"
  by (simp add: isAppPath_def Let_def)

lemma isAppPath_blocked_scheme:
  "app_scheme (trim t) = Some name \<Longrightarrow> to_lower name \<in> set blocked_schemes \<Longrightarrow> \<not> isAppPath (Some t)"
  by (auto simp: isAppPath_def Let_def)

lemma isWebUrl_iff: "isWebUrl (Some t) \<longleftrightarrow> trim t \<noteq> [] \<and> \<not> isAppPath (Some t)"
  by (simp add: isWebUrl_def)

lemma isAppPath_trim: "isAppPath (Some (trim t)) = isAppPath (Some t)"
  by (simp add: isAppPath_def)

lemma http_scheme_https [simp]:
  "http_scheme (CHR ''h'' # CHR ''t'' # CHR ''t'' # CHR ''p'' # CHR ''s'' # CHR '':'' # CHR ''/'' # CHR ''/'' # s)"
  by (simp add: http_scheme_def to_lower_def lower_char_def)

lemma lower_char_letter:
  assumes "is_letter (lower_char c)"
  shows "is_letter c"
proof -
  have "of_char (char_of (code_of c + 32) :: char) = (code_of c + 32) mod (256::nat)"
    by (simp add: of_char_of)
  then show ?thesis using assms by (auto simp: is_letter_def lower_char_def split: if_splits)
qed

lemma blocked_scheme_letters:
  "to_lower name \<in> set blocked_schemes \<Longrightarrow> \<forall>c \<in> set name. is_letter c"
proof -
  assume "to_lower name \<in> set blocked_schemes"
  moreover have "\<forall>w \<in> set blocked_schemes. \<forall>c \<in> set w. is_letter c"
    by (simp add: blocked_schemes_def is_letter_def)
  ultimately have "\<forall>c \<in> set (to_lower name). is_letter c" by blast
  then show ?thesis by (auto simp: to_lower_def intro: lower_char_letter)
qed

lemma any_scheme_app_scheme:
  assumes "app_scheme s = Some name" and "\<forall>c \<in> set name. is_letter c"
  shows "any_scheme s"
proof -
  let ?Q = "\<lambda>c. is_letter c \<or> is_digit c \<or> c \<in> set ''+.-''"
  define rest where "rest = dropWhile scheme_char s"
  from assms(1) have ne: "name \<noteq> []" and s: "s = name @ rest" and r: "starts_with rest ''://''"
    by (auto simp: rest_def app_scheme_def span_class_def split: if_splits)
  from r have hd: "rest \<noteq> [] \<and> hd rest = CHR '':''" by (cases rest) auto
  have all: "\<forall>c \<in> set name. ?Q c" using assms(2) by blast
  from hd obtain r' where rest: "rest = CHR '':'' # r'" by (cases rest) auto
  have "takeWhile ?Q s = name" unfolding s rest
    by (subst takeWhile_append2) (use all in \<open>simp_all add: is_letter_def is_digit_def\<close>)
  moreover have "dropWhile ?Q s = rest" unfolding s rest
    by (subst dropWhile_append2) (use all in \<open>simp_all add: is_letter_def is_digit_def\<close>)
  ultimately show ?thesis using ne r by (simp add: any_scheme_def span_class_def rest)
qed

fun action_target :: "open_action \<Rightarrow> string" where
  "action_target (ShellOpen s) = s"
| "action_target (WindowOpen s) = s"

lemma any_scheme_blocked:
  assumes "app_scheme s = Some name" and "to_lower name \<in> set blocked_schemes"
  shows "any_scheme s"
  using assms(1) blocked_scheme_letters [OF assms(2)] by (rule any_scheme_app_scheme)

text \<open>The three scheme tests, as what they say of the text.\<close>

lemma span_class_prefix:
  "list_all P n \<Longrightarrow> \<not> P c \<Longrightarrow> span_class P (n @ c # r) = (n, c # r)"
  by (simp add: span_class_def list_all_iff takeWhile_append2 dropWhile_append2)

lemma span_class_split:
  "span_class P s = (n, c # r) \<Longrightarrow> s = n @ c # r \<and> list_all P n"
  by (auto simp: span_class_def list_all_iff dest: set_takeWhileD) (metis takeWhile_dropWhile_id)

lemma app_scheme_iff:
  "app_scheme s = Some n \<longleftrightarrow> n \<noteq> [] \<and> list_all scheme_char n \<and> (\<exists>r. s = n @ ''://'' @ r)"
proof
  assume a: "app_scheme s = Some n"
  obtain m rest where sp: "span_class scheme_char s = (m, rest)" by fastforce
  with a obtain r where "rest = CHR '':'' # CHR ''/'' # CHR ''/'' # r" "m = n" "n \<noteq> []"
    by (cases rest; cases "tl rest"; cases "tl (tl rest)") (auto simp: app_scheme_def split: if_splits)
  with span_class_split [of scheme_char s n "CHR '':''" "CHR ''/'' # CHR ''/'' # r"] sp
  show "n \<noteq> [] \<and> list_all scheme_char n \<and> (\<exists>r. s = n @ ''://'' @ r)" by simp
next
  assume "n \<noteq> [] \<and> list_all scheme_char n \<and> (\<exists>r. s = n @ ''://'' @ r)"
  then show "app_scheme s = Some n"
    by (auto simp: app_scheme_def span_class_prefix scheme_char_def is_letter_def is_digit_def)
qed

definition url_scheme_char :: "char \<Rightarrow> bool" where
  "url_scheme_char c \<longleftrightarrow> is_letter c \<or> is_digit c \<or> c \<in> set ''+.-''"

lemma any_scheme_iff:
  "any_scheme s \<longleftrightarrow> (\<exists>n r. s = n @ CHR '':'' # r \<and> n \<noteq> [] \<and> list_all url_scheme_char n)"
proof
  assume a: "any_scheme s"
  obtain m rest where sp: "span_class url_scheme_char s = (m, rest)" by fastforce
  with a obtain r where "rest = CHR '':'' # r" "m \<noteq> []"
    by (cases rest) (auto simp: any_scheme_def url_scheme_char_def [abs_def] split: if_splits)
  with span_class_split [of url_scheme_char s m "CHR '':''" r] sp
  show "\<exists>n r. s = n @ CHR '':'' # r \<and> n \<noteq> [] \<and> list_all url_scheme_char n" by blast
next
  assume "\<exists>n r. s = n @ CHR '':'' # r \<and> n \<noteq> [] \<and> list_all url_scheme_char n"
  then obtain n r where "s = n @ CHR '':'' # r" "n \<noteq> []" "list_all url_scheme_char n" by blast
  moreover have "\<not> url_scheme_char (CHR '':'')" by (simp add: url_scheme_char_def is_letter_def is_digit_def)
  ultimately show "any_scheme s"
    using span_class_prefix [of url_scheme_char n "CHR '':''" r]
    by (simp add: any_scheme_def url_scheme_char_def [abs_def])
qed

text \<open>
  A target that names a program: \<open>name://\<close> with a scheme that is not one of the blocked ones, or, with
  no \<open>name://\<close> at all, a drive or network path, an executable's extension or a program directory.
\<close>

definition names_program :: "string \<Rightarrow> bool" where
  "names_program t \<longleftrightarrow>
     (\<exists>n r. t = n @ ''://'' @ r \<and> n \<noteq> [] \<and> list_all scheme_char n \<and> to_lower n \<notin> set blocked_schemes) \<or>
     ((\<nexists>n r. t = n @ ''://'' @ r \<and> n \<noteq> [] \<and> list_all scheme_char n) \<and>
      (drive_path t \<or> unc_path t \<or> executable_ext t \<or> (hd t = CHR ''/'' \<and> (has_sub t ''.app'' \<or> unix_bin t))))"

lemma isAppPath_names: "isAppPath (Some t) \<Longrightarrow> names_program (trim t)"
proof -
  assume a: "isAppPath (Some t)"
  then have app: "isAppPath (Some (trim t))" and ne: "trim t \<noteq> []" by (auto simp: isAppPath_trim isAppPath_def)
  show ?thesis
  proof (cases "app_scheme (trim t)")
    case None
    then have "\<nexists>n r. trim t = n @ ''://'' @ r \<and> n \<noteq> [] \<and> list_all scheme_char n"
      using app_scheme_iff [of "trim t"] by fastforce
    moreover have "drive_path (trim t) \<or> unc_path (trim t) \<or> executable_ext (trim t) \<or>
        hd (trim t) = CHR ''/'' \<and> (has_sub (trim t) ''.app'' \<or> unix_bin (trim t))"
      using a None ne by (cases "trim t") (auto simp: isAppPath_def Let_def split: if_splits)
    ultimately show ?thesis unfolding names_program_def by blast
  next
    case (Some n)
    with a have "to_lower n \<notin> set blocked_schemes" by (auto simp: isAppPath_def Let_def split: if_splits)
    with Some show ?thesis unfolding names_program_def app_scheme_iff by blast
  qed
qed

text \<open>An address the browser may be given: what the URL parser calls \<open>http:\<close> or \<open>https:\<close>, for the shell.\<close>

definition web_checked :: "(string \<Rightarrow> url option) \<Rightarrow> open_action \<Rightarrow> bool" where
  "web_checked parse a \<longleftrightarrow>
     (case a of
        ShellOpen u \<Rightarrow> (case parse u of None \<Rightarrow> False | Some p \<Rightarrow> u_protocol p = ''http:'' \<or> u_protocol p = ''https:'')
      | WindowOpen u \<Rightarrow> True)"

text \<open>
  Claim C16. Everything \<open>openExternalUrl\<close> opens, for whatever target, is one of three: the trimmed
  target handed to the shell as a program, which is then a \<open>name://\<close> of no blocked scheme (\<open>file\<close>,
  \<open>javascript\<close>, \<open>data\<close>, \<open>blob\<close>, \<open>ftp\<close>) or, without \<open>name://\<close>, a drive or network path, an executable's
  name or a program directory; the trimmed target, when it begins with \<open>http://\<close> or \<open>https://\<close>; or
  \<open>https://\<close> put before a target that has no scheme of its own and does not begin with a slash. In the
  last two cases the shell is only handed what the URL parser takes for http or https.
\<close>

theorem openExternalUrl_safe:
  assumes "a \<in> set (openExternalUrl parse ok target)"
  shows "(a = ShellOpen (trim target) \<and> names_program (trim target)) \<or>
    (action_target a = trim target \<and> http_scheme (trim target) \<and> web_checked parse a) \<or>
    (action_target a = ''https://'' @ trim target \<and> web_checked parse a \<and> hd (trim target) \<noteq> CHR ''/'' \<and>
     (\<nexists>n r. trim target = n @ CHR '':'' # r \<and> n \<noteq> [] \<and> list_all url_scheme_char n))"
proof (cases "isAppPath (Some target)")
  case True
  with isAppPath_names [OF this] assms show ?thesis
    by (auto simp: openExternalUrl_def Let_def isAppPath_trim split: if_splits)
next
  case False
  have slash: "starts_with (trim target) ''/'' \<longleftrightarrow> hd (trim target) = CHR ''/''" if "trim target \<noteq> []"
    using that by (cases "trim target") auto
  show ?thesis using assms False slash unfolding any_scheme_iff [symmetric]
    by (auto simp: openExternalUrl_def Let_def isAppPath_trim web_checked_def split: if_splits option.splits)
qed

theorem openExternalUrl_safe_witness:
  "web_checked (\<lambda>s. Some \<lparr>u_protocol = ''https:'', u_hostname = ''a.com'', u_username = [], u_password = [], u_href = s\<rparr>)
     (ShellOpen ''https://a.com'')"
proof -
  let ?p = "\<lambda>s. Some \<lparr>u_protocol = ''https:'', u_hostname = ''a.com'', u_username = [],
    u_password = [], u_href = s\<rparr>"
  have no_app: "\<not> isAppPath (Some ''a.com'')"
    by (simp add: isAppPath_def http_scheme_def app_scheme_def scheme_char_def executable_ext_def
        unc_path_def js_eval Let_def)
  have "ShellOpen ''https://a.com'' \<in> set (openExternalUrl ?p True ''a.com'')"
    using no_app by (simp add: openExternalUrl_def http_scheme_def any_scheme_def unc_path_def js_eval Let_def)
  moreover have "ShellOpen ''https://a.com'' \<noteq> ShellOpen (trim ''a.com'')" by (simp add: js_eval)
  ultimately show ?thesis using openExternalUrl_safe [of "ShellOpen ''https://a.com''" ?p True "''a.com''"] by blast
qed

lemma openExternalUrl_blocked_scheme:
  assumes "app_scheme (trim target) = Some name"
    and "to_lower name \<in> set blocked_schemes" and "\<not> http_scheme (trim target)"
  shows "openExternalUrl parse ok target = []"
proof -
  have app: "\<not> isAppPath (Some (trim target))"
    using isAppPath_blocked_scheme [OF assms(1,2)] by (simp add: isAppPath_trim)
  have "any_scheme (trim target)"
    using assms(1,2) by (rule any_scheme_blocked)
  then show ?thesis using app assms(3)
    by (simp add: openExternalUrl_def Let_def)
qed

text \<open>
  The extension test of \<open>isAppPath\<close> runs before the rejection of other schemes, so a target
  such as \<open>ms-msdt:x.exe\<close>, which the comment in \<open>openExternalUrl\<close> names as dangerous, is
  handed to the shell.
\<close>

lemma openExternalUrl_extension_gap:
  "openExternalUrl parse True ''ms-msdt:x.exe'' = [ShellOpen ''ms-msdt:x.exe'']"
  by (simp add: openExternalUrl_def isAppPath_def http_scheme_def app_scheme_def scheme_char_def
      executable_ext_def unc_path_def js_eval Let_def)

text \<open>Drive and network-share paths are opened too: the later test that rejects them is not reached.\<close>

lemma drive_path_class:
  "drive_path s \<Longrightarrow> \<not> http_scheme s \<and> (\<forall>n. app_scheme s = Some n \<longrightarrow> length n = 1) \<and> s \<noteq> []"
  by (cases s rule: drive_path.cases)
     (auto simp: http_scheme_def app_scheme_def span_class_def scheme_char_def to_lower_def
        lower_char_def backslash_def is_letter_def is_digit_def split: if_splits)

lemma unc_path_class: "unc_path s \<Longrightarrow> \<not> http_scheme s \<and> app_scheme s = None \<and> s \<noteq> []"
  by (cases s)
     (auto simp: unc_path_def http_scheme_def app_scheme_def span_class_def scheme_char_def to_lower_def
        lower_char_def backslash_def is_letter_def is_digit_def)

lemma blocked_scheme_length: "to_lower n \<in> set blocked_schemes \<Longrightarrow> length n \<noteq> 1"
proof
  assume "to_lower n \<in> set blocked_schemes" and "length n = 1"
  moreover have "\<forall>w \<in> set blocked_schemes. length w \<noteq> 1" by (simp add: blocked_schemes_def)
  ultimately show False by (metis length_map to_lower_def)
qed

lemma openExternalUrl_local_path:
  assumes "drive_path (trim target) \<or> unc_path (trim target)"
  shows "openExternalUrl parse ok target = [ShellOpen (trim target)]"
proof -
  have cls: "\<not> http_scheme (trim target)" "trim target \<noteq> []"
      "\<forall>n. app_scheme (trim target) = Some n \<longrightarrow> length n = 1"
    using assms drive_path_class [of "trim target"] unc_path_class [of "trim target"] by auto
  then have "isAppPath (Some (trim target))"
    using assms blocked_scheme_length by (auto simp: isAppPath_def Let_def split: option.splits)
  then show ?thesis using cls by (simp add: openExternalUrl_def Let_def)
qed

lemma upper_char_ne [simp]: "upper_char c \<noteq> []"
  by (simp add: upper_char_def)

lemma capitalize_ne: "s \<noteq> [] \<Longrightarrow> capitalize s \<noteq> []"
  by (cases s) (auto simp: capitalize_def to_upper_def)

lemma domain_title_ne: "d \<noteq> [] \<Longrightarrow> domain_title d \<noteq> []"
  by (auto simp: domain_title_def Let_def intro!: capitalize_ne)

lemma title_fallback_ne: "title_fallback domain email username \<noteq> []"
  by (auto simp: title_fallback_def domain_title_ne split: option.splits)

lemma deriveTitle_ne: "deriveTitle parse title u email username \<noteq> []"
  by (auto simp: deriveTitle_def Let_def title_fallback_ne app_scheme_def span_class_def
      intro!: capitalize_ne split: option.splits if_splits)

lemma getFieldLayout_distinct: "distinct (getFieldLayout cfs std)"
  by (simp add: getFieldLayout_def Let_def split: option.splits)

text \<open>The saved display order of an entry, as the layout field stores it.\<close>

definition saved_order :: "custom_field list \<Rightarrow> string list" where
  "saved_order cfs =
     (case List.find (\<lambda>cf. cf_name cf = field_order_name) cfs of
        None \<Rightarrow> []
      | Some cf \<Rightarrow> filter (\<lambda>s. s \<noteq> []) (map trim (split_on (CHR '','') (cf_value cf))))"

lemma getFieldLayout_set:
  "set (getFieldLayout cfs std) =
     {s \<in> set std. s \<noteq> []} \<union> {cf_id cf |cf. cf \<in> set cfs \<and> cf_name cf \<noteq> field_order_name \<and> cf_id cf \<noteq> []}"
  by (auto simp: getFieldLayout_def Let_def split: option.splits)

lemma getFieldLayout_prefix:
  "prefix (uniq (filter (\<lambda>i. i \<in> set (getFieldLayout cfs std)) (saved_order cfs)))
          (getFieldLayout cfs std)"
proof (cases "\<exists>cf. List.find (\<lambda>cf. cf_name cf = field_order_name) cfs = Some cf \<and> cf_value cf \<noteq> []")
  case True
  then obtain cf where cf: "List.find (\<lambda>cf. cf_name cf = field_order_name) cfs = Some cf" "cf_value cf \<noteq> []"
    by blast
  define A where "A = uniq (filter (\<lambda>s. s \<noteq> []) std @
    map cf_id (filter (\<lambda>cf. cf_name cf \<noteq> field_order_name \<and> cf_id cf \<noteq> []) cfs))"
  define R where "R = uniq (filter (\<lambda>i. i \<in> set A) (saved_order cfs))"
  have layout: "getFieldLayout cfs std = uniq (R @ filter (\<lambda>i. i \<notin> set R) A)"
    by (simp only: getFieldLayout_def saved_order_def Let_def A_def R_def cf option.case if_False)
  have "set (getFieldLayout cfs std) = set A"
    by (auto simp: layout R_def)
  then have "uniq (filter (\<lambda>i. i \<in> set (getFieldLayout cfs std)) (saved_order cfs)) = R"
    by (simp add: R_def)
  moreover have "prefix R (getFieldLayout cfs std)"
    by (simp add: layout uniq_append R_def)
  ultimately show ?thesis by simp
next
  case False
  then have "saved_order cfs = []"
    by (auto simp: saved_order_def split: option.splits)
  then show ?thesis by simp
qed


text \<open>
  The display order of an entry's fields is a permutation of its active fields: each
  active standard field and each custom field with an identifier (the layout record itself
  excluded) appears exactly once, and the fields named by the saved order come first, in that
  order.
\<close>

theorem getFieldLayout_correct:
  "distinct (getFieldLayout cfs std) \<and>
   set (getFieldLayout cfs std) =
     {s \<in> set std. s \<noteq> []} \<union> {cf_id cf |cf. cf \<in> set cfs \<and> cf_name cf \<noteq> field_order_name \<and> cf_id cf \<noteq> []} \<and>
   prefix (uniq (filter (\<lambda>i. i \<in> set (getFieldLayout cfs std)) (saved_order cfs)))
          (getFieldLayout cfs std)"
  using getFieldLayout_distinct getFieldLayout_set getFieldLayout_prefix by blast

end
