(* ===== verification/Entry_Model.thy ===== *)
theory Entry_Model
  imports Text_Utils "HOL-Library.Multiset"
begin

text \<open>
  The pure part of the entries feature: \<open>EntriesContext.model.ts\<close> (conversions between the
  back end's and the front end's entries, the breach re-check rule, filtering and sorting),
  \<open>entryFields.ts\<close> and \<open>loginFields.ts\<close>, and the payloads that \<open>updateEntry\<close> and \<open>addEntry\<close> of
  \<open>EntriesContext.provider.tsx\<close> build. The platform's \<open>Date.parse\<close> is the parameter
  \<open>date_parse\<close> (\<open>None\<close> for NaN, else milliseconds), \<open>localeCompare\<close> the parameter \<open>collate\<close>.
\<close>

section \<open>List previews\<close>

definition has_totp_mark :: string where
  "has_totp_mark = ''has-totp''"

definition entryPreviewToPasswordEntry :: "entry_preview \<Rightarrow> string \<Rightarrow> password_entry" where
  "entryPreviewToPasswordEntry p password =
     \<lparr>pe_id = pv_id p, pe_title = pv_title p, pe_username = pv_username p, pe_password = password,
      pe_url = pv_url p, pe_email = pv_email p, pe_notes = [], pe_tags = pv_tags p,
      pe_favorite = pv_favorite p, pe_pinned = pv_pinned p,
      pe_totpSecret = (if pv_has_totp p then Some has_totp_mark else None), pe_recoveryCodes = None,
      pe_customFields = [], pe_createdAt = pv_updated_at p, pe_updatedAt = pv_updated_at p,
      pe_breachStatus = Some (pv_breach_status p), pe_hasPasskey = pv_has_passkey p,
      pe_passkeyPublicKey = None, pe_generatePasskey = None, pe_passkeyAction = None,
      pe_attachments = None, pe_newAttachments = None, pe_deleteAttachmentIds = None,
      pe_attachmentCount = Some (or_else (pv_attachment_count p) 0)\<rparr>"

definition passwordEntryToPreview :: "password_entry \<Rightarrow> password_entry" where
  "passwordEntryToPreview e =
     \<lparr>pe_id = pe_id e, pe_title = pe_title e, pe_username = pe_username e, pe_password = mask,
      pe_url = pe_url e, pe_email = pe_email e, pe_notes = [], pe_tags = pe_tags e,
      pe_favorite = pe_favorite e, pe_pinned = pe_pinned e,
      pe_totpSecret = (if truthy_str (pe_totpSecret e) then Some has_totp_mark else None),
      pe_recoveryCodes = None, pe_customFields = [],
      pe_createdAt = pe_createdAt e, pe_updatedAt = pe_updatedAt e,
      pe_breachStatus = pe_breachStatus e, pe_hasPasskey = pe_hasPasskey e,
      pe_passkeyPublicKey = None, pe_generatePasskey = None, pe_passkeyAction = None,
      pe_attachments = None, pe_newAttachments = None, pe_deleteAttachmentIds = None,
      pe_attachmentCount =
        Some (or_else (pe_attachmentCount e) (or_else (map_option length (pe_attachments e)) 0))\<rparr>"

text \<open>
  What the comment on \<open>passwordEntryToPreview\<close> promises of an entry kept in the list: no
  decrypted field, no key material, no staged attachment.
\<close>

definition list_safe :: "password_entry \<Rightarrow> bool" where
  "list_safe e \<longleftrightarrow>
     pe_password e = mask \<and> pe_notes e = [] \<and> pe_customFields e = [] \<and>
     pe_totpSecret e \<in> {None, Some has_totp_mark} \<and> pe_recoveryCodes e = None \<and>
     pe_passkeyPublicKey e = None \<and> pe_generatePasskey e = None \<and> pe_passkeyAction e = None \<and>
     pe_attachments e = None \<and> pe_newAttachments e = None \<and> pe_deleteAttachmentIds e = None"

section \<open>Breach re-check\<close>

definition day_ms :: int where
  "day_ms = 24 * 60 * 60 * 1000"

fun checked_at :: "breach_status \<Rightarrow> string option" where
  "checked_at (Safe t) = Some t"
| "checked_at (Breached n t) = Some t"
| "checked_at _ = None"

definition needsBreachRecheck :: "(string \<Rightarrow> int option) \<Rightarrow> breach_status option \<Rightarrow> int \<Rightarrow> bool" where
  "needsBreachRecheck date_parse status now =
     (case status of
        None \<Rightarrow> True
      | Some s \<Rightarrow>
          (case checked_at s of
             None \<Rightarrow> True
           | Some t \<Rightarrow>
               (case date_parse t of
                  None \<Rightarrow> True
                | Some c \<Rightarrow> c > now \<or> now - c \<ge> day_ms)))"

section \<open>Recovery codes and decrypted entries\<close>

definition recovery_names :: "string list" where
  "recovery_names = [''2fa recovery codes'', ''2fa recovery code'', ''2fa backup codes'',
     ''recovery codes'', ''recovery code'', ''backup codes'']"

definition isRecoveryField :: "string \<Rightarrow> bool" where
  "isRecoveryField name =
     (if name = [] then False
      else let norm = to_lower (trim name)
           in norm \<in> set recovery_names \<or> starts_with norm ''2fa recovery cod'')"

text \<open>The accumulation inside the filter callback of \<open>decryptedEntryToPasswordEntry\<close>.\<close>

fun collect_recovery :: "string \<Rightarrow> ipc_custom_field list \<Rightarrow> string" where
  "collect_recovery acc [] = acc"
| "collect_recovery acc (f # fs) =
     (if isRecoveryField (ic_name f) \<and> trim (ic_value f) \<noteq> []
      then collect_recovery (if acc \<noteq> [] then acc @ nl @ trim (ic_value f) else trim (ic_value f)) fs
      else collect_recovery acc fs)"

definition field_from_ipc :: "ipc_custom_field \<Rightarrow> custom_field" where
  "field_from_ipc f = \<lparr>cf_id = ic_id f, cf_name = ic_name f, cf_type = to_lower (ic_field_type f),
     cf_value = ic_value f, cf_sensitive = Some (ic_sensitive f)\<rparr>"

definition attachment_from_ipc :: "ipc_attachment \<Rightarrow> attachment_info" where
  "attachment_from_ipc a = \<lparr>at_id = ia_id a, at_name = ia_name a, at_size = ia_size a,
     at_mimeType = Some (ia_mime_type a), at_mime_type = None,
     at_createdAt = Some (ia_created_at a), at_created_at = None\<rparr>"

definition decryptedEntryToPasswordEntry :: "decrypted_entry \<Rightarrow> password_entry" where
  "decryptedEntryToPasswordEntry d =
     (let recoveryCodes = collect_recovery [] (de_custom_fields d);
          customFields = map field_from_ipc (filter (\<lambda>f. \<not> isRecoveryField (ic_name f)) (de_custom_fields d));
          attachments = map attachment_from_ipc (or_else (de_attachments d) [])
      in \<lparr>pe_id = de_id d, pe_title = de_title d, pe_username = de_username d,
          pe_password = de_password d, pe_url = de_url d, pe_email = de_email d,
          pe_notes = de_notes d, pe_tags = de_tags d, pe_favorite = de_favorite d,
          pe_pinned = de_pinned d, pe_totpSecret = or_undefined (de_totp_secret d),
          pe_recoveryCodes = or_undefined (Some recoveryCodes), pe_customFields = customFields,
          pe_createdAt = de_created_at d, pe_updatedAt = de_updated_at d,
          pe_breachStatus = Some (de_breach_status d), pe_hasPasskey = de_has_passkey d,
          pe_passkeyPublicKey = de_passkey_public_key d, pe_generatePasskey = None,
          pe_passkeyAction = None, pe_attachments = Some attachments, pe_newAttachments = None,
          pe_deleteAttachmentIds = None, pe_attachmentCount = Some (length attachments)\<rparr>)"

section \<open>Payloads for the back end\<close>

text \<open>\<open>entry.recoveryCodes\<close>, or else the values of the recovery fields, one per line.\<close>

definition recovery_of :: "password_entry \<Rightarrow> string option" where
  "recovery_of e =
     (if truthy_str (pe_recoveryCodes e) then pe_recoveryCodes e
      else let found = filter (\<lambda>f. isRecoveryField (cf_name f)) (pe_customFields e)
           in if found = [] then pe_recoveryCodes e else Some (join_with nl (map cf_value found)))"

definition cleaned_fields :: "password_entry \<Rightarrow> custom_field list" where
  "cleaned_fields e = filter (\<lambda>f. \<not> isRecoveryField (cf_name f)) (pe_customFields e)"

definition field_to_ipc :: "custom_field \<Rightarrow> ipc_custom_field" where
  "field_to_ipc f = \<lparr>ic_id = cf_id f, ic_name = cf_name f, ic_field_type = capitalize (cf_type f),
     ic_value = cf_value f, ic_sensitive = or_else (cf_sensitive f) (cf_type f = ''password'')\<rparr>"

definition recovery_field_name :: string where
  "recovery_field_name = ''2FA Recovery Codes''"

definition custom_fields_to_send :: "string \<Rightarrow> password_entry \<Rightarrow> ipc_custom_field list" where
  "custom_fields_to_send uuid e =
     map field_to_ipc (cleaned_fields e) @
     (case recovery_of e of
        None \<Rightarrow> []
      | Some codes \<Rightarrow>
          if trim codes = [] then []
          else [\<lparr>ic_id = uuid, ic_name = recovery_field_name, ic_field_type = ''Password'',
                 ic_value = trim codes, ic_sensitive = True\<rparr>])"

definition updated_entry :: "string \<Rightarrow> password_entry \<Rightarrow> password_entry" where
  "updated_entry now e = e\<lparr>pe_recoveryCodes := recovery_of e, pe_customFields := cleaned_fields e,
     pe_updatedAt := now\<rparr>"

text \<open>An optional list that is sent only when it has elements.\<close>

definition nonempty :: "'a list option \<Rightarrow> 'a list option" where
  "nonempty xs = (case xs of Some (y # ys) \<Rightarrow> xs | _ \<Rightarrow> None)"

definition update_payload :: "string \<Rightarrow> password_entry \<Rightarrow> update_entry" where
  "update_payload uuid e =
     \<lparr>ue_title = Some (pe_title e), ue_username = Some (pe_username e),
      ue_password = Some (pe_password e), ue_url = Some (pe_url e), ue_email = Some (pe_email e),
      ue_notes = Some (pe_notes e), ue_tags = Some (pe_tags e), ue_favorite = Some (pe_favorite e),
      ue_pinned = Some (pe_pinned e),
      ue_totp_secret = (if pe_totpSecret e = Some has_totp_mark then None else pe_totpSecret e),
      ue_custom_fields = Some (custom_fields_to_send uuid e), ue_breach_status = None,
      ue_passkey_action = pe_passkeyAction e,
      ue_new_attachments = nonempty (pe_newAttachments e),
      ue_delete_attachment_ids = nonempty (pe_deleteAttachmentIds e)\<rparr>"

definition new_entry_payload :: "string \<Rightarrow> password_entry \<Rightarrow> new_entry" where
  "new_entry_payload uuid e =
     \<lparr>ne_title = pe_title e, ne_username = pe_username e, ne_password = pe_password e,
      ne_url = pe_url e, ne_email = pe_email e, ne_notes = pe_notes e, ne_tags = pe_tags e,
      ne_totp_secret = or_undefined (pe_totpSecret e),
      ne_custom_fields = custom_fields_to_send uuid e, ne_entry_type = None,
      ne_generate_passkey = pe_generatePasskey e, ne_attachments = pe_newAttachments e\<rparr>"

section \<open>Filtering and sorting\<close>

text \<open>\<open>FilterCategory\<close>: \<open>'all'\<close>, \<open>'favorites'\<close> or the name of a tag.\<close>

type_synonym filter_category = string

definition matches_search :: "string \<Rightarrow> password_entry \<Rightarrow> bool" where
  "matches_search term e \<longleftrightarrow>
     has_sub (to_lower (pe_title e)) term \<or> has_sub (to_lower (pe_username e)) term \<or>
     has_sub (to_lower (pe_url e)) term \<or> (\<exists>t \<in> set (pe_tags e). has_sub (to_lower t) term)"

definition filter_entries :: "filter_category \<Rightarrow> string \<Rightarrow> password_entry list \<Rightarrow> password_entry list" where
  "filter_entries category searchTerm entries =
     (let result = (if category = ''favorites'' then filter pe_favorite entries
                    else if category \<noteq> ''all'' then filter (\<lambda>e. category \<in> set (pe_tags e)) entries
                    else entries)
      in if trim searchTerm \<noteq> [] then filter (matches_search (to_lower searchTerm)) result else result)"

definition time_of :: "(string \<Rightarrow> int option) \<Rightarrow> string \<Rightarrow> int" where
  "time_of date_parse s = or_else (date_parse s) 0"

definition str_or :: "string \<Rightarrow> string \<Rightarrow> string" where
  "str_or a b = (if a \<noteq> [] then a else b)"

text \<open>The comparator handed to \<open>Array.prototype.sort\<close>: negative, zero or positive.\<close>

definition compare_entries ::
  "(string \<Rightarrow> int option) \<Rightarrow> (string \<Rightarrow> string \<Rightarrow> int) \<Rightarrow> entry_sort option \<Rightarrow>
   password_entry \<Rightarrow> password_entry \<Rightarrow> int" where
  "compare_entries date_parse collate order a b =
     (if pe_pinned a \<and> \<not> pe_pinned b then - 1
      else if \<not> pe_pinned a \<and> pe_pinned b then 1
      else case or_else order SortUpdated of
             SortTitle \<Rightarrow> collate (pe_title a) (pe_title b)
           | SortCreated \<Rightarrow>
               time_of date_parse (str_or (pe_createdAt b) (pe_updatedAt b)) -
               time_of date_parse (str_or (pe_createdAt a) (pe_updatedAt a))
           | SortUpdated \<Rightarrow>
               time_of date_parse (str_or (pe_updatedAt b) (pe_createdAt b)) -
               time_of date_parse (str_or (pe_updatedAt a) (pe_createdAt a)))"

text \<open>\<open>Array.prototype.sort\<close> is stable: an element goes before the later elements it equals.\<close>

fun insert_by :: "('a \<Rightarrow> 'a \<Rightarrow> int) \<Rightarrow> 'a \<Rightarrow> 'a list \<Rightarrow> 'a list" where
  "insert_by cmp x [] = [x]"
| "insert_by cmp x (y # ys) = (if cmp x y \<le> 0 then x # y # ys else y # insert_by cmp x ys)"

definition sort_by :: "('a \<Rightarrow> 'a \<Rightarrow> int) \<Rightarrow> 'a list \<Rightarrow> 'a list" where
  "sort_by cmp xs = foldr (insert_by cmp) xs []"

definition useFilteredEntries ::
  "(string \<Rightarrow> int option) \<Rightarrow> (string \<Rightarrow> string \<Rightarrow> int) \<Rightarrow> entry_sort option \<Rightarrow>
   filter_category \<Rightarrow> string \<Rightarrow> password_entry list \<Rightarrow> password_entry list" where
  "useFilteredEntries date_parse collate order category searchTerm entries =
     sort_by (compare_entries date_parse collate order) (filter_entries category searchTerm entries)"

section \<open>Standard fields of an entry\<close>

definition standard_keys :: "string list" where
  "standard_keys = [''username'', ''password'', ''url'', ''email'', ''notes'', ''totpSecret'',
     ''passkey'', ''attachments'']"

text \<open>\<open>entry[field]\<close> for the text fields.\<close>

definition entry_text :: "password_entry \<Rightarrow> string \<Rightarrow> string" where
  "entry_text e f =
     (if f = ''username'' then pe_username e else if f = ''password'' then pe_password e
      else if f = ''url'' then pe_url e else if f = ''email'' then pe_email e
      else if f = ''notes'' then pe_notes e
      else if f = ''totpSecret'' then or_else (pe_totpSecret e) [] else [])"

definition preset_keeps :: "password_entry \<Rightarrow> string \<Rightarrow> bool" where
  "preset_keeps e i =
     (if i = ''attachments'' then True
      else if i = ''passkey'' then pe_hasPasskey e
      else if i \<in> set [''username'', ''password'', ''email'', ''url'', ''notes'', ''totpSecret'']
      then entry_text e i \<noteq> []
      else \<exists>f \<in> set (pe_customFields e). cf_id f = i)"

definition applyFieldPreset :: "password_entry \<Rightarrow> string list \<Rightarrow> string list \<Rightarrow> string list" where
  "applyFieldPreset e order preset = uniq (preset @ filter (preset_keeps e) order)"

text \<open>The standard fields named by the saved order, and those pushed because they hold data.\<close>

definition saved_layout :: "password_entry \<Rightarrow> string option" where
  "saved_layout e = map_option cf_value (List.find (\<lambda>f. cf_name f = field_order_name) (pe_customFields e))"

definition saved_standard :: "password_entry \<Rightarrow> string list" where
  "saved_standard e =
     (case saved_layout e of
        None \<Rightarrow> []
      | Some s \<Rightarrow> filter (\<lambda>v. v \<in> set standard_keys) (map trim (split_on (CHR '','') s)))"

definition filled_standard :: "password_entry \<Rightarrow> string \<Rightarrow> string list" where
  "filled_standard e recoveryCodes =
     filter (\<lambda>f. entry_text e f \<noteq> [] \<and> entry_text e f \<noteq> mask)
       [''username'', ''password'', ''url'', ''email'', ''notes''] @
     (if truthy_str (pe_totpSecret e) \<or> recoveryCodes \<noteq> [] then [''totpSecret''] else []) @
     (if pe_hasPasskey e then [''passkey''] else []) @
     (if or_else (pe_attachments e) [] \<noteq> [] \<or> or_else (pe_attachmentCount e) 0 \<noteq> 0
      then [''attachments''] else [])"

definition entryStandardFields :: "password_entry \<Rightarrow> string \<Rightarrow> string list" where
  "entryStandardFields e recoveryCodes =
     (let fs = saved_standard e @ filled_standard e recoveryCodes
      in uniq (if fs = [] \<and> \<not> truthy_str (saved_layout e) then [''username'', ''password'', ''url''] else fs))"

definition fieldOrderMetadata ::
  "string \<Rightarrow> custom_field list \<Rightarrow> string list \<Rightarrow> string option \<Rightarrow> custom_field" where
  "fieldOrderMetadata uuid cfs order entryId =
     \<lparr>cf_id = (let found = or_else (map_option cf_id
                              (List.find (\<lambda>f. cf_name f = field_order_name) cfs)) []
               in if found \<noteq> [] then found
                  else if truthy_str entryId then the entryId else uuid),
      cf_name = field_order_name, cf_type = ''text'', cf_value = join_with '','' order,
      cf_sensitive = None\<rparr>"

section \<open>The fields Smart Login uses\<close>

record login_candidate =
  lc_id :: string
  lc_type :: string
  lc_value :: string

record login_result =
  lr_identifier :: "login_candidate option"
  lr_password :: "login_candidate option"
  lr_url :: "login_candidate option"

definition login_candidates :: "password_entry \<Rightarrow> string list option \<Rightarrow> login_candidate list" where
  "login_candidates e order =
     (let fs = filter (\<lambda>f. \<not> starts_with (cf_name f) ''_'' \<and> \<not> isRecoveryField (cf_name f)) (pe_customFields e);
          ids = or_else order (getFieldLayout (pe_customFields e) [''username'', ''email'', ''password'', ''url'']);
          look = (\<lambda>i. if i \<in> set [''username'', ''email'', ''password'', ''url'']
                      then Some \<lparr>lc_id = i, lc_type = i, lc_value = entry_text e i\<rparr>
                      else map_option (\<lambda>f. \<lparr>lc_id = cf_id f, lc_type = cf_type f, lc_value = cf_value f\<rparr>)
                             (List.find (\<lambda>f. cf_id f = i) fs))
      in filter (\<lambda>c. trim (lc_value c) \<noteq> []) (List.map_filter look ids))"

definition loginFields :: "password_entry \<Rightarrow> string list option \<Rightarrow> login_result" where
  "loginFields e order =
     (let candidates = login_candidates e order in
      \<lparr>lr_identifier = List.find (\<lambda>c. lc_type c \<in> set [''username'', ''email'', ''phone'']) candidates,
       lr_password = List.find (\<lambda>c. lc_type c = ''password'') candidates,
       lr_url = List.find (\<lambda>c. lc_type c = ''url'') candidates\<rparr>)"

section \<open>Sample entries\<close>

definition sample_entry :: password_entry where
  "sample_entry = \<lparr>pe_id = ''e1'', pe_title = ''Mail'', pe_username = ''ann'', pe_password = ''s3cret'',
     pe_url = ''mail.example'', pe_email = [], pe_notes = ''n'', pe_tags = [''work''],
     pe_favorite = False, pe_pinned = False, pe_totpSecret = None, pe_recoveryCodes = Some '' abc'',
     pe_customFields = [\<lparr>cf_id = ''f1'', cf_name = ''PIN'', cf_type = ''password'', cf_value = ''1'', cf_sensitive = None\<rparr>],
     pe_createdAt = ''a'', pe_updatedAt = ''b'', pe_breachStatus = None, pe_hasPasskey = False,
     pe_passkeyPublicKey = None, pe_generatePasskey = None, pe_passkeyAction = None,
     pe_attachments = None, pe_newAttachments = None, pe_deleteAttachmentIds = None,
     pe_attachmentCount = None\<rparr>"

definition sample_decrypted :: decrypted_entry where
  "sample_decrypted = \<lparr>de_id = ''e1'', de_title = ''Mail'', de_username = ''ann'', de_password = ''s3cret'',
     de_url = ''mail.example'', de_email = [], de_notes = ''n'', de_tags = [''work''],
     de_favorite = False, de_pinned = False, de_totp_secret = None, de_custom_fields = [],
     de_entry_type = Login, de_created_at = ''a'', de_updated_at = ''b'', de_password_changed_at = ''b'',
     de_breach_status = Unknown, de_strength_score = None, de_password_history_count = 0,
     de_has_passkey = False, de_passkey_public_key = None, de_attachments = None\<rparr>"

section \<open>Previews carry no secret\<close>

lemma list_safe_preview [simp]: "list_safe (passwordEntryToPreview e)"
  by (simp add: list_safe_def passwordEntryToPreview_def)

lemma list_safe_listed [simp]: "list_safe (entryPreviewToPasswordEntry p mask)"
  by (simp add: list_safe_def entryPreviewToPasswordEntry_def)

lemma preview_idem: "passwordEntryToPreview (passwordEntryToPreview e) = passwordEntryToPreview e"
  by (simp add: passwordEntryToPreview_def has_totp_mark_def)

lemma preview_id [simp]: "pe_id (passwordEntryToPreview e) = pe_id e"
  by (simp add: passwordEntryToPreview_def)

lemma preview_tags [simp]: "pe_tags (passwordEntryToPreview e) = pe_tags e"
  by (simp add: passwordEntryToPreview_def)

lemma listed_id [simp]: "pe_id (entryPreviewToPasswordEntry p pw) = pv_id p"
  by (simp add: entryPreviewToPasswordEntry_def)

lemma decrypted_id [simp]: "pe_id (decryptedEntryToPasswordEntry d) = de_id d"
  by (simp add: decryptedEntryToPasswordEntry_def Let_def)

lemma updated_entry_id [simp]: "pe_id (updated_entry now e) = pe_id e"
  by (simp add: updated_entry_def)

section \<open>Recovery codes\<close>

lemma collect_recovery_none:
  "\<forall>f \<in> set fs. \<not> isRecoveryField (ic_name f) \<Longrightarrow> collect_recovery acc (fs @ gs) = collect_recovery acc gs"
  by (induction fs) auto

lemma recovery_field_name_is [simp]: "isRecoveryField recovery_field_name"
  by (simp add: isRecoveryField_def recovery_field_name_def recovery_names_def js_case_eval Let_def)

lemma field_type_roundtrip: "t \<in> set field_types \<Longrightarrow> to_lower (capitalize t) = t"
  by (auto simp: field_types_def capitalize_def js_case_eval)

lemma ipc_field_type_roundtrip: "t \<in> set ipc_field_types \<Longrightarrow> capitalize (to_lower t) = t"
  by (auto simp: ipc_field_types_def capitalize_def js_case_eval)

lemma field_roundtrip:
  "cf_type f \<in> set field_types \<Longrightarrow>
   field_from_ipc (field_to_ipc f) =
     f\<lparr>cf_sensitive := Some (or_else (cf_sensitive f) (cf_type f = ''password''))\<rparr>"
  by (simp add: field_from_ipc_def field_to_ipc_def field_type_roundtrip)

lemma cleaned_fields_no_recovery: "f \<in> set (cleaned_fields e) \<Longrightarrow> \<not> isRecoveryField (cf_name f)"
  by (simp add: cleaned_fields_def)

lemma sent_fields_filter:
  "filter (\<lambda>f. \<not> isRecoveryField (ic_name f)) (custom_fields_to_send uuid e) = map field_to_ipc (cleaned_fields e)"
  by (auto simp: custom_fields_to_send_def field_to_ipc_def filter_map o_def cleaned_fields_def
      split: option.splits)

lemma sent_fields_codes:
  "collect_recovery [] (custom_fields_to_send uuid e) = trim (or_else (recovery_of e) [])"
proof -
  have "\<forall>f \<in> set (map field_to_ipc (cleaned_fields e)). \<not> isRecoveryField (ic_name f)"
    by (auto simp: field_to_ipc_def dest: cleaned_fields_no_recovery)
  then show ?thesis
    by (auto simp: custom_fields_to_send_def collect_recovery_none collect_recovery_none[of _ _ "[]", simplified]
        split: option.splits)
qed

definition resolved_field :: "custom_field \<Rightarrow> custom_field" where
  "resolved_field f = f\<lparr>cf_sensitive := Some (or_else (cf_sensitive f) (cf_type f = ''password''))\<rparr>"

text \<open>
  Claim C35. Saving and reading back keeps the custom fields and the recovery codes: if the back
  end stores the custom fields it was sent for an entry, then decrypting gives the entry's
  non-recovery fields unchanged, in order (the sensitivity default made explicit), and the
  trimmed recovery codes, whether they came from \<open>recoveryCodes\<close> or from recovery fields;
  no recovery field is left among the custom fields.
\<close>

theorem recovery_roundtrip:
  assumes "\<forall>f \<in> set (pe_customFields e). cf_type f \<in> set field_types"
    and "de_custom_fields d = custom_fields_to_send uuid e"
  shows "pe_customFields (decryptedEntryToPasswordEntry d) = map resolved_field (cleaned_fields e) \<and>
         pe_recoveryCodes (decryptedEntryToPasswordEntry d) = or_undefined (Some (trim (or_else (recovery_of e) []))) \<and>
         (\<forall>f \<in> set (pe_customFields (decryptedEntryToPasswordEntry d)). \<not> isRecoveryField (cf_name f))"
proof -
  have "map (field_from_ipc \<circ> field_to_ipc) (cleaned_fields e) = map resolved_field (cleaned_fields e)"
    using assms(1) by (auto simp: cleaned_fields_def resolved_field_def field_roundtrip)
  then show ?thesis using assms(2)
    by (auto simp: decryptedEntryToPasswordEntry_def Let_def sent_fields_filter sent_fields_codes
        resolved_field_def dest: cleaned_fields_no_recovery)
qed

theorem recovery_roundtrip_witness:
  "pe_recoveryCodes (decryptedEntryToPasswordEntry
     (sample_decrypted\<lparr>de_custom_fields := custom_fields_to_send ''u'' sample_entry\<rparr>)) = Some ''abc''"
proof -
  let ?d = "sample_decrypted\<lparr>de_custom_fields := custom_fields_to_send ''u'' sample_entry\<rparr>"
  have "\<forall>f \<in> set (pe_customFields sample_entry). cf_type f \<in> set field_types"
    by (simp add: sample_entry_def field_types_def)
  moreover have "de_custom_fields ?d = custom_fields_to_send ''u'' sample_entry" by simp
  ultimately have "pe_recoveryCodes (decryptedEntryToPasswordEntry ?d) =
      or_undefined (Some (trim (or_else (recovery_of sample_entry) [])))"
    using recovery_roundtrip [of sample_entry ?d "''u''"] by blast
  then show ?thesis by (simp add: recovery_of_def sample_entry_def js_eval)
qed

section \<open>Breach re-check\<close>

text \<open>
  A stored verdict is trusted exactly when it carries a readable time of at most the
  present and less than twenty-four hours old; a status without a time, with an unreadable time
  or with a time in the future is checked again.
\<close>

theorem needsBreachRecheck_iff:
  "needsBreachRecheck date_parse status now = False \<longleftrightarrow>
   (\<exists>s t c. status = Some s \<and> checked_at s = Some t \<and> date_parse t = Some c \<and> c \<le> now \<and> now - c < day_ms)"
  by (auto simp: needsBreachRecheck_def split: option.splits)

section \<open>Sorting\<close>

lemma mset_insert_by [simp]: "mset (insert_by cmp x ys) = add_mset x (mset ys)"
  by (induction ys) auto

lemma set_insert_by [simp]: "set (insert_by cmp x ys) = insert x (set ys)"
  by (induction ys) auto

lemma mset_sort_by [simp]: "mset (sort_by cmp xs) = mset xs"
  by (induction xs) (auto simp: sort_by_def)

lemma sorted_insert_by:
  assumes le: "\<And>a b. cmp a b \<le> 0 \<Longrightarrow> R a b" and gt: "\<And>a b. cmp a b > 0 \<Longrightarrow> R b a"
    and trans: "\<And>a b c. R a b \<Longrightarrow> R b c \<Longrightarrow> R a c" and s: "sorted_wrt R ys"
  shows "sorted_wrt R (insert_by cmp x ys)"
  using s by (induction ys) (auto dest: le gt trans simp: not_le)

lemma sorted_sort_by:
  assumes "\<And>a b. cmp a b \<le> 0 \<Longrightarrow> R a b" "\<And>a b. cmp a b > 0 \<Longrightarrow> R b a"
    and "\<And>a b c. R a b \<Longrightarrow> R b c \<Longrightarrow> R a c"
  shows "sorted_wrt R (sort_by cmp xs)"
proof (induction xs)
  case (Cons x xs)
  have "sorted_wrt R (insert_by cmp x (sort_by cmp xs))"
    by (rule sorted_insert_by [OF assms Cons])
  then show ?case by (simp add: sort_by_def)
qed (simp add: sort_by_def)

lemma compare_total: 
  assumes "\<And>a b. collate a b > 0 \<Longrightarrow> collate b a \<le> 0"
  shows "compare_entries date_parse collate ord a b > 0 \<Longrightarrow> compare_entries date_parse collate ord b a \<le> 0"
  using assms by (auto simp: compare_entries_def split: if_splits option.splits entry_sort.splits)

lemma compare_trans:
  assumes "\<And>a b c. collate a b \<le> 0 \<Longrightarrow> collate b c \<le> 0 \<Longrightarrow> collate a c \<le> 0"
  shows "compare_entries date_parse collate ord a b \<le> 0 \<Longrightarrow> compare_entries date_parse collate ord b c \<le> 0 \<Longrightarrow>
    compare_entries date_parse collate ord a c \<le> 0"
  using assms by (auto simp: compare_entries_def split: if_splits option.splits entry_sort.splits)

lemma compare_pinned: "compare_entries date_parse collate ord a b \<le> 0 \<Longrightarrow> pe_pinned b \<Longrightarrow> pe_pinned a"
  by (auto simp: compare_entries_def split: if_splits)

text \<open>Insertion keeps the order among the elements a relation holds equal.\<close>

lemma filter_insert_by:
  assumes "\<And>y. same x \<Longrightarrow> same y \<Longrightarrow> cmp x y \<le> 0"
  shows "filter same (insert_by cmp x ys) = (if same x then x # filter same ys else filter same ys)"
  using assms by (induction ys) auto

lemma filter_sort_by:
  assumes "\<And>x y. same x \<Longrightarrow> same y \<Longrightarrow> cmp x y \<le> 0"
  shows "filter same (sort_by cmp xs) = filter same xs"
proof (induction xs)
  case (Cons x xs)
  then show ?case using filter_insert_by [of same x cmp "sort_by cmp xs"] assms by (simp add: sort_by_def)
qed (simp add: sort_by_def)

text \<open>
  Which entries are listed and in which order, in words of their own: an entry is listed when it is in the
  category and one of its texts, in lower case, contains the search term; pinned entries come first, then
  the order is by title or by date, the newest first, where an unreadable date counts as the oldest.
\<close>

definition in_category :: "filter_category \<Rightarrow> password_entry \<Rightarrow> bool" where
  "in_category cat e \<longleftrightarrow> cat = ''all'' \<or> (if cat = ''favorites'' then pe_favorite e else cat \<in> set (pe_tags e))"

definition found_by :: "string \<Rightarrow> password_entry \<Rightarrow> bool" where
  "found_by term e \<longleftrightarrow> trim term = [] \<or>
     (\<exists>x \<in> set ([pe_title e, pe_username e, pe_url e] @ pe_tags e). sublist (to_lower term) (to_lower x))"

definition sort_date :: "(string \<Rightarrow> int option) \<Rightarrow> entry_sort option \<Rightarrow> password_entry \<Rightarrow> int" where
  "sort_date date_parse ord e =
     (let (first, second) = (if ord = Some SortCreated then (pe_createdAt e, pe_updatedAt e) else (pe_updatedAt e, pe_createdAt e))
      in case date_parse (if first = [] then second else first) of None \<Rightarrow> 0 | Some d \<Rightarrow> d)"

definition not_after ::
  "(string \<Rightarrow> int option) \<Rightarrow> (string \<Rightarrow> string \<Rightarrow> int) \<Rightarrow> entry_sort option \<Rightarrow> password_entry \<Rightarrow> password_entry \<Rightarrow> bool" where
  "not_after date_parse collate ord a b \<longleftrightarrow>
     (pe_pinned a \<and> \<not> pe_pinned b) \<or>
     (pe_pinned a = pe_pinned b \<and>
        (if ord = Some SortTitle then collate (pe_title a) (pe_title b) \<le> 0
         else sort_date date_parse ord b \<le> sort_date date_parse ord a))"

lemma filter_entries_spec: "filter_entries cat term es = filter (\<lambda>e. in_category cat e \<and> found_by term e) es"
  by (auto simp: filter_entries_def in_category_def found_by_def matches_search_def includes_iff Let_def conj_commute
      intro!: filter_cong)

lemma compare_not_after:
  "compare_entries date_parse collate ord a b \<le> 0 \<longleftrightarrow> not_after date_parse collate ord a b"
  by (cases ord rule: option.exhaust [case_product entry_sort.exhaust])
     (auto simp: compare_entries_def not_after_def sort_date_def time_of_def str_or_def Let_def split: option.split entry_sort.split)

text \<open>
  Claim C38. The displayed list holds exactly the entries of the category that the search finds, each as often
  as it occurs; pinned entries come first, then the order is the chosen one (title by the collation, created
  or updated with the newest first, updated when none is chosen); and entries that are equal in it keep their
  order. The collation, which is the platform's, is assumed to be a total preorder.
\<close>

theorem useFilteredEntries_sorted:
  assumes "\<forall>a b. collate a b > 0 \<longrightarrow> collate b a \<le> 0"
    and "\<forall>a b c. collate a b \<le> 0 \<longrightarrow> collate b c \<le> 0 \<longrightarrow> collate a c \<le> 0"
  shows "mset (useFilteredEntries date_parse collate ord cat term es) =
           filter_mset (\<lambda>e. in_category cat e \<and> found_by term e) (mset es) \<and>
    sorted_wrt (not_after date_parse collate ord) (useFilteredEntries date_parse collate ord cat term es) \<and>
    (\<forall>x. filter (\<lambda>y. not_after date_parse collate ord x y \<and> not_after date_parse collate ord y x)
             (useFilteredEntries date_parse collate ord cat term es) =
          filter (\<lambda>y. not_after date_parse collate ord x y \<and> not_after date_parse collate ord y x)
             (filter (\<lambda>e. in_category cat e \<and> found_by term e) es))"
proof -
  let ?c = "compare_entries date_parse collate ord" and ?R = "not_after date_parse collate ord"
  have trans: "?R a c" if "?R a b" "?R b c" for a b c
    using that compare_trans [of collate date_parse ord a b c] assms(2) unfolding compare_not_after by blast
  have "?R b a" if "?c a b > 0" for a b
    using that compare_total [of collate date_parse ord a b] assms(1) unfolding compare_not_after by blast
  with trans have "sorted_wrt ?R (sort_by ?c xs)" for xs
    by (intro sorted_sort_by) (use compare_not_after in blast)+
  moreover have "filter (\<lambda>y. ?R x y \<and> ?R y x) (sort_by ?c xs) = filter (\<lambda>y. ?R x y \<and> ?R y x) xs" for x xs
    using trans by (intro filter_sort_by) (simp add: compare_not_after, blast)
  ultimately show ?thesis by (simp add: useFilteredEntries_def filter_entries_spec)
qed

theorem useFilteredEntries_sorted_witness:
  "mset (useFilteredEntries (\<lambda>s. None) (\<lambda>a b. int (length a) - int (length b)) (Some SortTitle) ''all'' ''web''
     [sample_entry, sample_entry\<lparr>pe_id := ''e2'', pe_title := ''my web''\<rparr>]) = {#sample_entry\<lparr>pe_id := ''e2'', pe_title := ''my web''\<rparr>#}"
proof -
  let ?c = "\<lambda>a b. int (length a) - int (length b) :: int"
  let ?es = "[sample_entry, sample_entry\<lparr>pe_id := ''e2'', pe_title := ''my web''\<rparr>]"
  have "\<forall>a b. ?c a b > 0 \<longrightarrow> ?c b a \<le> 0" "\<forall>a b c. ?c a b \<le> 0 \<longrightarrow> ?c b c \<le> 0 \<longrightarrow> ?c a c \<le> 0"
    by auto
  from useFilteredEntries_sorted [OF this, of "\<lambda>s. None" "Some SortTitle" "''all''" "''web''" ?es]
  have "mset (useFilteredEntries (\<lambda>s. None) ?c (Some SortTitle) ''all'' ''web'' ?es) =
      filter_mset (\<lambda>e. in_category ''all'' e \<and> found_by ''web'' e) (mset ?es)" by blast
  moreover have "\<not> found_by ''web'' sample_entry" "found_by ''web'' (sample_entry\<lparr>pe_id := ''e2'', pe_title := ''my web''\<rparr>)"
    by (simp_all add: found_by_def sample_entry_def js_eval flip: includes_iff)
  ultimately show ?thesis by (simp add: in_category_def)
qed

section \<open>Standard fields\<close>

lemma saved_standard_keys: "set (saved_standard e) \<subseteq> set standard_keys"
  by (auto simp: saved_standard_def split: option.splits)

lemma filled_standard_keys: "set (filled_standard e codes) \<subseteq> set standard_keys"
  by (auto simp: filled_standard_def standard_keys_def)

lemma entryStandardFields_filled: "set (filled_standard e codes) \<subseteq> set (entryStandardFields e codes)"
  by (auto simp: entryStandardFields_def Let_def)

text \<open>
  No filled field is hidden by a stale saved order: the standard fields shown are each
  shown once and include every text field whose value is neither empty nor the mask, the
  one-time-code field when a secret or recovery codes exist, the passkey and the attachments.
\<close>

theorem entryStandardFields_complete:
  "distinct (entryStandardFields e codes) \<and>
   set (entryStandardFields e codes) \<subseteq> set standard_keys \<and>
   set (filled_standard e codes) \<subseteq> set (entryStandardFields e codes) \<and>
   (\<forall>f \<in> set [''username'', ''password'', ''url'', ''email'', ''notes''].
      entry_text e f \<notin> {[], mask} \<longrightarrow> f \<in> set (filled_standard e codes))"
proof -
  have "set (entryStandardFields e codes) \<subseteq> set standard_keys"
    using saved_standard_keys [of e] filled_standard_keys [of e codes]
    by (auto simp: entryStandardFields_def Let_def standard_keys_def)
  moreover have "\<forall>f \<in> set [''username'', ''password'', ''url'', ''email'', ''notes''].
      entry_text e f \<notin> {[], mask} \<longrightarrow> f \<in> set (filled_standard e codes)"
    by (simp add: filled_standard_def)
  moreover have "distinct (entryStandardFields e codes)"
    by (simp add: entryStandardFields_def Let_def)
  ultimately show ?thesis using entryStandardFields_filled by blast
qed

theorem entryStandardFields_complete_witness:
  "''notes'' \<in> set (entryStandardFields sample_entry [])"
proof -
  have "''notes'' \<in> set (filled_standard sample_entry [])"
    by (simp add: filled_standard_def entry_text_def sample_entry_def mask_chars)
  with entryStandardFields_complete [of sample_entry "[]"] show ?thesis by blast
qed

section \<open>Login fields\<close>

lemma login_candidate_cases:
  assumes "c \<in> set (login_candidates e ord)"
  shows "trim (lc_value c) \<noteq> [] \<and>
    ((lc_id c \<in> set [''username'', ''email'', ''password'', ''url''] \<and> lc_type c = lc_id c \<and> lc_value c = entry_text e (lc_id c)) \<or>
     (\<exists>f \<in> set (pe_customFields e). lc_id c = cf_id f \<and> lc_type c = cf_type f \<and> lc_value c = cf_value f \<and>
        \<not> starts_with (cf_name f) ''_'' \<and> \<not> isRecoveryField (cf_name f)))"
  using assms unfolding login_candidates_def Let_def
  by (auto dest!: map_filter_mem find_SomeD simp del: list.set split: if_splits) blast+


text \<open>What a chosen login value may come from: a built-in field or a visible custom field, never blank.\<close>

definition visible_source :: "password_entry \<Rightarrow> login_candidate \<Rightarrow> bool" where
  "visible_source e c \<longleftrightarrow> trim (lc_value c) \<noteq> [] \<and>
    ((lc_id c \<in> set [''username'', ''email'', ''password'', ''url''] \<and> lc_type c = lc_id c \<and>
      lc_value c = entry_text e (lc_id c)) \<or>
     (\<exists>f \<in> set (pe_customFields e). lc_id c = cf_id f \<and> lc_type c = cf_type f \<and> lc_value c = cf_value f \<and>
        \<not> starts_with (cf_name f) ''_'' \<and> \<not> isRecoveryField (cf_name f)))"

lemma login_candidate_visible: "c \<in> set (login_candidates e ord) \<Longrightarrow> visible_source e c"
  unfolding visible_source_def by (rule login_candidate_cases)

text \<open>
  Smart Login never submits a blank value, an internal field or a recovery code: the
  identifier, password and address it picks are non-blank values of a built-in field or of a
  visible custom field of the entry, of the right kind.
\<close>

theorem loginFields_visible:
  "(\<forall>c. lr_identifier (loginFields e ord) = Some c \<longrightarrow>
       visible_source e c \<and> lc_type c \<in> set [''username'', ''email'', ''phone'']) \<and>
   (\<forall>c. lr_password (loginFields e ord) = Some c \<longrightarrow> visible_source e c \<and> lc_type c = ''password'') \<and>
   (\<forall>c. lr_url (loginFields e ord) = Some c \<longrightarrow> visible_source e c \<and> lc_type c = ''url'')"
  unfolding loginFields_def Let_def
  by (auto dest!: find_SomeD simp: login_candidate_visible simp del: list.set)

theorem loginFields_visible_witness:
  "visible_source sample_entry \<lparr>lc_id = ''password'', lc_type = ''password'', lc_value = ''s3cret''\<rparr>"
proof -
  have "lr_password (loginFields sample_entry (Some [''email'', ''password''])) =
      Some \<lparr>lc_id = ''password'', lc_type = ''password'', lc_value = ''s3cret''\<rparr>"
    by (simp add: loginFields_def login_candidates_def List.map_filter_def entry_text_def sample_entry_def
        js_eval Let_def)
  with loginFields_visible [of sample_entry "Some [''email'', ''password'']"] show ?thesis by blast
qed

end
