(* ===== verification/Session.thy ===== *)
theory Session
  imports Vault_Types
begin

text \<open>
  The session of the open vault: \<open>AuthContext.provider.tsx\<close> and \<open>sessionSecrets.ts\<close>. The
  provider keeps two views of the lock: React state (\<open>isLocked\<close>, \<open>currentVault\<close>, seen at the
  next render) and a mutable \<open>session\<close> record that changes at once and carries the session
  generation every asynchronous operation checks itself against.
\<close>

section \<open>State\<close>

record session_ref =
  sr_generation :: nat
  sr_locked :: bool
  sr_vault :: "vault option"

datatype window_event = SessionLocked | SessionUnlocked

record auth_state =
  au_backend :: bool
  au_backendReady :: bool
  au_vaults :: "vault list"
  au_currentVault :: "vault option"
  au_isLocked :: bool
  au_session :: session_ref
  au_webdavPassword :: "string option"
  au_dispatched :: "window_event list"
  au_lockCalls :: nat
  au_toasts :: "(string \<times> toast_type) list"

definition init_auth :: "bool \<Rightarrow> auth_state" where
  "init_auth tauri =
     \<lparr>au_backend = False, au_backendReady = (\<not> tauri), au_vaults = [], au_currentVault = None,
      au_isLocked = True, au_session = \<lparr>sr_generation = 0, sr_locked = True, sr_vault = None\<rparr>,
      au_webdavPassword = None, au_dispatched = [], au_lockCalls = 0, au_toasts = []\<rparr>"

section \<open>Secrets of the session\<close>

definition getTransientWebdavPassword :: "auth_state \<Rightarrow> string option" where
  "getTransientWebdavPassword s = au_webdavPassword s"

definition setTransientWebdavPassword :: "string option \<Rightarrow> auth_state \<Rightarrow> auth_state" where
  "setTransientWebdavPassword p s = s\<lparr>au_webdavPassword := p\<rparr>"

definition clearTransientWebdavPassword :: "auth_state \<Rightarrow> auth_state" where
  "clearTransientWebdavPassword s = s\<lparr>au_webdavPassword := None\<rparr>"

definition clearSessionSecrets :: "auth_state \<Rightarrow> auth_state" where
  "clearSessionSecrets s = clearTransientWebdavPassword s"

section \<open>Operations\<close>

definition bump_generation :: "auth_state \<Rightarrow> auth_state" where
  "bump_generation s =
     s\<lparr>au_session := (au_session s)\<lparr>sr_generation := Suc (sr_generation (au_session s))\<rparr>\<rparr>"

definition setCurrentVault :: "vault option \<Rightarrow> bool \<Rightarrow> auth_state \<Rightarrow> auth_state" where
  "setCurrentVault v replaceSession s =
     (let old = sr_vault (au_session s);
          s = (if replaceSession \<or> map_option va_id old \<noteq> map_option va_id v \<or>
                  map_option va_path old \<noteq> map_option va_path v
               then bump_generation s else s)
      in s\<lparr>au_session := (au_session s)\<lparr>sr_vault := v\<rparr>, au_currentVault := v\<rparr>)"

definition setIsLocked :: "bool \<Rightarrow> auth_state \<Rightarrow> auth_state" where
  "setIsLocked locked s =
     (let s = (if locked \<or> sr_locked (au_session s) \<noteq> locked then bump_generation s else s);
          s = s\<lparr>au_session := (au_session s)\<lparr>sr_locked := locked\<rparr>\<rparr>;
          s = (if locked then clearSessionSecrets s else s)
      in s\<lparr>au_dispatched := au_dispatched s @ [if locked then SessionLocked else SessionUnlocked],
           au_isLocked := locked\<rparr>)"

definition getSessionGeneration :: "auth_state \<Rightarrow> nat" where
  "getSessionGeneration s = sr_generation (au_session s)"

definition isSessionCurrent :: "auth_state \<Rightarrow> nat \<Rightarrow> bool" where
  "isSessionCurrent s g \<longleftrightarrow> \<not> sr_locked (au_session s) \<and> sr_generation (au_session s) = g"

text \<open>The back end's call counts whether it succeeds or fails: its error is only logged.\<close>

definition lockVault :: "auth_state \<Rightarrow> auth_state" where
  "lockVault s =
     (let s = clearSessionSecrets (setIsLocked True s)
      in if au_backend s then s\<lparr>au_lockCalls := Suc (au_lockCalls s)\<rparr> else s)"

definition lost_message :: string where
  "lost_message = ''Vault locked: the vault file or bound USB device is unavailable. Reconnect it and unlock again.''"

definition onConnectionLost :: "auth_state \<Rightarrow> auth_state" where
  "onConnectionLost s =
     (let s = setCurrentVault None False (setIsLocked True (clearSessionSecrets s))
      in s\<lparr>au_toasts := au_toasts s @ [(lost_message, ToastError)]\<rparr>)"

definition onVaultLocked :: "auth_state \<Rightarrow> auth_state" where
  "onVaultLocked s = setIsLocked True (clearSessionSecrets s)"

definition unmountAuth :: "auth_state \<Rightarrow> auth_state" where
  "unmountAuth s =
     (let s = bump_generation s in s\<lparr>au_session := (au_session s)\<lparr>sr_locked := True\<rparr>\<rparr>)"

definition addVault :: "vault \<Rightarrow> auth_state \<Rightarrow> auth_state" where
  "addVault v s = s\<lparr>au_vaults := au_vaults s @ [v]\<rparr>"

definition removeVault :: "string \<Rightarrow> auth_state \<Rightarrow> auth_state" where
  "removeVault i s = s\<lparr>au_vaults := filter (\<lambda>v. va_id v \<noteq> i) (au_vaults s)\<rparr>"

text \<open>\<open>getBackend()\<close> settles: with the back end, or with an error that leaves it null.\<close>

definition backendSettled :: "bool \<Rightarrow> auth_state \<Rightarrow> auth_state" where
  "backendSettled ok s = s\<lparr>au_backend := (ok \<or> au_backend s), au_backendReady := True\<rparr>"

datatype auth_event =
    SetCurrentVault "vault option" bool
  | SetIsLocked bool
  | LockVault
  | ConnectionLost
  | VaultLocked
  | UnmountAuth
  | AddVault vault
  | RemoveVault string
  | SetWebdavPassword "string option"
  | BackendSettled bool

fun auth_step :: "auth_event \<Rightarrow> auth_state \<Rightarrow> auth_state" where
  "auth_step (SetCurrentVault v r) s = setCurrentVault v r s"
| "auth_step (SetIsLocked l) s = setIsLocked l s"
| "auth_step LockVault s = lockVault s"
| "auth_step ConnectionLost s = onConnectionLost s"
| "auth_step VaultLocked s = onVaultLocked s"
| "auth_step UnmountAuth s = unmountAuth s"
| "auth_step (AddVault v) s = addVault v s"
| "auth_step (RemoveVault i) s = removeVault i s"
| "auth_step (SetWebdavPassword p) s = setTransientWebdavPassword p s"
| "auth_step (BackendSettled ok) s = backendSettled ok s"

text \<open>The events that end the session.\<close>

fun ends_session :: "auth_event \<Rightarrow> bool" where
  "ends_session (SetIsLocked l) = l"
| "ends_session LockVault = True"
| "ends_session ConnectionLost = True"
| "ends_session VaultLocked = True"
| "ends_session UnmountAuth = True"
| "ends_session (SetCurrentVault v r) = r"
| "ends_session _ = False"

section \<open>Generations\<close>

lemmas auth_defs =
  setCurrentVault_def setIsLocked_def lockVault_def onConnectionLost_def onVaultLocked_def
  unmountAuth_def addVault_def removeVault_def setTransientWebdavPassword_def
  clearSessionSecrets_def clearTransientWebdavPassword_def backendSettled_def bump_generation_def Let_def

abbreviation generation :: "auth_state \<Rightarrow> nat" where
  "generation s \<equiv> sr_generation (au_session s)"

lemma generation_step: "generation s \<le> generation (auth_step e s)"
  by (cases e) (auto simp: auth_defs)

lemma generation_ends: "ends_session e \<Longrightarrow> generation s < generation (auth_step e s)"
  by (cases e) (auto simp: auth_defs)

text \<open>Resuming a check of generation \<open>t\<close>: the interface of the request tokens.\<close>

interpretation session_tok: token_machine auth_step generation
  "\<lambda>t (r :: auth_state \<Rightarrow> auth_state) s. if isSessionCurrent s t then r s else s" "\<lambda>s. s"
  by unfold_locales (auto simp: generation_step isSessionCurrent_def)

text \<open>
  Claim C3. Ending a session is final for everything started before: once the vault is locked by
  the user, by the back end, by a lost device, by unmounting, or replaced, no generation handed
  out until then is ever current again, whatever happens afterwards (unlocking included).
\<close>

theorem session_revoked:
  assumes "g \<le> generation s" and "ends_session e"
  shows "\<not> isSessionCurrent (run auth_step es (auth_step e s)) g"
proof -
  have "g < generation (auth_step e s)"
    using assms(1) generation_ends [OF assms(2)] by (rule le_less_trans)
  also have "\<dots> \<le> generation (run auth_step es (auth_step e s))"
    by (rule session_tok.tok_run)
  finally show ?thesis by (simp add: isSessionCurrent_def)
qed

theorem session_revoked_witness:
  "\<not> isSessionCurrent (run auth_step [SetIsLocked False] (auth_step LockVault
       (run auth_step [SetIsLocked False] (init_auth True)))) 1"
proof -
  let ?s = "run auth_step [SetIsLocked False] (init_auth True)"
  have "1 \<le> generation ?s" by (simp add: init_auth_def auth_defs)
  moreover have "ends_session LockVault" by simp
  ultimately show ?thesis by (rule session_revoked)
qed

text \<open>
  Locking takes effect at once: by whichever path the vault is locked, in the same
  step no generation is current, the transient sync password is gone, the lock screen is
  requested and the favicon cache is told.
\<close>

theorem lock_is_immediate:
  assumes "e \<in> {SetIsLocked True, LockVault, ConnectionLost, VaultLocked}"
  shows "(\<forall>g. \<not> isSessionCurrent (auth_step e s) g) \<and>
         getTransientWebdavPassword (auth_step e s) = None \<and>
         au_isLocked (auth_step e s) \<and>
         au_dispatched (auth_step e s) = au_dispatched s @ [SessionLocked] \<and>
         (e = ConnectionLost \<longrightarrow> au_currentVault (auth_step e s) = None)"
  using assms by (auto simp: auth_defs isSessionCurrent_def getTransientWebdavPassword_def)

theorem lock_is_immediate_witness:
  "getTransientWebdavPassword
     (auth_step VaultLocked (run auth_step [SetIsLocked False, SetWebdavPassword (Some ''pw'')] (init_auth True))) = None"
proof -
  have "VaultLocked \<in> {SetIsLocked True, LockVault, ConnectionLost, VaultLocked}" by simp
  from lock_is_immediate [OF this] show ?thesis by blast
qed

text \<open>The React state and the session record agree until the provider is unmounted.\<close>

definition views_agree :: "auth_state \<Rightarrow> bool" where
  "views_agree s \<longleftrightarrow> au_isLocked s = sr_locked (au_session s) \<and> au_currentVault s = sr_vault (au_session s)"

fun mounted_step :: "auth_event \<Rightarrow> auth_state \<Rightarrow> auth_state" where
  "mounted_step UnmountAuth s = s"
| "mounted_step e s = auth_step e s"

interpretation auth_views: invariant_machine mounted_step views_agree
proof unfold_locales
  fix s e
  show "views_agree s \<Longrightarrow> views_agree (mounted_step e s)"
    by (cases e) (auto simp: auth_defs views_agree_def)
qed

lemma views_agree_run: "views_agree (run mounted_step es (init_auth tauri))"
  by (rule auth_views.run_inv) (simp add: views_agree_def init_auth_def)

end
