(* ===== verification/Keybinds.thy ===== *)
theory Keybinds
  imports Vault_Types
begin

text \<open>
  Keyboard shortcuts: \<open>src/src/lib/keybinds.ts\<close>. \<open>/mac/i.test(navigator.userAgent)\<close> is the
  parameter \<open>isMac\<close>. The four arrows shown for the arrow keys lie outside Latin-1; they are the
  otherwise unused control units \<open>0x18\<close> to \<open>0x1B\<close>.
\<close>

section \<open>Definitions\<close>

datatype keybind_action =
    Search | NewEntry | LockVaultKey | CopyPassword | CopyUsername | CopyUrl | CopyTotp
  | EditEntry | DeleteEntryKey | OpenUrl | Autotype

definition ctrl_key :: "string \<Rightarrow> keybind_shortcut" where
  "ctrl_key k = \<lparr>ks_ctrlKey = Some True, ks_altKey = None, ks_shiftKey = None, ks_metaKey = None, ks_key = k\<rparr>"

definition DEFAULT_KEYBINDS :: keybinds_config where
  "DEFAULT_KEYBINDS =
     \<lparr>kb_search = ctrl_key ''k'', kb_newEntry = ctrl_key ''n'', kb_lockVault = ctrl_key ''l'',
      kb_copyPassword = ctrl_key ''c'', kb_copyUsername = ctrl_key ''b'', kb_copyUrl = ctrl_key ''u'',
      kb_copyTotp = ctrl_key ''t'', kb_editEntry = ctrl_key ''e'', kb_deleteEntry = ctrl_key ''Delete'',
      kb_openUrl = ctrl_key ''o'', kb_autotype = (ctrl_key ''a'')\<lparr>ks_shiftKey := Some True\<rparr>\<rparr>"

fun keybind_of :: "keybinds_config \<Rightarrow> keybind_action \<Rightarrow> keybind_shortcut" where
  "keybind_of c Search = kb_search c"
| "keybind_of c NewEntry = kb_newEntry c"
| "keybind_of c LockVaultKey = kb_lockVault c"
| "keybind_of c CopyPassword = kb_copyPassword c"
| "keybind_of c CopyUsername = kb_copyUsername c"
| "keybind_of c CopyUrl = kb_copyUrl c"
| "keybind_of c CopyTotp = kb_copyTotp c"
| "keybind_of c EditEntry = kb_editEntry c"
| "keybind_of c DeleteEntryKey = kb_deleteEntry c"
| "keybind_of c OpenUrl = kb_openUrl c"
| "keybind_of c Autotype = kb_autotype c"

fun keybind_set :: "keybind_action \<Rightarrow> keybind_shortcut \<Rightarrow> keybinds_config \<Rightarrow> keybinds_config" where
  "keybind_set Search k c = c\<lparr>kb_search := k\<rparr>"
| "keybind_set NewEntry k c = c\<lparr>kb_newEntry := k\<rparr>"
| "keybind_set LockVaultKey k c = c\<lparr>kb_lockVault := k\<rparr>"
| "keybind_set CopyPassword k c = c\<lparr>kb_copyPassword := k\<rparr>"
| "keybind_set CopyUsername k c = c\<lparr>kb_copyUsername := k\<rparr>"
| "keybind_set CopyUrl k c = c\<lparr>kb_copyUrl := k\<rparr>"
| "keybind_set CopyTotp k c = c\<lparr>kb_copyTotp := k\<rparr>"
| "keybind_set EditEntry k c = c\<lparr>kb_editEntry := k\<rparr>"
| "keybind_set DeleteEntryKey k c = c\<lparr>kb_deleteEntry := k\<rparr>"
| "keybind_set OpenUrl k c = c\<lparr>kb_openUrl := k\<rparr>"
| "keybind_set Autotype k c = c\<lparr>kb_autotype := k\<rparr>"

text \<open>\<open>Partial<KeybindsConfig>\<close>: the properties present, in their order; spreading applies them in turn.\<close>

type_synonym partial_keybinds = "(keybind_action \<times> keybind_shortcut) list"

definition getKeybinds :: "partial_keybinds option \<Rightarrow> keybinds_config" where
  "getKeybinds userKeybinds = fold (\<lambda>(a, k). keybind_set a k) (or_else userKeybinds []) DEFAULT_KEYBINDS"

definition formatShortcutKeys :: "bool \<Rightarrow> keybind_shortcut option \<Rightarrow> string list" where
  "formatShortcutKeys isMac shortcut =
     (case shortcut of
        None \<Rightarrow> [''None'']
      | Some k \<Rightarrow>
          if ks_key k = [] then [''None'']
          else (if truthy (ks_ctrlKey k) then [if isMac then ''Cmd'' else ''Ctrl''] else []) @
               (if truthy (ks_metaKey k) then [if isMac then ''Cmd'' else ''Win''] else []) @
               (if truthy (ks_altKey k) then [if isMac then ''Option'' else ''Alt''] else []) @
               (if truthy (ks_shiftKey k) then [''Shift''] else []) @
               [if ks_key k = '' '' then ''Space''
                else if ks_key k = ''ArrowUp'' then [CHR 0x18]
                else if ks_key k = ''ArrowDown'' then [CHR 0x19]
                else if ks_key k = ''ArrowLeft'' then [CHR 0x1B]
                else if ks_key k = ''ArrowRight'' then [CHR 0x1A]
                else to_upper (ks_key k)])"

definition formatShortcut :: "bool \<Rightarrow> keybind_shortcut option \<Rightarrow> string" where
  "formatShortcut isMac shortcut = join_with ''+'' (formatShortcutKeys isMac shortcut)"

record keyboard_event =
  ev_key :: string
  ev_code :: string
  ev_ctrlKey :: bool
  ev_metaKey :: bool
  ev_altKey :: bool
  ev_shiftKey :: bool

definition matchesShortcut :: "keyboard_event \<Rightarrow> keybind_shortcut option \<Rightarrow> bool" where
  "matchesShortcut e shortcut =
     (case shortcut of
        None \<Rightarrow> False
      | Some k \<Rightarrow>
          if ks_key k = [] then False
          else let eventKey = to_lower (ev_key e);
                   targetKey = to_lower (ks_key k);
                   codeKey = to_lower (ev_code e);
                   keyMatch = (eventKey = targetKey \<or> codeKey = targetKey \<or>
                               codeKey = ''key'' @ targetKey \<or> codeKey = ''digit'' @ targetKey);
                   ctrlMatch = truthy (ks_ctrlKey k);
                   altMatch = truthy (ks_altKey k);
                   shiftMatch = truthy (ks_shiftKey k);
                   isControlPressed = (ev_ctrlKey e \<or> ev_metaKey e);
                   hasControl = (if truthy (ks_metaKey k)
                                 then ev_metaKey e \<and> ev_ctrlKey e = ctrlMatch
                                 else if ctrlMatch then isControlPressed
                                 else \<not> ev_ctrlKey e \<and> \<not> ev_metaKey e)
               in keyMatch \<and> hasControl \<and> ev_altKey e = altMatch \<and> ev_shiftKey e = shiftMatch)"

definition shortcutsEqual :: "keybind_shortcut option \<Rightarrow> keybind_shortcut option \<Rightarrow> bool" where
  "shortcutsEqual a b =
     (case (a, b) of
        (Some x, Some y) \<Rightarrow>
          truthy (ks_ctrlKey x) = truthy (ks_ctrlKey y) \<and> truthy (ks_altKey x) = truthy (ks_altKey y) \<and>
          truthy (ks_shiftKey x) = truthy (ks_shiftKey y) \<and> truthy (ks_metaKey x) = truthy (ks_metaKey y) \<and>
          to_lower (ks_key x) = to_lower (ks_key y)
      | _ \<Rightarrow> a = b)"

section \<open>Laws\<close>

lemma keybind_of_set: "keybind_of (keybind_set a k c) b = (if a = b then k else keybind_of c b)"
  by (cases a; cases b) simp_all

lemma keybind_of_fold:
  "keybind_of (fold (\<lambda>(a, k). keybind_set a k) ps c) b = or_else (map_of (rev ps) b) (keybind_of c b)"
  by (induction ps arbitrary: c) (auto simp: keybind_of_set map_add_def split: option.splits)

lemma getKeybinds_spec:
  "keybind_of (getKeybinds p) a = or_else (map_of (rev (or_else p [])) a) (keybind_of DEFAULT_KEYBINDS a)"
  by (simp add: getKeybinds_def keybind_of_fold)

lemma to_lower_Nil [simp]: "to_lower s = [] \<longleftrightarrow> s = []"
  by (simp add: to_lower_def)

lemma shortcutsEqual_matches:
  assumes "shortcutsEqual a b"
  shows "matchesShortcut e a = matchesShortcut e b"
proof (cases a)
  case None
  with assms show ?thesis by (cases b) (simp_all add: shortcutsEqual_def)
next
  case (Some x)
  with assms obtain y where b: "b = Some y" by (cases b) (simp_all add: shortcutsEqual_def)
  with assms Some have flags:
    "truthy (ks_ctrlKey x) = truthy (ks_ctrlKey y)" "truthy (ks_altKey x) = truthy (ks_altKey y)"
    "truthy (ks_shiftKey x) = truthy (ks_shiftKey y)" "truthy (ks_metaKey x) = truthy (ks_metaKey y)"
    and key: "to_lower (ks_key x) = to_lower (ks_key y)"
    by (simp_all add: shortcutsEqual_def)
  have "(ks_key x = []) = (ks_key y = [])" using key by (metis to_lower_Nil)
  then show ?thesis by (simp only: matchesShortcut_def Some b option.case flags key)
qed

lemma shortcutsEqual_equiv:
  "shortcutsEqual a a" "shortcutsEqual a b \<Longrightarrow> shortcutsEqual b a"
  "shortcutsEqual a b \<Longrightarrow> shortcutsEqual b c \<Longrightarrow> shortcutsEqual a c"
  by (cases a; cases b; cases c; simp add: shortcutsEqual_def)+

text \<open>A key pressed with Ctrl alone.\<close>

definition ctrl_event :: "string \<Rightarrow> string \<Rightarrow> keyboard_event" where
  "ctrl_event k c = \<lparr>ev_key = k, ev_code = c, ev_ctrlKey = True, ev_metaKey = False, ev_altKey = False, ev_shiftKey = False\<rparr>"

text \<open>
  The conflict check of the shortcut editor is sound: shortcuts it calls equal are
  triggered by exactly the same keyboard events, and the check is an equivalence.
\<close>

theorem shortcutsEqual_sound:
  "(shortcutsEqual a b \<longrightarrow> matchesShortcut e a = matchesShortcut e b) \<and>
   shortcutsEqual a a \<and> (shortcutsEqual a b \<longrightarrow> shortcutsEqual b a) \<and>
   (shortcutsEqual a b \<longrightarrow> shortcutsEqual b c \<longrightarrow> shortcutsEqual a c)"
  using shortcutsEqual_matches shortcutsEqual_equiv by blast

theorem shortcutsEqual_sound_witness:
  "matchesShortcut (ctrl_event ''k'' ''KeyK'') (Some (ctrl_key ''K'')) =
     matchesShortcut (ctrl_event ''k'' ''KeyK'') (Some (ctrl_key ''k''))"
proof -
  have "shortcutsEqual (Some (ctrl_key ''K'')) (Some (ctrl_key ''k''))"
    by (simp add: shortcutsEqual_def ctrl_key_def js_case_eval)
  with shortcutsEqual_sound [of "Some (ctrl_key ''K'')" "Some (ctrl_key ''k'')" "ctrl_event ''k'' ''KeyK''"] show ?thesis by blast
qed

text \<open>An event of a layout whose letters are where the key codes name them.\<close>

definition plain_layout :: "keyboard_event \<Rightarrow> bool" where
  "plain_layout e \<longleftrightarrow>
     (let k = to_lower (ev_key e); c = to_lower (ev_code e)
      in if length k = 1 then c = ''key'' @ k \<or> c = ''digit'' @ k
         else c = k \<and> \<not> starts_with c ''key'' \<and> \<not> starts_with c ''digit'')"

definition default_list :: "keybind_shortcut list" where
  "default_list = map (keybind_of DEFAULT_KEYBINDS)
     [Search, NewEntry, LockVaultKey, CopyPassword, CopyUsername, CopyUrl, CopyTotp, EditEntry,
      DeleteEntryKey, OpenUrl, Autotype]"

lemma layout_key:
  assumes "if length k = 1 then c = ''key'' @ k \<or> c = ''digit'' @ k
           else c = k \<and> \<not> starts_with c ''key'' \<and> \<not> starts_with c ''digit''"
    and "k = t \<or> c = t \<or> c = ''key'' @ t \<or> c = ''digit'' @ t"
    and "length t = 1 \<or> t = ''delete''"
  shows "k = t"
proof (cases "length k = 1")
  case True
  with assms(1) have c: "c = ''key'' @ k \<or> c = ''digit'' @ k" by simp
  with True have "c \<noteq> t" using assms(3) by auto
  then show ?thesis using assms(2) c by auto
next
  case False
  then show ?thesis using assms(1,2) by auto
qed

lemma matches_plain:
  assumes "plain_layout e" and "matchesShortcut e (Some k)"
    and "length (to_lower (ks_key k)) = 1 \<or> to_lower (ks_key k) = ''delete''"
  shows "to_lower (ev_key e) = to_lower (ks_key k)"
proof (rule layout_key [OF _ _ assms(3)])
  show "if length (to_lower (ev_key e)) = 1
      then to_lower (ev_code e) = ''key'' @ to_lower (ev_key e) \<or> to_lower (ev_code e) = ''digit'' @ to_lower (ev_key e)
      else to_lower (ev_code e) = to_lower (ev_key e) \<and> \<not> starts_with (to_lower (ev_code e)) ''key'' \<and>
           \<not> starts_with (to_lower (ev_code e)) ''digit''"
    using assms(1) unfolding plain_layout_def Let_def .
  show "to_lower (ev_key e) = to_lower (ks_key k) \<or> to_lower (ev_code e) = to_lower (ks_key k) \<or>
      to_lower (ev_code e) = ''key'' @ to_lower (ks_key k) \<or> to_lower (ev_code e) = ''digit'' @ to_lower (ks_key k)"
    using assms(2) unfolding matchesShortcut_def Let_def by (simp split: if_splits)
qed

lemma default_keys:
  "map (\<lambda>k. to_lower (ks_key k)) default_list =
     [''k'', ''n'', ''l'', ''c'', ''b'', ''u'', ''t'', ''e'', ''delete'', ''o'', ''a'']"
  by (simp add: default_list_def DEFAULT_KEYBINDS_def ctrl_key_def js_case_eval)

text \<open>
  The default shortcuts never compete on a layout whose key codes name the letters on
  the keys: an event triggers at most one of them.
\<close>

theorem default_shortcuts_disjoint:
  assumes "plain_layout e" and "i < length default_list" and "j < length default_list"
    and "matchesShortcut e (Some (default_list ! i))" and "matchesShortcut e (Some (default_list ! j))"
  shows "i = j"
proof -
  let ?keys = "map (\<lambda>k. to_lower (ks_key k)) default_list"
  have key: "to_lower (ev_key e) = ?keys ! n"
    if "n < length default_list" "matchesShortcut e (Some (default_list ! n))" for n
  proof -
    have "to_lower (ks_key (default_list ! n)) \<in> set ?keys"
      using that(1) by (metis length_map nth_map nth_mem)
    then have "length (to_lower (ks_key (default_list ! n))) = 1 \<or> to_lower (ks_key (default_list ! n)) = ''delete''"
      unfolding default_keys by auto
    from matches_plain [OF assms(1) that(2) this] show ?thesis using that(1) by simp
  qed
  have "distinct ?keys" unfolding default_keys by simp
  moreover have "?keys ! i = ?keys ! j"
    using key [OF assms(2,4)] key [OF assms(3,5)] by simp
  ultimately show ?thesis
    using assms(2,3) by (simp only: nth_eq_iff_index_eq length_map)
qed

theorem default_shortcuts_disjoint_witness:
  "\<not> matchesShortcut (ctrl_event ''n'' ''KeyN'') (Some (default_list ! 2))"
proof
  assume "matchesShortcut (ctrl_event ''n'' ''KeyN'') (Some (default_list ! 2))"
  moreover have "plain_layout (ctrl_event ''n'' ''KeyN'')"
    by (simp add: plain_layout_def ctrl_event_def js_case_eval Let_def)
  moreover have "length default_list = 11" by (simp add: default_list_def)
  moreover have "matchesShortcut (ctrl_event ''n'' ''KeyN'') (Some (default_list ! 1))"
    by (simp add: default_list_def DEFAULT_KEYBINDS_def ctrl_key_def ctrl_event_def matchesShortcut_def
        js_case_eval Let_def)
  ultimately have "(1::nat) = 2"
    using default_shortcuts_disjoint [of "ctrl_event ''n'' ''KeyN''" 1 2] by simp
  then show False by simp
qed

text \<open>
  On a layout such as Dvorak the key that types \<open>n\<close> has the code \<open>KeyL\<close>, and the same event is
  both the shortcut for a new entry and the one that locks the vault.
\<close>

lemma layout_conflict:
  "matchesShortcut (ctrl_event ''n'' ''KeyL'') (Some (kb_newEntry DEFAULT_KEYBINDS)) \<and>
   matchesShortcut (ctrl_event ''n'' ''KeyL'') (Some (kb_lockVault DEFAULT_KEYBINDS))"
  by (simp add: DEFAULT_KEYBINDS_def ctrl_key_def ctrl_event_def matchesShortcut_def js_case_eval Let_def)

end
