(* ===== verification/App_Metadata.thy ===== *)
theory App_Metadata
  imports Vault_Types
begin

text \<open>
  The metadata store of \<open>src/src/lib/appMetadata.ts\<close>: a few allowed keys kept in memory and
  in the browser's storage, written to the native store by a queue of saves, one at a time, each
  with everything still pending. The native store's answers are events; \<open>md_stored\<close> is what it
  holds after the saves it has acknowledged, \<open>md_sent\<close> the payloads it was handed. A call of
  \<open>flush\<close> is an entry of \<open>md_flushes\<close>, suspended at one of its two \<open>await this.queue\<close>.
\<close>

section \<open>State\<close>

definition KEYS :: "string list" where
  "KEYS = [''yntra-vault-recent-vaults'', ''yntra-vault-settings'', ''yntra-vault-theme'',
     ''yntra-vault-setup-completed'']"

type_synonym string_map = "(string, string) omap"

text \<open>
  An awaited \<open>this.queue\<close> is the promise of the last job queued so far: the wait is over once as many
  jobs have ended (\<open>md_ended\<close>) as were queued when it began (\<open>md_enqueued\<close>).
\<close>

datatype flush =
    FirstWait nat
  | SecondWait nat
  | FlushDone bool

record metadata =
  md_values :: string_map
  md_native :: bool
  md_queue :: nat
  md_saving :: "string_map option"
  md_failure :: bool
  md_pending :: string_map
  md_browser :: string_map
  md_browserWorks :: bool
  md_failures :: nat
  md_stored :: string_map
  md_sent :: "string_map list"
  md_enqueued :: nat
  md_ended :: nat
  md_flushes :: "flush list"

definition new_metadata :: "string_map \<Rightarrow> bool \<Rightarrow> metadata" where
  "new_metadata browser works =
     \<lparr>md_values = [], md_native = False, md_queue = 0, md_saving = None, md_failure = False,
      md_pending = [], md_browser = browser, md_browserWorks = works, md_failures = 0,
      md_stored = [], md_sent = [], md_enqueued = 0, md_ended = 0, md_flushes = []\<rparr>"

datatype metadata_error = UnsupportedKey | StorageUnavailable | LoadFailed | SaveFailed

section \<open>Operations\<close>

text \<open>\<open>this.browser()\<close> throws when the WebView has no storage.\<close>

definition browser_set :: "string \<Rightarrow> string \<Rightarrow> metadata \<Rightarrow> metadata" where
  "browser_set k v s = (if md_browserWorks s then s\<lparr>md_browser := om_set k v (md_browser s)\<rparr> else s)"

definition browser_del :: "string \<Rightarrow> metadata \<Rightarrow> metadata" where
  "browser_del k s = (if md_browserWorks s then s\<lparr>md_browser := om_del k (md_browser s)\<rparr> else s)"

definition merged_values :: "string_map \<Rightarrow> metadata \<Rightarrow> string_map" where
  "merged_values saved s =
     List.map_filter (\<lambda>k. map_option (Pair k)
       (case om_get saved k of
          Some v \<Rightarrow> Some v
        | None \<Rightarrow> if md_browserWorks s then om_get (md_browser s) k else None)) KEYS"

fun mirror :: "string list \<Rightarrow> metadata \<Rightarrow> metadata" where
  "mirror [] s = s"
| "mirror (k # ks) s =
     mirror ks (case om_get (md_values s) k of Some v \<Rightarrow> browser_set k v s | None \<Rightarrow> browser_del k s)"

text \<open>\<open>initialize\<close>: the two loads and the save in between, any of which may fail.\<close>

definition initialize ::
  "string_map option \<Rightarrow> bool \<Rightarrow> string_map option \<Rightarrow> metadata \<Rightarrow> metadata_error + metadata" where
  "initialize loaded save_ok reloaded s =
     (case loaded of
        None \<Rightarrow> Inl LoadFailed
      | Some saved \<Rightarrow>
          let s = s\<lparr>md_sent := md_sent s @ [merged_values saved s]\<rparr>
          in if \<not> save_ok then Inl SaveFailed
             else (case reloaded of
                     None \<Rightarrow> Inl LoadFailed
                   | Some vs \<Rightarrow> Inr (mirror KEYS (s\<lparr>md_values := vs, md_stored := vs, md_native := True\<rparr>))))"

definition getItem :: "string \<Rightarrow> metadata \<Rightarrow> metadata_error + string option" where
  "getItem k s =
     (if k \<notin> set KEYS then Inl UnsupportedKey
      else if md_native s then Inr (om_get (md_values s) k)
      else Inr (if md_browserWorks s then om_get (md_browser s) k else None))"

definition persist :: "string \<Rightarrow> metadata \<Rightarrow> metadata" where
  "persist k s =
     s\<lparr>md_pending := (case om_get (md_values s) k of Some v \<Rightarrow> om_set k v (md_pending s) | None \<Rightarrow> md_pending s),
       md_queue := Suc (md_queue s), md_enqueued := Suc (md_enqueued s)\<rparr>"

definition setItem :: "string \<Rightarrow> string \<Rightarrow> metadata \<Rightarrow> metadata_error + metadata" where
  "setItem k v s =
     (if k \<notin> set KEYS then Inl UnsupportedKey
      else if \<not> md_native s then (if md_browserWorks s then Inr (browser_set k v s) else Inl StorageUnavailable)
      else Inr (persist k (browser_set k v (s\<lparr>md_values := om_set k v (md_values s)\<rparr>))))"

definition reset_value :: "string \<Rightarrow> string" where
  "reset_value k =
     (if k = ''yntra-vault-setup-completed'' then ''false''
      else if k = ''yntra-vault-recent-vaults'' then ''[]''
      else if k = ''yntra-vault-settings'' then ''{}'' else ''system'')"

definition removeItem :: "string \<Rightarrow> metadata \<Rightarrow> metadata_error + metadata" where
  "removeItem k s =
     (if k \<notin> set KEYS then Inl UnsupportedKey
      else if \<not> md_native s then (if md_browserWorks s then Inr (browser_del k s) else Inl StorageUnavailable)
      else Inr (persist k (browser_del k (s\<lparr>md_values := om_set k (reset_value k) (md_values s)\<rparr>))))"

text \<open>The next job of the queue takes its snapshot; with nothing pending it ends at once.\<close>

definition start_save :: "metadata \<Rightarrow> metadata" where
  "start_save s =
     (if md_saving s = None \<and> 0 < md_queue s
      then let s = s\<lparr>md_queue := md_queue s - 1\<rparr>
           in if md_pending s = [] then s\<lparr>md_ended := Suc (md_ended s)\<rparr>
              else s\<lparr>md_saving := Some (md_pending s), md_sent := md_sent s @ [md_pending s]\<rparr>
      else s)"

fun forget_saved :: "string_map \<Rightarrow> string_map \<Rightarrow> string_map" where
  "forget_saved [] p = p"
| "forget_saved ((k, v) # snap) p = forget_saved snap (if om_get p k = Some v then om_del k p else p)"

definition end_save :: "bool \<Rightarrow> metadata \<Rightarrow> metadata" where
  "end_save ok s =
     (case md_saving s of
        None \<Rightarrow> s
      | Some snapshot \<Rightarrow>
          if ok
          then s\<lparr>md_saving := None, md_stored := fold (\<lambda>(k, v). om_set k v) snapshot (md_stored s),
                 md_pending := forget_saved snapshot (md_pending s), md_failure := False,
                 md_ended := Suc (md_ended s)\<rparr>
          else s\<lparr>md_saving := None, md_failure := True, md_failures := Suc (md_failures s),
                 md_ended := Suc (md_ended s)\<rparr>)"

text \<open>
  \<open>flush\<close> waits for the queue as it is; when a write failed and something is pending it queues one
  more job and waits for the queue as it is then; it throws when the last job that ended had failed.
\<close>

definition flush_call :: "metadata \<Rightarrow> metadata" where
  "flush_call s = s\<lparr>md_flushes := md_flushes s @ [FirstWait (md_enqueued s)]\<rparr>"

definition flush_moves :: "nat \<Rightarrow> flush \<Rightarrow> metadata \<Rightarrow> metadata" where
  "flush_moves i f s = s\<lparr>md_flushes := (md_flushes s)[i := f]\<rparr>"

definition flush_resumes :: "nat \<Rightarrow> metadata \<Rightarrow> metadata" where
  "flush_resumes i s =
     (if length (md_flushes s) \<le> i then s
      else case md_flushes s ! i of
        FirstWait n \<Rightarrow>
          if md_ended s < n then s
          else (case md_pending s of
                  (retryKey, v) # p \<Rightarrow>
                    if md_failure s
                    then let s = persist retryKey s in flush_moves i (SecondWait (md_enqueued s)) s
                    else flush_moves i (FlushDone True) s
                | [] \<Rightarrow> flush_moves i (FlushDone (\<not> md_failure s)) s)
      | SecondWait n \<Rightarrow> if md_ended s < n then s else flush_moves i (FlushDone (\<not> md_failure s)) s
      | FlushDone b \<Rightarrow> s)"

datatype metadata_event =
    SetItem string string
  | RemoveItem string
  | StartSave
  | EndSave bool
  | FlushCall
  | FlushResumes nat

definition or_stay :: "metadata_error + metadata \<Rightarrow> metadata \<Rightarrow> metadata" where
  "or_stay r s = (case r of Inl e \<Rightarrow> s | Inr s' \<Rightarrow> s')"

fun metadata_step :: "metadata_event \<Rightarrow> metadata \<Rightarrow> metadata" where
  "metadata_step (SetItem k v) s = or_stay (setItem k v s) s"
| "metadata_step (RemoveItem k) s = or_stay (removeItem k s) s"
| "metadata_step StartSave s = start_save s"
| "metadata_step (EndSave ok) s = end_save ok s"
| "metadata_step FlushCall s = flush_call s"
| "metadata_step (FlushResumes i) s = flush_resumes i s"

section \<open>Invariant\<close>

declare map_of_eq_Some_iff [simp del]

text \<open>
  What is pending is the value in memory; every value in memory is pending or stored; something
  pending has a save ahead, is being saved as it is, or has failed; only allowed keys are sent.
\<close>

definition md_mem :: "metadata \<Rightarrow> bool" where
  "md_mem s \<longleftrightarrow> (\<forall>k v. om_get (md_pending s) k = Some v \<longrightarrow> om_get (md_values s) k = Some v)"

definition md_durable :: "metadata \<Rightarrow> bool" where
  "md_durable s \<longleftrightarrow> (\<forall>k v. om_get (md_values s) k = Some v \<longrightarrow>
     om_get (md_pending s) k = Some v \<or> om_get (md_stored s) k = Some v)"

definition md_ahead :: "metadata \<Rightarrow> bool" where
  "md_ahead s \<longleftrightarrow>
     (case md_saving s of
        None \<Rightarrow> md_pending s \<noteq> [] \<longrightarrow> 0 < md_queue s \<or> md_failure s
      | Some snap \<Rightarrow> om_wf snap \<and> (\<forall>k. om_get snap k \<noteq> None \<longrightarrow> om_get (md_pending s) k \<noteq> None) \<and>
          (0 < md_queue s \<or> (\<forall>k v. om_get (md_pending s) k = Some v \<longrightarrow> om_get snap k = Some v)))"

definition md_allowed :: "metadata \<Rightarrow> bool" where
  "md_allowed s \<longleftrightarrow> om_wf (md_pending s) \<and> fst ` set (md_pending s) \<subseteq> set KEYS \<and>
     (\<forall>m \<in> set (md_sent s). fst ` set m \<subseteq> set KEYS)"

definition md_counted :: "metadata \<Rightarrow> bool" where
  "md_counted s \<longleftrightarrow>
     md_enqueued s = md_ended s + md_queue s + (case md_saving s of None \<Rightarrow> 0 | Some snap \<Rightarrow> 1)"

definition md_ok :: "metadata \<Rightarrow> bool" where
  "md_ok s \<longleftrightarrow> md_mem s \<and> md_durable s \<and> md_ahead s \<and> md_allowed s \<and> md_counted s"

lemmas md_defs = md_ok_def md_counted_def md_mem_def md_durable_def md_ahead_def md_allowed_def

lemma browser_frame [simp]:
  "md_values (browser_set k v s) = md_values s" "md_pending (browser_set k v s) = md_pending s"
  "md_queue (browser_set k v s) = md_queue s" "md_saving (browser_set k v s) = md_saving s"
  "md_failure (browser_set k v s) = md_failure s" "md_stored (browser_set k v s) = md_stored s"
  "md_sent (browser_set k v s) = md_sent s" "md_native (browser_set k v s) = md_native s"
  "md_enqueued (browser_set k v s) = md_enqueued s" "md_ended (browser_set k v s) = md_ended s" "md_flushes (browser_set k v s) = md_flushes s"
  "md_values (browser_del k s) = md_values s" "md_pending (browser_del k s) = md_pending s"
  "md_queue (browser_del k s) = md_queue s" "md_saving (browser_del k s) = md_saving s"
  "md_failure (browser_del k s) = md_failure s" "md_stored (browser_del k s) = md_stored s"
  "md_sent (browser_del k s) = md_sent s" "md_native (browser_del k s) = md_native s"
  "md_enqueued (browser_del k s) = md_enqueued s" "md_ended (browser_del k s) = md_ended s" "md_flushes (browser_del k s) = md_flushes s"
  by (simp_all add: browser_set_def browser_del_def)

lemma mirror_frame [simp]:
  "md_values (mirror ks s) = md_values s" "md_pending (mirror ks s) = md_pending s"
  "md_queue (mirror ks s) = md_queue s" "md_saving (mirror ks s) = md_saving s"
  "md_failure (mirror ks s) = md_failure s" "md_stored (mirror ks s) = md_stored s"
  "md_sent (mirror ks s) = md_sent s" "md_native (mirror ks s) = md_native s"
  "md_enqueued (mirror ks s) = md_enqueued s" "md_ended (mirror ks s) = md_ended s" "md_flushes (mirror ks s) = md_flushes s"
  by (induction ks arbitrary: s) (auto split: option.splits)

lemma forget_saved_get:
  "om_wf snap \<Longrightarrow> om_get (forget_saved snap p) k =
     (if om_get p k \<noteq> None \<and> om_get snap k = om_get p k then None else om_get p k)"
proof (induction snap arbitrary: p)
  case (Cons q snap)
  obtain k' v where q: "q = (k', v)" by (cases q)
  have "k' \<notin> fst ` set snap" using Cons.prems q by simp
  then have "om_get snap k' = None" by (simp add: map_of_eq_None_iff)
  with Cons q show ?case by auto
qed simp

lemma forget_saved_sub: "set (forget_saved snap p) \<subseteq> set p"
  by (induction snap p rule: forget_saved.induct) (auto simp: set_om_del split: if_splits)

lemma forget_saved_wf: "om_wf p \<Longrightarrow> om_wf (forget_saved snap p)"
  by (induction snap p rule: forget_saved.induct) auto

lemma fold_set_get:
  "om_wf snap \<Longrightarrow> om_get (fold (\<lambda>(k, v). om_set k v) snap m) k =
     (case om_get snap k of None \<Rightarrow> om_get m k | Some v \<Rightarrow> Some v)"
proof -
  assume wf: "om_wf snap"
  then have "om_get (rev snap) = om_get snap" by (subst map_of_inject_set) (simp_all flip: rev_map)
  then show ?thesis by (simp add: om.get_fold_put)
qed

lemma md_ok_persist:
  "md_ok s \<Longrightarrow> k \<in> set KEYS \<Longrightarrow> md_ok (persist k (s\<lparr>md_values := om_set k v (md_values s)\<rparr>))"
  by (auto simp: md_defs persist_def split: option.splits)

lemma or_stay_simps [simp]: "or_stay (Inl e) s = s" "or_stay (Inr s') s = s'"
  by (simp_all add: or_stay_def)

lemma browser_values [simp]:
  "browser_set k v (s\<lparr>md_values := m\<rparr>) = (browser_set k v s)\<lparr>md_values := m\<rparr>"
  "browser_del k (s\<lparr>md_values := m\<rparr>) = (browser_del k s)\<lparr>md_values := m\<rparr>"
  by (simp_all add: browser_set_def browser_del_def)

lemma md_ok_browser [simp]: "md_ok (browser_set k v s) = md_ok s" "md_ok (browser_del k s) = md_ok s"
  by (simp_all add: md_defs cong: option.case_cong)

lemma md_ok_start: "md_ok s \<Longrightarrow> md_ok (start_save s)"
  by (auto simp: md_defs start_save_def Let_def)

lemma map_of_nonempty: "m \<noteq> [] \<Longrightarrow> \<exists>k v. om_get m k = Some v"
  by (cases m) auto

lemma saved_mem: "om_wf snap \<Longrightarrow> om_get (forget_saved snap p) k = Some v \<Longrightarrow> om_get p k = Some v"
  by (simp add: forget_saved_get split: if_splits)

lemma saved_durable:
  "om_wf snap \<Longrightarrow> om_get p k = Some v \<Longrightarrow>
   om_get (forget_saved snap p) k = Some v \<or> om_get (fold (\<lambda>(k, v). om_set k v) snap st) k = Some v"
  by (simp add: forget_saved_get fold_set_get)

lemma saved_stored:
  "om_wf snap \<Longrightarrow> om_get st k = Some v \<Longrightarrow> om_get snap k = None \<or> om_get snap k = Some v \<Longrightarrow>
   om_get (fold (\<lambda>(k, v). om_set k v) snap st) k = Some v"
  by (auto simp: fold_set_get)

lemma saved_ahead:
  "om_wf snap \<Longrightarrow> \<forall>k v. om_get p k = Some v \<longrightarrow> om_get snap k = Some v \<Longrightarrow> forget_saved snap p = []"
  using map_of_nonempty [of "forget_saved snap p"] by (fastforce simp: forget_saved_get split: if_splits)

lemma md_ok_end_ok:
  assumes ok: "md_ok s" and snap: "md_saving s = Some snap"
  shows "md_ok (end_save True s)"
proof -
  have wf: "om_wf snap" using ok snap by (simp add: md_ok_def md_ahead_def)
  have "md_mem (end_save True s)"
    using ok snap by (simp add: md_ok_def md_mem_def end_save_def) (blast dest: saved_mem [OF wf])
  moreover have "md_durable (end_save True s)"
  proof -
    have "om_get (md_pending (end_save True s)) k = Some v \<or> om_get (md_stored (end_save True s)) k = Some v"
      if v: "om_get (md_values s) k = Some v" for k v
    proof (cases "om_get (md_pending s) k = Some v")
      case True
      then show ?thesis using snap saved_durable [OF wf True] by (simp add: end_save_def)
    next
      case False
      then have st: "om_get (md_stored s) k = Some v" and pend: "om_get (md_pending s) k = None"
        using ok v by (cases "om_get (md_pending s) k"; force simp: md_ok_def md_durable_def md_mem_def)+
      have "om_get snap k = None"
        using ok snap pend by (auto simp: md_ok_def md_ahead_def)
      with saved_stored [OF wf st] show ?thesis using snap by (simp add: end_save_def)
    qed
    then show ?thesis using snap by (simp add: md_durable_def end_save_def)
  qed
  moreover have "md_ahead (end_save True s)"
    using ok snap by (simp add: md_ok_def md_ahead_def end_save_def) (blast dest: saved_ahead [OF wf])
  moreover have "md_allowed (end_save True s)"
  proof -
    have "fst ` set (forget_saved snap (md_pending s)) \<subseteq> fst ` set (md_pending s)"
      by (rule image_mono) (rule forget_saved_sub)
    also have "\<dots> \<subseteq> set KEYS" using ok by (simp add: md_ok_def md_allowed_def)
    finally show ?thesis using ok snap by (simp add: md_ok_def md_allowed_def end_save_def forget_saved_wf)
  qed
  moreover have "md_counted (end_save True s)" using ok snap by (simp add: md_ok_def md_counted_def end_save_def)
  ultimately show ?thesis by (simp add: md_ok_def)
qed

lemma md_ok_end_failed: "md_ok s \<Longrightarrow> md_ok (end_save False s)"
  by (auto simp: md_defs end_save_def split: option.splits)

lemma md_ok_end: "md_ok s \<Longrightarrow> md_ok (end_save b s)"
proof (cases "md_saving s")
  case None
  then show "md_ok s \<Longrightarrow> md_ok (end_save b s)" by (simp add: end_save_def)
next
  case (Some snap)
  then show "md_ok s \<Longrightarrow> md_ok (end_save b s)"
    using md_ok_end_ok md_ok_end_failed by (cases b) simp_all
qed

lemma md_ok_set: "md_ok s \<Longrightarrow> md_ok (or_stay (setItem k v s) s)"
  using md_ok_persist [of "browser_set k v s" k v] by (auto simp: setItem_def)

lemma md_ok_remove: "md_ok s \<Longrightarrow> md_ok (or_stay (removeItem k s) s)"
  using md_ok_persist [of "browser_del k s" k "reset_value k"] by (auto simp: removeItem_def)

lemma md_ok_flushes [simp]: "md_ok (s\<lparr>md_flushes := fs\<rparr>) = md_ok s"
  by (simp add: md_defs cong: option.case_cong)

lemma md_ok_retry: "md_ok s \<Longrightarrow> md_pending s = (k, v) # p \<Longrightarrow> md_ok (persist k s)"
  by (auto simp: md_defs persist_def split: option.splits)

lemma md_ok_resumes: "md_ok s \<Longrightarrow> md_ok (flush_resumes i s)"
  using md_ok_retry by (auto simp: flush_resumes_def flush_moves_def Let_def split: flush.split list.split)

lemma md_ok_step [inv_steps]: "md_ok s \<Longrightarrow> md_ok (metadata_step e s)"
  by (cases e) (simp_all add: md_ok_set md_ok_remove md_ok_start md_ok_end flush_call_def md_ok_resumes)

interpretation metadata: invariant_machine metadata_step md_ok
  by unfold_locales (rule md_ok_step)

lemma merged_keys: "fst ` set (merged_values saved s) \<subseteq> set KEYS"
  by (auto simp: merged_values_def dest!: map_filter_mem)

lemma md_ok_initialize:
  assumes "initialize l ok r (new_metadata b w) = Inr s"
  shows "md_ok s \<and> md_native s"
proof -
  obtain saved vs where s: "s = mirror KEYS ((new_metadata b w)
      \<lparr>md_sent := [merged_values saved (new_metadata b w)], md_values := vs, md_stored := vs, md_native := True\<rparr>)"
    using assms by (auto simp: initialize_def new_metadata_def Let_def split: option.splits if_splits)
  show ?thesis unfolding s md_defs using merged_keys [of saved "new_metadata b w"]
    by (simp add: new_metadata_def)
qed

text \<open>A store that was initialized and has then seen any events.\<close>

lemma md_ok_run:
  "initialize l ok r (new_metadata b w) = Inr s0 \<Longrightarrow> md_ok (run metadata_step es s0)"
  using md_ok_initialize by (blast intro: metadata.run_inv)

section \<open>What a flush promises\<close>

text \<open>The events that write the key \<open>k\<close>.\<close>

fun writes :: "string \<Rightarrow> metadata_event \<Rightarrow> bool" where
  "writes k (SetItem k' v) = (k' = k)"
| "writes k (RemoveItem k') = (k' = k)"
| "writes k e = False"

text \<open>
  What holds of an unwritten key from the moment \<open>flush\<close> number \<open>i\<close> is called, with \<open>n\<close> jobs queued
  until then: its value is pending or stored; while it is pending, one of the \<open>n\<close> jobs has not ended
  or the last save failed; and every job from the \<open>n\<close>-th on carries it.
\<close>

definition unwritten :: "nat \<Rightarrow> string \<Rightarrow> string \<Rightarrow> metadata \<Rightarrow> bool" where
  "unwritten n k v s \<longleftrightarrow> md_ok s \<and> n \<le> md_enqueued s \<and> om_get (md_values s) k = Some v \<and>
     (om_get (md_pending s) k = Some v \<longrightarrow> md_ended s < n \<or> md_failure s) \<and>
     (\<forall>snap. md_saving s = Some snap \<longrightarrow> om_get (md_pending s) k = Some v \<longrightarrow> n \<le> Suc (md_ended s) \<longrightarrow>
        om_get snap k = Some v)"

fun flush_stage :: "nat \<Rightarrow> string \<Rightarrow> metadata \<Rightarrow> flush \<Rightarrow> bool" where
  "flush_stage n k s (FirstWait m) = (m = n)"
| "flush_stage n k s (SecondWait m) = (n \<le> m)"
| "flush_stage n k s (FlushDone ok) = (ok \<longrightarrow> om_get (md_pending s) k = None)"

definition flushing :: "nat \<Rightarrow> nat \<Rightarrow> string \<Rightarrow> string \<Rightarrow> metadata \<Rightarrow> bool" where
  "flushing i n k v s \<longleftrightarrow> unwritten n k v s \<and> i < length (md_flushes s) \<and> flush_stage n k s (md_flushes s ! i)"

text \<open>The invariant when the call is made.\<close>

lemma flushing_start:
  assumes "md_ok s" and "om_get (md_values s) k = Some v"
  shows "flushing (length (md_flushes s)) (md_enqueued s) k v (flush_call s)"
proof -
  have "md_ended s < md_enqueued s \<or> md_failure s" if "om_get (md_pending s) k = Some v"
    using assms(1) that by (cases "md_saving s") (auto simp: md_ok_def md_counted_def md_ahead_def)
  moreover have "om_get snap k = Some v"
    if "md_saving s = Some snap" "om_get (md_pending s) k = Some v" "md_enqueued s \<le> Suc (md_ended s)" for snap
    using assms(1) that by (simp add: md_ok_def md_counted_def md_ahead_def)
  ultimately show ?thesis using assms by (simp add: flushing_def unwritten_def flush_call_def)
qed

text \<open>A value in memory that is not pending is stored; what is pending is the value in memory.\<close>

lemma unwritten_stored: "unwritten n k v s \<Longrightarrow> om_get (md_pending s) k = None \<Longrightarrow> om_get (md_stored s) k = Some v"
  unfolding unwritten_def md_ok_def md_durable_def by (metis option.distinct(1))

lemma unwritten_pending: "unwritten n k v s \<Longrightarrow> om_get (md_pending s) k \<noteq> None \<Longrightarrow> om_get (md_pending s) k = Some v"
  unfolding unwritten_def md_ok_def md_mem_def by (metis not_None_eq option.inject)

text \<open>Success of a wait for the first \<open>n\<close> jobs means that the key is no longer pending.\<close>

lemma unwritten_success:
  "unwritten n k v s \<Longrightarrow> n \<le> md_ended s \<Longrightarrow> \<not> md_failure s \<Longrightarrow> om_get (md_pending s) k = None"
  using unwritten_pending [of n k v s] unfolding unwritten_def by (metis leD)

text \<open>Operations that leave the key and the saves alone keep the invariant.\<close>

lemma flushing_frame:
  assumes "flushing i n k v s" "md_ok t"
    and "om_get (md_values t) k = om_get (md_values s) k" "om_get (md_pending t) k = om_get (md_pending s) k"
    and "md_enqueued s \<le> md_enqueued t" "md_ended t = md_ended s" "md_failure t = md_failure s"
    and "md_saving t = md_saving s" and "i < length (md_flushes t)" "flush_stage n k t (md_flushes t ! i)"
  shows "flushing i n k v t"
  using assms by (simp add: flushing_def unwritten_def)

lemma stage_frame: "om_get (md_pending t) k = om_get (md_pending s) k \<Longrightarrow> flush_stage n k t f = flush_stage n k s f"
  by (cases f) simp_all

lemma flushing_persist:
  assumes "flushing i n k v s" "k' \<in> set KEYS" "k' \<noteq> k"
  shows "flushing i n k v (persist k' (s\<lparr>md_values := om_set k' w (md_values s)\<rparr>))"
proof -
  let ?t = "persist k' (s\<lparr>md_values := om_set k' w (md_values s)\<rparr>)"
  have ok: "md_ok ?t" using assms md_ok_persist by (simp add: flushing_def unwritten_def)
  have pend: "om_get (md_pending ?t) k = om_get (md_pending s) k" using assms(3) by (simp add: persist_def)
  show ?thesis
    by (rule flushing_frame [OF assms(1) ok]) (use assms pend stage_frame [OF pend] in \<open>auto simp: persist_def flushing_def\<close>)
qed

lemma flushing_browser [simp]:
  "flushing i n k v (browser_set k' w s) = flushing i n k v s" "flushing i n k v (browser_del k' s) = flushing i n k v s"
  by (simp_all add: flushing_def unwritten_def stage_frame [of "browser_set k' w s" k s] stage_frame [of "browser_del k' s" k s])

lemma flushing_start_save:
  assumes "flushing i n k v s"
  shows "flushing i n k v (start_save s)"
proof -
  have ok: "md_ok (start_save s)" using assms md_ok_start by (simp add: flushing_def unwritten_def)
  have pend: "om_get (md_pending (start_save s)) k = om_get (md_pending s) k" by (simp add: start_save_def Let_def)
  show ?thesis using assms ok stage_frame [OF pend] by (auto simp: flushing_def unwritten_def start_save_def Let_def)
qed

lemma flushing_end_save:
  assumes "flushing i n k v s"
  shows "flushing i n k v (end_save b s)"
proof (cases "md_saving s")
  case None
  with assms show ?thesis by (simp add: end_save_def)
next
  case (Some snap)
  have ok: "md_ok (end_save b s)" and wf: "om_wf snap"
    using assms Some md_ok_end by (auto simp: flushing_def unwritten_def md_ok_def md_ahead_def)
  show ?thesis
  proof (cases b)
    case False
    have pend: "om_get (md_pending (end_save b s)) k = om_get (md_pending s) k" using Some False by (simp add: end_save_def)
    show ?thesis using assms ok False Some stage_frame [OF pend] by (auto simp: flushing_def unwritten_def end_save_def)
  next
    case True
    have "flush_stage n k (end_save b s) f" if "flush_stage n k s f" for f
      using that True Some by (cases f) (simp_all add: end_save_def forget_saved_get [OF wf])
    then show ?thesis using assms ok True Some
      by (auto simp: flushing_def unwritten_def end_save_def forget_saved_get [OF wf] split: if_splits)
  qed
qed

text \<open>A retry queues a job for a key that is pending already.\<close>

lemma retry_frame:
  assumes "md_ok s" "md_pending s = (k', w) # p"
  shows "om_get (md_pending (persist k' s)) = om_get (md_pending s)" "md_values (persist k' s) = md_values s"
proof -
  have "om_get (md_values s) k' = Some w" using assms by (simp add: md_ok_def md_mem_def)
  then show "om_get (md_pending (persist k' s)) = om_get (md_pending s)" using assms(2)
    by (auto simp: persist_def fun_eq_iff)
qed (simp add: persist_def)

lemma flushing_moves:
  assumes "flushing i n k v s" "j = i \<Longrightarrow> flush_stage n k s f"
  shows "flushing i n k v (flush_moves j f s)"
proof -
  have pend: "om_get (md_pending (flush_moves j f s)) k = om_get (md_pending s) k" by (simp add: flush_moves_def)
  show ?thesis using assms stage_frame [OF pend]
    by (cases "j = i") (simp_all add: flushing_def unwritten_def flush_moves_def)
qed

lemma flushing_retry:
  assumes "flushing i n k v s" "md_pending s = (k', w) # p"
  shows "flushing i n k v (persist k' s)"
proof -
  have ok: "md_ok s" using assms(1) by (simp add: flushing_def unwritten_def)
  note fr = retry_frame [OF ok assms(2)]
  have pend: "om_get (md_pending (persist k' s)) k = om_get (md_pending s) k" by (simp add: fr)
  show ?thesis
    by (rule flushing_frame [OF assms(1) md_ok_retry [OF ok assms(2)]])
       (use assms(1) fr stage_frame [OF pend] in \<open>auto simp: persist_def flushing_def\<close>)
qed

lemma persist_queued: "md_enqueued (persist k s) = Suc (md_enqueued s)"
  by (simp add: persist_def)

lemma flushing_resumes:
  assumes "flushing i n k v s"
  shows "flushing i n k v (flush_resumes j s)"
proof -
  have un: "unwritten n k v s" and st: "flush_stage n k s (md_flushes s ! i)" using assms by (simp_all add: flushing_def)
  have over: "flushing i n k v (flush_moves j (FlushDone (\<not> md_failure s)) s)" if "j = i \<Longrightarrow> n \<le> md_ended s"
    using unwritten_success [OF un] that by (intro flushing_moves [OF assms]) simp
  have again: "flushing i n k v (flush_moves j (SecondWait (Suc (md_enqueued s))) (persist k' s))"
    if "md_pending s = (k', w) # p" for k' w p
    using un by (intro flushing_moves flushing_retry [OF assms that]) (simp add: unwritten_def persist_def)
  show ?thesis
  proof (cases "length (md_flushes s) \<le> j")
    case False
    show ?thesis
    proof (cases "md_flushes s ! j")
      case (FirstWait m)
      then have n: "j = i \<Longrightarrow> m = n" using st by simp
      show ?thesis
      proof (cases "m \<le> md_ended s")
        case True
        with n have "flushing i n k v (flush_moves j (FlushDone (\<not> md_failure s)) s)" by (intro over) simp
        then show ?thesis using again FirstWait False True
          by (cases "md_pending s"; cases "md_failure s") (auto simp: flush_resumes_def Let_def persist_queued)
      qed (use assms FirstWait in \<open>simp add: flush_resumes_def\<close>)
    next
      case (SecondWait m)
      then have n: "j = i \<Longrightarrow> n \<le> m" using st by simp
      show ?thesis
      proof (cases "m \<le> md_ended s")
        case True
        with n have "flushing i n k v (flush_moves j (FlushDone (\<not> md_failure s)) s)" by (intro over) simp
        then show ?thesis using SecondWait False True by (simp add: flush_resumes_def)
      qed (use assms SecondWait in \<open>simp add: flush_resumes_def\<close>)
    qed (use assms in \<open>simp add: flush_resumes_def\<close>)
  qed (use assms in \<open>simp add: flush_resumes_def\<close>)
qed

lemma flushing_step:
  assumes "flushing i n k v s" "\<not> writes k e"
  shows "flushing i n k v (metadata_step e s)"
proof (cases e)
  case FlushCall
  have pend: "om_get (md_pending (flush_call s)) k = om_get (md_pending s) k" by (simp add: flush_call_def)
  show ?thesis using assms FlushCall stage_frame [OF pend]
    by (simp add: flushing_def unwritten_def nth_append) (simp add: flush_call_def nth_append)
next
  case (SetItem k' w)
  with assms flushing_persist [of i n k v "browser_set k' w s" k' w] show ?thesis by (auto simp: setItem_def)
next
  case (RemoveItem k')
  with assms flushing_persist [of i n k v "browser_del k' s" k' "reset_value k'"] show ?thesis
    by (auto simp: removeItem_def)
qed (use assms flushing_start_save flushing_end_save flushing_resumes in simp_all)

lemma flushing_run:
  "flushing i n k v s \<Longrightarrow> list_all (\<lambda>e. \<not> writes k e) es \<Longrightarrow> flushing i n k v (run metadata_step es s)"
  by (induction es arbitrary: s) (auto intro: flushing_step)

text \<open>
  Claim C14. A reported success means durable settings. After initialization and any events, let the
  application read \<open>v\<close> under the key \<open>k\<close> when \<open>flush\<close> is called; let any events follow (writes of
  other keys, saves that succeed or fail, other flushes), with \<open>k\<close> not written again. If that call of
  \<open>flush\<close> has returned without throwing, the native store holds \<open>v\<close> under \<open>k\<close>. Nothing outside the
  allowed keys was sent to the native store.
\<close>

theorem flush_durable:
  assumes "initialize l ok r (new_metadata b w) = Inr s0" and "s = run metadata_step es s0"
    and "om_get (md_values s) k = Some v" and "list_all (\<lambda>e. \<not> writes k e) es'"
    and "s' = run metadata_step (FlushCall # es') s" and "md_flushes s' ! length (md_flushes s) = FlushDone True"
  shows "om_get (md_stored s') k = Some v \<and> (\<forall>m \<in> set (md_sent s'). fst ` set m \<subseteq> set KEYS)"
proof -
  have ok: "md_ok s" unfolding assms(2) by (rule md_ok_run [OF assms(1)])
  then have "flushing (length (md_flushes s)) (md_enqueued s) k v s'"
    unfolding assms(5) using flushing_run [OF flushing_start [OF ok assms(3)] assms(4)] by simp
  then have un: "unwritten (md_enqueued s) k v s'" and "om_get (md_pending s') k = None"
    using assms(6) by (simp_all add: flushing_def)
  from unwritten_stored [OF this] un show ?thesis by (simp add: unwritten_def md_ok_def md_allowed_def)
qed

text \<open>
  The first save fails; \<open>flush\<close> waits for it, queues the retry, and returns once that has succeeded,
  while a write of another key is queued behind it and still unsaved.
\<close>

theorem flush_durable_witness:
  "om_get (md_stored (run metadata_step
     [FlushCall, StartSave, EndSave False, FlushResumes 0, StartSave,
      SetItem ''yntra-vault-settings'' ''{}'', EndSave True, FlushResumes 0]
     (run metadata_step [SetItem ''yntra-vault-theme'' ''dark'']
       (mirror KEYS ((new_metadata [] True)\<lparr>md_sent := [[]], md_values := [], md_stored := [], md_native := True\<rparr>)))))
     ''yntra-vault-theme'' = Some ''dark''"
proof -
  let ?start = "mirror KEYS ((new_metadata [] True)\<lparr>md_sent := [[]], md_values := [], md_stored := [], md_native := True\<rparr>)"
  let ?s = "run metadata_step [SetItem ''yntra-vault-theme'' ''dark''] ?start"
  let ?es = "[StartSave, EndSave False, FlushResumes 0, StartSave,
      SetItem ''yntra-vault-settings'' ''{}'', EndSave True, FlushResumes 0]"
  have init: "initialize (Some []) True (Some []) (new_metadata [] True) = Inr ?start"
    by (simp add: initialize_def new_metadata_def merged_values_def KEYS_def List.map_filter_def Let_def)
  have eval: "om_get (md_values ?s) ''yntra-vault-theme'' = Some ''dark''"
      "list_all (\<lambda>e. \<not> writes ''yntra-vault-theme'' e) ?es"
      "md_flushes (run metadata_step (FlushCall # ?es) ?s) ! length (md_flushes ?s) = FlushDone True"
    by (simp_all add: setItem_def KEYS_def new_metadata_def persist_def browser_set_def browser_del_def
        start_save_def end_save_def flush_call_def flush_resumes_def flush_moves_def Let_def)
  from flush_durable [OF init refl eval(1,2) refl eval(3)] show ?thesis by blast
qed

text \<open>
  A removed setting cannot be revived from old browser data: after \<open>removeItem\<close> the
  application reads the explicit reset value, which is queued for the native store.
\<close>

theorem removeItem_resets:
  assumes "k \<in> set KEYS" and "md_native s"
  shows "\<exists>s'. removeItem k s = Inr s' \<and> getItem k s' = Inr (Some (reset_value k)) \<and>
    om_get (md_pending s') k = Some (reset_value k) \<and> md_queue s' = Suc (md_queue s) \<and>
    (md_browserWorks s \<longrightarrow> om_get (md_browser s') k = None)"
  using assms by (auto simp: removeItem_def getItem_def persist_def browser_del_def)

theorem removeItem_resets_witness:
  "\<exists>s'. removeItem ''yntra-vault-theme'' ((new_metadata [] True)\<lparr>md_native := True\<rparr>) = Inr s' \<and>
     getItem ''yntra-vault-theme'' s' = Inr (Some ''system'')"
  using removeItem_resets [of "''yntra-vault-theme''" "(new_metadata [] True)\<lparr>md_native := True\<rparr>"]
  by (auto simp: KEYS_def new_metadata_def reset_value_def)

end
