(* ===== verification/Settings_State.thy ===== *)
theory Settings_State
  imports Keybinds App_Metadata
begin

text \<open>
  Settings: \<open>SettingsContext.model.ts\<close> and \<open>SettingsContext.provider.tsx\<close>. A partial
  settings object is the list of the properties it has, applied in their order, as the spread
  does. The serialised effect that opens or closes the native network gates is a queue of jobs
  whose calls settle by events; the settings handed to \<open>appMetadata.setItem\<close> and the four settings
  passed on to the native side are kept in their order. \<open>JSON.parse\<close> of the stored text is a parameter.
\<close>

section \<open>Defaults\<close>

definition DEFAULT_SETTINGS :: app_settings where
  "DEFAULT_SETTINGS =
     \<lparr>st_theme = SystemTheme, st_language = ''en'', st_sidebarWidth = 220, st_passwordListWidth = 320,
      st_fontSize = 13, st_density = NormalDensity, st_autoLockMinutes = 15,
      st_clipboardClearSeconds = 30, st_minimizeToTray = True, st_launchOnStartup = False,
      st_disableSkeletonDelays = False, st_autoBreachCheck = False, st_showBreachInList = True,
      st_autotypeCharDelayMs = 15, st_autotypeFieldDelayMs = 300, st_autotypeSettleDelayMs = 3000,
      st_autotypeLaunchBrowser = True, st_tagSortOrder = Some TagCustom, st_showTagCounts = Some True,
      st_entrySortOrder = Some SortUpdated, st_groupByDate = Some True,
      st_keybinds = Some DEFAULT_KEYBINDS, st_forceMobileView = Some False,
      st_windowCaptureProtection = Some True, st_lockOnFocusLoss = Some False,
      st_lockOnSystemLock = Some True, st_webdavEnabled = Some False, st_webdavUrl = Some [],
      st_webdavUser = Some [], st_webdavAutoSync = Some False, st_p2pAddr = Some ''0.0.0.0:5322'',
      st_p2pAutoListen = Some False, st_p2pAutoSyncWifi = Some False,
      st_p2pAutoSyncIntervalMinutes = Some 5, st_externalFaviconsEnabled = Some True,
      st_autoCheckUpdates = Some False, st_operationMode = Some Standard\<rparr>"

section \<open>Partial settings\<close>

text \<open>One property of a \<open>Partial<AppSettings>\<close>; stored shortcuts are merged with the defaults.\<close>

datatype setting =
    SetTheme theme
  | SetLanguage string
  | SetSidebarWidth int
  | SetPasswordListWidth int
  | SetFontSize int
  | SetDensity density
  | SetAutoLockMinutes int
  | SetClipboardClearSeconds int
  | SetMinimizeToTray bool
  | SetLaunchOnStartup bool
  | SetDisableSkeletonDelays bool
  | SetAutoBreachCheck bool
  | SetShowBreachInList bool
  | SetAutotypeCharDelayMs int
  | SetAutotypeFieldDelayMs int
  | SetAutotypeSettleDelayMs int
  | SetAutotypeLaunchBrowser bool
  | SetTagSortOrder "tag_sort option"
  | SetShowTagCounts "bool option"
  | SetEntrySortOrder "entry_sort option"
  | SetGroupByDate "bool option"
  | SetKeybinds partial_keybinds
  | SetForceMobileView "bool option"
  | SetWindowCaptureProtection "bool option"
  | SetLockOnFocusLoss "bool option"
  | SetLockOnSystemLock "bool option"
  | SetWebdavEnabled "bool option"
  | SetWebdavUrl "string option"
  | SetWebdavUser "string option"
  | SetWebdavAutoSync "bool option"
  | SetP2pAddr "string option"
  | SetP2pAutoListen "bool option"
  | SetP2pAutoSyncWifi "bool option"
  | SetP2pAutoSyncIntervalMinutes "int option"
  | SetExternalFaviconsEnabled "bool option"
  | SetAutoCheckUpdates "bool option"
  | SetOperationMode "operation_mode option"

fun apply_setting :: "setting \<Rightarrow> app_settings \<Rightarrow> app_settings" where
  "apply_setting (SetTheme x) s = s\<lparr>st_theme := x\<rparr>"
| "apply_setting (SetLanguage x) s = s\<lparr>st_language := x\<rparr>"
| "apply_setting (SetSidebarWidth x) s = s\<lparr>st_sidebarWidth := x\<rparr>"
| "apply_setting (SetPasswordListWidth x) s = s\<lparr>st_passwordListWidth := x\<rparr>"
| "apply_setting (SetFontSize x) s = s\<lparr>st_fontSize := x\<rparr>"
| "apply_setting (SetDensity x) s = s\<lparr>st_density := x\<rparr>"
| "apply_setting (SetAutoLockMinutes x) s = s\<lparr>st_autoLockMinutes := x\<rparr>"
| "apply_setting (SetClipboardClearSeconds x) s = s\<lparr>st_clipboardClearSeconds := x\<rparr>"
| "apply_setting (SetMinimizeToTray x) s = s\<lparr>st_minimizeToTray := x\<rparr>"
| "apply_setting (SetLaunchOnStartup x) s = s\<lparr>st_launchOnStartup := x\<rparr>"
| "apply_setting (SetDisableSkeletonDelays x) s = s\<lparr>st_disableSkeletonDelays := x\<rparr>"
| "apply_setting (SetAutoBreachCheck x) s = s\<lparr>st_autoBreachCheck := x\<rparr>"
| "apply_setting (SetShowBreachInList x) s = s\<lparr>st_showBreachInList := x\<rparr>"
| "apply_setting (SetAutotypeCharDelayMs x) s = s\<lparr>st_autotypeCharDelayMs := x\<rparr>"
| "apply_setting (SetAutotypeFieldDelayMs x) s = s\<lparr>st_autotypeFieldDelayMs := x\<rparr>"
| "apply_setting (SetAutotypeSettleDelayMs x) s = s\<lparr>st_autotypeSettleDelayMs := x\<rparr>"
| "apply_setting (SetAutotypeLaunchBrowser x) s = s\<lparr>st_autotypeLaunchBrowser := x\<rparr>"
| "apply_setting (SetTagSortOrder x) s = s\<lparr>st_tagSortOrder := x\<rparr>"
| "apply_setting (SetShowTagCounts x) s = s\<lparr>st_showTagCounts := x\<rparr>"
| "apply_setting (SetEntrySortOrder x) s = s\<lparr>st_entrySortOrder := x\<rparr>"
| "apply_setting (SetGroupByDate x) s = s\<lparr>st_groupByDate := x\<rparr>"
| "apply_setting (SetKeybinds x) s = s\<lparr>st_keybinds := Some (getKeybinds (Some x))\<rparr>"
| "apply_setting (SetForceMobileView x) s = s\<lparr>st_forceMobileView := x\<rparr>"
| "apply_setting (SetWindowCaptureProtection x) s = s\<lparr>st_windowCaptureProtection := x\<rparr>"
| "apply_setting (SetLockOnFocusLoss x) s = s\<lparr>st_lockOnFocusLoss := x\<rparr>"
| "apply_setting (SetLockOnSystemLock x) s = s\<lparr>st_lockOnSystemLock := x\<rparr>"
| "apply_setting (SetWebdavEnabled x) s = s\<lparr>st_webdavEnabled := x\<rparr>"
| "apply_setting (SetWebdavUrl x) s = s\<lparr>st_webdavUrl := x\<rparr>"
| "apply_setting (SetWebdavUser x) s = s\<lparr>st_webdavUser := x\<rparr>"
| "apply_setting (SetWebdavAutoSync x) s = s\<lparr>st_webdavAutoSync := x\<rparr>"
| "apply_setting (SetP2pAddr x) s = s\<lparr>st_p2pAddr := x\<rparr>"
| "apply_setting (SetP2pAutoListen x) s = s\<lparr>st_p2pAutoListen := x\<rparr>"
| "apply_setting (SetP2pAutoSyncWifi x) s = s\<lparr>st_p2pAutoSyncWifi := x\<rparr>"
| "apply_setting (SetP2pAutoSyncIntervalMinutes x) s = s\<lparr>st_p2pAutoSyncIntervalMinutes := x\<rparr>"
| "apply_setting (SetExternalFaviconsEnabled x) s = s\<lparr>st_externalFaviconsEnabled := x\<rparr>"
| "apply_setting (SetAutoCheckUpdates x) s = s\<lparr>st_autoCheckUpdates := x\<rparr>"
| "apply_setting (SetOperationMode x) s = s\<lparr>st_operationMode := x\<rparr>"

definition merge_settings :: "app_settings \<Rightarrow> setting list \<Rightarrow> app_settings" where
  "merge_settings s partial = fold apply_setting partial s"

text \<open>The initial state: what was saved over the defaults, or the defaults if it cannot be read.\<close>

definition load_settings :: "(string \<Rightarrow> setting list option) \<Rightarrow> string option \<Rightarrow> app_settings" where
  "load_settings json_parse saved =
     (if truthy_str saved
      then (case json_parse (the saved) of
              None \<Rightarrow> DEFAULT_SETTINGS
            | Some parsed \<Rightarrow> merge_settings (DEFAULT_SETTINGS\<lparr>st_keybinds := Some (getKeybinds None)\<rparr>) parsed)
      else DEFAULT_SETTINGS)"

fun new_mode :: "setting list \<Rightarrow> operation_mode option" where
  "new_mode [] = None"
| "new_mode (SetOperationMode m # ps) = (case new_mode ps of None \<Rightarrow> m | Some x \<Rightarrow> Some x)"
| "new_mode (p # ps) = new_mode ps"

fun new_favicons :: "setting list \<Rightarrow> bool option" where
  "new_favicons [] = None"
| "new_favicons (SetExternalFaviconsEnabled b # ps) = (case new_favicons ps of None \<Rightarrow> b | Some x \<Rightarrow> Some x)"
| "new_favicons (p # ps) = new_favicons ps"

section \<open>What is passed on to the native side\<close>

text \<open>The four effects that pass a setting on, at mount and when the value they depend on changed.\<close>

datatype native_setting =
    MinimizeToTray bool
  | WindowCaptureProtection bool
  | LockOnFocusLoss bool
  | LockOnSystemLock bool

definition native_tray :: "app_settings \<Rightarrow> native_setting" where
  "native_tray st = MinimizeToTray (st_minimizeToTray st)"

definition native_capture :: "app_settings \<Rightarrow> native_setting" where
  "native_capture st = WindowCaptureProtection (st_windowCaptureProtection st \<noteq> Some False)"

definition native_focus :: "app_settings \<Rightarrow> native_setting" where
  "native_focus st = LockOnFocusLoss (st_lockOnFocusLoss st = Some True)"

definition native_system :: "app_settings \<Rightarrow> native_setting" where
  "native_system st = LockOnSystemLock (st_lockOnSystemLock st \<noteq> Some False)"

definition sync_effects :: "app_settings option \<Rightarrow> app_settings \<Rightarrow> native_setting list" where
  "sync_effects prev st =
     (let changed = (\<lambda>field. case prev of None \<Rightarrow> True | Some old \<Rightarrow> field old \<noteq> field st)
      in (if changed (\<lambda>x. Some (st_minimizeToTray x)) then [native_tray st] else []) @
         (if changed st_windowCaptureProtection then [native_capture st] else []) @
         (if changed st_lockOnFocusLoss then [native_focus st] else []) @
         (if changed st_lockOnSystemLock then [native_system st] else []))"

section \<open>The native network gates\<close>

text \<open>
  A run of the favicon effect: the values it captured, whether it was cleaned up, and how far
  it has come. \<open>ns_network\<close> and \<open>ns_favicons\<close> are the native gates as last acknowledged.
\<close>

datatype job_stage = Queued | AwaitNetwork | AwaitFavicons

record gate_job =
  gj_network :: bool
  gj_favicons :: bool
  gj_cancelled :: bool
  gj_stage :: job_stage

datatype gate_event_name = FaviconsCleared | FaviconsReset

record settings_state =
  ns_tauri :: bool
  ns_settings :: app_settings
  ns_rendered :: app_settings
  ns_faviconsReady :: bool
  ns_networkReady :: bool
  ns_jobs :: "gate_job list"
  ns_network :: "bool option"
  ns_favicons :: "bool option"
  ns_lastFailed :: bool
  ns_dispatched :: "gate_event_name list"
  ns_written :: "app_settings list"
  ns_passedOn :: "native_setting list"

definition network_wanted :: "app_settings \<Rightarrow> bool" where
  "network_wanted st \<longleftrightarrow> st_operationMode st \<noteq> Some Airgap"

definition favicons_wanted :: "app_settings \<Rightarrow> bool" where
  "favicons_wanted st \<longleftrightarrow> network_wanted st \<and> st_externalFaviconsEnabled st = Some True"

text \<open>
  The write happens in the updater of \<open>setSettings\<close>; a \<open>setItem\<close> that throws is only logged.
\<close>

definition updateSettings :: "setting list \<Rightarrow> settings_state \<Rightarrow> settings_state" where
  "updateSettings partial s =
     (let s = (if new_mode partial \<noteq> None \<and> new_mode partial \<noteq> st_operationMode (ns_rendered s)
               then s\<lparr>ns_networkReady := False\<rparr> else s);
          s = (if new_mode partial \<noteq> None \<or> new_favicons partial \<noteq> None
               then s\<lparr>ns_faviconsReady := False\<rparr> else s);
          nxt = merge_settings (ns_settings s) partial
      in s\<lparr>ns_settings := nxt, ns_written := ns_written s @ [nxt]\<rparr>)"

text \<open>The effect: clean up the previous run, clear the icon cache when closing, and queue a job.\<close>

definition run_effect :: "settings_state \<Rightarrow> settings_state" where
  "run_effect s =
     (let st = ns_settings s
      in s\<lparr>ns_jobs := map (\<lambda>j. j\<lparr>gj_cancelled := True\<rparr>) (ns_jobs s) @
             [\<lparr>gj_network = network_wanted st, gj_favicons = favicons_wanted st, gj_cancelled = False, gj_stage = Queued\<rparr>],
           ns_dispatched := ns_dispatched s @ (if favicons_wanted st then [] else [FaviconsCleared])\<rparr>)"

definition mount_settings :: "bool \<Rightarrow> app_settings \<Rightarrow> settings_state" where
  "mount_settings tauri st =
     run_effect \<lparr>ns_tauri = tauri, ns_settings = st, ns_rendered = st, ns_faviconsReady = False,
       ns_networkReady = False, ns_jobs = [], ns_network = None, ns_favicons = None,
       ns_lastFailed = False, ns_dispatched = [], ns_written = [],
       ns_passedOn = (if tauri then sync_effects None st else [])\<rparr>"

text \<open>A render runs the effects again whose dependencies changed, in the order of the source.\<close>

definition render_settings :: "settings_state \<Rightarrow> settings_state" where
  "render_settings s =
     (let changed = (st_externalFaviconsEnabled (ns_settings s) \<noteq> st_externalFaviconsEnabled (ns_rendered s) \<or>
                     st_operationMode (ns_settings s) \<noteq> st_operationMode (ns_rendered s));
          s = s\<lparr>ns_passedOn := ns_passedOn s @
                (if ns_tauri s then sync_effects (Some (ns_rendered s)) (ns_settings s) else [])\<rparr>;
          s = (if changed then run_effect s else s)
      in s\<lparr>ns_rendered := ns_settings s\<rparr>)"

definition finish_job :: "gate_job \<Rightarrow> settings_state \<Rightarrow> settings_state" where
  "finish_job j s =
     (let s = s\<lparr>ns_jobs := tl (ns_jobs s), ns_lastFailed := False\<rparr>
      in if gj_cancelled j then s
         else s\<lparr>ns_networkReady := gj_network j, ns_faviconsReady := gj_favicons j,
                ns_dispatched := ns_dispatched s @ (if gj_favicons j then [FaviconsReset] else [])\<rparr>)"

definition fail_job :: "gate_job \<Rightarrow> settings_state \<Rightarrow> settings_state" where
  "fail_job j s =
     (let s = s\<lparr>ns_jobs := tl (ns_jobs s), ns_lastFailed := True\<rparr>
      in if gj_cancelled j then s else s\<lparr>ns_networkReady := False, ns_faviconsReady := False\<rparr>)"

text \<open>The job at the head advances: it starts, or the call it waits for settles.\<close>

definition advance_job :: "bool \<Rightarrow> settings_state \<Rightarrow> settings_state" where
  "advance_job ok s =
     (case ns_jobs s of
        [] \<Rightarrow> s
      | j # js \<Rightarrow>
          (case gj_stage j of
             Queued \<Rightarrow>
               if gj_cancelled j then s\<lparr>ns_jobs := js\<rparr>
               else if ns_tauri s
               then (if ok then s\<lparr>ns_jobs := j\<lparr>gj_stage := AwaitNetwork\<rparr> # js\<rparr> else fail_job j s)
               else finish_job j s
           | AwaitNetwork \<Rightarrow>
               if ok
               then let s = s\<lparr>ns_network := Some (gj_network j)\<rparr>;
                        s = (if gj_cancelled j then s else s\<lparr>ns_networkReady := gj_network j\<rparr>)
                    in s\<lparr>ns_jobs := j\<lparr>gj_stage := AwaitFavicons\<rparr> # js\<rparr>
               else fail_job j s
           | AwaitFavicons \<Rightarrow>
               if ok then finish_job j (s\<lparr>ns_favicons := Some (gj_favicons j)\<rparr>) else fail_job j s))"

datatype settings_event = UpdateSettings "setting list" | RenderSettings | AdvanceJob bool

fun settings_step :: "settings_event \<Rightarrow> settings_state \<Rightarrow> settings_state" where
  "settings_step (UpdateSettings p) s = updateSettings p s"
| "settings_step RenderSettings s = render_settings s"
| "settings_step (AdvanceJob ok) s = advance_job ok s"

section \<open>The gate follows the settings\<close>

text \<open>
  The last job of the queue carries what the rendered settings want and is not cancelled, all
  others are; only the first can be past its start. With no job left, the flags that are up and
  the native gates are those of the rendered settings, unless the last job failed, which took
  the flags down.
\<close>

definition wants :: "settings_state \<Rightarrow> gate_job \<Rightarrow> bool" where
  "wants s j \<longleftrightarrow> gj_network j = network_wanted (ns_rendered s) \<and> gj_favicons j = favicons_wanted (ns_rendered s) \<and>
     \<not> gj_cancelled j"

definition gate_idle_ok :: "settings_state \<Rightarrow> bool" where
  "gate_idle_ok s \<longleftrightarrow>
     (ns_networkReady s \<longrightarrow> network_wanted (ns_rendered s)) \<and>
     (ns_faviconsReady s \<longrightarrow> favicons_wanted (ns_rendered s)) \<and>
     (ns_tauri s \<and> \<not> ns_lastFailed s \<longrightarrow>
        ns_network s = Some (network_wanted (ns_rendered s)) \<and>
        ns_favicons s = Some (favicons_wanted (ns_rendered s))) \<and>
     (ns_lastFailed s \<longrightarrow> \<not> ns_networkReady s \<and> \<not> ns_faviconsReady s)"

definition gates_ok :: "settings_state \<Rightarrow> bool" where
  "gates_ok s \<longleftrightarrow>
     (case ns_jobs s of
        [] \<Rightarrow> gate_idle_ok s
      | js \<Rightarrow> wants s (last js) \<and> (\<forall>j \<in> set (butlast js). gj_cancelled j) \<and>
          (\<forall>j \<in> set (tl js). gj_stage j = Queued) \<and>
          (gj_stage (last js) = AwaitFavicons \<and> ns_tauri s \<longrightarrow>
             ns_network s = Some (network_wanted (ns_rendered s))) \<and>
          (\<not> ns_tauri s \<longrightarrow> (\<forall>j \<in> set js. gj_stage j = Queued)))"

lemma gates_ok_effect:
  assumes "gates_ok s"
  shows "gates_ok ((run_effect s)\<lparr>ns_rendered := ns_settings s\<rparr>)"
  using assms
  by (cases "ns_jobs s") (auto simp: gates_ok_def run_effect_def wants_def Let_def split: list.splits)

lemma gates_ok_mono:
  assumes "gates_ok s" and "network_wanted (ns_rendered s') = network_wanted (ns_rendered s)"
    and "favicons_wanted (ns_rendered s') = favicons_wanted (ns_rendered s)"
    and "ns_jobs s' = ns_jobs s" "ns_tauri s' = ns_tauri s" "ns_network s' = ns_network s"
      "ns_favicons s' = ns_favicons s" "ns_lastFailed s' = ns_lastFailed s"
      "ns_networkReady s' \<longrightarrow> ns_networkReady s" "ns_faviconsReady s' \<longrightarrow> ns_faviconsReady s"
  shows "gates_ok s'"
proof -
  have "wants s' = wants s" using assms(2,3) by (simp add: wants_def fun_eq_iff)
  with assms show ?thesis
    unfolding gates_ok_def gate_idle_ok_def by (cases "ns_jobs s") (simp_all only: list.case, blast+)
qed

lemma gates_ok_render:
  assumes "gates_ok s"
  shows "gates_ok (render_settings s)"
proof (cases "st_externalFaviconsEnabled (ns_settings s) \<noteq> st_externalFaviconsEnabled (ns_rendered s) \<or>
    st_operationMode (ns_settings s) \<noteq> st_operationMode (ns_rendered s)")
  case True
  let ?s = "s\<lparr>ns_passedOn := ns_passedOn s @
      (if ns_tauri s then sync_effects (Some (ns_rendered s)) (ns_settings s) else [])\<rparr>"
  have "render_settings s = (run_effect ?s)\<lparr>ns_rendered := ns_settings s\<rparr>"
    using True by (simp add: render_settings_def run_effect_def Let_def)
  moreover have "gates_ok ?s" by (rule gates_ok_mono [OF assms]) simp_all
  ultimately show ?thesis using gates_ok_effect [of ?s] by simp
next
  case False
  then have "network_wanted (ns_settings s) = network_wanted (ns_rendered s)"
    and "favicons_wanted (ns_settings s) = favicons_wanted (ns_rendered s)"
    by (simp_all add: network_wanted_def favicons_wanted_def)
  moreover have "render_settings s = s\<lparr>ns_passedOn := ns_passedOn s @
      (if ns_tauri s then sync_effects (Some (ns_rendered s)) (ns_settings s) else []), ns_rendered := ns_settings s\<rparr>"
    using False by (simp add: render_settings_def)
  ultimately show ?thesis by (intro gates_ok_mono [OF assms]) simp_all
qed

lemma gates_ok_update: "gates_ok s \<Longrightarrow> gates_ok (updateSettings p s)"
  by (erule gates_ok_mono) (simp_all add: updateSettings_def Let_def)

lemma gates_ok_tail:
  assumes "gates_ok s" and "ns_jobs s = j # js" and "js \<noteq> []" and "ns_rendered s' = ns_rendered s"
    and "ns_tauri s' = ns_tauri s" and "ns_jobs s' = js"
  shows "gates_ok s'"
  using assms by (cases js) (auto simp: gates_ok_def wants_def split: list.splits if_splits)

lemma gates_ok_one:
  assumes "gates_ok s" and "ns_jobs s = [j]"
  shows "wants s j" "gj_stage j = AwaitFavicons \<Longrightarrow> ns_tauri s \<Longrightarrow> ns_network s = Some (network_wanted (ns_rendered s))"
    "\<not> ns_tauri s \<Longrightarrow> gj_stage j = Queued"
  using assms by (simp_all add: gates_ok_def)

lemma gates_ok_fail:
  assumes "gates_ok s" and "ns_jobs s = j # js"
  shows "gates_ok (fail_job j s)"
proof (cases "js = []")
  case False
  show ?thesis by (rule gates_ok_tail [OF assms False]) (simp_all add: fail_job_def assms(2) Let_def)
next
  case True
  with gates_ok_one [OF assms(1)] assms show ?thesis
    by (simp add: fail_job_def gates_ok_def gate_idle_ok_def wants_def Let_def)
qed

lemma gates_ok_finish:
  assumes "gates_ok s" and "ns_jobs s = j # js"
    and "ns_tauri s \<longrightarrow> gj_stage j = AwaitFavicons"
  shows "gates_ok (finish_job j (s\<lparr>ns_favicons := (if ns_tauri s then Some (gj_favicons j) else ns_favicons s)\<rparr>))"
proof (cases "js = []")
  case False
  show ?thesis by (rule gates_ok_tail [OF assms(1,2) False]) (simp_all add: finish_job_def assms(2) Let_def)
next
  case True
  with gates_ok_one [OF assms(1)] assms show ?thesis
    by (simp add: finish_job_def gates_ok_def gate_idle_ok_def wants_def Let_def)
qed

lemma gates_ok_head:
  assumes "gates_ok s" and "ns_jobs s = j # js" and "ns_jobs s' = j' # js" and "ns_tauri s'" "ns_tauri s"
    and "ns_rendered s' = ns_rendered s"
    and "gj_network j' = gj_network j" "gj_favicons j' = gj_favicons j" "gj_cancelled j' = gj_cancelled j"
    and "gj_stage j' = AwaitFavicons \<Longrightarrow> ns_network s' = Some (gj_network j)"
  shows "gates_ok s'"
  using assms by (cases js) (auto simp: gates_ok_def wants_def split: list.splits if_splits)

lemma gates_ok_advance:
  assumes ok: "gates_ok s"
  shows "gates_ok (advance_job b s)"
proof (cases "ns_jobs s")
  case Nil
  with ok show ?thesis by (simp add: advance_job_def)
next
  case (Cons j js)
  note fail = gates_ok_fail [OF ok Cons] and fin = gates_ok_finish [OF ok Cons]
  show ?thesis
  proof (cases "gj_stage j")
    case Queued
    show ?thesis
    proof (cases "gj_cancelled j")
      case True
      have "js \<noteq> []" using gates_ok_one(1) [OF ok] Cons True by (auto simp: wants_def)
      from gates_ok_tail [OF ok Cons this, of "s\<lparr>ns_jobs := js\<rparr>"] show ?thesis
        using Cons Queued True by (simp add: advance_job_def)
    next
      case False
      show ?thesis
      proof (cases "ns_tauri s")
        case True
        have "gates_ok (s\<lparr>ns_jobs := j\<lparr>gj_stage := AwaitNetwork\<rparr> # js\<rparr>)"
          by (rule gates_ok_head [OF ok Cons, where j' = "j\<lparr>gj_stage := AwaitNetwork\<rparr>"]) (simp_all add: True)
        with fail True False Queued Cons show ?thesis by (simp add: advance_job_def)
      next
        case ntauri: False
        have "gates_ok (finish_job j s)" using fin ntauri by simp
        with ntauri False Queued Cons show ?thesis by (simp add: advance_job_def)
      qed
    qed
  next
    case AwaitNetwork
    then have t: "ns_tauri s" using ok Cons by (auto simp: gates_ok_def)
    let ?s = "s\<lparr>ns_network := Some (gj_network j)\<rparr>"
    have "gates_ok ((if gj_cancelled j then ?s else ?s\<lparr>ns_networkReady := gj_network j\<rparr>)
        \<lparr>ns_jobs := j\<lparr>gj_stage := AwaitFavicons\<rparr> # js\<rparr>)"
      by (rule gates_ok_head [OF ok Cons, where j' = "j\<lparr>gj_stage := AwaitFavicons\<rparr>"]) (simp_all add: t)
    with fail AwaitNetwork Cons show ?thesis by (simp add: advance_job_def Let_def)
  next
    case AwaitFavicons
    then have t: "ns_tauri s" using ok Cons by (auto simp: gates_ok_def)
    have "gates_ok (finish_job j (s\<lparr>ns_favicons := Some (gj_favicons j)\<rparr>))"
      using fin t AwaitFavicons by simp
    with fail AwaitFavicons Cons show ?thesis by (simp add: advance_job_def)
  qed
qed

lemma gates_ok_step [inv_steps]: "gates_ok s \<Longrightarrow> gates_ok (settings_step e s)"
  by (cases e) (simp_all add: gates_ok_update gates_ok_render gates_ok_advance)

interpretation gates: invariant_machine settings_step gates_ok
  by unfold_locales (rule gates_ok_step)

lemma gates_ok_mount: "gates_ok (mount_settings tauri st)"
  by (simp add: mount_settings_def run_effect_def gates_ok_def wants_def Let_def)

text \<open>
  Claim C15. The network gates follow the rendered settings: after any sequence of settings changes,
  renders and native answers, once the serialised jobs have run, the interface treats the network
  and external icons as available only if the rendered settings allow them (in airgap mode neither).
  In the native application, when no call of the last job failed, the native gates are exactly what
  the rendered settings want; when one failed, the interface treats both as unavailable, and the
  native gates are as the last acknowledged calls left them (see \<open>failed_close_stays_open\<close>).
\<close>

theorem gates_follow_settings:
  assumes "s = run settings_step es (mount_settings tauri st)" and "ns_jobs s = []"
  shows "(ns_networkReady s \<longrightarrow> network_wanted (ns_rendered s)) \<and>
    (ns_faviconsReady s \<longrightarrow> favicons_wanted (ns_rendered s)) \<and>
    (ns_tauri s \<and> \<not> ns_lastFailed s \<longrightarrow>
       ns_network s = Some (network_wanted (ns_rendered s)) \<and>
       ns_favicons s = Some (favicons_wanted (ns_rendered s))) \<and>
    (ns_lastFailed s \<longrightarrow> \<not> ns_networkReady s \<and> \<not> ns_faviconsReady s) \<and>
    (st_operationMode (ns_rendered s) = Some Airgap \<longrightarrow> \<not> ns_networkReady s \<and> \<not> ns_faviconsReady s)"
proof -
  have "gates_ok s" unfolding assms(1) by (rule gates.run_inv) (rule gates_ok_mount)
  with assms(2) show ?thesis
    by (simp add: gates_ok_def gate_idle_ok_def) (auto simp: network_wanted_def favicons_wanted_def)
qed

theorem gates_follow_settings_witness:
  "ns_network (run settings_step
     [AdvanceJob True, UpdateSettings [SetOperationMode (Some Airgap)], RenderSettings,
      AdvanceJob True, AdvanceJob True, AdvanceJob True, AdvanceJob True, AdvanceJob True]
     (mount_settings True DEFAULT_SETTINGS)) = Some False"
proof -
  let ?s = "run settings_step
     [AdvanceJob True, UpdateSettings [SetOperationMode (Some Airgap)], RenderSettings,
      AdvanceJob True, AdvanceJob True, AdvanceJob True, AdvanceJob True, AdvanceJob True]
     (mount_settings True DEFAULT_SETTINGS)"
  have ev: "ns_jobs ?s = []" "ns_tauri ?s" "\<not> ns_lastFailed ?s" "st_operationMode (ns_rendered ?s) = Some Airgap"
    by (simp_all add: mount_settings_def run_effect_def advance_job_def finish_job_def fail_job_def updateSettings_def
        render_settings_def merge_settings_def network_wanted_def favicons_wanted_def DEFAULT_SETTINGS_def Let_def)
  from gates_follow_settings [OF refl ev(1)] ev(2-4) show ?thesis
    by (simp only: network_wanted_def) simp
qed

text \<open>
  A close that fails is only logged and never tried again: after a switch to airgap mode whose native
  call was refused, nothing is queued and the native network gate is still open.
\<close>

lemma failed_close_stays_open:
  "(let s = run settings_step
     [AdvanceJob True, AdvanceJob True, AdvanceJob True, UpdateSettings [SetOperationMode (Some Airgap)], RenderSettings,
      AdvanceJob True, AdvanceJob False]
     (mount_settings True DEFAULT_SETTINGS)
    in st_operationMode (ns_rendered s) = Some Airgap \<and> ns_jobs s = [] \<and> ns_network s = Some True)"
  by (simp add: mount_settings_def run_effect_def advance_job_def finish_job_def fail_job_def updateSettings_def
      render_settings_def merge_settings_def network_wanted_def favicons_wanted_def DEFAULT_SETTINGS_def Let_def)

text \<open>
  Closing the system takes effect at once: the update that switches to airgap mode takes
  both readiness flags down in the same step, before any native call; the next render clears the
  icon cache, cancels every job still queued or running and queues one that closes both gates.
\<close>

theorem airgap_is_immediate:
  assumes "st_operationMode (ns_rendered s) \<noteq> Some Airgap"
  shows "(let s' = updateSettings [SetOperationMode (Some Airgap)] s
          in \<not> ns_networkReady s' \<and> \<not> ns_faviconsReady s' \<and> st_operationMode (ns_settings s') = Some Airgap \<and>
             (\<exists>js j. ns_jobs (render_settings s') = js @ [j] \<and> (\<forall>j' \<in> set js. gj_cancelled j') \<and>
                gj_stage j = Queued \<and> \<not> gj_network j \<and> \<not> gj_favicons j) \<and>
             ns_dispatched (render_settings s') = ns_dispatched s @ [FaviconsCleared])"
  using assms
  by (auto simp: updateSettings_def render_settings_def run_effect_def merge_settings_def network_wanted_def
      favicons_wanted_def Let_def)

theorem airgap_is_immediate_witness:
  "\<not> ns_networkReady (updateSettings [SetOperationMode (Some Airgap)] (mount_settings True DEFAULT_SETTINGS))"
proof -
  have "st_operationMode (ns_rendered (mount_settings True DEFAULT_SETTINGS)) \<noteq> Some Airgap"
    by (simp add: mount_settings_def run_effect_def DEFAULT_SETTINGS_def Let_def)
  from airgap_is_immediate [OF this] show ?thesis unfolding Let_def by blast
qed

text \<open>
  An update that names the icon setting or the mode with its current value takes the icon flag
  down although no effect will run to raise it again.
\<close>

lemma favicons_flag_lost:
  assumes "ns_jobs s = []" and "ns_settings s = ns_rendered s"
    and "st_externalFaviconsEnabled (ns_settings s) = Some True"
  shows "(let s' = render_settings (updateSettings [SetExternalFaviconsEnabled (Some True)] s)
          in \<not> ns_faviconsReady s' \<and> ns_jobs s' = [] \<and> favicons_wanted (ns_rendered s') = favicons_wanted (ns_rendered s))"
  using assms
  by (simp add: updateSettings_def render_settings_def merge_settings_def network_wanted_def favicons_wanted_def Let_def)

section \<open>Settings written and passed on\<close>

text \<open>
  The settings written last are the current ones, and the last value passed on to the native side
  under each of the four names is that of the rendered settings.
\<close>

definition passed_on :: "(bool \<Rightarrow> native_setting) \<Rightarrow> (app_settings \<Rightarrow> native_setting) \<Rightarrow> settings_state \<Rightarrow> bool" where
  "passed_on c field s \<longleftrightarrow>
     (case filter (\<lambda>x. x = c True \<or> x = c False) (ns_passedOn s) of
        [] \<Rightarrow> False | xs \<Rightarrow> last xs = field (ns_rendered s))"

definition written_ok :: "settings_state \<Rightarrow> bool" where
  "written_ok s \<longleftrightarrow> (ns_written s \<noteq> [] \<longrightarrow> last (ns_written s) = ns_settings s) \<and>
     (ns_tauri s \<longrightarrow> passed_on MinimizeToTray native_tray s \<and> passed_on WindowCaptureProtection native_capture s \<and>
        passed_on LockOnFocusLoss native_focus s \<and> passed_on LockOnSystemLock native_system s)"

lemmas native_defs = native_tray_def native_capture_def native_focus_def native_system_def

lemma passed_on_more:
  "passed_on c field s \<longleftrightarrow> filter (\<lambda>x. x = c True \<or> x = c False) (ns_passedOn s) \<noteq> [] \<and>
     last (filter (\<lambda>x. x = c True \<or> x = c False) (ns_passedOn s)) = field (ns_rendered s)"
  by (simp add: passed_on_def split: list.split)

lemma advance_frame [simp]:
  "ns_written (advance_job b s) = ns_written s" "ns_settings (advance_job b s) = ns_settings s"
  "ns_rendered (advance_job b s) = ns_rendered s" "ns_tauri (advance_job b s) = ns_tauri s"
  "ns_passedOn (advance_job b s) = ns_passedOn s"
  by (simp_all add: advance_job_def finish_job_def fail_job_def Let_def split: list.split job_stage.split)

lemma written_ok_advance: "written_ok s \<Longrightarrow> written_ok (advance_job b s)"
  by (simp add: written_ok_def passed_on_more)

lemma written_ok_update: "written_ok s \<Longrightarrow> written_ok (updateSettings p s)"
  by (simp add: written_ok_def passed_on_more updateSettings_def Let_def)

lemma render_frame [simp]:
  "ns_written (render_settings s) = ns_written s" "ns_settings (render_settings s) = ns_settings s"
  "ns_rendered (render_settings s) = ns_settings s" "ns_tauri (render_settings s) = ns_tauri s"
  "ns_passedOn (render_settings s) =
     ns_passedOn s @ (if ns_tauri s then sync_effects (Some (ns_rendered s)) (ns_settings s) else [])"
  by (simp_all add: render_settings_def run_effect_def Let_def)

lemma filter_sync:
  "filter (\<lambda>x. x = MinimizeToTray True \<or> x = MinimizeToTray False) (sync_effects (Some a) b) =
     (if st_minimizeToTray a \<noteq> st_minimizeToTray b then [native_tray b] else [])"
  "filter (\<lambda>x. x = WindowCaptureProtection True \<or> x = WindowCaptureProtection False) (sync_effects (Some a) b) =
     (if st_windowCaptureProtection a \<noteq> st_windowCaptureProtection b then [native_capture b] else [])"
  "filter (\<lambda>x. x = LockOnFocusLoss True \<or> x = LockOnFocusLoss False) (sync_effects (Some a) b) =
     (if st_lockOnFocusLoss a \<noteq> st_lockOnFocusLoss b then [native_focus b] else [])"
  "filter (\<lambda>x. x = LockOnSystemLock True \<or> x = LockOnSystemLock False) (sync_effects (Some a) b) =
     (if st_lockOnSystemLock a \<noteq> st_lockOnSystemLock b then [native_system b] else [])"
  by (simp_all add: sync_effects_def native_defs Let_def)

lemma passed_on_render:
  assumes "passed_on c field s" "ns_tauri s"
    and "filter (\<lambda>x. x = c True \<or> x = c False) (sync_effects (Some (ns_rendered s)) (ns_settings s)) =
      (if changed then [field (ns_settings s)] else [])"
    and "\<not> changed \<Longrightarrow> field (ns_rendered s) = field (ns_settings s)"
  shows "passed_on c field (render_settings s)"
  using assms by (cases changed) (simp_all add: passed_on_more)

lemma written_ok_render: "written_ok s \<Longrightarrow> written_ok (render_settings s)"
  unfolding written_ok_def
  by (auto intro: passed_on_render [where changed = "st_minimizeToTray (ns_rendered s) \<noteq> st_minimizeToTray (ns_settings s)"]
        passed_on_render [where changed = "st_windowCaptureProtection (ns_rendered s) \<noteq> st_windowCaptureProtection (ns_settings s)"]
        passed_on_render [where changed = "st_lockOnFocusLoss (ns_rendered s) \<noteq> st_lockOnFocusLoss (ns_settings s)"]
        passed_on_render [where changed = "st_lockOnSystemLock (ns_rendered s) \<noteq> st_lockOnSystemLock (ns_settings s)"]
      simp: filter_sync native_defs)

lemma written_ok_step [inv_steps]: "written_ok s \<Longrightarrow> written_ok (settings_step e s)"
  by (cases e) (simp_all add: written_ok_update written_ok_render written_ok_advance)

interpretation written: invariant_machine settings_step written_ok
  by unfold_locales (rule written_ok_step)

theorem settings_written_and_passed_on: "written_ok (run settings_step es (mount_settings tauri st))"
  by (rule written.run_inv)
     (simp add: mount_settings_def run_effect_def written_ok_def passed_on_more sync_effects_def native_defs Let_def)

end
