(* ===== verification/Entries_State.thy ===== *)
theory Entries_State
  imports Entry_Model Session
begin

text \<open>
  One mounted \<open>EntriesSession\<close> of \<open>EntriesContext.provider.tsx\<close>: its React state, its refs
  and request counters, the continuations that wait for the back end, and the handlers up to
  their first \<open>await\<close>. (\<open>EntriesProvider\<close> mounts a fresh instance whenever the lock state, the
  vault or the session generation it renders changes.) Theory \<open>Entries_Session\<close> resumes the
  continuations.

  React state is kept with its queued updates applied (\<open>es_entries\<close> and so on), as a functional
  update \<open>set(previous => ..)\<close> sees it; the values of the last render, which handlers and effects
  capture, are the \<open>es_view\<close> fields, and the refs that mirror them are updated with them by the
  event \<open>Commit\<close>. A handler keeps the settings of the render that made it until its last \<open>await\<close>:
  \<open>es_captured\<close> holds, for every waiting continuation, the settings its handler captured, and
  \<open>es_closure\<close> those of the code that runs now (the current ones unless a continuation runs). A toast carries a translation key with its parameters (\<open>Tr\<close>) or the error as text.
\<close>

section \<open>State\<close>

datatype message = Plain string | Tr string "(string \<times> string) list"

text \<open>The back end's calls the handlers make.\<close>

datatype call =
    ListEntries
  | GetEntry string
  | GetTags
  | GetVaultInfo
  | LockVaultCall
  | SaveVaultCall
  | UpdateEntryCall string update_entry
  | UpdateBreachCall string breach_status
  | AddEntryCall new_entry
  | DeleteEntryCall string
  | DeleteAttachmentCall string string
  | ToggleFavoriteCall string
  | TogglePinCall string
  | BulkUpdateCall "string list" bulk_entry_update
  | BulkDeleteCall "string list"
  | AddTagCall string string string "string option"
  | UpdateTagCall string string string string "string option"
  | DeleteTagCall string
  | ReorderTagsCall "string list"
  | WebdavSyncCall string string "string option"

text \<open>What follows a refresh: nothing, a part of the initial load, or the end of a bulk update.\<close>

datatype after_refresh = Nothing | LoadPart nat | BulkRest nat nat

text \<open>
  The continuations, with the variables they captured: the session generation first, then the
  value of the request counter where the handler has one.
\<close>

datatype continuation =
    PList nat nat after_refresh
  | PDetail nat nat nat string after_refresh
  | PTags nat nat after_refresh
  | PLoadDelay
  | PSelect nat nat string bool nat
  | PSelectDelay nat nat password_entry
  | PSelectMock nat nat string bool "password_entry list"
  | PVaultInfo nat nat
  | PAutoSync
  | PUpdate nat password_entry password_entry
  | PUpdateDetail nat string
  | PBreachStatus
  | PSave nat
  | PAdd nat password_entry string
  | PDelete nat string
  | PDeleteAttachment nat string string
  | PFavorite nat string
  | PPin nat string
  | PBulkUpdate nat nat
  | PBulkDelete nat "string list"
  | PAddTag nat tag
  | PUpdateTag nat string string tag
  | PRemoveTag nat string string
  | PReorder nat "tag list"

record entries_state =
  es_auth :: auth_state
  es_backend :: bool
  es_vault :: "vault option"
  es_locked :: bool
  es_settings :: app_settings
  es_closure :: app_settings
  es_now :: nat
  es_entries :: "password_entry list"
  es_rawTags :: "tag list"
  es_selected :: "password_entry option"
  es_selectedIds :: "string list"
  es_loadingEntries :: bool
  es_loadingDetail :: bool
  es_viewEntries :: "password_entry list"
  es_viewTags :: "tag list"
  es_viewIds :: "string list"
  es_selectedRef :: "password_entry option"
  es_rawTagsRef :: "tag list"
  es_selectionSeq :: nat
  es_refreshSeq :: nat
  es_tagRefreshSeq :: nat
  es_subscription :: nat
  es_loads :: "(nat \<times> nat) list"
  es_timer :: "(nat \<times> app_settings) option"
  es_pending :: "continuation list"
  es_captured :: "app_settings list"
  es_calls :: "call list"
  es_toasts :: "(message \<times> toast_type) list"
  es_answers :: "bool list"

abbreviation es_session :: "entries_state \<Rightarrow> nat" where
  "es_session s \<equiv> getSessionGeneration (es_auth s)"

abbreviation es_current :: "entries_state \<Rightarrow> nat \<Rightarrow> bool" where
  "es_current s g \<equiv> isSessionCurrent (es_auth s) g"

section \<open>Elementary effects\<close>

definition await_call :: "call \<Rightarrow> continuation \<Rightarrow> entries_state \<Rightarrow> entries_state" where
  "await_call c k s = s\<lparr>es_calls := es_calls s @ [c], es_pending := es_pending s @ [k],
     es_captured := es_captured s @ [es_closure s]\<rparr>"

definition wait_timer :: "continuation \<Rightarrow> entries_state \<Rightarrow> entries_state" where
  "wait_timer k s = s\<lparr>es_pending := es_pending s @ [k], es_captured := es_captured s @ [es_closure s]\<rparr>"

definition addToast :: "message \<Rightarrow> toast_type \<Rightarrow> entries_state \<Rightarrow> entries_state" where
  "addToast m t s = s\<lparr>es_toasts := es_toasts s @ [(m, t)]\<rparr>"

definition answer :: "bool \<Rightarrow> entries_state \<Rightarrow> entries_state" where
  "answer b s = s\<lparr>es_answers := es_answers s @ [b]\<rparr>"

definition map_entries :: "(password_entry \<Rightarrow> password_entry) \<Rightarrow> entries_state \<Rightarrow> entries_state" where
  "map_entries f s = s\<lparr>es_entries := map f (es_entries s)\<rparr>"

definition map_selected :: "(password_entry \<Rightarrow> password_entry) \<Rightarrow> entries_state \<Rightarrow> entries_state" where
  "map_selected f s = s\<lparr>es_selected := map_option f (es_selected s)\<rparr>"

definition only_id :: "string \<Rightarrow> (password_entry \<Rightarrow> password_entry) \<Rightarrow> password_entry \<Rightarrow> password_entry" where
  "only_id i f e = (if pe_id e = i then f e else e)"

definition setSelectedEntry :: "password_entry option \<Rightarrow> entries_state \<Rightarrow> entries_state" where
  "setSelectedEntry e s = s\<lparr>es_selected := e\<rparr>"

definition err_toast :: "nat \<Rightarrow> message \<Rightarrow> entries_state \<Rightarrow> entries_state" where
  "err_toast session m s = (if es_current s session then addToast m ToastError s else s)"

section \<open>Loading\<close>

definition refreshEntries :: "after_refresh \<Rightarrow> entries_state \<Rightarrow> entries_state \<times> bool" where
  "refreshEntries k s =
     (let session = es_session s
      in if \<not> es_backend s \<or> es_vault s = None \<or> \<not> es_current s session then (s, True)
         else let request = Suc (es_refreshSeq s)
              in (await_call ListEntries (PList session request k) (s\<lparr>es_refreshSeq := request\<rparr>), False))"

definition refreshTags :: "after_refresh \<Rightarrow> entries_state \<Rightarrow> entries_state \<times> bool" where
  "refreshTags k s =
     (let session = es_session s
      in if \<not> es_backend s \<or> es_vault s = None \<or> \<not> es_current s session then (s, True)
         else let request = Suc (es_tagRefreshSeq s)
              in (await_call GetTags (PTags session request k) (s\<lparr>es_tagRefreshSeq := request\<rparr>), False))"

definition refreshBoth :: "entries_state \<Rightarrow> entries_state" where
  "refreshBoth s = fst (refreshTags Nothing (fst (refreshEntries Nothing s)))"

text \<open>
  The end of a part of the initial load: the last part ends it, after the rest of the 200 ms
  skeleton delay unless that is disabled.
\<close>

definition load_part_done :: "nat \<Rightarrow> entries_state \<Rightarrow> entries_state" where
  "load_part_done j s =
     (if j < length (es_loads s)
      then let (left, start) = es_loads s ! j;
               s = s\<lparr>es_loads := (es_loads s)[j := (left - 1, start)]\<rparr>
           in if left \<noteq> 1 then s
              else if \<not> st_disableSkeletonDelays (es_closure s) \<and> es_now s - start < 200
              then wait_timer PLoadDelay s
              else s\<lparr>es_loadingEntries := False\<rparr>
      else s)"

definition loadAll :: "entries_state \<Rightarrow> entries_state" where
  "loadAll s =
     (if es_backend s \<and> es_vault s \<noteq> None \<and> \<not> es_locked s
      then let j = length (es_loads s);
               s = s\<lparr>es_loads := es_loads s @ [(2, es_now s)]\<rparr>;
               (s, done1) = refreshEntries (LoadPart j) s;
               (s, done2) = refreshTags (LoadPart j) s;
               s = (if done1 then load_part_done j s else s)
           in if done2 then load_part_done j s else s
      else s)"

section \<open>Selecting an entry\<close>

text \<open>The end of the selection without a back end, after the skeleton delay when there is one.\<close>

definition select_mock_rest ::
  "nat \<Rightarrow> nat \<Rightarrow> string \<Rightarrow> bool \<Rightarrow> password_entry list \<Rightarrow> entries_state \<Rightarrow> entries_state" where
  "select_mock_rest session seq i isSameEntry entries s =
     (if seq \<noteq> es_selectionSeq s \<or> \<not> es_current s session then s
      else let s = setSelectedEntry (List.find (\<lambda>e. pe_id e = i) entries) s
           in if \<not> isSameEntry then s\<lparr>es_loadingDetail := False\<rparr> else s)"

definition selectEntryById :: "string option \<Rightarrow> entries_state \<Rightarrow> entries_state" where
  "selectEntryById i s =
     (let seq = Suc (es_selectionSeq s);
          s = s\<lparr>es_selectionSeq := seq\<rparr>;
          session = es_session s
      in if \<not> truthy_str i \<or> \<not> es_current s session then setSelectedEntry None s
         else let i = the i;
                  isSameEntry = (map_option pe_id (es_selectedRef s) = Some i);
                  s = (if isSameEntry then s else s\<lparr>es_loadingDetail := True\<rparr>)
              in if es_backend s
                 then await_call (GetEntry i) (PSelect session seq i isSameEntry (es_now s)) s
                 else if \<not> isSameEntry \<and> \<not> st_disableSkeletonDelays (es_settings s)
                 then wait_timer (PSelectMock session seq i isSameEntry (es_viewEntries s)) s
                 else select_mock_rest session seq i isSameEntry (es_viewEntries s) s)"

section \<open>Auto-sync\<close>

text \<open>
  Everything \<open>triggerAutoSync\<close> reads of the settings, and what its timer reads when it fires, are
  the values its closure captured.
\<close>

definition wants_autosync :: "app_settings \<Rightarrow> bool" where
  "wants_autosync st \<longleftrightarrow> st_operationMode st \<noteq> Some Airgap \<and> truthy (st_webdavEnabled st) \<and>
     truthy (st_webdavAutoSync st) \<and> truthy_str (st_webdavUrl st) \<and> truthy_str (st_webdavUser st)"

definition triggerAutoSync :: "entries_state \<Rightarrow> entries_state" where
  "triggerAutoSync s =
     (if \<not> wants_autosync (es_closure s) \<or> \<not> es_backend s then s
      else s\<lparr>es_timer := Some (es_session s, es_closure s)\<rparr>)"

definition fireAutoSync :: "entries_state \<Rightarrow> entries_state" where
  "fireAutoSync s =
     (case es_timer s of
        None \<Rightarrow> s
      | Some (session, st) \<Rightarrow>
          let s = s\<lparr>es_timer := None\<rparr>
          in if \<not> es_current s session then s
             else await_call (WebdavSyncCall (the (st_webdavUrl st)) (the (st_webdavUser st))
                    (getTransientWebdavPassword (es_auth s))) PAutoSync s)"

section \<open>Entry operations\<close>

text \<open>\<open>uuid\<close> and \<open>now\<close> are the results of \<open>crypto.randomUUID()\<close> and \<open>new Date().toISOString()\<close>.\<close>

definition apply_update :: "string \<Rightarrow> password_entry \<Rightarrow> entries_state \<Rightarrow> entries_state" where
  "apply_update i updated s =
     map_selected (only_id i (\<lambda>_. updated)) (map_entries (only_id i (\<lambda>_. passwordEntryToPreview updated)) s)"

definition updateEntry :: "string \<Rightarrow> string \<Rightarrow> password_entry \<Rightarrow> entries_state \<Rightarrow> entries_state" where
  "updateEntry uuid now e s =
     (let session = es_session s
      in if \<not> es_current s session then answer False s
         else if es_backend s
         then await_call (UpdateEntryCall (pe_id e) (update_payload uuid e)) (PUpdate session e (updated_entry now e)) s
         else answer True (apply_update (pe_id e) (updated_entry now e) s))"

definition set_breach :: "string \<Rightarrow> breach_status \<Rightarrow> entries_state \<Rightarrow> entries_state" where
  "set_breach i b s =
     map_selected (only_id i (pe_breachStatus_update (\<lambda>_. Some b)))
       (map_entries (only_id i (pe_breachStatus_update (\<lambda>_. Some b))) s)"

definition updateBreachStatus :: "string \<Rightarrow> breach_status \<Rightarrow> entries_state \<Rightarrow> entries_state" where
  "updateBreachStatus i b s =
     (if \<not> es_current s (es_session s) then s
      else let s = set_breach i b s
           in if es_backend s then await_call (UpdateBreachCall i b) PBreachStatus s else s)"

definition saveVault :: "entries_state \<Rightarrow> entries_state" where
  "saveVault s =
     (let session = es_session s
      in if \<not> es_current s session then s
         else if es_backend s then await_call SaveVaultCall (PSave session) s else s)"

definition created_entry :: "string \<Rightarrow> string \<Rightarrow> password_entry \<Rightarrow> password_entry" where
  "created_entry newId now e =
     e\<lparr>pe_id := newId, pe_createdAt := str_or (pe_createdAt e) now, pe_updatedAt := str_or (pe_updatedAt e) now,
       pe_attachmentCount := Some (or_else (map_option length (pe_newAttachments e)) 0 +
                                   or_else (map_option length (pe_attachments e)) 0)\<rparr>"

definition local_entry :: "string \<Rightarrow> password_entry \<Rightarrow> password_entry" where
  "local_entry now e =
     e\<lparr>pe_createdAt := str_or (pe_createdAt e) now, pe_updatedAt := str_or (pe_updatedAt e) now\<rparr>"

definition addEntry :: "string \<Rightarrow> string \<Rightarrow> password_entry \<Rightarrow> entries_state \<Rightarrow> entries_state" where
  "addEntry uuid now e s =
     (let session = es_session s
      in if \<not> es_current s session then answer False s
         else if es_backend s
         then await_call (AddEntryCall (new_entry_payload uuid e)) (PAdd session e now) s
         else let localEntry = local_entry now e
              in answer True (s\<lparr>es_entries := passwordEntryToPreview localEntry # es_entries s,
                                es_selected := Some localEntry\<rparr>))"

definition delete_local :: "string list \<Rightarrow> entries_state \<Rightarrow> entries_state" where
  "delete_local ids s =
     s\<lparr>es_entries := filter (\<lambda>e. pe_id e \<notin> set ids) (es_entries s),
       es_selected := (case es_selected s of Some e \<Rightarrow> if pe_id e \<in> set ids then None else Some e | None \<Rightarrow> None),
       es_selectedIds := filter (\<lambda>i. i \<notin> set ids) (es_selectedIds s)\<rparr>"

definition finish_delete :: "string list \<Rightarrow> entries_state \<Rightarrow> entries_state" where
  "finish_delete ids s =
     answer True (triggerAutoSync (addToast (Tr ''toast.moved_to_trash'' []) ToastInfo (delete_local ids s)))"

definition deleteEntry :: "string \<Rightarrow> entries_state \<Rightarrow> entries_state" where
  "deleteEntry i s =
     (let session = es_session s
      in if \<not> es_current s session then answer False s
         else if es_backend s then await_call (DeleteEntryCall i) (PDelete session i) s
         else finish_delete [i] s)"

definition drop_attachment :: "string \<Rightarrow> password_entry \<Rightarrow> password_entry" where
  "drop_attachment a e =
     (let left = filter (\<lambda>x. at_id x \<noteq> a) (or_else (pe_attachments e) [])
      in e\<lparr>pe_attachments := Some left, pe_attachmentCount := Some (length left)\<rparr>)"

text \<open>\<open>Math.max(0, (count || 1) - 1)\<close>.\<close>

definition one_attachment_less :: "password_entry \<Rightarrow> password_entry" where
  "one_attachment_less e =
     (let n = or_else (pe_attachmentCount e) 0
      in e\<lparr>pe_attachmentCount := Some ((if n = 0 then 1 else n) - 1)\<rparr>)"

definition finish_deleteAttachment :: "string \<Rightarrow> string \<Rightarrow> entries_state \<Rightarrow> entries_state" where
  "finish_deleteAttachment i a s =
     triggerAutoSync (map_entries (only_id i one_attachment_less) (map_selected (only_id i (drop_attachment a)) s))"

definition deleteAttachment :: "string \<Rightarrow> string \<Rightarrow> entries_state \<Rightarrow> entries_state" where
  "deleteAttachment i a s =
     (let session = es_session s
      in if \<not> es_current s session then s
         else if es_backend s then await_call (DeleteAttachmentCall i a) (PDeleteAttachment session i a) s
         else finish_deleteAttachment i a s)"

text \<open>\<open>confirmed ?? !entry.favorite\<close>: the back end's answer, or the flipped value without one.\<close>

definition flip_favorite :: "bool option \<Rightarrow> password_entry \<Rightarrow> password_entry" where
  "flip_favorite c e = e\<lparr>pe_favorite := or_else c (\<not> pe_favorite e)\<rparr>"

definition flip_pin :: "bool option \<Rightarrow> password_entry \<Rightarrow> password_entry" where
  "flip_pin c e = e\<lparr>pe_pinned := or_else c (\<not> pe_pinned e)\<rparr>"

definition finish_favorite :: "string \<Rightarrow> bool option \<Rightarrow> entries_state \<Rightarrow> entries_state" where
  "finish_favorite i c s =
     triggerAutoSync (map_selected (only_id i (flip_favorite c)) (map_entries (only_id i (flip_favorite c)) s))"

definition finish_pin :: "string \<Rightarrow> bool option \<Rightarrow> entries_state \<Rightarrow> entries_state" where
  "finish_pin i c s =
     triggerAutoSync (map_selected (only_id i (flip_pin c)) (map_entries (only_id i (flip_pin c)) s))"

definition toggleFavorite :: "string \<Rightarrow> entries_state \<Rightarrow> entries_state" where
  "toggleFavorite i s =
     (let session = es_session s
      in if \<not> es_current s session then s
         else if es_backend s then await_call (ToggleFavoriteCall i) (PFavorite session i) s
         else finish_favorite i None s)"

definition togglePin :: "string \<Rightarrow> entries_state \<Rightarrow> entries_state" where
  "togglePin i s =
     (let session = es_session s
      in if \<not> es_current s session then s
         else if es_backend s then await_call (TogglePinCall i) (PPin session i) s
         else finish_pin i None s)"

section \<open>Multi-selection and bulk operations\<close>

definition toggleEntrySelection ::
  "string \<Rightarrow> bool \<Rightarrow> bool \<Rightarrow> password_entry list option \<Rightarrow> entries_state \<Rightarrow> entries_state" where
  "toggleEntrySelection i isMulti isRange orderedList s =
     (let single = (if isMulti
                    then s\<lparr>es_selectedIds := (if i \<in> set (es_selectedIds s)
                             then filter (\<lambda>j. j \<noteq> i) (es_selectedIds s) else es_selectedIds s @ [i])\<rparr>
                    else s\<lparr>es_selectedIds := [i]\<rparr>);
          ids = es_viewIds s
      in if isRange \<and> ids \<noteq> []
         then let list = or_else orderedList (es_viewEntries s)
              in case (find_index (\<lambda>e. pe_id e = last ids) list, find_index (\<lambda>e. pe_id e = i) list) of
                   (Some lastIndex, Some currentIndex) \<Rightarrow>
                     let start = min lastIndex currentIndex;
                         finish = max lastIndex currentIndex;
                         rangeIds = map pe_id (take (Suc finish - start) (drop start list))
                     in s\<lparr>es_selectedIds := uniq (ids @ rangeIds)\<rparr>
                 | _ \<Rightarrow> single
         else single)"

definition clearSelection :: "entries_state \<Rightarrow> entries_state" where
  "clearSelection s = s\<lparr>es_selectedIds := []\<rparr>"

text \<open>The fields of \<open>Partial<PasswordEntry>\<close> that a bulk update carries: those of its call, the only ones \<open>BulkEditModal.tsx\<close> sets.\<close>

record entry_updates =
  eu_title :: "string option"
  eu_username :: "string option"
  eu_url :: "string option"
  eu_favorite :: "bool option"
  eu_pinned :: "bool option"
  eu_notes :: "string option"

datatype notes_mode = AppendNotes | OverwriteNotes

definition bulk_payload :: "entry_updates \<Rightarrow> string list \<Rightarrow> string list \<Rightarrow> notes_mode \<Rightarrow> bulk_entry_update" where
  "bulk_payload u tagsToAdd tagsToRemove mode =
     \<lparr>bu_title = eu_title u, bu_username = eu_username u, bu_url = eu_url u,
      bu_favorite = eu_favorite u, bu_pinned = eu_pinned u, bu_notes = eu_notes u,
      bu_append_notes = (mode = AppendNotes), bu_tags_to_add = tagsToAdd, bu_tags_to_remove = tagsToRemove\<rparr>"

definition bulk_apply ::
  "string list \<Rightarrow> entry_updates \<Rightarrow> string list \<Rightarrow> string list \<Rightarrow> notes_mode \<Rightarrow> password_entry \<Rightarrow> password_entry" where
  "bulk_apply ids u tagsToAdd tagsToRemove mode e =
     (if pe_id e \<in> set ids
      then e\<lparr>pe_title := or_else (eu_title u) (pe_title e),
             pe_username := or_else (eu_username u) (pe_username e),
             pe_url := or_else (eu_url u) (pe_url e),
             pe_favorite := or_else (eu_favorite u) (pe_favorite e),
             pe_pinned := or_else (eu_pinned u) (pe_pinned e),
             pe_tags := filter (\<lambda>t. t \<notin> set tagsToRemove) (uniq (pe_tags e @ tagsToAdd)),
             pe_notes := (case eu_notes u of
                            None \<Rightarrow> pe_notes e
                          | Some n \<Rightarrow> if mode = AppendNotes \<and> pe_notes e \<noteq> [] then pe_notes e @ nl @ n else n)\<rparr>
      else e)"

definition finish_bulk_update :: "nat \<Rightarrow> entries_state \<Rightarrow> entries_state" where
  "finish_bulk_update n s =
     answer True (triggerAutoSync (addToast (Tr ''toast.bulk_updated'' [(''count'', show_nat n)]) ToastInfo s))"

definition bulkUpdateEntries ::
  "string list \<Rightarrow> entry_updates \<Rightarrow> string list \<Rightarrow> string list \<Rightarrow> notes_mode \<Rightarrow> entries_state \<Rightarrow> entries_state" where
  "bulkUpdateEntries ids u tagsToAdd tagsToRemove mode s =
     (let session = es_session s
      in if \<not> es_current s session then answer False s
         else if es_backend s
         then await_call (BulkUpdateCall ids (bulk_payload u tagsToAdd tagsToRemove mode))
                (PBulkUpdate session (length ids)) s
         else let f = bulk_apply ids u tagsToAdd tagsToRemove mode
              in finish_bulk_update (length ids)
                   (map_selected f (map_entries (\<lambda>e. passwordEntryToPreview (f e)) s)))"

definition bulkDeleteEntries :: "string list \<Rightarrow> entries_state \<Rightarrow> entries_state" where
  "bulkDeleteEntries ids s =
     (let session = es_session s
      in if \<not> es_current s session then answer False s
         else if es_backend s then await_call (BulkDeleteCall ids) (PBulkDelete session ids) s
         else finish_delete ids s)"

section \<open>Tags\<close>

text \<open>\<open>Partial<Tag>\<close>.\<close>

record tag_updates =
  tu_name :: "string option"
  tu_color :: "string option"
  tu_icon :: "string option"
  tu_default_url :: "string option"

definition apply_tag_updates :: "tag \<Rightarrow> tag_updates \<Rightarrow> tag" where
  "apply_tag_updates t u =
     t\<lparr>tag_name := or_else (tu_name u) (tag_name t), tag_color := or_else (tu_color u) (tag_color t),
       tag_icon := or_else (tu_icon u) (tag_icon t),
       tag_default_url := (case tu_default_url u of None \<Rightarrow> tag_default_url t | Some d \<Rightarrow> Some d)\<rparr>"

definition tag_from_ipc :: "ipc_tag \<Rightarrow> tag" where
  "tag_from_ipc t = \<lparr>tag_id = it_id t, tag_name = it_name t, tag_color = str_or (it_color t) ''#5b8def'',
     tag_icon = str_or (it_icon t) ''tag'', tag_default_url = Some (or_else (it_default_url t) []), tag_count = 0\<rparr>"

definition rename_in :: "string \<Rightarrow> string \<Rightarrow> password_entry \<Rightarrow> password_entry" where
  "rename_in old new e = e\<lparr>pe_tags := map (\<lambda>n. if n = old then new else n) (pe_tags e)\<rparr>"

definition remove_in :: "string \<Rightarrow> password_entry \<Rightarrow> password_entry" where
  "remove_in name e = e\<lparr>pe_tags := filter (\<lambda>n. n \<noteq> name) (pe_tags e)\<rparr>"

definition finish_addTag :: "string \<Rightarrow> tag \<Rightarrow> entries_state \<Rightarrow> entries_state" where
  "finish_addTag i t s =
     answer True (triggerAutoSync
       (s\<lparr>es_rawTags := filter (\<lambda>x. tag_id x \<noteq> i) (es_rawTags s) @ [t\<lparr>tag_id := i\<rparr>]\<rparr>))"

definition finish_updateTag :: "string \<Rightarrow> string \<Rightarrow> tag \<Rightarrow> entries_state \<Rightarrow> entries_state" where
  "finish_updateTag i oldName t s =
     answer True (triggerAutoSync
       (map_selected (rename_in oldName (tag_name t))
         (map_entries (rename_in oldName (tag_name t))
           (s\<lparr>es_rawTags := map (\<lambda>x. if tag_id x = i then t else x) (es_rawTags s)\<rparr>))))"

definition finish_removeTag :: "string \<Rightarrow> string \<Rightarrow> entries_state \<Rightarrow> entries_state" where
  "finish_removeTag i name s =
     answer True (triggerAutoSync
       (map_selected (remove_in name)
         (map_entries (remove_in name)
           (s\<lparr>es_rawTags := filter (\<lambda>x. tag_id x \<noteq> i) (es_rawTags s)\<rparr>))))"

definition addTag :: "tag \<Rightarrow> entries_state \<Rightarrow> entries_state" where
  "addTag t s =
     (let session = es_session s
      in if \<not> es_current s session then answer False s
         else if es_backend s
         then await_call (AddTagCall (tag_name t) (tag_color t) (tag_icon t) (tag_default_url t)) (PAddTag session t) s
         else finish_addTag (tag_id t) t s)"

definition updateTag :: "string \<Rightarrow> tag_updates \<Rightarrow> entries_state \<Rightarrow> entries_state" where
  "updateTag i u s =
     (let session = es_session s
      in case List.find (\<lambda>t. tag_id t = i) (es_viewTags s) of
           None \<Rightarrow> answer False s
         | Some oldTag \<Rightarrow>
             if \<not> es_current s session then answer False s
             else let t = apply_tag_updates oldTag u
                  in if es_backend s
                     then await_call (UpdateTagCall i (tag_name t) (tag_color t) (tag_icon t) (tag_default_url t))
                            (PUpdateTag session i (tag_name oldTag) t) s
                     else finish_updateTag i (tag_name oldTag) t s)"

definition removeTag :: "string \<Rightarrow> entries_state \<Rightarrow> entries_state" where
  "removeTag i s =
     (let session = es_session s
      in case List.find (\<lambda>t. tag_id t = i) (es_viewTags s) of
           None \<Rightarrow> answer False s
         | Some t \<Rightarrow>
             if \<not> es_current s session then answer False s
             else if es_backend s then await_call (DeleteTagCall i) (PRemoveTag session i (tag_name t)) s
             else finish_removeTag i (tag_name t) s)"

definition reorderTags :: "tag list \<Rightarrow> entries_state \<Rightarrow> entries_state" where
  "reorderTags newTags s =
     (let session = es_session s
      in if \<not> es_current s session then s
         else let prevTags = es_rawTagsRef s;
                  s = s\<lparr>es_rawTags := newTags\<rparr>
              in if es_backend s
                 then await_call (ReorderTagsCall (map tag_id newTags)) (PReorder session prevTags) s
                 else s)"

text \<open>The tags shown, with their counts over the entries of the list.\<close>

fun count_tags :: "(string, nat) omap \<Rightarrow> string list \<Rightarrow> (string, nat) omap" where
  "count_tags m [] = m"
| "count_tags m (t # ts) = count_tags (om_set t (Suc (or_else (om_get m t) 0)) m) ts"

definition shown_tags :: "tag list \<Rightarrow> password_entry list \<Rightarrow> tag list" where
  "shown_tags rawTags entries =
     (let countMap = fold (\<lambda>e m. count_tags m (pe_tags e)) entries []
      in map (\<lambda>t. t\<lparr>tag_count := or_else (om_get countMap (tag_name t)) 0\<rparr>) rawTags)"

end
