(* ===== verification/Entries_Session.thy ===== *)
theory Entries_Session
  imports Entries_State
begin

text \<open>
  The continuations of the handlers of \<open>EntriesContext.provider.tsx\<close> after each \<open>await\<close>, the
  events of a mounted \<open>EntriesSession\<close>, and what holds of every interleaving of them: results of
  an ended session or of an overtaken request change nothing, the list never holds a decrypted
  value, and the automatic cloud sync stays inside the session and the operation mode.
\<close>

section \<open>Answers of the back end\<close>

datatype response =
    Failed string
  | GotUnit
  | GotPreviews "entry_preview list"
  | GotEntry decrypted_entry
  | GotTags "ipc_tag list"
  | GotVault "vault_info option"
  | GotId string
  | GotBool bool
  | GotStats "merge_stats option"

section \<open>Continuations\<close>

definition raw_error :: "string \<Rightarrow> message" where
  "raw_error e = Plain e"

definition tr_error :: "string \<Rightarrow> string \<Rightarrow> message" where
  "tr_error key e = Tr key [(''err'', e)]"

definition after_refresh_done :: "after_refresh \<Rightarrow> entries_state \<Rightarrow> entries_state" where
  "after_refresh_done k s =
     (case k of
        Nothing \<Rightarrow> s
      | LoadPart j \<Rightarrow> load_part_done j s
      | BulkRest session n \<Rightarrow> if \<not> es_current s session then answer False s else finish_bulk_update n s)"

definition request_current :: "nat \<Rightarrow> nat \<Rightarrow> entries_state \<Rightarrow> bool" where
  "request_current session request s \<longleftrightarrow> es_current s session \<and> request = es_refreshSeq s"

text \<open>\<open>refreshEntries\<close> after \<open>listEntries\<close>: the list, then the selected entry is looked up again.\<close>

definition resume_list :: "nat \<Rightarrow> nat \<Rightarrow> after_refresh \<Rightarrow> response \<Rightarrow> entries_state \<Rightarrow> entries_state" where
  "resume_list session request k r s =
     (case r of
        GotPreviews previews \<Rightarrow>
          if \<not> request_current session request s then after_refresh_done k s
          else let entriesList = map (\<lambda>p. entryPreviewToPasswordEntry p mask) previews;
                   s = s\<lparr>es_entries := entriesList\<rparr>
               in (case es_selectedRef s of
                     None \<Rightarrow> after_refresh_done k s
                   | Some sel \<Rightarrow>
                       if es_locked s then after_refresh_done k s
                       else if List.find (\<lambda>p. pe_id p = pe_id sel) entriesList = None
                       then after_refresh_done k (setSelectedEntry None s)
                       else await_call (GetEntry (pe_id sel))
                              (PDetail session request (es_selectionSeq s) (pe_id sel) k) s)
      | Failed e \<Rightarrow>
          after_refresh_done k
            (if request_current session request s then addToast (raw_error e) ToastError s else s)
      | _ \<Rightarrow> s)"

definition resume_detail ::
  "nat \<Rightarrow> nat \<Rightarrow> nat \<Rightarrow> string \<Rightarrow> after_refresh \<Rightarrow> response \<Rightarrow> entries_state \<Rightarrow> entries_state" where
  "resume_detail session request selection i k r s =
     (case r of
        GotEntry full \<Rightarrow>
          after_refresh_done k
            (if request_current session request s \<and> selection = es_selectionSeq s \<and>
                map_option pe_id (es_selectedRef s) = Some i
             then setSelectedEntry (Some (decryptedEntryToPasswordEntry full)) s else s)
      | Failed e \<Rightarrow>
          after_refresh_done k
            (if request_current session request s \<and> selection = es_selectionSeq s
             then addToast (raw_error e) ToastError (setSelectedEntry None s) else s)
      | _ \<Rightarrow> s)"

definition resume_tags :: "nat \<Rightarrow> nat \<Rightarrow> after_refresh \<Rightarrow> response \<Rightarrow> entries_state \<Rightarrow> entries_state" where
  "resume_tags session request k r s =
     (case r of
        GotTags dbTags \<Rightarrow>
          after_refresh_done k
            (if \<not> es_current s session \<or> request \<noteq> es_tagRefreshSeq s then s
             else s\<lparr>es_rawTags := map tag_from_ipc dbTags\<rparr>)
      | Failed e \<Rightarrow>
          after_refresh_done k
            (if es_current s session \<and> request = es_tagRefreshSeq s
             then addToast (raw_error e) ToastError s else s)
      | _ \<Rightarrow> s)"

text \<open>\<open>selectEntryById\<close> after \<open>getEntry\<close>; the \<open>finally\<close> clears the loading flag of the latest request.\<close>

definition finally_detail :: "bool \<Rightarrow> nat \<Rightarrow> entries_state \<Rightarrow> entries_state" where
  "finally_detail isSameEntry seq s =
     (if \<not> isSameEntry \<and> seq = es_selectionSeq s then s\<lparr>es_loadingDetail := False\<rparr> else s)"

definition resume_select ::
  "nat \<Rightarrow> nat \<Rightarrow> string \<Rightarrow> bool \<Rightarrow> nat \<Rightarrow> response \<Rightarrow> entries_state \<Rightarrow> entries_state" where
  "resume_select session seq i isSameEntry startTime r s =
     (case r of
        GotEntry full \<Rightarrow>
          if seq \<noteq> es_selectionSeq s \<or> \<not> es_current s session then finally_detail isSameEntry seq s
          else let entry = decryptedEntryToPasswordEntry full
               in if \<not> isSameEntry \<and> \<not> st_disableSkeletonDelays (es_closure s) \<and>
                     es_now s - startTime < 150
                  then wait_timer (PSelectDelay session seq entry) s
                  else finally_detail isSameEntry seq (setSelectedEntry (Some entry) s)
      | Failed e \<Rightarrow>
          finally_detail isSameEntry seq
            (if seq = es_selectionSeq s \<and> es_current s session
             then addToast (raw_error e) ToastError (setSelectedEntry None s) else s)
      | _ \<Rightarrow> s)"

definition resume_select_delay :: "nat \<Rightarrow> nat \<Rightarrow> password_entry \<Rightarrow> entries_state \<Rightarrow> entries_state" where
  "resume_select_delay session seq entry s =
     finally_detail False seq
       (if seq \<noteq> es_selectionSeq s \<or> \<not> es_current s session then s else setSelectedEntry (Some entry) s)"

definition resume_vault_info :: "nat \<Rightarrow> nat \<Rightarrow> response \<Rightarrow> entries_state \<Rightarrow> entries_state" where
  "resume_vault_info session subscription r s =
     (case r of
        GotVault (Some info) \<Rightarrow>
          (case es_vault s of
             Some v \<Rightarrow>
               if subscription = es_subscription s \<and> es_current s session \<and>
                  va_id v = vi_id info \<and> va_name v \<noteq> vi_name info
               then s\<lparr>es_auth := setCurrentVault (Some (v\<lparr>va_name := vi_name info\<rparr>)) False (es_auth s)\<rparr>
               else s
           | None \<Rightarrow> s)
      | Failed e \<Rightarrow>
          if subscription = es_subscription s then err_toast session (raw_error e) s else s
      | _ \<Rightarrow> s)"

definition stats_changed :: "merge_stats \<Rightarrow> bool" where
  "stats_changed m \<longleftrightarrow> ms_entries_added m > 0 \<or> ms_entries_updated m > 0 \<or> ms_tags_merged m > 0 \<or> ms_trash_merged m > 0"

definition resume_autosync :: "response \<Rightarrow> entries_state \<Rightarrow> entries_state" where
  "resume_autosync r s =
     (case r of GotStats (Some m) \<Rightarrow> if stats_changed m then refreshBoth s else s | _ \<Rightarrow> s)"

text \<open>\<open>updateEntry\<close> after \<open>backend.updateEntry\<close>, and after the metadata is fetched again.\<close>

definition staged :: "password_entry \<Rightarrow> bool" where
  "staged e \<longleftrightarrow> nonempty (pe_newAttachments e) \<noteq> None \<or> nonempty (pe_deleteAttachmentIds e) \<noteq> None \<or>
     pe_passkeyAction e \<noteq> None"

definition resume_update :: "nat \<Rightarrow> password_entry \<Rightarrow> password_entry \<Rightarrow> response \<Rightarrow> entries_state \<Rightarrow> entries_state" where
  "resume_update session e updated r s =
     (case r of
        GotUnit \<Rightarrow>
          if \<not> es_current s session then answer False s
          else let s = apply_update (pe_id e) updated s
               in if staged e then await_call (GetEntry (pe_id e)) (PUpdateDetail session (pe_id e)) s
                  else answer True (triggerAutoSync s)
      | Failed err \<Rightarrow> answer False (err_toast session (tr_error ''toast.update_failed'' err) s)
      | _ \<Rightarrow> s)"

definition resume_update_detail :: "nat \<Rightarrow> string \<Rightarrow> response \<Rightarrow> entries_state \<Rightarrow> entries_state" where
  "resume_update_detail session i r s =
     (case r of
        GotEntry full \<Rightarrow>
          if \<not> es_current s session then answer False s
          else answer True (triggerAutoSync (apply_update i (decryptedEntryToPasswordEntry full) s))
      | Failed err \<Rightarrow> if \<not> es_current s session then answer False s else answer True (triggerAutoSync s)
      | _ \<Rightarrow> s)"

definition resume_add :: "nat \<Rightarrow> password_entry \<Rightarrow> string \<Rightarrow> response \<Rightarrow> entries_state \<Rightarrow> entries_state" where
  "resume_add session e now r s =
     (case r of
        GotId newId \<Rightarrow>
          if \<not> es_current s session then answer False s
          else let createdEntry = created_entry newId now e
               in answer True (triggerAutoSync
                    (s\<lparr>es_entries := passwordEntryToPreview createdEntry #
                         filter (\<lambda>x. pe_id x \<noteq> newId) (es_entries s),
                       es_selected := Some createdEntry\<rparr>))
      | Failed err \<Rightarrow> answer False (err_toast session (tr_error ''toast.add_failed'' err) s)
      | _ \<Rightarrow> s)"

text \<open>The continuations of the other operations.\<close>

definition resume_save :: "nat \<Rightarrow> response \<Rightarrow> entries_state \<Rightarrow> entries_state" where
  "resume_save session r s =
     (case r of GotUnit \<Rightarrow> if es_current s session then triggerAutoSync s else s | _ \<Rightarrow> s)"

definition resume_delete :: "nat \<Rightarrow> string \<Rightarrow> response \<Rightarrow> entries_state \<Rightarrow> entries_state" where
  "resume_delete session i r s =
     (case r of
        GotUnit \<Rightarrow> if \<not> es_current s session then answer False s else finish_delete [i] s
      | Failed err \<Rightarrow> answer False (err_toast session (tr_error ''toast.delete_failed'' err) s)
      | _ \<Rightarrow> s)"

definition resume_delete_attachment :: "nat \<Rightarrow> string \<Rightarrow> string \<Rightarrow> response \<Rightarrow> entries_state \<Rightarrow> entries_state" where
  "resume_delete_attachment session i a r s =
     (case r of
        GotUnit \<Rightarrow> if \<not> es_current s session then s else finish_deleteAttachment i a s
      | Failed err \<Rightarrow> err_toast session (tr_error ''toast.delete_failed'' err) s
      | _ \<Rightarrow> s)"

definition resume_favorite :: "nat \<Rightarrow> string \<Rightarrow> response \<Rightarrow> entries_state \<Rightarrow> entries_state" where
  "resume_favorite session i r s =
     (case r of
        GotBool b \<Rightarrow> if \<not> es_current s session then s else finish_favorite i (Some b) s
      | Failed err \<Rightarrow> err_toast session (tr_error ''toast.action_failed'' err) s
      | _ \<Rightarrow> s)"

definition resume_pin :: "nat \<Rightarrow> string \<Rightarrow> response \<Rightarrow> entries_state \<Rightarrow> entries_state" where
  "resume_pin session i r s =
     (case r of
        GotBool b \<Rightarrow> if \<not> es_current s session then s else finish_pin i (Some b) s
      | Failed err \<Rightarrow> err_toast session (tr_error ''toast.action_failed'' err) s
      | _ \<Rightarrow> s)"

definition resume_bulk_update :: "nat \<Rightarrow> nat \<Rightarrow> response \<Rightarrow> entries_state \<Rightarrow> entries_state" where
  "resume_bulk_update session n r s =
     (case r of
        GotUnit \<Rightarrow>
          if \<not> es_current s session then answer False s
          else (let (s, settled) = refreshEntries (BulkRest session n) s
                in if settled then after_refresh_done (BulkRest session n) s else s)
      | Failed err \<Rightarrow> answer False (err_toast session (tr_error ''toast.action_failed'' err) s)
      | _ \<Rightarrow> s)"

definition resume_bulk_delete :: "nat \<Rightarrow> string list \<Rightarrow> response \<Rightarrow> entries_state \<Rightarrow> entries_state" where
  "resume_bulk_delete session ids r s =
     (case r of
        GotUnit \<Rightarrow> if \<not> es_current s session then answer False s else finish_delete ids s
      | Failed err \<Rightarrow> answer False (err_toast session (raw_error err) s)
      | _ \<Rightarrow> s)"

definition resume_add_tag :: "nat \<Rightarrow> tag \<Rightarrow> response \<Rightarrow> entries_state \<Rightarrow> entries_state" where
  "resume_add_tag session t r s =
     (case r of
        GotId i \<Rightarrow> if \<not> es_current s session then answer False s else finish_addTag i t s
      | Failed err \<Rightarrow> answer False (err_toast session (raw_error err) s)
      | _ \<Rightarrow> s)"

definition resume_update_tag :: "nat \<Rightarrow> string \<Rightarrow> string \<Rightarrow> tag \<Rightarrow> response \<Rightarrow> entries_state \<Rightarrow> entries_state" where
  "resume_update_tag session i oldName t r s =
     (case r of
        GotUnit \<Rightarrow> if \<not> es_current s session then answer False s else finish_updateTag i oldName t s
      | Failed err \<Rightarrow> answer False (err_toast session (raw_error err) s)
      | _ \<Rightarrow> s)"

definition resume_remove_tag :: "nat \<Rightarrow> string \<Rightarrow> string \<Rightarrow> response \<Rightarrow> entries_state \<Rightarrow> entries_state" where
  "resume_remove_tag session i name r s =
     (case r of
        GotUnit \<Rightarrow> if \<not> es_current s session then answer False s else finish_removeTag i name s
      | Failed err \<Rightarrow> answer False (err_toast session (raw_error err) s)
      | _ \<Rightarrow> s)"

definition resume_reorder :: "nat \<Rightarrow> tag list \<Rightarrow> response \<Rightarrow> entries_state \<Rightarrow> entries_state" where
  "resume_reorder session prev r s =
     (case r of
        GotUnit \<Rightarrow> if es_current s session then triggerAutoSync s else s
      | Failed err \<Rightarrow>
          if es_current s session
          then addToast (Plain (''Failed to save tag order: '' @ err)) ToastError (s\<lparr>es_rawTags := prev\<rparr>)
          else s
      | _ \<Rightarrow> s)"

text \<open>These are short: wherever they occur they are unfolded.\<close>

lemmas resume_defs [simp] =
  resume_save_def resume_delete_def resume_delete_attachment_def resume_favorite_def resume_pin_def resume_bulk_update_def
  resume_bulk_delete_def resume_add_tag_def resume_update_tag_def resume_remove_tag_def resume_reorder_def

text \<open>The continuation of each kind, applied to the response that settles it.\<close>

fun resume :: "continuation \<Rightarrow> response \<Rightarrow> entries_state \<Rightarrow> entries_state" where
  "resume (PList session request k) r s = resume_list session request k r s"
| "resume (PDetail session request selection i k) r s = resume_detail session request selection i k r s"
| "resume (PTags session request k) r s = resume_tags session request k r s"
| "resume PLoadDelay r s = s\<lparr>es_loadingEntries := False\<rparr>"
| "resume (PSelect session seq i same start) r s = resume_select session seq i same start r s"
| "resume (PSelectDelay session seq entry) r s = resume_select_delay session seq entry s"
| "resume (PSelectMock session seq i same entries) r s = select_mock_rest session seq i same entries s"
| "resume (PVaultInfo session subscription) r s = resume_vault_info session subscription r s"
| "resume PAutoSync r s = resume_autosync r s"
| "resume (PUpdate session e updated) r s = resume_update session e updated r s"
| "resume (PUpdateDetail session i) r s = resume_update_detail session i r s"
| "resume PBreachStatus r s = s"
| "resume (PSave session) r s = resume_save session r s"
| "resume (PAdd session e now) r s = resume_add session e now r s"
| "resume (PDelete session i) r s = resume_delete session i r s"
| "resume (PDeleteAttachment session i a) r s = resume_delete_attachment session i a r s"
| "resume (PFavorite session i) r s = resume_favorite session i r s"
| "resume (PPin session i) r s = resume_pin session i r s"
| "resume (PBulkUpdate session n) r s = resume_bulk_update session n r s"
| "resume (PBulkDelete session ids) r s = resume_bulk_delete session ids r s"
| "resume (PAddTag session t) r s = resume_add_tag session t r s"
| "resume (PUpdateTag session i oldName t) r s = resume_update_tag session i oldName t r s"
| "resume (PRemoveTag session i name) r s = resume_remove_tag session i name r s"
| "resume (PReorder session prev) r s = resume_reorder session prev r s"

text \<open>
  A response settles the continuation at a position of the waiting list; others are ignored. The
  continuation runs with the settings its handler captured.
\<close>

definition take_up :: "nat \<Rightarrow> entries_state \<Rightarrow> entries_state" where
  "take_up i s = s\<lparr>es_pending := take i (es_pending s) @ drop (Suc i) (es_pending s),
     es_captured := take i (es_captured s) @ drop (Suc i) (es_captured s), es_closure := es_captured s ! i\<rparr>"

definition give_back :: "entries_state \<Rightarrow> entries_state" where
  "give_back s = s\<lparr>es_closure := es_settings s\<rparr>"

definition settle :: "nat \<Rightarrow> response \<Rightarrow> entries_state \<Rightarrow> entries_state" where
  "settle i r s =
     (if i < length (es_pending s) then give_back (resume (es_pending s ! i) r (take_up i s)) else s)"

section \<open>Mounting, rendering and events\<close>

definition mount_session :: "auth_state \<Rightarrow> bool \<Rightarrow> app_settings \<Rightarrow> entries_state" where
  "mount_session auth backend settings =
     (let locked = au_isLocked auth;
          seq = (if locked then 1 else 0)
      in \<lparr>es_auth = auth, es_backend = backend, es_vault = au_currentVault auth, es_locked = locked,
          es_settings = settings, es_closure = settings, es_now = 0, es_entries = [], es_rawTags = [], es_selected = None,
          es_selectedIds = [],
          es_loadingEntries = (backend \<and> au_currentVault auth \<noteq> None \<and> \<not> locked),
          es_loadingDetail = False, es_viewEntries = [], es_viewTags = [], es_viewIds = [],
          es_selectedRef = None, es_rawTagsRef = [], es_selectionSeq = seq, es_refreshSeq = seq,
          es_tagRefreshSeq = seq, es_subscription = 0, es_loads = [], es_timer = None,
          es_pending = [], es_captured = [], es_calls = (if locked \<and> backend then [LockVaultCall] else []),
          es_toasts = [], es_answers = []\<rparr>)"

text \<open>
  A render: handlers capture the current state, the refs follow it, and a renamed vault is seen
  (which renews the subscription to content changes).
\<close>

definition commit_render :: "entries_state \<Rightarrow> entries_state" where
  "commit_render s =
     s\<lparr>es_viewEntries := es_entries s, es_viewTags := es_rawTags s, es_viewIds := es_selectedIds s,
       es_selectedRef := es_selected s, es_rawTagsRef := es_rawTags s,
       es_subscription := (if es_vault s \<noteq> au_currentVault (es_auth s)
                           then Suc (es_subscription s) else es_subscription s),
       es_vault := au_currentVault (es_auth s)\<rparr>"

text \<open>New settings: a pending automatic sync is cancelled when the operation mode changes.\<close>

definition change_settings :: "app_settings \<Rightarrow> entries_state \<Rightarrow> entries_state" where
  "change_settings st s =
     s\<lparr>es_settings := st, es_closure := st,
       es_timer := (if st_operationMode st \<noteq> st_operationMode (es_settings s) then None else es_timer s)\<rparr>"

definition content_changed :: "entries_state \<Rightarrow> entries_state" where
  "content_changed s =
     (let session = es_session s
      in if es_backend s \<and> \<not> es_locked s \<and> es_current s session
         then await_call GetVaultInfo (PVaultInfo session (es_subscription s)) (refreshBoth s)
         else s)"

datatype event =
    Auth auth_event
  | Settings app_settings
  | Commit
  | Tick nat
  | Settle nat response
  | LoadAll
  | RefreshEntries
  | RefreshTags
  | ContentChanged
  | FireAutoSync
  | SetSelected "password_entry option"
  | SetSelectedIds "string list"
  | Select "string option"
  | Update string string password_entry
  | UpdateBreach string breach_status
  | Save
  | Add string string password_entry
  | Delete string
  | DeleteAttachment string string
  | Favorite string
  | Pin string
  | ToggleSelection string bool bool "password_entry list option"
  | ClearSelection
  | BulkUpdate "string list" entry_updates "string list" "string list" notes_mode
  | BulkDelete "string list"
  | AddTag tag
  | UpdateTag string tag_updates
  | RemoveTag string
  | ReorderTags "tag list"

fun entries_step :: "event \<Rightarrow> entries_state \<Rightarrow> entries_state" where
  "entries_step (Auth e) s = s\<lparr>es_auth := auth_step e (es_auth s)\<rparr>"
| "entries_step (Settings st) s = change_settings st s"
| "entries_step Commit s = commit_render s"
| "entries_step (Tick n) s = s\<lparr>es_now := es_now s + n\<rparr>"
| "entries_step (Settle i r) s = settle i r s"
| "entries_step LoadAll s = loadAll s"
| "entries_step RefreshEntries s = fst (refreshEntries Nothing s)"
| "entries_step RefreshTags s = fst (refreshTags Nothing s)"
| "entries_step ContentChanged s = content_changed s"
| "entries_step FireAutoSync s = fireAutoSync s"
| "entries_step (SetSelected e) s = setSelectedEntry e s"
| "entries_step (SetSelectedIds ids) s = s\<lparr>es_selectedIds := ids\<rparr>"
| "entries_step (Select i) s = selectEntryById i s"
| "entries_step (Update uuid now e) s = updateEntry uuid now e s"
| "entries_step (UpdateBreach i b) s = updateBreachStatus i b s"
| "entries_step Save s = saveVault s"
| "entries_step (Add uuid now e) s = addEntry uuid now e s"
| "entries_step (Delete i) s = deleteEntry i s"
| "entries_step (DeleteAttachment i a) s = deleteAttachment i a s"
| "entries_step (Favorite i) s = toggleFavorite i s"
| "entries_step (Pin i) s = togglePin i s"
| "entries_step (ToggleSelection i m r l) s = toggleEntrySelection i m r l s"
| "entries_step ClearSelection s = clearSelection s"
| "entries_step (BulkUpdate ids u a d m) s = bulkUpdateEntries ids u a d m s"
| "entries_step (BulkDelete ids) s = bulkDeleteEntries ids s"
| "entries_step (AddTag t) s = addTag t s"
| "entries_step (UpdateTag i u) s = updateTag i u s"
| "entries_step (RemoveTag i) s = removeTag i s"
| "entries_step (ReorderTags ts) s = reorderTags ts s"

end
