(* ===== verification/Entries_Laws.thy ===== *)
theory Entries_Laws
  imports Entries_Session Settings_State
begin
lemma triggerAutoSync_keeps [simp]:
  "es_auth (triggerAutoSync s) = es_auth s" "es_backend (triggerAutoSync s) = es_backend s"
  "es_vault (triggerAutoSync s) = es_vault s" "es_locked (triggerAutoSync s) = es_locked s"
  "es_settings (triggerAutoSync s) = es_settings s" "es_closure (triggerAutoSync s) = es_closure s" "es_now (triggerAutoSync s) = es_now s"
  "es_entries (triggerAutoSync s) = es_entries s" "es_rawTags (triggerAutoSync s) = es_rawTags s"
  "es_selected (triggerAutoSync s) = es_selected s"
  "es_selectedIds (triggerAutoSync s) = es_selectedIds s"
  "es_loadingEntries (triggerAutoSync s) = es_loadingEntries s"
  "es_loadingDetail (triggerAutoSync s) = es_loadingDetail s"
  "es_viewEntries (triggerAutoSync s) = es_viewEntries s"
  "es_viewTags (triggerAutoSync s) = es_viewTags s" "es_viewIds (triggerAutoSync s) = es_viewIds s"
  "es_selectedRef (triggerAutoSync s) = es_selectedRef s"
  "es_rawTagsRef (triggerAutoSync s) = es_rawTagsRef s"
  "es_selectionSeq (triggerAutoSync s) = es_selectionSeq s"
  "es_refreshSeq (triggerAutoSync s) = es_refreshSeq s"
  "es_tagRefreshSeq (triggerAutoSync s) = es_tagRefreshSeq s"
  "es_subscription (triggerAutoSync s) = es_subscription s"
  "es_loads (triggerAutoSync s) = es_loads s" "es_pending (triggerAutoSync s) = es_pending s" "es_captured (triggerAutoSync s) = es_captured s"
  "es_calls (triggerAutoSync s) = es_calls s" "es_toasts (triggerAutoSync s) = es_toasts s"
  "es_answers (triggerAutoSync s) = es_answers s"
  by (simp_all add: triggerAutoSync_def Let_def)

lemma addToast_keeps [simp]:
  "es_auth (addToast m t s) = es_auth s" "es_backend (addToast m t s) = es_backend s"
  "es_vault (addToast m t s) = es_vault s" "es_locked (addToast m t s) = es_locked s"
  "es_settings (addToast m t s) = es_settings s" "es_closure (addToast m t s) = es_closure s" "es_now (addToast m t s) = es_now s"
  "es_entries (addToast m t s) = es_entries s" "es_rawTags (addToast m t s) = es_rawTags s"
  "es_selected (addToast m t s) = es_selected s"
  "es_selectedIds (addToast m t s) = es_selectedIds s"
  "es_loadingEntries (addToast m t s) = es_loadingEntries s"
  "es_loadingDetail (addToast m t s) = es_loadingDetail s"
  "es_viewEntries (addToast m t s) = es_viewEntries s"
  "es_viewTags (addToast m t s) = es_viewTags s" "es_viewIds (addToast m t s) = es_viewIds s"
  "es_selectedRef (addToast m t s) = es_selectedRef s"
  "es_rawTagsRef (addToast m t s) = es_rawTagsRef s"
  "es_selectionSeq (addToast m t s) = es_selectionSeq s"
  "es_refreshSeq (addToast m t s) = es_refreshSeq s"
  "es_tagRefreshSeq (addToast m t s) = es_tagRefreshSeq s"
  "es_subscription (addToast m t s) = es_subscription s" "es_loads (addToast m t s) = es_loads s"
  "es_timer (addToast m t s) = es_timer s" "es_pending (addToast m t s) = es_pending s" "es_captured (addToast m t s) = es_captured s"
  "es_calls (addToast m t s) = es_calls s" "es_answers (addToast m t s) = es_answers s"
  by (simp_all add: addToast_def)

lemma answer_keeps [simp]:
  "es_auth (answer b s) = es_auth s" "es_backend (answer b s) = es_backend s"
  "es_vault (answer b s) = es_vault s" "es_locked (answer b s) = es_locked s"
  "es_settings (answer b s) = es_settings s" "es_closure (answer b s) = es_closure s" "es_now (answer b s) = es_now s"
  "es_entries (answer b s) = es_entries s" "es_rawTags (answer b s) = es_rawTags s"
  "es_selected (answer b s) = es_selected s" "es_selectedIds (answer b s) = es_selectedIds s"
  "es_loadingEntries (answer b s) = es_loadingEntries s"
  "es_loadingDetail (answer b s) = es_loadingDetail s"
  "es_viewEntries (answer b s) = es_viewEntries s" "es_viewTags (answer b s) = es_viewTags s"
  "es_viewIds (answer b s) = es_viewIds s" "es_selectedRef (answer b s) = es_selectedRef s"
  "es_rawTagsRef (answer b s) = es_rawTagsRef s" "es_selectionSeq (answer b s) = es_selectionSeq s"
  "es_refreshSeq (answer b s) = es_refreshSeq s"
  "es_tagRefreshSeq (answer b s) = es_tagRefreshSeq s"
  "es_subscription (answer b s) = es_subscription s" "es_loads (answer b s) = es_loads s"
  "es_timer (answer b s) = es_timer s" "es_pending (answer b s) = es_pending s" "es_captured (answer b s) = es_captured s"
  "es_calls (answer b s) = es_calls s" "es_toasts (answer b s) = es_toasts s"
  by (simp_all add: answer_def)

lemma err_toast_keeps [simp]:
  "es_auth (err_toast g m s) = es_auth s" "es_backend (err_toast g m s) = es_backend s"
  "es_vault (err_toast g m s) = es_vault s" "es_locked (err_toast g m s) = es_locked s"
  "es_settings (err_toast g m s) = es_settings s" "es_closure (err_toast g m s) = es_closure s" "es_now (err_toast g m s) = es_now s"
  "es_entries (err_toast g m s) = es_entries s" "es_rawTags (err_toast g m s) = es_rawTags s"
  "es_selected (err_toast g m s) = es_selected s"
  "es_selectedIds (err_toast g m s) = es_selectedIds s"
  "es_loadingEntries (err_toast g m s) = es_loadingEntries s"
  "es_loadingDetail (err_toast g m s) = es_loadingDetail s"
  "es_viewEntries (err_toast g m s) = es_viewEntries s"
  "es_viewTags (err_toast g m s) = es_viewTags s" "es_viewIds (err_toast g m s) = es_viewIds s"
  "es_selectedRef (err_toast g m s) = es_selectedRef s"
  "es_rawTagsRef (err_toast g m s) = es_rawTagsRef s"
  "es_selectionSeq (err_toast g m s) = es_selectionSeq s"
  "es_refreshSeq (err_toast g m s) = es_refreshSeq s"
  "es_tagRefreshSeq (err_toast g m s) = es_tagRefreshSeq s"
  "es_subscription (err_toast g m s) = es_subscription s" "es_loads (err_toast g m s) = es_loads s"
  "es_timer (err_toast g m s) = es_timer s" "es_pending (err_toast g m s) = es_pending s" "es_captured (err_toast g m s) = es_captured s"
  "es_calls (err_toast g m s) = es_calls s" "es_answers (err_toast g m s) = es_answers s"
  by (simp_all add: err_toast_def)

lemma await_call_keeps [simp]:
  "es_auth (await_call c k s) = es_auth s" "es_backend (await_call c k s) = es_backend s"
  "es_vault (await_call c k s) = es_vault s" "es_locked (await_call c k s) = es_locked s"
  "es_settings (await_call c k s) = es_settings s" "es_closure (await_call c k s) = es_closure s" "es_now (await_call c k s) = es_now s"
  "es_entries (await_call c k s) = es_entries s" "es_rawTags (await_call c k s) = es_rawTags s"
  "es_selected (await_call c k s) = es_selected s"
  "es_selectedIds (await_call c k s) = es_selectedIds s"
  "es_loadingEntries (await_call c k s) = es_loadingEntries s"
  "es_loadingDetail (await_call c k s) = es_loadingDetail s"
  "es_viewEntries (await_call c k s) = es_viewEntries s"
  "es_viewTags (await_call c k s) = es_viewTags s" "es_viewIds (await_call c k s) = es_viewIds s"
  "es_selectedRef (await_call c k s) = es_selectedRef s"
  "es_rawTagsRef (await_call c k s) = es_rawTagsRef s"
  "es_selectionSeq (await_call c k s) = es_selectionSeq s"
  "es_refreshSeq (await_call c k s) = es_refreshSeq s"
  "es_tagRefreshSeq (await_call c k s) = es_tagRefreshSeq s"
  "es_subscription (await_call c k s) = es_subscription s"
  "es_loads (await_call c k s) = es_loads s" "es_timer (await_call c k s) = es_timer s"
  "es_toasts (await_call c k s) = es_toasts s" "es_answers (await_call c k s) = es_answers s"
  by (simp_all add: await_call_def)

lemma wait_timer_keeps [simp]:
  "es_auth (wait_timer k s) = es_auth s" "es_backend (wait_timer k s) = es_backend s"
  "es_vault (wait_timer k s) = es_vault s" "es_locked (wait_timer k s) = es_locked s"
  "es_settings (wait_timer k s) = es_settings s" "es_closure (wait_timer k s) = es_closure s" "es_now (wait_timer k s) = es_now s"
  "es_entries (wait_timer k s) = es_entries s" "es_rawTags (wait_timer k s) = es_rawTags s"
  "es_selected (wait_timer k s) = es_selected s"
  "es_selectedIds (wait_timer k s) = es_selectedIds s"
  "es_loadingEntries (wait_timer k s) = es_loadingEntries s"
  "es_loadingDetail (wait_timer k s) = es_loadingDetail s"
  "es_viewEntries (wait_timer k s) = es_viewEntries s"
  "es_viewTags (wait_timer k s) = es_viewTags s" "es_viewIds (wait_timer k s) = es_viewIds s"
  "es_selectedRef (wait_timer k s) = es_selectedRef s"
  "es_rawTagsRef (wait_timer k s) = es_rawTagsRef s"
  "es_selectionSeq (wait_timer k s) = es_selectionSeq s"
  "es_refreshSeq (wait_timer k s) = es_refreshSeq s"
  "es_tagRefreshSeq (wait_timer k s) = es_tagRefreshSeq s"
  "es_subscription (wait_timer k s) = es_subscription s" "es_loads (wait_timer k s) = es_loads s"
  "es_timer (wait_timer k s) = es_timer s" "es_calls (wait_timer k s) = es_calls s"
  "es_toasts (wait_timer k s) = es_toasts s" "es_answers (wait_timer k s) = es_answers s"
  by (simp_all add: wait_timer_def)

lemma map_entries_keeps [simp]:
  "es_auth (map_entries f s) = es_auth s" "es_backend (map_entries f s) = es_backend s"
  "es_vault (map_entries f s) = es_vault s" "es_locked (map_entries f s) = es_locked s"
  "es_settings (map_entries f s) = es_settings s" "es_closure (map_entries f s) = es_closure s" "es_now (map_entries f s) = es_now s"
  "es_rawTags (map_entries f s) = es_rawTags s" "es_selected (map_entries f s) = es_selected s"
  "es_selectedIds (map_entries f s) = es_selectedIds s"
  "es_loadingEntries (map_entries f s) = es_loadingEntries s"
  "es_loadingDetail (map_entries f s) = es_loadingDetail s"
  "es_viewEntries (map_entries f s) = es_viewEntries s"
  "es_viewTags (map_entries f s) = es_viewTags s" "es_viewIds (map_entries f s) = es_viewIds s"
  "es_selectedRef (map_entries f s) = es_selectedRef s"
  "es_rawTagsRef (map_entries f s) = es_rawTagsRef s"
  "es_selectionSeq (map_entries f s) = es_selectionSeq s"
  "es_refreshSeq (map_entries f s) = es_refreshSeq s"
  "es_tagRefreshSeq (map_entries f s) = es_tagRefreshSeq s"
  "es_subscription (map_entries f s) = es_subscription s" "es_loads (map_entries f s) = es_loads s"
  "es_timer (map_entries f s) = es_timer s" "es_pending (map_entries f s) = es_pending s" "es_captured (map_entries f s) = es_captured s"
  "es_calls (map_entries f s) = es_calls s" "es_toasts (map_entries f s) = es_toasts s"
  "es_answers (map_entries f s) = es_answers s"
  by (simp_all add: map_entries_def)

lemma map_selected_keeps [simp]:
  "es_auth (map_selected f s) = es_auth s" "es_backend (map_selected f s) = es_backend s"
  "es_vault (map_selected f s) = es_vault s" "es_locked (map_selected f s) = es_locked s"
  "es_settings (map_selected f s) = es_settings s" "es_closure (map_selected f s) = es_closure s" "es_now (map_selected f s) = es_now s"
  "es_entries (map_selected f s) = es_entries s" "es_rawTags (map_selected f s) = es_rawTags s"
  "es_selectedIds (map_selected f s) = es_selectedIds s"
  "es_loadingEntries (map_selected f s) = es_loadingEntries s"
  "es_loadingDetail (map_selected f s) = es_loadingDetail s"
  "es_viewEntries (map_selected f s) = es_viewEntries s"
  "es_viewTags (map_selected f s) = es_viewTags s" "es_viewIds (map_selected f s) = es_viewIds s"
  "es_selectedRef (map_selected f s) = es_selectedRef s"
  "es_rawTagsRef (map_selected f s) = es_rawTagsRef s"
  "es_selectionSeq (map_selected f s) = es_selectionSeq s"
  "es_refreshSeq (map_selected f s) = es_refreshSeq s"
  "es_tagRefreshSeq (map_selected f s) = es_tagRefreshSeq s"
  "es_subscription (map_selected f s) = es_subscription s"
  "es_loads (map_selected f s) = es_loads s" "es_timer (map_selected f s) = es_timer s"
  "es_pending (map_selected f s) = es_pending s" "es_captured (map_selected f s) = es_captured s" "es_calls (map_selected f s) = es_calls s"
  "es_toasts (map_selected f s) = es_toasts s" "es_answers (map_selected f s) = es_answers s"
  by (simp_all add: map_selected_def)

lemma setSelectedEntry_keeps [simp]:
  "es_auth (setSelectedEntry x s) = es_auth s" "es_backend (setSelectedEntry x s) = es_backend s"
  "es_vault (setSelectedEntry x s) = es_vault s" "es_locked (setSelectedEntry x s) = es_locked s"
  "es_settings (setSelectedEntry x s) = es_settings s" "es_closure (setSelectedEntry x s) = es_closure s" "es_now (setSelectedEntry x s) = es_now s"
  "es_entries (setSelectedEntry x s) = es_entries s"
  "es_rawTags (setSelectedEntry x s) = es_rawTags s"
  "es_selectedIds (setSelectedEntry x s) = es_selectedIds s"
  "es_loadingEntries (setSelectedEntry x s) = es_loadingEntries s"
  "es_loadingDetail (setSelectedEntry x s) = es_loadingDetail s"
  "es_viewEntries (setSelectedEntry x s) = es_viewEntries s"
  "es_viewTags (setSelectedEntry x s) = es_viewTags s"
  "es_viewIds (setSelectedEntry x s) = es_viewIds s"
  "es_selectedRef (setSelectedEntry x s) = es_selectedRef s"
  "es_rawTagsRef (setSelectedEntry x s) = es_rawTagsRef s"
  "es_selectionSeq (setSelectedEntry x s) = es_selectionSeq s"
  "es_refreshSeq (setSelectedEntry x s) = es_refreshSeq s"
  "es_tagRefreshSeq (setSelectedEntry x s) = es_tagRefreshSeq s"
  "es_subscription (setSelectedEntry x s) = es_subscription s"
  "es_loads (setSelectedEntry x s) = es_loads s" "es_timer (setSelectedEntry x s) = es_timer s"
  "es_pending (setSelectedEntry x s) = es_pending s" "es_captured (setSelectedEntry x s) = es_captured s" "es_calls (setSelectedEntry x s) = es_calls s"
  "es_toasts (setSelectedEntry x s) = es_toasts s"
  "es_answers (setSelectedEntry x s) = es_answers s"
  by (simp_all add: setSelectedEntry_def)

lemma load_part_done_keeps [simp]:
  "es_auth (load_part_done j s) = es_auth s" "es_backend (load_part_done j s) = es_backend s"
  "es_vault (load_part_done j s) = es_vault s" "es_locked (load_part_done j s) = es_locked s"
  "es_settings (load_part_done j s) = es_settings s" "es_closure (load_part_done j s) = es_closure s" "es_now (load_part_done j s) = es_now s"
  "es_entries (load_part_done j s) = es_entries s" "es_rawTags (load_part_done j s) = es_rawTags s"
  "es_selected (load_part_done j s) = es_selected s"
  "es_selectedIds (load_part_done j s) = es_selectedIds s"
  "es_loadingDetail (load_part_done j s) = es_loadingDetail s"
  "es_viewEntries (load_part_done j s) = es_viewEntries s"
  "es_viewTags (load_part_done j s) = es_viewTags s"
  "es_viewIds (load_part_done j s) = es_viewIds s"
  "es_selectedRef (load_part_done j s) = es_selectedRef s"
  "es_rawTagsRef (load_part_done j s) = es_rawTagsRef s"
  "es_selectionSeq (load_part_done j s) = es_selectionSeq s"
  "es_refreshSeq (load_part_done j s) = es_refreshSeq s"
  "es_tagRefreshSeq (load_part_done j s) = es_tagRefreshSeq s"
  "es_subscription (load_part_done j s) = es_subscription s"
  "es_timer (load_part_done j s) = es_timer s" "es_calls (load_part_done j s) = es_calls s"
  "es_toasts (load_part_done j s) = es_toasts s" "es_answers (load_part_done j s) = es_answers s"
  by (simp_all add: load_part_done_def Let_def split: prod.split)

lemma refreshEntries_keeps [simp]:
  "es_auth (fst (refreshEntries k s)) = es_auth s"
  "es_backend (fst (refreshEntries k s)) = es_backend s"
  "es_vault (fst (refreshEntries k s)) = es_vault s"
  "es_locked (fst (refreshEntries k s)) = es_locked s"
  "es_settings (fst (refreshEntries k s)) = es_settings s" "es_closure (fst (refreshEntries k s)) = es_closure s"
  "es_now (fst (refreshEntries k s)) = es_now s"
  "es_entries (fst (refreshEntries k s)) = es_entries s"
  "es_rawTags (fst (refreshEntries k s)) = es_rawTags s"
  "es_selected (fst (refreshEntries k s)) = es_selected s"
  "es_selectedIds (fst (refreshEntries k s)) = es_selectedIds s"
  "es_loadingEntries (fst (refreshEntries k s)) = es_loadingEntries s"
  "es_loadingDetail (fst (refreshEntries k s)) = es_loadingDetail s"
  "es_viewEntries (fst (refreshEntries k s)) = es_viewEntries s"
  "es_viewTags (fst (refreshEntries k s)) = es_viewTags s"
  "es_viewIds (fst (refreshEntries k s)) = es_viewIds s"
  "es_selectedRef (fst (refreshEntries k s)) = es_selectedRef s"
  "es_rawTagsRef (fst (refreshEntries k s)) = es_rawTagsRef s"
  "es_selectionSeq (fst (refreshEntries k s)) = es_selectionSeq s"
  "es_tagRefreshSeq (fst (refreshEntries k s)) = es_tagRefreshSeq s"
  "es_subscription (fst (refreshEntries k s)) = es_subscription s"
  "es_loads (fst (refreshEntries k s)) = es_loads s"
  "es_timer (fst (refreshEntries k s)) = es_timer s"
  "es_toasts (fst (refreshEntries k s)) = es_toasts s"
  "es_answers (fst (refreshEntries k s)) = es_answers s"
  by (simp_all add: refreshEntries_def Let_def)

lemma refreshTags_keeps [simp]:
  "es_auth (fst (refreshTags k s)) = es_auth s" "es_backend (fst (refreshTags k s)) = es_backend s"
  "es_vault (fst (refreshTags k s)) = es_vault s" "es_locked (fst (refreshTags k s)) = es_locked s"
  "es_settings (fst (refreshTags k s)) = es_settings s" "es_closure (fst (refreshTags k s)) = es_closure s" "es_now (fst (refreshTags k s)) = es_now s"
  "es_entries (fst (refreshTags k s)) = es_entries s"
  "es_rawTags (fst (refreshTags k s)) = es_rawTags s"
  "es_selected (fst (refreshTags k s)) = es_selected s"
  "es_selectedIds (fst (refreshTags k s)) = es_selectedIds s"
  "es_loadingEntries (fst (refreshTags k s)) = es_loadingEntries s"
  "es_loadingDetail (fst (refreshTags k s)) = es_loadingDetail s"
  "es_viewEntries (fst (refreshTags k s)) = es_viewEntries s"
  "es_viewTags (fst (refreshTags k s)) = es_viewTags s"
  "es_viewIds (fst (refreshTags k s)) = es_viewIds s"
  "es_selectedRef (fst (refreshTags k s)) = es_selectedRef s"
  "es_rawTagsRef (fst (refreshTags k s)) = es_rawTagsRef s"
  "es_selectionSeq (fst (refreshTags k s)) = es_selectionSeq s"
  "es_refreshSeq (fst (refreshTags k s)) = es_refreshSeq s"
  "es_subscription (fst (refreshTags k s)) = es_subscription s"
  "es_loads (fst (refreshTags k s)) = es_loads s" "es_timer (fst (refreshTags k s)) = es_timer s"
  "es_toasts (fst (refreshTags k s)) = es_toasts s"
  "es_answers (fst (refreshTags k s)) = es_answers s"
  by (simp_all add: refreshTags_def Let_def)

lemma refreshBoth_keeps [simp]:
  "es_auth (refreshBoth s) = es_auth s" "es_backend (refreshBoth s) = es_backend s"
  "es_vault (refreshBoth s) = es_vault s" "es_locked (refreshBoth s) = es_locked s"
  "es_settings (refreshBoth s) = es_settings s" "es_closure (refreshBoth s) = es_closure s" "es_now (refreshBoth s) = es_now s"
  "es_entries (refreshBoth s) = es_entries s" "es_rawTags (refreshBoth s) = es_rawTags s"
  "es_selected (refreshBoth s) = es_selected s" "es_selectedIds (refreshBoth s) = es_selectedIds s"
  "es_loadingEntries (refreshBoth s) = es_loadingEntries s"
  "es_loadingDetail (refreshBoth s) = es_loadingDetail s"
  "es_viewEntries (refreshBoth s) = es_viewEntries s" "es_viewTags (refreshBoth s) = es_viewTags s"
  "es_viewIds (refreshBoth s) = es_viewIds s" "es_selectedRef (refreshBoth s) = es_selectedRef s"
  "es_rawTagsRef (refreshBoth s) = es_rawTagsRef s"
  "es_selectionSeq (refreshBoth s) = es_selectionSeq s"
  "es_subscription (refreshBoth s) = es_subscription s" "es_loads (refreshBoth s) = es_loads s"
  "es_timer (refreshBoth s) = es_timer s" "es_toasts (refreshBoth s) = es_toasts s"
  "es_answers (refreshBoth s) = es_answers s"
  by (simp_all add: refreshBoth_def)

lemma delete_local_keeps [simp]:
  "es_auth (delete_local ids s) = es_auth s" "es_backend (delete_local ids s) = es_backend s"
  "es_vault (delete_local ids s) = es_vault s" "es_locked (delete_local ids s) = es_locked s"
  "es_settings (delete_local ids s) = es_settings s" "es_closure (delete_local ids s) = es_closure s" "es_now (delete_local ids s) = es_now s"
  "es_rawTags (delete_local ids s) = es_rawTags s"
  "es_loadingEntries (delete_local ids s) = es_loadingEntries s"
  "es_loadingDetail (delete_local ids s) = es_loadingDetail s"
  "es_viewEntries (delete_local ids s) = es_viewEntries s"
  "es_viewTags (delete_local ids s) = es_viewTags s"
  "es_viewIds (delete_local ids s) = es_viewIds s"
  "es_selectedRef (delete_local ids s) = es_selectedRef s"
  "es_rawTagsRef (delete_local ids s) = es_rawTagsRef s"
  "es_selectionSeq (delete_local ids s) = es_selectionSeq s"
  "es_refreshSeq (delete_local ids s) = es_refreshSeq s"
  "es_tagRefreshSeq (delete_local ids s) = es_tagRefreshSeq s"
  "es_subscription (delete_local ids s) = es_subscription s"
  "es_loads (delete_local ids s) = es_loads s" "es_timer (delete_local ids s) = es_timer s"
  "es_pending (delete_local ids s) = es_pending s" "es_captured (delete_local ids s) = es_captured s" "es_calls (delete_local ids s) = es_calls s"
  "es_toasts (delete_local ids s) = es_toasts s" "es_answers (delete_local ids s) = es_answers s"
  by (simp_all add: delete_local_def)

lemma finish_bulk_update_keeps [simp]:
  "es_auth (finish_bulk_update n s) = es_auth s"
  "es_backend (finish_bulk_update n s) = es_backend s"
  "es_vault (finish_bulk_update n s) = es_vault s"
  "es_locked (finish_bulk_update n s) = es_locked s"
  "es_settings (finish_bulk_update n s) = es_settings s" "es_closure (finish_bulk_update n s) = es_closure s"
  "es_now (finish_bulk_update n s) = es_now s" "es_entries (finish_bulk_update n s) = es_entries s"
  "es_rawTags (finish_bulk_update n s) = es_rawTags s"
  "es_selected (finish_bulk_update n s) = es_selected s"
  "es_selectedIds (finish_bulk_update n s) = es_selectedIds s"
  "es_loadingEntries (finish_bulk_update n s) = es_loadingEntries s"
  "es_loadingDetail (finish_bulk_update n s) = es_loadingDetail s"
  "es_viewEntries (finish_bulk_update n s) = es_viewEntries s"
  "es_viewTags (finish_bulk_update n s) = es_viewTags s"
  "es_viewIds (finish_bulk_update n s) = es_viewIds s"
  "es_selectedRef (finish_bulk_update n s) = es_selectedRef s"
  "es_rawTagsRef (finish_bulk_update n s) = es_rawTagsRef s"
  "es_selectionSeq (finish_bulk_update n s) = es_selectionSeq s"
  "es_refreshSeq (finish_bulk_update n s) = es_refreshSeq s"
  "es_tagRefreshSeq (finish_bulk_update n s) = es_tagRefreshSeq s"
  "es_subscription (finish_bulk_update n s) = es_subscription s"
  "es_loads (finish_bulk_update n s) = es_loads s"
  "es_pending (finish_bulk_update n s) = es_pending s" "es_captured (finish_bulk_update n s) = es_captured s"
  "es_calls (finish_bulk_update n s) = es_calls s"
  by (simp_all add: finish_bulk_update_def)

lemma after_refresh_done_keeps [simp]:
  "es_auth (after_refresh_done k s) = es_auth s"
  "es_backend (after_refresh_done k s) = es_backend s"
  "es_vault (after_refresh_done k s) = es_vault s"
  "es_locked (after_refresh_done k s) = es_locked s"
  "es_settings (after_refresh_done k s) = es_settings s" "es_closure (after_refresh_done k s) = es_closure s"
  "es_now (after_refresh_done k s) = es_now s" "es_entries (after_refresh_done k s) = es_entries s"
  "es_rawTags (after_refresh_done k s) = es_rawTags s"
  "es_selected (after_refresh_done k s) = es_selected s"
  "es_selectedIds (after_refresh_done k s) = es_selectedIds s"
  "es_loadingDetail (after_refresh_done k s) = es_loadingDetail s"
  "es_viewEntries (after_refresh_done k s) = es_viewEntries s"
  "es_viewTags (after_refresh_done k s) = es_viewTags s"
  "es_viewIds (after_refresh_done k s) = es_viewIds s"
  "es_selectedRef (after_refresh_done k s) = es_selectedRef s"
  "es_rawTagsRef (after_refresh_done k s) = es_rawTagsRef s"
  "es_selectionSeq (after_refresh_done k s) = es_selectionSeq s"
  "es_refreshSeq (after_refresh_done k s) = es_refreshSeq s"
  "es_tagRefreshSeq (after_refresh_done k s) = es_tagRefreshSeq s"
  "es_subscription (after_refresh_done k s) = es_subscription s"
  "es_calls (after_refresh_done k s) = es_calls s"
  by (cases k; simp add: after_refresh_done_def)+

lemma finally_detail_keeps [simp]:
  "es_auth (finally_detail b n s) = es_auth s" "es_backend (finally_detail b n s) = es_backend s"
  "es_vault (finally_detail b n s) = es_vault s" "es_locked (finally_detail b n s) = es_locked s"
  "es_settings (finally_detail b n s) = es_settings s" "es_closure (finally_detail b n s) = es_closure s" "es_now (finally_detail b n s) = es_now s"
  "es_entries (finally_detail b n s) = es_entries s"
  "es_rawTags (finally_detail b n s) = es_rawTags s"
  "es_selected (finally_detail b n s) = es_selected s"
  "es_selectedIds (finally_detail b n s) = es_selectedIds s"
  "es_loadingEntries (finally_detail b n s) = es_loadingEntries s"
  "es_viewEntries (finally_detail b n s) = es_viewEntries s"
  "es_viewTags (finally_detail b n s) = es_viewTags s"
  "es_viewIds (finally_detail b n s) = es_viewIds s"
  "es_selectedRef (finally_detail b n s) = es_selectedRef s"
  "es_rawTagsRef (finally_detail b n s) = es_rawTagsRef s"
  "es_selectionSeq (finally_detail b n s) = es_selectionSeq s"
  "es_refreshSeq (finally_detail b n s) = es_refreshSeq s"
  "es_tagRefreshSeq (finally_detail b n s) = es_tagRefreshSeq s"
  "es_subscription (finally_detail b n s) = es_subscription s"
  "es_loads (finally_detail b n s) = es_loads s" "es_timer (finally_detail b n s) = es_timer s"
  "es_pending (finally_detail b n s) = es_pending s" "es_captured (finally_detail b n s) = es_captured s" "es_calls (finally_detail b n s) = es_calls s"
  "es_toasts (finally_detail b n s) = es_toasts s"
  "es_answers (finally_detail b n s) = es_answers s"
  by (simp_all add: finally_detail_def)

lemma loadAll_keeps [simp]: "es_entries (loadAll s) = es_entries s" "es_auth (loadAll s) = es_auth s"
  by (simp_all add: loadAll_def Let_def split_def)

section \<open>The list holds no secret\<close>

definition safe_list :: "entries_state \<Rightarrow> bool" where
  "safe_list s \<longleftrightarrow> (\<forall>e \<in> set (es_entries s). list_safe e)"

lemma list_safe_updates [simp]:
  "list_safe (e\<lparr>pe_tags := ts\<rparr>) = list_safe e"
  "list_safe (e\<lparr>pe_favorite := b\<rparr>) = list_safe e"
  "list_safe (e\<lparr>pe_pinned := b\<rparr>) = list_safe e"
  "list_safe (e\<lparr>pe_attachmentCount := n\<rparr>) = list_safe e"
  "list_safe (e\<lparr>pe_breachStatus := st\<rparr>) = list_safe e"
  by (simp_all add: list_safe_def)

lemma safe_map_entries [inv_steps]:
  "safe_list s \<Longrightarrow> (\<And>e. list_safe e \<Longrightarrow> list_safe (f e)) \<Longrightarrow> safe_list (map_entries f s)"
  by (auto simp: safe_list_def map_entries_def)

lemma safe_only_id: "list_safe e \<Longrightarrow> (list_safe e \<Longrightarrow> list_safe (f e)) \<Longrightarrow> list_safe (only_id i f e)"
  by (simp add: only_id_def)

lemma safe_frame: "es_entries s' = es_entries s \<Longrightarrow> safe_list s' = safe_list s"
  by (simp add: safe_list_def)

lemma safe_list_frames [simp]:
  "safe_list (s\<lparr>es_pending := x1\<rparr>) = safe_list s"
  "safe_list (s\<lparr>es_auth := x2\<rparr>) = safe_list s"
  "safe_list (s\<lparr>es_now := x3\<rparr>) = safe_list s"
  "safe_list (take_up i s) = safe_list s"
  "safe_list (give_back s) = safe_list s"
  "safe_list (s\<lparr>es_selectedIds := x4\<rparr>) = safe_list s"
  "safe_list (fst (refreshEntries k s)) = safe_list s"
  "safe_list (fst (refreshTags k s)) = safe_list s"
  "safe_list (setSelectedEntry x s) = safe_list s"
  by (simp_all add: safe_list_def take_up_def give_back_def)

lemmas finish_defs =
  finish_delete_def finish_deleteAttachment_def finish_favorite_def finish_pin_def finish_addTag_def
  finish_updateTag_def finish_removeTag_def apply_update_def set_breach_def

lemmas start_defs =
  selectEntryById_def select_mock_rest_def fireAutoSync_def updateEntry_def updateBreachStatus_def
  saveVault_def addEntry_def deleteEntry_def deleteAttachment_def toggleFavorite_def togglePin_def
  toggleEntrySelection_def clearSelection_def bulkUpdateEntries_def bulkDeleteEntries_def addTag_def
  updateTag_def removeTag_def reorderTags_def content_changed_def change_settings_def commit_render_def

lemmas resume_defs =
  resume_list_def resume_detail_def resume_tags_def resume_select_def resume_select_delay_def
  resume_vault_info_def resume_autosync_def resume_update_def resume_update_detail_def resume_add_def
  select_mock_rest_def

text \<open>What each finishing step does to the list.\<close>

lemma finish_entries [simp]:
  "es_entries (finish_delete ids s) = filter (\<lambda>e. pe_id e \<notin> set ids) (es_entries s)"
  "es_entries (finish_deleteAttachment i a s) = map (only_id i one_attachment_less) (es_entries s)"
  "es_entries (finish_favorite i c s) = map (only_id i (flip_favorite c)) (es_entries s)"
  "es_entries (finish_pin i c s) = map (only_id i (flip_pin c)) (es_entries s)"
  "es_entries (finish_addTag i t s) = es_entries s"
  "es_entries (finish_updateTag i old t s) = map (rename_in old (tag_name t)) (es_entries s)"
  "es_entries (finish_removeTag i name s) = map (remove_in name) (es_entries s)"
  "es_entries (apply_update i u s) = map (only_id i (\<lambda>_. passwordEntryToPreview u)) (es_entries s)"
  "es_entries (set_breach i b s) = map (only_id i (pe_breachStatus_update (\<lambda>_. Some b))) (es_entries s)"
  by (simp_all add: finish_defs delete_local_def map_entries_def)

lemma list_safe_ops [simp]:
  "list_safe (one_attachment_less e) = list_safe e"
  "list_safe (flip_favorite c e) = list_safe e"
  "list_safe (flip_pin c e) = list_safe e"
  "list_safe (rename_in old new e) = list_safe e"
  "list_safe (remove_in name e) = list_safe e"
  by (simp_all add: one_attachment_less_def flip_favorite_def flip_pin_def rename_in_def remove_in_def Let_def)

lemma safe_resume [inv_steps]: "safe_list s \<Longrightarrow> safe_list (resume k r s)"
  by (cases k)
     (auto simp: safe_list_def resume_defs only_id_def Let_def split_def
       split: response.splits option.splits if_splits)

lemma safe_start:
  "safe_list s \<Longrightarrow> safe_list (selectEntryById x s)"
  "safe_list s \<Longrightarrow> safe_list (fireAutoSync s)"
  "safe_list s \<Longrightarrow> safe_list (updateEntry uuid now e s)"
  "safe_list s \<Longrightarrow> safe_list (updateBreachStatus i b s)"
  "safe_list s \<Longrightarrow> safe_list (saveVault s)"
  "safe_list s \<Longrightarrow> safe_list (addEntry uuid now e s)"
  "safe_list s \<Longrightarrow> safe_list (deleteEntry i s)"
  "safe_list s \<Longrightarrow> safe_list (deleteAttachment i a s)"
  "safe_list s \<Longrightarrow> safe_list (toggleFavorite i s)"
  "safe_list s \<Longrightarrow> safe_list (togglePin i s)"
  "safe_list s \<Longrightarrow> safe_list (toggleEntrySelection i m r l s)"
  "safe_list s \<Longrightarrow> safe_list (clearSelection s)"
  "safe_list s \<Longrightarrow> safe_list (bulkUpdateEntries ids u a' d md s)"
  "safe_list s \<Longrightarrow> safe_list (bulkDeleteEntries ids s)"
  "safe_list s \<Longrightarrow> safe_list (addTag t s)"
  "safe_list s \<Longrightarrow> safe_list (updateTag i tu s)"
  "safe_list s \<Longrightarrow> safe_list (removeTag i s)"
  "safe_list s \<Longrightarrow> safe_list (reorderTags ts s)"
  "safe_list s \<Longrightarrow> safe_list (content_changed s)"
  "safe_list s \<Longrightarrow> safe_list (change_settings st s)"
  "safe_list s \<Longrightarrow> safe_list (commit_render s)"
  "safe_list s \<Longrightarrow> safe_list (loadAll s)"
  by (auto simp: safe_list_def start_defs only_id_def map_entries_def Let_def split: option.splits prod.splits)

lemma safe_settle: "safe_list s \<Longrightarrow> safe_list (settle n r s)"
  by (simp add: settle_def safe_resume)

lemma safe_step [inv_steps]: "safe_list s \<Longrightarrow> safe_list (entries_step e s)"
  by (cases e) (simp_all add: safe_start safe_settle)

interpretation safe: invariant_machine entries_step safe_list
  by unfold_locales (rule safe_step)

text \<open>
  Claim C1. The list in memory never holds a decrypted value: whatever sequence of user actions,
  back end answers, renders, locks and settings changes a mounted session sees, every listed
  entry has the masked password, no notes, no custom fields, no secret, no recovery codes, no key
  material and no staged attachment.
\<close>

theorem entries_list_safe:
  "list_all list_safe (es_entries (run entries_step es (mount_session auth backend settings)))"
proof -
  have "safe_list (run entries_step es (mount_session auth backend settings))"
    by (rule safe.run_inv) (simp add: safe_list_def mount_session_def Let_def)
  then show ?thesis by (simp add: safe_list_def list_all_iff)
qed

section \<open>Ended sessions\<close>

text \<open>The session generation a continuation remembers, if it remembers one.\<close>

fun cont_session :: "continuation \<Rightarrow> nat option" where
  "cont_session (PList g _ _) = Some g"
| "cont_session (PDetail g _ _ _ _) = Some g"
| "cont_session (PTags g _ _) = Some g"
| "cont_session PLoadDelay = None"
| "cont_session (PSelect g _ _ _ _) = Some g"
| "cont_session (PSelectDelay g _ _) = Some g"
| "cont_session (PSelectMock g _ _ _ _) = Some g"
| "cont_session (PVaultInfo g _) = Some g"
| "cont_session PAutoSync = None"
| "cont_session (PUpdate g _ _) = Some g"
| "cont_session (PUpdateDetail g _) = Some g"
| "cont_session PBreachStatus = None"
| "cont_session (PSave g) = Some g"
| "cont_session (PAdd g _ _) = Some g"
| "cont_session (PDelete g _) = Some g"
| "cont_session (PDeleteAttachment g _ _) = Some g"
| "cont_session (PFavorite g _) = Some g"
| "cont_session (PPin g _) = Some g"
| "cont_session (PBulkUpdate g _) = Some g"
| "cont_session (PBulkDelete g _) = Some g"
| "cont_session (PAddTag g _) = Some g"
| "cont_session (PUpdateTag g _ _ _) = Some g"
| "cont_session (PRemoveTag g _ _) = Some g"
| "cont_session (PReorder g _) = Some g"

fun cont_after :: "continuation \<Rightarrow> after_refresh" where
  "cont_after (PList _ _ k) = k"
| "cont_after (PDetail _ _ _ _ k) = k"
| "cont_after (PTags _ _ k) = k"
| "cont_after _ = Nothing"

text \<open>The data of the vault and what the user is told.\<close>

definition visible ::
  "entries_state \<Rightarrow> password_entry list \<times> tag list \<times> password_entry option \<times> string list \<times>
     (message \<times> toast_type) list \<times> call list \<times> (nat \<times> app_settings) option \<times> auth_state" where
  "visible s = (es_entries s, es_rawTags s, es_selected s, es_selectedIds s, es_toasts s, es_calls s,
     es_timer s, es_auth s)"

lemma visible_answer [simp]: "visible (answer b s) = visible s"
  by (simp add: visible_def)

lemma visible_load_part [simp]: "visible (load_part_done j s) = visible s"
  by (simp add: visible_def)

lemma visible_finally [simp]: "visible (finally_detail b n s) = visible s"
  by (simp add: visible_def)



text \<open>A continuation belongs to one session: what follows a refresh checks the same generation.\<close>

definition own_session :: "continuation \<Rightarrow> nat \<Rightarrow> bool" where
  "own_session k g \<longleftrightarrow> cont_session k = Some g \<and> (\<forall>g' n. cont_after k = BulkRest g' n \<longrightarrow> g' = g)"

definition pending_ok :: "entries_state \<Rightarrow> continuation \<Rightarrow> bool" where
  "pending_ok s k \<longleftrightarrow> cont_session k = None \<or> (\<exists>g \<le> es_session s. own_session k g)"

definition pendings_ok :: "entries_state \<Rightarrow> bool" where
  "pendings_ok s \<longleftrightarrow> (\<forall>k \<in> set (es_pending s). pending_ok s k)"

lemma auth_keeps_start [simp]:
  "es_auth (loadAll s) = es_auth s"
  "es_auth (selectEntryById x s) = es_auth s"
  "es_auth (fireAutoSync s) = es_auth s"
  "es_auth (updateEntry uuid now e s) = es_auth s"
  "es_auth (updateBreachStatus i b s) = es_auth s"
  "es_auth (saveVault s) = es_auth s"
  "es_auth (addEntry uuid now e s) = es_auth s"
  "es_auth (deleteEntry i s) = es_auth s"
  "es_auth (deleteAttachment i a s) = es_auth s"
  "es_auth (toggleFavorite i s) = es_auth s"
  "es_auth (togglePin i s) = es_auth s"
  "es_auth (toggleEntrySelection i m r l s) = es_auth s"
  "es_auth (clearSelection s) = es_auth s"
  "es_auth (bulkUpdateEntries ids u a' d md s) = es_auth s"
  "es_auth (bulkDeleteEntries ids s) = es_auth s"
  "es_auth (addTag t s) = es_auth s"
  "es_auth (updateTag i tu s) = es_auth s"
  "es_auth (removeTag i s) = es_auth s"
  "es_auth (reorderTags ts s) = es_auth s"
  "es_auth (content_changed s) = es_auth s"
  "es_auth (change_settings st s) = es_auth s"
  "es_auth (commit_render s) = es_auth s"
  by (auto simp: start_defs finish_defs Let_def split: option.splits prod.splits)

lemma apply_update_auth [simp]: "es_auth (apply_update i u s) = es_auth s"
  by (simp add: apply_update_def)



lemma take_up_keeps [simp]:
  "es_auth (take_up i s) = es_auth s" "es_backend (take_up i s) = es_backend s" "es_vault (take_up i s) = es_vault s"
  "es_locked (take_up i s) = es_locked s" "es_settings (take_up i s) = es_settings s" "es_entries (take_up i s) = es_entries s"
  "es_rawTags (take_up i s) = es_rawTags s" "es_selected (take_up i s) = es_selected s"
  "es_selectedIds (take_up i s) = es_selectedIds s" "es_loadingEntries (take_up i s) = es_loadingEntries s"
  "es_loadingDetail (take_up i s) = es_loadingDetail s" "es_selectedRef (take_up i s) = es_selectedRef s"
  "es_rawTagsRef (take_up i s) = es_rawTagsRef s" "es_selectionSeq (take_up i s) = es_selectionSeq s"
  "es_refreshSeq (take_up i s) = es_refreshSeq s" "es_tagRefreshSeq (take_up i s) = es_tagRefreshSeq s"
  "es_timer (take_up i s) = es_timer s" "es_calls (take_up i s) = es_calls s" "es_toasts (take_up i s) = es_toasts s"
  "es_answers (take_up i s) = es_answers s" "es_closure (take_up i s) = es_captured s ! i"
  "es_pending (take_up i s) = take i (es_pending s) @ drop (Suc i) (es_pending s)"
  by (simp_all add: take_up_def)

lemma give_back_keeps [simp]:
  "es_auth (give_back s) = es_auth s" "es_backend (give_back s) = es_backend s" "es_vault (give_back s) = es_vault s"
  "es_locked (give_back s) = es_locked s" "es_settings (give_back s) = es_settings s" "es_entries (give_back s) = es_entries s"
  "es_rawTags (give_back s) = es_rawTags s" "es_selected (give_back s) = es_selected s"
  "es_selectedIds (give_back s) = es_selectedIds s" "es_loadingEntries (give_back s) = es_loadingEntries s"
  "es_loadingDetail (give_back s) = es_loadingDetail s" "es_selectedRef (give_back s) = es_selectedRef s"
  "es_rawTagsRef (give_back s) = es_rawTagsRef s" "es_selectionSeq (give_back s) = es_selectionSeq s"
  "es_refreshSeq (give_back s) = es_refreshSeq s" "es_tagRefreshSeq (give_back s) = es_tagRefreshSeq s"
  "es_timer (give_back s) = es_timer s" "es_calls (give_back s) = es_calls s" "es_toasts (give_back s) = es_toasts s"
  "es_answers (give_back s) = es_answers s" "es_pending (give_back s) = es_pending s"
  "es_captured (give_back s) = es_captured s"
  by (simp_all add: give_back_def)

lemma visible_settle: "i < length (es_pending s) \<Longrightarrow> es_pending s ! i = k \<Longrightarrow>
    visible (settle i r s) = visible (resume k r (take_up i s)) \<and> visible (take_up i s) = visible s"
  by (simp add: settle_def visible_def)





lemma pendings_ok_add:
  "pendings_ok s \<Longrightarrow> es_session s = es_session s' \<Longrightarrow> es_pending s' = es_pending s @ [k] \<Longrightarrow> pending_ok s k \<Longrightarrow>
   pendings_ok s'"
  by (auto simp: pendings_ok_def pending_ok_def)

definition after_ok :: "entries_state \<Rightarrow> after_refresh \<Rightarrow> bool" where
  "after_ok s k \<longleftrightarrow> (\<forall>g n. k = BulkRest g n \<longrightarrow> g = es_session s)"

lemma pending_ok_now [simp]:
  "cont_session k = Some (es_session s) \<Longrightarrow> cont_after k = Nothing \<Longrightarrow> pending_ok s k"
  by (auto simp: pending_ok_def own_session_def)

lemma pendings_ok_await [simp]: "pendings_ok (await_call c k s) \<longleftrightarrow> pendings_ok s \<and> pending_ok s k"
  by (auto simp: pendings_ok_def pending_ok_def await_call_def)

lemma pendings_ok_wait [simp]: "pendings_ok (wait_timer k s) \<longleftrightarrow> pendings_ok s \<and> pending_ok s k"
  by (auto simp: pendings_ok_def pending_ok_def wait_timer_def)

lemma pendings_ok_same [simp]:
  "pendings_ok (triggerAutoSync s) = pendings_ok s"
  "pendings_ok (addToast m t s) = pendings_ok s"
  "pendings_ok (answer b s) = pendings_ok s"
  "pendings_ok (err_toast g m s) = pendings_ok s"
  "pendings_ok (map_entries f s) = pendings_ok s"
  "pendings_ok (map_selected f s) = pendings_ok s"
  "pendings_ok (setSelectedEntry x s) = pendings_ok s"
  "pendings_ok (delete_local ids s) = pendings_ok s"
  "pendings_ok (finish_bulk_update n s) = pendings_ok s"
  "pendings_ok (finally_detail b n s) = pendings_ok s"
  "pendings_ok (s\<lparr>es_entries := x1\<rparr>) = pendings_ok s"
  "pendings_ok (s\<lparr>es_rawTags := x2\<rparr>) = pendings_ok s"
  "pendings_ok (s\<lparr>es_selected := x3\<rparr>) = pendings_ok s"
  "pendings_ok (s\<lparr>es_selectedIds := x4\<rparr>) = pendings_ok s"
  "pendings_ok (s\<lparr>es_loadingEntries := x5\<rparr>) = pendings_ok s"
  "pendings_ok (s\<lparr>es_loadingDetail := x6\<rparr>) = pendings_ok s"
  "pendings_ok (s\<lparr>es_loads := x7\<rparr>) = pendings_ok s"
  "pendings_ok (s\<lparr>es_timer := x8\<rparr>) = pendings_ok s"
  "pendings_ok (s\<lparr>es_now := x9\<rparr>) = pendings_ok s"
  "pendings_ok (s\<lparr>es_selectionSeq := x10\<rparr>) = pendings_ok s"
  "pendings_ok (s\<lparr>es_refreshSeq := x10\<rparr>) = pendings_ok s"
  "pendings_ok (s\<lparr>es_tagRefreshSeq := x10\<rparr>) = pendings_ok s"
  by (simp_all add: pendings_ok_def pending_ok_def)

lemma pending_ok_timer [simp]: "cont_session k = None \<Longrightarrow> pending_ok s k"
  by (simp add: pending_ok_def)

lemma pendings_ok_load_part [simp]: "pendings_ok (load_part_done j s) = pendings_ok s"
  by (simp add: load_part_done_def Let_def split: prod.split)

lemma pendings_ok_after [simp]: "pendings_ok (after_refresh_done k s) = pendings_ok s"
  by (cases k) (simp_all add: after_refresh_done_def)

lemma pendings_ok_refresh:
  "after_ok s k \<Longrightarrow> pendings_ok s \<Longrightarrow> pendings_ok (fst (refreshEntries k s))"
  "after_ok s k \<Longrightarrow> pendings_ok s \<Longrightarrow> pendings_ok (fst (refreshTags k s))"
  by (auto simp: refreshEntries_def refreshTags_def pending_ok_def own_session_def after_ok_def Let_def)

lemma after_ok_simps [simp]: "after_ok s Nothing" "after_ok s (LoadPart j)" "after_ok s (BulkRest g n) \<longleftrightarrow> g = es_session s"
  by (auto simp: after_ok_def)

lemma pendings_ok_both [simp]: "pendings_ok s \<Longrightarrow> pendings_ok (refreshBoth s)"
  by (simp add: refreshBoth_def pendings_ok_refresh)

lemma pendings_ok_load [simp]: "pendings_ok s \<Longrightarrow> pendings_ok (loadAll s)"
  by (simp add: loadAll_def Let_def split_def pendings_ok_refresh)

lemma pendings_ok_finish [simp]:
  "pendings_ok (finish_delete ids s) = pendings_ok s"
  "pendings_ok (finish_deleteAttachment i a s) = pendings_ok s"
  "pendings_ok (finish_favorite i c s) = pendings_ok s"
  "pendings_ok (finish_pin i c s) = pendings_ok s"
  "pendings_ok (finish_addTag i t s) = pendings_ok s"
  "pendings_ok (finish_updateTag i old t s) = pendings_ok s"
  "pendings_ok (finish_removeTag i name s) = pendings_ok s"
  "pendings_ok (apply_update i u s) = pendings_ok s"
  "pendings_ok (set_breach i b s) = pendings_ok s"
  by (simp_all add: finish_defs)




















text \<open>
  The exception at work: locked and unlocked again, the answer of a sync of the old session asks for
  the list in the new one.
\<close>

lemma old_sync_refreshes:
  assumes "es_backend s" and "es_vault s \<noteq> None" and "es_current s (es_session s)"
    and "i < length (es_pending s)" and "es_pending s ! i = PAutoSync" and "stats_changed m"
  shows "es_calls (settle i (GotStats (Some m)) s) = es_calls s @ [ListEntries, GetTags]"
  using assms by (simp add: settle_def resume_autosync_def refreshBoth_def refreshEntries_def refreshTags_def await_call_def Let_def)

section \<open>Overtaken requests\<close>

lemma refreshSeq_start [simp]:
  "es_refreshSeq (selectEntryById x s) = es_refreshSeq s"
  "es_refreshSeq (fireAutoSync s) = es_refreshSeq s"
  "es_refreshSeq (updateEntry uuid now e s) = es_refreshSeq s"
  "es_refreshSeq (updateBreachStatus i b s) = es_refreshSeq s"
  "es_refreshSeq (saveVault s) = es_refreshSeq s"
  "es_refreshSeq (addEntry uuid now e s) = es_refreshSeq s"
  "es_refreshSeq (deleteEntry i s) = es_refreshSeq s"
  "es_refreshSeq (deleteAttachment i a s) = es_refreshSeq s"
  "es_refreshSeq (toggleFavorite i s) = es_refreshSeq s"
  "es_refreshSeq (togglePin i s) = es_refreshSeq s"
  "es_refreshSeq (toggleEntrySelection i m r l s) = es_refreshSeq s"
  "es_refreshSeq (clearSelection s) = es_refreshSeq s"
  "es_refreshSeq (bulkUpdateEntries ids u a' d md s) = es_refreshSeq s"
  "es_refreshSeq (bulkDeleteEntries ids s) = es_refreshSeq s"
  "es_refreshSeq (addTag t s) = es_refreshSeq s"
  "es_refreshSeq (updateTag i tu s) = es_refreshSeq s"
  "es_refreshSeq (removeTag i s) = es_refreshSeq s"
  "es_refreshSeq (reorderTags ts s) = es_refreshSeq s"
  "es_refreshSeq (change_settings st s) = es_refreshSeq s"
  "es_refreshSeq (commit_render s) = es_refreshSeq s"
  by (auto simp: start_defs finish_defs Let_def split: option.splits prod.splits)

lemma refreshSeq_refresh [simp]:
  "es_refreshSeq s \<le> es_refreshSeq (fst (refreshEntries k s))"
  "es_refreshSeq s \<le> es_refreshSeq (refreshBoth s)"
  "es_refreshSeq s \<le> es_refreshSeq (content_changed s)"
  by (auto simp: refreshBoth_def refreshEntries_def content_changed_def Let_def)

lemma refreshSeq_load [simp]: "es_refreshSeq s \<le> es_refreshSeq (loadAll s)"
  by (auto simp: loadAll_def split_def Let_def intro: order_trans [OF _ refreshSeq_refresh(1)])

lemma refreshSeq_resume: "es_refreshSeq s \<le> es_refreshSeq (resume k r s)"
  by (cases k)
     (auto simp: resume_defs finish_defs Let_def split_def split: response.splits option.splits)

lemma refreshSeq_settle [simp]: "es_refreshSeq s \<le> es_refreshSeq (settle n r s)"
  using refreshSeq_resume [of "take_up n s"] by (simp add: settle_def)

lemma refreshSeq_step: "es_refreshSeq s \<le> es_refreshSeq (entries_step e s)"
  by (cases e) simp_all

end
