(* ===== verification/Entries_Races.thy ===== *)
theory Entries_Races
  imports Entries_Laws
begin

text \<open>
  Requests of a mounted \<open>EntriesSession\<close> that overlap: of several refreshes, and of several selections,
  only the newest counts, in every order of the answers. A refresh is recognised by the call it makes
  and a selection by its event, not by the counters that \<open>EntriesContext.provider.tsx\<close> compares.
\<close>

section \<open>Refreshes and their calls\<close>

text \<open>Every request for the list raises the counter of the refreshes by one: the difference of both is fixed.\<close>

definition list_calls :: "entries_state \<Rightarrow> nat" where
  "list_calls s = length (filter (\<lambda>c. c = ListEntries) (es_calls s))"

definition balance :: "entries_state \<Rightarrow> int" where
  "balance s = int (list_calls s) - int (es_refreshSeq s)"

lemma balance_frame: "es_calls t = es_calls s \<Longrightarrow> es_refreshSeq t = es_refreshSeq s \<Longrightarrow> balance t = balance s"
  by (simp add: balance_def list_calls_def)

lemma balance_await [simp]: "c \<noteq> ListEntries \<Longrightarrow> balance (await_call c k s) = balance s"
  by (simp add: balance_def list_calls_def await_call_def)

lemma balance_refresh [simp]:
  "balance (fst (refreshEntries k s)) = balance s" "balance (fst (refreshTags k s)) = balance s"
  by (simp_all add: balance_def list_calls_def refreshEntries_def refreshTags_def await_call_def Let_def)

lemma balance_both [simp]: "balance (refreshBoth s) = balance s"
  by (simp add: refreshBoth_def)

lemma balance_frames [simp]:
  "balance (triggerAutoSync s) = balance s" "balance (addToast m t s) = balance s"
  "balance (answer b s) = balance s" "balance (err_toast g m s) = balance s"
  "balance (map_entries f s) = balance s" "balance (map_selected f s) = balance s"
  "balance (setSelectedEntry x s) = balance s" "balance (wait_timer k s) = balance s"
  "balance (delete_local ids s) = balance s" "balance (load_part_done j s) = balance s"
  "balance (after_refresh_done ar s) = balance s" "balance (finally_detail b n s) = balance s"
  "balance (finish_bulk_update n s) = balance s" "balance (take_up i s) = balance s" "balance (give_back s) = balance s"
  "balance (s\<lparr>es_entries := x1\<rparr>) = balance s" "balance (s\<lparr>es_rawTags := x2\<rparr>) = balance s"
  "balance (s\<lparr>es_selected := x3\<rparr>) = balance s" "balance (s\<lparr>es_selectedIds := x4\<rparr>) = balance s"
  "balance (s\<lparr>es_loadingEntries := x5\<rparr>) = balance s" "balance (s\<lparr>es_loadingDetail := x6\<rparr>) = balance s"
  "balance (s\<lparr>es_loads := x7\<rparr>) = balance s" "balance (s\<lparr>es_timer := x8\<rparr>) = balance s"
  "balance (s\<lparr>es_now := x9\<rparr>) = balance s" "balance (s\<lparr>es_selectionSeq := x10\<rparr>) = balance s"
  "balance (s\<lparr>es_auth := x11\<rparr>) = balance s"
  by (rule balance_frame; simp)+

lemma balance_start [simp]:
  "balance (selectEntryById x s) = balance s"
  "balance (updateEntry uuid now e s) = balance s"
  "balance (updateBreachStatus i b s) = balance s"
  "balance (saveVault s) = balance s"
  "balance (addEntry uuid now e s) = balance s"
  "balance (deleteEntry i s) = balance s"
  "balance (deleteAttachment i a s) = balance s"
  "balance (toggleFavorite i s) = balance s"
  "balance (togglePin i s) = balance s"
  "balance (toggleEntrySelection i m r l s) = balance s"
  "balance (clearSelection s) = balance s"
  "balance (bulkUpdateEntries ids u a' d md s) = balance s"
  "balance (bulkDeleteEntries ids s) = balance s"
  "balance (addTag t s) = balance s"
  "balance (updateTag i tu s) = balance s"
  "balance (removeTag i s) = balance s"
  "balance (reorderTags ts s) = balance s"
  "balance (content_changed s) = balance s"
  "balance (loadAll s) = balance s"
  "balance (fireAutoSync s) = balance s"
  by (auto simp: start_defs finish_defs loadAll_def split_def Let_def split: option.splits)

lemma balance_settings [simp]: "balance (change_settings st s) = balance s" "balance (commit_render s) = balance s"
  by (rule balance_frame; simp add: change_settings_def commit_render_def)+

lemma balance_resume [simp]: "balance (resume k r s) = balance s"
  by (cases k)
     (auto simp: resume_defs finish_defs Let_def split_def split: response.splits option.splits)

lemma balance_step: "balance (entries_step e s) = balance s"
  by (cases e) (simp_all add: settle_def)

section \<open>The latest selection\<close>

lemma selectionSeq_start [simp]:
  "es_selectionSeq (fireAutoSync s) = es_selectionSeq s"
  "es_selectionSeq (updateEntry uuid now e s) = es_selectionSeq s"
  "es_selectionSeq (updateBreachStatus i b s) = es_selectionSeq s"
  "es_selectionSeq (saveVault s) = es_selectionSeq s"
  "es_selectionSeq (addEntry uuid now e s) = es_selectionSeq s"
  "es_selectionSeq (deleteEntry i s) = es_selectionSeq s"
  "es_selectionSeq (deleteAttachment i a s) = es_selectionSeq s"
  "es_selectionSeq (toggleFavorite i s) = es_selectionSeq s"
  "es_selectionSeq (togglePin i s) = es_selectionSeq s"
  "es_selectionSeq (toggleEntrySelection i m r l s) = es_selectionSeq s"
  "es_selectionSeq (clearSelection s) = es_selectionSeq s"
  "es_selectionSeq (bulkUpdateEntries ids u a' d md s) = es_selectionSeq s"
  "es_selectionSeq (bulkDeleteEntries ids s) = es_selectionSeq s"
  "es_selectionSeq (addTag t s) = es_selectionSeq s"
  "es_selectionSeq (updateTag i tu s) = es_selectionSeq s"
  "es_selectionSeq (removeTag i s) = es_selectionSeq s"
  "es_selectionSeq (reorderTags ts s) = es_selectionSeq s"
  "es_selectionSeq (content_changed s) = es_selectionSeq s"
  "es_selectionSeq (change_settings st s) = es_selectionSeq s"
  "es_selectionSeq (commit_render s) = es_selectionSeq s"
  "es_selectionSeq (loadAll s) = es_selectionSeq s"
  by (auto simp: start_defs finish_defs loadAll_def split_def Let_def split: option.splits)

lemma selectionSeq_select [simp]: "es_selectionSeq (selectEntryById x s) = Suc (es_selectionSeq s)"
  by (simp add: selectEntryById_def select_mock_rest_def Let_def)

lemma selectionSeq_resume [simp]: "es_selectionSeq (resume k r s) = es_selectionSeq s"
  by (cases k)
     (auto simp: resume_defs finish_defs Let_def split_def split: response.splits option.splits)

lemma selectionSeq_step: "es_selectionSeq s \<le> es_selectionSeq (entries_step e s)"
  by (cases e) (simp_all add: settle_def)

section \<open>Counters of what waits\<close>

fun refresh_counter :: "continuation \<Rightarrow> nat" where
  "refresh_counter (PList g n a) = n"
| "refresh_counter (PDetail g n m i a) = n"
| "refresh_counter _ = 0"

fun select_counter :: "continuation \<Rightarrow> nat" where
  "select_counter (PSelect g n i same start) = n"
| "select_counter (PSelectDelay g n e) = n"
| "select_counter (PSelectMock g n i same es) = n"
| "select_counter _ = 0"

definition counted :: "entries_state \<Rightarrow> continuation \<Rightarrow> bool" where
  "counted s k \<longleftrightarrow> refresh_counter k \<le> es_refreshSeq s \<and> select_counter k \<le> es_selectionSeq s"

definition all_counted :: "entries_state \<Rightarrow> bool" where
  "all_counted s \<longleftrightarrow> (\<forall>k \<in> set (es_pending s). counted s k)"

lemma counted_frame:
  "es_refreshSeq t = es_refreshSeq s \<Longrightarrow> es_selectionSeq t = es_selectionSeq s \<Longrightarrow> es_pending t = es_pending s \<Longrightarrow>
   all_counted t = all_counted s"
  by (simp add: all_counted_def counted_def)

lemma counted_frames [simp]:
  "all_counted (triggerAutoSync s) = all_counted s" "all_counted (addToast m t s) = all_counted s"
  "all_counted (answer b s) = all_counted s" "all_counted (err_toast g m s) = all_counted s"
  "all_counted (map_entries f s) = all_counted s" "all_counted (map_selected f s) = all_counted s"
  "all_counted (setSelectedEntry x s) = all_counted s"
  "all_counted (delete_local ids s) = all_counted s" "all_counted (finally_detail b n s) = all_counted s"
  "all_counted (finish_bulk_update n s) = all_counted s" "all_counted (give_back s) = all_counted s"
  "all_counted (s\<lparr>es_entries := x1\<rparr>) = all_counted s" "all_counted (s\<lparr>es_rawTags := x2\<rparr>) = all_counted s"
  "all_counted (s\<lparr>es_selected := x3\<rparr>) = all_counted s" "all_counted (s\<lparr>es_selectedIds := x4\<rparr>) = all_counted s"
  "all_counted (s\<lparr>es_loadingEntries := x5\<rparr>) = all_counted s" "all_counted (s\<lparr>es_loadingDetail := x6\<rparr>) = all_counted s"
  "all_counted (s\<lparr>es_loads := x7\<rparr>) = all_counted s" "all_counted (s\<lparr>es_timer := x8\<rparr>) = all_counted s"
  "all_counted (s\<lparr>es_now := x9\<rparr>) = all_counted s" "all_counted (s\<lparr>es_auth := x11\<rparr>) = all_counted s"
  by (rule counted_frame; simp)+

lemma counted_await [simp]: "all_counted (await_call c k s) \<longleftrightarrow> all_counted s \<and> counted s k"
  by (auto simp: all_counted_def counted_def await_call_def)

lemma counted_wait [simp]: "all_counted (wait_timer k s) \<longleftrightarrow> all_counted s \<and> counted s k"
  by (auto simp: all_counted_def counted_def wait_timer_def)

lemma counted_selection [simp]: "all_counted s \<Longrightarrow> all_counted (s\<lparr>es_selectionSeq := Suc (es_selectionSeq s)\<rparr>)"
  by (auto simp: all_counted_def counted_def)

lemma counted_load [simp]: "all_counted (load_part_done j s) = all_counted s"
  by (simp add: load_part_done_def counted_def Let_def split: prod.split)

lemma counted_after [simp]: "all_counted (after_refresh_done a s) = all_counted s"
  by (cases a) (simp_all add: after_refresh_done_def)

lemma counted_refresh [simp]:
  "all_counted s \<Longrightarrow> all_counted (fst (refreshEntries a s))" "all_counted s \<Longrightarrow> all_counted (fst (refreshTags a s))"
  by (auto simp: refreshEntries_def refreshTags_def await_call_def all_counted_def counted_def Let_def)

lemma counted_both [simp]: "all_counted s \<Longrightarrow> all_counted (refreshBoth s)"
  by (simp add: refreshBoth_def)

lemma counted_start [simp]:
  "all_counted s \<Longrightarrow> all_counted (selectEntryById x s)"
  "all_counted s \<Longrightarrow> all_counted (updateEntry uuid now e s)"
  "all_counted s \<Longrightarrow> all_counted (updateBreachStatus i b s)"
  "all_counted s \<Longrightarrow> all_counted (saveVault s)"
  "all_counted s \<Longrightarrow> all_counted (addEntry uuid now e s)"
  "all_counted s \<Longrightarrow> all_counted (deleteEntry i s)"
  "all_counted s \<Longrightarrow> all_counted (deleteAttachment i a s)"
  "all_counted s \<Longrightarrow> all_counted (toggleFavorite i s)"
  "all_counted s \<Longrightarrow> all_counted (togglePin i s)"
  "all_counted s \<Longrightarrow> all_counted (toggleEntrySelection i m r l s)"
  "all_counted s \<Longrightarrow> all_counted (clearSelection s)"
  "all_counted s \<Longrightarrow> all_counted (bulkUpdateEntries ids u a' d md s)"
  "all_counted s \<Longrightarrow> all_counted (bulkDeleteEntries ids s)"
  "all_counted s \<Longrightarrow> all_counted (addTag t s)"
  "all_counted s \<Longrightarrow> all_counted (updateTag i tu s)"
  "all_counted s \<Longrightarrow> all_counted (removeTag i s)"
  "all_counted s \<Longrightarrow> all_counted (reorderTags ts s)"
  "all_counted s \<Longrightarrow> all_counted (content_changed s)"
  "all_counted s \<Longrightarrow> all_counted (loadAll s)"
  "all_counted s \<Longrightarrow> all_counted (fireAutoSync s)"
  by (auto simp: start_defs finish_defs loadAll_def counted_def split_def Let_def split: option.splits)

lemma counted_settings [simp]:
  "all_counted (change_settings st s) = all_counted s" "all_counted (commit_render s) = all_counted s"
  by (rule counted_frame; simp add: change_settings_def commit_render_def)+

lemma counted_resume: "all_counted s \<Longrightarrow> counted s k \<Longrightarrow> all_counted (resume k r s)"
  by (cases k)
     (auto simp: resume_defs finish_defs counted_def Let_def split_def split: response.splits option.splits)

lemma counted_settle: "all_counted s \<Longrightarrow> all_counted (settle i r s)"
proof (cases "i < length (es_pending s)")
  case True
  assume ok: "all_counted s"
  then have "counted s (es_pending s ! i)" using True by (simp add: all_counted_def)
  moreover have "all_counted (take_up i s)"
    using ok by (auto simp: all_counted_def counted_def dest: in_set_takeD in_set_dropD)
  ultimately show ?thesis using True by (simp add: settle_def counted_resume counted_def)
qed (simp add: settle_def)

lemma counted_step: "all_counted s \<Longrightarrow> all_counted (entries_step e s)"
  by (cases e) (simp_all add: counted_settle)

interpretation counters: invariant_machine entries_step all_counted
  by unfold_locales (rule counted_step)

lemma counted_mount: "all_counted (mount_session auth backend settings)"
  by (simp add: all_counted_def mount_session_def Let_def)

section \<open>Overlapping refreshes\<close>

fun is_refresh :: "continuation \<Rightarrow> bool" where
  "is_refresh (PList g n a) = True"
| "is_refresh (PDetail g n m i a) = True"
| "is_refresh _ = False"

text \<open>The data a refresh touches, and the calls.\<close>

definition refreshed :: "entries_state \<Rightarrow> password_entry list \<times> password_entry option \<times> call list" where
  "refreshed s = (es_entries s, es_selected s, es_calls s)"

lemma refreshed_after [simp]: "refreshed (after_refresh_done a s) = refreshed s"
  by (simp add: refreshed_def)

fun plain_after :: "after_refresh \<Rightarrow> bool" where
  "plain_after (BulkRest g n) = False"
| "plain_after a = True"

lemma toasts_after: "plain_after a \<Longrightarrow> es_toasts (after_refresh_done a s) = es_toasts s"
  by (cases a) (simp_all add: after_refresh_done_def load_part_done_def Let_def split: prod.split)

lemma overtaken_refresh:
  assumes "is_refresh k" and "refresh_counter k \<noteq> es_refreshSeq s"
  shows "refreshed (resume k r s) = refreshed s \<and> (plain_after (cont_after k) \<longrightarrow> es_toasts (resume k r s) = es_toasts s)"
  using assms
  by (cases k) (auto simp: resume_list_def resume_detail_def request_current_def Let_def toasts_after split: response.split)

interpretation refresh: token_machine entries_step es_refreshSeq
  "\<lambda>t (i, r) s. if i < length (es_pending s) \<and> is_refresh (es_pending s ! i) \<and> refresh_counter (es_pending s ! i) = t
                then settle i r s else s" refreshed
proof unfold_locales
  fix s :: entries_state and e show "es_refreshSeq s \<le> es_refreshSeq (entries_step e s)" by (rule refreshSeq_step)
next
  fix t and r :: "nat \<times> response" and s :: entries_state
  assume t: "t \<noteq> es_refreshSeq s"
  have frame: "refreshed (take_up i s) = refreshed s" "refreshed (give_back u) = refreshed u" for i u
    by (simp_all add: refreshed_def)
  obtain i a where r: "r = (i, a)" by (cases r)
  show "refreshed ((\<lambda>(i, r) s. if i < length (es_pending s) \<and> is_refresh (es_pending s ! i) \<and>
      refresh_counter (es_pending s ! i) = t then settle i r s else s) r s) = refreshed s"
    using overtaken_refresh [of "es_pending s ! i" "take_up i s" a] t by (simp add: r settle_def frame)
qed

text \<open>
  Claim C10. Of overlapping refreshes only the newest counts. Let a refresh be waiting (for its list, or for
  the reload of the selected entry) when a step, whichever it is, asks the back end for the list again; then
  the answer to the older one, whenever it arrives, leaves the list, the selection and the calls as they are,
  and the toasts too unless the refresh was the last part of a bulk update, which reports its own success.
\<close>

theorem newest_refresh_wins:
  assumes "s = run entries_step es (mount_session auth backend settings)"
    and "k \<in> set (es_pending s)" and "is_refresh k"
    and "length (filter (\<lambda>c. c = ListEntries) (es_calls s)) <
         length (filter (\<lambda>c. c = ListEntries) (es_calls (entries_step e s)))"
    and "s' = run entries_step es' (entries_step e s)"
    and "i < length (es_pending s')" and "es_pending s' ! i = k"
  shows "refreshed (settle i r s') = refreshed s' \<and>
         (plain_after (cont_after k) \<longrightarrow> es_toasts (settle i r s') = es_toasts s')"
proof -
  have "all_counted s" unfolding assms(1) by (rule counters.run_inv [OF counted_mount])
  then have "refresh_counter k \<le> es_refreshSeq s" using assms(2) by (simp add: all_counted_def counted_def)
  moreover have "es_refreshSeq s < es_refreshSeq (entries_step e s)"
    using balance_step [of e s] assms(4) by (simp add: balance_def list_calls_def)
  moreover have "es_refreshSeq (entries_step e s) \<le> es_refreshSeq s'" unfolding assms(5) by (rule refresh.tok_run)
  ultimately have stale: "refresh_counter k \<noteq> es_refreshSeq (take_up i s')" by simp
  have "refreshed (take_up i s') = refreshed s'" "\<And>u. refreshed (give_back u) = refreshed u"
    by (simp_all add: refreshed_def)
  then show ?thesis using overtaken_refresh [OF assms(3) stale, of r] assms(6,7) by (simp add: settle_def)
qed

definition open_vault :: vault where
  "open_vault = \<lparr>va_id = ''v'', va_name = ''n'', va_path = ''p''\<rparr>"

definition open_session :: entries_state where
  "open_session = mount_session ((run auth_step [SetIsLocked False] (init_auth True))\<lparr>au_currentVault := Some open_vault\<rparr>) True DEFAULT_SETTINGS"

lemma open_session_eval:
  "es_backend open_session" "es_vault open_session = Some open_vault" "es_session open_session = 1"
  "es_current open_session 1" "es_pending open_session = []" "es_calls open_session = []"
  "es_refreshSeq open_session = 0" "es_selectionSeq open_session = 0"
  by (simp_all add: open_session_def mount_session_def isSessionCurrent_def getSessionGeneration_def init_auth_def
      setIsLocked_def bump_generation_def Let_def)

theorem newest_refresh_wins_witness:
  "let s' = run entries_step [RefreshEntries, RefreshEntries] open_session
   in es_pending s' = [PList 1 1 Nothing, PList 1 2 Nothing] \<and>
      refreshed (settle 0 (GotPreviews []) s') = refreshed s'"
proof -
  let ?s = "run entries_step [RefreshEntries] open_session"
  let ?s' = "run entries_step [] (entries_step RefreshEntries ?s)"
  have ev: "es_pending ?s = [PList 1 1 Nothing]" "es_pending ?s' = [PList 1 1 Nothing, PList 1 2 Nothing]"
    "es_calls ?s = [ListEntries]" "es_calls (entries_step RefreshEntries ?s) = [ListEntries, ListEntries]"
    using open_session_eval by (simp_all add: refreshEntries_def await_call_def Let_def)
  then have "PList 1 1 Nothing \<in> set (es_pending ?s)" "is_refresh (PList 1 1 Nothing)"
    "length (filter (\<lambda>c. c = ListEntries) (es_calls ?s)) <
       length (filter (\<lambda>c. c = ListEntries) (es_calls (entries_step RefreshEntries ?s)))"
    "0 < length (es_pending ?s')" "es_pending ?s' ! 0 = PList 1 1 Nothing" by simp_all
  from newest_refresh_wins [OF _ this(1-3) refl this(4,5), of _ _ _ _ "GotPreviews []"]
  have "refreshed (settle 0 (GotPreviews []) ?s') = refreshed ?s'" unfolding open_session_def by blast
  with ev show ?thesis by (simp only: Let_def run_Cons run_Nil simp_thms)
qed

section \<open>Overlapping selections\<close>

definition detail_view :: "entries_state \<Rightarrow> password_entry option \<times> bool \<times> (message \<times> toast_type) list \<times> call list" where
  "detail_view s = (es_selected s, es_loadingDetail s, es_toasts s, es_calls s)"

fun is_select :: "continuation \<Rightarrow> bool" where
  "is_select (PSelect g n i same start) = True"
| "is_select (PSelectDelay g n e) = True"
| "is_select (PSelectMock g n i same es) = True"
| "is_select _ = False"

lemma overtaken_select:
  assumes "is_select k" and "select_counter k \<noteq> es_selectionSeq s"
  shows "detail_view (resume k r s) = detail_view s"
  using assms
  by (cases k)
     (auto simp: resume_select_def resume_select_delay_def select_mock_rest_def finally_detail_def split: response.split)

interpretation selection: token_machine entries_step es_selectionSeq
  "\<lambda>t (k, r) s. if is_select k \<and> select_counter k = t then resume k r s else s" detail_view
proof unfold_locales
  fix s :: entries_state and e show "es_selectionSeq s \<le> es_selectionSeq (entries_step e s)" by (rule selectionSeq_step)
next
  fix t r and s :: entries_state
  assume "t \<noteq> es_selectionSeq s"
  then show "detail_view ((\<lambda>(k, r) s. if is_select k \<and> select_counter k = t then resume k r s else s) r s) = detail_view s"
    by (auto simp: overtaken_select split: prod.split)
qed

text \<open>
  Claim C11. The detail pane shows the entry clicked last: if a selection is waiting (for its entry, for the
  end of its delay) when another one is made, whichever entry it names or none, the answer to the first, whenever
  it arrives, changes neither the selected entry nor the loading flag nor the toasts, and calls nothing.
\<close>

theorem latest_selection_wins:
  assumes "s = run entries_step es (mount_session auth backend settings)"
    and "k \<in> set (es_pending s)" and "is_select k"
    and "s' = run entries_step es' (entries_step (Select x) s)"
    and "i < length (es_pending s')" and "es_pending s' ! i = k"
  shows "detail_view (settle i r s') = detail_view s'"
proof -
  have "all_counted s" unfolding assms(1) by (rule counters.run_inv [OF counted_mount])
  then have "select_counter k \<le> es_selectionSeq s" using assms(2) by (simp add: all_counted_def counted_def)
  moreover have "es_selectionSeq s < es_selectionSeq (entries_step (Select x) s)" by simp
  moreover have "es_selectionSeq (entries_step (Select x) s) \<le> es_selectionSeq s'" unfolding assms(4) by (rule selection.tok_run)
  ultimately have stale: "select_counter k \<noteq> es_selectionSeq (take_up i s')" by simp
  have "detail_view (take_up i s') = detail_view s'" "\<And>u. detail_view (give_back u) = detail_view u"
    by (simp_all add: detail_view_def)
  then show ?thesis using overtaken_select [OF assms(3) stale, of r] assms(5,6) by (simp add: settle_def)
qed

theorem latest_selection_wins_witness:
  "let s' = run entries_step [Select (Some ''a''), Select (Some ''b'')] open_session
   in es_pending s' ! 0 = PSelect 1 1 ''a'' False (es_now open_session) \<and>
      detail_view (settle 0 (GotEntry sample_decrypted) s') = detail_view s'"
proof -
  let ?k = "PSelect 1 1 ''a'' False (es_now open_session)"
  let ?s = "run entries_step [Select (Some ''a'')] open_session"
  let ?s' = "run entries_step [] (entries_step (Select (Some ''b'')) ?s)"
  have ref: "es_selectedRef open_session = None" by (simp add: open_session_def mount_session_def Let_def)
  have ev: "es_pending ?s = [?k]" "es_pending ?s' ! 0 = ?k" "0 < length (es_pending ?s')"
    using open_session_eval ref by (simp_all add: selectEntryById_def await_call_def Let_def)
  then have "?k \<in> set (es_pending ?s)" "is_select ?k" by simp_all
  from latest_selection_wins [OF _ this refl ev(3,2), of _ _ _ _ "GotEntry sample_decrypted"]
  have "detail_view (settle 0 (GotEntry sample_decrypted) ?s') = detail_view ?s'" unfolding open_session_def by blast
  with ev show ?thesis by (simp only: Let_def run_Cons run_Nil simp_thms)
qed

end
