(* ===== verification/Entries_Behaviour.thy ===== *)
theory Entries_Behaviour
  imports Entries_Races
begin

text \<open>
  What the operations of a mounted \<open>EntriesSession\<close> achieve: deleted
  entries leave the list and every selection, tags stay consistent with the entries and their
  counts, range selection, the rollback of a failed reordering, and the gate of the automatic
  cloud sync.
\<close>

section \<open>The loading flag\<close>

text \<open>
  The loading flag is not the last word, though: while another entry is loading, returning to
  the one still shown leaves the flag up when both answers have arrived, so the pane keeps its
  skeleton.
\<close>

lemma select_shown_keeps_flag:
  assumes "es_backend s" and "es_current s (es_session s)" and "map_option pe_id (es_selectedRef s) = Some i"
    and "i \<noteq> []"
  shows "selectEntryById (Some i) s =
     s\<lparr>es_selectionSeq := Suc (es_selectionSeq s), es_calls := es_calls s @ [GetEntry i],
       es_pending := es_pending s @ [PSelect (es_session s) (Suc (es_selectionSeq s)) i True (es_now s)],
       es_captured := es_captured s @ [es_closure s]\<rparr>"
  using assms by (simp add: selectEntryById_def await_call_def Let_def)

lemma flag_after_overtaken:
  "n \<noteq> es_selectionSeq s \<Longrightarrow> es_loadingDetail (resume (PSelect g n i same t) (GotEntry d) s) = es_loadingDetail s"
  by (simp add: resume_select_def finally_detail_def)

lemma flag_after_shown:
  "es_loadingDetail (resume (PSelect g n i True t) (GotEntry d) s) = es_loadingDetail s"
  by (simp add: resume_select_def finally_detail_def setSelectedEntry_def Let_def)

lemma detail_skeleton_stuck:
  assumes "es_backend s" and "es_current s (es_session s)" and "map_option pe_id (es_selectedRef s) = Some i"
    and "i \<noteq> []" and "es_loadingDetail s" and "es_pending s = [PSelect (es_session s) (es_selectionSeq s) j False t]"
  shows "es_loadingDetail (run entries_step [Select (Some i), Settle 0 (GotEntry a), Settle 0 (GotEntry b)] s)"
proof -
  let ?s1 = "selectEntryById (Some i) s"
  let ?s2 = "settle 0 (GotEntry a) ?s1"
  have s1: "es_pending ?s1 = [PSelect (es_session s) (es_selectionSeq s) j False t,
      PSelect (es_session s) (Suc (es_selectionSeq s)) i True (es_now s)]" "es_loadingDetail ?s1"
      "es_selectionSeq ?s1 = Suc (es_selectionSeq s)"
    using assms by (simp_all add: select_shown_keeps_flag)
  then have s2: "es_loadingDetail ?s2"
    "es_pending ?s2 = [PSelect (es_session s) (Suc (es_selectionSeq s)) i True (es_now s)]"
    by (simp_all add: settle_def flag_after_overtaken del: resume.simps)
      (simp add: resume_select_def finally_detail_def)
  then show ?thesis by (simp add: settle_def flag_after_shown del: resume.simps)
qed

section \<open>Deletion\<close>



lemma finish_delete_rest:
  "filter (\<lambda>e. pe_id e \<notin> set ids) (es_entries (finish_delete ids s)) = filter (\<lambda>e. pe_id e \<notin> set ids) (es_entries s)"
  by simp


text \<open>A confirmation and a refusal reach the continuation of the operation with the state of their moment.\<close>

lemma settle_at:
  "i < length (es_pending s) \<Longrightarrow> es_pending s ! i = k \<Longrightarrow> settle i r s = give_back (resume k r (take_up i s))"
  by (simp add: settle_def)






section \<open>Tags\<close>

lemma count_tags_get: "or_else (om_get (count_tags m ts) n) 0 = or_else (om_get m n) 0 + count_list ts n"
  by (induction m ts rule: count_tags.induct) auto

lemma fold_count_tags:
  "or_else (om_get (fold (\<lambda>e m. count_tags m (pe_tags e)) es m) n) 0 =
   or_else (om_get m n) 0 + (\<Sum>e \<leftarrow> es. count_list (pe_tags e) n)"
  by (induction es arbitrary: m) (simp_all add: count_tags_get)

lemma shown_tags_spec:
  "shown_tags ts es = map (\<lambda>t. t\<lparr>tag_count := \<Sum>e \<leftarrow> es. count_list (pe_tags e) (tag_name t)\<rparr>) ts"
  by (simp add: shown_tags_def fold_count_tags Let_def)

definition tag_uses :: "password_entry list \<Rightarrow> string \<Rightarrow> nat" where
  "tag_uses es n = (\<Sum>e \<leftarrow> es. count_list (pe_tags e) n)"

lemma count_list_map_rename:
  "old \<noteq> new \<Longrightarrow> count_list (map (\<lambda>n. if n = old then new else n) xs) n =
     (if n = old then 0 else if n = new then count_list xs new + count_list xs old else count_list xs n)"
  by (induction xs) auto

lemma count_list_filter_ne: "count_list (filter (\<lambda>x. x \<noteq> name) xs) n = (if n = name then 0 else count_list xs n)"
  by (induction xs) auto

lemma tag_uses_rename:
  "old \<noteq> new \<Longrightarrow> tag_uses (map (rename_in old new) es) n =
     (if n = old then 0 else if n = new then tag_uses es new + tag_uses es old else tag_uses es n)"
  by (induction es) (auto simp: tag_uses_def rename_in_def count_list_map_rename)

lemma tag_uses_remove: "tag_uses (map (remove_in name) es) n = (if n = name then 0 else tag_uses es n)"
  by (induction es) (auto simp: tag_uses_def remove_in_def count_list_filter_ne)

text \<open>
  The number shown beside a tag is the number of times the entries carry it, and it
  stays so under tag editing: a confirmed renaming moves every use of the old name to the new one
  (in the list and in the open entry), a confirmed removal leaves no use, and no other tag's
  count changes.
\<close>

theorem tag_counts_follow:
  assumes "es_current s g" and "oldName \<noteq> tag_name t"
  shows "shown_tags ts (es_entries s) = map (\<lambda>t. t\<lparr>tag_count := tag_uses (es_entries s) (tag_name t)\<rparr>) ts \<and>
    (let s' = resume (PUpdateTag g i oldName t) GotUnit s
     in tag_uses (es_entries s') n = (if n = oldName then 0
          else if n = tag_name t then tag_uses (es_entries s) n + tag_uses (es_entries s) oldName
          else tag_uses (es_entries s) n) \<and>
        (\<forall>e. es_selected s' = Some e \<longrightarrow> oldName \<notin> set (pe_tags e)) \<and>
        es_rawTags s' = map (\<lambda>x. if tag_id x = i then t else x) (es_rawTags s)) \<and>
    (let s' = resume (PRemoveTag g i oldName) GotUnit s
     in tag_uses (es_entries s') n = (if n = oldName then 0 else tag_uses (es_entries s) n) \<and>
        (\<forall>e. es_selected s' = Some e \<longrightarrow> oldName \<notin> set (pe_tags e)) \<and>
        es_rawTags s' = filter (\<lambda>x. tag_id x \<noteq> i) (es_rawTags s))"
proof -
  have "es_selected (finish_updateTag i oldName t s) = map_option (rename_in oldName (tag_name t)) (es_selected s)"
    "es_rawTags (finish_updateTag i oldName t s) = map (\<lambda>x. if tag_id x = i then t else x) (es_rawTags s)"
    by (simp_all add: finish_updateTag_def map_selected_def)
  moreover have "es_selected (finish_removeTag i oldName s) = map_option (remove_in oldName) (es_selected s)"
    "es_rawTags (finish_removeTag i oldName s) = filter (\<lambda>x. tag_id x \<noteq> i) (es_rawTags s)"
    by (simp_all add: finish_removeTag_def map_selected_def)
  ultimately show ?thesis
    using assms
    by (auto simp: shown_tags_spec tag_uses_rename tag_uses_remove rename_in_def remove_in_def Let_def)
      (simp_all add: tag_uses_def)
qed

definition tagged_entry :: "string \<Rightarrow> string list \<Rightarrow> password_entry" where
  "tagged_entry i ts = sample_entry\<lparr>pe_id := i, pe_tags := ts\<rparr>"

theorem tag_counts_follow_witness:
  "let s = (mount_session (run auth_step [SetIsLocked False] (init_auth True)) True DEFAULT_SETTINGS)
             \<lparr>es_entries := [tagged_entry ''a'' [''work''], tagged_entry ''b'' [''work'', ''job'']]\<rparr>;
       s' = resume (PUpdateTag 1 ''t'' ''work''
              \<lparr>tag_id = ''t'', tag_name = ''job'', tag_color = [], tag_icon = [], tag_default_url = None, tag_count = 0\<rparr>) GotUnit s
   in tag_uses (es_entries s') ''job'' = 3"
proof -
  let ?s = "(mount_session (run auth_step [SetIsLocked False] (init_auth True)) True DEFAULT_SETTINGS)
             \<lparr>es_entries := [tagged_entry ''a'' [''work''], tagged_entry ''b'' [''work'', ''job'']]\<rparr>"
  let ?t = "\<lparr>tag_id = ''t'', tag_name = ''job'', tag_color = [], tag_icon = [], tag_default_url = None, tag_count = 0\<rparr>"
  have cur: "es_current ?s 1"
    by (simp add: mount_session_def isSessionCurrent_def init_auth_def setIsLocked_def bump_generation_def Let_def)
  have ne: "''work'' \<noteq> tag_name ?t" by simp
  have uses: "tag_uses (es_entries ?s) ''job'' = 1" "tag_uses (es_entries ?s) ''work'' = 2"
    by (simp_all add: tag_uses_def tagged_entry_def)
  from tag_counts_follow [OF cur ne, of "[]" "''t''" "''job''"] uses show ?thesis
    by (simp add: Let_def del: resume.simps)
qed

section \<open>Range selection\<close>

text \<open>
  A range click adds exactly the run of entries between the last selected one and the
  clicked one, ends included, in the displayed order, keeps what was selected before it, and never
  selects an entry twice.
\<close>

theorem range_selection:
  assumes "es_viewIds s \<noteq> []" and "find_index (\<lambda>e. pe_id e = last (es_viewIds s)) list = Some p"
    and "find_index (\<lambda>e. pe_id e = i) list = Some q"
  shows "(let s' = toggleEntrySelection i m True (Some list) s
          in set (es_selectedIds s') = set (es_viewIds s) \<union> {pe_id (list ! n) | n. min p q \<le> n \<and> n \<le> max p q} \<and>
             distinct (es_selectedIds s') \<and> i \<in> set (es_selectedIds s') \<and>
             (distinct (es_viewIds s) \<longrightarrow> prefix (es_viewIds s) (es_selectedIds s')))"
proof -
  let ?ids = "map pe_id (take (Suc (max p q) - min p q) (drop (min p q) list))"
  have bounds: "p < length list" "q < length list" "pe_id (list ! q) = i"
    using find_index_Some [OF assms(2)] find_index_Some [OF assms(3)] by auto
  have slice: "set (take (Suc (max p q) - min p q) (drop (min p q) list)) = {list ! n | n. min p q \<le> n \<and> n \<le> max p q}"
    using bounds by (intro set_slice) simp
  then have range: "set ?ids = {pe_id (list ! n) | n. min p q \<le> n \<and> n \<le> max p q}"
    by (simp only: set_map slice) blast
  moreover have "i \<in> set ?ids" unfolding range using bounds(3) by (intro CollectI exI [of _ q]) simp
  moreover have "es_selectedIds (toggleEntrySelection i m True (Some list) s) = uniq (es_viewIds s @ ?ids)"
    using assms by (simp add: toggleEntrySelection_def Let_def)
  moreover have "prefix (es_viewIds s) (uniq (es_viewIds s @ ?ids))" if "distinct (es_viewIds s)"
    using that by (simp add: uniq_append)
  ultimately show ?thesis unfolding Let_def by (simp only: set_uniq set_append distinct_uniq) blast
qed

theorem range_selection_witness:
  "''a'' \<in> set (es_selectedIds (toggleEntrySelection ''a'' False True
      (Some [tagged_entry ''a'' [], tagged_entry ''b'' [], tagged_entry ''c'' []])
      ((mount_session (init_auth True) True DEFAULT_SETTINGS)\<lparr>es_viewIds := [''c'']\<rparr>)))"
proof -
  let ?s = "(mount_session (init_auth True) True DEFAULT_SETTINGS)\<lparr>es_viewIds := [''c'']\<rparr>"
  let ?l = "[tagged_entry ''a'' [], tagged_entry ''b'' [], tagged_entry ''c'' []]"
  have "es_viewIds ?s \<noteq> []" "find_index (\<lambda>e. pe_id e = last (es_viewIds ?s)) ?l = Some 2"
      "find_index (\<lambda>e. pe_id e = ''a'') ?l = Some 0"
    by (simp_all add: tagged_entry_def)
  from range_selection [OF this, of False] show ?thesis unfolding Let_def by blast
qed

section \<open>Reordering tags\<close>

lemma reorder_starts:
  assumes "es_backend s" and "es_current s (es_session s)"
  shows "es_rawTags (entries_step (ReorderTags new) s) = new \<and>
         es_calls (entries_step (ReorderTags new) s) = es_calls s @ [ReorderTagsCall (map tag_id new)] \<and>
         last (es_pending (entries_step (ReorderTags new) s)) = PReorder (es_session s) (es_rawTagsRef s)"
  using assms by (simp add: reorderTags_def await_call_def Let_def)

lemma reorder_refused:
  "es_current s g \<Longrightarrow> resume (PReorder g prev) (Failed err) s =
     addToast (Plain (''Failed to save tag order: '' @ err)) ToastError (s\<lparr>es_rawTags := prev\<rparr>)"
  by simp

text \<open>
  Claim C37. A failed reordering is undone. From a state in which the tags on the screen are the current ones (a
  render has just been committed), the new order is shown at once and sent to the back end. If the back end refuses
  it in the same session, however many renders and other events there were in between, the tags are again those
  shown when the reordering began, and the user is told; if it accepts, the tags stay as they are.
\<close>

theorem reorder_rollback:
  assumes "s = entries_step Commit s0" and "es_backend s" and "es_current s (es_session s)"
    and "s1 = entries_step (ReorderTags new) s" and "s' = run entries_step es s1"
    and "j < length (es_pending s')" and "es_pending s' ! j = last (es_pending s1)" and "es_current s' (es_session s)"
  shows "es_rawTags s1 = new \<and> es_calls s1 = es_calls s @ [ReorderTagsCall (map tag_id new)] \<and>
    es_rawTags (settle j (Failed err) s') = es_rawTags s \<and>
    es_toasts (settle j (Failed err) s') = es_toasts s' @ [(Plain (''Failed to save tag order: '' @ err), ToastError)] \<and>
    es_rawTags (settle j GotUnit s') = es_rawTags s' \<and> es_toasts (settle j GotUnit s') = es_toasts s'"
proof -
  have shown: "es_rawTagsRef s = es_rawTags s" unfolding assms(1) by (simp add: commit_render_def)
  note start = reorder_starts [OF assms(2,3), of new, folded assms(4)]
  have cur: "es_current (take_up j s') (es_session s)" using assms(8) by simp
  have k: "es_pending s' ! j = PReorder (es_session s) (es_rawTags s)" using assms(7) start shown by simp
  have "settle j (Failed err) s' = give_back (addToast (Plain (''Failed to save tag order: '' @ err)) ToastError
      ((take_up j s')\<lparr>es_rawTags := es_rawTags s\<rparr>))"
    using settle_at [OF assms(6) k] reorder_refused [OF cur] by simp
  moreover have "settle j GotUnit s' = give_back (triggerAutoSync (take_up j s'))"
    using settle_at [OF assms(6) k] cur by simp
  ultimately show ?thesis using start by (simp add: addToast_def)
qed

definition db_tag :: "string \<Rightarrow> ipc_tag" where
  "db_tag i = \<lparr>it_id = i, it_name = i, it_color = ''#fff'', it_icon = ''tag'', it_default_url = None\<rparr>"

theorem reorder_rollback_witness:
  "let s = run entries_step [RefreshTags, Settle 0 (GotTags [db_tag ''a'', db_tag ''b'']), Commit] open_session;
       s' = run entries_step [ReorderTags (rev (es_rawTags s)), Commit] s
   in map tag_id (es_rawTags s') = [''b'', ''a''] \<and>
      map tag_id (es_rawTags (settle 0 (Failed ''disk'') s')) = [''a'', ''b'']"
proof -
  let ?s0 = "run entries_step [RefreshTags, Settle 0 (GotTags [db_tag ''a'', db_tag ''b''])] open_session"
  let ?s = "entries_step Commit ?s0"
  let ?s1 = "entries_step (ReorderTags (rev (es_rawTags ?s))) ?s"
  let ?s' = "run entries_step [Commit] ?s1"
  have tags: "map tag_id (es_rawTags ?s) = [''a'', ''b'']" and st: "es_backend ?s" "es_auth ?s = es_auth open_session" "es_pending ?s = []"
    using open_session_eval
    by (simp_all add: refreshTags_def await_call_def settle_def take_up_def give_back_def resume_tags_def after_refresh_done_def
        commit_render_def tag_from_ipc_def db_tag_def Let_def)
  have cur: "es_current ?s (es_session ?s)" using st(2) open_session_eval by simp
  have pend: "es_pending ?s1 = [PReorder (es_session ?s) (es_rawTagsRef ?s)]" "es_auth ?s1 = es_auth ?s" "es_rawTags ?s1 = rev (es_rawTags ?s)"
    using st cur by (simp_all add: reorderTags_def await_call_def Let_def)
  have s': "0 < length (es_pending ?s')" "es_pending ?s' ! 0 = last (es_pending ?s1)" "es_current ?s' (es_session ?s)"
    "es_rawTags ?s' = rev (es_rawTags ?s)"
    using pend cur by (simp_all add: commit_render_def)
  from reorder_rollback [OF refl st(1) cur refl refl s'(1-3), of "''disk''"]
  have "es_rawTags (settle 0 (Failed ''disk'') ?s') = es_rawTags ?s" by blast
  with tags s'(4) have "map tag_id (es_rawTags ?s') = [''b'', ''a''] \<and>
      map tag_id (es_rawTags (settle 0 (Failed ''disk'') ?s')) = [''a'', ''b'']"
    by (simp only: rev_map [symmetric]) simp
  then show ?thesis by (simp only: Let_def run_Cons run_Nil)
qed

section \<open>The automatic cloud sync\<close>

fun is_webdav :: "call \<Rightarrow> bool" where
  "is_webdav (WebdavSyncCall a u p) = True"
| "is_webdav _ = False"

definition webdav_calls :: "entries_state \<Rightarrow> call list" where
  "webdav_calls s = filter is_webdav (es_calls s)"

lemma webdav_await [simp]: "\<not> is_webdav c \<Longrightarrow> webdav_calls (await_call c k s) = webdav_calls s"
  by (simp add: webdav_calls_def await_call_def)

lemma webdav_same: "es_calls s' = es_calls s \<Longrightarrow> webdav_calls s' = webdav_calls s"
  by (simp add: webdav_calls_def)

lemma webdav_frames [simp]:
  "webdav_calls (triggerAutoSync s) = webdav_calls s" "webdav_calls (addToast m t s) = webdav_calls s"
  "webdav_calls (answer b s) = webdav_calls s" "webdav_calls (err_toast g m s) = webdav_calls s"
  "webdav_calls (map_entries f s) = webdav_calls s" "webdav_calls (map_selected f s) = webdav_calls s"
  "webdav_calls (setSelectedEntry x s) = webdav_calls s" "webdav_calls (wait_timer k s) = webdav_calls s"
  "webdav_calls (delete_local ids s) = webdav_calls s" "webdav_calls (load_part_done j s) = webdav_calls s"
  "webdav_calls (after_refresh_done ar s) = webdav_calls s" "webdav_calls (finally_detail b n s) = webdav_calls s"
  "webdav_calls (s\<lparr>es_entries := x1\<rparr>) = webdav_calls s" "webdav_calls (s\<lparr>es_rawTags := x2\<rparr>) = webdav_calls s"
  "webdav_calls (s\<lparr>es_selected := x3\<rparr>) = webdav_calls s" "webdav_calls (s\<lparr>es_selectedIds := x4\<rparr>) = webdav_calls s"
  "webdav_calls (s\<lparr>es_loadingEntries := x5\<rparr>) = webdav_calls s" "webdav_calls (s\<lparr>es_loadingDetail := x6\<rparr>) = webdav_calls s"
  "webdav_calls (s\<lparr>es_loads := x7\<rparr>) = webdav_calls s" "webdav_calls (s\<lparr>es_timer := x8\<rparr>) = webdav_calls s"
  "webdav_calls (s\<lparr>es_now := x9\<rparr>) = webdav_calls s" "webdav_calls (s\<lparr>es_selectionSeq := x10\<rparr>) = webdav_calls s"
  "webdav_calls (s\<lparr>es_refreshSeq := x10\<rparr>) = webdav_calls s" "webdav_calls (s\<lparr>es_tagRefreshSeq := x10\<rparr>) = webdav_calls s"
  "webdav_calls (s\<lparr>es_auth := x11\<rparr>) = webdav_calls s" "webdav_calls (s\<lparr>es_pending := x12\<rparr>) = webdav_calls s"
  "webdav_calls (finish_bulk_update n s) = webdav_calls s"
  by (simp_all add: webdav_calls_def)

lemma webdav_refresh [simp]:
  "webdav_calls (fst (refreshEntries k s)) = webdav_calls s"
  "webdav_calls (fst (refreshTags k s)) = webdav_calls s"
  "webdav_calls (refreshBoth s) = webdav_calls s"
  by (simp_all add: refreshBoth_def refreshEntries_def refreshTags_def Let_def)

lemma webdav_start [simp]:
  "webdav_calls (selectEntryById x s) = webdav_calls s"
  "webdav_calls (updateEntry uuid now e s) = webdav_calls s"
  "webdav_calls (updateBreachStatus i b s) = webdav_calls s"
  "webdav_calls (saveVault s) = webdav_calls s"
  "webdav_calls (addEntry uuid now e s) = webdav_calls s"
  "webdav_calls (deleteEntry i s) = webdav_calls s"
  "webdav_calls (deleteAttachment i a s) = webdav_calls s"
  "webdav_calls (toggleFavorite i s) = webdav_calls s"
  "webdav_calls (togglePin i s) = webdav_calls s"
  "webdav_calls (toggleEntrySelection i m r l s) = webdav_calls s"
  "webdav_calls (clearSelection s) = webdav_calls s"
  "webdav_calls (bulkUpdateEntries ids u a' d md s) = webdav_calls s"
  "webdav_calls (bulkDeleteEntries ids s) = webdav_calls s"
  "webdav_calls (addTag t s) = webdav_calls s"
  "webdav_calls (updateTag i tu s) = webdav_calls s"
  "webdav_calls (removeTag i s) = webdav_calls s"
  "webdav_calls (reorderTags ts s) = webdav_calls s"
  "webdav_calls (content_changed s) = webdav_calls s"
  "webdav_calls (loadAll s) = webdav_calls s"
  by (auto simp: start_defs finish_defs loadAll_def split_def Let_def split: option.splits)

lemma webdav_settings [simp]:
  "webdav_calls (change_settings st s) = webdav_calls s" "webdav_calls (commit_render s) = webdav_calls s"
  by (simp_all add: webdav_calls_def change_settings_def commit_render_def)

lemma webdav_resume [simp]: "webdav_calls (resume k r s) = webdav_calls s"
  by (cases k)
     (auto simp: resume_defs finish_defs Let_def split_def split: response.splits option.splits)

lemma webdav_settle [simp]: "webdav_calls (settle n r s) = webdav_calls s"
proof -
  have "webdav_calls (take_up n s) = webdav_calls s" "webdav_calls (give_back t) = webdav_calls t" for t
    by (simp_all add: webdav_calls_def)
  then show ?thesis by (simp add: settle_def)
qed

lemma webdav_step: "webdav_calls (entries_step e s) \<noteq> webdav_calls s \<Longrightarrow> e = FireAutoSync"
  by (cases e) simp_all

text \<open>
  The settings that can reach the timer: those of the current render, those the waiting continuations captured
  and, outside airgap mode with the sync turned on, those a timer carries. \<open>R\<close> is a set that contains them.
\<close>

definition known :: "app_settings set \<Rightarrow> entries_state \<Rightarrow> bool" where
  "known R s \<longleftrightarrow> es_settings s \<in> R \<and> es_closure s \<in> R \<and> set (es_captured s) \<subseteq> R \<and>
     length (es_captured s) = length (es_pending s) \<and>
     (\<forall>g st. es_timer s = Some (g, st) \<longrightarrow> st \<in> R \<and> wants_autosync st)"

lemma known_frame:
  "es_settings t = es_settings s \<Longrightarrow> es_closure t = es_closure s \<Longrightarrow> es_captured t = es_captured s \<Longrightarrow>
   es_pending t = es_pending s \<Longrightarrow> es_timer t = es_timer s \<Longrightarrow> known R t = known R s"
  by (simp add: known_def)

lemma known_frames [simp]:
  "known R (addToast m t s) = known R s"
  "known R (answer b s) = known R s"
  "known R (err_toast g m s) = known R s"
  "known R (map_entries f s) = known R s"
  "known R (map_selected f s) = known R s"
  "known R (setSelectedEntry x s) = known R s"
  "known R (delete_local ids s) = known R s"
  "known R (finally_detail b n s) = known R s"
  "known R (s\<lparr>es_entries := x0\<rparr>) = known R s"
  "known R (s\<lparr>es_rawTags := x1\<rparr>) = known R s"
  "known R (s\<lparr>es_selected := x2\<rparr>) = known R s"
  "known R (s\<lparr>es_selectedIds := x3\<rparr>) = known R s"
  "known R (s\<lparr>es_loadingEntries := x4\<rparr>) = known R s"
  "known R (s\<lparr>es_loadingDetail := x5\<rparr>) = known R s"
  "known R (s\<lparr>es_loads := x6\<rparr>) = known R s"
  "known R (s\<lparr>es_now := x7\<rparr>) = known R s"
  "known R (s\<lparr>es_selectionSeq := x8\<rparr>) = known R s"
  "known R (s\<lparr>es_refreshSeq := x9\<rparr>) = known R s"
  "known R (s\<lparr>es_tagRefreshSeq := x10\<rparr>) = known R s"
  "known R (s\<lparr>es_auth := x11\<rparr>) = known R s"
  by (rule known_frame; simp)+

lemma known_await [simp]: "known R (await_call c k s) = known R s" "known R (wait_timer k s) = known R s"
  by (auto simp: known_def await_call_def wait_timer_def)

lemma known_commit [simp]: "known R (commit_render s) = known R s"
  by (rule known_frame; simp add: commit_render_def)

lemma known_load [simp]: "known R (load_part_done j s) = known R s"
  by (simp add: load_part_done_def Let_def split: prod.split)

lemma known_refresh [simp]:
  "known R (fst (refreshEntries a s)) = known R s" "known R (fst (refreshTags a s)) = known R s" "known R (refreshBoth s) = known R s"
  by (simp_all add: refreshBoth_def refreshEntries_def refreshTags_def Let_def)

lemma known_trigger [simp]: "known R s \<Longrightarrow> known R (triggerAutoSync s)"
  by (simp add: known_def triggerAutoSync_def)

lemma known_bulk [simp]: "known R s \<Longrightarrow> known R (finish_bulk_update n s)"
  by (simp add: finish_bulk_update_def)

lemma known_after [simp]: "known R s \<Longrightarrow> known R (after_refresh_done k s)"
  by (cases k) (simp_all add: after_refresh_done_def)

lemma known_fire [simp]: "known R s \<Longrightarrow> known R (fireAutoSync s)"
proof -
  have "known R s \<Longrightarrow> known R (s\<lparr>es_timer := None\<rparr>)" by (simp add: known_def)
  then show "known R s \<Longrightarrow> known R (fireAutoSync s)" by (simp add: fireAutoSync_def Let_def split: option.split prod.split)
qed

lemma known_start [simp]:
  "known R s \<Longrightarrow> known R (selectEntryById x s)"
  "known R s \<Longrightarrow> known R (updateEntry uuid now e s)"
  "known R s \<Longrightarrow> known R (updateBreachStatus i b s)"
  "known R s \<Longrightarrow> known R (saveVault s)"
  "known R s \<Longrightarrow> known R (addEntry uuid now e s)"
  "known R s \<Longrightarrow> known R (deleteEntry i s)"
  "known R s \<Longrightarrow> known R (deleteAttachment i a s)"
  "known R s \<Longrightarrow> known R (toggleFavorite i s)"
  "known R s \<Longrightarrow> known R (togglePin i s)"
  "known R s \<Longrightarrow> known R (toggleEntrySelection i m r l s)"
  "known R s \<Longrightarrow> known R (clearSelection s)"
  "known R s \<Longrightarrow> known R (bulkUpdateEntries ids u a' d md s)"
  "known R s \<Longrightarrow> known R (bulkDeleteEntries ids s)"
  "known R s \<Longrightarrow> known R (addTag t s)"
  "known R s \<Longrightarrow> known R (updateTag i tu s)"
  "known R s \<Longrightarrow> known R (removeTag i s)"
  "known R s \<Longrightarrow> known R (reorderTags ts s)"
  "known R s \<Longrightarrow> known R (content_changed s)"
  "known R s \<Longrightarrow> known R (loadAll s)"
  by (auto simp: start_defs finish_defs loadAll_def split_def Let_def split: option.splits)

lemma known_resume: "known R s \<Longrightarrow> known R (resume k r s)"
  by (cases k)
     (auto simp: resume_defs finish_defs Let_def split_def split: response.splits option.splits)

lemma known_settle: "known R s \<Longrightarrow> known R (settle i r s)"
proof (cases "i < length (es_pending s)")
  case True
  assume ok: "known R s"
  then have "es_captured s ! i \<in> R" using True by (auto simp: known_def)
  then have "known R (take_up i s)" using ok True by (auto simp: known_def take_up_def dest: in_set_takeD in_set_dropD)
  then have "known R (resume (es_pending s ! i) r (take_up i s))" by (rule known_resume)
  then show ?thesis using True by (simp add: settle_def known_def give_back_def)
qed (simp add: settle_def)

lemma known_step: "known R s \<Longrightarrow> (\<And>st. e = Settings st \<Longrightarrow> st \<in> R) \<Longrightarrow> known R (entries_step e s)"
  by (cases e) (simp_all add: known_settle, auto simp: known_def change_settings_def)

lemma known_run: "known R s \<Longrightarrow> (\<And>st. Settings st \<in> set es \<Longrightarrow> st \<in> R) \<Longrightarrow> known R (run entries_step es s)"
proof (induction es arbitrary: s)
  case (Cons e es)
  have "known R (entries_step e s)" using Cons.prems by (intro known_step) auto
  then show ?case using Cons by simp
qed simp

lemma known_mount: "settings \<in> R \<Longrightarrow> known R (mount_session auth backend settings)"
  by (simp add: known_def mount_session_def Let_def)


text \<open>Where no settings in reach ask for it, no sync is made.\<close>

lemma quiet_timer: "known {st. \<not> wants_autosync st} s \<Longrightarrow> es_timer s = None"
  by (cases "es_timer s") (auto simp: known_def)

lemma quiet_step: "known {st. \<not> wants_autosync st} s \<Longrightarrow> webdav_calls (entries_step e s) = webdav_calls s"
proof -
  assume "known {st. \<not> wants_autosync st} s"
  then have "webdav_calls (entries_step FireAutoSync s) = webdav_calls s" by (simp add: quiet_timer fireAutoSync_def)
  then show "webdav_calls (entries_step e s) = webdav_calls s" using webdav_step [of e s] by (cases "e = FireAutoSync") blast+
qed

lemma quiet_run:
  "known {st. \<not> wants_autosync st} s \<Longrightarrow> (\<And>st. Settings st \<in> set es \<Longrightarrow> st_operationMode st = Some Airgap) \<Longrightarrow>
   webdav_calls (run entries_step es s) = webdav_calls s"
proof (induction es arbitrary: s)
  case (Cons e es)
  have "known {st. \<not> wants_autosync st} (entries_step e s)"
    by (rule known_step [OF Cons.prems(1)]) (use Cons.prems(2) in \<open>simp add: wants_autosync_def\<close>)
  then have "webdav_calls (run entries_step es (entries_step e s)) = webdav_calls (entries_step e s)"
    by (rule Cons.IH) (use Cons.prems(2) in simp)
  then show ?case using quiet_step [OF Cons.prems(1), of e] by (simp only: run_Cons)
qed simp

text \<open>
  Airgap mode ends the automatic sync, for everything that starts after the switch: if none of the operations
  still waiting at the switch was started with settings that ask for it, no sync server is contacted for as long as
  the mode stays airgap, whatever is done and answered. The timer that was running is cancelled by the switch.
\<close>

theorem airgap_ends_autosync:
  assumes "s = run entries_step es (mount_session auth backend settings)"
    and "\<forall>st \<in> set (es_captured s). \<not> wants_autosync st"
    and "st_operationMode (es_settings s) \<noteq> Some Airgap" and "st_operationMode new = Some Airgap"
    and "\<forall>st. Settings st \<in> set es' \<longrightarrow> st_operationMode st = Some Airgap"
  shows "webdav_calls (run entries_step es' (entries_step (Settings new) s)) = webdav_calls s"
proof -
  let ?R = "{st. \<not> wants_autosync st}" and ?s = "entries_step (Settings new) s"
  have "known UNIV s" unfolding assms(1) by (intro known_run known_mount) simp_all
  then have start: "known ?R ?s" using assms(2-4) by (auto simp: known_def change_settings_def wants_autosync_def)
  have "webdav_calls (run entries_step es' ?s) = webdav_calls ?s"
    by (rule quiet_run [OF start]) (use assms(5) in blast)
  then show ?thesis by simp
qed

definition webdav_settings :: app_settings where
  "webdav_settings = DEFAULT_SETTINGS\<lparr>st_webdavEnabled := Some True, st_webdavAutoSync := Some True,
     st_webdavUrl := Some ''https://dav'', st_webdavUser := Some ''u''\<rparr>"

definition unlocked_auth :: auth_state where
  "unlocked_auth = run auth_step [SetIsLocked False] (init_auth True)"

lemmas unlocked_eval =
  unlocked_auth_def mount_session_def isSessionCurrent_def getSessionGeneration_def init_auth_def setIsLocked_def
  bump_generation_def getTransientWebdavPassword_def

lemmas favorite_eval =
  toggleFavorite_def await_call_def settle_def take_up_def give_back_def finish_favorite_def fireAutoSync_def
  triggerAutoSync_def wants_autosync_def webdav_settings_def DEFAULT_SETTINGS_def webdav_calls_def map_entries_def
  map_selected_def change_settings_def Let_def



theorem airgap_ends_autosync_witness:
  "let s = run entries_step [Favorite ''a'', Settle 0 (GotBool True)] (mount_session unlocked_auth True webdav_settings);
       s' = run entries_step [FireAutoSync, Favorite ''a'', Settle 0 (GotBool True), FireAutoSync]
              (entries_step (Settings (webdav_settings\<lparr>st_operationMode := Some Airgap\<rparr>)) s)
   in es_timer s \<noteq> None \<and> webdav_calls s' = webdav_calls s"
proof -
  let ?es = "[Favorite ''a'', Settle 0 (GotBool True)]" and ?new = "webdav_settings\<lparr>st_operationMode := Some Airgap\<rparr>"
  let ?s = "run entries_step ?es (mount_session unlocked_auth True webdav_settings)"
  let ?es' = "[FireAutoSync, Favorite ''a'', Settle 0 (GotBool True), FireAutoSync]"
  have s: "es_timer ?s \<noteq> None" "es_captured ?s = []" "st_operationMode (es_settings ?s) \<noteq> Some Airgap"
    by (simp_all add: unlocked_eval favorite_eval)
  have "\<forall>st \<in> set (es_captured ?s). \<not> wants_autosync st" unfolding s(2) by simp
  moreover have "st_operationMode ?new = Some Airgap" by simp
  moreover have "\<forall>st. Settings st \<in> set ?es' \<longrightarrow> st_operationMode st = Some Airgap" by simp
  ultimately have "webdav_calls (run entries_step ?es' (entries_step (Settings ?new) ?s)) = webdav_calls ?s"
    using airgap_ends_autosync [OF refl _ s(3)] by blast
  with s(1) show ?thesis by (simp only: Let_def) simp
qed

text \<open>
  Turning the sync itself off does not cancel the timer: a sync scheduled before still runs. And an operation that
  waits for its answer while the mode is switched to airgap still schedules a sync when it is answered, with the
  settings it was started with: the sync server is contacted in airgap mode.
\<close>

lemma autosync_survives_disabling:
  "let s = run entries_step [Favorite ''a'', Settle 0 (GotBool True),
             Settings (webdav_settings\<lparr>st_webdavEnabled := Some False, st_webdavAutoSync := Some False\<rparr>)]
             (mount_session unlocked_auth True webdav_settings)
   in webdav_calls (entries_step FireAutoSync s) = [WebdavSyncCall ''https://dav'' ''u'' None]"
  by (simp add: unlocked_eval favorite_eval)

lemma autosync_in_airgap:
  "let s = run entries_step [Favorite ''a'', Settings (webdav_settings\<lparr>st_operationMode := Some Airgap\<rparr>),
             Settle 0 (GotBool True), FireAutoSync] (mount_session unlocked_auth True webdav_settings)
   in st_operationMode (es_settings s) = Some Airgap \<and> webdav_calls s = [WebdavSyncCall ''https://dav'' ''u'' None]"
  by (simp add: unlocked_eval favorite_eval)

end
