(* ===== verification/Breach_Loop.thy ===== *)
theory Breach_Loop
  imports Entries_Behaviour
begin

text \<open>
  The background breach check of \<open>EntriesContext.provider.tsx\<close> (lines 841 to 950): an effect that,
  while breach checks are enabled, goes through the entries one at a time, each in a chain of
  awaited calls. A run of the effect keeps the variables of its closure (\<open>active\<close>, \<open>session\<close>,
  \<open>attempted\<close>, \<open>hasChangesToSave\<close>) and the point it waits at; runs that were cleaned up may still be
  waiting for an answer. The machine embeds the entries machine, whose list and selection the
  effect updates.

  The effect's dependencies are compared by value. Desktop notifications are a permission and a
  list of titles; the warning sign of the message is a private code unit.
\<close>

section \<open>State\<close>

datatype breach_stage =
    Timer nat
  | AwaitEntry password_entry
  | AwaitCheck password_entry
  | AwaitStatus
  | AwaitSave
  | Finished

record breach_run =
  br_session :: nat
  br_active :: bool
  br_attempted :: "string list"
  br_dirty :: bool
  br_stage :: breach_stage

record breach_deps =
  bd_network :: bool
  bd_backend :: bool
  bd_locked :: bool
  bd_vault :: "vault option"
  bd_length :: nat
  bd_auto :: bool
  bd_mode :: "operation_mode option"

datatype breach_call =
    BreachGetEntry string
  | CheckPassword string
  | SetStatus string breach_status
  | BreachSaveVault

datatype permission = PermissionGranted | PermissionDenied | PermissionDefault

datatype breach_answer = EntryAnswer decrypted_entry | BreachAnswer breach_result | DoneAnswer | BreachFailure

record breach_state =
  bs_es :: entries_state
  bs_mounted :: bool
  bs_network :: bool
  bs_entriesRef :: "password_entry list"
  bs_deps :: "breach_deps option"
  bs_current :: "nat option"
  bs_runs :: "breach_run list"
  bs_calls :: "breach_call list"
  bs_permission :: "permission option"
  bs_asked :: "string list"
  bs_notices :: "string list"

section \<open>The effect\<close>

definition current_deps :: "breach_state \<Rightarrow> breach_deps" where
  "current_deps s =
     (let e = bs_es s in
      \<lparr>bd_network = bs_network s, bd_backend = es_backend e, bd_locked = es_locked e, bd_vault = es_vault e,
       bd_length = length (es_viewEntries e), bd_auto = st_autoBreachCheck (es_settings e),
       bd_mode = st_operationMode (es_settings e)\<rparr>)"

definition deps_enabled :: "breach_deps \<Rightarrow> bool" where
  "deps_enabled d \<longleftrightarrow>
     \<not> (\<not> bd_network d \<or> \<not> bd_backend d \<or> bd_locked d \<or> bd_vault d = None \<or> bd_length d = 0 \<or> \<not> bd_auto d \<or>
        bd_mode d = Some Airgap)"

definition put_run :: "nat \<Rightarrow> breach_run \<Rightarrow> breach_state \<Rightarrow> breach_state" where
  "put_run i r s = s\<lparr>bs_runs := (bs_runs s)[i := r]\<rparr>"

definition breach_call_made :: "breach_call \<Rightarrow> breach_state \<Rightarrow> breach_state" where
  "breach_call_made c s = s\<lparr>bs_calls := bs_calls s @ [c]\<rparr>"

definition run_live :: "breach_run \<Rightarrow> breach_state \<Rightarrow> bool" where
  "run_live r s \<longleftrightarrow> br_active r \<and> es_current (bs_es s) (br_session r)"

text \<open>The cleanup of the last run: the timer is cleared, unsaved changes of a live session are saved.\<close>

definition cleanup_breach :: "breach_state \<Rightarrow> breach_state" where
  "cleanup_breach s =
     (case bs_current s of
        None \<Rightarrow> s
      | Some i \<Rightarrow>
          let r = bs_runs s ! i;
              s = put_run i (r\<lparr>br_active := False,
                    br_stage := (case br_stage r of Timer _ \<Rightarrow> Finished | st \<Rightarrow> st)\<rparr>) s;
              s = (if br_dirty r \<and> es_backend (bs_es s) \<and> es_current (bs_es s) (br_session r)
                   then breach_call_made BreachSaveVault s else s)
          in s\<lparr>bs_current := None\<rparr>)"

definition start_breach :: "breach_state \<Rightarrow> breach_state" where
  "start_breach s =
     (if deps_enabled (current_deps s)
      then s\<lparr>bs_current := Some (length (bs_runs s)),
             bs_runs := bs_runs s @ [\<lparr>br_session = es_session (bs_es s), br_active = True, br_attempted = [],
               br_dirty = False, br_stage = Timer 6000\<rparr>]\<rparr>
      else s)"

definition render_breach :: "breach_state \<Rightarrow> breach_state" where
  "render_breach s =
     (if \<not> bs_mounted s then s
      else let s = s\<lparr>bs_entriesRef := es_viewEntries (bs_es s)\<rparr>
           in if bs_deps s = Some (current_deps s) then s
              else (start_breach (cleanup_breach s))\<lparr>bs_deps := Some (current_deps s)\<rparr>)"

definition unmount_breach :: "breach_state \<Rightarrow> breach_state" where
  "unmount_breach s = (cleanup_breach s)\<lparr>bs_mounted := False, bs_deps := None\<rparr>"

definition mount_breach :: "bool \<Rightarrow> permission option \<Rightarrow> entries_state \<Rightarrow> breach_state" where
  "mount_breach network permission e =
     render_breach \<lparr>bs_es = e, bs_mounted = True, bs_network = network, bs_entriesRef = [], bs_deps = None,
       bs_current = None, bs_runs = [], bs_calls = [], bs_permission = permission, bs_asked = [], bs_notices = []\<rparr>"

section \<open>The chain of one run\<close>

definition finish_run :: "nat \<Rightarrow> breach_state \<Rightarrow> breach_state" where
  "finish_run i s = put_run i ((bs_runs s ! i)\<lparr>br_stage := Finished\<rparr>) s"

definition reschedule :: "nat \<Rightarrow> breach_state \<Rightarrow> breach_state" where
  "reschedule i s =
     (let r = bs_runs s ! i
      in put_run i (r\<lparr>br_stage := (if run_live r s then Timer 2000 else Finished)\<rparr>) s)"

text \<open>\<open>checkNext\<close> up to its first \<open>await\<close>, when the timer fires.\<close>

definition checkNext :: "(string \<Rightarrow> int option) \<Rightarrow> int \<Rightarrow> nat \<Rightarrow> breach_state \<Rightarrow> breach_state" where
  "checkNext date_parse now i s =
     (let r = bs_runs s ! i
      in if \<not> run_live r s then finish_run i s
         else (case List.find (\<lambda>e. pe_id e \<notin> set (br_attempted r) \<and>
                      needsBreachRecheck date_parse (pe_breachStatus e) now) (bs_entriesRef s) of
                 None \<Rightarrow>
                   if br_dirty r
                   then breach_call_made BreachSaveVault (put_run i (r\<lparr>br_dirty := False, br_stage := AwaitSave\<rparr>) s)
                   else finish_run i s
               | Some target \<Rightarrow>
                   breach_call_made (BreachGetEntry (pe_id target))
                     (put_run i (r\<lparr>br_attempted := br_attempted r @ [pe_id target],
                        br_stage := AwaitEntry target\<rparr>) s)))"

definition warning_sign :: string where
  "warning_sign = [CHR 0x1C]"

definition leak_warning :: "string \<Rightarrow> message" where
  "leak_warning title =
     Plain (warning_sign @ '' CRITICAL SECURITY WARNING: The password for \"'' @ title @
       ''\" was found in a new data leak! Change it immediately.'')"

definition notify_leak :: "string \<Rightarrow> breach_state \<Rightarrow> breach_state" where
  "notify_leak title s =
     (case bs_permission s of
        None \<Rightarrow> s
      | Some PermissionGranted \<Rightarrow> s\<lparr>bs_notices := bs_notices s @ [title]\<rparr>
      | Some PermissionDenied \<Rightarrow> s
      | Some PermissionDefault \<Rightarrow> s\<lparr>bs_asked := bs_asked s @ [title]\<rparr>)"

definition record_status :: "nat \<Rightarrow> string \<Rightarrow> breach_status \<Rightarrow> breach_state \<Rightarrow> breach_state" where
  "record_status i entry st s =
     breach_call_made (SetStatus entry st)
       (put_run i ((bs_runs s ! i)\<lparr>br_stage := AwaitStatus\<rparr>) (s\<lparr>bs_es := set_breach entry st (bs_es s)\<rparr>))"

definition breach_verdict :: "breach_result \<Rightarrow> breach_status" where
  "breach_verdict res =
     (if br_is_breached res then Breached (br_breach_count res) (br_checked_at res) else Safe (br_checked_at res))"

definition was_safe :: "password_entry \<Rightarrow> bool" where
  "was_safe e \<longleftrightarrow> (case pe_breachStatus e of Some (Safe _) \<Rightarrow> True | _ \<Rightarrow> False)"

text \<open>The rest of \<open>checkNext\<close>: \<open>stamp\<close> is \<open>new Date().toISOString()\<close>.\<close>

definition answer_breach :: "string \<Rightarrow> nat \<Rightarrow> breach_answer \<Rightarrow> breach_state \<Rightarrow> breach_state" where
  "answer_breach stamp i a s =
     (let r = bs_runs s ! i
      in case br_stage r of
           AwaitEntry target \<Rightarrow>
             (case a of
                EntryAnswer raw \<Rightarrow>
                  let password = pe_password (decryptedEntryToPasswordEntry raw)
                  in if \<not> run_live r s then finish_run i s
                     else if password \<noteq> [] \<and> trim password \<noteq> []
                     then breach_call_made (CheckPassword password) (put_run i (r\<lparr>br_stage := AwaitCheck target\<rparr>) s)
                     else record_status i (pe_id target) (Safe stamp) s
              | BreachFailure \<Rightarrow> reschedule i s
              | _ \<Rightarrow> s)
         | AwaitCheck target \<Rightarrow>
             (case a of
                BreachAnswer res \<Rightarrow>
                  if \<not> run_live r s then finish_run i s
                  else let newStatus = breach_verdict res;
                           s = (if was_safe target \<and> br_is_breached res
                                then (notify_leak (pe_title target) s)
                                       \<lparr>bs_es := addToast (leak_warning (pe_title target)) ToastError (bs_es s)\<rparr>
                                else s)
                       in record_status i (pe_id target) newStatus s
              | BreachFailure \<Rightarrow> reschedule i s
              | _ \<Rightarrow> s)
         | AwaitStatus \<Rightarrow>
             (case a of
                DoneAnswer \<Rightarrow> reschedule i (put_run i (r\<lparr>br_dirty := True\<rparr>) s)
              | BreachFailure \<Rightarrow> reschedule i s
              | _ \<Rightarrow> s)
         | AwaitSave \<Rightarrow>
             (case a of DoneAnswer \<Rightarrow> finish_run i s | BreachFailure \<Rightarrow> finish_run i s | _ \<Rightarrow> s)
         | _ \<Rightarrow> s)"

definition answer_permission :: "permission \<Rightarrow> breach_state \<Rightarrow> breach_state" where
  "answer_permission p s =
     (case bs_asked s of
        [] \<Rightarrow> s
      | title # rest \<Rightarrow>
          s\<lparr>bs_asked := rest, bs_permission := Some p,
            bs_notices := bs_notices s @ (if p = PermissionGranted then [title] else [])\<rparr>)"

section \<open>Events\<close>

datatype breach_event =
    InEntries event
  | NetworkReady bool
  | FireCheck nat int
  | AnswerCheck nat string breach_answer
  | AnswerPermission permission
  | UnmountBreach

definition timer_pending :: "nat \<Rightarrow> breach_state \<Rightarrow> bool" where
  "timer_pending i s \<longleftrightarrow>
     i < length (bs_runs s) \<and> (case br_stage (bs_runs s ! i) of Timer _ \<Rightarrow> True | _ \<Rightarrow> False)"

definition in_entries :: "event \<Rightarrow> breach_state \<Rightarrow> breach_state" where
  "in_entries e s =
     (let s = s\<lparr>bs_es := entries_step e (bs_es s)\<rparr>
      in case e of Commit \<Rightarrow> render_breach s | _ \<Rightarrow> s)"

fun breach_step :: "(string \<Rightarrow> int option) \<Rightarrow> breach_event \<Rightarrow> breach_state \<Rightarrow> breach_state" where
  "breach_step dp (InEntries e) s = in_entries e s"
| "breach_step dp (NetworkReady b) s = s\<lparr>bs_network := b\<rparr>"
| "breach_step dp (FireCheck i now) s = (if timer_pending i s then checkNext dp now i s else s)"
| "breach_step dp (AnswerCheck i stamp a) s = (if i < length (bs_runs s) then answer_breach stamp i a s else s)"
| "breach_step dp (AnswerPermission p) s = answer_permission p s"
| "breach_step dp UnmountBreach s = unmount_breach s"


section \<open>Network checks stay gated\<close>

lemma put_run_simps [simp]:
  "bs_runs (put_run i r s) = (bs_runs s)[i := r]" "bs_es (put_run i r s) = bs_es s"
  "bs_current (put_run i r s) = bs_current s" "bs_deps (put_run i r s) = bs_deps s"
  "bs_calls (put_run i r s) = bs_calls s" "bs_entriesRef (put_run i r s) = bs_entriesRef s"
  "run_live q (put_run i r s) = run_live q s"
  by (simp_all add: put_run_def run_live_def)

lemma breach_call_made_simps [simp]:
  "bs_runs (breach_call_made c s) = bs_runs s" "bs_es (breach_call_made c s) = bs_es s"
  "bs_current (breach_call_made c s) = bs_current s" "bs_deps (breach_call_made c s) = bs_deps s"
  "bs_calls (breach_call_made c s) = bs_calls s @ [c]"
  "bs_entriesRef (breach_call_made c s) = bs_entriesRef s"
  by (simp_all add: breach_call_made_def)

lemma notify_leak_simps [simp]:
  "bs_runs (notify_leak t s) = bs_runs s" "bs_es (notify_leak t s) = bs_es s"
  "bs_current (notify_leak t s) = bs_current s" "bs_deps (notify_leak t s) = bs_deps s"
  "bs_calls (notify_leak t s) = bs_calls s" "bs_entriesRef (notify_leak t s) = bs_entriesRef s"
  by (simp_all add: notify_leak_def split: option.split permission.split)

lemma record_status_simps [simp]:
  "bs_runs (record_status i e st s) = (bs_runs s)[i := (bs_runs s ! i)\<lparr>br_stage := AwaitStatus\<rparr>]"
  "bs_es (record_status i e st s) = set_breach e st (bs_es s)"
  "bs_current (record_status i e st s) = bs_current s" "bs_deps (record_status i e st s) = bs_deps s"
  "bs_calls (record_status i e st s) = bs_calls s @ [SetStatus e st]"
  "bs_entriesRef (record_status i e st s) = bs_entriesRef s"
  by (simp_all add: record_status_def)

lemma finish_run_simps [simp]:
  "bs_runs (finish_run i s) = (bs_runs s)[i := (bs_runs s ! i)\<lparr>br_stage := Finished\<rparr>]"
  "bs_es (finish_run i s) = bs_es s" "bs_current (finish_run i s) = bs_current s"
  "bs_deps (finish_run i s) = bs_deps s" "bs_calls (finish_run i s) = bs_calls s"
  "bs_entriesRef (finish_run i s) = bs_entriesRef s"
  by (simp_all add: finish_run_def)

lemma reschedule_simps [simp]:
  "bs_runs (reschedule i s) = (bs_runs s)[i := (bs_runs s ! i)\<lparr>br_stage :=
      (if run_live (bs_runs s ! i) s then Timer 2000 else Finished)\<rparr>]"
  "bs_es (reschedule i s) = bs_es s" "bs_current (reschedule i s) = bs_current s"
  "bs_deps (reschedule i s) = bs_deps s" "bs_calls (reschedule i s) = bs_calls s"
  "bs_entriesRef (reschedule i s) = bs_entriesRef s"
  by (simp_all add: reschedule_def Let_def)

text \<open>Only the run of the last effect is active, and only while its dependencies allow it.\<close>

definition one_active :: "breach_state \<Rightarrow> bool" where
  "one_active s \<longleftrightarrow>
     (\<forall>i < length (bs_runs s). br_active (bs_runs s ! i) \<longrightarrow> bs_current s = Some i) \<and>
     (\<forall>i. bs_current s = Some i \<longrightarrow> i < length (bs_runs s) \<and> (\<exists>d. bs_deps s = Some d \<and> deps_enabled d))"

lemma nth_update_active:
  "j < length rs \<Longrightarrow> (br_active r \<Longrightarrow> br_active (rs ! i)) \<Longrightarrow> br_active (rs[i := r] ! j) \<Longrightarrow> br_active (rs ! j)"
  by (cases "i = j") auto

text \<open>A chain never revives a run and touches neither the effect's run nor its dependencies.\<close>

definition chain_ok :: "breach_state \<Rightarrow> breach_state \<Rightarrow> bool" where
  "chain_ok s s' \<longleftrightarrow>
     length (bs_runs s') = length (bs_runs s) \<and> bs_current s' = bs_current s \<and> bs_deps s' = bs_deps s \<and>
     (\<forall>j < length (bs_runs s). br_active (bs_runs s' ! j) \<longrightarrow> br_active (bs_runs s ! j))"

lemma chain_okI [intro]:
  assumes "bs_runs s' = (bs_runs s)[i := r]" and "bs_current s' = bs_current s" and "bs_deps s' = bs_deps s"
    and "br_active r = br_active (bs_runs s ! i)"
  shows "chain_ok s s'"
  unfolding chain_ok_def using assms nth_update_active [of _ "bs_runs s" r i] by simp

lemma chain_ok_refl [simp]: "chain_ok s s"
  by (simp add: chain_ok_def)

lemma one_active_chain:
  assumes "one_active s" and "chain_ok s s'"
  shows "one_active s'"
proof -
  have len: "length (bs_runs s') = length (bs_runs s)" and cur: "bs_current s' = bs_current s"
    and dep: "bs_deps s' = bs_deps s"
    and act: "\<And>j. j < length (bs_runs s) \<Longrightarrow> br_active (bs_runs s' ! j) \<Longrightarrow> br_active (bs_runs s ! j)"
    using assms(2) by (auto simp: chain_ok_def)
  show ?thesis
    unfolding one_active_def len cur dep using assms(1) act unfolding one_active_def by blast
qed

lemma chain_ok_parts:
  "chain_ok s (finish_run i s)" "chain_ok s (reschedule i s)" "chain_ok s (record_status i e st s)"
  by (rule chain_okI, rule finish_run_simps reschedule_simps record_status_simps, simp_all)+

lemma chain_ok_check: "chain_ok s (checkNext dp now i s)"
  by (auto simp: checkNext_def Let_def chain_ok_parts intro!: chain_okI [where i = i] split: option.split)

lemma chain_ok_answer: "chain_ok s (answer_breach stamp i a s)"
proof (cases "br_stage (bs_runs s ! i)")
  case (AwaitEntry t)
  then show ?thesis
    by (cases a) (auto simp: answer_breach_def Let_def chain_ok_parts intro!: chain_okI [where i = i])
next
  case (AwaitCheck t)
  then show ?thesis
    by (cases a) (auto simp: answer_breach_def Let_def chain_ok_parts intro!: chain_okI [where i = i])
next
  case AwaitStatus
  then show ?thesis
    by (cases a; cases "i < length (bs_runs s)")
       (auto simp: answer_breach_def Let_def chain_ok_parts list_update_beyond not_less intro!: chain_okI [where i = i])
next
  case AwaitSave
  then show ?thesis by (cases a) (auto simp: answer_breach_def Let_def chain_ok_parts)
qed (simp_all add: answer_breach_def Let_def)

lemma cleanup_inactive:
  assumes "one_active s" and "i < length (bs_runs s)"
  shows "\<not> br_active (bs_runs (cleanup_breach s) ! i)"
proof (cases "bs_current s")
  case None
  with assms show ?thesis by (auto simp: cleanup_breach_def one_active_def)
next
  case (Some j)
  with assms show ?thesis by (cases "i = j") (auto simp: cleanup_breach_def one_active_def Let_def)
qed

lemma cleanup_simps [simp]:
  "length (bs_runs (cleanup_breach s)) = length (bs_runs s)" "bs_es (cleanup_breach s) = bs_es s"
  "bs_current (cleanup_breach s) = None" "bs_deps (cleanup_breach s) = bs_deps s"
  "bs_network (cleanup_breach s) = bs_network s"
  by (auto simp: cleanup_breach_def put_run_def breach_call_made_def Let_def split: option.split)

lemma current_deps_cleanup [simp]: "current_deps (cleanup_breach s) = current_deps s"
  by (simp add: current_deps_def)

lemma one_active_none:
  "(\<And>i. i < length (bs_runs s) \<Longrightarrow> \<not> br_active (bs_runs s ! i)) \<Longrightarrow> bs_current s = None \<Longrightarrow> one_active s"
  by (auto simp: one_active_def)

lemma one_active_start:
  assumes "one_active s"
  shows "one_active ((start_breach (cleanup_breach s))\<lparr>bs_deps := Some (current_deps s)\<rparr>)"
proof (cases "deps_enabled (current_deps s)")
  case True
  let ?c = "cleanup_breach s"
  have "\<And>i. i < length (bs_runs ?c) \<Longrightarrow> \<not> br_active (bs_runs ?c ! i)"
    using cleanup_inactive [OF assms] by simp
  with True show ?thesis
    by (auto simp: start_breach_def one_active_def nth_append less_Suc_eq)
next
  case False
  then show ?thesis
    using cleanup_inactive [OF assms] by (intro one_active_none) (simp_all add: start_breach_def)
qed

lemma one_active_frames [simp]:
  "one_active (s\<lparr>bs_es := e\<rparr>) = one_active s" "one_active (s\<lparr>bs_network := b\<rparr>) = one_active s"
  "one_active (s\<lparr>bs_entriesRef := l\<rparr>) = one_active s"
  by (simp_all add: one_active_def)

lemma one_active_render: "one_active s \<Longrightarrow> one_active (render_breach s)"
  by (simp add: render_breach_def Let_def one_active_start)

lemma one_active_unmount: "one_active s \<Longrightarrow> one_active (unmount_breach s)"
  using cleanup_inactive [of s] by (intro one_active_none) (simp_all add: unmount_breach_def)

lemma one_active_permission: "one_active (answer_permission p s) = one_active s"
  by (simp add: answer_permission_def one_active_def split: list.split)

lemma one_active_entries: "one_active s \<Longrightarrow> one_active (in_entries e s)"
  by (cases e) (simp_all add: in_entries_def one_active_render)

lemma one_active_step [inv_steps]: "one_active s \<Longrightarrow> one_active (breach_step dp e s)"
  by (cases e)
     (simp_all add: one_active_entries one_active_unmount one_active_permission
        one_active_chain [OF _ chain_ok_check] one_active_chain [OF _ chain_ok_answer])

interpretation breach_active: invariant_machine "breach_step dp" one_active
  by unfold_locales (rule one_active_step)

lemma one_active_mount: "one_active (mount_breach network permission e)"
  unfolding mount_breach_def by (rule one_active_render) (simp add: one_active_def)

text \<open>The passwords sent to the breach service so far.\<close>

definition checked_passwords :: "breach_state \<Rightarrow> string list" where
  "checked_passwords s = List.map_filter (\<lambda>c. case c of CheckPassword p \<Rightarrow> Some p | _ \<Rightarrow> None) (bs_calls s)"

lemma checked_call [simp]:
  "checked_passwords (breach_call_made c s) =
     checked_passwords s @ (case c of CheckPassword p \<Rightarrow> [p] | _ \<Rightarrow> [])"
  by (simp add: checked_passwords_def List.map_filter_def split: breach_call.split)

lemma checked_same: "bs_calls s' = bs_calls s \<Longrightarrow> checked_passwords s' = checked_passwords s"
  by (simp add: checked_passwords_def)

lemma checked_parts [simp]:
  "checked_passwords (finish_run i s) = checked_passwords s"
  "checked_passwords (reschedule i s) = checked_passwords s"
  "checked_passwords (put_run i r s) = checked_passwords s"
  "checked_passwords (notify_leak x s) = checked_passwords s"
  "checked_passwords (s\<lparr>bs_es := e\<rparr>) = checked_passwords s"
  "checked_passwords (record_status i x st s) = checked_passwords s"
  by (simp_all add: checked_passwords_def List.map_filter_def)

lemma checked_cleanup: "checked_passwords (cleanup_breach s) = checked_passwords s"
  by (auto simp: cleanup_breach_def put_run_def breach_call_made_def checked_passwords_def List.map_filter_def Let_def
      split: option.split)

lemma checked_render: "checked_passwords (render_breach s) = checked_passwords s"
proof -
  have "checked_passwords (start_breach s') = checked_passwords s'" for s'
    by (simp add: start_breach_def checked_passwords_def)
  moreover have "checked_passwords (s'\<lparr>bs_deps := d\<rparr>) = checked_passwords s'"
      "checked_passwords (s'\<lparr>bs_entriesRef := l\<rparr>) = checked_passwords s'" for s' d l
    by (simp_all add: checked_passwords_def)
  ultimately show ?thesis by (simp add: render_breach_def Let_def checked_cleanup)
qed

lemma checked_check: "checked_passwords (checkNext dp now i s) = checked_passwords s"
  by (simp add: checkNext_def Let_def split: option.split)

text \<open>An answer contacts the breach service only in a live run that has just read an entry.\<close>

lemma checked_answer:
  assumes "checked_passwords (answer_breach stamp i a s) \<noteq> checked_passwords s"
  shows "\<exists>target raw. br_stage (bs_runs s ! i) = AwaitEntry target \<and> a = EntryAnswer raw \<and>
    run_live (bs_runs s ! i) s \<and>
    checked_passwords (answer_breach stamp i a s) =
      checked_passwords s @ [pe_password (decryptedEntryToPasswordEntry raw)]"
  using assms
  by (cases "br_stage (bs_runs s ! i)"; cases a)
     (auto simp: answer_breach_def Let_def split: if_splits)

lemma checked_frames [simp]:
  "checked_passwords (s\<lparr>bs_network := b\<rparr>) = checked_passwords s"
  "checked_passwords (answer_permission p s) = checked_passwords s"
  "checked_passwords (unmount_breach s) = checked_passwords s"
proof -
  have "bs_calls (answer_permission p s) = bs_calls s" by (simp add: answer_permission_def split: list.split)
  moreover have "checked_passwords (unmount_breach s) = checked_passwords (cleanup_breach s)"
    by (rule checked_same) (simp add: unmount_breach_def)
  ultimately show "checked_passwords (answer_permission p s) = checked_passwords s"
      "checked_passwords (unmount_breach s) = checked_passwords s"
    by (auto intro: checked_same simp: checked_cleanup)
qed (simp_all add: checked_passwords_def)

lemma checked_step:
  assumes "checked_passwords (breach_step dp ev s) \<noteq> checked_passwords s"
  shows "\<exists>i stamp a. ev = AnswerCheck i stamp a \<and> i < length (bs_runs s)"
proof -
  have "checked_passwords (in_entries e s) = checked_passwords s" for e
    by (cases e) (simp_all add: in_entries_def checked_render)
  with assms show ?thesis by (cases ev) (auto simp: checked_check split: if_splits)
qed

text \<open>A session with one entry, unlocked, with breach checks on.\<close>

definition breach_sample_entries :: entries_state where
  "breach_sample_entries =
     (mount_session (unlocked_auth\<lparr>au_currentVault := Some \<lparr>va_id = ''v'', va_name = ''n'', va_path = ''p''\<rparr>\<rparr>) True
        (DEFAULT_SETTINGS\<lparr>st_autoBreachCheck := True\<rparr>))
       \<lparr>es_entries := [passwordEntryToPreview sample_entry], es_viewEntries := [passwordEntryToPreview sample_entry]\<rparr>"

definition breach_sample :: breach_state where
  "breach_sample = mount_breach True None breach_sample_entries"

lemmas breach_sample_eval =
  breach_sample_def breach_sample_entries_def mount_breach_def render_breach_def start_breach_def cleanup_breach_def
  current_deps_def deps_enabled_def DEFAULT_SETTINGS_def unlocked_eval Let_def

lemma breach_sample_checks:
  "checked_passwords (breach_step (\<lambda>_. None) (AnswerCheck 0 [] (EntryAnswer sample_decrypted))
       (run (breach_step (\<lambda>_. None)) [FireCheck 0 0] breach_sample)) = [''s3cret'']"
  by (simp add: breach_sample_eval checkNext_def timer_pending_def answer_breach_def run_live_def needsBreachRecheck_def
      passwordEntryToPreview_def sample_entry_def checked_passwords_def List.map_filter_def put_run_def
      breach_call_made_def decryptedEntryToPasswordEntry_def sample_decrypted_def js_eval)

text \<open>
  No password leaves for the breach service against the settings: whatever has
  happened before, a step sends one only when an entry has just been read by the run of the last
  effect, which is still active, in the session it started in, unlocked, and whose dependencies
  are those of the last render: network access granted, breach checks on, not in airgap mode.
\<close>

theorem breach_checks_gated:
  assumes "s = run (breach_step dp) es (mount_breach network permission e)"
    and "checked_passwords (breach_step dp ev s) \<noteq> checked_passwords s"
  shows "\<exists>i d target raw stamp. ev = AnswerCheck i stamp (EntryAnswer raw) \<and> bs_current s = Some i \<and>
    br_stage (bs_runs s ! i) = AwaitEntry target \<and> es_current (bs_es s) (br_session (bs_runs s ! i)) \<and>
    bs_deps s = Some d \<and> bd_network d \<and> bd_auto d \<and> \<not> bd_locked d \<and> bd_mode d \<noteq> Some Airgap \<and>
    checked_passwords (breach_step dp ev s) =
      checked_passwords s @ [pe_password (decryptedEntryToPasswordEntry raw)]"
proof -
  have inv: "one_active s" unfolding assms(1) by (intro breach_active.run_inv one_active_mount)
  obtain i stamp a where ev: "ev = AnswerCheck i stamp a" and i: "i < length (bs_runs s)"
    using checked_step [OF assms(2)] by blast
  with assms(2) have ne: "checked_passwords (answer_breach stamp i a s) \<noteq> checked_passwords s" by simp
  from checked_answer [OF this] obtain target raw where ans:
      "br_stage (bs_runs s ! i) = AwaitEntry target" "a = EntryAnswer raw" "run_live (bs_runs s ! i) s"
      "checked_passwords (answer_breach stamp i a s) = checked_passwords s @ [pe_password (decryptedEntryToPasswordEntry raw)]"
    by blast
  from ans(3) have "br_active (bs_runs s ! i)" by (simp add: run_live_def)
  with inv i have "bs_current s = Some i" unfolding one_active_def by blast
  moreover from this inv obtain d where d: "bs_deps s = Some d" "deps_enabled d"
    unfolding one_active_def by blast
  moreover from d have "bd_network d" "bd_auto d" "\<not> bd_locked d" "bd_mode d \<noteq> Some Airgap"
    by (simp_all add: deps_enabled_def)
  moreover have "es_current (bs_es s) (br_session (bs_runs s ! i))"
    using ans(3) by (simp add: run_live_def)
  moreover have "ev = AnswerCheck i stamp (EntryAnswer raw)" using ev ans(2) by simp
  moreover have "checked_passwords (breach_step dp ev s) =
      checked_passwords s @ [pe_password (decryptedEntryToPasswordEntry raw)]"
    unfolding ev breach_step.simps if_P [OF i] by (rule ans(4))
  ultimately show ?thesis using ans(1) by blast
qed


theorem breach_checks_gated_witness:
  "\<exists>d. bs_deps (run (breach_step (\<lambda>_. None)) [FireCheck 0 0] (mount_breach True None breach_sample_entries)) = Some d \<and>
     bd_network d \<and> bd_auto d"
proof -
  let ?s = "run (breach_step (\<lambda>_. None)) [FireCheck 0 0] (mount_breach True None breach_sample_entries)"
  have "checked_passwords ?s = []"
    by (simp add: breach_sample_eval checkNext_def timer_pending_def run_live_def needsBreachRecheck_def
        passwordEntryToPreview_def sample_entry_def checked_passwords_def List.map_filter_def put_run_def breach_call_made_def)
  with breach_sample_checks
  have "checked_passwords (breach_step (\<lambda>_. None) (AnswerCheck 0 [] (EntryAnswer sample_decrypted)) ?s) \<noteq> checked_passwords ?s"
    by (simp add: breach_sample_def del: breach_step.simps run_Cons)
  from breach_checks_gated [OF refl this] show ?thesis by blast
qed

section \<open>A run ends\<close>

text \<open>
  The back end answers each waiting point of a run in the way that fits it, or fails; \<open>a\<close> says
  how, for every waiting point. \<open>advance_run\<close> is the next event of run \<open>i\<close>.
\<close>

fun fits :: "breach_stage \<Rightarrow> breach_answer \<Rightarrow> bool" where
  "fits (AwaitEntry t) (EntryAnswer d) = True"
| "fits (AwaitCheck t) (BreachAnswer r) = True"
| "fits AwaitStatus DoneAnswer = True"
| "fits AwaitSave DoneAnswer = True"
| "fits st BreachFailure = True"
| "fits st x = False"

definition advance_run ::
  "(string \<Rightarrow> int option) \<Rightarrow> int \<Rightarrow> string \<Rightarrow> (breach_stage \<Rightarrow> breach_answer) \<Rightarrow> nat \<Rightarrow> breach_state \<Rightarrow> breach_state"
where
  "advance_run dp now stamp a i s =
     (if timer_pending i s then breach_step dp (FireCheck i now) s
      else breach_step dp (AnswerCheck i stamp (a (br_stage (bs_runs s ! i)))) s)"

fun stage_weight :: "breach_stage \<Rightarrow> nat" where
  "stage_weight (AwaitEntry t) = 5"
| "stage_weight (AwaitCheck t) = 4"
| "stage_weight AwaitStatus = 3"
| "stage_weight (Timer d) = 2"
| "stage_weight AwaitSave = 1"
| "stage_weight Finished = 0"

text \<open>The entries a run has not yet attempted, and how many events it can still take.\<close>

definition unattempted :: "breach_run \<Rightarrow> password_entry list \<Rightarrow> nat" where
  "unattempted r es = length (filter (\<lambda>e. pe_id e \<notin> set (br_attempted r)) es)"

definition run_measure :: "nat \<Rightarrow> breach_state \<Rightarrow> nat" where
  "run_measure i s = 4 * unattempted (bs_runs s ! i) (bs_entriesRef s) + stage_weight (br_stage (bs_runs s ! i))"

lemma unattempted_stage [simp]:
  "unattempted (r\<lparr>br_stage := st\<rparr>) es = unattempted r es"
  "unattempted (r\<lparr>br_dirty := b\<rparr>) es = unattempted r es"
  by (simp_all add: unattempted_def)

lemma unattempted_less:
  assumes "e \<in> set es" and "pe_id e \<notin> set (br_attempted r)"
  shows "unattempted (r\<lparr>br_attempted := br_attempted r @ [pe_id e]\<rparr>) es < unattempted r es"
  using assms
proof (induction es)
  case (Cons x es)
  have le: "unattempted (r\<lparr>br_attempted := br_attempted r @ [pe_id e]\<rparr>) es \<le> unattempted r es"
    unfolding unattempted_def by (induction es) auto
  from Cons le show ?case by (cases "x = e") (auto simp: unattempted_def)
qed simp

lemma check_decreases:
  assumes "i < length (bs_runs s)" and "br_stage (bs_runs s ! i) = Timer d"
  shows "run_measure i (checkNext dp now i s) < run_measure i s"
proof (cases "List.find (\<lambda>e. pe_id e \<notin> set (br_attempted (bs_runs s ! i)) \<and>
    needsBreachRecheck dp (pe_breachStatus e) now) (bs_entriesRef s)")
  case None
  with assms show ?thesis by (simp add: checkNext_def run_measure_def Let_def)
next
  case (Some e)
  let ?r = "bs_runs s ! i"
  from Some have "e \<in> set (bs_entriesRef s)" "pe_id e \<notin> set (br_attempted ?r)"
    by (auto simp: find_Some_iff)
  from unattempted_less [OF this] Some assms show ?thesis
    by (simp add: checkNext_def run_measure_def unattempted_def Let_def)
qed

lemma answer_decreases:
  assumes "i < length (bs_runs s)" and "br_stage (bs_runs s ! i) \<noteq> Finished" and "\<not> timer_pending i s"
    and "fits (br_stage (bs_runs s ! i)) a"
  shows "run_measure i (answer_breach stamp i a s) < run_measure i s"
  using assms
  by (cases "br_stage (bs_runs s ! i)"; cases a)
     (auto simp: answer_breach_def run_measure_def timer_pending_def Let_def)

lemma advance_entriesRef [simp]: "bs_entriesRef (advance_run dp now stamp a i s) = bs_entriesRef s"
  by (cases "br_stage (bs_runs s ! i)"; cases "a (br_stage (bs_runs s ! i))")
     (simp_all add: advance_run_def checkNext_def answer_breach_def Let_def split: option.split)

lemma advance_length [simp]: "length (bs_runs (advance_run dp now stamp a i s)) = length (bs_runs s)"
  using chain_ok_check [of s dp now i] chain_ok_answer [of s stamp i "a (br_stage (bs_runs s ! i))"]
  by (auto simp: advance_run_def chain_ok_def)

lemma advance_finished:
  "br_stage (bs_runs s ! i) = Finished \<Longrightarrow> br_stage (bs_runs (advance_run dp now stamp a i s) ! i) = Finished"
  by (simp add: advance_run_def timer_pending_def answer_breach_def Let_def)

lemma advance_decreases:
  assumes "i < length (bs_runs s)" and "br_stage (bs_runs s ! i) \<noteq> Finished" and "\<forall>st. fits st (a st)"
  shows "run_measure i (advance_run dp now stamp a i s) < run_measure i s"
proof (cases "timer_pending i s")
  case True
  then obtain d where "br_stage (bs_runs s ! i) = Timer d"
    by (auto simp: timer_pending_def split: breach_stage.splits)
  with True assms show ?thesis by (simp add: advance_run_def check_decreases)
next
  case False
  with assms show ?thesis by (simp add: advance_run_def answer_decreases)
qed

lemma advance_ends:
  assumes "i < length (bs_runs s)" and "\<forall>st. fits st (a st)" and "run_measure i s \<le> n"
  shows "br_stage (bs_runs ((advance_run dp now stamp a i ^^ n) s) ! i) = Finished"
  using assms(1,3)
proof (induction n arbitrary: s)
  case 0
  then have "stage_weight (br_stage (bs_runs s ! i)) = 0" by (simp add: run_measure_def)
  then show ?case by (cases "br_stage (bs_runs s ! i)") simp_all
next
  case (Suc n)
  show ?case
  proof (cases "br_stage (bs_runs s ! i) = Finished")
    case True
    have "br_stage (bs_runs ((advance_run dp now stamp a i ^^ k) s) ! i) = Finished" for k
      by (induction k) (simp_all add: True advance_finished)
    then show ?thesis .
  next
    case False
    from advance_decreases [OF Suc.prems(1) False assms(2), of dp now stamp] Suc.prems
    have "br_stage (bs_runs ((advance_run dp now stamp a i ^^ n) (advance_run dp now stamp a i s)) ! i) = Finished"
      by (intro Suc.IH) simp_all
    then show ?thesis by (simp add: funpow_swap1)
  qed
qed

lemma run_measure_bound: "run_measure i s \<le> 4 * length (bs_entriesRef s) + 5"
proof -
  have "unattempted (bs_runs s ! i) (bs_entriesRef s) \<le> length (bs_entriesRef s)"
    by (simp add: unattempted_def)
  moreover have "stage_weight (br_stage (bs_runs s ! i)) \<le> 5"
    by (cases "br_stage (bs_runs s ! i)") simp_all
  ultimately show ?thesis by (simp add: run_measure_def)
qed

text \<open>A run looks each entry up at most once.\<close>

definition attempts_once :: "breach_state \<Rightarrow> bool" where
  "attempts_once s \<longleftrightarrow> (\<forall>r \<in> set (bs_runs s). distinct (br_attempted r))"

lemma attempts_update:
  assumes "attempts_once s" and "bs_runs s' = (bs_runs s)[i := r]"
    and "i < length (bs_runs s) \<Longrightarrow> distinct (br_attempted (bs_runs s ! i)) \<Longrightarrow> distinct (br_attempted r)"
  shows "attempts_once s'"
proof (cases "i < length (bs_runs s)")
  case True
  with assms have "distinct (br_attempted r)" by (simp add: attempts_once_def)
  with assms(1,2) show ?thesis
    unfolding attempts_once_def using set_update_subset_insert [of "bs_runs s" i r] by auto
next
  case False
  with assms show ?thesis by (simp add: attempts_once_def list_update_beyond)
qed

lemma attempts_frames [simp]:
  "attempts_once (s\<lparr>bs_es := e\<rparr>) = attempts_once s" "attempts_once (s\<lparr>bs_network := b\<rparr>) = attempts_once s"
  "attempts_once (s\<lparr>bs_entriesRef := l\<rparr>) = attempts_once s" "attempts_once (s\<lparr>bs_deps := d\<rparr>) = attempts_once s"
  "attempts_once (breach_call_made c s) = attempts_once s" "attempts_once (notify_leak x s) = attempts_once s"
  "attempts_once (answer_permission p s) = attempts_once s"
  by (simp_all add: attempts_once_def breach_call_made_def answer_permission_def split: list.split)

lemma attempts_parts:
  assumes "attempts_once s"
  shows "attempts_once (finish_run i s)" "attempts_once (reschedule i s)" "attempts_once (record_status i e st s)"
  by (rule attempts_update [OF assms], rule finish_run_simps reschedule_simps record_status_simps, simp)+

lemma attempts_put:
  "attempts_once s \<Longrightarrow> br_attempted r = br_attempted (bs_runs s ! i) \<Longrightarrow> attempts_once (put_run i r s)"
  by (erule attempts_update [where i = i and r = r]) simp_all

lemma attempts_check: "attempts_once s \<Longrightarrow> attempts_once (checkNext dp now i s)"
  by (auto simp: checkNext_def Let_def attempts_parts attempts_put find_Some_iff split: option.split
      intro!: attempts_update [of s _ i])

lemma attempts_answer: "attempts_once s \<Longrightarrow> attempts_once (answer_breach stamp i a s)"
  by (cases "br_stage (bs_runs s ! i)"; cases a) (auto simp: answer_breach_def Let_def attempts_parts attempts_put)

lemma attempts_cleanup: "attempts_once s \<Longrightarrow> attempts_once (cleanup_breach s)"
proof (cases "bs_current s")
  case (Some i)
  assume "attempts_once s"
  then show ?thesis
    by (rule attempts_update [where i = i and
          r = "(bs_runs s ! i)\<lparr>br_active := False, br_stage := (case br_stage (bs_runs s ! i) of Timer _ \<Rightarrow> Finished | st \<Rightarrow> st)\<rparr>"])
       (simp_all add: Some cleanup_breach_def Let_def)
qed (simp add: cleanup_breach_def)

lemma attempts_render: "attempts_once s \<Longrightarrow> attempts_once (render_breach s)"
proof -
  have "attempts_once s' \<Longrightarrow> attempts_once (start_breach s')" for s'
    by (auto simp: start_breach_def attempts_once_def)
  then show "attempts_once s \<Longrightarrow> attempts_once (render_breach s)"
    by (simp add: render_breach_def Let_def attempts_cleanup)
qed

lemma attempts_step [inv_steps]: "attempts_once s \<Longrightarrow> attempts_once (breach_step dp e s)"
proof -
  assume s: "attempts_once s"
  have "attempts_once (in_entries ev s)" for ev
    using s by (cases ev) (simp_all add: in_entries_def attempts_render)
  moreover have "attempts_once (unmount_breach s)"
    using attempts_cleanup [OF s] by (simp add: unmount_breach_def attempts_once_def)
  ultimately show ?thesis using s by (cases e) (simp_all add: attempts_check attempts_answer)
qed

lemma advance_attempts: "attempts_once s \<Longrightarrow> attempts_once (advance_run dp now stamp a i s)"
  unfolding advance_run_def using attempts_step by (auto simp del: breach_step.simps)

interpretation breach_once: invariant_machine "breach_step dp" attempts_once
  by unfold_locales (rule attempts_step)

lemma attempts_mount: "attempts_once (mount_breach network permission e)"
  unfolding mount_breach_def by (rule attempts_render) (simp add: attempts_once_def)

text \<open>
  Claim C39. A background check comes to an end and asks for each entry at most once: from any
  state the machine can reach, if the list stays as it is, run \<open>i\<close> has finished after at most
  four events for each listed entry and five more, whether the back end answers or fails at any
  of its waiting points, and the entries it has looked up are distinct.
\<close>

theorem breach_run_ends:
  assumes "s = run (breach_step dp) es (mount_breach network permission e)"
    and "i < length (bs_runs s)" and "\<forall>st. fits st (a st)" and "4 * length (bs_entriesRef s) + 5 \<le> n"
  shows "br_stage (bs_runs ((advance_run dp now stamp a i ^^ n) s) ! i) = Finished \<and>
    distinct (br_attempted (bs_runs ((advance_run dp now stamp a i ^^ n) s) ! i))"
proof
  have "run_measure i s \<le> n" using run_measure_bound [of i s] assms(4) by simp
  then show "br_stage (bs_runs ((advance_run dp now stamp a i ^^ n) s) ! i) = Finished"
    by (rule advance_ends [OF assms(2,3)])
  have s: "attempts_once s" unfolding assms(1) by (intro breach_once.run_inv attempts_mount)
  have "attempts_once ((advance_run dp now stamp a i ^^ n) s) \<and>
      length (bs_runs ((advance_run dp now stamp a i ^^ n) s)) = length (bs_runs s)"
    by (induction n) (simp_all add: s advance_attempts)
  then show "distinct (br_attempted (bs_runs ((advance_run dp now stamp a i ^^ n) s) ! i))"
    using assms(2) by (simp add: attempts_once_def)
qed

theorem breach_run_ends_witness:
  "br_stage (bs_runs ((advance_run (\<lambda>_. None) 0 [] (\<lambda>_. BreachFailure) 0 ^^ 9) breach_sample) ! 0) = Finished"
proof -
  have "\<forall>st. fits st BreachFailure" by (intro allI, rename_tac st, case_tac st) simp_all
  moreover have "0 < length (bs_runs breach_sample)" "4 * length (bs_entriesRef breach_sample) + 5 \<le> 9"
    by (simp_all add: breach_sample_eval)
  moreover have "breach_sample = run (breach_step (\<lambda>_. None)) [] (mount_breach True None breach_sample_entries)"
    by (simp add: breach_sample_def)
  ultimately show ?thesis using breach_run_ends [of breach_sample "\<lambda>_. None" "[]" True None breach_sample_entries 0
        "\<lambda>_. BreachFailure" 9 0 "[]"] by blast
qed

section \<open>What the verdicts do\<close>

text \<open>The list keeps its invariant: the effect only writes verdicts.\<close>

lemma breach_list_safe: "safe_list (bs_es s) \<Longrightarrow> safe_list (bs_es (breach_step dp e s))"
proof -
  assume s: "safe_list (bs_es s)"
  have sb: "safe_list x \<Longrightarrow> safe_list (set_breach i st x)" for i st x
    by (auto simp: safe_list_def only_id_def)
  have toast: "safe_list (addToast m k x) = safe_list x" for m k x
    by (simp add: safe_list_def)
  have render: "bs_es (render_breach x) = bs_es x" for x
    by (simp add: render_breach_def start_breach_def Let_def)
  have "safe_list (bs_es (in_entries ev s))" for ev
    using safe_step [OF s, of ev] by (cases ev) (simp_all add: in_entries_def render del: entries_step.simps)
  moreover have "safe_list (bs_es (checkNext dp now i s))" for now i
    using s by (simp add: checkNext_def Let_def split: option.split)
  moreover have "safe_list (bs_es (answer_breach stamp i a s))" for stamp i a
    using s by (cases "br_stage (bs_runs s ! i)"; cases a) (auto simp: answer_breach_def Let_def sb toast)
  ultimately show ?thesis
    using s by (cases e) (simp_all add: unmount_breach_def answer_permission_def split: list.split)
qed

text \<open>
  A run that is cleaned up while its verdict is on the way to the native side remembers unsaved
  changes only after the cleanup has looked for them: nothing saves the verdict.
\<close>

lemma breach_verdict_unsaved:
  assumes "bs_current s = Some i" and "i < length (bs_runs s)" and "br_stage (bs_runs s ! i) = AwaitStatus"
    and "\<not> br_dirty (bs_runs s ! i)"
  shows "bs_calls (answer_breach stamp i DoneAnswer (cleanup_breach s)) = bs_calls s \<and>
    br_stage (bs_runs (answer_breach stamp i DoneAnswer (cleanup_breach s)) ! i) = Finished \<and>
    br_dirty (bs_runs (answer_breach stamp i DoneAnswer (cleanup_breach s)) ! i)"
  using assms by (simp add: cleanup_breach_def answer_breach_def run_live_def Let_def)

text \<open>A password that has become known as leaked is announced once, and the verdict is shown.\<close>

lemma leak_announced:
  assumes "br_stage (bs_runs s ! i) = AwaitCheck e" and "run_live (bs_runs s ! i) s" and "was_safe e"
    and "br_is_breached res"
  shows "es_toasts (bs_es (answer_breach stamp i (BreachAnswer res) s)) =
      es_toasts (bs_es s) @ [(leak_warning (pe_title e), ToastError)]"
  using assms by (simp add: answer_breach_def set_breach_def map_entries_def map_selected_def addToast_def Let_def)

end
