(* ===== verification/P2p_Sync.thy ===== *)
theory P2p_Sync
  imports Entries_State Settings_State
begin

text \<open>
  The peer-to-peer effects of \<open>EntriesContext.provider.tsx\<close>: the background listener, whose
  effect runs are serialised through a promise that outlives the sessions (lines 13 to 24 and
  283 to 362), and the periodic discovery (lines 364 to 410). A run of an effect keeps its
  closure and the point it waits at; every settled promise is an event.

  The provider re-renders with new inputs (lock state, vault, session generation, back end,
  network permission, settings): the event \<open>RenderListener\<close>. Refreshing the lists belongs to the entries
  machine; here it is a call that settles at some later time.
\<close>

section \<open>Inputs\<close>

record p2p_inputs =
  pi_locked :: bool
  pi_vault :: "vault option"
  pi_generation :: nat
  pi_backend :: bool
  pi_network :: bool
  pi_settings :: app_settings

text \<open>The key under which \<open>EntriesSession\<close> is mounted.\<close>

definition provider_scope :: "p2p_inputs \<Rightarrow> string" where
  "provider_scope p =
     (if pi_locked p then ''true'' else ''false'') @ '':'' @
     (case pi_vault p of None \<Rightarrow> [] | Some v \<Rightarrow> va_id v) @ '':'' @
     (case pi_vault p of None \<Rightarrow> [] | Some v \<Rightarrow> va_path v) @ '':'' @ show_nat (pi_generation p)"

definition shouldListen :: "p2p_inputs \<Rightarrow> bool option \<Rightarrow> bool" where
  "shouldListen p manual \<longleftrightarrow>
     pi_network p \<and> st_operationMode (pi_settings p) \<noteq> Some Airgap \<and>
     (case manual of Some b \<Rightarrow> b | None \<Rightarrow> truthy (st_p2pAutoListen (pi_settings p))) \<and>
     \<not> pi_locked p \<and> pi_backend p \<and> pi_vault p \<noteq> None"

section \<open>The listener\<close>

datatype listener_stage =
    AwaitPrevious
  | AwaitReady
  | AwaitSync
  | AwaitRefresh "merge_stats option"
  | Sleeping
  | ListenerDone

record listener_run =
  lr_instance :: nat
  lr_cancelled :: bool
  lr_stopped :: bool
  lr_locked :: bool
  lr_addr :: string
  lr_path :: string
  lr_stage :: listener_stage

record listener_deps =
  ld_listen :: bool
  ld_addr :: "string option"
  ld_backend :: bool
  ld_path :: "string option"
  ld_locked :: bool

datatype p2p_call =
    SubscribeReady
  | RunListener string string
  | CancelListener
  | RefreshAll
  | ScanDiscovery nat
  | RunClient string string

record listener_state =
  pp_inputs :: p2p_inputs
  pp_manual :: "bool option"
  pp_scope :: string
  pp_scopeLocked :: bool
  pp_instance :: nat
  pp_listening :: bool
  pp_deps :: "listener_deps option"
  pp_current :: "nat option"
  pp_runs :: "listener_run list"
  pp_calls :: "p2p_call list"
  pp_toasts :: "(message \<times> toast_type) list"
  pp_notices :: "message list"

definition listener_deps_of :: "p2p_inputs \<Rightarrow> bool option \<Rightarrow> listener_deps" where
  "listener_deps_of p manual =
     \<lparr>ld_listen = shouldListen p manual, ld_addr = st_p2pAddr (pi_settings p), ld_backend = pi_backend p,
      ld_path = map_option va_path (pi_vault p), ld_locked = pi_locked p\<rparr>"

definition put_listener :: "nat \<Rightarrow> listener_run \<Rightarrow> listener_state \<Rightarrow> listener_state" where
  "put_listener i r s = s\<lparr>pp_runs := (pp_runs s)[i := r]\<rparr>"

definition p2p_call_made :: "p2p_call \<Rightarrow> listener_state \<Rightarrow> listener_state" where
  "p2p_call_made c s = s\<lparr>pp_calls := pp_calls s @ [c]\<rparr>"

text \<open>\<open>setIsP2pListening\<close> in the closure of a run: an unmounted instance's state is gone.\<close>

definition set_listening :: "nat \<Rightarrow> bool \<Rightarrow> listener_state \<Rightarrow> listener_state" where
  "set_listening instance' b s = (if instance' = pp_instance s then s\<lparr>pp_listening := b\<rparr> else s)"

definition cleanup_listener :: "listener_state \<Rightarrow> listener_state" where
  "cleanup_listener s =
     (case pp_current s of
        None \<Rightarrow> s
      | Some i \<Rightarrow>
          let r = pp_runs s ! i
          in (set_listening (lr_instance r) False
                (p2p_call_made CancelListener (put_listener i (r\<lparr>lr_cancelled := True\<rparr>) s)))\<lparr>pp_current := None\<rparr>)"

definition start_listener :: "listener_state \<Rightarrow> listener_state" where
  "start_listener s =
     (let d = listener_deps_of (pp_inputs s) (pp_manual s)
      in if \<not> ld_listen d \<or> \<not> ld_backend d \<or> \<not> truthy_str (ld_path d) \<or> ld_locked d
         then s\<lparr>pp_deps := Some d\<rparr>
         else s\<lparr>pp_deps := Some d, pp_current := Some (length (pp_runs s)),
                pp_runs := pp_runs s @
                  [\<lparr>lr_instance = pp_instance s, lr_cancelled = False, lr_stopped = False, lr_locked = ld_locked d,
                    lr_addr = (if truthy_str (ld_addr d) then the (ld_addr d) else ''0.0.0.0:5322''),
                    lr_path = the (ld_path d), lr_stage = AwaitPrevious\<rparr>]\<rparr>)"

definition listener_effect :: "listener_state \<Rightarrow> listener_state" where
  "listener_effect s =
     (if pp_deps s = Some (listener_deps_of (pp_inputs s) (pp_manual s)) then s
      else start_listener (cleanup_listener s))"

text \<open>
  A render of the provider: a new scope unmounts the session (which cleans up), forgets the
  manual override unless this is an unlocking, and mounts a new session.
\<close>

definition render_listener :: "p2p_inputs \<Rightarrow> listener_state \<Rightarrow> listener_state" where
  "render_listener p s =
     (let scope = provider_scope p
      in if scope \<noteq> pp_scope s
         then let s = cleanup_listener s;
                  manual = (if pi_locked p \<or> \<not> pp_scopeLocked s then None else pp_manual s);
                  s = s\<lparr>pp_scope := scope, pp_scopeLocked := pi_locked p, pp_instance := Suc (pp_instance s),
                        pp_listening := False, pp_deps := None, pp_inputs := p, pp_manual := manual\<rparr>
              in listener_effect s
         else listener_effect (s\<lparr>pp_inputs := p\<rparr>))"

definition mount_listener :: "p2p_inputs \<Rightarrow> listener_state" where
  "mount_listener p =
     listener_effect
       \<lparr>pp_inputs = p, pp_manual = None, pp_scope = provider_scope p, pp_scopeLocked = pi_locked p,
        pp_instance = 0, pp_listening = False, pp_deps = None, pp_current = None, pp_runs = [],
        pp_calls = [], pp_toasts = [], pp_notices = []\<rparr>"

definition toggleP2pListener :: "bool option \<Rightarrow> listener_state \<Rightarrow> listener_state" where
  "toggleP2pListener enable s =
     (let current = (case pp_manual s of Some b \<Rightarrow> b | None \<Rightarrow> truthy (st_p2pAutoListen (pi_settings (pp_inputs s))))
      in s\<lparr>pp_manual := Some (case enable of Some b \<Rightarrow> b | None \<Rightarrow> \<not> current)\<rparr>)"

section \<open>The loop of one run\<close>

text \<open>
  The promise left in \<open>listenerTailRef\<close> when a run was cleaned up has settled: its loop has ended
  and the cancellation has been answered.
\<close>

definition tail_settled :: "listener_run \<Rightarrow> bool" where
  "tail_settled r \<longleftrightarrow> lr_stage r = ListenerDone \<and> lr_stopped r"

definition exit_loop :: "nat \<Rightarrow> listener_state \<Rightarrow> listener_state" where
  "exit_loop i s =
     (let r = pp_runs s ! i;
          s = put_listener i (r\<lparr>lr_stage := ListenerDone\<rparr>) s
      in if lr_cancelled r then s else set_listening (lr_instance r) False s)"

definition loop_head :: "nat \<Rightarrow> listener_state \<Rightarrow> listener_state" where
  "loop_head i s =
     (let r = pp_runs s ! i
      in if lr_cancelled r \<or> lr_locked r then exit_loop i s
         else p2p_call_made (RunListener (lr_addr r) (lr_path r))
                (put_listener i (r\<lparr>lr_stage := AwaitSync\<rparr>) (set_listening (lr_instance r) False s)))"

definition begin_listener :: "nat \<Rightarrow> listener_state \<Rightarrow> listener_state" where
  "begin_listener i s =
     (let r = pp_runs s ! i
      in if lr_stage r = AwaitPrevious \<and> (i = 0 \<or> tail_settled (pp_runs s ! (i - 1)))
         then if lr_cancelled r \<or> lr_locked r then put_listener i (r\<lparr>lr_stage := ListenerDone\<rparr>) s
              else p2p_call_made SubscribeReady (put_listener i (r\<lparr>lr_stage := AwaitReady\<rparr>) s)
         else s)"

definition listener_failed :: "nat \<Rightarrow> string \<Rightarrow> listener_state \<Rightarrow> listener_state" where
  "listener_failed i err s =
     (let r = pp_runs s ! i;
          s = put_listener i (r\<lparr>lr_stage := ListenerDone\<rparr>) s
      in if lr_cancelled r then s
         else (set_listening (lr_instance r) False s)\<lparr>pp_toasts := pp_toasts s @ [(Plain err, ToastError)]\<rparr>)"

definition ready_settled :: "nat \<Rightarrow> string option \<Rightarrow> listener_state \<Rightarrow> listener_state" where
  "ready_settled i err s =
     (case lr_stage (pp_runs s ! i) of
        AwaitReady \<Rightarrow> (case err of None \<Rightarrow> loop_head i s | Some e \<Rightarrow> listener_failed i e s)
      | _ \<Rightarrow> s)"

text \<open>The native side reports that the socket is bound, while the run is subscribed.\<close>

definition listener_ready :: "nat \<Rightarrow> listener_state \<Rightarrow> listener_state" where
  "listener_ready i s =
     (let r = pp_runs s ! i
      in case lr_stage r of
           AwaitPrevious \<Rightarrow> s
         | AwaitReady \<Rightarrow> s
         | ListenerDone \<Rightarrow> s
         | _ \<Rightarrow> if \<not> lr_cancelled r \<and> \<not> lr_locked r then set_listening (lr_instance r) True s else s)"

definition bind_failure :: string where
  "bind_failure = ''Failed to bind TCP listener''"

definition sync_settled :: "nat \<Rightarrow> string + merge_stats option \<Rightarrow> listener_state \<Rightarrow> listener_state" where
  "sync_settled i res s =
     (let r = pp_runs s ! i
      in case lr_stage r of
           AwaitSync \<Rightarrow>
             (case res of
                Inr stats \<Rightarrow>
                  if \<not> lr_cancelled r \<and> \<not> lr_locked r
                  then p2p_call_made RefreshAll (put_listener i (r\<lparr>lr_stage := AwaitRefresh stats\<rparr>) s)
                  else loop_head i s
              | Inl err \<Rightarrow>
                  let s = set_listening (lr_instance r) False s
                  in if \<not> lr_cancelled r \<and> has_sub bind_failure err
                     then exit_loop i (s\<lparr>pp_toasts := pp_toasts s @ [(Plain err, ToastError)]\<rparr>)
                     else if lr_cancelled r \<or> lr_locked r then exit_loop i s
                     else put_listener i (r\<lparr>lr_stage := Sleeping\<rparr>) s)
         | _ \<Rightarrow> s)"

definition changed_count :: "merge_stats option \<Rightarrow> nat" where
  "changed_count stats = (case stats of None \<Rightarrow> 0 | Some m \<Rightarrow> ms_entries_added m + ms_entries_updated m)"

definition peer_synced :: "string \<Rightarrow> string \<Rightarrow> merge_stats option \<Rightarrow> message" where
  "peer_synced changes clean stats =
     (if changed_count stats > 0 then Tr changes [(''count'', show_nat (changed_count stats))] else Tr clean [])"

definition refresh_settled :: "nat \<Rightarrow> listener_state \<Rightarrow> listener_state" where
  "refresh_settled i s =
     (case lr_stage (pp_runs s ! i) of
        AwaitRefresh stats \<Rightarrow>
          let m = peer_synced ''sync.toast_peer_synced_changes'' ''sync.toast_peer_synced_clean'' stats
          in loop_head i (s\<lparr>pp_toasts := pp_toasts s @ [(m, ToastSuccess)], pp_notices := pp_notices s @ [m]\<rparr>)
      | _ \<Rightarrow> s)"

definition wake_listener :: "nat \<Rightarrow> listener_state \<Rightarrow> listener_state" where
  "wake_listener i s = (case lr_stage (pp_runs s ! i) of Sleeping \<Rightarrow> loop_head i s | _ \<Rightarrow> s)"

text \<open>The answer to \<open>cancelP2pSyncListener\<close>, whatever it is.\<close>

definition stop_settled :: "nat \<Rightarrow> listener_state \<Rightarrow> listener_state" where
  "stop_settled i s =
     (let r = pp_runs s ! i
      in if lr_cancelled r then put_listener i (r\<lparr>lr_stopped := True\<rparr>) s else s)"

datatype listener_event =
    RenderListener p2p_inputs
  | ToggleListener "bool option"
  | BeginListener nat
  | ReadySettled nat "string option"
  | ListenerReady nat
  | SyncSettled nat "string + merge_stats option"
  | RefreshSettled nat
  | WakeListener nat
  | StopSettled nat

definition for_run :: "nat \<Rightarrow> (listener_state \<Rightarrow> listener_state) \<Rightarrow> listener_state \<Rightarrow> listener_state" where
  "for_run i f s = (if i < length (pp_runs s) then f s else s)"

fun listener_step :: "listener_event \<Rightarrow> listener_state \<Rightarrow> listener_state" where
  "listener_step (RenderListener p) s = render_listener p s"
| "listener_step (ToggleListener e) s = listener_effect (toggleP2pListener e s)"
| "listener_step (BeginListener i) s = for_run i (begin_listener i) s"
| "listener_step (ReadySettled i e) s = for_run i (ready_settled i e) s"
| "listener_step (ListenerReady i) s = for_run i (listener_ready i) s"
| "listener_step (SyncSettled i r) s = for_run i (sync_settled i r) s"
| "listener_step (RefreshSettled i) s = for_run i (refresh_settled i) s"
| "listener_step (WakeListener i) s = for_run i (wake_listener i) s"
| "listener_step (StopSettled i) s = for_run i (stop_settled i) s"

section \<open>One run at a time\<close>

lemma filter_at_most_one:
  assumes "\<And>i j. j < i \<Longrightarrow> i < length xs \<Longrightarrow> \<not> (P (xs ! i) \<and> P (xs ! j))"
  shows "length (filter P xs) \<le> 1"
proof (rule ccontr)
  let ?I = "{i. i < length xs \<and> P (xs ! i)}"
  assume "\<not> length (filter P xs) \<le> 1"
  then have "\<not> card ?I \<le> Suc 0" by (simp add: length_filter_conv_card)
  moreover have "finite ?I" by simp
  ultimately obtain i j where "i \<noteq> j" "i < length xs" "j < length xs" "P (xs ! i)" "P (xs ! j)"
    using card_le_Suc0_iff_eq [of ?I] by blast
  with assms show False by (metis linorder_neqE_nat)
qed


lemma put_listener_simps [simp]:
  "pp_runs (put_listener i r s) = (pp_runs s)[i := r]" "pp_inputs (put_listener i r s) = pp_inputs s"
  "pp_manual (put_listener i r s) = pp_manual s" "pp_deps (put_listener i r s) = pp_deps s"
  "pp_current (put_listener i r s) = pp_current s" "pp_calls (put_listener i r s) = pp_calls s"
  "pp_instance (put_listener i r s) = pp_instance s"
  by (simp_all add: put_listener_def)

lemma p2p_call_made_simps [simp]:
  "pp_runs (p2p_call_made c s) = pp_runs s" "pp_inputs (p2p_call_made c s) = pp_inputs s"
  "pp_manual (p2p_call_made c s) = pp_manual s" "pp_deps (p2p_call_made c s) = pp_deps s"
  "pp_current (p2p_call_made c s) = pp_current s" "pp_calls (p2p_call_made c s) = pp_calls s @ [c]"
  by (simp_all add: p2p_call_made_def)

lemma set_listening_simps [simp]:
  "pp_runs (set_listening n b s) = pp_runs s" "pp_inputs (set_listening n b s) = pp_inputs s"
  "pp_manual (set_listening n b s) = pp_manual s" "pp_deps (set_listening n b s) = pp_deps s"
  "pp_current (set_listening n b s) = pp_current s" "pp_calls (set_listening n b s) = pp_calls s"
  by (simp_all add: set_listening_def)

lemmas loop_defs =
  exit_loop_def loop_head_def begin_listener_def listener_failed_def ready_settled_def listener_ready_def
  sync_settled_def refresh_settled_def wake_listener_def stop_settled_def Let_def

text \<open>
  A step of the loop moves its own run only; it keeps what the closure captured, does not undo
  the end of the run, and leaves \<open>AwaitPrevious\<close> only when the promise of the run before has settled.
\<close>

definition run_moves :: "nat \<Rightarrow> listener_run \<Rightarrow> listener_run list \<Rightarrow> bool" where
  "run_moves i r rs \<longleftrightarrow>
     lr_cancelled r = lr_cancelled (rs ! i) \<and> lr_addr r = lr_addr (rs ! i) \<and> lr_path r = lr_path (rs ! i) \<and>
     (tail_settled (rs ! i) \<longrightarrow> tail_settled r) \<and>
     (lr_stage r \<noteq> AwaitPrevious \<longrightarrow> lr_stage (rs ! i) \<noteq> AwaitPrevious \<or> i = 0 \<or> tail_settled (rs ! (i - 1)))"

definition loop_moves :: "nat \<Rightarrow> listener_state \<Rightarrow> listener_state \<Rightarrow> bool" where
  "loop_moves i s s' \<longleftrightarrow>
     pp_inputs s' = pp_inputs s \<and> pp_manual s' = pp_manual s \<and> pp_deps s' = pp_deps s \<and>
     pp_current s' = pp_current s \<and> (\<exists>r. pp_runs s' = (pp_runs s)[i := r] \<and> run_moves i r (pp_runs s))"

lemma run_moves_refl [simp]: "run_moves i (rs ! i) rs"
  by (simp add: run_moves_def)

lemma loop_movesI:
  "pp_inputs s' = pp_inputs s \<Longrightarrow> pp_manual s' = pp_manual s \<Longrightarrow> pp_deps s' = pp_deps s \<Longrightarrow>
   pp_current s' = pp_current s \<Longrightarrow> pp_runs s' = (pp_runs s)[i := r] \<Longrightarrow> run_moves i r (pp_runs s) \<Longrightarrow>
   loop_moves i s s'"
  by (auto simp: loop_moves_def)

lemma loop_moves_refl [simp]: "loop_moves i s s"
  by (rule loop_movesI [where r = "pp_runs s ! i"]) simp_all

lemma loop_moves_runs: "loop_moves i s s' \<Longrightarrow> pp_runs t = pp_runs s \<Longrightarrow> pp_inputs t = pp_inputs s \<Longrightarrow>
  pp_manual t = pp_manual s \<Longrightarrow> pp_deps t = pp_deps s \<Longrightarrow> pp_current t = pp_current s \<Longrightarrow> loop_moves i t s'"
  by (simp add: loop_moves_def)

lemma moves_exit:
  assumes "lr_stage (pp_runs s ! i) \<noteq> AwaitPrevious"
  shows "loop_moves i s (exit_loop i s)"
  by (rule loop_movesI [where r = "(pp_runs s ! i)\<lparr>lr_stage := ListenerDone\<rparr>"])
     (simp_all add: exit_loop_def Let_def run_moves_def tail_settled_def assms)

lemma moves_head:
  assumes "lr_stage (pp_runs s ! i) \<noteq> AwaitPrevious" and "lr_stage (pp_runs s ! i) \<noteq> ListenerDone"
  shows "loop_moves i s (loop_head i s)"
proof (cases "lr_cancelled (pp_runs s ! i) \<or> lr_locked (pp_runs s ! i)")
  case True
  then show ?thesis using moves_exit [OF assms(1)] by (auto simp: loop_head_def Let_def)
next
  case False
  then show ?thesis
    by (intro loop_movesI [where r = "(pp_runs s ! i)\<lparr>lr_stage := AwaitSync\<rparr>"])
       (simp_all add: loop_head_def Let_def run_moves_def tail_settled_def assms)
qed

lemma moves_failed:
  assumes "lr_stage (pp_runs s ! i) \<noteq> AwaitPrevious"
  shows "loop_moves i s (listener_failed i e s)"
  by (rule loop_movesI [where r = "(pp_runs s ! i)\<lparr>lr_stage := ListenerDone\<rparr>"])
     (simp_all add: listener_failed_def Let_def run_moves_def tail_settled_def assms)

lemma moves_begin: "loop_moves i s (begin_listener i s)"
proof (cases "lr_stage (pp_runs s ! i) = AwaitPrevious \<and> (i = 0 \<or> tail_settled (pp_runs s ! (i - 1)))")
  case True
  then show ?thesis
    by (intro loop_movesI [where r = "(pp_runs s ! i)\<lparr>lr_stage :=
          (if lr_cancelled (pp_runs s ! i) \<or> lr_locked (pp_runs s ! i) then ListenerDone else AwaitReady)\<rparr>"])
       (simp_all add: begin_listener_def Let_def run_moves_def tail_settled_def)
next
  case False
  then show ?thesis unfolding begin_listener_def Let_def by (simp only: if_False loop_moves_refl)
qed

lemma moves_ready: "loop_moves i s (ready_settled i e s)"
  by (cases "lr_stage (pp_runs s ! i)"; cases e) (simp_all add: ready_settled_def moves_head moves_failed)

lemma moves_listening: "loop_moves i s (set_listening n b s)"
  by (rule loop_movesI [where r = "pp_runs s ! i"]) simp_all

lemma moves_native_ready: "loop_moves i s (listener_ready i s)"
  by (cases "lr_stage (pp_runs s ! i)") (simp_all add: listener_ready_def Let_def moves_listening)

lemma moves_sync: "loop_moves i s (sync_settled i res s)"
proof (cases "lr_stage (pp_runs s ! i) = AwaitSync")
  case True
  let ?r = "pp_runs s ! i"
  have stage: "lr_stage ?r \<noteq> AwaitPrevious" "lr_stage ?r \<noteq> ListenerDone" using True by simp_all
  show ?thesis
  proof (cases res)
    case (Inr stats)
    have "loop_moves i s (p2p_call_made RefreshAll (put_listener i (?r\<lparr>lr_stage := AwaitRefresh stats\<rparr>) s))"
      by (rule loop_movesI [where r = "?r\<lparr>lr_stage := AwaitRefresh stats\<rparr>"])
         (simp_all add: run_moves_def tail_settled_def True)
    with Inr True moves_head [OF stage] show ?thesis by (simp add: sync_settled_def Let_def)
  next
    case (Inl err)
    let ?s = "set_listening (lr_instance ?r) False s"
    have exits: "loop_moves i s (exit_loop i (?s\<lparr>pp_toasts := t\<rparr>))" "loop_moves i s (exit_loop i ?s)" for t
      using moves_exit [of "?s\<lparr>pp_toasts := t\<rparr>" i] moves_exit [of ?s i] stage
      by (auto intro: loop_moves_runs)
    have "loop_moves i s (put_listener i (?r\<lparr>lr_stage := Sleeping\<rparr>) ?s)"
      by (rule loop_movesI [where r = "?r\<lparr>lr_stage := Sleeping\<rparr>"]) (simp_all add: run_moves_def tail_settled_def True)
    with Inl True exits show ?thesis by (simp add: sync_settled_def Let_def)
  qed
next
  case False
  then show ?thesis by (cases "lr_stage (pp_runs s ! i)") (simp_all add: sync_settled_def Let_def)
qed

lemma moves_refresh: "loop_moves i s (refresh_settled i s)"
proof (cases "\<exists>stats. lr_stage (pp_runs s ! i) = AwaitRefresh stats")
  case True
  then obtain stats where st: "lr_stage (pp_runs s ! i) = AwaitRefresh stats" by blast
  have "loop_moves i s (loop_head i (s\<lparr>pp_toasts := t, pp_notices := n\<rparr>))" for t n
    using moves_head [of "s\<lparr>pp_toasts := t, pp_notices := n\<rparr>" i] by (rule loop_moves_runs) (simp_all add: st)
  then show ?thesis by (simp add: refresh_settled_def st Let_def)
next
  case False
  then show ?thesis by (cases "lr_stage (pp_runs s ! i)") (simp_all add: refresh_settled_def)
qed

lemma moves_wake: "loop_moves i s (wake_listener i s)"
  by (cases "lr_stage (pp_runs s ! i)") (simp_all add: wake_listener_def moves_head)

lemma moves_stop: "loop_moves i s (stop_settled i s)"
proof (cases "lr_cancelled (pp_runs s ! i)")
  case True
  then show ?thesis
    by (intro loop_movesI [where r = "(pp_runs s ! i)\<lparr>lr_stopped := True\<rparr>"])
       (simp_all add: stop_settled_def Let_def run_moves_def tail_settled_def)
qed (simp add: stop_settled_def)

lemmas loop_steps =
  moves_begin moves_ready moves_native_ready moves_sync moves_refresh moves_wake moves_stop

text \<open>The runs before one that has begun have ended and are stopped.\<close>

definition runs_ordered :: "listener_state \<Rightarrow> bool" where
  "runs_ordered s \<longleftrightarrow>
     (\<forall>i < length (pp_runs s). lr_stage (pp_runs s ! i) \<noteq> AwaitPrevious \<longrightarrow> (\<forall>j < i. tail_settled (pp_runs s ! j)))"

text \<open>
  Only the run of the last effect is not cancelled, the dependencies are those of the last render,
  and they ask for the listener, at the run's address and path.
\<close>

definition run_wanted :: "listener_state \<Rightarrow> listener_run \<Rightarrow> bool" where
  "run_wanted s r \<longleftrightarrow>
     shouldListen (pp_inputs s) (pp_manual s) \<and>
     lr_addr r = (if truthy_str (st_p2pAddr (pi_settings (pp_inputs s))) then the (st_p2pAddr (pi_settings (pp_inputs s)))
                  else ''0.0.0.0:5322'') \<and>
     Some (lr_path r) = map_option va_path (pi_vault (pp_inputs s))"

definition others_cancelled :: "listener_state \<Rightarrow> bool" where
  "others_cancelled s \<longleftrightarrow> (\<forall>i < length (pp_runs s). \<not> lr_cancelled (pp_runs s ! i) \<longrightarrow> pp_current s = Some i)"

definition last_wanted :: "listener_state \<Rightarrow> bool" where
  "last_wanted s \<longleftrightarrow>
     others_cancelled s \<and>
     (\<forall>i. pp_current s = Some i \<longrightarrow> i < length (pp_runs s) \<and>
        pp_deps s = Some (listener_deps_of (pp_inputs s) (pp_manual s)) \<and> run_wanted s (pp_runs s ! i))"

lemma ordered_moves:
  assumes "runs_ordered s" and "loop_moves i s s'" and "i < length (pp_runs s)"
  shows "runs_ordered s'"
proof -
  from assms(2) obtain r where runs: "pp_runs s' = (pp_runs s)[i := r]" and mv: "run_moves i r (pp_runs s)"
    by (auto simp: loop_moves_def)
  have settled: "tail_settled ((pp_runs s)[i := r] ! j)" if "tail_settled (pp_runs s ! j)" for j
    using that mv assms(3) by (cases "j = i") (auto simp: run_moves_def)
  have before: "tail_settled (pp_runs s ! j)" if "lr_stage r \<noteq> AwaitPrevious" "j < i" for j
  proof (cases "lr_stage (pp_runs s ! i) \<noteq> AwaitPrevious")
    case True
    with assms(1,3) that(2) show ?thesis by (auto simp: runs_ordered_def)
  next
    case False
    with mv that have prev: "tail_settled (pp_runs s ! (i - 1))" by (auto simp: run_moves_def)
    then have "lr_stage (pp_runs s ! (i - 1)) \<noteq> AwaitPrevious" by (simp add: tail_settled_def)
    moreover have "i - 1 < length (pp_runs s)" using assms(3) by simp
    ultimately have "\<forall>k < i - 1. tail_settled (pp_runs s ! k)" using assms(1) unfolding runs_ordered_def by blast
    with prev that(2) show ?thesis by (cases "j = i - 1") auto
  qed
  show ?thesis
    unfolding runs_ordered_def runs
  proof (intro allI impI)
    fix k j assume k: "k < length ((pp_runs s)[i := r])" "lr_stage ((pp_runs s)[i := r] ! k) \<noteq> AwaitPrevious" "j < k"
    show "tail_settled ((pp_runs s)[i := r] ! j)"
    proof (rule settled)
      show "tail_settled (pp_runs s ! j)"
      proof (cases "k = i")
        case True
        with k assms(3) before show ?thesis by simp
      next
        case False
        with k assms(1) show ?thesis by (auto simp: runs_ordered_def)
      qed
    qed
  qed
qed

lemma wanted_moves:
  assumes "last_wanted s" and "loop_moves i s s'"
  shows "last_wanted s'"
proof -
  from assms(2) obtain r where runs: "pp_runs s' = (pp_runs s)[i := r]" and mv: "run_moves i r (pp_runs s)"
    and frame: "pp_inputs s' = pp_inputs s" "pp_manual s' = pp_manual s" "pp_deps s' = pp_deps s"
      "pp_current s' = pp_current s"
    by (auto simp: loop_moves_def)
  have same: "lr_cancelled ((pp_runs s)[i := r] ! j) = lr_cancelled (pp_runs s ! j)"
      "lr_addr ((pp_runs s)[i := r] ! j) = lr_addr (pp_runs s ! j)"
      "lr_path ((pp_runs s)[i := r] ! j) = lr_path (pp_runs s ! j)" if "j < length (pp_runs s)" for j
    using that mv by (cases "j = i"; simp add: run_moves_def)+
  have wanted: "run_wanted s' ((pp_runs s)[i := r] ! j) = run_wanted s (pp_runs s ! j)" if "j < length (pp_runs s)" for j
    using same [OF that] frame by (simp add: run_wanted_def)
  show ?thesis
    unfolding last_wanted_def others_cancelled_def runs frame length_list_update
  proof (intro conjI allI impI)
    fix j assume "j < length (pp_runs s)" "\<not> lr_cancelled ((pp_runs s)[i := r] ! j)"
    then show "pp_current s = Some j" using assms(1) same(1) unfolding last_wanted_def others_cancelled_def by blast
  next
    fix j assume j: "pp_current s = Some j"
    with assms(1) show "j < length (pp_runs s)" and "pp_deps s = Some (listener_deps_of (pp_inputs s) (pp_manual s))"
      unfolding last_wanted_def by blast+
    from j assms(1) have "j < length (pp_runs s)" "run_wanted s (pp_runs s ! j)" unfolding last_wanted_def by blast+
    then show "run_wanted s' ((pp_runs s)[i := r] ! j)" using wanted by blast
  qed
qed

lemma cleanup_listener_runs:
  "length (pp_runs (cleanup_listener s)) = length (pp_runs s)"
  "lr_stage (pp_runs (cleanup_listener s) ! j) = lr_stage (pp_runs s ! j)"
  "lr_stopped (pp_runs (cleanup_listener s) ! j) = lr_stopped (pp_runs s ! j)"
  by (cases "pp_current s"; cases "pp_current s = Some j";
      cases "j < length (pp_runs s)"; simp add: cleanup_listener_def Let_def list_update_beyond)+

lemma cleanup_listener_frame [simp]:
  "pp_inputs (cleanup_listener s) = pp_inputs s" "pp_manual (cleanup_listener s) = pp_manual s"
  "pp_current (cleanup_listener s) = None" "pp_scopeLocked (cleanup_listener s) = pp_scopeLocked s"
  by (simp_all add: cleanup_listener_def put_listener_def set_listening_def p2p_call_made_def Let_def split: option.split)

lemma cleanup_listener_cancelled:
  assumes "others_cancelled s" and "j < length (pp_runs s)"
  shows "lr_cancelled (pp_runs (cleanup_listener s) ! j)"
proof (cases "lr_cancelled (pp_runs s ! j)")
  case True
  then show ?thesis
    using assms(2) by (cases "pp_current s"; cases "pp_current s = Some j") (auto simp: cleanup_listener_def Let_def nth_list_update)
next
  case False
  with assms have "pp_current s = Some j" unfolding others_cancelled_def by blast
  with assms(2) show ?thesis by (simp add: cleanup_listener_def Let_def)
qed

lemma tail_settled_cleanup [simp]:
  "tail_settled (pp_runs (cleanup_listener s) ! j) = tail_settled (pp_runs s ! j)"
  by (simp add: tail_settled_def cleanup_listener_runs)

lemma ordered_cleanup: "runs_ordered s \<Longrightarrow> runs_ordered (cleanup_listener s)"
  by (simp add: runs_ordered_def cleanup_listener_runs)

lemma wanted_cleanup: "others_cancelled s \<Longrightarrow> last_wanted (cleanup_listener s)"
  using cleanup_listener_cancelled [of s]
  by (simp add: last_wanted_def others_cancelled_def cleanup_listener_runs)

lemma ordered_start:
  assumes "runs_ordered s"
  shows "runs_ordered (start_listener s)"
  using assms by (auto simp: start_listener_def runs_ordered_def Let_def nth_append less_Suc_eq)

lemma truthy_str_the: "truthy_str x \<Longrightarrow> Some (the x) = x"
  by (cases x) simp_all

lemma wanted_start:
  assumes "last_wanted s" and "pp_current s = None"
  shows "last_wanted (start_listener s)"
proof -
  have "\<forall>i < length (pp_runs s). lr_cancelled (pp_runs s ! i)"
    using assms unfolding last_wanted_def others_cancelled_def by simp
  with assms(2) show ?thesis
    by (auto simp: start_listener_def last_wanted_def others_cancelled_def run_wanted_def listener_deps_of_def Let_def nth_append
        less_Suc_eq truthy_str_the split: option.splits)
qed

lemma start_listener_current [simp]:
  "pp_inputs (start_listener s) = pp_inputs s" "pp_manual (start_listener s) = pp_manual s"
  by (simp_all add: start_listener_def Let_def)

lemma ordered_effect: "runs_ordered s \<Longrightarrow> runs_ordered (listener_effect s)"
  by (simp add: listener_effect_def ordered_start ordered_cleanup)

lemma others_cancelled_frame [simp]:
  "others_cancelled (s\<lparr>pp_inputs := p\<rparr>) = others_cancelled s"
  "others_cancelled (s\<lparr>pp_manual := m\<rparr>) = others_cancelled s"
  by (simp_all add: others_cancelled_def)

text \<open>The effect restores what new inputs may have broken.\<close>

lemma wanted_effect:
  assumes "last_wanted s"
  shows "last_wanted (listener_effect (s\<lparr>pp_inputs := p, pp_manual := m\<rparr>))"
proof (cases "pp_deps s = Some (listener_deps_of p m)")
  case True
  have "run_wanted (s\<lparr>pp_inputs := p, pp_manual := m\<rparr>) (pp_runs s ! i) \<and> i < length (pp_runs s)"
    if "pp_current s = Some i" for i
  proof -
    from assms that have "i < length (pp_runs s)" "run_wanted s (pp_runs s ! i)"
        "listener_deps_of (pp_inputs s) (pp_manual s) = listener_deps_of p m"
      using True unfolding last_wanted_def by auto
    then show ?thesis by (simp add: run_wanted_def listener_deps_of_def)
  qed
  with True assms show ?thesis by (simp add: listener_effect_def last_wanted_def)
next
  case False
  have "others_cancelled (s\<lparr>pp_inputs := p, pp_manual := m\<rparr>)" using assms by (simp add: last_wanted_def)
  from wanted_start [OF wanted_cleanup [OF this]] False show ?thesis by (simp add: listener_effect_def)
qed

lemma ordered_frame: "pp_runs s' = pp_runs s \<Longrightarrow> runs_ordered s' = runs_ordered s"
  by (simp add: runs_ordered_def)

lemma ordered_render: "runs_ordered s \<Longrightarrow> runs_ordered (render_listener p s)"
proof -
  assume "runs_ordered s"
  then have "runs_ordered s'" if "pp_runs s' = pp_runs (cleanup_listener s) \<or> pp_runs s' = pp_runs s" for s'
    using that ordered_cleanup [of s] ordered_frame [of s'] by metis
  then show ?thesis unfolding render_listener_def Let_def by (auto intro!: ordered_effect)
qed

lemma wanted_render:
  assumes "last_wanted s"
  shows "last_wanted (render_listener p s)"
proof (cases "provider_scope p = pp_scope s")
  case True
  with wanted_effect [OF assms, of "pp_manual s" p] show ?thesis by (simp add: render_listener_def)
next
  case False
  have c: "last_wanted (cleanup_listener s)"
    using assms by (intro wanted_cleanup) (simp add: last_wanted_def)
  let ?t = "(cleanup_listener s)\<lparr>pp_scope := provider_scope p, pp_scopeLocked := pi_locked p,
      pp_instance := Suc (pp_instance s), pp_listening := False, pp_deps := None\<rparr>"
  have inst: "pp_instance (cleanup_listener s) = pp_instance s"
    by (simp add: cleanup_listener_def set_listening_def p2p_call_made_def put_listener_def Let_def split: option.split)
  from c have "last_wanted ?t" by (simp add: last_wanted_def others_cancelled_def)
  from wanted_effect [OF this, of "if pi_locked p \<or> \<not> pp_scopeLocked s then None else pp_manual s" p]
  show ?thesis using False by (simp add: render_listener_def inst Let_def cong: if_cong split del: if_split)
qed

text \<open>The invariant of the listener.\<close>

definition listener_ok :: "listener_state \<Rightarrow> bool" where
  "listener_ok s \<longleftrightarrow> runs_ordered s \<and> last_wanted s"

lemma listener_ok_moves:
  "listener_ok s \<Longrightarrow> (i < length (pp_runs s) \<Longrightarrow> loop_moves i s (f s)) \<Longrightarrow> listener_ok (for_run i f s)"
  using ordered_moves [of s i "f s"] wanted_moves [of s i "f s"] by (auto simp: listener_ok_def for_run_def)

lemma listener_ok_toggle:
  assumes "listener_ok s"
  shows "listener_ok (listener_effect (toggleP2pListener e s))"
proof -
  obtain m where t: "toggleP2pListener e s = s\<lparr>pp_manual := Some m\<rparr>" by (simp add: toggleP2pListener_def Let_def)
  have "last_wanted (listener_effect (s\<lparr>pp_manual := Some m\<rparr>))"
    using wanted_effect [of s "Some m" "pp_inputs s"] assms by (simp add: listener_ok_def)
  moreover have "runs_ordered (listener_effect (s\<lparr>pp_manual := Some m\<rparr>))"
    using assms ordered_frame [of "s\<lparr>pp_manual := Some m\<rparr>" s] by (intro ordered_effect) (simp add: listener_ok_def)
  ultimately show ?thesis by (simp add: t listener_ok_def)
qed

lemma listener_ok_step [inv_steps]: "listener_ok s \<Longrightarrow> listener_ok (listener_step e s)"
proof (cases e)
  case (RenderListener p)
  then show "listener_ok s \<Longrightarrow> ?thesis" by (simp add: listener_ok_def ordered_render wanted_render)
qed (simp_all add: listener_ok_toggle listener_ok_moves loop_steps)

interpretation listener: invariant_machine listener_step listener_ok
  by unfold_locales (rule listener_ok_step)

lemma listener_ok_mount: "listener_ok (mount_listener p)"
proof -
  let ?s = "\<lparr>pp_inputs = p, pp_manual = None, pp_scope = provider_scope p, pp_scopeLocked = pi_locked p,
        pp_instance = 0, pp_listening = False, pp_deps = None, pp_current = None, pp_runs = [],
        pp_calls = [], pp_toasts = [], pp_notices = []\<rparr>"
  have "last_wanted ?s" "runs_ordered ?s" by (simp_all add: last_wanted_def others_cancelled_def runs_ordered_def)
  then show ?thesis
    using wanted_effect [of ?s None p] by (simp add: mount_listener_def listener_ok_def ordered_effect)
qed

text \<open>
  Claim C18. At most one listener runs at a time: whatever locking, unlocking, vault switching,
  settings changes and manual toggling the provider goes through, and in whatever order its
  promises settle, at most one effect run is between subscribing and its end, so two runs never
  wait for the native listener (and its socket) at once.
\<close>

theorem listener_exclusive:
  "length (filter (\<lambda>r. lr_stage r \<noteq> AwaitPrevious \<and> lr_stage r \<noteq> ListenerDone)
      (pp_runs (run listener_step es (mount_listener p)))) \<le> 1"
proof -
  let ?s = "run listener_step es (mount_listener p)"
  have "runs_ordered ?s"
    using listener.run_inv [OF listener_ok_mount] by (simp add: listener_ok_def)
  then have "lr_stage (pp_runs ?s ! i) = AwaitPrevious \<or> lr_stage (pp_runs ?s ! j) = ListenerDone"
    if "j < i" "i < length (pp_runs ?s)" for i j
    using that unfolding runs_ordered_def tail_settled_def by blast
  then show ?thesis by (intro filter_at_most_one) blast
qed

section \<open>When the listener is asked for\<close>

text \<open>The addresses and paths the native listener has been started with.\<close>

definition native_listens :: "listener_state \<Rightarrow> (string \<times> string) list" where
  "native_listens s = List.map_filter (\<lambda>c. case c of RunListener a p \<Rightarrow> Some (a, p) | _ \<Rightarrow> None) (pp_calls s)"

lemma listens_call [simp]:
  "native_listens (p2p_call_made c s) =
     native_listens s @ (case c of RunListener a p \<Rightarrow> [(a, p)] | _ \<Rightarrow> [])"
  by (simp add: native_listens_def List.map_filter_def split: p2p_call.split)

lemma listens_frames [simp]:
  "native_listens (put_listener i r s) = native_listens s"
  "native_listens (set_listening n b s) = native_listens s"
  "native_listens (s\<lparr>pp_toasts := t\<rparr>) = native_listens s"
  "native_listens (s\<lparr>pp_notices := m\<rparr>) = native_listens s"
  "native_listens (s\<lparr>pp_inputs := x1\<rparr>) = native_listens s" "native_listens (s\<lparr>pp_manual := x2\<rparr>) = native_listens s"
  "native_listens (s\<lparr>pp_scope := x3\<rparr>) = native_listens s" "native_listens (s\<lparr>pp_scopeLocked := x4\<rparr>) = native_listens s"
  "native_listens (s\<lparr>pp_instance := x5\<rparr>) = native_listens s" "native_listens (s\<lparr>pp_listening := x6\<rparr>) = native_listens s"
  "native_listens (s\<lparr>pp_deps := x7\<rparr>) = native_listens s" "native_listens (s\<lparr>pp_current := x8\<rparr>) = native_listens s"
  "native_listens (exit_loop i s) = native_listens s"
  by (simp_all add: native_listens_def exit_loop_def Let_def)

text \<open>The start of a listener by run \<open>i\<close>: with the run's own address and path, unless it was cancelled.\<close>

definition listens_as :: "nat \<Rightarrow> listener_state \<Rightarrow> listener_state \<Rightarrow> bool" where
  "listens_as i s s' \<longleftrightarrow>
     native_listens s' = native_listens s \<or>
     (\<not> lr_cancelled (pp_runs s ! i) \<and>
      native_listens s' = native_listens s @ [(lr_addr (pp_runs s ! i), lr_path (pp_runs s ! i))])"

lemma listens_head: "listens_as i s (loop_head i s)"
  by (simp add: listens_as_def loop_head_def Let_def)

lemma listens_head_cancelled: "lr_cancelled (pp_runs s ! i) \<Longrightarrow> native_listens (loop_head i s) = native_listens s"
  by (simp add: loop_head_def Let_def)

lemma listens_loop:
  "listens_as i s (begin_listener i s)" "listens_as i s (ready_settled i e s)"
  "listens_as i s (listener_ready i s)" "listens_as i s (sync_settled i res s)"
  "listens_as i s (refresh_settled i s)" "listens_as i s (wake_listener i s)"
  "listens_as i s (stop_settled i s)"
proof -
  show "listens_as i s (begin_listener i s)" "listens_as i s (ready_settled i e s)"
    "listens_as i s (listener_ready i s)" "listens_as i s (sync_settled i res s)"
    "listens_as i s (wake_listener i s)" "listens_as i s (stop_settled i s)"
    using listens_head [of i s]
    by (simp_all add: begin_listener_def ready_settled_def listener_failed_def listener_ready_def sync_settled_def
        wake_listener_def stop_settled_def listens_as_def listens_head_cancelled Let_def split: listener_stage.split option.split sum.split)
  show "listens_as i s (refresh_settled i s)"
  proof (cases "lr_stage (pp_runs s ! i)")
    case (AwaitRefresh stats)
    have "listens_as i s (loop_head i (s\<lparr>pp_toasts := t, pp_notices := n\<rparr>))" for t n
      using listens_head [of i "s\<lparr>pp_toasts := t, pp_notices := n\<rparr>"] by (simp add: listens_as_def)
    with AwaitRefresh show ?thesis by (simp add: refresh_settled_def Let_def)
  qed (simp_all add: refresh_settled_def listens_as_def)
qed

lemma listens_render [simp]: "native_listens (render_listener p s) = native_listens s"
  "native_listens (listener_effect (toggleP2pListener en s)) = native_listens s"
proof -
  have start: "native_listens (start_listener x) = native_listens x" for x
    by (simp add: start_listener_def native_listens_def Let_def)
  have clean: "native_listens (cleanup_listener x) = native_listens x" for x
    by (simp add: cleanup_listener_def native_listens_def List.map_filter_def Let_def split: option.split)
  have effect: "native_listens (listener_effect x) = native_listens x" for x
    by (simp add: listener_effect_def start clean)
  show "native_listens (render_listener p s) = native_listens s"
    by (simp add: render_listener_def effect clean Let_def)
  show "native_listens (listener_effect (toggleP2pListener en s)) = native_listens s"
    by (simp add: effect toggleP2pListener_def Let_def)
qed

lemma listens_step:
  assumes "native_listens (listener_step ev s) \<noteq> native_listens s"
  shows "\<exists>i < length (pp_runs s). \<not> lr_cancelled (pp_runs s ! i) \<and>
    native_listens (listener_step ev s) = native_listens s @ [(lr_addr (pp_runs s ! i), lr_path (pp_runs s ! i))]"
proof -
  have one: "\<exists>k < length (pp_runs s). \<not> lr_cancelled (pp_runs s ! k) \<and>
      native_listens (for_run i f s) = native_listens s @ [(lr_addr (pp_runs s ! k), lr_path (pp_runs s ! k))]"
    if "listens_as i s (f s)" "native_listens (for_run i f s) \<noteq> native_listens s" for i f
    using that by (auto simp: for_run_def listens_as_def split: if_splits)
  show ?thesis
    using assms
  proof (cases ev)
    case (RenderListener p)
    with assms show ?thesis by simp
  next
    case (ToggleListener e)
    with assms show ?thesis by simp
  next
    case (BeginListener i)
    with assms one [of i "begin_listener i", OF listens_loop(1)] show ?thesis by simp
  next
    case (ReadySettled i e)
    with assms one [of i "ready_settled i e", OF listens_loop(2)] show ?thesis by simp
  next
    case (ListenerReady i)
    with assms one [of i "listener_ready i", OF listens_loop(3)] show ?thesis by simp
  next
    case (SyncSettled i r)
    with assms one [of i "sync_settled i r", OF listens_loop(4)] show ?thesis by simp
  next
    case (RefreshSettled i)
    with assms one [of i "refresh_settled i", OF listens_loop(5)] show ?thesis by simp
  next
    case (WakeListener i)
    with assms one [of i "wake_listener i", OF listens_loop(6)] show ?thesis by simp
  next
    case (StopSettled i)
    with assms one [of i "stop_settled i", OF listens_loop(7)] show ?thesis by simp
  qed
qed

text \<open>
  The listener opens a port only when it is wanted: a step starts the native listener
  only while the last render allows it (network access granted, not in airgap mode, unlocked,
  switched on by hand or in the settings), and then once, for the open vault's path and the
  configured address.
\<close>

theorem listener_gated:
  assumes "s = run listener_step es (mount_listener p)"
    and "native_listens (listener_step ev s) \<noteq> native_listens s"
  shows "pi_network (pp_inputs s) \<and> st_operationMode (pi_settings (pp_inputs s)) \<noteq> Some Airgap \<and>
    \<not> pi_locked (pp_inputs s) \<and>
    (pp_manual s = Some True \<or> pp_manual s = None \<and> truthy (st_p2pAutoListen (pi_settings (pp_inputs s)))) \<and>
    (\<exists>v addr. pi_vault (pp_inputs s) = Some v \<and> native_listens (listener_step ev s) = native_listens s @ [(addr, va_path v)])"
proof -
  have inv: "last_wanted s"
    unfolding assms(1) using listener.run_inv [OF listener_ok_mount] by (simp add: listener_ok_def)
  obtain i where i: "i < length (pp_runs s)" "\<not> lr_cancelled (pp_runs s ! i)"
    and call: "native_listens (listener_step ev s) = native_listens s @ [(lr_addr (pp_runs s ! i), lr_path (pp_runs s ! i))]"
    using listens_step [OF assms(2)] by blast
  then have "pp_current s = Some i" using inv unfolding last_wanted_def others_cancelled_def by blast
  then have "run_wanted s (pp_runs s ! i)" using inv unfolding last_wanted_def by blast
  then have want: "shouldListen (pp_inputs s) (pp_manual s)"
    and path: "Some (lr_path (pp_runs s ! i)) = map_option va_path (pi_vault (pp_inputs s))"
    by (simp_all add: run_wanted_def)
  from path obtain v where v: "pi_vault (pp_inputs s) = Some v" "lr_path (pp_runs s ! i) = va_path v"
    by (cases "pi_vault (pp_inputs s)") auto
  have "\<exists>v addr. pi_vault (pp_inputs s) = Some v \<and>
      native_listens (listener_step ev s) = native_listens s @ [(addr, va_path v)]"
    unfolding call v(2) using v(1) by blast
  with want show ?thesis by (auto simp: shouldListen_def split: option.splits)
qed

definition listening_inputs :: p2p_inputs where
  "listening_inputs =
     \<lparr>pi_locked = False, pi_vault = Some \<lparr>va_id = ''v'', va_name = ''n'', va_path = ''/v''\<rparr>, pi_generation = 1,
      pi_backend = True, pi_network = True, pi_settings = DEFAULT_SETTINGS\<lparr>st_p2pAutoListen := Some True\<rparr>\<rparr>"

lemmas listening_eval =
  listening_inputs_def mount_listener_def listener_effect_def start_listener_def cleanup_listener_def
  listener_deps_of_def shouldListen_def DEFAULT_SETTINGS_def for_run_def put_listener_def p2p_call_made_def
  set_listening_def Let_def

lemma sample_listens:
  "native_listens (listener_step (ReadySettled 0 None) (run listener_step [BeginListener 0] (mount_listener listening_inputs))) \<noteq>
   native_listens (run listener_step [BeginListener 0] (mount_listener listening_inputs))"
  by (simp add: listening_eval begin_listener_def ready_settled_def loop_head_def native_listens_def List.map_filter_def)

theorem listener_gated_witness:
  "pi_network (pp_inputs (run listener_step [BeginListener 0] (mount_listener listening_inputs)))"
  using listener_gated [OF refl sample_listens] by blast

text \<open>The settled promise a run waits for.\<close>

fun settles :: "listener_stage \<Rightarrow> nat \<Rightarrow> listener_event \<Rightarrow> bool" where
  "settles AwaitReady i (ReadySettled j e) = (j = i)"
| "settles AwaitSync i (SyncSettled j res) = (j = i)"
| "settles (AwaitRefresh st) i (RefreshSettled j) = (j = i)"
| "settles Sleeping i (WakeListener j) = (j = i)"
| "settles st i e = False"

lemma head_cancelled:
  "i < length (pp_runs s) \<Longrightarrow> lr_cancelled (pp_runs s ! i) \<Longrightarrow> lr_stage (pp_runs (loop_head i s) ! i) = ListenerDone"
  "i < length (pp_runs s) \<Longrightarrow> lr_cancelled (pp_runs s ! i) \<Longrightarrow> lr_stage (pp_runs (exit_loop i s) ! i) = ListenerDone"
  by (simp_all add: loop_head_def exit_loop_def Let_def)

text \<open>
  Claim C40. A cancelled listener goes away: once its effect was cleaned up, the next promise of a
  run that has begun, whichever way it settles, ends the run without starting the native listener
  again, so the run that waits for it is not held up by a loop.
\<close>

theorem cancelled_listener_ends:
  assumes "i < length (pp_runs s)" and "lr_cancelled (pp_runs s ! i)" and "settles (lr_stage (pp_runs s ! i)) i ev"
  shows "lr_stage (pp_runs (listener_step ev s) ! i) = ListenerDone \<and>
    native_listens (listener_step ev s) = native_listens s"
proof (cases "lr_stage (pp_runs s ! i)")
  case AwaitReady
  with assms obtain err where "ev = ReadySettled i err" by (cases ev) auto
  with AwaitReady assms show ?thesis
    by (cases err) (simp_all add: for_run_def ready_settled_def head_cancelled listens_head_cancelled listener_failed_def)
next
  case AwaitSync
  with assms obtain res where "ev = SyncSettled i res" by (cases ev) auto
  with AwaitSync assms show ?thesis
    by (cases res) (simp_all add: for_run_def sync_settled_def head_cancelled listens_head_cancelled Let_def)
next
  case (AwaitRefresh st)
  with assms have "ev = RefreshSettled i" by (cases ev) auto
  with AwaitRefresh assms show ?thesis
    by (simp add: for_run_def refresh_settled_def head_cancelled listens_head_cancelled Let_def)
next
  case Sleeping
  with assms have "ev = WakeListener i" by (cases ev) auto
  with Sleeping assms show ?thesis
    by (simp add: for_run_def wake_listener_def head_cancelled listens_head_cancelled)
qed (use assms(3) in simp_all)

theorem cancelled_listener_ends_witness:
  "lr_stage (pp_runs (listener_step (SyncSettled 0 (Inl ''closed''))
     (run listener_step [BeginListener 0, ReadySettled 0 None, ToggleListener None] (mount_listener listening_inputs))) ! 0) =
   ListenerDone"
proof -
  let ?s = "run listener_step [BeginListener 0, ReadySettled 0 None, ToggleListener None] (mount_listener listening_inputs)"
  have "0 < length (pp_runs ?s)" "lr_cancelled (pp_runs ?s ! 0)" "lr_stage (pp_runs ?s ! 0) = AwaitSync"
    by (simp_all add: listening_eval begin_listener_def ready_settled_def loop_head_def toggleP2pListener_def)
  then show ?thesis using cancelled_listener_ends [of 0 ?s "SyncSettled 0 (Inl ''closed'')"] by simp
qed

text \<open>Apart from the user's toggle only a render changes the manual override.\<close>

lemma manual_loop:
  assumes "\<And>i. loop_moves i s (f i s)"
  shows "pp_manual (for_run i (f i) s) = pp_manual s"
  using assms [of i] by (simp add: for_run_def loop_moves_def)

lemma manual_effect [simp]: "pp_manual (listener_effect s) = pp_manual s"
  by (simp add: listener_effect_def)

lemma manual_step:
  assumes "\<forall>en. ev \<noteq> ToggleListener en" and "pp_manual s = None"
  shows "pp_manual (listener_step ev s) = None"
  using assms
  by (cases ev)
     (simp_all add: render_listener_def Let_def manual_loop [where f = begin_listener, OF moves_begin]
       manual_loop [where f = "\<lambda>i. ready_settled i _", OF moves_ready] manual_loop [where f = listener_ready, OF moves_native_ready]
       manual_loop [where f = "\<lambda>i. sync_settled i _", OF moves_sync] manual_loop [where f = refresh_settled, OF moves_refresh]
       manual_loop [where f = wake_listener, OF moves_wake] manual_loop [where f = stop_settled, OF moves_stop])

text \<open>
  A manual override lasts for one session: when the provider renders a new scope that
  is locked, or leaves an unlocked one, the override is forgotten, and it stays so through every
  later lock and unlock until the user toggles the listener again.
\<close>

theorem override_per_session:
  assumes "provider_scope p \<noteq> pp_scope s" and "pi_locked p \<or> \<not> pp_scopeLocked s"
    and "\<forall>ev \<in> set es. \<forall>en. ev \<noteq> ToggleListener en"
  shows "pp_manual (run listener_step es (listener_step (RenderListener p) s)) = None"
proof -
  have "pp_manual (listener_step (RenderListener p) s) = None"
    using assms(1,2) by (simp add: render_listener_def Let_def)
  then have "pp_manual (run listener_step es s') = None" if "pp_manual s' = None" for s'
    using assms(3) that
  proof (induction es arbitrary: s')
    case (Cons ev es)
    then have "pp_manual (listener_step ev s') = None" by (intro manual_step) simp_all
    with Cons show ?case by simp
  qed simp
  then show ?thesis using \<open>pp_manual (listener_step (RenderListener p) s) = None\<close> by blast
qed

theorem override_per_session_witness:
  "pp_manual (run listener_step [RenderListener listening_inputs]
     (listener_step (RenderListener (listening_inputs\<lparr>pi_locked := True, pi_generation := 2\<rparr>))
        (run listener_step [ToggleListener (Some True)] (mount_listener listening_inputs)))) = None"
proof (rule override_per_session)
  show "provider_scope (listening_inputs\<lparr>pi_locked := True, pi_generation := 2\<rparr>) \<noteq>
      pp_scope (run listener_step [ToggleListener (Some True)] (mount_listener listening_inputs))"
    by (simp add: provider_scope_def listening_eval toggleP2pListener_def)
qed simp_all

end
