(* ===== verification/P2p_Discovery.thy ===== *)
theory P2p_Discovery
  imports P2p_Sync
begin

text \<open>
  The periodic discovery of peers (\<open>EntriesContext.provider.tsx\<close>, lines 364 to 410): an effect
  with a first timer and an interval; every firing scans for a peer and synchronises with it,
  unless the previous firing of the same effect run is still at it. A run keeps its closure (the vault
  path and \<open>syncing\<close>) and the point it waits at.
\<close>

section \<open>State\<close>

datatype scan_stage = ScanIdle | AwaitScan | AwaitClient | AwaitLists "merge_stats option"

record scan_run =
  sn_cancelled :: bool
  sn_syncing :: bool
  sn_path :: string
  sn_interval :: int
  sn_stage :: scan_stage

record scan_deps =
  sd_network :: bool
  sd_mode :: "operation_mode option"
  sd_wifi :: "bool option"
  sd_interval :: "int option"
  sd_language :: string
  sd_backend :: bool
  sd_vault :: "vault option"
  sd_locked :: bool

record scan_state =
  sc_inputs :: p2p_inputs
  sc_deps :: "scan_deps option"
  sc_current :: "nat option"
  sc_runs :: "scan_run list"
  sc_calls :: "p2p_call list"
  sc_toasts :: "(message \<times> toast_type) list"
  sc_notices :: "message list"

definition scan_deps_of :: "p2p_inputs \<Rightarrow> scan_deps" where
  "scan_deps_of p =
     (let st = pi_settings p in
      \<lparr>sd_network = pi_network p, sd_mode = st_operationMode st, sd_wifi = st_p2pAutoSyncWifi st,
       sd_interval = st_p2pAutoSyncIntervalMinutes st, sd_language = st_language st,
       sd_backend = pi_backend p, sd_vault = pi_vault p, sd_locked = pi_locked p\<rparr>)"

definition scan_wanted :: "scan_deps \<Rightarrow> bool" where
  "scan_wanted d \<longleftrightarrow>
     \<not> (\<not> sd_network d \<or> sd_mode d = Some Airgap \<or> \<not> truthy (sd_wifi d) \<or> \<not> sd_backend d \<or> sd_vault d = None \<or>
        sd_locked d)"

text \<open>\<open>(minutes || 5) * 60 * 1000\<close>.\<close>

definition interval_ms :: "int option \<Rightarrow> int" where
  "interval_ms minutes = (case minutes of None \<Rightarrow> 5 | Some m \<Rightarrow> if m = 0 then 5 else m) * 60 * 1000"

definition put_scan :: "nat \<Rightarrow> scan_run \<Rightarrow> scan_state \<Rightarrow> scan_state" where
  "put_scan i r s = s\<lparr>sc_runs := (sc_runs s)[i := r]\<rparr>"

definition scan_call_made :: "p2p_call \<Rightarrow> scan_state \<Rightarrow> scan_state" where
  "scan_call_made c s = s\<lparr>sc_calls := sc_calls s @ [c]\<rparr>"

definition cleanup_scan :: "scan_state \<Rightarrow> scan_state" where
  "cleanup_scan s =
     (case sc_current s of
        None \<Rightarrow> s
      | Some i \<Rightarrow> (put_scan i ((sc_runs s ! i)\<lparr>sn_cancelled := True\<rparr>) s)\<lparr>sc_current := None\<rparr>)"

definition start_scan :: "scan_state \<Rightarrow> scan_state" where
  "start_scan s =
     (let d = scan_deps_of (sc_inputs s)
      in if scan_wanted d
         then s\<lparr>sc_deps := Some d, sc_current := Some (length (sc_runs s)),
                sc_runs := sc_runs s @ [\<lparr>sn_cancelled = False, sn_syncing = False, sn_path = va_path (the (sd_vault d)),
                  sn_interval = interval_ms (sd_interval d), sn_stage = ScanIdle\<rparr>]\<rparr>
         else s\<lparr>sc_deps := Some d\<rparr>)"

definition render_scan :: "p2p_inputs \<Rightarrow> scan_state \<Rightarrow> scan_state" where
  "render_scan p s =
     (let s = s\<lparr>sc_inputs := p\<rparr>
      in if sc_deps s = Some (scan_deps_of p) then s else start_scan (cleanup_scan s))"

definition mount_scan :: "p2p_inputs \<Rightarrow> scan_state" where
  "mount_scan p =
     start_scan \<lparr>sc_inputs = p, sc_deps = None, sc_current = None, sc_runs = [], sc_calls = [], sc_toasts = [],
       sc_notices = []\<rparr>"

definition unmount_scan :: "scan_state \<Rightarrow> scan_state" where
  "unmount_scan s = (cleanup_scan s)\<lparr>sc_deps := None\<rparr>"

section \<open>One round\<close>

text \<open>The \<open>finally\<close> of \<open>runDiscoverySync\<close>.\<close>

definition round_done :: "nat \<Rightarrow> scan_state \<Rightarrow> scan_state" where
  "round_done i s = put_scan i ((sc_runs s ! i)\<lparr>sn_syncing := False, sn_stage := ScanIdle\<rparr>) s"

text \<open>A timer of the run fires; the cleanup has cleared the timers of a cancelled run.\<close>

definition runDiscoverySync :: "nat \<Rightarrow> scan_state \<Rightarrow> scan_state" where
  "runDiscoverySync i s =
     (let r = sc_runs s ! i
      in if sn_syncing r \<or> sn_cancelled r then s
         else scan_call_made (ScanDiscovery 2500) (put_scan i (r\<lparr>sn_syncing := True, sn_stage := AwaitScan\<rparr>) s))"

definition scan_error :: "string \<Rightarrow> scan_state \<Rightarrow> scan_state" where
  "scan_error err s =
     (if has_sub ''disconnected by the host'' err \<or> has_sub ''re-pair'' err
      then s\<lparr>sc_toasts := sc_toasts s @ [(Tr ''pairing.device_revoked_notice'' [], ToastError)]\<rparr> else s)"

definition scan_settled :: "nat \<Rightarrow> string + string option \<Rightarrow> scan_state \<Rightarrow> scan_state" where
  "scan_settled i res s =
     (let r = sc_runs s ! i
      in case sn_stage r of
           AwaitScan \<Rightarrow>
             (case res of
                Inl err \<Rightarrow> round_done i (scan_error err s)
              | Inr peer \<Rightarrow>
                  if truthy_str peer \<and> \<not> sn_cancelled r
                  then scan_call_made (RunClient (the peer) (sn_path r)) (put_scan i (r\<lparr>sn_stage := AwaitClient\<rparr>) s)
                  else round_done i s)
         | _ \<Rightarrow> s)"

definition client_settled :: "nat \<Rightarrow> string + merge_stats option \<Rightarrow> scan_state \<Rightarrow> scan_state" where
  "client_settled i res s =
     (let r = sc_runs s ! i
      in case sn_stage r of
           AwaitClient \<Rightarrow>
             (case res of
                Inl err \<Rightarrow> round_done i (scan_error err s)
              | Inr stats \<Rightarrow> scan_call_made RefreshAll (put_scan i (r\<lparr>sn_stage := AwaitLists stats\<rparr>) s))
         | _ \<Rightarrow> s)"

definition lists_settled :: "nat \<Rightarrow> scan_state \<Rightarrow> scan_state" where
  "lists_settled i s =
     (case sn_stage (sc_runs s ! i) of
        AwaitLists stats \<Rightarrow>
          let m = peer_synced ''sync.toast_auto_sync_changes'' ''sync.toast_auto_sync_clean'' stats
          in round_done i (s\<lparr>sc_toasts := sc_toasts s @ [(m, ToastSuccess)], sc_notices := sc_notices s @ [m]\<rparr>)
      | _ \<Rightarrow> s)"

datatype scan_event =
    RenderScan p2p_inputs
  | FireScan nat
  | ScanSettled nat "string + string option"
  | ClientSettled nat "string + merge_stats option"
  | ListsSettled nat
  | UnmountScan

definition for_scan :: "nat \<Rightarrow> (scan_state \<Rightarrow> scan_state) \<Rightarrow> scan_state \<Rightarrow> scan_state" where
  "for_scan i f s = (if i < length (sc_runs s) then f s else s)"

fun scan_step :: "scan_event \<Rightarrow> scan_state \<Rightarrow> scan_state" where
  "scan_step (RenderScan p) s = render_scan p s"
| "scan_step (FireScan i) s = for_scan i (runDiscoverySync i) s"
| "scan_step (ScanSettled i r) s = for_scan i (scan_settled i r) s"
| "scan_step (ClientSettled i r) s = for_scan i (client_settled i r) s"
| "scan_step (ListsSettled i) s = for_scan i (lists_settled i) s"
| "scan_step UnmountScan s = unmount_scan s"

section \<open>Rounds of a run do not overlap\<close>

lemmas scan_defs =
  round_done_def runDiscoverySync_def scan_error_def scan_settled_def client_settled_def lists_settled_def
  put_scan_def scan_call_made_def Let_def

text \<open>A round moves its own run, and \<open>syncing\<close> is up exactly while the run waits for something.\<close>

definition round_moves :: "nat \<Rightarrow> scan_state \<Rightarrow> scan_state \<Rightarrow> bool" where
  "round_moves i s s' \<longleftrightarrow>
     sc_inputs s' = sc_inputs s \<and> sc_deps s' = sc_deps s \<and> sc_current s' = sc_current s \<and>
     (\<exists>r. sc_runs s' = (sc_runs s)[i := r] \<and> sn_cancelled r = sn_cancelled (sc_runs s ! i) \<and>
        sn_path r = sn_path (sc_runs s ! i) \<and>
        (sn_syncing (sc_runs s ! i) = (sn_stage (sc_runs s ! i) \<noteq> ScanIdle) \<longrightarrow> sn_syncing r = (sn_stage r \<noteq> ScanIdle)))"

lemma round_moves_same: "sc_inputs s' = sc_inputs s \<Longrightarrow> sc_deps s' = sc_deps s \<Longrightarrow> sc_current s' = sc_current s \<Longrightarrow>
    sc_runs s' = sc_runs s \<Longrightarrow> round_moves i s s'"
  unfolding round_moves_def by (metis list_update_id)

lemma round_movesI:
  "sc_inputs s' = sc_inputs s \<Longrightarrow> sc_deps s' = sc_deps s \<Longrightarrow> sc_current s' = sc_current s \<Longrightarrow>
   sc_runs s' = (sc_runs s)[i := r] \<Longrightarrow> sn_cancelled r = sn_cancelled (sc_runs s ! i) \<Longrightarrow>
   sn_path r = sn_path (sc_runs s ! i) \<Longrightarrow> sn_syncing r = (sn_stage r \<noteq> ScanIdle) \<Longrightarrow> round_moves i s s'"
  unfolding round_moves_def by blast

lemma moves_done: "sc_inputs t = sc_inputs s \<Longrightarrow> sc_deps t = sc_deps s \<Longrightarrow> sc_current t = sc_current s \<Longrightarrow>
    sc_runs t = sc_runs s \<Longrightarrow> round_moves i s (round_done i t)"
  by (rule round_movesI [where r = "(sc_runs s ! i)\<lparr>sn_syncing := False, sn_stage := ScanIdle\<rparr>"])
     (simp_all add: round_done_def put_scan_def)

lemma moves_error: "round_moves i s (round_done i (scan_error e s))"
  by (rule moves_done) (simp_all add: scan_error_def)

lemma moves_fire: "round_moves i s (runDiscoverySync i s)"
proof (cases "sn_syncing (sc_runs s ! i) \<or> sn_cancelled (sc_runs s ! i)")
  case True
  then have "runDiscoverySync i s = s" unfolding runDiscoverySync_def Let_def by (rule if_P)
  then show ?thesis by (simp add: round_moves_same)
next
  case False
  then show ?thesis
    by (intro round_movesI [where r = "(sc_runs s ! i)\<lparr>sn_syncing := True, sn_stage := AwaitScan\<rparr>"])
       (simp_all add: scan_defs)
qed

lemma moves_scan:
  assumes "sn_syncing (sc_runs s ! i) = (sn_stage (sc_runs s ! i) \<noteq> ScanIdle)"
  shows "round_moves i s (scan_settled i res s)"
proof (cases "sn_stage (sc_runs s ! i) = AwaitScan")
  case True
  have client: "round_moves i s (scan_call_made c (put_scan i ((sc_runs s ! i)\<lparr>sn_stage := AwaitClient\<rparr>) s))" for c
    by (rule round_movesI [where r = "(sc_runs s ! i)\<lparr>sn_stage := AwaitClient\<rparr>"])
       (use assms True in \<open>simp_all add: scan_defs\<close>)
  show ?thesis
    by (cases res) (simp_all add: scan_settled_def True moves_error moves_done client Let_def)
next
  case False
  then show ?thesis by (cases "sn_stage (sc_runs s ! i)") (simp_all add: scan_settled_def round_moves_same Let_def)
qed

lemma moves_client:
  assumes "sn_syncing (sc_runs s ! i) = (sn_stage (sc_runs s ! i) \<noteq> ScanIdle)"
  shows "round_moves i s (client_settled i res s)"
proof (cases "sn_stage (sc_runs s ! i) = AwaitClient")
  case True
  have lists: "round_moves i s (scan_call_made c (put_scan i ((sc_runs s ! i)\<lparr>sn_stage := AwaitLists st\<rparr>) s))" for c st
    by (rule round_movesI [where r = "(sc_runs s ! i)\<lparr>sn_stage := AwaitLists st\<rparr>"])
       (use assms True in \<open>simp_all add: scan_defs\<close>)
  show ?thesis
    by (cases res) (simp_all add: client_settled_def True moves_error lists Let_def)
next
  case False
  then show ?thesis by (cases "sn_stage (sc_runs s ! i)") (simp_all add: client_settled_def round_moves_same Let_def)
qed

lemma moves_lists: "round_moves i s (lists_settled i s)"
  by (cases "sn_stage (sc_runs s ! i)") (simp_all add: lists_settled_def round_moves_same moves_done Let_def)

text \<open>
  The invariant: \<open>syncing\<close> tells whether the run waits for something, and only the run of the last
  effect is not cancelled, whose dependencies are those of the last render and want discovery.
\<close>

definition syncing_ok :: "scan_state \<Rightarrow> bool" where
  "syncing_ok s \<longleftrightarrow> (\<forall>r \<in> set (sc_runs s). sn_syncing r = (sn_stage r \<noteq> ScanIdle))"

definition scans_cancelled :: "scan_state \<Rightarrow> bool" where
  "scans_cancelled s \<longleftrightarrow> (\<forall>i < length (sc_runs s). \<not> sn_cancelled (sc_runs s ! i) \<longrightarrow> sc_current s = Some i)"

definition scan_current_ok :: "scan_state \<Rightarrow> bool" where
  "scan_current_ok s \<longleftrightarrow>
     (\<forall>i. sc_current s = Some i \<longrightarrow> i < length (sc_runs s) \<and> sc_deps s = Some (scan_deps_of (sc_inputs s)) \<and>
        scan_wanted (scan_deps_of (sc_inputs s)) \<and>
        Some (sn_path (sc_runs s ! i)) = map_option va_path (pi_vault (sc_inputs s)))"

definition scans_ok :: "scan_state \<Rightarrow> bool" where
  "scans_ok s \<longleftrightarrow> syncing_ok s \<and> scans_cancelled s \<and> scan_current_ok s"

lemma scans_ok_moves:
  assumes "scans_ok s" and "round_moves i s s'" and "i < length (sc_runs s)"
  shows "scans_ok s'"
proof -
  from assms(2) obtain r where runs: "sc_runs s' = (sc_runs s)[i := r]"
    and r: "sn_cancelled r = sn_cancelled (sc_runs s ! i)" "sn_path r = sn_path (sc_runs s ! i)"
      "sn_syncing (sc_runs s ! i) = (sn_stage (sc_runs s ! i) \<noteq> ScanIdle) \<longrightarrow> sn_syncing r = (sn_stage r \<noteq> ScanIdle)"
    and frame: "sc_inputs s' = sc_inputs s" "sc_deps s' = sc_deps s" "sc_current s' = sc_current s"
    unfolding round_moves_def by blast
  have "sn_syncing (sc_runs s ! i) = (sn_stage (sc_runs s ! i) \<noteq> ScanIdle)"
    using assms(1,3) by (simp add: scans_ok_def syncing_ok_def)
  with r(3) have "sn_syncing r = (sn_stage r \<noteq> ScanIdle)" by blast
  then have "syncing_ok s'"
    using assms(1) set_update_subset_insert [of "sc_runs s" i r] unfolding scans_ok_def syncing_ok_def runs by blast
  moreover have same: "sn_cancelled ((sc_runs s)[i := r] ! j) = sn_cancelled (sc_runs s ! j)"
      "sn_path ((sc_runs s)[i := r] ! j) = sn_path (sc_runs s ! j)" if "j < length (sc_runs s)" for j
    using that r(1,2) by (cases "j = i"; simp)+
  have "scans_cancelled s'"
    unfolding scans_cancelled_def runs frame length_list_update
    using assms(1) same(1) unfolding scans_ok_def scans_cancelled_def by blast
  moreover have "scan_current_ok s'"
    unfolding scan_current_ok_def runs frame length_list_update
  proof (intro allI impI)
    fix j assume "sc_current s = Some j"
    then have j: "j < length (sc_runs s)" and rest: "sc_deps s = Some (scan_deps_of (sc_inputs s))"
        "scan_wanted (scan_deps_of (sc_inputs s))" "Some (sn_path (sc_runs s ! j)) = map_option va_path (pi_vault (sc_inputs s))"
      using assms(1) unfolding scans_ok_def scan_current_ok_def by blast+
    show "j < length (sc_runs s) \<and> sc_deps s = Some (scan_deps_of (sc_inputs s)) \<and>
        scan_wanted (scan_deps_of (sc_inputs s)) \<and>
        Some (sn_path ((sc_runs s)[i := r] ! j)) = map_option va_path (pi_vault (sc_inputs s))"
      unfolding same(2) [OF j] using j rest by blast
  qed
  ultimately show ?thesis by (simp add: scans_ok_def)
qed

lemma cleanup_scan_all:
  assumes "scans_cancelled s" and "j < length (sc_runs s)"
  shows "sn_cancelled (sc_runs (cleanup_scan s) ! j)"
proof (cases "sc_current s = Some j")
  case True
  with assms(2) show ?thesis by (simp add: cleanup_scan_def put_scan_def)
next
  case False
  with assms have "sn_cancelled (sc_runs s ! j)" unfolding scans_cancelled_def by blast
  with False show ?thesis by (cases "sc_current s") (auto simp: cleanup_scan_def put_scan_def)
qed

lemma cleanup_scan_frame [simp]:
  "length (sc_runs (cleanup_scan s)) = length (sc_runs s)" "sc_current (cleanup_scan s) = None"
  "sc_inputs (cleanup_scan s) = sc_inputs s"
  by (simp_all add: cleanup_scan_def put_scan_def split: option.split)

lemma cleanup_scan_syncing: "syncing_ok s \<Longrightarrow> syncing_ok (cleanup_scan s)"
proof (cases "sc_current s")
  case (Some i)
  assume ok: "syncing_ok s"
  show ?thesis
  proof (cases "i < length (sc_runs s)")
    case True
    with ok have "sn_syncing (sc_runs s ! i) = (sn_stage (sc_runs s ! i) \<noteq> ScanIdle)" by (simp add: syncing_ok_def)
    with ok Some show ?thesis
      using set_update_subset_insert [of "sc_runs s" i "(sc_runs s ! i)\<lparr>sn_cancelled := True\<rparr>"]
      by (auto simp: syncing_ok_def cleanup_scan_def put_scan_def)
  next
    case False
    with ok Some show ?thesis by (simp add: syncing_ok_def cleanup_scan_def put_scan_def list_update_beyond)
  qed
qed (simp add: cleanup_scan_def)

lemma scans_ok_cleanup: "syncing_ok s \<Longrightarrow> scans_cancelled s \<Longrightarrow> scans_ok (cleanup_scan s)"
  using cleanup_scan_all [of s]
  by (simp add: scans_ok_def cleanup_scan_syncing scans_cancelled_def scan_current_ok_def)

lemma scans_ok_start:
  assumes "scans_ok s" and "sc_current s = None"
  shows "scans_ok (start_scan s)"
proof -
  have all: "\<forall>i < length (sc_runs s). sn_cancelled (sc_runs s ! i)"
    using assms unfolding scans_ok_def scans_cancelled_def by simp
  have path: "scan_wanted (scan_deps_of p) \<Longrightarrow> \<exists>v. pi_vault p = Some v" for p
    by (cases "pi_vault p") (simp_all add: scan_wanted_def scan_deps_of_def Let_def)
  have vault: "sd_vault (scan_deps_of p) = pi_vault p" for p by (simp add: scan_deps_of_def Let_def)
  show ?thesis
  proof (cases "scan_wanted (scan_deps_of (sc_inputs s))")
    case True
    with path obtain v where v: "pi_vault (sc_inputs s) = Some v" by blast
    from True all assms v show ?thesis
      by (auto simp: start_scan_def scans_ok_def syncing_ok_def scans_cancelled_def scan_current_ok_def nth_append
          less_Suc_eq vault Let_def)
  next
    case False
    with all assms show ?thesis
      by (simp add: start_scan_def scans_ok_def syncing_ok_def scans_cancelled_def scan_current_ok_def Let_def)
  qed
qed

lemma scans_ok_render:
  assumes "scans_ok s"
  shows "scans_ok (render_scan p s)"
proof (cases "sc_deps s = Some (scan_deps_of p)")
  case True
  have "scan_current_ok (s\<lparr>sc_inputs := p\<rparr>)"
    unfolding scan_current_ok_def
  proof (intro allI impI)
    fix i assume "sc_current (s\<lparr>sc_inputs := p\<rparr>) = Some i"
    then have "sc_current s = Some i" by simp
    then have cur: "i < length (sc_runs s)" "sc_deps s = Some (scan_deps_of (sc_inputs s))"
        "scan_wanted (scan_deps_of (sc_inputs s))" "Some (sn_path (sc_runs s ! i)) = map_option va_path (pi_vault (sc_inputs s))"
      using assms unfolding scans_ok_def scan_current_ok_def by blast+
    from cur(2) True have "scan_deps_of (sc_inputs s) = scan_deps_of p" by simp
    moreover from this have "pi_vault (sc_inputs s) = pi_vault p" by (simp add: scan_deps_of_def Let_def)
    ultimately show "i < length (sc_runs (s\<lparr>sc_inputs := p\<rparr>)) \<and>
        sc_deps (s\<lparr>sc_inputs := p\<rparr>) = Some (scan_deps_of (sc_inputs (s\<lparr>sc_inputs := p\<rparr>))) \<and>
        scan_wanted (scan_deps_of (sc_inputs (s\<lparr>sc_inputs := p\<rparr>))) \<and>
        Some (sn_path (sc_runs (s\<lparr>sc_inputs := p\<rparr>) ! i)) = map_option va_path (pi_vault (sc_inputs (s\<lparr>sc_inputs := p\<rparr>)))"
      using cur by simp
  qed
  with True assms show ?thesis by (simp add: render_scan_def scans_ok_def syncing_ok_def scans_cancelled_def)
next
  case False
  have "scans_ok (cleanup_scan (s\<lparr>sc_inputs := p\<rparr>))"
    using assms by (intro scans_ok_cleanup) (simp_all add: scans_ok_def syncing_ok_def scans_cancelled_def)
  with False show ?thesis by (simp add: render_scan_def scans_ok_start)
qed

lemma scans_ok_step [inv_steps]: "scans_ok s \<Longrightarrow> scans_ok (scan_step e s)"
proof -
  assume ok: "scans_ok s"
  have syncing: "i < length (sc_runs s) \<Longrightarrow> sn_syncing (sc_runs s ! i) = (sn_stage (sc_runs s ! i) \<noteq> ScanIdle)" for i
    using ok by (simp add: scans_ok_def syncing_ok_def)
  have loop: "scans_ok (for_scan i f s)" if "i < length (sc_runs s) \<Longrightarrow> round_moves i s (f s)" for i f
    using that scans_ok_moves [OF ok, of i "f s"] ok unfolding for_scan_def by (simp split: if_split)
  have "scans_ok (cleanup_scan s)" using ok by (intro scans_ok_cleanup) (simp_all add: scans_ok_def)
  then have "syncing_ok (cleanup_scan s)" "scans_cancelled (cleanup_scan s)" by (simp_all add: scans_ok_def)
  then have "scans_ok (unmount_scan s)"
    by (simp add: unmount_scan_def scans_ok_def syncing_ok_def scans_cancelled_def scan_current_ok_def)
  then show ?thesis
    using ok by (cases e) (simp_all add: scans_ok_render loop moves_fire moves_scan moves_client moves_lists syncing)
qed

interpretation scans: invariant_machine scan_step scans_ok
  by unfold_locales (rule scans_ok_step)

lemma scans_ok_mount: "scans_ok (mount_scan p)"
  unfolding mount_scan_def
  by (rule scans_ok_start) (simp_all add: scans_ok_def syncing_ok_def scans_cancelled_def scan_current_ok_def)

section \<open>When a peer is contacted\<close>

definition contacts :: "scan_state \<Rightarrow> p2p_call list" where
  "contacts s = filter (\<lambda>c. c \<noteq> RefreshAll) (sc_calls s)"

lemma contacts_frames [simp]:
  "contacts (put_scan i r s) = contacts s" "contacts (scan_call_made c s) = contacts s @ (if c = RefreshAll then [] else [c])"
  "contacts (s\<lparr>sc_toasts := x1\<rparr>) = contacts s" "contacts (s\<lparr>sc_notices := x2\<rparr>) = contacts s"
  "contacts (s\<lparr>sc_inputs := x3\<rparr>) = contacts s" "contacts (s\<lparr>sc_current := x4\<rparr>) = contacts s"
  "contacts (s\<lparr>sc_deps := x5\<rparr>) = contacts s" "contacts (s\<lparr>sc_runs := x6\<rparr>) = contacts s"
  "contacts (round_done i s) = contacts s" "contacts (scan_error e s) = contacts s"
  by (simp_all add: contacts_def put_scan_def scan_call_made_def round_done_def scan_error_def)

lemma contacts_effects [simp]:
  "contacts (cleanup_scan s) = contacts s" "contacts (start_scan s) = contacts s"
  "contacts (render_scan p s) = contacts s" "contacts (unmount_scan s) = contacts s"
proof -
  show clean: "contacts (cleanup_scan x) = contacts x" for x by (simp add: cleanup_scan_def split: option.split)
  show start: "contacts (start_scan x) = contacts x" for x
    by (simp add: start_scan_def contacts_def Let_def)
  show "contacts (render_scan p s) = contacts s" "contacts (unmount_scan s) = contacts s"
    by (simp_all add: render_scan_def unmount_scan_def clean start Let_def)
qed

lemma contacts_step:
  assumes "contacts (scan_step ev s) \<noteq> contacts s"
  shows "\<exists>i < length (sc_runs s). \<not> sn_cancelled (sc_runs s ! i) \<and>
    (contacts (scan_step ev s) = contacts s @ [ScanDiscovery 2500] \<and> sn_syncing (sc_runs s ! i) = False \<or>
     (\<exists>peer. contacts (scan_step ev s) = contacts s @ [RunClient peer (sn_path (sc_runs s ! i))] \<and>
        sn_stage (sc_runs s ! i) = AwaitScan))"
proof (cases ev)
  case (FireScan i)
  with assms show ?thesis by (auto simp: for_scan_def runDiscoverySync_def Let_def split: if_splits)
next
  case (ScanSettled i res)
  with assms show ?thesis
    by (auto simp: for_scan_def scan_settled_def Let_def split: if_splits scan_stage.splits sum.splits)
next
  case (ClientSettled i res)
  with assms show ?thesis
    by (auto simp: for_scan_def client_settled_def Let_def split: if_splits scan_stage.splits sum.splits)
next
  case (ListsSettled i)
  with assms show ?thesis
    by (auto simp: for_scan_def lists_settled_def Let_def split: if_splits scan_stage.splits)
qed (use assms in simp_all)

text \<open>
  The network is searched only when that is wanted: a step looks for a peer, or
  synchronises with one, only while the last render allows it (network access granted, automatic
  sync on, not in airgap mode, unlocked, with a vault open), for that vault, and never
  while an earlier round of the same run is still waiting.
\<close>

theorem discovery_gated:
  assumes "s = run scan_step es (mount_scan p)" and "contacts (scan_step ev s) \<noteq> contacts s"
  shows "pi_network (sc_inputs s) \<and> st_operationMode (pi_settings (sc_inputs s)) \<noteq> Some Airgap \<and>
    truthy (st_p2pAutoSyncWifi (pi_settings (sc_inputs s))) \<and> \<not> pi_locked (sc_inputs s) \<and>
    (\<exists>i v. sc_current s = Some i \<and> pi_vault (sc_inputs s) = Some v \<and>
       (contacts (scan_step ev s) = contacts s @ [ScanDiscovery 2500] \<and> sn_stage (sc_runs s ! i) = ScanIdle \<or>
        (\<exists>peer. contacts (scan_step ev s) = contacts s @ [RunClient peer (va_path v)])))"
proof -
  have ok: "scans_ok s" unfolding assms(1) by (intro scans.run_inv scans_ok_mount)
  obtain i where i: "i < length (sc_runs s)" "\<not> sn_cancelled (sc_runs s ! i)"
    and call: "contacts (scan_step ev s) = contacts s @ [ScanDiscovery 2500] \<and> sn_syncing (sc_runs s ! i) = False \<or>
     (\<exists>peer. contacts (scan_step ev s) = contacts s @ [RunClient peer (sn_path (sc_runs s ! i))] \<and>
        sn_stage (sc_runs s ! i) = AwaitScan)"
    using contacts_step [OF assms(2)] by blast
  have cur: "sc_current s = Some i" using i ok unfolding scans_ok_def scans_cancelled_def by blast
  have syncing: "sn_syncing (sc_runs s ! i) = (sn_stage (sc_runs s ! i) \<noteq> ScanIdle)"
    using ok i(1) by (simp add: scans_ok_def syncing_ok_def)
  have want: "scan_wanted (scan_deps_of (sc_inputs s))"
    and path: "Some (sn_path (sc_runs s ! i)) = map_option va_path (pi_vault (sc_inputs s))"
    using cur ok unfolding scans_ok_def scan_current_ok_def by blast+
  from path obtain v where v: "pi_vault (sc_inputs s) = Some v" "sn_path (sc_runs s ! i) = va_path v"
    by (cases "pi_vault (sc_inputs s)") auto
  from want have "pi_network (sc_inputs s)" "st_operationMode (pi_settings (sc_inputs s)) \<noteq> Some Airgap"
      "truthy (st_p2pAutoSyncWifi (pi_settings (sc_inputs s)))" "\<not> pi_locked (sc_inputs s)"
    by (simp_all add: scan_wanted_def scan_deps_of_def Let_def)
  moreover have "contacts (scan_step ev s) = contacts s @ [ScanDiscovery 2500] \<and> sn_stage (sc_runs s ! i) = ScanIdle \<or>
      (\<exists>peer. contacts (scan_step ev s) = contacts s @ [RunClient peer (va_path v)])"
    using call syncing unfolding v(2) by blast
  ultimately show ?thesis using cur v(1) by blast
qed

theorem discovery_gated_witness:
  "truthy (st_p2pAutoSyncWifi (pi_settings (sc_inputs (run scan_step [] (mount_scan
     (listening_inputs\<lparr>pi_settings := DEFAULT_SETTINGS\<lparr>st_p2pAutoSyncWifi := Some True\<rparr>\<rparr>))))))"
proof -
  let ?s = "run scan_step [] (mount_scan (listening_inputs\<lparr>pi_settings := DEFAULT_SETTINGS\<lparr>st_p2pAutoSyncWifi := Some True\<rparr>\<rparr>))"
  have "contacts (scan_step (FireScan 0) ?s) \<noteq> contacts ?s"
    by (simp add: mount_scan_def start_scan_def scan_deps_of_def scan_wanted_def listening_inputs_def DEFAULT_SETTINGS_def
        for_scan_def runDiscoverySync_def Let_def)
  from discovery_gated [OF refl this] show ?thesis by blast
qed

text \<open>
  The end of a round does not look at the cancellation: a sync that was under way when the vault
  was locked still announces its success, with the number of changed entries.
\<close>

lemma discovery_announces_after_cancel:
  assumes "i < length (sc_runs s)" and "sn_stage (sc_runs s ! i) = AwaitClient" and "sn_cancelled (sc_runs s ! i)"
  shows "length (sc_toasts (run scan_step [ClientSettled i (Inr stats), ListsSettled i] s)) = Suc (length (sc_toasts s))"
  using assms by (simp add: for_scan_def scan_defs)

end
