(* ===== verification/Favicon_Cache.thy ===== *)
theory Favicon_Cache
  imports Text_Utils
begin

text \<open>
  The favicon cache of \<open>features/entries/components/Favicon.model.ts\<close> and the load decision of
  \<open>Favicon.view.tsx\<close>: at most four fetches at once, results of an overtaken generation dropped, everything
  forgotten when the vault is locked. A promise is a number, its settling an element of
  \<open>fv_settled\<close>; the update listeners are a count of notifications (what a listener does is the
  event \<open>LoadIcon\<close>, at any later time). A fetch ends in two events, as its \<open>then\<close> and its \<open>finally\<close>
  run in different microtasks.
\<close>

section \<open>State\<close>

definition COOLDOWN_MS :: int where "COOLDOWN_MS = 30000"

definition MAX_CONCURRENT_FETCHES :: nat where "MAX_CONCURRENT_FETCHES = 4"

definition CACHE_LIMIT :: nat where "CACHE_LIMIT = 250"

record queue_item =
  qi_domain :: string
  qi_generation :: nat
  qi_promise :: nat

record favicon_state =
  fv_cache :: "(string, string) omap"
  fv_inFlight :: "(string, nat) omap"
  fv_cooldowns :: "(string, int) omap"
  fv_queue :: "queue_item list"
  fv_fetching :: "queue_item list"
  fv_finishing :: nat
  fv_active :: nat
  fv_generation :: nat
  fv_locked :: bool
  fv_promises :: nat
  fv_settled :: "(nat \<times> string option) list"
  fv_fetched :: "string list"
  fv_notified :: nat

definition init_favicons :: favicon_state where
  "init_favicons =
     \<lparr>fv_cache = [], fv_inFlight = [], fv_cooldowns = [], fv_queue = [], fv_fetching = [], fv_finishing = 0,
      fv_active = 0, fv_generation = 0, fv_locked = False, fv_promises = 0, fv_settled = [], fv_fetched = [],
      fv_notified = 0\<rparr>"

section \<open>The queue\<close>

text \<open>The loop of \<open>processQueue\<close>: each turn hands the first request to the back end.\<close>

definition start_fetch :: "favicon_state \<Rightarrow> favicon_state" where
  "start_fetch s =
     (let item = hd (fv_queue s)
      in s\<lparr>fv_queue := tl (fv_queue s), fv_active := Suc (fv_active s),
           fv_fetching := fv_fetching s @ [item], fv_fetched := fv_fetched s @ [qi_domain item]\<rparr>)"

function processQueue :: "favicon_state \<Rightarrow> favicon_state" where
  "processQueue s =
     (if \<not> fv_locked s \<and> fv_active s < MAX_CONCURRENT_FETCHES \<and> fv_queue s \<noteq> []
      then processQueue (start_fetch s) else s)"
  by pat_completeness auto
termination by (relation "measure (\<lambda>s. length (fv_queue s))") (simp_all add: start_fetch_def Let_def)

declare processQueue.simps [simp del]

definition settle_promise :: "nat \<Rightarrow> string option \<Rightarrow> favicon_state \<Rightarrow> favicon_state" where
  "settle_promise p v s = s\<lparr>fv_settled := fv_settled s @ [(p, v)]\<rparr>"

definition notify_listeners :: "favicon_state \<Rightarrow> favicon_state" where
  "notify_listeners s = s\<lparr>fv_notified := Suc (fv_notified s)\<rparr>"

definition is_image :: "string option \<Rightarrow> bool" where
  "is_image res \<longleftrightarrow> (case res of None \<Rightarrow> False | Some r \<Rightarrow> starts_with r ''data:image/'')"

definition cache_put :: "string \<Rightarrow> string \<Rightarrow> (string, string) omap \<Rightarrow> (string, string) omap" where
  "cache_put d r m =
     (let m = om_set d r m in if length m > CACHE_LIMIT then om_del (hd (om_keys m)) m else m)"

text \<open>The \<open>resolve\<close> of a request: \<open>now\<close> is \<open>Date.now()\<close>.\<close>

definition resolve_item :: "int \<Rightarrow> queue_item \<Rightarrow> string option \<Rightarrow> favicon_state \<Rightarrow> favicon_state" where
  "resolve_item now item res s =
     (if qi_generation item \<noteq> fv_generation s then settle_promise (qi_promise item) None s
      else let d = qi_domain item;
               s = s\<lparr>fv_inFlight := om_del d (fv_inFlight s)\<rparr>;
               s = (if is_image res
                    then notify_listeners (s\<lparr>fv_cache := cache_put d (the res) (fv_cache s),
                           fv_cooldowns := om_del d (fv_cooldowns s)\<rparr>)
                    else s\<lparr>fv_cooldowns := om_set d (now + COOLDOWN_MS) (fv_cooldowns s)\<rparr>)
           in settle_promise (qi_promise item) (if is_image res then res else None) s)"

definition enqueueFaviconFetch :: "string \<Rightarrow> favicon_state \<Rightarrow> favicon_state \<times> nat" where
  "enqueueFaviconFetch d s =
     (case om_get (fv_inFlight s) d of
        Some p \<Rightarrow> (s, p)
      | None \<Rightarrow>
          let p = fv_promises s;
              s = s\<lparr>fv_promises := Suc p,
                    fv_queue := fv_queue s @ [\<lparr>qi_domain = d, qi_generation = fv_generation s, qi_promise = p\<rparr>]\<rparr>;
              s = processQueue s
          in (s\<lparr>fv_inFlight := om_set d p (fv_inFlight s)\<rparr>, p))"

definition clearFaviconCache :: "favicon_state \<Rightarrow> favicon_state" where
  "clearFaviconCache s =
     (let s = s\<lparr>fv_generation := Suc (fv_generation s), fv_inFlight := []\<rparr>;
          items = fv_queue s;
          s = fold (\<lambda>item. resolve_item 0 item None) items (s\<lparr>fv_queue := []\<rparr>)
      in notify_listeners (s\<lparr>fv_cache := [], fv_cooldowns := []\<rparr>))"

definition resetFaviconCooldowns :: "favicon_state \<Rightarrow> favicon_state" where
  "resetFaviconCooldowns s = notify_listeners (s\<lparr>fv_cooldowns := []\<rparr>)"

definition lockFavicons :: "favicon_state \<Rightarrow> favicon_state" where
  "lockFavicons s = clearFaviconCache (s\<lparr>fv_locked := True\<rparr>)"

definition unlockFavicons :: "favicon_state \<Rightarrow> favicon_state" where
  "unlockFavicons s = resetFaviconCooldowns (s\<lparr>fv_locked := False\<rparr>)"

section \<open>Which icon to ask for\<close>

definition extractDomain :: "(string \<Rightarrow> url option) \<Rightarrow> string option \<Rightarrow> string option \<Rightarrow> string option" where
  "extractDomain parse u title =
     (let dotted = (\<lambda>x. if truthy_str x
                        then (case getDomain parse (the x) of
                                Some d \<Rightarrow> if d \<noteq> [] \<and> CHR ''.'' \<in> set d then Some d else None
                              | None \<Rightarrow> None)
                        else None)
      in case dotted u of Some d \<Rightarrow> Some d | None \<Rightarrow> dotted title)"

text \<open>
  The \<open>load\<close> of one icon: show a cached image, wait for a cooldown, wait for a promise, or show the
  placeholder.
\<close>

datatype icon_load = ShowCached string | ShowPlaceholder | RetryIn int | AwaitPromise nat

definition load_icon :: "bool \<Rightarrow> int \<Rightarrow> string \<Rightarrow> favicon_state \<Rightarrow> favicon_state \<times> icon_load" where
  "load_icon online now d s =
     (if fv_locked s then (s, ShowPlaceholder)
      else (case om_get (fv_cache s) d of
              Some (c # cs) \<Rightarrow> (s, ShowCached (c # cs))
            | _ \<Rightarrow>
                if \<not> online then (s, ShowPlaceholder)
                else let remaining = or_else (om_get (fv_cooldowns s) d) 0 - now
                     in if remaining > 0 then (s, RetryIn (remaining + 1))
                        else let (s, p) = enqueueFaviconFetch d s in (s, AwaitPromise p)))"

definition image_broken :: "int \<Rightarrow> string \<Rightarrow> favicon_state \<Rightarrow> favicon_state" where
  "image_broken now d s =
     s\<lparr>fv_cache := om_del d (fv_cache s), fv_cooldowns := om_set d (now + COOLDOWN_MS) (fv_cooldowns s)\<rparr>"

section \<open>Events\<close>

datatype favicon_event =
    LoadIcon bool int string
  | FetchResolved nat int "string option"
  | FetchFinally
  | ImageBroken int string
  | ClearIcons
  | ResetIcons
  | LockIcons
  | UnlockIcons

definition fetch_resolved :: "nat \<Rightarrow> int \<Rightarrow> string option \<Rightarrow> favicon_state \<Rightarrow> favicon_state" where
  "fetch_resolved i now res s =
     (if i < length (fv_fetching s)
      then let item = fv_fetching s ! i
           in resolve_item now item res
                (s\<lparr>fv_fetching := take i (fv_fetching s) @ drop (Suc i) (fv_fetching s), fv_finishing := Suc (fv_finishing s)\<rparr>)
      else s)"

definition fetch_finally :: "favicon_state \<Rightarrow> favicon_state" where
  "fetch_finally s =
     (if fv_finishing s = 0 then s
      else processQueue (s\<lparr>fv_finishing := fv_finishing s - 1, fv_active := fv_active s - 1\<rparr>))"

fun favicon_step :: "favicon_event \<Rightarrow> favicon_state \<Rightarrow> favicon_state" where
  "favicon_step (LoadIcon online now d) s = fst (load_icon online now d s)"
| "favicon_step (FetchResolved i now res) s = fetch_resolved i now res s"
| "favicon_step FetchFinally s = fetch_finally s"
| "favicon_step (ImageBroken now d) s = image_broken now d s"
| "favicon_step ClearIcons s = clearFaviconCache s"
| "favicon_step ResetIcons s = resetFaviconCooldowns s"
| "favicon_step LockIcons s = lockFavicons s"
| "favicon_step UnlockIcons s = unlockFavicons s"


section \<open>What the queue keeps\<close>

text \<open>Starting a fetch moves a request from the front of the queue to the end of the running ones.\<close>

lemma processQueue_rule:
  assumes "P s" and "\<And>s. P s \<Longrightarrow> \<not> fv_locked s \<Longrightarrow> fv_active s < MAX_CONCURRENT_FETCHES \<Longrightarrow> fv_queue s \<noteq> [] \<Longrightarrow>
    P (start_fetch s)"
  shows "P (processQueue s)"
  using assms(1)
proof (induction s rule: processQueue.induct)
  case (1 s)
  show ?case
  proof (cases "\<not> fv_locked s \<and> fv_active s < MAX_CONCURRENT_FETCHES \<and> fv_queue s \<noteq> []")
    case True
    with 1 assms(2) [of s] have "P (processQueue (start_fetch s))" by blast
    with True show ?thesis by (subst processQueue.simps) simp
  next
    case False
    with "1.prems" show ?thesis by (subst processQueue.simps) (simp only: if_False)
  qed
qed

lemma start_fetch_simps [simp]:
  "fv_cache (start_fetch s) = fv_cache s" "fv_inFlight (start_fetch s) = fv_inFlight s"
  "fv_cooldowns (start_fetch s) = fv_cooldowns s" "fv_generation (start_fetch s) = fv_generation s"
  "fv_locked (start_fetch s) = fv_locked s" "fv_finishing (start_fetch s) = fv_finishing s"
  "fv_promises (start_fetch s) = fv_promises s" "fv_settled (start_fetch s) = fv_settled s"
  "fv_active (start_fetch s) = Suc (fv_active s)" "length (fv_fetching (start_fetch s)) = Suc (length (fv_fetching s))"
  "fv_queue s \<noteq> [] \<Longrightarrow> fv_fetching (start_fetch s) @ tl (fv_queue s) = fv_fetching s @ fv_queue s"
  "fv_queue (start_fetch s) = tl (fv_queue s)"
  by (simp_all add: start_fetch_def Let_def)

lemma processQueue_keeps [simp]:
  "fv_cache (processQueue s) = fv_cache s" "fv_inFlight (processQueue s) = fv_inFlight s"
  "fv_cooldowns (processQueue s) = fv_cooldowns s" "fv_generation (processQueue s) = fv_generation s"
  "fv_locked (processQueue s) = fv_locked s" "fv_finishing (processQueue s) = fv_finishing s"
  "fv_promises (processQueue s) = fv_promises s" "fv_settled (processQueue s) = fv_settled s"
  "fv_fetching (processQueue s) @ fv_queue (processQueue s) = fv_fetching s @ fv_queue s"
  by (rule processQueue_rule [where s = s], simp, simp)+

lemma processQueue_active:
  "fv_active s = length (fv_fetching s) + fv_finishing s \<Longrightarrow>
   fv_active (processQueue s) = length (fv_fetching (processQueue s)) + fv_finishing (processQueue s)"
  by (rule processQueue_rule [where s = s]) simp_all

lemma processQueue_bound:
  "fv_active s \<le> MAX_CONCURRENT_FETCHES \<Longrightarrow> fv_active (processQueue s) \<le> MAX_CONCURRENT_FETCHES"
  by (rule processQueue_rule [where s = s]) simp_all

lemma processQueue_sub: "set (fv_queue (processQueue s)) \<subseteq> set (fv_queue s)"
  by (rule processQueue_rule [where s = s]) (auto dest: list.set_sel(2))

lemma processQueue_inFlight:
  "(processQueue s)\<lparr>fv_inFlight := m\<rparr> = processQueue (s\<lparr>fv_inFlight := m\<rparr>)"
proof (induction s rule: processQueue.induct)
  case (1 s)
  have "start_fetch (s\<lparr>fv_inFlight := m\<rparr>) = (start_fetch s)\<lparr>fv_inFlight := m\<rparr>"
    by (simp add: start_fetch_def Let_def)
  note start = this
  show ?case
  proof (cases "\<not> fv_locked s \<and> fv_active s < MAX_CONCURRENT_FETCHES \<and> fv_queue s \<noteq> []")
    case True
    with 1 have "(processQueue (start_fetch s))\<lparr>fv_inFlight := m\<rparr> = processQueue (start_fetch (s\<lparr>fv_inFlight := m\<rparr>))"
      by (simp add: start)
    with True show ?thesis by (simp add: processQueue.simps [of s] processQueue.simps [of "s\<lparr>fv_inFlight := m\<rparr>"])
  next
    case False
    then have "processQueue s = s" "processQueue (s\<lparr>fv_inFlight := m\<rparr>) = s\<lparr>fv_inFlight := m\<rparr>"
      by (subst processQueue.simps, simp only: if_False favicon_state.simps, simp)+
    then show ?thesis by simp
  qed
qed

lemma processQueue_locked [simp]: "fv_locked s \<Longrightarrow> processQueue s = s"
  by (simp add: processQueue.simps)

text \<open>
  Work conservation: unless the vault is locked, the queue is only non-empty while all places are
  taken.
\<close>

lemma processQueue_full:
  "fv_locked s \<or> fv_queue (processQueue s) = [] \<or> MAX_CONCURRENT_FETCHES \<le> fv_active (processQueue s)"
proof (induction s rule: processQueue.induct)
  case (1 s)
  then show ?case
    by (cases "\<not> fv_locked s \<and> fv_active s < MAX_CONCURRENT_FETCHES \<and> fv_queue s \<noteq> []")
       (auto simp: processQueue.simps [of s])
qed

definition current_items :: "favicon_state \<Rightarrow> queue_item list" where
  "current_items s = filter (\<lambda>item. qi_generation item = fv_generation s) (fv_fetching s @ fv_queue s)"

definition places_ok :: "favicon_state \<Rightarrow> bool" where
  "places_ok s \<longleftrightarrow> fv_active s = length (fv_fetching s) + fv_finishing s \<and> fv_active s \<le> MAX_CONCURRENT_FETCHES"

definition cache_ok :: "favicon_state \<Rightarrow> bool" where
  "cache_ok s \<longleftrightarrow> om_wf (fv_cache s) \<and> length (fv_cache s) \<le> CACHE_LIMIT \<and>
     (\<forall>(d, r) \<in> set (fv_cache s). is_image (Some r))"

definition flights_ok :: "favicon_state \<Rightarrow> bool" where
  "flights_ok s \<longleftrightarrow>
     distinct (map qi_domain (current_items s)) \<and>
     (\<forall>item \<in> set (current_items s). om_get (fv_inFlight s) (qi_domain item) = Some (qi_promise item)) \<and>
     (\<forall>item \<in> set (fv_queue s). qi_generation item = fv_generation s) \<and>
     (\<forall>item \<in> set (fv_fetching s). qi_generation item \<le> fv_generation s)"

definition lock_ok :: "favicon_state \<Rightarrow> bool" where
  "lock_ok s \<longleftrightarrow> (fv_locked s \<longrightarrow>
     fv_cache s = [] \<and> fv_queue s = [] \<and> (\<forall>item \<in> set (fv_fetching s). qi_generation item < fv_generation s))"

definition icons_ok :: "favicon_state \<Rightarrow> bool" where
  "icons_ok s \<longleftrightarrow> places_ok s \<and> cache_ok s \<and> flights_ok s \<and> lock_ok s"

lemma icon_frames [simp]:
  "places_ok (s\<lparr>fv_cache := x1\<rparr>) = places_ok s" "places_ok (s\<lparr>fv_inFlight := x2\<rparr>) = places_ok s"
  "places_ok (s\<lparr>fv_cooldowns := x3\<rparr>) = places_ok s" "places_ok (s\<lparr>fv_queue := x4\<rparr>) = places_ok s"
  "places_ok (s\<lparr>fv_generation := x5\<rparr>) = places_ok s" "places_ok (s\<lparr>fv_locked := x6\<rparr>) = places_ok s"
  "places_ok (s\<lparr>fv_promises := x7\<rparr>) = places_ok s" "places_ok (s\<lparr>fv_settled := x8\<rparr>) = places_ok s"
  "places_ok (s\<lparr>fv_fetched := x9\<rparr>) = places_ok s" "places_ok (s\<lparr>fv_notified := x10\<rparr>) = places_ok s"
  "cache_ok (s\<lparr>fv_inFlight := x11\<rparr>) = cache_ok s" "cache_ok (s\<lparr>fv_cooldowns := x12\<rparr>) = cache_ok s"
  "cache_ok (s\<lparr>fv_queue := x13\<rparr>) = cache_ok s" "cache_ok (s\<lparr>fv_fetching := x14\<rparr>) = cache_ok s"
  "cache_ok (s\<lparr>fv_finishing := x15\<rparr>) = cache_ok s" "cache_ok (s\<lparr>fv_active := x16\<rparr>) = cache_ok s"
  "cache_ok (s\<lparr>fv_generation := x17\<rparr>) = cache_ok s" "cache_ok (s\<lparr>fv_locked := x18\<rparr>) = cache_ok s"
  "cache_ok (s\<lparr>fv_promises := x19\<rparr>) = cache_ok s" "cache_ok (s\<lparr>fv_settled := x20\<rparr>) = cache_ok s"
  "cache_ok (s\<lparr>fv_fetched := x21\<rparr>) = cache_ok s" "cache_ok (s\<lparr>fv_notified := x22\<rparr>) = cache_ok s"
  "flights_ok (s\<lparr>fv_cache := x23\<rparr>) = flights_ok s" "flights_ok (s\<lparr>fv_cooldowns := x24\<rparr>) = flights_ok s"
  "flights_ok (s\<lparr>fv_finishing := x25\<rparr>) = flights_ok s" "flights_ok (s\<lparr>fv_active := x26\<rparr>) = flights_ok s"
  "flights_ok (s\<lparr>fv_locked := x27\<rparr>) = flights_ok s" "flights_ok (s\<lparr>fv_promises := x28\<rparr>) = flights_ok s"
  "flights_ok (s\<lparr>fv_settled := x29\<rparr>) = flights_ok s" "flights_ok (s\<lparr>fv_fetched := x30\<rparr>) = flights_ok s"
  "flights_ok (s\<lparr>fv_notified := x31\<rparr>) = flights_ok s"
  "lock_ok (s\<lparr>fv_inFlight := x32\<rparr>) = lock_ok s" "lock_ok (s\<lparr>fv_cooldowns := x33\<rparr>) = lock_ok s"
  "lock_ok (s\<lparr>fv_finishing := x34\<rparr>) = lock_ok s" "lock_ok (s\<lparr>fv_active := x35\<rparr>) = lock_ok s"
  "lock_ok (s\<lparr>fv_promises := x36\<rparr>) = lock_ok s" "lock_ok (s\<lparr>fv_settled := x37\<rparr>) = lock_ok s"
  "lock_ok (s\<lparr>fv_fetched := x38\<rparr>) = lock_ok s" "lock_ok (s\<lparr>fv_notified := x39\<rparr>) = lock_ok s"
  by (simp_all add: places_ok_def cache_ok_def flights_ok_def lock_ok_def current_items_def)

lemma current_items_process [simp]: "current_items (processQueue s) = current_items s"
  by (simp only: current_items_def processQueue_keeps)

lemma icons_ok_process:
  assumes "icons_ok s"
  shows "icons_ok (processQueue s)"
proof (cases "fv_locked s")
  case False
  let ?t = "processQueue s"
  have gen: "set (fv_fetching ?t) \<union> set (fv_queue ?t) = set (fv_fetching s) \<union> set (fv_queue s)"
    by (metis processQueue_keeps(9) set_append)
  have sub: "set (fv_queue ?t) \<subseteq> set (fv_queue s)" by (rule processQueue_sub)
  have "flights_ok ?t"
    using assms gen sub by (auto simp: icons_ok_def flights_ok_def)
  then show ?thesis
    using assms False processQueue_active [of s] processQueue_bound [of s]
    by (simp add: icons_ok_def places_ok_def cache_ok_def lock_ok_def)
qed (use assms in simp)

lemma cache_put_ok:
  assumes "om_wf m" and "length m \<le> CACHE_LIMIT" and "\<forall>(d, r) \<in> set m. is_image (Some r)" and "is_image (Some r)"
  shows "om_wf (cache_put d r m) \<and> length (cache_put d r m) \<le> CACHE_LIMIT \<and>
    (\<forall>(d, r) \<in> set (cache_put d r m). is_image (Some r))"
proof -
  let ?m = "om_set d r m"
  have wf: "om_wf ?m" using assms(1) by simp
  have img: "\<forall>(d, r) \<in> set ?m. is_image (Some r)"
    using assms(3,4) set_om_set_sub [of d r m] by blast
  show ?thesis
  proof (cases "length ?m > CACHE_LIMIT")
    case True
    have "length (om_del (hd (om_keys ?m)) ?m) < length ?m"
      using True by (cases ?m) (auto simp: om_del_def le_imp_less_Suc)
    moreover have "length ?m \<le> Suc CACHE_LIMIT" using assms(2) by (simp add: length_om_set)
    ultimately show ?thesis using True wf img by (auto simp: cache_put_def set_om_del Let_def)
  next
    case False
    with wf img show ?thesis by (simp add: cache_put_def Let_def)
  qed
qed

lemma settle_frames [simp]:
  "icons_ok (settle_promise p v s) = icons_ok s" "icons_ok (notify_listeners s) = icons_ok s"
  "icons_ok (s\<lparr>fv_cooldowns := m\<rparr>) = icons_ok s"
  by (simp_all add: icons_ok_def settle_promise_def notify_listeners_def)

text \<open>A request that leaves the running ones and is resolved.\<close>

lemma icons_ok_resolve:
  assumes "icons_ok s" and "i < length (fv_fetching s)"
  shows "icons_ok (fetch_resolved i now res s)"
proof -
  let ?A = "take i (fv_fetching s)" and ?item = "fv_fetching s ! i" and ?B = "drop (Suc i) (fv_fetching s)"
  have split: "fv_fetching s = ?A @ ?item # ?B" using assms(2) by (rule id_take_nth_drop)
  define t where "t = s\<lparr>fv_fetching := ?A @ ?B, fv_finishing := Suc (fv_finishing s)\<rparr>"
  have places: "places_ok t" using assms by (simp add: t_def icons_ok_def places_ok_def)
  have items: "current_items s = filter (\<lambda>x. qi_generation x = fv_generation s) ?A @
      (if qi_generation ?item = fv_generation s then [?item] else []) @
      filter (\<lambda>x. qi_generation x = fv_generation s) (?B @ fv_queue s)"
    unfolding current_items_def by (subst split) simp
  have left: "current_items t = filter (\<lambda>x. qi_generation x = fv_generation s) ?A @
      filter (\<lambda>x. qi_generation x = fv_generation s) (?B @ fv_queue s)"
    by (simp add: current_items_def t_def)
  have sub: "set (current_items t) \<subseteq> set (current_items s)" unfolding items left by auto
  have dist: "distinct (map qi_domain (current_items t))"
    using assms(1) unfolding icons_ok_def flights_ok_def items left by (auto split: if_splits)
  have gens: "\<forall>x \<in> set (fv_queue t). qi_generation x = fv_generation t"
      "\<forall>x \<in> set (fv_fetching t). qi_generation x \<le> fv_generation t"
    using assms(1) by (auto simp: icons_ok_def flights_ok_def t_def dest: in_set_takeD in_set_dropD)
  have t_ok: "cache_ok t" "lock_ok t"
    using assms(1) by (auto simp: icons_ok_def cache_ok_def lock_ok_def t_def dest: in_set_takeD in_set_dropD)
  show ?thesis
  proof (cases "qi_generation ?item = fv_generation s")
    case False
    have "flights_ok t"
      using assms(1) dist gens sub by (auto simp: icons_ok_def flights_ok_def t_def)
    then have "icons_ok t" using places t_ok by (simp add: icons_ok_def)
    with False show ?thesis using assms(2) by (simp add: fetch_resolved_def resolve_item_def t_def [symmetric] Let_def, simp add: t_def)
  next
    case True
    have unlocked: "\<not> fv_locked s"
    proof
      assume "fv_locked s"
      then have "\<forall>x \<in> set (fv_fetching s). qi_generation x < fv_generation s"
        using assms(1) by (simp add: icons_ok_def lock_ok_def)
      with nth_mem [OF assms(2)] True show False by fastforce
    qed
    have other: "\<forall>x \<in> set (current_items t). qi_domain x \<noteq> qi_domain ?item"
      using assms(1) True unfolding icons_ok_def flights_ok_def items left by (auto simp: rev_image_eqI)
    define u where "u = t\<lparr>fv_inFlight := om_del (qi_domain ?item) (fv_inFlight t)\<rparr>"
    have "flights_ok u"
      using assms(1) dist gens sub other by (auto simp: icons_ok_def flights_ok_def u_def t_def current_items_def)
    moreover have "places_ok u" "cache_ok u" "lock_ok u" "\<not> fv_locked u"
      using places t_ok unlocked by (simp_all add: u_def places_ok_def cache_ok_def lock_ok_def t_def)
    ultimately have u: "icons_ok u" "\<not> fv_locked u" by (simp_all add: icons_ok_def)
    have put: "icons_ok (u\<lparr>fv_cache := cache_put d (the res) (fv_cache u)\<rparr>)" if "is_image res" for d
    proof -
      from that obtain r where r: "res = Some r" "is_image (Some r)" by (cases res) (auto simp: is_image_def)
      show ?thesis
        using u cache_put_ok [of "fv_cache u" r d] r by (simp add: icons_ok_def cache_ok_def lock_ok_def)
    qed
    show ?thesis
      using assms(2) True u put
      by (simp add: fetch_resolved_def resolve_item_def t_def u_def Let_def)
  qed
qed

text \<open>Clearing settles what is queued, and leaves only requests of an earlier generation running.\<close>

lemma clear_fold:
  "\<forall>item \<in> set items. qi_generation item \<noteq> fv_generation s \<Longrightarrow>
   fold (\<lambda>item. resolve_item 0 item None) items s = s\<lparr>fv_settled := fv_settled s @ map (\<lambda>item. (qi_promise item, None)) items\<rparr>"
proof (induction items arbitrary: s)
  case (Cons item items)
  have "resolve_item 0 item None s = s\<lparr>fv_settled := fv_settled s @ [(qi_promise item, None)]\<rparr>"
    using Cons.prems by (simp add: resolve_item_def settle_promise_def)
  with Cons show ?case by simp
qed simp

lemma clear_eq:
  assumes "icons_ok s"
  shows "clearFaviconCache s = s\<lparr>fv_generation := Suc (fv_generation s), fv_inFlight := [], fv_queue := [],
     fv_settled := fv_settled s @ map (\<lambda>item. (qi_promise item, None)) (fv_queue s), fv_cache := [], fv_cooldowns := [],
     fv_notified := Suc (fv_notified s)\<rparr>"
proof -
  have "\<forall>item \<in> set (fv_queue s). qi_generation item \<noteq> Suc (fv_generation s)"
    using assms by (auto simp: icons_ok_def flights_ok_def)
  then show ?thesis by (simp add: clearFaviconCache_def clear_fold notify_listeners_def Let_def)
qed

lemma icons_ok_clear:
  assumes "icons_ok s"
  shows "icons_ok (clearFaviconCache s)"
proof -
  have gens: "\<forall>item \<in> set (fv_fetching s). qi_generation item \<le> fv_generation s"
    using assms by (simp add: icons_ok_def flights_ok_def)
  then have none: "filter (\<lambda>item. qi_generation item = Suc (fv_generation s)) (fv_fetching s) = []"
    by (fastforce simp: filter_empty_conv)
  from gens have later: "\<forall>item \<in> set (fv_fetching s). qi_generation item \<le> Suc (fv_generation s)"
    "\<forall>item \<in> set (fv_fetching s). qi_generation item < Suc (fv_generation s)" by auto
  have "places_ok s" using assms by (simp add: icons_ok_def)
  with none later show ?thesis unfolding clear_eq [OF assms]
    by (simp add: icons_ok_def places_ok_def cache_ok_def flights_ok_def lock_ok_def current_items_def)
qed

lemma lock_eq:
  assumes "icons_ok s"
  shows "lockFavicons s = (clearFaviconCache s)\<lparr>fv_locked := True\<rparr>"
proof -
  have "\<forall>item \<in> set (fv_queue s). qi_generation item \<noteq> Suc (fv_generation s)"
    using assms by (auto simp: icons_ok_def flights_ok_def)
  then show ?thesis by (simp add: lockFavicons_def clearFaviconCache_def clear_fold notify_listeners_def Let_def)
qed

lemma icons_ok_lock:
  assumes "icons_ok s"
  shows "icons_ok (lockFavicons s)"
proof -
  have "\<forall>item \<in> set (fv_fetching s). qi_generation item < Suc (fv_generation s)"
    using assms by (auto simp: icons_ok_def flights_ok_def)
  then show ?thesis
    using icons_ok_clear [OF assms] unfolding lock_eq [OF assms] clear_eq [OF assms]
    by (simp add: icons_ok_def lock_ok_def places_ok_def cache_ok_def flights_ok_def current_items_def)
qed

lemma icons_ok_enqueue:
  assumes "icons_ok s" and "\<not> fv_locked s"
  shows "icons_ok (fst (enqueueFaviconFetch d s))"
proof (cases "om_get (fv_inFlight s) d")
  case None
  let ?item = "\<lparr>qi_domain = d, qi_generation = fv_generation s, qi_promise = fv_promises s\<rparr>"
  define q where "q = s\<lparr>fv_promises := Suc (fv_promises s), fv_queue := fv_queue s @ [?item],
      fv_inFlight := om_set d (fv_promises s) (fv_inFlight s)\<rparr>"
  have items: "current_items q = current_items s @ [?item]" by (simp add: current_items_def q_def)
  have new: "d \<notin> qi_domain ` set (current_items s)"
    using assms(1) None by (force simp: icons_ok_def flights_ok_def)
  have "flights_ok q"
    using assms(1) new unfolding icons_ok_def flights_ok_def items by (auto simp: q_def)
  then have "icons_ok q"
    using assms by (simp add: icons_ok_def q_def places_ok_def cache_ok_def lock_ok_def)
  then have "icons_ok (processQueue q)" by (rule icons_ok_process)
  moreover have "(processQueue (s\<lparr>fv_promises := Suc (fv_promises s), fv_queue := fv_queue s @ [?item]\<rparr>))
      \<lparr>fv_inFlight := om_set d (fv_promises s) (fv_inFlight s)\<rparr> = processQueue q"
    unfolding q_def by (rule processQueue_inFlight)
  ultimately show ?thesis using None by (simp add: enqueueFaviconFetch_def Let_def)
qed (simp add: enqueueFaviconFetch_def assms)

lemma icons_ok_step [inv_steps]: "icons_ok s \<Longrightarrow> icons_ok (favicon_step e s)"
proof (cases e)
  case (LoadIcon online now d)
  assume "icons_ok s"
  then show ?thesis
    using icons_ok_enqueue [of s d]
    by (auto simp: LoadIcon load_icon_def Let_def split_def split: option.split list.split)
next
  case (FetchResolved i now res)
  assume "icons_ok s"
  then show ?thesis
    using icons_ok_resolve [of s i now res] by (cases "i < length (fv_fetching s)") (simp_all add: FetchResolved fetch_resolved_def)
next
  case FetchFinally
  assume ok: "icons_ok s"
  show ?thesis
  proof (cases "fv_finishing s = 0")
    case False
    with ok have "icons_ok (s\<lparr>fv_finishing := fv_finishing s - 1, fv_active := fv_active s - 1\<rparr>)"
      by (auto simp: icons_ok_def places_ok_def)
    with False show ?thesis by (simp add: FetchFinally fetch_finally_def icons_ok_process)
  qed (simp add: FetchFinally fetch_finally_def ok)
next
  case (ImageBroken now d)
  assume ok: "icons_ok s"
  have "length (om_del d (fv_cache s)) \<le> length (fv_cache s)" by (simp add: om_del_def)
  with ok have "cache_ok (image_broken now d s)"
    by (auto simp: image_broken_def icons_ok_def cache_ok_def set_om_del intro: order_trans)
  moreover from ok have "lock_ok (image_broken now d s)"
    by (auto simp: image_broken_def icons_ok_def lock_ok_def om_del_def)
  moreover from ok have "places_ok (image_broken now d s)" "flights_ok (image_broken now d s)"
    by (simp_all add: image_broken_def icons_ok_def)
  ultimately show ?thesis by (simp add: ImageBroken icons_ok_def)
next
  case UnlockIcons
  assume "icons_ok s"
  then have "icons_ok (s\<lparr>fv_locked := False\<rparr>)"
    by (simp add: icons_ok_def lock_ok_def)
  then show ?thesis by (simp add: UnlockIcons unlockFavicons_def resetFaviconCooldowns_def)
qed (simp_all add: icons_ok_clear icons_ok_lock resetFaviconCooldowns_def)

interpretation icons: invariant_machine favicon_step icons_ok
  by unfold_locales (rule icons_ok_step)

lemma icons_ok_init: "icons_ok init_favicons"
  by (simp add: icons_ok_def places_ok_def cache_ok_def flights_ok_def lock_ok_def current_items_def
      init_favicons_def)

text \<open>
  The icon cache keeps its bounds: after any sequence of loads, answers, failures,
  clearings, locks and unlocks, at most four fetches run at once, at most 250 icons are kept, every
  kept icon is an image data URL, and no domain has two requests of the current generation under
  way.
\<close>

theorem favicon_bounds:
  "let s = run favicon_step es init_favicons
   in length (fv_fetching s) \<le> MAX_CONCURRENT_FETCHES \<and> length (fv_cache s) \<le> CACHE_LIMIT \<and>
      list_all (\<lambda>(d, r). starts_with r ''data:image/'') (fv_cache s) \<and>
      distinct (map qi_domain (current_items s))"
proof -
  have "icons_ok (run favicon_step es init_favicons)" by (intro icons.run_inv icons_ok_init)
  then show ?thesis
    by (auto simp: icons_ok_def places_ok_def cache_ok_def flights_ok_def list_all_iff is_image_def Let_def)
qed

text \<open>A locked vault shows no icon, and asks the back end for none.\<close>

lemma locked_step:
  assumes "icons_ok s" "fv_locked s" "e \<noteq> UnlockIcons"
  shows "fv_locked (favicon_step e s) \<and> fv_fetched (favicon_step e s) = fv_fetched s"
proof (cases e)
  case LockIcons
  then show ?thesis by (simp add: lock_eq [OF assms(1)] clear_eq [OF assms(1)])
next
  case (FetchResolved i now res)
  then show ?thesis using assms(2)
    by (simp add: fetch_resolved_def resolve_item_def settle_promise_def notify_listeners_def Let_def)
qed (use assms in \<open>simp_all add: load_icon_def image_broken_def fetch_finally_def clear_eq
    resetFaviconCooldowns_def notify_listeners_def\<close>)

lemma locked_run:
  "icons_ok s \<Longrightarrow> fv_locked s \<Longrightarrow> UnlockIcons \<notin> set es \<Longrightarrow>
   fv_locked (run favicon_step es s) \<and> fv_fetched (run favicon_step es s) = fv_fetched s"
proof (induction es arbitrary: s)
  case (Cons e es)
  then have "e \<noteq> UnlockIcons" by auto
  with Cons locked_step [of s e] icons_ok_step [of s e] show ?case by simp
qed simp

text \<open>
  Once the vault is locked, and until it is unlocked, no answer, retry, failure or load
  request makes an icon reappear or contacts the back end: the cache stays empty and no domain is
  asked for.
\<close>

theorem locked_icons_silent:
  assumes "UnlockIcons \<notin> set later"
  shows "let s = run favicon_step (earlier @ [LockIcons]) init_favicons;
             t = run favicon_step (earlier @ [LockIcons] @ later) init_favicons
         in fv_cache t = [] \<and> fv_queue t = [] \<and> fv_fetched t = fv_fetched s"
proof -
  let ?s = "run favicon_step (earlier @ [LockIcons]) init_favicons"
  have ok: "icons_ok (run favicon_step es init_favicons)" for es by (intro icons.run_inv icons_ok_init)
  have "fv_locked ?s"
    by (simp add: lock_eq [OF ok])
  from locked_run [OF ok this assms] have "fv_locked (run favicon_step (earlier @ [LockIcons] @ later) init_favicons)"
    and "fv_fetched (run favicon_step (earlier @ [LockIcons] @ later) init_favicons) = fv_fetched ?s"
    by simp_all
  with ok [of "earlier @ [LockIcons] @ later"] show ?thesis by (simp add: icons_ok_def lock_ok_def Let_def)
qed

text \<open>An answer that arrives after the lock, and a load request, leave nothing behind.\<close>

theorem locked_icons_silent_witness:
  "let s = run favicon_step [LoadIcon True 0 ''a.io'', LockIcons] init_favicons;
       t = run favicon_step [LoadIcon True 0 ''a.io'', LockIcons,
             FetchResolved 0 1 (Some ''data:image/png''), FetchFinally, LoadIcon True 2 ''b.io''] init_favicons
   in fv_cache t = [] \<and> fv_queue t = [] \<and> fv_fetched t = fv_fetched s"
  using locked_icons_silent [of "[FetchResolved 0 1 (Some ''data:image/png''), FetchFinally, LoadIcon True 2 ''b.io'']"
      "[LoadIcon True 0 ''a.io'']"]
  by (simp only: append.simps set_simps insert_iff empty_iff favicon_event.simps HOL.simp_thms)

end
