(* ===== verification/Auto_Lock.thy ===== *)
theory Auto_Lock
  imports Vault_Prelude
begin

text \<open>
  The inactivity lock: \<open>features/auth/hooks/useAutoLock.ts\<close> and the two calls of \<open>lib/platform.ts\<close>
  it makes. Time is \<open>Date.now()\<close> in milliseconds, an argument of every event; the timer is the time
  at which it is due, and an event \<open>TimerFires\<close> before that does nothing, as the platform never runs
  a timer early. The events of the window, the heartbeat and the timer reach the code only while the effect runs.
\<close>

section \<open>State\<close>

datatype native_call = ConfigureAutoLock int | RecordUserActivity

record watch_state =
  al_tauri :: bool
  al_deps :: "(int \<times> bool) option"
  al_running :: "int option"
  al_lastActivity :: int
  al_lastReset :: int
  al_timer :: "int option"
  al_configuring :: nat
  al_calls :: "native_call list"
  al_locks :: nat

definition init_watch :: "bool \<Rightarrow> watch_state" where
  "init_watch tauri =
     \<lparr>al_tauri = tauri, al_deps = None, al_running = None, al_lastActivity = 0, al_lastReset = 0, al_timer = None,
      al_configuring = 0, al_calls = [], al_locks = 0\<rparr>"

definition configureAutoLock :: "int \<Rightarrow> watch_state \<Rightarrow> watch_state" where
  "configureAutoLock seconds s =
     (if al_tauri s
      then s\<lparr>al_calls := al_calls s @ [ConfigureAutoLock seconds], al_configuring := Suc (al_configuring s)\<rparr> else s)"

definition recordUserActivity :: "watch_state \<Rightarrow> watch_state" where
  "recordUserActivity s = (if al_tauri s then s\<lparr>al_calls := al_calls s @ [RecordUserActivity]\<rparr> else s)"

section \<open>Operations\<close>

definition triggerLock :: "watch_state \<Rightarrow> watch_state" where
  "triggerLock s = s\<lparr>al_timer := None, al_locks := Suc (al_locks s)\<rparr>"

definition scheduleTimeout :: "int \<Rightarrow> int \<Rightarrow> watch_state \<Rightarrow> watch_state" where
  "scheduleTimeout timeout now s =
     (let elapsed = now - al_lastActivity s; remaining = max 0 (timeout - elapsed)
      in s\<lparr>al_timer := Some (now + remaining)\<rparr>)"

definition handleUserActivity :: "int \<Rightarrow> int \<Rightarrow> watch_state \<Rightarrow> watch_state" where
  "handleUserActivity timeout now s =
     (if now - al_lastReset s \<ge> 1000
      then if now - al_lastActivity s \<ge> timeout then triggerLock s
           else scheduleTimeout timeout now
                  ((recordUserActivity s)\<lparr>al_lastReset := now, al_lastActivity := now\<rparr>)
      else s)"

definition checkElapsedInactivity :: "int \<Rightarrow> int \<Rightarrow> watch_state \<Rightarrow> watch_state" where
  "checkElapsedInactivity timeout now s =
     (if now - al_lastActivity s \<ge> timeout then triggerLock s else scheduleTimeout timeout now s)"

text \<open>The cleanup of a running effect, and the effect itself.\<close>

definition stop_watch :: "watch_state \<Rightarrow> watch_state" where
  "stop_watch s = (case al_running s of None \<Rightarrow> s | Some _ \<Rightarrow> s\<lparr>al_running := None, al_timer := None\<rparr>)"

definition start_watch :: "int \<Rightarrow> bool \<Rightarrow> int \<Rightarrow> watch_state \<Rightarrow> watch_state" where
  "start_watch minutes locked now s =
     (let s = s\<lparr>al_deps := Some (minutes, locked)\<rparr>;
          s = (if \<not> locked then configureAutoLock (max 0 (minutes * 60)) s else s)
      in if minutes \<le> 0 \<or> locked then s\<lparr>al_timer := None\<rparr>
         else let timeout = minutes * 60 * 1000
              in scheduleTimeout timeout now
                   (s\<lparr>al_running := Some timeout, al_lastActivity := now, al_lastReset := 0\<rparr>))"

section \<open>Events\<close>

datatype watch_event =
    RenderWatch int bool int
  | Activity int
  | Heartbeat int
  | Visibility int
  | WindowFocus int
  | TimerFires int
  | ConfigureFails
  | UnmountWatch

definition while_running :: "(int \<Rightarrow> watch_state \<Rightarrow> watch_state) \<Rightarrow> watch_state \<Rightarrow> watch_state" where
  "while_running f s = (case al_running s of None \<Rightarrow> s | Some timeout \<Rightarrow> f timeout s)"

fun watch_step :: "watch_event \<Rightarrow> watch_state \<Rightarrow> watch_state" where
  "watch_step (RenderWatch minutes locked now) s =
     (if al_deps s = Some (minutes, locked) then s else start_watch minutes locked now (stop_watch s))"
| "watch_step (Activity now) s = while_running (\<lambda>t. handleUserActivity t now) s"
| "watch_step (Heartbeat now) s = while_running (\<lambda>t. checkElapsedInactivity t now) s"
| "watch_step (Visibility now) s = while_running (\<lambda>t. checkElapsedInactivity t now) s"
| "watch_step (WindowFocus now) s = while_running (\<lambda>t. checkElapsedInactivity t now) s"
| "watch_step (TimerFires now) s =
     (case al_timer s of None \<Rightarrow> s | Some due \<Rightarrow> if due \<le> now then triggerLock s else s)"
| "watch_step ConfigureFails s =
     (if al_configuring s = 0 then s else triggerLock (s\<lparr>al_configuring := al_configuring s - 1\<rparr>))"
| "watch_step UnmountWatch s = (stop_watch s)\<lparr>al_deps := None\<rparr>"

section \<open>What the timer keeps\<close>

text \<open>
  While the effect runs, the timer is due exactly one timeout after the last recorded activity; a
  timer can only be missing after a lock.
\<close>

definition watch_ok :: "watch_state \<Rightarrow> bool" where
  "watch_ok s \<longleftrightarrow>
     (case al_running s of
        None \<Rightarrow> al_timer s = None
      | Some timeout \<Rightarrow>
          60000 \<le> timeout \<and> (al_lastReset s = 0 \<or> al_lastReset s = al_lastActivity s) \<and>
          (al_locks s = 0 \<longrightarrow> al_timer s \<noteq> None) \<and>
          (\<forall>due \<in> set_option (al_timer s). due = al_lastActivity s + timeout))"

lemmas watch_defs = while_running_def handleUserActivity_def checkElapsedInactivity_def scheduleTimeout_def
  triggerLock_def recordUserActivity_def configureAutoLock_def Let_def

lemma watch_ok_start: "watch_ok (start_watch minutes locked now (stop_watch s))" if "watch_ok s"
  using that by (auto simp: start_watch_def stop_watch_def watch_ok_def scheduleTimeout_def configureAutoLock_def
      Let_def split: option.splits)

lemma watch_ok_step [inv_steps]: "watch_ok s \<Longrightarrow> watch_ok (watch_step e s)"
proof (cases e)
  case (RenderWatch minutes locked now)
  then show "watch_ok s \<Longrightarrow> ?thesis" using watch_ok_start [of s minutes locked now] by simp
qed (auto simp: watch_ok_def watch_defs stop_watch_def split: option.splits)

interpretation watch: invariant_machine watch_step watch_ok
  by unfold_locales (rule watch_ok_step)

lemma watch_ok_init: "watch_ok (init_watch tauri)"
  by (simp add: watch_ok_def init_watch_def)

text \<open>The events that reach a running effect and read the clock, and what the user did last.\<close>

fun event_time :: "watch_event \<Rightarrow> int option" where
  "event_time (Activity now) = Some now"
| "event_time (Heartbeat now) = Some now"
| "event_time (Visibility now) = Some now"
| "event_time (WindowFocus now) = Some now"
| "event_time (TimerFires now) = Some now"
| "event_time _ = None"

fun last_seen :: "int \<Rightarrow> watch_event list \<Rightarrow> int" where
  "last_seen t [] = t"
| "last_seen t (Activity now # es) = last_seen now es"
| "last_seen t (_ # es) = last_seen t es"

text \<open>The clock of a list of events, from a starting time: every event is timed, and not before the one it follows.\<close>

fun clocked :: "int \<Rightarrow> watch_event list \<Rightarrow> bool" where
  "clocked t [] = True"
| "clocked t (e # es) = (case event_time e of None \<Rightarrow> False | Some now \<Rightarrow> t \<le> now \<and> clocked now es)"

fun clock_after :: "int \<Rightarrow> watch_event list \<Rightarrow> int" where
  "clock_after t [] = t"
| "clock_after t (e # es) = clock_after (case event_time e of None \<Rightarrow> t | Some now \<Rightarrow> now) es"

text \<open>
  The relation between the recorded activity and the real one (\<open>seen\<close>), before the first lock: the
  throttle makes the record lag by less than a second.
\<close>

definition tracks :: "int \<Rightarrow> int \<Rightarrow> int \<Rightarrow> watch_state \<Rightarrow> bool" where
  "tracks timeout now seen s \<longleftrightarrow>
     al_running s = Some timeout \<and> watch_ok s \<and> 1000 \<le> now \<and>
     al_lastReset s \<le> al_lastActivity s \<and> al_lastActivity s \<le> seen \<and> seen \<le> now \<and>
     seen < al_lastActivity s + 1000"

lemma locks_grow: "al_locks s \<le> al_locks (watch_step e s)"
  by (cases e) (auto simp: watch_defs start_watch_def stop_watch_def split: option.splits)

lemma locks_grow_run: "al_locks s \<le> al_locks (run watch_step es s)"
  by (induction es arbitrary: s) (auto intro: order_trans locks_grow)

lemma tracks_step:
  assumes "tracks timeout t seen s" "event_time e = Some now" "t \<le> now" "al_locks (watch_step e s) = 0"
  shows "tracks timeout now (last_seen seen [e]) (watch_step e s)"
proof -
  have ok: "watch_ok (watch_step e s)" using assms(1) by (intro watch_ok_step) (simp add: tracks_def)
  show ?thesis
  proof (cases "\<exists>n. e = Activity n")
    case True
    with assms ok show ?thesis
      by (auto simp: tracks_def watch_defs split: if_splits)
  next
    case False
    with assms ok show ?thesis
      by (cases e) (auto simp: tracks_def watch_defs split: if_splits option.splits)
  qed
qed

lemma tracks_run:
  "tracks timeout t seen s \<Longrightarrow> clocked t es \<Longrightarrow> al_locks (run watch_step es s) = 0 \<Longrightarrow>
   tracks timeout (clock_after t es) (last_seen seen es) (run watch_step es s)"
proof (induction es arbitrary: t seen s)
  case (Cons e es)
  from Cons.prems(2) obtain now where now: "event_time e = Some now" "t \<le> now" "clocked now es"
    by (auto split: option.splits)
  have "al_locks (watch_step e s) = 0"
    using Cons.prems(3) locks_grow_run [of "watch_step e s" es] by simp
  from tracks_step [OF Cons.prems(1) now(1,2) this] Cons.IH [OF _ now(3)] Cons.prems(3) now(1)
  have "tracks timeout (clock_after t (e # es)) (last_seen (last_seen seen [e]) es) (run watch_step (e # es) s)"
    by auto
  moreover have "last_seen (last_seen seen [e]) es = last_seen seen (e # es)" by (cases e) auto
  ultimately show ?case by simp
qed simp

lemma tracks_start:
  assumes "0 < minutes" "1000 \<le> t0"
  shows "tracks (minutes * 60000) t0 t0 (watch_step (RenderWatch minutes False t0) (init_watch tauri))"
  using assms
  by (auto simp: tracks_def watch_ok_def init_watch_def stop_watch_def start_watch_def configureAutoLock_def scheduleTimeout_def Let_def)

text \<open>Once the record is a timeout old, every event that reads the clock locks; before that, none does.\<close>

lemma locks_iff_due:
  assumes "tracks timeout t seen s" "al_locks s = 0" "event_time e = Some now" "t \<le> now"
  shows "al_locks (watch_step e s) = (if al_lastActivity s + timeout \<le> now then 1 else 0)"
proof -
  from assms(1,2) have "al_timer s = Some (al_lastActivity s + timeout)" "60000 \<le> timeout"
    by (auto simp: tracks_def watch_ok_def)
  with assms show ?thesis
    by (cases e) (auto simp: tracks_def watch_defs)
qed

text \<open>
  Claim C32. The vault locks after the configured inactivity, within a second: from the moment the
  hook starts with a timeout of some minutes, and as long as it has not locked, there is a moment
  less than a second before, and never after, the timeout counted from the user's last activity, such that
  every clock-reading event (timer, heartbeat, focus, visibility, activity) from that moment on locks, and none before
  it does; the timer is due at that very moment.
\<close>

theorem autolock_window:
  assumes "0 < minutes" "1000 \<le> t0" "clocked t0 es"
    and "al_locks (run watch_step (RenderWatch minutes False t0 # es) (init_watch tauri)) = 0"
  shows "let s = run watch_step (RenderWatch minutes False t0 # es) (init_watch tauri);
             deadline = last_seen t0 es + minutes * 60000
         in \<exists>due. al_timer s = Some due \<and> deadline - 1000 < due \<and> due \<le> deadline \<and>
              (\<forall>e now. event_time e = Some now \<longrightarrow> clock_after t0 es \<le> now \<longrightarrow>
                 al_locks (watch_step e s) = (if due \<le> now then 1 else 0))"
proof -
  define s where "s = run watch_step (RenderWatch minutes False t0 # es) (init_watch tauri)"
  have s: "al_locks s = 0" "s = run watch_step es (watch_step (RenderWatch minutes False t0) (init_watch tauri))"
    using assms(4) by (simp_all add: s_def)
  from tracks_run [OF tracks_start [OF assms(1,2)] assms(3)] s
  have n: "tracks (minutes * 60000) (clock_after t0 es) (last_seen t0 es) s" by metis
  let ?due = "al_lastActivity s + minutes * 60000"
  from n s(1) have "al_timer s = Some ?due"
    "last_seen t0 es + minutes * 60000 - 1000 < ?due" "?due \<le> last_seen t0 es + minutes * 60000"
    by (auto simp: tracks_def watch_ok_def)
  moreover have "\<forall>e now. event_time e = Some now \<longrightarrow> clock_after t0 es \<le> now \<longrightarrow>
      al_locks (watch_step e s) = (if ?due \<le> now then 1 else 0)"
    using locks_iff_due [OF n s(1)] by blast
  ultimately show ?thesis unfolding s_def [symmetric] Let_def by blast
qed

text \<open>One minute, a key press half a minute in: due at the ninetieth second of the run.\<close>

theorem autolock_window_witness:
  "let s = run watch_step [RenderWatch 1 False 1000000, Activity 1030000] (init_watch True);
       deadline = last_seen 1000000 [Activity 1030000] + 60000
   in \<exists>due. al_timer s = Some due \<and> deadline - 1000 < due \<and> due \<le> deadline \<and>
        (\<forall>e now. event_time e = Some now \<longrightarrow> clock_after 1000000 [Activity 1030000] \<le> now \<longrightarrow>
           al_locks (watch_step e s) = (if due \<le> now then 1 else 0))"
  using autolock_window [of 1 1000000 "[Activity 1030000]" True]
  by (simp add: watch_defs init_watch_def stop_watch_def start_watch_def)

definition clock_reader :: "watch_event \<Rightarrow> bool" where
  "clock_reader e \<longleftrightarrow> (case e of TimerFires _ \<Rightarrow> False | _ \<Rightarrow> event_time e \<noteq> None)"

lemma expired_step:
  assumes "watch_ok s" "al_running s = Some timeout" "al_lastActivity s + timeout \<le> now" "1000 \<le> now"
    and "event_time e = Some now"
  shows "al_calls (watch_step e s) = al_calls s \<and> al_lastActivity (watch_step e s) = al_lastActivity s \<and>
    al_running (watch_step e s) = al_running s \<and>
    al_locks s + (if clock_reader e then 1 else 0) \<le> al_locks (watch_step e s)"
  using assms by (cases e) (auto simp: watch_ok_def watch_defs clock_reader_def split: option.splits)

lemma expired_run:
  "watch_ok s \<Longrightarrow> al_running s = Some timeout \<Longrightarrow> al_lastActivity s + timeout \<le> now \<Longrightarrow> 1000 \<le> now \<Longrightarrow>
   clocked now es \<Longrightarrow>
   al_calls (run watch_step es s) = al_calls s \<and> al_lastActivity (run watch_step es s) = al_lastActivity s \<and>
   al_locks s + length (filter clock_reader es) \<le> al_locks (run watch_step es s)"
proof (induction es arbitrary: s now)
  case (Cons e es)
  from Cons.prems(5) obtain n where n: "event_time e = Some n" "now \<le> n" "clocked n es"
    by (auto split: option.splits)
  have step: "al_calls (watch_step e s) = al_calls s" "al_lastActivity (watch_step e s) = al_lastActivity s"
    "al_running (watch_step e s) = Some timeout"
    "al_locks s + (if clock_reader e then 1 else 0) \<le> al_locks (watch_step e s)"
    using expired_step [OF Cons.prems(1,2) _ _ n(1)] Cons.prems n(2) by auto
  from Cons.IH [OF watch_ok_step [OF Cons.prems(1)] step(3) _ _ n(3)] Cons.prems n(2) step
  show ?case by auto
qed simp

text \<open>
  An expired session is not revived: from the moment the timeout has passed since the
  recorded activity, whatever window events follow, no activity is recorded or reported to the
  native side, and every one of them that is not a timer locks once more.
\<close>

theorem expired_not_revived:
  assumes "s = run watch_step earlier (init_watch tauri)"
    and "al_running s = Some timeout" "al_lastActivity s + timeout \<le> now" "1000 \<le> now" "clocked now later"
  shows "let t = run watch_step later s
         in al_calls t = al_calls s \<and> al_lastActivity t = al_lastActivity s \<and>
            al_locks s + length (filter clock_reader later) \<le> al_locks t"
proof -
  have "watch_ok s" unfolding assms(1) by (intro watch.run_inv watch_ok_init)
  from expired_run [OF this assms(2-5)] show ?thesis by (simp add: Let_def)
qed

text \<open>The computer wakes after an hour: the mouse move that follows locks.\<close>

theorem expired_not_revived_witness:
  "let s = run watch_step [RenderWatch 5 False 1000000] (init_watch True);
       t = run watch_step [Activity 4600000, WindowFocus 4600001] s
   in al_calls t = al_calls s \<and> al_lastActivity t = al_lastActivity s \<and>
      al_locks s + length (filter clock_reader [Activity 4600000, WindowFocus 4600001]) \<le> al_locks t"
  using expired_not_revived [OF refl, of "[RenderWatch 5 False 1000000]" True 300000 4600000
      "[Activity 4600000, WindowFocus 4600001]"]
  by (simp add: watch_defs init_watch_def stop_watch_def start_watch_def)

end
