(* ===== verification/Updater.thy ===== *)
theory Updater
  imports Text_Utils
begin

text \<open>
  The updater: \<open>features/updater/useUpdater.model.ts\<close>. Checking for a new version, the automatic
  check after the start, and the three ways of installing one. The back end's calls wait in a list until an event
  \<open>SettleUpdate\<close> answers one of them; an operation keeps the closure it was started with.
\<close>

section \<open>Data\<close>

record check_update_result =
  cu_current_version :: string
  cu_latest_version :: string
  cu_has_update :: bool
  cu_download_url :: "string option"
  cu_sha256 :: "string option"
  cu_target_platform :: string

datatype update_status = UIdle | UChecking | UAvailable | UDownloading | UReady | UUpToDate | UError

text \<open>\<open>t(key) || fallback\<close> with what is appended to it, or a literal text.\<close>

datatype update_message = Translated string string string | Literal string

text \<open>What a promise rejects with: an \<open>Error\<close> and its message, or another value as a string.\<close>

datatype rejection = ErrorObject string | OtherValue string

definition rejection_text :: "string \<Rightarrow> rejection \<Rightarrow> string" where
  "rejection_text fallback r =
     (case r of ErrorObject m \<Rightarrow> m | OtherValue v \<Rightarrow> if v = [] then fallback else v)"

datatype update_call =
    GetAppVersion
  | CheckAppUpdate
  | FlushMetadata
  | DownloadAndInstallApk string "string option"
  | InstallPortableUpdate string "string option"
  | InstallDesktopUpdate string string

datatype update_wait =
    WaitVersion
  | WaitCheck bool
  | WaitFlush check_update_result bool
  | WaitApk
  | WaitPortable
  | WaitDesktop bool

datatype update_response =
    GotVersion string
  | Checked check_update_result
  | Finished
  | RejectedWith rejection

text \<open>What the hook reads when it renders.\<close>

record update_inputs =
  ui_backend :: bool
  ui_network :: bool
  ui_mode :: "operation_mode option"
  ui_autoCheck :: "bool option"
  ui_language :: string

record updater_state =
  up_inputs :: update_inputs
  up_status :: update_status
  up_info :: "check_update_result option"
  up_currentVersion :: string
  up_error :: "string option"
  up_modalOpen :: bool
  up_downloading :: bool
  up_hasAutoChecked :: bool
  up_operation :: bool
  up_timer :: "update_inputs option"
  up_waiting :: "update_wait list"
  up_calls :: "update_call list"
  up_toasts :: "(update_message \<times> toast_type) list"

section \<open>Operations\<close>

definition update_call_made :: "update_call \<Rightarrow> update_wait \<Rightarrow> updater_state \<Rightarrow> updater_state" where
  "update_call_made c w s = s\<lparr>up_calls := up_calls s @ [c], up_waiting := up_waiting s @ [w]\<rparr>"

definition update_toast :: "update_message \<Rightarrow> toast_type \<Rightarrow> updater_state \<Rightarrow> updater_state" where
  "update_toast m k s = s\<lparr>up_toasts := up_toasts s @ [(m, k)]\<rparr>"

definition update_allowed :: "update_inputs \<Rightarrow> updater_state \<Rightarrow> bool" where
  "update_allowed p s \<longleftrightarrow> ui_backend p \<and> \<not> up_operation s \<and> ui_network p \<and> ui_mode p \<noteq> Some Airgap"

text \<open>\<open>checkForUpdates(silent)\<close> up to its \<open>await\<close>, with the closure of the render \<open>p\<close>.\<close>

definition checkForUpdates :: "update_inputs \<Rightarrow> bool \<Rightarrow> updater_state \<Rightarrow> updater_state" where
  "checkForUpdates p silent s =
     (if \<not> update_allowed p s then s
      else update_call_made CheckAppUpdate (WaitCheck silent)
             (s\<lparr>up_operation := True, up_hasAutoChecked := True, up_status := UChecking, up_error := None\<rparr>))"

definition check_answered :: "bool \<Rightarrow> check_update_result \<Rightarrow> updater_state \<Rightarrow> updater_state" where
  "check_answered silent r s =
     (let s = s\<lparr>up_currentVersion := cu_current_version r, up_info := Some r\<rparr>
      in if cu_has_update r
         then let s = s\<lparr>up_status := UAvailable\<rparr>
              in if \<not> silent then s\<lparr>up_modalOpen := True\<rparr>
                 else update_toast (Translated ''updater.update_available_toast'' ''New update available''
                        ('': v'' @ cu_latest_version r)) ToastInfo s
         else let s = s\<lparr>up_status := UUpToDate\<rparr>
              in if \<not> silent
                 then update_toast (Translated ''updater.up_to_date_toast'' ''Yntra Vault is up to date.'' [])
                        ToastSuccess s
                 else s)"

definition check_failed :: "bool \<Rightarrow> rejection \<Rightarrow> updater_state \<Rightarrow> updater_state" where
  "check_failed silent e s =
     (let msg = rejection_text ''Unknown updater error'' e;
          s = s\<lparr>up_error := Some msg, up_status := UError\<rparr>
      in if \<not> silent
         then update_toast (Translated ''updater.check_failed_toast'' ''Failed to check for updates'' ('': '' @ msg))
                ToastError s
         else s)"

text \<open>\<open>installUpdate\<close>: up to the flush, and what follows the flush.\<close>

definition installUpdate :: "update_inputs \<Rightarrow> updater_state \<Rightarrow> updater_state" where
  "installUpdate p s =
     (case up_info s of
        None \<Rightarrow> s
      | Some r \<Rightarrow>
          if \<not> cu_has_update r \<or> \<not> truthy_str (cu_download_url r) \<or> \<not> update_allowed p s then s
          else update_call_made FlushMetadata (WaitFlush r (ui_language p = ''sv''))
                 (s\<lparr>up_operation := True, up_downloading := True, up_status := UDownloading, up_error := None\<rparr>))"

definition install_failed :: "rejection \<Rightarrow> updater_state \<Rightarrow> updater_state" where
  "install_failed e s =
     (let msg = rejection_text ''Installation failed'' e
      in update_toast (Translated ''updater.install_failed_toast'' ''Update installation failed'' ('': '' @ msg)) ToastError
           (s\<lparr>up_error := Some msg, up_status := UError\<rparr>))"

text \<open>The \<open>finally\<close> blocks.\<close>

definition check_over :: "updater_state \<Rightarrow> updater_state" where
  "check_over s = s\<lparr>up_operation := False\<rparr>"

definition install_over :: "updater_state \<Rightarrow> updater_state" where
  "install_over s = s\<lparr>up_operation := False, up_downloading := False\<rparr>"

definition after_flush :: "check_update_result \<Rightarrow> bool \<Rightarrow> updater_state \<Rightarrow> updater_state" where
  "after_flush r sv s =
     (let url = the (cu_download_url r)
      in if cu_target_platform r = ''android''
         then update_call_made (DownloadAndInstallApk url (or_undefined (cu_sha256 r))) WaitApk
                (update_toast (Translated ''updater.downloading_apk_toast'' ''Downloading Android update package...'' [])
                   ToastInfo s)
         else if cu_target_platform r = ''windows-portable''
         then update_call_made (InstallPortableUpdate url (or_undefined (cu_sha256 r))) WaitPortable
                (update_toast (Translated ''updater.updating_portable_toast'' ''Applying portable binary update...'' [])
                   ToastInfo s)
         else case or_undefined (cu_sha256 r) of
                None \<Rightarrow> install_over (install_failed
                  (ErrorObject ''The update is missing its verified checksum. Check for updates again.'') s)
              | Some sha \<Rightarrow> update_call_made (InstallDesktopUpdate url sha) (WaitDesktop sv) s)"

definition installed_toast :: "update_wait \<Rightarrow> update_message \<times> toast_type" where
  "installed_toast w =
     (case w of
        WaitApk \<Rightarrow>
          (Translated ''updater.apk_ready_toast'' ''APK ready! Opening package installer...'' [], ToastSuccess)
      | WaitPortable \<Rightarrow>
          (Translated ''updater.portable_ready_toast''
             ''Update applied successfully! Please restart Yntra Vault.'' [], ToastSuccess)
      | WaitDesktop True \<Rightarrow>
          (Literal (''Det verifierade uppdateringspaketet har '' @ [CHR 0xF6] @ ''ppnats. Slutf'' @ [CHR 0xF6] @
             ''r installationen i systemets installationsprogram.''), ToastInfo)
      | _ \<Rightarrow>
          (Literal ''Verified update package opened. Complete installation in the system installer.'', ToastInfo))"

definition installed :: "update_wait \<Rightarrow> updater_state \<Rightarrow> updater_state" where
  "installed w s =
     install_over ((case installed_toast w of (m, k) \<Rightarrow> update_toast m k (s\<lparr>up_status := UReady\<rparr>))
       \<lparr>up_modalOpen := False\<rparr>)"

section \<open>Answers and effects\<close>

definition resume_updater :: "update_wait \<Rightarrow> update_response \<Rightarrow> updater_state \<Rightarrow> updater_state" where
  "resume_updater w x s =
     (case w of
        WaitVersion \<Rightarrow> (case x of GotVersion v \<Rightarrow> if v = [] then s else s\<lparr>up_currentVersion := v\<rparr> | _ \<Rightarrow> s)
      | WaitCheck silent \<Rightarrow>
          (case x of Checked r \<Rightarrow> check_over (check_answered silent r s)
                   | RejectedWith e \<Rightarrow> check_over (check_failed silent e s) | _ \<Rightarrow> s)
      | WaitFlush r sv \<Rightarrow>
          (case x of Finished \<Rightarrow> after_flush r sv s
                   | RejectedWith e \<Rightarrow> install_over (install_failed e s) | _ \<Rightarrow> s)
      | _ \<Rightarrow>
          (case x of Finished \<Rightarrow> installed w s
                   | RejectedWith e \<Rightarrow> install_over (install_failed e s) | _ \<Rightarrow> s))"

text \<open>Which answers a call can get: those of its promise's type, or a rejection.\<close>

definition answers_wait :: "update_wait \<Rightarrow> update_response \<Rightarrow> bool" where
  "answers_wait w x \<longleftrightarrow>
     (case x of GotVersion _ \<Rightarrow> w = WaitVersion
              | Checked _ \<Rightarrow> (case w of WaitCheck _ \<Rightarrow> True | _ \<Rightarrow> False)
              | Finished \<Rightarrow> (case w of WaitVersion \<Rightarrow> False | WaitCheck _ \<Rightarrow> False | _ \<Rightarrow> True)
              | RejectedWith _ \<Rightarrow> True)"

definition settle_update :: "nat \<Rightarrow> update_response \<Rightarrow> updater_state \<Rightarrow> updater_state" where
  "settle_update i x s =
     (if i < length (up_waiting s) \<and> answers_wait (up_waiting s ! i) x
      then resume_updater (up_waiting s ! i) x
             (s\<lparr>up_waiting := take i (up_waiting s) @ drop (Suc i) (up_waiting s)\<rparr>)
      else s)"

text \<open>The effect of the automatic check: its timer keeps the closure of its render.\<close>

definition auto_check_effect :: "updater_state \<Rightarrow> updater_state" where
  "auto_check_effect s =
     (let p = up_inputs s
      in if up_hasAutoChecked s \<or> \<not> ui_backend p \<or> \<not> ui_network p then s
         else if ui_autoCheck p = Some True \<and> ui_mode p \<noteq> Some Airgap then s\<lparr>up_timer := Some p\<rparr>
         else s)"

definition load_version :: "updater_state \<Rightarrow> updater_state" where
  "load_version s = (if ui_backend (up_inputs s) then update_call_made GetAppVersion WaitVersion s else s)"

definition mount_updater :: "update_inputs \<Rightarrow> updater_state" where
  "mount_updater p =
     auto_check_effect (load_version
       \<lparr>up_inputs = p, up_status = UIdle, up_info = None, up_currentVersion = ''0.2.4'', up_error = None,
        up_modalOpen = False, up_downloading = False, up_hasAutoChecked = False, up_operation = False,
        up_timer = None, up_waiting = [], up_calls = [], up_toasts = []\<rparr>)"

definition render_updater :: "update_inputs \<Rightarrow> updater_state \<Rightarrow> updater_state" where
  "render_updater p s =
     (let old = up_inputs s;
          s = s\<lparr>up_inputs := p\<rparr>;
          s = (if ui_backend old = ui_backend p then s else load_version s)
      in if old = p then s else auto_check_effect (s\<lparr>up_timer := None\<rparr>))"

definition auto_check_fires :: "updater_state \<Rightarrow> updater_state" where
  "auto_check_fires s =
     (case up_timer s of
        None \<Rightarrow> s
      | Some p \<Rightarrow> checkForUpdates p True (s\<lparr>up_timer := None, up_hasAutoChecked := True\<rparr>))"

datatype update_event =
    RenderUpdater update_inputs
  | CheckClicked
  | InstallClicked
  | ModalSet bool
  | AutoTimer
  | SettleUpdate nat update_response

fun update_step :: "update_event \<Rightarrow> updater_state \<Rightarrow> updater_state" where
  "update_step (RenderUpdater p) s = render_updater p s"
| "update_step CheckClicked s = checkForUpdates (up_inputs s) False s"
| "update_step InstallClicked s = installUpdate (up_inputs s) s"
| "update_step (ModalSet b) s = s\<lparr>up_modalOpen := b\<rparr>"
| "update_step AutoTimer s = auto_check_fires s"
| "update_step (SettleUpdate i x) s = settle_update i x s"


section \<open>One operation at a time\<close>

lemmas update_defs = update_call_made_def update_toast_def check_answered_def check_failed_def install_failed_def
  check_over_def install_over_def after_flush_def installed_def Let_def

definition is_operation :: "update_wait \<Rightarrow> bool" where
  "is_operation w \<longleftrightarrow> w \<noteq> WaitVersion"

definition is_check :: "update_wait \<Rightarrow> bool" where
  "is_check w \<longleftrightarrow> (case w of WaitCheck _ \<Rightarrow> True | _ \<Rightarrow> False)"

text \<open>What the status, the flags and the waiting operations say of each other.\<close>

definition one_operation :: "update_wait list \<Rightarrow> bool \<Rightarrow> bool \<Rightarrow> update_status \<Rightarrow> bool" where
  "one_operation ops operation downloading status =
     (case ops of
        [] \<Rightarrow> \<not> operation \<and> \<not> downloading \<and> status \<notin> {UChecking, UDownloading}
      | [w] \<Rightarrow> operation \<and> downloading = (\<not> is_check w) \<and>
          status = (if is_check w then UChecking else UDownloading)
      | _ \<Rightarrow> False)"

definition operation_ok :: "updater_state \<Rightarrow> bool" where
  "operation_ok s =
     one_operation (filter is_operation (up_waiting s)) (up_operation s) (up_downloading s) (up_status s)"

lemma one_operation_simps [simp]:
  "one_operation [] b d st = (\<not> b \<and> \<not> d \<and> st \<noteq> UChecking \<and> st \<noteq> UDownloading)"
  "one_operation [w] b d st = (b \<and> d = (\<not> is_check w) \<and> st = (if is_check w then UChecking else UDownloading))"
  "one_operation (v # w # ws) b d st = False"
  by (simp_all add: one_operation_def)

lemma one_operation_idle: "one_operation ws False d st \<Longrightarrow> ws = []"
  by (simp add: one_operation_def split: list.splits)

lemma one_operation_only: "one_operation (xs @ w # ys) b d st \<Longrightarrow> xs = [] \<and> ys = []"
  by (auto simp: one_operation_def Cons_eq_append_conv append_eq_Cons_conv split: list.splits)

definition timer_current :: "updater_state \<Rightarrow> bool" where
  "timer_current s \<longleftrightarrow>
     (\<forall>p \<in> set_option (up_timer s). p = up_inputs s \<and> ui_autoCheck p = Some True)"

definition updater_ok :: "updater_state \<Rightarrow> bool" where
  "updater_ok s \<longleftrightarrow> operation_ok s \<and> timer_current s"

lemma operation_idle: "operation_ok s \<Longrightarrow> \<not> up_operation s \<Longrightarrow> filter is_operation (up_waiting s) = []"
  by (auto simp: operation_ok_def dest: one_operation_idle)

lemma checkForUpdates_ok: "updater_ok s \<Longrightarrow> updater_ok (checkForUpdates p silent s)"
  using operation_idle [of s]
  by (auto simp: updater_ok_def timer_current_def checkForUpdates_def update_allowed_def operation_ok_def
      update_call_made_def is_operation_def is_check_def)

lemma installUpdate_ok: "updater_ok s \<Longrightarrow> updater_ok (installUpdate p s)"
  using operation_idle [of s]
  by (auto simp: updater_ok_def timer_current_def installUpdate_def update_allowed_def operation_ok_def
      update_call_made_def is_operation_def is_check_def split: option.split)

lemma effect_ok: "updater_ok s \<Longrightarrow> updater_ok (auto_check_effect s)"
  by (simp add: updater_ok_def operation_ok_def timer_current_def auto_check_effect_def Let_def)

lemma load_version_ok: "updater_ok s \<Longrightarrow> updater_ok (load_version s)"
  by (simp add: updater_ok_def operation_ok_def timer_current_def load_version_def update_call_made_def is_operation_def)

lemma settle_ok:
  assumes "updater_ok s"
  shows "updater_ok (settle_update i x s)"
proof (cases "i < length (up_waiting s) \<and> answers_wait (up_waiting s ! i) x")
  case True
  let ?w = "up_waiting s ! i" and ?t = "s\<lparr>up_waiting := take i (up_waiting s) @ drop (Suc i) (up_waiting s)\<rparr>"
  have split: "filter is_operation (up_waiting s) =
      filter is_operation (take i (up_waiting s)) @ (if is_operation ?w then [?w] else []) @
      filter is_operation (drop (Suc i) (up_waiting s))"
    using True by (intro filter_remove_nth) simp
  show ?thesis
  proof (cases "is_operation ?w")
    case op: True
    then have one: "one_operation (filter is_operation (take i (up_waiting s)) @ ?w #
        filter is_operation (drop (Suc i) (up_waiting s))) (up_operation s) (up_downloading s) (up_status s)"
      using assms split by (simp add: updater_ok_def operation_ok_def)
    from one_operation_only [OF this] one have "filter is_operation (up_waiting ?t) = []" "up_operation s"
      "up_downloading s = (\<not> is_check ?w)" "up_status s = (if is_check ?w then UChecking else UDownloading)"
      by simp_all
    then show ?thesis using True assms op
      by (cases ?w; cases x)
         (auto simp: settle_update_def answers_wait_def resume_updater_def update_defs installed_toast_def updater_ok_def
           operation_ok_def timer_current_def is_operation_def is_check_def split: bool.split option.split)
  next
    case False
    then have "?w = WaitVersion" by (simp add: is_operation_def)
    moreover have "updater_ok ?t" using assms split False by (simp add: updater_ok_def operation_ok_def timer_current_def)
    ultimately show ?thesis using True
      by (cases x) (auto simp: settle_update_def resume_updater_def updater_ok_def operation_ok_def timer_current_def)
  qed
qed (use assms in \<open>auto simp: settle_update_def\<close>)

lemma updater_ok_step [inv_steps]: "updater_ok s \<Longrightarrow> updater_ok (update_step e s)"
proof (cases e)
  case (RenderUpdater p)
  assume ok: "updater_ok s"
  define t where "t = (if ui_backend (up_inputs s) = ui_backend p then s\<lparr>up_inputs := p\<rparr> else load_version (s\<lparr>up_inputs := p\<rparr>))"
  have "updater_ok (t\<lparr>up_timer := None\<rparr>)"
    using ok by (auto simp: t_def updater_ok_def operation_ok_def timer_current_def load_version_def
        update_call_made_def is_operation_def)
  from effect_ok [OF this] ok show ?thesis
    by (auto simp: RenderUpdater render_updater_def Let_def t_def)
next
  case AutoTimer
  assume "updater_ok s"
  then have "updater_ok (s\<lparr>up_timer := None, up_hasAutoChecked := True\<rparr>)"
    by (simp add: updater_ok_def operation_ok_def timer_current_def)
  with \<open>updater_ok s\<close> show ?thesis
    by (auto simp: AutoTimer auto_check_fires_def split: option.split intro: checkForUpdates_ok)
next
  case (ModalSet b)
  then show "updater_ok s \<Longrightarrow> ?thesis" by (simp add: updater_ok_def operation_ok_def timer_current_def)
qed (simp_all add: checkForUpdates_ok installUpdate_ok settle_ok)

interpretation updates: invariant_machine update_step updater_ok
  by unfold_locales (rule updater_ok_step)

lemma updater_ok_mount: "updater_ok (mount_updater p)"
  unfolding mount_updater_def
  by (intro effect_ok load_version_ok) (simp add: updater_ok_def operation_ok_def timer_current_def)

text \<open>
  The updater does one thing at a time and shows what it does: after any sequence of
  renders, clicks, timers and answers, either no operation is waiting, and the status shows none, or
  exactly one is, and the status and the download flag name it.
\<close>

theorem updater_exclusive:
  "let s = run update_step es (mount_updater p)
   in one_operation (filter is_operation (up_waiting s)) (up_operation s) (up_downloading s) (up_status s)"
proof -
  have "updater_ok (run update_step es (mount_updater p))" by (intro updates.run_inv updater_ok_mount)
  then show ?thesis by (simp add: updater_ok_def operation_ok_def Let_def)
qed


section \<open>When it starts, and what it installs\<close>

text \<open>The calls a step adds.\<close>

definition new_calls :: "update_event \<Rightarrow> updater_state \<Rightarrow> update_call list" where
  "new_calls e s = drop (length (up_calls s)) (up_calls (update_step e s))"

lemma calls_checkForUpdates: "up_calls (checkForUpdates p silent s) =
    up_calls s @ (if update_allowed p s then [CheckAppUpdate] else [])"
  by (simp add: checkForUpdates_def update_call_made_def)

lemma calls_installUpdate: "up_calls (installUpdate p s) = up_calls s @
   (case up_info s of None \<Rightarrow> []
      | Some r \<Rightarrow> if cu_has_update r \<and> truthy_str (cu_download_url r) \<and> update_allowed p s then [FlushMetadata] else [])"
  by (auto simp: installUpdate_def update_call_made_def split: option.split)

text \<open>The install call that follows a flush.\<close>

definition install_call :: "check_update_result \<Rightarrow> update_call option" where
  "install_call r =
     (let url = the (cu_download_url r)
      in if cu_target_platform r = ''android'' then Some (DownloadAndInstallApk url (or_undefined (cu_sha256 r)))
         else if cu_target_platform r = ''windows-portable''
         then Some (InstallPortableUpdate url (or_undefined (cu_sha256 r)))
         else map_option (InstallDesktopUpdate url) (or_undefined (cu_sha256 r)))"

lemma install_call_installs: "install_call r = Some c \<Longrightarrow> c \<notin> {GetAppVersion, CheckAppUpdate, FlushMetadata}"
  by (auto simp: install_call_def Let_def split: if_splits)

definition flush_calls :: "update_wait \<Rightarrow> update_call list" where
  "flush_calls w = (case w of WaitFlush r sv \<Rightarrow> (case install_call r of None \<Rightarrow> [] | Some c \<Rightarrow> [c]) | _ \<Rightarrow> [])"

lemma flush_calls_iff: "c \<in> set (flush_calls w) \<longleftrightarrow> (\<exists>r sv. w = WaitFlush r sv \<and> install_call r = Some c)"
proof (cases w)
  case (WaitFlush r sv)
  then show ?thesis by (cases "install_call r") (auto simp: flush_calls_def)
qed (auto simp: flush_calls_def)

lemma calls_settle: "up_calls (settle_update i x s) = up_calls s @
   (if i < length (up_waiting s) \<and> x = Finished
    then flush_calls (up_waiting s ! i) else [])"
  by (cases "up_waiting s ! i"; cases x)
     (auto simp: settle_update_def answers_wait_def resume_updater_def update_defs installed_toast_def install_call_def flush_calls_def
       split: option.split bool.split)

lemma calls_settle_new:
  assumes "c \<in> set (up_calls (settle_update i x s))" "c \<notin> set (up_calls s)"
  obtains r sv where "WaitFlush r sv \<in> set (up_waiting s)" "install_call r = Some c"
proof -
  from assms have i: "i < length (up_waiting s)" and "c \<in> set (flush_calls (up_waiting s ! i))"
    by (simp_all add: calls_settle split: if_splits)
  then obtain r sv where "up_waiting s ! i = WaitFlush r sv" "install_call r = Some c"
    unfolding flush_calls_iff by blast
  with that show thesis using nth_mem [OF i] by metis
qed

lemma calls_render: "up_calls (render_updater p s) =
   up_calls s @ (if ui_backend (up_inputs s) \<noteq> ui_backend p \<and> ui_backend p then [GetAppVersion] else [])"
  by (auto simp: render_updater_def auto_check_effect_def load_version_def update_call_made_def Let_def)

lemma calls_auto: "up_calls (auto_check_fires s) =
   up_calls s @ (case up_timer s of None \<Rightarrow> [] | Some p \<Rightarrow> if update_allowed p s then [CheckAppUpdate] else [])"
  by (auto simp: auto_check_fires_def calls_checkForUpdates update_allowed_def split: option.split)

lemma waiting_settle: "WaitFlush r sv \<in> set (up_waiting (settle_update i x s)) \<Longrightarrow> WaitFlush r sv \<in> set (up_waiting s)"
  by (cases "up_waiting s ! i"; cases x)
     (auto simp: settle_update_def answers_wait_def resume_updater_def update_defs installed_toast_def
       split: option.splits bool.splits if_splits dest: in_set_takeD in_set_dropD)

text \<open>An installation that waits for the flush was asked for by a click, at a moment when it was allowed.\<close>

definition clicked :: "update_inputs \<Rightarrow> update_event list \<Rightarrow> check_update_result \<Rightarrow> bool" where
  "clicked p es r \<longleftrightarrow> (\<exists>es1 es2. es = es1 @ InstallClicked # es2 \<and>
     (let s = run update_step es1 (mount_updater p)
      in up_info s = Some r \<and> cu_has_update r \<and> truthy_str (cu_download_url r) \<and>
         ui_network (up_inputs s) \<and> ui_mode (up_inputs s) \<noteq> Some Airgap \<and> \<not> up_operation s))"

lemma clicked_more: "clicked p es r \<Longrightarrow> clicked p (es @ [e]) r"
  unfolding clicked_def by (metis append.assoc append_Cons)

lemma flush_waits_step:
  assumes "WaitFlush r sv \<in> set (up_waiting (update_step e s))" and "WaitFlush r sv \<notin> set (up_waiting s)"
  shows "e = InstallClicked \<and> up_info s = Some r \<and> cu_has_update r \<and> truthy_str (cu_download_url r) \<and>
    update_allowed (up_inputs s) s"
proof (cases e)
  case (SettleUpdate i x)
  with assms waiting_settle [of r sv i x s] show ?thesis by simp
qed (use assms in \<open>auto simp: checkForUpdates_def installUpdate_def update_call_made_def render_updater_def load_version_def
  auto_check_effect_def auto_check_fires_def Let_def split: if_splits option.splits\<close>)

lemma flush_was_clicked:
  "WaitFlush r sv \<in> set (up_waiting (run update_step es (mount_updater p))) \<Longrightarrow> clicked p es r"
proof (induction es rule: rev_induct)
  case Nil
  then show ?case
    by (auto simp: mount_updater_def auto_check_effect_def load_version_def update_call_made_def Let_def split: if_splits)
next
  case (snoc e es)
  let ?s = "run update_step es (mount_updater p)"
  show ?case
  proof (cases "WaitFlush r sv \<in> set (up_waiting ?s)")
    case True
    then show ?thesis by (rule clicked_more [OF snoc.IH])
  next
    case False
    with flush_waits_step [of r sv e ?s] snoc.prems have "e = InstallClicked" and "up_info ?s = Some r" "cu_has_update r"
      "truthy_str (cu_download_url r)" "update_allowed (up_inputs ?s) ?s" by simp_all
    then show ?thesis unfolding clicked_def update_allowed_def
      by (intro exI [of _ es] exI [of _ "[]"]) (simp add: Let_def)
  qed
qed

text \<open>
  Claim C33. No update is looked for, and no installation asked for, in airgap mode, without network permission or
  while another operation is under way; and the check that nobody asked for happens only where the user has
  opted in. A download or install call is only made for an installation the user asked for by a click, for the
  update offered then, and at that moment the network was permitted, the mode was not airgap and nothing
  else was under way. (What changes between the click and the end of the flush is not looked at again:
  \<open>install_after_switch_to_airgap\<close>.)
\<close>

theorem updates_gated:
  assumes "s = run update_step es (mount_updater p)"
    and "c \<in> set (new_calls e s)" "c \<noteq> GetAppVersion"
  shows "(c \<in> {CheckAppUpdate, FlushMetadata} \<longrightarrow>
      ui_network (up_inputs s) \<and> ui_mode (up_inputs s) \<noteq> Some Airgap \<and> \<not> up_operation s \<and>
      (e \<in> {CheckClicked, InstallClicked} \<or> e = AutoTimer \<and> ui_autoCheck (up_inputs s) = Some True)) \<and>
    (c \<notin> {CheckAppUpdate, FlushMetadata} \<longrightarrow>
      (\<exists>r es1 es2. install_call r = Some c \<and> es = es1 @ InstallClicked # es2 \<and>
        (let t = run update_step es1 (mount_updater p)
         in up_info t = Some r \<and> cu_has_update r \<and> truthy_str (cu_download_url r) \<and>
            ui_network (up_inputs t) \<and> ui_mode (up_inputs t) \<noteq> Some Airgap \<and> \<not> up_operation t)))"
proof -
  have "updater_ok s" unfolding assms(1) by (intro updates.run_inv updater_ok_mount)
  then have timer: "\<And>q. up_timer s = Some q \<Longrightarrow> q = up_inputs s \<and> ui_autoCheck q = Some True"
    by (simp add: updater_ok_def timer_current_def)
  show ?thesis
  proof (cases e)
    case (SettleUpdate i x)
    with assms(2) obtain r sv where i: "i < length (up_waiting s)" and w: "up_waiting s ! i = WaitFlush r sv" "install_call r = Some c"
      by (auto simp: new_calls_def calls_settle flush_calls_iff split: if_splits)
    have "WaitFlush r sv \<in> set (up_waiting s)" using nth_mem [OF i] w by simp
    then have "clicked p es r" unfolding assms(1) by (rule flush_was_clicked)
    with install_call_installs [OF w(2)] w(2) show ?thesis unfolding clicked_def by blast
  next
    case (RenderUpdater q)
    with assms(2,3) show ?thesis by (auto simp: new_calls_def calls_render split: if_splits)
  next
    case AutoTimer
    then obtain q where q: "up_timer s = Some q" "update_allowed q s" "c = CheckAppUpdate"
      using assms(2) by (cases "up_timer s") (auto simp: new_calls_def calls_auto split: if_splits)
    from timer [OF q(1)] have "q = up_inputs s" "ui_autoCheck (up_inputs s) = Some True" by auto
    with AutoTimer q(2,3) show ?thesis by (simp add: update_allowed_def)
  qed (use assms(2,3) in \<open>auto simp: new_calls_def calls_checkForUpdates calls_installUpdate update_allowed_def
    split: if_splits option.splits\<close>)
qed

definition opted_in :: update_inputs where
  "opted_in = \<lparr>ui_backend = True, ui_network = True, ui_mode = Some Standard, ui_autoCheck = Some True, ui_language = ''en''\<rparr>"

theorem updates_gated_witness:
  "let s = run update_step [RenderUpdater opted_in] (mount_updater opted_in)
   in CheckAppUpdate \<in> set (new_calls AutoTimer s) \<and> ui_network (up_inputs s)"
  using updates_gated [OF refl, of CheckAppUpdate AutoTimer "[RenderUpdater opted_in]" opted_in]
  by (simp add: new_calls_def opted_in_def mount_updater_def load_version_def auto_check_effect_def
      update_call_made_def render_updater_def calls_auto update_allowed_def Let_def)

text \<open>What the back end has offered so far, and where the install calls come from.\<close>

definition offered :: "update_event list \<Rightarrow> check_update_result set" where
  "offered es = {r. \<exists>i. SettleUpdate i (Checked r) \<in> set es}"

definition from_offer :: "check_update_result set \<Rightarrow> update_call \<Rightarrow> bool" where
  "from_offer R c \<longleftrightarrow> c \<in> {GetAppVersion, CheckAppUpdate, FlushMetadata} \<or>
     (\<exists>r \<in> R. cu_has_update r \<and> truthy_str (cu_download_url r) \<and> install_call r = Some c)"

definition provenance :: "check_update_result set \<Rightarrow> updater_state \<Rightarrow> bool" where
  "provenance R s \<longleftrightarrow>
     set_option (up_info s) \<subseteq> R \<and>
     (\<forall>r sv. WaitFlush r sv \<in> set (up_waiting s) \<longrightarrow> r \<in> R \<and> cu_has_update r \<and> truthy_str (cu_download_url r)) \<and>
     (\<forall>c \<in> set (up_calls s). from_offer R c)"

lemma offered_snoc: "offered (es @ [e]) = offered es \<union> offered [e]"
  by (auto simp: offered_def)

lemma from_offer_mono: "from_offer R c \<Longrightarrow> R \<subseteq> R' \<Longrightarrow> from_offer R' c"
  by (auto simp: from_offer_def)


lemma provenance_mono: "provenance R s \<Longrightarrow> R \<subseteq> R' \<Longrightarrow> provenance R' s"
  by (auto simp: provenance_def intro: from_offer_mono)

lemma provenance_check: "provenance R s \<Longrightarrow> provenance R (checkForUpdates p silent s)"
  by (auto simp: provenance_def checkForUpdates_def update_call_made_def from_offer_def)

lemma provenance_install: "provenance R s \<Longrightarrow> provenance R (installUpdate p s)"
  by (auto simp: provenance_def installUpdate_def update_call_made_def from_offer_def split: option.split)

lemma provenance_render: "provenance R s \<Longrightarrow> provenance R (render_updater p s)"
  by (auto simp: provenance_def render_updater_def auto_check_effect_def load_version_def update_call_made_def
      from_offer_def Let_def)

lemma info_settle: "up_info (settle_update i x s) =
   (case x of Checked r \<Rightarrow> if i < length (up_waiting s) \<and> answers_wait (up_waiting s ! i) x then Some r else up_info s
            | _ \<Rightarrow> up_info s)"
  by (cases "up_waiting s ! i"; cases x)
     (auto simp: settle_update_def answers_wait_def resume_updater_def update_defs installed_toast_def
       split: option.split bool.split)

lemma provenance_settle:
  assumes "provenance R s"
  shows "provenance (R \<union> offered [SettleUpdate i x]) (settle_update i x s)"
proof -
  let ?R = "R \<union> offered [SettleUpdate i x]"
  have "set_option (up_info (settle_update i x s)) \<subseteq> ?R"
    using assms by (auto simp: info_settle provenance_def offered_def split: update_response.splits if_splits)
  moreover have "\<forall>r sv. WaitFlush r sv \<in> set (up_waiting (settle_update i x s)) \<longrightarrow>
      r \<in> ?R \<and> cu_has_update r \<and> truthy_str (cu_download_url r)"
    using assms unfolding provenance_def by (blast dest: waiting_settle)
  moreover have "from_offer ?R c" if "c \<in> set (up_calls (settle_update i x s))" for c
  proof (cases "c \<in> set (up_calls s)")
    case True
    with assms show ?thesis by (auto simp: provenance_def intro: from_offer_mono)
  next
    case False
    with that obtain r sv where "WaitFlush r sv \<in> set (up_waiting s)" "install_call r = Some c"
      using calls_settle_new by metis
    with assms show ?thesis by (fastforce simp: provenance_def from_offer_def)
  qed
  ultimately show ?thesis by (simp add: provenance_def)
qed

lemma provenance_step: "provenance R s \<Longrightarrow> provenance (R \<union> offered [e]) (update_step e s)"
proof (cases e)
  case (SettleUpdate i x)
  then show "provenance R s \<Longrightarrow> ?thesis" by (simp add: provenance_settle)
next
  case AutoTimer
  have "provenance R s \<Longrightarrow> provenance R (s\<lparr>up_timer := None, up_hasAutoChecked := True\<rparr>)"
    by (simp add: provenance_def)
  with AutoTimer show "provenance R s \<Longrightarrow> ?thesis"
    by (auto simp: auto_check_fires_def intro!: provenance_mono [OF provenance_check] split: option.split
        intro: provenance_mono)
next
  case (ModalSet b)
  then show "provenance R s \<Longrightarrow> ?thesis" by (auto simp: provenance_def intro: from_offer_mono)
qed (auto intro: provenance_mono [OF provenance_check] provenance_mono [OF provenance_install]
    provenance_mono [OF provenance_render])

lemma provenance_run: "provenance (offered es) (run update_step es (mount_updater p))"
proof (induction es rule: rev_induct)
  case Nil
  show ?case
    by (simp add: provenance_def offered_def mount_updater_def load_version_def auto_check_effect_def update_call_made_def
        from_offer_def Let_def)
next
  case (snoc e es)
  then show ?case using provenance_step [of "offered es" "run update_step es (mount_updater p)" e]
    by (simp add: offered_snoc)
qed

text \<open>
  Nothing is installed that the back end did not offer: whatever the events, a desktop
  package is only handed over with the address and the non-empty checksum that an answered check gave for
  an available update of a platform that is neither Android nor the portable build.
\<close>

theorem desktop_update_verified:
  assumes "InstallDesktopUpdate url sha \<in> set (up_calls (run update_step es (mount_updater p)))"
  shows "sha \<noteq> [] \<and> url \<noteq> [] \<and>
    (\<exists>i r. SettleUpdate i (Checked r) \<in> set es \<and> cu_has_update r \<and> cu_download_url r = Some url \<and>
       cu_sha256 r = Some sha \<and> cu_target_platform r \<notin> {''android'', ''windows-portable''})"
proof -
  from provenance_run assms have "from_offer (offered es) (InstallDesktopUpdate url sha)"
    unfolding provenance_def by blast
  then obtain r where r: "r \<in> offered es" "cu_has_update r" "truthy_str (cu_download_url r)"
    "install_call r = Some (InstallDesktopUpdate url sha)"
    by (auto simp: from_offer_def)
  then show ?thesis
    by (auto simp: install_call_def offered_def Let_def or_undefined_def truthy_str_def split: if_splits option.splits)
qed

definition some_update :: check_update_result where
  "some_update = \<lparr>cu_current_version = ''0.2.4'', cu_latest_version = ''0.2.5'', cu_has_update = True,
     cu_download_url = Some ''https://x/y'', cu_sha256 = Some ''ab'', cu_target_platform = ''linux''\<rparr>"

theorem desktop_update_verified_witness:
  "InstallDesktopUpdate ''https://x/y'' ''ab'' \<in> set (up_calls (run update_step
     [CheckClicked, SettleUpdate 1 (Checked some_update), InstallClicked, SettleUpdate 1 Finished] (mount_updater opted_in))) \<and>
   (''ab'' :: string) \<noteq> []"
  using desktop_update_verified [of "''https://x/y''" "''ab''"
      "[CheckClicked, SettleUpdate 1 (Checked some_update), InstallClicked, SettleUpdate 1 Finished]" opted_in]
  by (simp add: some_update_def opted_in_def mount_updater_def load_version_def auto_check_effect_def
      update_call_made_def checkForUpdates_def update_allowed_def settle_update_def answers_wait_def resume_updater_def
      update_defs installUpdate_def truthy_str_def or_undefined_def)

text \<open>
  A switch to airgap mode between the click and the end of the flush is not looked at: the package is downloaded
  and installed in airgap mode (lines 103 to 150).
\<close>

lemma install_after_switch_to_airgap:
  "let s = run update_step [CheckClicked, SettleUpdate 1 (Checked some_update), InstallClicked,
             RenderUpdater (opted_in\<lparr>ui_mode := Some Airgap\<rparr>)] (mount_updater opted_in)
   in ui_mode (up_inputs s) = Some Airgap \<and> InstallDesktopUpdate ''https://x/y'' ''ab'' \<in> set (new_calls (SettleUpdate 1 Finished) s)"
  by (simp add: some_update_def opted_in_def mount_updater_def load_version_def auto_check_effect_def update_call_made_def
      checkForUpdates_def update_allowed_def settle_update_def answers_wait_def resume_updater_def check_answered_def
      check_over_def installUpdate_def after_flush_def or_undefined_def truthy_str_def render_updater_def new_calls_def
      Let_def)

end
