(* ===== verification/Metadata_Journal.thy ===== *)
theory Metadata_Journal
  imports App_Metadata
begin

text \<open>
  What \<open>lib/appMetadata.ts\<close> promises about writes, as an abstract specification, and the proof that
  the store implements it: every key has a journal of the values the calls of \<open>setItem\<close> and
  \<open>removeItem\<close> gave it, in their order; the application reads its last entry, and the native store
  holds an entry of it, at a position that never moves back.
\<close>

section \<open>The specification\<close>

text \<open>The journal is a function of the events alone.\<close>

fun written :: "string \<Rightarrow> metadata_event \<Rightarrow> string option list" where
  "written k (SetItem k' v) = (if k' = k \<and> k \<in> set KEYS then [Some v] else [])"
| "written k (RemoveItem k') = (if k' = k \<and> k \<in> set KEYS then [Some (reset_value k)] else [])"
| "written k e = []"

definition journal :: "string \<Rightarrow> string option \<Rightarrow> metadata_event list \<Rightarrow> string option list" where
  "journal k v es = v # concat (map (written k) es)"

lemma journal_snoc: "journal k v (es @ [e]) = journal k v es @ written k e"
  by (simp add: journal_def)

section \<open>The store implements it\<close>

text \<open>
  The store against journals \<open>h\<close> and positions \<open>p\<close> of all keys: a running save holds entries at or
  after the position reached.
\<close>

definition journal_rel :: "metadata \<Rightarrow> (string \<Rightarrow> string option list) \<Rightarrow> (string \<Rightarrow> nat) \<Rightarrow> bool" where
  "journal_rel s h p \<longleftrightarrow>
     md_ok s \<and> md_native s \<and>
     (\<forall>k. om_get (md_values s) k = last (h k)) \<and>
     (\<forall>k. p k < length (h k)) \<and> (\<forall>k. om_get (md_stored s) k = h k ! p k) \<and>
     (\<forall>snap k v. md_saving s = Some snap \<longrightarrow> om_get snap k = Some v \<longrightarrow>
        (\<exists>q. p k \<le> q \<and> q < length (h k) \<and> h k ! q = Some v))"

lemma rel_start:
  "md_ok s \<Longrightarrow> md_native s \<Longrightarrow> md_stored s = md_values s \<Longrightarrow> md_saving s = None \<Longrightarrow>
   journal_rel s (\<lambda>k. journal k (om_get (md_values s) k) []) (\<lambda>_. 0)"
  by (simp add: journal_rel_def journal_def)

text \<open>A write of a value, by \<open>setItem\<close> or \<open>removeItem\<close>.\<close>

lemma rel_write:
  assumes rel: "journal_rel s h p" and ok: "md_ok t" "md_native t"
    and t: "om_get (md_values t) = (om_get (md_values s))(k \<mapsto> v)" "md_stored t = md_stored s" "md_saving t = md_saving s"
  shows "journal_rel t (\<lambda>k'. h k' @ (if k' = k then [Some v] else [])) p"
proof -
  have "\<exists>q. p k' \<le> q \<and> q < length (h k' @ w) \<and> (h k' @ w) ! q = Some u"
    if "md_saving s = Some snap" "om_get snap k' = Some u" for snap k' u and w :: "string option list"
  proof -
    from rel that obtain q where "p k' \<le> q" "q < length (h k')" "h k' ! q = Some u"
      unfolding journal_rel_def by blast
    then show ?thesis by (intro exI [of _ q]) (simp add: nth_append)
  qed
  then show ?thesis using rel ok
    by (auto simp: journal_rel_def t nth_append less_SucI)
qed

text \<open>Operations that leave the values, the store and the save alone.\<close>

lemma rel_same:
  "journal_rel s h p \<Longrightarrow> md_ok t \<Longrightarrow> md_native t \<Longrightarrow> md_values t = md_values s \<Longrightarrow> md_stored t = md_stored s \<Longrightarrow>
   md_saving t = md_saving s \<or> md_saving t = None \<Longrightarrow> journal_rel t h p"
  by (auto simp: journal_rel_def)

text \<open>A save takes what is pending, which is the newest value of its key.\<close>

lemma rel_save:
  assumes rel: "journal_rel s h p"
  shows "journal_rel (start_save s) h p"
proof -
  have ok: "md_ok s" using rel by (simp add: journal_rel_def)
  have "\<exists>q. p k \<le> q \<and> q < length (h k) \<and> h k ! q = Some v" if "om_get (md_pending s) k = Some v" for k v
  proof -
    have "om_get (md_values s) k = Some v" using ok that by (simp add: md_ok_def md_mem_def)
    with rel have h: "last (h k) = Some v" "p k < length (h k)" by (simp_all add: journal_rel_def)
    from h(2) have "h k \<noteq> []" by auto
    with h show ?thesis by (intro exI [of _ "length (h k) - 1"]) (auto simp: last_conv_nth)
  qed
  with rel md_ok_start [OF ok] show ?thesis by (auto simp: journal_rel_def start_save_def Let_def)
qed

text \<open>A save acknowledged moves its keys forward.\<close>

lemma rel_saved:
  assumes rel: "journal_rel s h p" and snap: "md_saving s = Some snap"
  shows "\<exists>p'. (\<forall>k. p k \<le> p' k) \<and> journal_rel (end_save True s) h p'"
proof -
  have ok: "md_ok s" and wf: "om_wf snap" using rel snap by (auto simp: journal_rel_def md_ok_def md_ahead_def)
  have "\<exists>q. p k \<le> q \<and> q < length (h k) \<and>
      h k ! q = (case om_get snap k of None \<Rightarrow> om_get (md_stored s) k | Some v \<Rightarrow> Some v)" for k
    using rel snap by (cases "om_get snap k") (auto simp: journal_rel_def)
  then obtain p' where p': "\<And>k. p k \<le> p' k" "\<And>k. p' k < length (h k)"
    "\<And>k. h k ! p' k = (case om_get snap k of None \<Rightarrow> om_get (md_stored s) k | Some v \<Rightarrow> Some v)"
    by metis
  have "journal_rel (end_save True s) h p'"
    using rel snap p'(2,3) md_ok_end [OF ok, of True]
    by (simp add: journal_rel_def end_save_def fold_set_get [OF wf])
  with p'(1) show ?thesis by blast
qed

lemma stays_native: "md_native s \<Longrightarrow> md_native (metadata_step e s)"
  by (cases e) (auto simp: setItem_def removeItem_def persist_def start_save_def end_save_def flush_call_def
      flush_resumes_def flush_moves_def Let_def split: option.split list.split flush.split)

lemma resumes_frame [simp]:
  "md_values (flush_resumes i s) = md_values s" "md_stored (flush_resumes i s) = md_stored s"
  "md_saving (flush_resumes i s) = md_saving s"
  by (auto simp: flush_resumes_def flush_moves_def persist_def Let_def split: list.split flush.split)

lemma rel_step:
  assumes rel: "journal_rel s h p"
  shows "\<exists>p'. (\<forall>k. p k \<le> p' k) \<and> journal_rel (metadata_step e s) (\<lambda>k. h k @ written k e) p'"
proof -
  have ok: "md_ok s" and nat: "md_native s" using rel by (simp_all add: journal_rel_def)
  have same: ?thesis if "\<And>k. written k e = []" "journal_rel (metadata_step e s) h p"
    using that by (intro exI [of _ p]) simp
  note kept = md_ok_step [OF ok, of e] stays_native [OF nat, of e]
  have wrote: ?thesis if "k \<in> set KEYS" "\<And>k'. written k' e = (if k' = k then [Some v] else [])"
    "om_get (md_values (metadata_step e s)) = (om_get (md_values s))(k \<mapsto> v)"
    "md_stored (metadata_step e s) = md_stored s" "md_saving (metadata_step e s) = md_saving s" for k v
    using rel_write [OF rel kept that(3-5)] that(2) by (intro exI [of _ p]) simp
  show ?thesis
  proof (cases e)
    case (SetItem k v)
    show ?thesis
    proof (cases "k \<in> set KEYS")
      case True
      show ?thesis by (rule wrote [OF True, of v]) (use True SetItem nat in \<open>auto simp: setItem_def persist_def\<close>)
    qed (rule same, use SetItem rel in \<open>auto simp: setItem_def\<close>)
  next
    case (RemoveItem k)
    show ?thesis
    proof (cases "k \<in> set KEYS")
      case True
      show ?thesis
        by (rule wrote [OF True, of "reset_value k"]) (use True RemoveItem nat in \<open>auto simp: removeItem_def persist_def\<close>)
    qed (rule same, use RemoveItem rel in \<open>auto simp: removeItem_def\<close>)
  next
    case (EndSave b)
    show ?thesis
    proof (cases "md_saving s = None \<or> \<not> b")
      case True
      with EndSave have "journal_rel (metadata_step e s) h p"
        by (intro rel_same [OF rel kept]) (auto simp: end_save_def split: option.split)
      with same EndSave show ?thesis by simp
    next
      case False
      with EndSave rel_saved [OF rel] show ?thesis by auto
    qed
  next
    case FlushCall
    then have "journal_rel (metadata_step e s) h p"
      by (intro rel_same [OF rel kept]) (simp_all add: flush_call_def)
    with same FlushCall show ?thesis by simp
  next
    case (FlushResumes i)
    then have "journal_rel (metadata_step e s) h p" by (intro rel_same [OF rel kept]) simp_all
    with same FlushResumes show ?thesis by simp
  qed (use same rel_save [OF rel] in simp)
qed

text \<open>The positions along a run, \<open>pos n k\<close> after \<open>n\<close> events.\<close>

lemma rel_run:
  assumes "journal_rel s (\<lambda>k. journal k (v k) []) p"
  shows "\<exists>pos. \<forall>n \<le> length es. journal_rel (run metadata_step (take n es) s) (\<lambda>k. journal k (v k) (take n es)) (pos n) \<and>
    (\<forall>m \<le> n. \<forall>k. pos m k \<le> pos n k)"
proof (induction es rule: rev_induct)
  case Nil
  show ?case by (rule exI [of _ "\<lambda>_. p"]) (simp add: assms)
next
  case (snoc e es)
  then obtain pos where pos: "\<And>n. n \<le> length es \<Longrightarrow>
      journal_rel (run metadata_step (take n es) s) (\<lambda>k. journal k (v k) (take n es)) (pos n) \<and>
      (\<forall>m \<le> n. \<forall>k. pos m k \<le> pos n k)" by blast
  let ?N = "length es"
  have "journal_rel (run metadata_step es s) (\<lambda>k. journal k (v k) es) (pos ?N)" using pos [of ?N] by simp
  from rel_step [OF this, of e] obtain p' where p': "\<And>k. pos ?N k \<le> p' k"
    "journal_rel (run metadata_step (es @ [e]) s) (\<lambda>k. journal k (v k) (es @ [e])) p'"
    by (auto simp: run_append journal_snoc)
  have "pos m k \<le> p' k" if "m \<le> ?N" for m k using pos [of ?N] that p'(1) [of k] by (meson le_refl le_trans)
  then show ?case using pos p'(2)
    by (intro exI [of _ "pos(Suc ?N := p')"]) (auto simp: le_Suc_eq take_Suc)
qed

text \<open>With nothing queued or running and no failure, everything in memory is stored.\<close>

lemma idle_stored:
  assumes "md_ok s" "md_queue s = 0" "md_saving s = None" "\<not> md_failure s" "om_get (md_values s) k = Some v"
  shows "om_get (md_stored s) k = Some v"
proof -
  have "md_pending s = []" using assms by (auto simp: md_ok_def md_ahead_def)
  with assms(1,5) show ?thesis by (auto simp: md_ok_def md_durable_def)
qed

text \<open>
  Claim C30. The store implements the journal of the writes made. After initialization and any
  sequence of writes, removals, saves that succeed or fail and flushes, at every moment and for every
  key the application reads the last value written, and the native store holds one of the values
  written so far (or the initial one), at a position that never moves back along the run; and when
  no save is queued or running and the last one did not fail, it holds every value the application
  reads.
\<close>

theorem metadata_refines_journal:
  assumes "initialize l ok r (new_metadata b w) = Inr s0"
  shows "\<exists>pos. \<forall>n \<le> length es. \<forall>k.
    (let s = run metadata_step (take n es) s0; h = journal k (om_get (md_values s0) k) (take n es)
     in om_get (md_values s) k = last h \<and>
        pos n k < length h \<and> om_get (md_stored s) k = h ! pos n k \<and>
        (\<forall>m \<le> n. pos m k \<le> pos n k) \<and>
        (md_queue s = 0 \<and> md_saving s = None \<and> \<not> md_failure s \<longrightarrow>
           (\<forall>v. last h = Some v \<longrightarrow> om_get (md_stored s) k = Some v)))"
proof -
  have s0: "md_ok s0" "md_native s0" using md_ok_initialize [OF assms] by auto
  have "md_stored s0 = md_values s0" "md_saving s0 = None"
    using assms by (auto simp: initialize_def new_metadata_def Let_def split: option.splits if_splits)
  from rel_run [OF rel_start [OF s0 this], of es] obtain pos where pos: "\<And>n. n \<le> length es \<Longrightarrow>
    journal_rel (run metadata_step (take n es) s0) (\<lambda>k. journal k (om_get (md_values s0) k) (take n es)) (pos n) \<and>
    (\<forall>m \<le> n. \<forall>k. pos m k \<le> pos n k)" by blast
  show ?thesis
    unfolding Let_def by (rule exI [of _ pos]) (use pos idle_stored in \<open>simp add: journal_rel_def\<close>)
qed

theorem metadata_refines_journal_witness:
  "\<exists>p < 3. om_get (md_stored (run metadata_step
      [SetItem ''yntra-vault-theme'' ''dark'', StartSave, SetItem ''yntra-vault-theme'' ''light'', EndSave True]
      (mirror KEYS ((new_metadata [] True)\<lparr>md_sent := [[]], md_values := [], md_stored := [], md_native := True\<rparr>))))
      ''yntra-vault-theme'' = [None, Some ''dark'', Some ''light''] ! p"
proof -
  let ?start = "mirror KEYS ((new_metadata [] True)\<lparr>md_sent := [[]], md_values := [], md_stored := [], md_native := True\<rparr>)"
  let ?es = "[SetItem ''yntra-vault-theme'' ''dark'', StartSave, SetItem ''yntra-vault-theme'' ''light'', EndSave True]"
  have init: "initialize (Some []) True (Some []) (new_metadata [] True) = Inr ?start"
    by (simp add: initialize_def new_metadata_def merged_values_def KEYS_def List.map_filter_def Let_def)
  have take_4: "take 4 ?es = ?es" by simp
  have h: "journal ''yntra-vault-theme'' (om_get (md_values ?start) ''yntra-vault-theme'') (take 4 ?es) =
      [None, Some ''dark'', Some ''light'']"
    by (simp add: journal_def KEYS_def)
  have three: "length [None, Some ''dark'', Some ''light''] = 3" by simp
  show ?thesis
    unfolding three [symmetric] h [symmetric]
    by (rule exE [OF metadata_refines_journal [OF init, of ?es]], drule spec [of _ 4], drule mp, simp,
        drule spec [of _ "''yntra-vault-theme''"], simp only: Let_def take_4, blast)
qed

end
