(* ===== verification/Generator.thy ===== *)
theory Generator
  imports Text_Utils
begin

text \<open>
  The password generator of the interface: the table of \<open>features/generator/presets.ts\<close>, the preset
  lookup and the option form of \<open>PasswordGenerator.tsx\<close>, and the requests of
  \<open>hooks/usePasswordGenerator.ts\<close>. \<open>new URL\<close> is the parameter \<open>parse\<close>; the back end's answers are
  events.
\<close>

section \<open>Presets\<close>

record domain_rule =
  dr_domains :: "string list"
  dr_length :: nat
  dr_uppercase :: bool
  dr_lowercase :: bool
  dr_digits :: bool
  dr_symbols :: bool
  dr_excludeAmbiguous :: bool
  dr_displayName :: string

definition preset :: "string list \<Rightarrow> nat \<Rightarrow> bool \<Rightarrow> bool \<Rightarrow> bool \<Rightarrow> bool \<Rightarrow> bool \<Rightarrow> string \<Rightarrow> domain_rule" where
  "preset ds n u l d s a name =
     \<lparr>dr_domains = ds, dr_length = n, dr_uppercase = u, dr_lowercase = l, dr_digits = d, dr_symbols = s,
      dr_excludeAmbiguous = a, dr_displayName = name\<rparr>"

definition DOMAIN_RULES :: "domain_rule list" where
  "DOMAIN_RULES =
     [
       preset [''google.com'', ''gmail.com'', ''youtube.com'']
         32 True True True True True ''Google Preset'',
       preset [''github.com'']
         32 True True True True True ''GitHub Preset (max 72)'',
       preset [''discord.com'']
         32 True True True True True ''Discord Preset'',
       preset [''apple.com'', ''icloud.com'']
         20 True True True False True ''Apple ID Preset (Alphanumeric)'',
       preset [''microsoft.com'', ''live.com'', ''outlook.com'', ''hotmail.com'']
         16 True True True True True ''Microsoft Preset (max 16)'',
       preset [''paypal.com'']
         20 True True True True True ''PayPal Preset (max 20)'',
       preset [''facebook.com'', ''instagram.com'', ''meta.com'']
         32 True True True True True ''Meta Preset'',
       preset [''x.com'', ''twitter.com'']
         32 True True True True True ''X / Twitter Preset'',
       preset [''spotify.com'']
         32 True True True True True ''Spotify Preset'',
       preset [''netflix.com'']
         32 True True True True True ''Netflix Preset'',
       preset [''linkedin.com'']
         32 True True True True True ''LinkedIn Preset'',
       preset [''reddit.com'']
         32 True True True True True ''Reddit Preset'',
       preset [''steamcommunity.com'', ''steampowered.com'']
         32 True True True True True ''Steam Preset'',
       preset [''amazon.com'', ''amazon.se'', ''amazon.co.uk'', ''amazon.de'']
         20 True True True True True ''Amazon Preset'',
       preset [''roblox.com'']
         30 True True True True True ''Roblox Preset (max 30)'',
       preset [''nintendo.com'', ''nintendo.se'', ''nintendo.co.uk'']
         20 True True True True True ''Nintendo Preset (max 20)'',
       preset [''playstation.com'', ''sony.com'']
         30 True True True True True ''PlayStation Preset (max 30)'',
       preset [''swedbank.se'', ''nordea.se'', ''seb.se'', ''handelsbanken.se'', ''avanza.se'']
         16 True True True False True ''Bank Preset (Alphanumeric max 16)'']"

definition bank_rule :: domain_rule where
  "bank_rule = preset [] 16 True True True False True ''Bank Preset (Alphanumeric max 16)''"

text \<open>
  \<open>replace(/^(https?:\/\/)?(www\.)?/, '')\<close>, and the host name of an address.
\<close>

definition strip_prefixes :: "string \<Rightarrow> string" where
  "strip_prefixes s =
     strip_www (if starts_with s ''https://'' then drop 8 s else if starts_with s ''http://'' then drop 7 s else s)"

definition getDomainName :: "(string \<Rightarrow> url option) \<Rightarrow> string \<Rightarrow> string" where
  "getDomainName parse u =
     (if u = [] then []
      else let cleaned = to_lower (trim u);
               cleaned = (if \<not> has_sub cleaned ''://'' then ''https://'' @ cleaned else cleaned)
           in case parse cleaned of
                Some p \<Rightarrow> strip_www (u_hostname p)
              | None \<Rightarrow> hd (split_on CHR ''/'' (strip_prefixes (to_lower (trim u)))))"

definition rule_matches :: "string \<Rightarrow> domain_rule \<Rightarrow> bool" where
  "rule_matches domain r \<longleftrightarrow> list_ex (\<lambda>d. domain = d \<or> ends_with domain (''.'' @ d)) (dr_domains r)"

definition getPreset :: "(string \<Rightarrow> url option) \<Rightarrow> string \<Rightarrow> (domain_rule \<times> string) option" where
  "getPreset parse u =
     (if u = [] then None
      else let domain = getDomainName parse u
           in if domain = [] then None
              else case find (rule_matches domain) DOMAIN_RULES of
                     Some r \<Rightarrow> Some (r, domain)
                   | None \<Rightarrow>
                       if has_sub domain ''bank'' \<or> has_sub domain ''finance'' \<or> has_sub domain ''swish''
                       then Some (bank_rule, domain) else None)"

section \<open>The option form\<close>

record generator_form =
  gf_diceware :: bool
  gf_length :: nat
  gf_uppercase :: bool
  gf_lowercase :: bool
  gf_digits :: bool
  gf_symbols :: bool
  gf_excludeAmbiguous :: bool
  gf_wordCount :: nat
  gf_separator :: string
  gf_capitalizeWords :: bool
  gf_addNumber :: bool
  gf_appliedUrl :: "string option"

definition new_form :: generator_form where
  "new_form = \<lparr>gf_diceware = False, gf_length = 20, gf_uppercase = True, gf_lowercase = True, gf_digits = True,
     gf_symbols = True, gf_excludeAmbiguous = True, gf_wordCount = 5, gf_separator = ''-'', gf_capitalizeWords = True,
     gf_addNumber = True, gf_appliedUrl = None\<rparr>"

text \<open>What a render with another address does to the options.\<close>

definition apply_url :: "(string \<Rightarrow> url option) \<Rightarrow> string \<Rightarrow> generator_form \<Rightarrow> generator_form" where
  "apply_url parse u f =
     (if gf_appliedUrl f = Some u then f
      else let f = f\<lparr>gf_appliedUrl := Some u\<rparr>
           in case getPreset parse u of
                Some (r, _) \<Rightarrow>
                  f\<lparr>gf_length := dr_length r, gf_uppercase := dr_uppercase r, gf_lowercase := dr_lowercase r,
                    gf_digits := dr_digits r, gf_symbols := dr_symbols r,
                    gf_excludeAmbiguous := dr_excludeAmbiguous r, gf_diceware := False\<rparr>
              | None \<Rightarrow>
                  f\<lparr>gf_length := 20, gf_uppercase := True, gf_lowercase := True, gf_digits := True, gf_symbols := True,
                    gf_excludeAmbiguous := True, gf_diceware := False\<rparr>)"

definition buildOptions :: "generator_form \<Rightarrow> generator_options" where
  "buildOptions f =
     \<lparr>go_diceware = gf_diceware f, go_length = gf_length f, go_uppercase = gf_uppercase f, go_lowercase = gf_lowercase f,
      go_digits = gf_digits f, go_symbols = gf_symbols f, go_exclude_ambiguous = gf_excludeAmbiguous f,
      go_custom_symbols = None, go_word_count = gf_wordCount f, go_separator = gf_separator f,
      go_capitalize_words = gf_capitalizeWords f, go_add_number = gf_addNumber f\<rparr>"

section \<open>The requests of the hook\<close>

datatype generator_call =
    GeneratePassword generator_options
  | GeneratePasswordDefault
  | AnalyzePasswordStrength string
  | CheckPasswordBreach string

datatype generator_wait =
    WaitPassword nat
  | WaitScore nat string
  | WaitBreach string
  | WaitStrength string

record generator_state =
  gn_password :: string
  gn_strength :: "strength_score option"
  gn_breach :: "breach_result option"
  gn_error :: "string option"
  gn_generation :: nat
  gn_waiting :: "generator_wait list"
  gn_calls :: "generator_call list"

definition init_generator :: generator_state where
  "init_generator = \<lparr>gn_password = [], gn_strength = None, gn_breach = None, gn_error = None, gn_generation = 0,
     gn_waiting = [], gn_calls = []\<rparr>"

definition generator_called :: "generator_call \<Rightarrow> generator_wait \<Rightarrow> generator_state \<Rightarrow> generator_state" where
  "generator_called c w s = s\<lparr>gn_calls := gn_calls s @ [c], gn_waiting := gn_waiting s @ [w]\<rparr>"

text \<open>The operations up to their first \<open>await\<close>; \<open>backend\<close> says whether there is one.\<close>

definition generate :: "bool \<Rightarrow> generator_options option \<Rightarrow> generator_state \<Rightarrow> generator_state" where
  "generate backend options s =
     (if \<not> backend then s
      else let request = Suc (gn_generation s);
               s = s\<lparr>gn_generation := request, gn_password := [], gn_strength := None, gn_breach := None,
                     gn_error := None\<rparr>
           in generator_called (case options of Some o' \<Rightarrow> GeneratePassword o' | None \<Rightarrow> GeneratePasswordDefault)
                (WaitPassword request) s)"

definition checkBreach :: "bool \<Rightarrow> string option \<Rightarrow> generator_state \<Rightarrow> generator_state" where
  "checkBreach backend pw s =
     (let target = (if truthy_str pw then the pw else gn_password s)
      in if \<not> backend \<or> target = [] then s
         else generator_called (CheckPasswordBreach target) (WaitBreach target) s)"

definition analyzeStrength :: "bool \<Rightarrow> string \<Rightarrow> generator_state \<Rightarrow> generator_state" where
  "analyzeStrength backend pw s =
     (if \<not> backend then s else generator_called (AnalyzePasswordStrength pw) (WaitStrength pw) s)"

definition unmount_generator :: "generator_state \<Rightarrow> generator_state" where
  "unmount_generator s = s\<lparr>gn_generation := Suc (gn_generation s)\<rparr>"

text \<open>What follows an answer. A rejection carries \<open>String(err)\<close>.\<close>

datatype generator_answer =
    NewPassword string
  | Score strength_score
  | BreachAnswer breach_result
  | GeneratorFails string

definition resume_generator :: "generator_wait \<Rightarrow> generator_answer \<Rightarrow> generator_state \<Rightarrow> generator_state" where
  "resume_generator w x s =
     (case w of
        WaitPassword request \<Rightarrow>
          (case x of
             NewPassword pw \<Rightarrow> generator_called (AnalyzePasswordStrength pw) (WaitScore request pw) s
           | GeneratorFails err \<Rightarrow> if request = gn_generation s then s\<lparr>gn_error := Some err\<rparr> else s
           | _ \<Rightarrow> s)
      | WaitScore request pw \<Rightarrow>
          (case x of
             Score score \<Rightarrow>
               if request \<noteq> gn_generation s then s else s\<lparr>gn_password := pw, gn_strength := Some score\<rparr>
           | GeneratorFails err \<Rightarrow> if request = gn_generation s then s\<lparr>gn_error := Some err\<rparr> else s
           | _ \<Rightarrow> s)
      | WaitBreach target \<Rightarrow> (case x of BreachAnswer b \<Rightarrow> s\<lparr>gn_breach := Some b\<rparr> | _ \<Rightarrow> s)
      | WaitStrength pw \<Rightarrow> (case x of Score score \<Rightarrow> s\<lparr>gn_strength := Some score\<rparr> | _ \<Rightarrow> s))"

definition answers_generator :: "generator_wait \<Rightarrow> generator_answer \<Rightarrow> bool" where
  "answers_generator w x \<longleftrightarrow>
     (case x of NewPassword _ \<Rightarrow> (case w of WaitPassword _ \<Rightarrow> True | _ \<Rightarrow> False)
              | Score _ \<Rightarrow> (case w of WaitScore _ _ \<Rightarrow> True | WaitStrength _ \<Rightarrow> True | _ \<Rightarrow> False)
              | BreachAnswer _ \<Rightarrow> (case w of WaitBreach _ \<Rightarrow> True | _ \<Rightarrow> False)
              | GeneratorFails _ \<Rightarrow> True)"

definition settle_generator :: "nat \<Rightarrow> generator_answer \<Rightarrow> generator_state \<Rightarrow> generator_state" where
  "settle_generator i x s =
     (if i < length (gn_waiting s) \<and> answers_generator (gn_waiting s ! i) x
      then resume_generator (gn_waiting s ! i) x
             (s\<lparr>gn_waiting := take i (gn_waiting s) @ drop (Suc i) (gn_waiting s)\<rparr>)
      else s)"

datatype generator_event =
    Generate "generator_options option"
  | CheckBreach "string option"
  | AnalyzeStrength string
  | SettleGenerator nat generator_answer
  | UnmountGenerator

fun generator_step :: "generator_event \<Rightarrow> generator_state \<Rightarrow> generator_state" where
  "generator_step (Generate options) s = generate True options s"
| "generator_step (CheckBreach pw) s = checkBreach True pw s"
| "generator_step (AnalyzeStrength pw) s = analyzeStrength True pw s"
| "generator_step (SettleGenerator i x) s = settle_generator i x s"
| "generator_step UnmountGenerator s = unmount_generator s"


section \<open>The table is unambiguous\<close>

text \<open>
  Every listed domain matches no row but its own. So does every subdomain: of two rows that match a
  domain, one has a listed domain that the other matches.
\<close>

definition own_row_only :: "domain_rule list \<Rightarrow> bool" where
  "own_row_only rs \<longleftrightarrow>
     list_all (\<lambda>(i, r). list_all (\<lambda>d. list_all (\<lambda>(j, r'). rule_matches d r' \<longrightarrow> i = j) (enumerate 0 rs)) (dr_domains r))
       (enumerate 0 rs)"

lemma DOMAIN_RULES_own_row: "own_row_only DOMAIN_RULES"
  by code_simp

lemma own_row:
  assumes "r \<in> set DOMAIN_RULES" "d \<in> set (dr_domains r)" "r' \<in> set DOMAIN_RULES" "rule_matches d r'"
  shows "r = r'"
proof -
  from assms(1,3) obtain i j where "i < length DOMAIN_RULES" "DOMAIN_RULES ! i = r" "j < length DOMAIN_RULES" "DOMAIN_RULES ! j = r'"
    by (metis in_set_conv_nth)
  then have "(i, r) \<in> set (enumerate 0 DOMAIN_RULES)" "(j, r') \<in> set (enumerate 0 DOMAIN_RULES)"
    by (auto simp: in_set_enumerate_eq)
  with DOMAIN_RULES_own_row assms(2,4) have "i = j" unfolding own_row_only_def list_all_iff by blast
  with \<open>DOMAIN_RULES ! i = r\<close> \<open>DOMAIN_RULES ! j = r'\<close> show ?thesis by simp
qed

lemma covers_shorter:
  assumes "domain = d \<or> ends_with domain (''.'' @ d)" "domain = d' \<or> ends_with domain (''.'' @ d')"
    and "length d' \<le> length d"
  shows "d = d' \<or> ends_with d (''.'' @ d')"
proof -
  have d: "suffix d domain" using assms(1) by (auto dest: suffix_ConsD)
  show ?thesis
  proof (cases "domain = d'")
    case True
    with d assms(3) show ?thesis by (auto simp: suffix_def)
  next
    case False
    with assms(2) have d': "suffix (''.'' @ d') domain" by simp
    show ?thesis
    proof (cases "length d' = length d")
      case True
      with d suffix_appendD [OF d'] have "suffix d d'" "suffix d' d" by (auto intro: suffix_length_suffix)
      then show ?thesis using suffix_order.antisym by blast
    next
      case False
      with assms(3) have "length (''.'' @ d') \<le> length d" by simp
      with d d' show ?thesis by (auto dest: suffix_length_suffix)
    qed
  qed
qed

lemma rules_exclusive:
  assumes "r \<in> set DOMAIN_RULES" "r' \<in> set DOMAIN_RULES" "rule_matches domain r" "rule_matches domain r'"
  shows "r = r'"
proof -
  from assms(3,4) obtain d d' where d: "d \<in> set (dr_domains r)" "domain = d \<or> ends_with domain (''.'' @ d)"
    and d': "d' \<in> set (dr_domains r')" "domain = d' \<or> ends_with domain (''.'' @ d')"
    by (auto simp: rule_matches_def list_ex_iff)
  show ?thesis
  proof (cases "length d' \<le> length d")
    case True
    with covers_shorter [OF d(2) d'(2)] d'(1) have "rule_matches d r'"
      by (auto simp: rule_matches_def list_ex_iff)
    with own_row [OF assms(1) d(1) assms(2)] show ?thesis by simp
  next
    case False
    with covers_shorter [OF d'(2) d(2)] d(1) have "rule_matches d' r"
      by (auto simp: rule_matches_def list_ex_iff)
    with own_row [OF assms(2) d'(1) assms(1)] show ?thesis by simp
  qed
qed

text \<open>
  The preset does not depend on the order of the table: an address whose domain is one of
  a row's domains, or below one, gets that very row.
\<close>

theorem getPreset_any_order:
  assumes "u \<noteq> []" "domain = getDomainName parse u" "domain \<noteq> []" "r \<in> set DOMAIN_RULES" "rule_matches domain r"
  shows "getPreset parse u = Some (r, domain)"
proof -
  obtain r' where r': "find (rule_matches domain) DOMAIN_RULES = Some r'"
    using assms(4,5) by (cases "find (rule_matches domain) DOMAIN_RULES") (auto simp: find_None_iff)
  then have "r' \<in> set DOMAIN_RULES" "rule_matches domain r'"
    by (auto simp: find_Some_iff)
  with rules_exclusive [OF assms(4)] assms(5) have "r' = r" by blast
  with assms r' show ?thesis by (simp add: getPreset_def Let_def)
qed

definition host_of :: "string \<Rightarrow> url option" where
  "host_of s = Some \<lparr>u_protocol = ''https:'', u_hostname = drop 8 s, u_username = [], u_password = [], u_href = s\<rparr>"

definition apple_rule :: domain_rule where
  "apple_rule = preset [''apple.com'', ''icloud.com''] 20 True True True False True ''Apple ID Preset (Alphanumeric)''"

theorem getPreset_any_order_witness:
  "getPreset host_of ''ID.Apple.com'' = Some (apple_rule, ''id.apple.com'')"
proof (rule getPreset_any_order)
  show "''id.apple.com'' = getDomainName host_of ''ID.Apple.com''" by code_simp
  show "apple_rule \<in> set DOMAIN_RULES" by (simp add: DOMAIN_RULES_def apple_rule_def)
  show "rule_matches ''id.apple.com'' apple_rule" by code_simp
qed simp_all

section \<open>What is displayed\<close>

text \<open>
  A hook instance that only generates, as the generator panel uses it, with a back end that rates a
  password by \<open>rate\<close>: which events it sees.
\<close>

definition rated_answer :: "(string \<Rightarrow> strength_score) \<Rightarrow> generator_state \<Rightarrow> generator_event \<Rightarrow> bool" where
  "rated_answer rate s e \<longleftrightarrow>
     (case e of
        SettleGenerator i (Score sc) \<Rightarrow>
          (if i < length (gn_waiting s)
           then case gn_waiting s ! i of WaitScore _ pw \<Rightarrow> sc = rate pw | WaitStrength pw \<Rightarrow> sc = rate pw | _ \<Rightarrow> True else True)
      | AnalyzeStrength _ \<Rightarrow> False
      | _ \<Rightarrow> True)"

fun rated_run :: "(string \<Rightarrow> strength_score) \<Rightarrow> generator_state \<Rightarrow> generator_event list \<Rightarrow> bool" where
  "rated_run rate s [] = True"
| "rated_run rate s (e # es) = (rated_answer rate s e \<and> rated_run rate (generator_step e s) es)"

definition request_of :: "generator_wait \<Rightarrow> nat option" where
  "request_of w = (case w of WaitPassword n \<Rightarrow> Some n | WaitScore n _ \<Rightarrow> Some n | _ \<Rightarrow> None)"

text \<open>
  Either nothing is displayed, or a password with its own rating and no error; the newest request is
  waited for in at most one place, and no longer once it is displayed or has failed.
\<close>

definition display_ok :: "(string \<Rightarrow> strength_score) \<Rightarrow> generator_state \<Rightarrow> bool" where
  "display_ok rate s \<longleftrightarrow>
     gn_strength s = None \<and> gn_password s = [] \<or>
     gn_strength s = Some (rate (gn_password s)) \<and> gn_error s = None"

definition requests_ok :: "generator_state \<Rightarrow> bool" where
  "requests_ok s \<longleftrightarrow>
     (\<forall>w \<in> set (gn_waiting s). \<forall>n \<in> set_option (request_of w). n \<le> gn_generation s) \<and>
     (\<forall>pw. WaitStrength pw \<notin> set (gn_waiting s)) \<and>
     length (filter (\<lambda>w. request_of w = Some (gn_generation s)) (gn_waiting s)) +
       (if gn_strength s \<noteq> None \<or> gn_error s \<noteq> None then 1 else 0) \<le> 1"

definition generator_ok :: "(string \<Rightarrow> strength_score) \<Rightarrow> generator_state \<Rightarrow> bool" where
  "generator_ok rate s \<longleftrightarrow> display_ok rate s \<and> requests_ok s"

lemma none_newer: "requests_ok s \<Longrightarrow> filter (\<lambda>w. request_of w = Some (Suc (gn_generation s))) (gn_waiting s) = []"
  by (auto simp: requests_ok_def filter_empty_conv)

lemma generator_ok_generate: "generator_ok rate s \<Longrightarrow> generator_ok rate (generate b options s)"
  using none_newer [of s]
  by (auto simp: generator_ok_def display_ok_def requests_ok_def generate_def generator_called_def request_of_def Let_def
      le_SucI)

lemma generator_ok_unmount: "generator_ok rate s \<Longrightarrow> generator_ok rate (unmount_generator s)"
  using none_newer [of s] by (auto simp: generator_ok_def display_ok_def requests_ok_def unmount_generator_def le_SucI)

lemma generator_ok_settle:
  assumes ok: "generator_ok rate s" and rated: "rated_answer rate s (SettleGenerator i x)"
  shows "generator_ok rate (settle_generator i x s)"
proof (cases "i < length (gn_waiting s) \<and> answers_generator (gn_waiting s ! i) x")
  case True
  let ?w = "gn_waiting s ! i" and ?rest = "take i (gn_waiting s) @ drop (Suc i) (gn_waiting s)"
  have w: "?w \<in> set (gn_waiting s)" using True by simp
  have sub: "set ?rest \<subseteq> set (gn_waiting s)" by (auto dest: in_set_takeD in_set_dropD)
  let ?cur = "\<lambda>w. request_of w = Some (gn_generation s)"
  have count: "length (filter ?cur (gn_waiting s)) = length (filter ?cur ?rest) + (if ?cur ?w then 1 else 0)"
    using filter_remove_nth [of i "gn_waiting s" ?cur] True by simp
  have older: "\<forall>w \<in> set ?rest. \<forall>n \<in> set_option (request_of w). n \<le> gn_generation s"
    and plain: "\<forall>pw. WaitStrength pw \<notin> set ?rest" "\<forall>pw. ?w \<noteq> WaitStrength pw"
    and w_old: "\<forall>n \<in> set_option (request_of ?w). n \<le> gn_generation s"
    using ok sub w unfolding generator_ok_def requests_ok_def by (blast, metis subsetD, metis, blast)
  from ok count have "length (filter ?cur ?rest) + (if ?cur ?w then 1 else 0) +
      (if gn_strength s \<noteq> None \<or> gn_error s \<noteq> None then 1 else 0) \<le> 1"
    by (simp add: generator_ok_def requests_ok_def)
  then show ?thesis
    using True ok older plain w_old rated
    by (cases ?w; cases x)
       (auto simp: settle_generator_def answers_generator_def resume_generator_def generator_ok_def display_ok_def
         requests_ok_def generator_called_def request_of_def rated_answer_def split: if_splits)
qed (use ok in \<open>auto simp: settle_generator_def\<close>)

lemma generator_ok_step:
  assumes "generator_ok rate s" "rated_answer rate s e"
  shows "generator_ok rate (generator_step e s)"
proof (cases e)
  case (CheckBreach pw)
  with assms show ?thesis
    by (auto simp: checkBreach_def generator_called_def generator_ok_def display_ok_def requests_ok_def request_of_def Let_def)
qed (use assms in \<open>auto simp: generator_ok_generate generator_ok_unmount generator_ok_settle rated_answer_def\<close>)

lemma generator_ok_run: "generator_ok rate s \<Longrightarrow> rated_run rate s es \<Longrightarrow> generator_ok rate (run generator_step es s)"
  by (induction es arbitrary: s) (simp_all add: generator_ok_step)

text \<open>
  The panel never shows a password with another one's rating: in any interleaving of
  requests, breach checks, answers and failures, old or new, a password that is displayed comes with the rating
  the back end gave that very password, and without an error.
\<close>

theorem generator_shows_own_rating:
  assumes "rated_run rate init_generator es" "s = run generator_step es init_generator" "gn_password s \<noteq> []"
  shows "gn_strength s = Some (rate (gn_password s)) \<and> gn_error s = None"
proof -
  have "generator_ok rate s" unfolding assms(2)
    by (intro generator_ok_run assms(1)) (simp add: generator_ok_def display_ok_def requests_ok_def init_generator_def)
  with assms(3) show ?thesis by (simp add: generator_ok_def display_ok_def)
qed

text \<open>The first of two requests is answered last.\<close>

theorem generator_shows_own_rating_witness:
  "let rate = (\<lambda>pw. \<lparr>ss_entropy_bits = length pw, ss_crack_time = [], ss_level = Fair, ss_warnings = []\<rparr>);
       s = run generator_step [Generate None, Generate None, SettleGenerator 1 (NewPassword ''new''),
             SettleGenerator 1 (Score (rate ''new'')), SettleGenerator 0 (NewPassword ''older''),
             SettleGenerator 0 (Score (rate ''older''))] init_generator
   in gn_password s = ''new'' \<and> gn_strength s = Some (rate ''new'')"
proof -
  let ?rate = "\<lambda>pw. \<lparr>ss_entropy_bits = length pw, ss_crack_time = [], ss_level = Fair, ss_warnings = []\<rparr>"
  let ?es = "[Generate None, Generate None, SettleGenerator 1 (NewPassword ''new''), SettleGenerator 1 (Score (?rate ''new'')),
    SettleGenerator 0 (NewPassword ''older''), SettleGenerator 0 (Score (?rate ''older''))]"
  note eval = generate_def generator_called_def settle_generator_def answers_generator_def resume_generator_def
    init_generator_def rated_answer_def
  have "rated_run ?rate init_generator ?es" by (simp add: eval)
  moreover have "gn_password (run generator_step ?es init_generator) = ''new''" by (simp add: eval)
  ultimately show ?thesis
    using generator_shows_own_rating [of ?rate ?es "run generator_step ?es init_generator"] unfolding Let_def by simp
qed

text \<open>
  The breach verdict has no such guard: the answer about a password that has been replaced is set beside the new
  one.
\<close>

lemma breach_of_replaced_password:
  "let s = run generator_step [CheckBreach (Some ''old''), Generate None,
             SettleGenerator 1 (NewPassword ''new''), SettleGenerator 1 (Score sc), SettleGenerator 0 (BreachAnswer b)]
             init_generator
   in gn_password s = ''new'' \<and> gn_breach s = Some b"
  by (simp add: checkBreach_def truthy_str_def generate_def generator_called_def settle_generator_def
      answers_generator_def resume_generator_def init_generator_def Let_def)

end
