(* ===== verification/Sync_Text.thy ===== *)
theory Sync_Text
  imports Vault_Prelude
begin

text \<open>
  The text functions of the sync dialogs: \<open>features/sync/utils/endpoint.ts\<close> (the address of a peer),
  \<open>utils/formatIpv4.ts\<close> (an address as it is typed), and the list of running operations of
  \<open>operations.ts\<close>. \<open>Number(text)\<close> is modelled as far as the source looks at it: the
  integer it denotes, if it denotes one, computed without rounding (exact below sixteen significant digits).
\<close>

section \<open>Numbers in text\<close>

definition radix_digit :: "nat \<Rightarrow> char \<Rightarrow> nat option" where
  "radix_digit base c =
     (let n = code_of (lower_char c);
          v = (if is_digit c then digit_val c else if 97 \<le> n \<and> n \<le> 122 then n - 87 else base)
      in if v < base then Some v else None)"

definition radix_nat :: "nat \<Rightarrow> string \<Rightarrow> int option" where
  "radix_nat base s =
     (if s \<noteq> [] \<and> list_all (\<lambda>c. radix_digit base c \<noteq> None) s
      then Some (int (foldl (\<lambda>n c. base * n + the (radix_digit base c)) 0 s)) else None)"

definition decimal_digits :: "string \<Rightarrow> bool" where
  "decimal_digits s \<longleftrightarrow> list_all is_digit s"

text \<open>A sign and what follows it.\<close>

definition split_sign :: "string \<Rightarrow> bool \<times> string" where
  "split_sign s =
     (if starts_with s ''-'' then (True, drop 1 s) else if starts_with s ''+'' then (False, drop 1 s) else (False, s))"

text \<open>The exponent after \<open>e\<close>, zero when there is none.\<close>

definition parse_exponent :: "string \<Rightarrow> int option" where
  "parse_exponent s =
     (if s = [] then Some 0
      else if to_lower (take 1 s) \<noteq> ''e'' then None
      else let (neg, ds) = split_sign (drop 1 s)
           in if ds \<noteq> [] \<and> decimal_digits ds then Some (if neg then - int (parse_nat ds) else int (parse_nat ds))
              else None)"

definition scaled :: "nat \<Rightarrow> int \<Rightarrow> int option" where
  "scaled m e =
     (if 0 \<le> e then Some (int m * 10 ^ nat e)
      else if m mod 10 ^ nat (- e) = 0 then Some (int (m div 10 ^ nat (- e))) else None)"

definition js_integer :: "string \<Rightarrow> int option" where
  "js_integer text =
     (let s = trim text
      in if s = [] then Some 0
         else if starts_with (to_lower s) ''0x'' then radix_nat 16 (drop 2 s)
         else if starts_with (to_lower s) ''0o'' then radix_nat 8 (drop 2 s)
         else if starts_with (to_lower s) ''0b'' then radix_nat 2 (drop 2 s)
         else let (neg, body) = split_sign s;
                  whole = takeWhile is_digit body;
                  rest = dropWhile is_digit body;
                  fraction = (if starts_with rest ''.'' then takeWhile is_digit (drop 1 rest) else []);
                  rest = (if starts_with rest ''.'' then dropWhile is_digit (drop 1 rest) else rest)
              in if whole = [] \<and> fraction = [] then None
                 else case parse_exponent rest of
                        None \<Rightarrow> None
                      | Some e \<Rightarrow>
                          map_option (\<lambda>n. if neg then - n else n)
                            (scaled (parse_nat (whole @ fraction)) (e - int (length fraction))))"

section \<open>The address of a peer\<close>

datatype endpoint_error = InvalidAddress | InvalidIpv6 | InvalidPort

definition bad_address_char :: "char \<Rightarrow> bool" where
  "bad_address_char c \<longleftrightarrow> is_ws c \<or> c \<in> {CHR ''/'', CHR ''?'', CHR ''#'', CHR ''@''}"

definition default_port :: string where "default_port = '':5322''"

text \<open>The tests \<open>/^\[[^\]]+\]$/\<close> and \<open>/^\[[^\]]+\]:\d+$/\<close>.\<close>

definition bracketed :: "string \<Rightarrow> bool" where
  "bracketed a \<longleftrightarrow> (case a of [] \<Rightarrow> False | c # cs \<Rightarrow>
     c = CHR ''['' \<and> takeWhile (\<lambda>c. c \<noteq> CHR '']'') cs \<noteq> [] \<and> dropWhile (\<lambda>c. c \<noteq> CHR '']'') cs = '']'')"

definition bracketed_port :: "string \<Rightarrow> bool" where
  "bracketed_port a \<longleftrightarrow> (case a of [] \<Rightarrow> False | c # cs \<Rightarrow>
     c = CHR ''['' \<and> takeWhile (\<lambda>c. c \<noteq> CHR '']'') cs \<noteq> [] \<and>
     (let rest = dropWhile (\<lambda>c. c \<noteq> CHR '']'') cs
      in starts_with rest '']:'' \<and> drop 2 rest \<noteq> [] \<and> decimal_digits (drop 2 rest)))"

text \<open>What follows the last colon.\<close>

definition port_text :: "string \<Rightarrow> string" where
  "port_text a = rev (takeWhile (\<lambda>c. c \<noteq> CHR '':'') (rev a))"

definition checked_port :: "string \<Rightarrow> endpoint_error + string" where
  "checked_port a =
     (case js_integer (port_text a) of
        None \<Rightarrow> Inl InvalidPort
      | Some port \<Rightarrow> if port < 1 \<or> port > 65535 then Inl InvalidPort else Inr a)"

definition syncEndpoint :: "string \<Rightarrow> endpoint_error + string" where
  "syncEndpoint value =
     (let address = trim value
      in if address = [] \<or> list_ex bad_address_char address then Inl InvalidAddress
         else if starts_with address ''['' then
           (if bracketed address then Inr (address @ default_port)
            else if \<not> bracketed_port address then Inl InvalidIpv6
            else checked_port address)
         else if length (filter (\<lambda>c. c = CHR '':'') address) > 1 then Inr (''['' @ address @ '']'' @ default_port)
         else if CHR '':'' \<notin> set address then Inr (address @ default_port)
         else checked_port address)"

section \<open>An address as it is typed\<close>

text \<open>\<open>replace(/\.{2,}/g, '.')\<close>.\<close>

fun squash_dots :: "string \<Rightarrow> string" where
  "squash_dots (c # d # cs) =
     (if c = CHR ''.'' \<and> d = CHR ''.'' then squash_dots (d # cs) else c # squash_dots (d # cs))"
| "squash_dots s = s"

text \<open>The loop over the octets, from the \<open>i\<close>-th of \<open>n\<close> on.\<close>

definition clamp_octet :: "string \<Rightarrow> string" where
  "clamp_octet raw = (let o' = take 3 raw in if length o' = 3 \<and> parse_nat o' > 255 then ''255'' else o')"

fun format_octets :: "nat \<Rightarrow> nat \<Rightarrow> string list \<Rightarrow> string list" where
  "format_octets n i [] = []"
| "format_octets n i (raw # raws) =
     (if i < 4
      then let o' = clamp_octet raw
           in o' # (if length o' = 3 \<and> i < 3 \<and> i = n - 1 then [[]] else []) @ format_octets n (Suc i) raws
      else [])"

definition host_char :: "char \<Rightarrow> bool" where
  "host_char c \<longleftrightarrow> is_letter c \<or> is_digit c \<or> c = CHR ''.'' \<or> c = CHR ''-''"

definition formatIpv4Input :: "string \<Rightarrow> string \<Rightarrow> string" where
  "formatIpv4Input value prevValue =
     (if length value < length prevValue then value
      else let trimmed = trim_start value;
               (hostPart, portPart) =
                 (case index_of CHR '':'' trimmed of
                    Some i \<Rightarrow> (take i trimmed, '':'' @ take 5 (filter is_digit (drop (Suc i) trimmed)))
                  | None \<Rightarrow> (trimmed, []))
           in if hostPart \<noteq> [] \<and> is_letter (hd hostPart) then filter host_char hostPart @ portPart
              else let raw = split_on CHR ''.'' (squash_dots (filter (\<lambda>c. is_digit c \<or> c = CHR ''.'') hostPart));
                       result = join_with ''.'' (format_octets (length raw) 0 raw);
                       parts = split_on CHR ''.'' result;
                       result = (if length parts > 4 then join_with ''.'' (take 4 parts) else result)
                   in result @ portPart)"

section \<open>The running operations\<close>

datatype sync_phase =
    Connecting | Listening | Comparing | Reviewing | AwaitingReview | Preparing | Saving | WaitingPeer
  | Complete | Incomplete | Cancelled | Failed

datatype sync_transport = P2pListener | P2pClient | WebdavSync | SyncTransport | PairingTransport

record sync_operation =
  so_id :: string
  so_transport :: sync_transport
  so_phase :: sync_phase
  so_error :: "string option"
  so_peer :: "string option"

definition superseded :: "sync_operation \<Rightarrow> sync_operation \<Rightarrow> bool" where
  "superseded new item \<longleftrightarrow>
     so_phase new = Complete \<and> so_peer new \<noteq> None \<and> so_peer new \<noteq> Some [] \<and> so_peer item = so_peer new \<and>
     so_phase item \<in> {Failed, Incomplete, Cancelled}"

definition updateSyncOperations :: "sync_operation list \<Rightarrow> sync_operation \<Rightarrow> sync_operation list" where
  "updateSyncOperations previous new =
     filter (\<lambda>item. if so_id item = so_id new then False else \<not> superseded new item) previous @ [new]"


section \<open>What an accepted address is\<close>

text \<open>Evaluates the functions on literals.\<close>

lemmas endpoint_eval = syncEndpoint_def checked_port_def js_integer_def radix_nat_def parse_exponent_def split_sign_def
  scaled_def decimal_digits_def bad_address_char_def port_text_def bracketed_def bracketed_port_def default_port_def
  parse_nat_def digit_val_def js_eval char_of_def bit_Suc_0_iff Let_def

definition good_port :: "string \<Rightarrow> bool" where
  "good_port a \<longleftrightarrow> (case js_integer (port_text a) of None \<Rightarrow> False | Some p \<Rightarrow> 1 \<le> p \<and> p \<le> 65535)"

lemma port_text_append: "CHR '':'' \<notin> set p \<Longrightarrow> port_text (a @ CHR '':'' # p) = p"
  by (simp add: port_text_def takeWhile_append)

lemma good_default: "good_port (a @ default_port)"
proof -
  have "port_text (a @ default_port) = ''5322''" by (simp add: default_port_def port_text_append)
  moreover have "js_integer ''5322'' = Some 5322" by code_simp
  ultimately show ?thesis by (simp add: good_port_def)
qed

lemma default_chars: "list_ex bad_address_char default_port = False"
  by (simp add: default_port_def bad_address_char_def js_eval)

lemma checked_port_iff: "checked_port a = Inr b \<longleftrightarrow> b = a \<and> good_port a"
  by (auto simp: checked_port_def good_port_def split: option.splits)

text \<open>
  An address the dialogs accept can be dialled: it is not empty, holds no white space, slash,
  question mark, hash or at sign, and ends in a port from 1 to 65535.
\<close>

theorem syncEndpoint_sound:
  assumes "syncEndpoint v = Inr a"
  shows "a \<noteq> [] \<and> \<not> list_ex bad_address_char a \<and> good_port a"
proof -
  have "bad_address_char (CHR ''['') = False" "bad_address_char (CHR '']'') = False"
    by (simp_all add: bad_address_char_def js_eval)
  with assms show ?thesis
    by (auto simp: syncEndpoint_def Let_def checked_port_iff good_default default_chars
        good_default [of "CHR ''['' # trim v @ '']''", simplified] split: if_splits)
qed

theorem syncEndpoint_sound_witness:
  "syncEndpoint '' 192.168.1.20:58123 '' = Inr ''192.168.1.20:58123'' \<and> good_port ''192.168.1.20:58123''"
proof -
  have "syncEndpoint '' 192.168.1.20:58123 '' = Inr ''192.168.1.20:58123''"
    by (simp add: endpoint_eval)
  with syncEndpoint_sound [of "'' 192.168.1.20:58123 ''"] show ?thesis by blast
qed

text \<open>The cases of the source's test.\<close>

lemma syncEndpoint_examples:
  "syncEndpoint ''desktop.local'' = Inr ''desktop.local:5322''"
  "syncEndpoint ''2001:db8::4'' = Inr ''[2001:db8::4]:5322''"
  "syncEndpoint ''[2001:db8::4]:5678'' = Inr ''[2001:db8::4]:5678''"
  "syncEndpoint ''host:65536'' = Inl InvalidPort"
  "syncEndpoint ''https://host'' = Inl InvalidAddress"
  by (simp_all add: endpoint_eval)

section \<open>What is typed stays an address\<close>

definition octet_ok :: "string \<Rightarrow> bool" where
  "octet_ok o' \<longleftrightarrow> list_all is_digit o' \<and> length o' \<le> 3 \<and> parse_nat o' \<le> 255"

lemma parse_nat_snoc: "parse_nat (s @ [c]) = 10 * parse_nat s + digit_val c"
  by (simp add: parse_nat_def)

lemma parse_nat_bound: "list_all is_digit s \<Longrightarrow> parse_nat s < 10 ^ length s"
proof (induction s rule: rev_induct)
  case (snoc c s)
  then have "is_digit c" by simp
  then have "digit_val c \<le> 9" unfolding digit_val_def is_digit_def by linarith
  with snoc show ?case by (simp add: parse_nat_snoc)
qed (simp add: parse_nat_def)

lemma clamp_octet_ok: "list_all is_digit raw \<Longrightarrow> octet_ok (clamp_octet raw)"
proof -
  assume d: "list_all is_digit raw"
  then have d3: "list_all is_digit (take 3 raw)" by (auto simp: list_all_iff dest: in_set_takeD)
  show ?thesis
  proof (cases "length (take 3 raw) = 3")
    case True
    with d3 show ?thesis
      by (auto simp: clamp_octet_def octet_ok_def Let_def parse_nat_def digit_val_def is_digit_def)
  next
    case False
    then have "length (take 3 raw) \<le> 2" by (simp add: min_def split: if_splits)
    then have "(10::nat) ^ length (take 3 raw) \<le> 10 ^ 2" by (intro power_increasing) simp_all
    with parse_nat_bound [OF d3] have "parse_nat (take 3 raw) < 100" by simp
    with False d3 show ?thesis by (simp add: clamp_octet_def octet_ok_def Let_def)
  qed
qed

lemma format_octets_ok:
  "list_all (list_all is_digit) raws \<Longrightarrow> list_all octet_ok (format_octets n i raws)"
  by (induction n i raws rule: format_octets.induct)
     (auto simp: clamp_octet_ok Let_def octet_ok_def [of "[]"] parse_nat_def)

lemma format_octets_length:
  "i + length raws = n \<Longrightarrow> length (format_octets n i raws) \<le> 4 - i"
proof (induction n i raws rule: format_octets.induct)
  case (2 n i raw raws)
  then show ?case by (cases raws) (auto simp: Let_def)
qed simp

lemma format_octets_Nil: "raws \<noteq> [] \<Longrightarrow> i < 4 \<Longrightarrow> format_octets n i raws \<noteq> []"
  by (cases raws) (auto simp: Let_def)

lemma squash_dots_set: "set (squash_dots s) \<subseteq> set s"
  by (induction s rule: squash_dots.induct) auto

lemma split_on_set: "w \<in> set (split_on c s) \<Longrightarrow> set w \<subseteq> set s"
  by (induction s arbitrary: w) (fastforce split: list.splits if_splits)+

text \<open>
  Whatever is typed or pasted into the address field, unless it shortens the field or
  begins with a letter, becomes at most four groups of at most three digits, none above 255, and at
  most a port of five digits.
\<close>

theorem formatIpv4Input_shape:
  assumes "\<not> length v < length prev" "trim_start v = [] \<or> \<not> is_letter (hd (trim_start v))"
  shows "\<exists>os port. formatIpv4Input v prev = join_with ''.'' os @ port \<and> length os \<le> 4 \<and> list_all octet_ok os \<and>
    (port = [] \<or> (\<exists>ds. port = CHR '':'' # ds \<and> list_all is_digit ds \<and> length ds \<le> 5))"
proof -
  let ?t = "trim_start v"
  define host where "host = (case index_of CHR '':'' ?t of Some i \<Rightarrow> take i ?t | None \<Rightarrow> ?t)"
  define port where "port = (case index_of CHR '':'' ?t of
      Some i \<Rightarrow> '':'' @ take 5 (filter is_digit (drop (Suc i) ?t)) | None \<Rightarrow> [])"
  define raw where "raw = split_on CHR ''.'' (squash_dots (filter (\<lambda>c. is_digit c \<or> c = CHR ''.'') host))"
  define os where "os = format_octets (length raw) 0 raw"
  have "host = [] \<or> \<not> is_letter (hd host)"
    using assms(2) by (auto simp: host_def split: option.split)
  moreover have split: "(case index_of CHR '':'' ?t of
        Some i \<Rightarrow> (take i ?t, '':'' @ take 5 (filter is_digit (drop (Suc i) ?t))) | None \<Rightarrow> (?t, [])) = (host, port)"
    by (simp add: host_def port_def split: option.split)
  have digits: "list_all (list_all is_digit) raw"
  proof -
    have "is_digit c" if "w \<in> set raw" "c \<in> set w" for w c
    proof -
      have "c \<in> set (filter (\<lambda>c. is_digit c \<or> c = CHR ''.'') host)" "c \<noteq> CHR ''.''"
        using that split_on_set [of w] squash_dots_set split_on_no_sep [of w] unfolding raw_def by (blast, metis)
      then show ?thesis by simp
    qed
    then show ?thesis by (simp add: list_all_iff)
  qed
  have ok: "list_all octet_ok os" "length os \<le> 4" "os \<noteq> []"
    using format_octets_ok [OF digits] format_octets_length [of 0 raw] format_octets_Nil [of raw 0]
    by (simp_all add: os_def raw_def)
  have "\<forall>w \<in> set os. CHR ''.'' \<notin> set w"
  proof -
    have "\<not> is_digit (CHR ''.'')" by (simp add: is_digit_def)
    with ok(1) show ?thesis by (auto simp: list_all_iff octet_ok_def)
  qed
  with ok(3) have "split_on CHR ''.'' (join_with ''.'' os) = os" by (intro split_on_join)
  with ok(2) have "formatIpv4Input v prev = join_with ''.'' os @ port"
    using assms(1) calculation by (auto simp: formatIpv4Input_def split raw_def [symmetric] os_def [symmetric] Let_def)
  moreover have "port = [] \<or> (\<exists>ds. port = CHR '':'' # ds \<and> list_all is_digit ds \<and> length ds \<le> 5)"
    by (auto simp: port_def list_all_iff split: option.split dest!: in_set_takeD)
  ultimately show ?thesis using ok by blast
qed


text \<open>The comment on the port says \<open>max 65535\<close>; only its length is limited.\<close>

lemma formatIpv4Input_port_unbounded: "formatIpv4Input ''10.0.0.1:99999'' [] = ''10.0.0.1:99999''"
  by (simp add: formatIpv4Input_def clamp_octet_def endpoint_eval)

section \<open>The list shows every operation once, in its latest state\<close>

definition operations_after :: "sync_operation list \<Rightarrow> sync_operation list" where
  "operations_after reports = foldl updateSyncOperations [] reports"

definition latest_report :: "sync_operation list \<Rightarrow> sync_operation \<Rightarrow> bool" where
  "latest_report reports x \<longleftrightarrow> (\<exists>xs ys. reports = xs @ x # ys \<and> (\<forall>y \<in> set ys. so_id y \<noteq> so_id x))"

lemma latest_report_snoc:
  "latest_report (rs @ [r]) x \<longleftrightarrow> x = r \<or> so_id r \<noteq> so_id x \<and> latest_report rs x"
proof
  assume "latest_report (rs @ [r]) x"
  then obtain xs ys where "rs @ [r] = xs @ x # ys" "\<forall>y \<in> set ys. so_id y \<noteq> so_id x"
    by (auto simp: latest_report_def)
  then show "x = r \<or> so_id r \<noteq> so_id x \<and> latest_report rs x"
    by (cases ys rule: rev_cases) (auto simp: latest_report_def)
next
  assume "x = r \<or> so_id r \<noteq> so_id x \<and> latest_report rs x"
  then show "latest_report (rs @ [r]) x"
  proof
    assume "so_id r \<noteq> so_id x \<and> latest_report rs x"
    then obtain xs ys where "rs = xs @ x # ys" "\<forall>y \<in> set ys. so_id y \<noteq> so_id x" "so_id r \<noteq> so_id x"
      by (auto simp: latest_report_def)
    then show ?thesis unfolding latest_report_def by (intro exI [of _ xs] exI [of _ "ys @ [r]"]) auto
  next
    assume "x = r"
    then show ?thesis unfolding latest_report_def by (intro exI [of _ rs] exI [of _ "[]"]) simp
  qed
qed

text \<open>
  The list of operations is never stale: whatever is reported, no operation is listed
  twice, everything listed is the latest report of its operation, and the latest report of every
  operation that has not failed, been cancelled or ended incomplete is listed.
\<close>

theorem operations_current:
  "distinct (map so_id (operations_after reports)) \<and>
   (\<forall>x. x \<in> set (operations_after reports) \<longrightarrow> latest_report reports x) \<and>
   (\<forall>x. latest_report reports x \<longrightarrow> so_phase x \<notin> {Failed, Incomplete, Cancelled} \<longrightarrow>
      x \<in> set (operations_after reports))"
proof (induction reports rule: rev_induct)
  case Nil
  then show ?case by (simp add: operations_after_def latest_report_def)
next
  case (snoc r rs)
  have step: "operations_after (rs @ [r]) = updateSyncOperations (operations_after rs) r"
    by (simp add: operations_after_def)
  have "distinct (map so_id (operations_after (rs @ [r])))"
    using snoc.IH by (auto simp: step updateSyncOperations_def distinct_map_filter)
  moreover have "\<forall>x. x \<in> set (operations_after (rs @ [r])) \<longrightarrow> latest_report (rs @ [r]) x"
    using snoc.IH by (auto simp: step updateSyncOperations_def latest_report_snoc split: if_splits)
  moreover have "\<forall>x. latest_report (rs @ [r]) x \<longrightarrow> so_phase x \<notin> {Failed, Incomplete, Cancelled} \<longrightarrow>
      x \<in> set (operations_after (rs @ [r]))"
    using snoc.IH by (auto simp: step updateSyncOperations_def latest_report_snoc superseded_def)
  ultimately show ?case by blast
qed

definition first_report :: sync_operation where
  "first_report = \<lparr>so_id = ''1'', so_transport = P2pClient, so_phase = Connecting, so_error = None, so_peer = None\<rparr>"

theorem operations_current_witness:
  "first_report \<in> set (operations_after [first_report\<lparr>so_phase := Comparing\<rparr>, first_report])"
proof -
  let ?rs = "[first_report\<lparr>so_phase := Comparing\<rparr>, first_report]"
  have "latest_report ?rs first_report" unfolding latest_report_def
    by (intro exI [of _ "[first_report\<lparr>so_phase := Comparing\<rparr>]"] exI [of _ "[]"]) simp
  moreover have "so_phase first_report \<notin> {Failed, Incomplete, Cancelled}" by (simp add: first_report_def)
  ultimately show ?thesis using operations_current [of ?rs] by blast
qed

end
