(* ===== verification/Ui_State.thy ===== *)
theory Ui_State
  imports Vault_Types
begin

text \<open>
  The state of the shell: the modal and search state of \<open>contexts/UiContext.provider.tsx\<close>, the toasts of
  \<open>contexts/ToastContext.provider.tsx\<close>, the panels of \<open>hooks/usePanelResize.ts\<close> and the
  mutation gate of \<open>hooks/useMutationGate.ts\<close>.
\<close>

section \<open>Modals and search\<close>

record ui_state =
  us_searchTerm :: string
  us_filterCategory :: string
  us_isEditing :: bool
  us_settingsOpen :: bool
  us_isEntryModalOpen :: bool
  us_editingEntry :: "password_entry option"
  us_isCreateTagOpen :: bool
  us_wasLocked :: bool

definition init_ui :: "bool \<Rightarrow> ui_state" where
  "init_ui locked = \<lparr>us_searchTerm = [], us_filterCategory = ''all'', us_isEditing = False, us_settingsOpen = False,
     us_isEntryModalOpen = False, us_editingEntry = None, us_isCreateTagOpen = False, us_wasLocked = locked\<rparr>"

definition openNewEntryModal :: "ui_state \<Rightarrow> ui_state" where
  "openNewEntryModal s = s\<lparr>us_isEditing := False, us_editingEntry := None, us_isEntryModalOpen := True\<rparr>"

definition openEditModal :: "password_entry \<Rightarrow> ui_state \<Rightarrow> ui_state" where
  "openEditModal e s = s\<lparr>us_isEditing := False, us_editingEntry := Some e, us_isEntryModalOpen := True\<rparr>"

definition closeEntryModal :: "ui_state \<Rightarrow> ui_state" where
  "closeEntryModal s = s\<lparr>us_isEntryModalOpen := False, us_editingEntry := None\<rparr>"

definition render_ui :: "bool \<Rightarrow> ui_state \<Rightarrow> ui_state" where
  "render_ui locked s =
     (if locked \<noteq> us_wasLocked s
      then let s = s\<lparr>us_wasLocked := locked\<rparr>
           in if locked
              then s\<lparr>us_searchTerm := [], us_isEditing := False, us_settingsOpen := False, us_isEntryModalOpen := False,
                     us_editingEntry := None, us_isCreateTagOpen := False\<rparr>
              else s
      else s)"

section \<open>Toasts\<close>

text \<open>
  A timer is a handle; \<open>ts_running\<close> are the platform's pending timers with the toast each will
  remove, \<open>ts_timers\<close> the provider's own map. The random identifier is an argument.
\<close>

record toast_state =
  ts_toasts :: "toast_message list"
  ts_timers :: "(string, nat) omap"
  ts_running :: "(nat, string) omap"
  ts_next :: nat
  ts_active :: bool

definition init_toasts :: toast_state where
  "init_toasts = \<lparr>ts_toasts = [], ts_timers = [], ts_running = [], ts_next = 0, ts_active = True\<rparr>"

definition addToast :: "string \<Rightarrow> string \<Rightarrow> toast_type \<Rightarrow> toast_state \<Rightarrow> toast_state" where
  "addToast i m k s =
     (if \<not> ts_active s then s
      else s\<lparr>ts_toasts := ts_toasts s @ [\<lparr>to_id = i, to_message = m, to_type = k\<rparr>],
             ts_running := om_set (ts_next s) i (ts_running s), ts_timers := om_set i (ts_next s) (ts_timers s),
             ts_next := Suc (ts_next s)\<rparr>)"

definition clear_timer :: "nat option \<Rightarrow> toast_state \<Rightarrow> toast_state" where
  "clear_timer h s = (case h of None \<Rightarrow> s | Some h \<Rightarrow> s\<lparr>ts_running := om_del h (ts_running s)\<rparr>)"

definition drop_toast :: "string \<Rightarrow> toast_state \<Rightarrow> toast_state" where
  "drop_toast i s =
     s\<lparr>ts_timers := om_del i (ts_timers s), ts_toasts := filter (\<lambda>t. to_id t \<noteq> i) (ts_toasts s)\<rparr>"

definition toast_timer_fires :: "nat \<Rightarrow> toast_state \<Rightarrow> toast_state" where
  "toast_timer_fires h s =
     (case om_get (ts_running s) h of
        None \<Rightarrow> s
      | Some i \<Rightarrow> drop_toast i (clear_timer (Some h) s))"

definition removeToast :: "string \<Rightarrow> toast_state \<Rightarrow> toast_state" where
  "removeToast i s = drop_toast i (clear_timer (om_get (ts_timers s) i) s)"

definition unmount_toasts :: "toast_state \<Rightarrow> toast_state" where
  "unmount_toasts s =
     (fold (\<lambda>(_, h). clear_timer (Some h)) (ts_timers s) (s\<lparr>ts_active := False\<rparr>))\<lparr>ts_timers := []\<rparr>"

definition metadata_save_failed :: "string \<Rightarrow> toast_state \<Rightarrow> toast_state" where
  "metadata_save_failed i =
     addToast i ''App settings could not be saved. Check available storage before closing the app.'' ToastError"

datatype toast_event =
    AddToast string string toast_type
  | RemoveToast string
  | ToastTimer nat
  | SaveFailedEvent string
  | UnmountToasts

fun toast_step :: "toast_event \<Rightarrow> toast_state \<Rightarrow> toast_state" where
  "toast_step (AddToast i m k) s = addToast i m k s"
| "toast_step (RemoveToast i) s = removeToast i s"
| "toast_step (ToastTimer h) s = toast_timer_fires h s"
| "toast_step (SaveFailedEvent i) s = metadata_save_failed i s"
| "toast_step UnmountToasts s = unmount_toasts s"

section \<open>Panels\<close>

text \<open>Widths in pixels; \<open>None\<close> is a number that is not finite.\<close>

definition panelWidths :: "int option \<Rightarrow> int option \<Rightarrow> int option \<Rightarrow> int \<times> int" where
  "panelWidths sidebar lst viewport =
     (let width = max 768 (or_else viewport 1024);
          sidebarMax = min 350 (width - 260 - 220);
          safeSidebar = min sidebarMax (max 180 (or_else sidebar 220))
      in (safeSidebar, min 450 (min (width - safeSidebar - 260) (max 220 (or_else lst 320)))))"

datatype panel = SidebarPanel | ListPanel

record drag =
  dg_target :: panel
  dg_x :: int
  dg_width :: "int option"
  dg_userSelect :: string

record panel_state =
  pn_widths :: "int option \<times> int option"
  pn_drag :: "drag option"
  pn_userSelect :: string
  pn_style :: "(int \<times> int) option"
  pn_saved :: "(int option \<times> int option) list"

definition init_panels :: "int option \<Rightarrow> int option \<Rightarrow> string \<Rightarrow> panel_state" where
  "init_panels sidebar lst select =
     \<lparr>pn_widths = (sidebar, lst), pn_drag = None, pn_userSelect = select, pn_style = None, pn_saved = []\<rparr>"

definition apply_panels :: "int option \<Rightarrow> panel_state \<Rightarrow> panel_state" where
  "apply_panels viewport s =
     (let (a, b) = panelWidths (fst (pn_widths s)) (snd (pn_widths s)) viewport
      in s\<lparr>pn_widths := (Some a, Some b), pn_style := Some (a, b)\<rparr>)"

definition props_panels :: "int option \<Rightarrow> int option \<Rightarrow> int option \<Rightarrow> panel_state \<Rightarrow> panel_state" where
  "props_panels viewport sidebar lst s =
     (if pn_drag s = None then apply_panels viewport (s\<lparr>pn_widths := (sidebar, lst)\<rparr>) else s)"

definition move_panel :: "int option \<Rightarrow> int \<Rightarrow> panel_state \<Rightarrow> panel_state" where
  "move_panel viewport x s =
     (case pn_drag s of
        None \<Rightarrow> s
      | Some d \<Rightarrow>
          let v = map_option (\<lambda>w. w + x - dg_x d) (dg_width d)
          in apply_panels viewport
               (s\<lparr>pn_widths := (case dg_target d of SidebarPanel \<Rightarrow> (v, snd (pn_widths s)) | ListPanel \<Rightarrow> (fst (pn_widths s), v))\<rparr>))"

definition finish_drag :: "panel_state \<Rightarrow> panel_state" where
  "finish_drag s =
     (case pn_drag s of
        None \<Rightarrow> s
      | Some d \<Rightarrow> s\<lparr>pn_userSelect := dg_userSelect d, pn_drag := None, pn_saved := pn_saved s @ [pn_widths s]\<rparr>)"

definition start_drag :: "panel \<Rightarrow> int \<Rightarrow> int \<Rightarrow> panel_state \<Rightarrow> panel_state" where
  "start_drag target button x s =
     (if button \<noteq> 0 then s
      else s\<lparr>pn_drag := Some \<lparr>dg_target = target, dg_x = x,
               dg_width = (case target of SidebarPanel \<Rightarrow> fst (pn_widths s) | ListPanel \<Rightarrow> snd (pn_widths s)),
               dg_userSelect = pn_userSelect s\<rparr>,
             pn_userSelect := ''none''\<rparr>)"

definition unmount_panels :: "panel_state \<Rightarrow> panel_state" where
  "unmount_panels s =
     (case pn_drag s of None \<Rightarrow> s | Some d \<Rightarrow> s\<lparr>pn_userSelect := dg_userSelect d, pn_drag := None\<rparr>)"

datatype panel_event =
    PropsChange "int option" "int option" "int option"
  | MouseMoves "int option" int
  | MouseUp
  | WindowBlur
  | WindowResize "int option"
  | DragStart panel int int
  | UnmountPanels

fun panel_step :: "panel_event \<Rightarrow> panel_state \<Rightarrow> panel_state" where
  "panel_step (PropsChange viewport a b) s = props_panels viewport a b s"
| "panel_step (MouseMoves viewport x) s = move_panel viewport x s"
| "panel_step MouseUp s = finish_drag s"
| "panel_step WindowBlur s = finish_drag s"
| "panel_step (WindowResize viewport) s = apply_panels viewport (finish_drag s)"
| "panel_step (DragStart target button x) s = start_drag target button x s"
| "panel_step UnmountPanels s = unmount_panels s"

definition mount_panels :: "int option \<Rightarrow> int option \<Rightarrow> int option \<Rightarrow> string \<Rightarrow> panel_state" where
  "mount_panels viewport sidebar lst select = props_panels viewport sidebar lst (init_panels sidebar lst select)"

section \<open>Every toast goes away\<close>

definition toast_inv :: "toast_message list \<Rightarrow> (string, nat) omap \<Rightarrow> (nat, string) omap \<Rightarrow> nat \<Rightarrow> bool" where
  "toast_inv toasts timers running n \<longleftrightarrow>
     (\<forall>t \<in> set toasts. \<exists>h. om_get running h = Some (to_id t)) \<and>
     (\<forall>i h j. om_get timers i = Some h \<longrightarrow> om_get running h = Some j \<longrightarrow> j = i) \<and>
     (\<forall>h j. om_get running h = Some j \<longrightarrow> h < n) \<and>
     (\<forall>i h. om_get timers i = Some h \<longrightarrow> h < n)"

definition toast_ok :: "toast_state \<Rightarrow> bool" where
  toast_ok_inv: "toast_ok s \<longleftrightarrow> toast_inv (ts_toasts s) (ts_timers s) (ts_running s) (ts_next s)"

lemmas toast_ok_def = toast_ok_inv toast_inv_def

lemma toast_ok_add:
  assumes "toast_ok s"
  shows "toast_ok (addToast i m k s)"
proof (cases "ts_active s")
  case True
  let ?n = "ts_next s" and ?run = "(om_get (ts_running s))(ts_next s \<mapsto> i)"
  have fresh: "om_get (ts_running s) ?n = None"
    using assms by (cases "om_get (ts_running s) ?n") (auto simp: toast_ok_def)
  have bounds: "\<And>h j. om_get (ts_running s) h = Some j \<Longrightarrow> h < ?n" "\<And>i h. om_get (ts_timers s) i = Some h \<Longrightarrow> h < ?n"
    using assms by (auto simp: toast_ok_def)
  let ?new = "\<lparr>to_id = i, to_message = m, to_type = k\<rparr>"
  have "\<forall>t \<in> set (ts_toasts s @ [?new]). \<exists>h. ?run h = Some (to_id t)"
  proof
    fix t
    assume "t \<in> set (ts_toasts s @ [?new])"
    then consider "t \<in> set (ts_toasts s)" | "t = ?new" by auto
    then show "\<exists>h. ?run h = Some (to_id t)"
    proof cases
      case 1
      with assms obtain h where "om_get (ts_running s) h = Some (to_id t)" by (auto simp: toast_ok_def)
      with fresh have "?run h = Some (to_id t)" by auto
      then show ?thesis ..
    next
      case 2
      then have "?run ?n = Some (to_id t)" by simp
      then show ?thesis ..
    qed
  qed
  moreover have "j = k" if "((om_get (ts_timers s))(i \<mapsto> ?n)) k = Some h" "?run h = Some j" for k h j
    using that assms bounds(2) [of k h] by (auto simp: toast_ok_def split: if_splits)
  moreover have "h < Suc ?n" if "?run h = Some j" for h j
    using that bounds(1) [of h j] by (auto split: if_splits)
  moreover have "h < Suc ?n" if "((om_get (ts_timers s))(i \<mapsto> ?n)) k = Some h" for k h
    using that bounds(2) [of k h] by (auto split: if_splits)
  ultimately have "toast_inv (ts_toasts s @ [?new]) (om_set i ?n (ts_timers s)) (om_set ?n i (ts_running s)) (Suc ?n)"
    unfolding toast_inv_def om_get_set by blast
  with True show ?thesis by (simp add: toast_ok_inv addToast_def del: om_get_set)
qed (simp add: addToast_def assms)

lemma toast_ok_drop:
  assumes "toast_ok s" and "\<forall>j. om_get (ts_running s) h = Some j \<longrightarrow> j = i"
  shows "toast_ok (drop_toast i (clear_timer (Some h) s))"
  using assms unfolding toast_ok_def by (auto simp: drop_toast_def clear_timer_def) metis

lemma toast_ok_fires: "toast_ok s \<Longrightarrow> toast_ok (toast_timer_fires h s)"
  by (simp add: toast_timer_fires_def toast_ok_drop split: option.split)

lemma toast_ok_remove: "toast_ok s \<Longrightarrow> toast_ok (removeToast i s)"
proof (cases "om_get (ts_timers s) i")
  case None
  assume "toast_ok s"
  with None show ?thesis unfolding toast_ok_def
    by (auto simp: removeToast_def drop_toast_def clear_timer_def split: if_splits)
next
  case (Some h)
  assume ok: "toast_ok s"
  with Some have "\<forall>j. om_get (ts_running s) h = Some j \<longrightarrow> j = i" unfolding toast_ok_def by blast
  with ok Some show ?thesis by (simp add: removeToast_def toast_ok_drop)
qed

lemma toast_ok_step: "toast_ok s \<Longrightarrow> e \<noteq> UnmountToasts \<Longrightarrow> toast_ok (toast_step e s)"
  by (cases e) (simp_all add: toast_ok_add toast_ok_fires toast_ok_remove metadata_save_failed_def)

lemma toast_ok_run: "toast_ok s \<Longrightarrow> UnmountToasts \<notin> set es \<Longrightarrow> toast_ok (run toast_step es s)"
proof (induction es arbitrary: s)
  case (Cons e es)
  then have "e \<noteq> UnmountToasts" by auto
  with Cons toast_ok_step [of s e] show ?case by simp
qed simp

lemma fire_all:
  "toast_ok s \<Longrightarrow> dom (om_get (ts_running s)) \<subseteq> set hs \<Longrightarrow> ts_toasts (run toast_step (map ToastTimer hs) s) = []"
proof (induction hs arbitrary: s)
  case Nil
  then show ?case by (cases "ts_toasts s") (auto simp: toast_ok_def)
next
  case (Cons h hs)
  have "om_get (ts_running (toast_step (ToastTimer h) s)) = (om_get (ts_running s))(h := None)"
    by (auto simp: toast_timer_fires_def drop_toast_def clear_timer_def fun_eq_iff split: option.split)
  then have "dom (om_get (ts_running (toast_step (ToastTimer h) s))) \<subseteq> set hs" using Cons.prems(2) by auto
  with Cons.IH [of "toast_step (ToastTimer h) s"] Cons.prems(1) show ?case by (simp add: toast_ok_fires)
qed

text \<open>
  Every toast goes away by itself: while the provider is mounted, whatever toasts are added, removed or
  expire, and even if two get the same identifier, once the pending timers have fired no toast
  is left.
\<close>

theorem toasts_expire:
  assumes "UnmountToasts \<notin> set es" "s = run toast_step es init_toasts"
  shows "ts_toasts (run toast_step (map ToastTimer (om_keys (ts_running s))) s) = []"
proof -
  have "toast_ok s" unfolding assms(2) by (intro toast_ok_run assms(1)) (simp add: toast_ok_def init_toasts_def)
  then show ?thesis by (rule fire_all) (simp add: dom_map_of_conv_image_fst)
qed

theorem toasts_expire_witness:
  "let s = run toast_step [AddToast ''a'' ''one'' ToastInfo, AddToast ''a'' ''two'' ToastError, RemoveToast ''b''] init_toasts
   in length (ts_toasts s) = 2 \<and> ts_toasts (run toast_step (map ToastTimer (om_keys (ts_running s))) s) = []"
proof -
  let ?es = "[AddToast ''a'' ''one'' ToastInfo, AddToast ''a'' ''two'' ToastError, RemoveToast ''b'']"
  have "length (ts_toasts (run toast_step ?es init_toasts)) = 2"
    by (simp add: addToast_def init_toasts_def removeToast_def drop_toast_def clear_timer_def)
  moreover have "ts_toasts (run toast_step (map ToastTimer (om_keys (ts_running (run toast_step ?es init_toasts))))
      (run toast_step ?es init_toasts)) = []"
    by (rule toasts_expire [OF _ refl]) simp
  ultimately show ?thesis unfolding Let_def by blast
qed

section \<open>The panels keep their bounds\<close>

definition widths_ok :: "int option \<times> int option \<Rightarrow> bool" where
  "widths_ok w \<longleftrightarrow> (case w of (Some a, Some b) \<Rightarrow> 180 \<le> a \<and> a \<le> 350 \<and> 220 \<le> b \<and> b \<le> 450 | _ \<Rightarrow> False)"

lemma widths_fit:
  fixes w x y :: int
  assumes "768 \<le> w" "a = min (min 350 (w - 260 - 220)) (max 180 x)" "b = min 450 (min (w - a - 260) (max 220 y))"
  shows "180 \<le> a \<and> a \<le> 350 \<and> 220 \<le> b \<and> b \<le> 450 \<and> a + b + 260 \<le> w"
    and "a = min (min 350 (w - 260 - 220)) (max 180 a) \<and> b = min 450 (min (w - a - 260) (max 220 b))"
proof -
  have a: "180 \<le> a" "a \<le> 350" "a \<le> w - 480" using assms(1,2) by auto
  then have b: "220 \<le> b" "b \<le> 450" "b \<le> w - a - 260" using assms(3) by auto
  show "180 \<le> a \<and> a \<le> 350 \<and> 220 \<le> b \<and> b \<le> 450 \<and> a + b + 260 \<le> w" using a b by simp
  show "a = min (min 350 (w - 260 - 220)) (max 180 a) \<and> b = min 450 (min (w - a - 260) (max 220 b))"
    using a b by auto
qed

lemma panelWidths_eqs:
  assumes "panelWidths sidebar lst viewport = (a, b)"
  shows "a = min (min 350 (max 768 (or_else viewport 1024) - 260 - 220)) (max 180 (or_else sidebar 220))"
    and "b = min 450 (min (max 768 (or_else viewport 1024) - a - 260) (max 220 (or_else lst 320)))"
  using assms unfolding panelWidths_def Let_def by auto

lemma panelWidths_bounds:
  assumes "panelWidths sidebar lst viewport = (a, b)"
  shows "180 \<le> a \<and> a \<le> 350 \<and> 220 \<le> b \<and> b \<le> 450 \<and> a + b + 260 \<le> max 768 (or_else viewport 1024)"
  by (rule widths_fit(1) [OF max.cobounded1 panelWidths_eqs [OF assms]])

lemma panelWidths_stable:
  assumes "panelWidths sidebar lst viewport = (a, b)"
  shows "panelWidths (Some a) (Some b) viewport = (a, b)"
proof -
  let ?w = "max 768 (or_else viewport 1024)"
  from widths_fit(2) [OF max.cobounded1 panelWidths_eqs [OF assms]]
  have "min (min 350 (?w - 260 - 220)) (max 180 a) = a" "min 450 (min (?w - a - 260) (max 220 b)) = b" by metis+
  then show ?thesis by (simp only: panelWidths_def Let_def or_else_def option.case)
qed

definition panels_ok :: "panel_state \<Rightarrow> bool" where
  "panels_ok s \<longleftrightarrow> widths_ok (pn_widths s) \<and>
     (case pn_style s of None \<Rightarrow> False | Some (a, b) \<Rightarrow> widths_ok (Some a, Some b)) \<and> list_all widths_ok (pn_saved s)"

lemma panels_ok_apply: "list_all widths_ok (pn_saved s) \<Longrightarrow> panels_ok (apply_panels viewport s)"
  by (auto simp: panels_ok_def apply_panels_def widths_ok_def Let_def split: prod.splits dest: panelWidths_bounds)

lemma panels_ok_step [inv_steps]: "panels_ok s \<Longrightarrow> panels_ok (panel_step e s)"
proof (cases e)
  case (WindowResize viewport)
  assume "panels_ok s"
  then have "list_all widths_ok (pn_saved (finish_drag s))"
    by (simp add: panels_ok_def finish_drag_def split: option.split)
  then show ?thesis by (simp add: WindowResize panels_ok_apply)
next
  case (PropsChange viewport a b)
  assume "panels_ok s"
  then show ?thesis
    using panels_ok_apply [of "s\<lparr>pn_widths := (a, b)\<rparr>" viewport]
    by (cases "pn_drag s") (simp_all add: PropsChange props_panels_def panels_ok_def)
next
  case (MouseMoves viewport x)
  assume ok: "panels_ok s"
  then have "panels_ok (apply_panels viewport (s\<lparr>pn_widths := w\<rparr>))" for w
    by (intro panels_ok_apply) (simp add: panels_ok_def)
  with ok show ?thesis by (simp add: MouseMoves move_panel_def Let_def split: option.split)
qed (auto simp: finish_drag_def start_drag_def unmount_panels_def panels_ok_def split: option.splits)

interpretation panels: invariant_machine panel_step panels_ok
  by unfold_locales (rule panels_ok_step)

text \<open>
  The panels never squeeze each other out: whatever the stored widths, the window size and
  the drags, the sidebar is between 180 and 350 pixels wide and the list between 220 and 450, on
  screen and in every pair of widths that is saved.
\<close>

theorem panel_bounds:
  "let s = run panel_step es (mount_panels viewport sidebar lst select)
   in (case pn_style s of None \<Rightarrow> False | Some (a, b) \<Rightarrow> widths_ok (Some a, Some b)) \<and> list_all widths_ok (pn_saved s)"
proof -
  have "panels_ok (mount_panels viewport sidebar lst select)"
    by (simp add: mount_panels_def init_panels_def props_panels_def panels_ok_apply)
  then have "panels_ok (run panel_step es (mount_panels viewport sidebar lst select))" by (rule panels.run_inv)
  then show ?thesis by (simp add: panels_ok_def Let_def)
qed

end
