(* ===== verification/Security_Audit.thy ===== *)
theory Security_Audit
  imports Entry_Model
begin

text \<open>
  The shared audit of \<open>features/audit/hooks/useSecurityAudit.ts\<close>: one result for the whole application,
  kept outside the components, which every mounted use of the hook shows. An audit that is under way
  is an element of \<open>au_waiting\<close>; the delay that keeps a skeleton on screen for a quarter of a second
  is a second wait.
\<close>

section \<open>State\<close>

record security_audit =
  sa_total_entries :: nat
  sa_breached_count :: nat
  sa_weak_count :: nat
  sa_reused_count :: nat
  sa_old_count :: nat
  sa_no_2fa_count :: nat
  sa_health_score :: nat
  sa_issues :: "security_issue list"

record audit_hook =
  ah_mounted :: bool
  ah_audit :: "security_audit option"
  ah_loading :: bool

datatype audit_stage = AwaitAudit int | AwaitDelay security_audit

record audit_wait =
  aw_hook :: nat
  aw_disableDelays :: bool
  aw_silent :: bool
  aw_stage :: audit_stage

record audit_state =
  au_global :: "security_audit option"
  au_hooks :: "audit_hook list"
  au_waiting :: "audit_wait list"

definition init_audit :: audit_state where
  "init_audit = \<lparr>au_global = None, au_hooks = [], au_waiting = []\<rparr>"

section \<open>Operations\<close>

definition mount_audit :: "audit_state \<Rightarrow> audit_state" where
  "mount_audit s =
     s\<lparr>au_hooks := au_hooks s @ [\<lparr>ah_mounted = True, ah_audit = au_global s, ah_loading = False\<rparr>]\<rparr>"

definition update_hook :: "nat \<Rightarrow> (audit_hook \<Rightarrow> audit_hook) \<Rightarrow> audit_state \<Rightarrow> audit_state" where
  "update_hook h f s =
     (if h < length (au_hooks s) \<and> ah_mounted (au_hooks s ! h)
      then s\<lparr>au_hooks := (au_hooks s)[h := f (au_hooks s ! h)]\<rparr> else s)"

definition unmount_audit :: "nat \<Rightarrow> audit_state \<Rightarrow> audit_state" where
  "unmount_audit h = update_hook h (\<lambda>k. k\<lparr>ah_mounted := False\<rparr>)"

definition set_loading :: "bool \<Rightarrow> audit_wait \<Rightarrow> audit_state \<Rightarrow> audit_state" where
  "set_loading b w s = (if aw_silent w then s else update_hook (aw_hook w) (\<lambda>k. k\<lparr>ah_loading := b\<rparr>) s)"

text \<open>\<open>runAudit\<close> of hook \<open>h\<close> at the time \<open>now\<close>.\<close>

definition runAudit :: "bool \<Rightarrow> nat \<Rightarrow> bool \<Rightarrow> bool \<Rightarrow> int \<Rightarrow> audit_state \<Rightarrow> audit_state" where
  "runAudit backend h disableDelays silent now s =
     (if \<not> backend then s
      else let w = \<lparr>aw_hook = h, aw_disableDelays = disableDelays, aw_silent = silent, aw_stage = AwaitAudit now\<rparr>;
               s = set_loading True w s
           in s\<lparr>au_waiting := au_waiting s @ [w]\<rparr>)"

definition publish :: "audit_wait \<Rightarrow> security_audit \<Rightarrow> audit_state \<Rightarrow> audit_state" where
  "publish w result s =
     set_loading False w
       (s\<lparr>au_global := Some result,
          au_hooks := map (\<lambda>k. if ah_mounted k then k\<lparr>ah_audit := Some result\<rparr> else k) (au_hooks s)\<rparr>)"

text \<open>The answer of \<open>securityAudit\<close>, and the end of the delay.\<close>

definition without :: "nat \<Rightarrow> 'a list \<Rightarrow> 'a list" where
  "without i xs = take i xs @ drop (Suc i) xs"

definition audit_answered :: "nat \<Rightarrow> int \<Rightarrow> security_audit option \<Rightarrow> audit_state \<Rightarrow> audit_state" where
  "audit_answered i now res s =
     (if i < length (au_waiting s)
      then let w = au_waiting s ! i; s' = s\<lparr>au_waiting := without i (au_waiting s)\<rparr>
           in case aw_stage w of
                AwaitAudit start \<Rightarrow>
                  (case res of
                     None \<Rightarrow> set_loading False w s'
                   | Some result \<Rightarrow>
                       if \<not> aw_disableDelays w \<and> \<not> aw_silent w \<and> now - start < 250
                       then s'\<lparr>au_waiting := au_waiting s' @ [w\<lparr>aw_stage := AwaitDelay result\<rparr>]\<rparr>
                       else publish w result s')
              | AwaitDelay _ \<Rightarrow> s
      else s)"

definition delay_over :: "nat \<Rightarrow> audit_state \<Rightarrow> audit_state" where
  "delay_over i s =
     (if i < length (au_waiting s)
      then let w = au_waiting s ! i
           in case aw_stage w of
                AwaitDelay result \<Rightarrow> publish w result (s\<lparr>au_waiting := without i (au_waiting s)\<rparr>)
              | AwaitAudit _ \<Rightarrow> s
      else s)"

datatype audit_event =
    MountAudit
  | UnmountAudit nat
  | RunAudit nat bool bool int
  | AuditAnswered nat int "security_audit option"
  | DelayOver nat

fun audit_step :: "audit_event \<Rightarrow> audit_state \<Rightarrow> audit_state" where
  "audit_step MountAudit s = mount_audit s"
| "audit_step (UnmountAudit h) s = unmount_audit h s"
| "audit_step (RunAudit h disable silent now) s = runAudit True h disable silent now s"
| "audit_step (AuditAnswered i now res) s = audit_answered i now res s"
| "audit_step (DelayOver i) s = delay_over i s"

section \<open>One audit for all\<close>

definition audit_shared :: "audit_state \<Rightarrow> bool" where
  "audit_shared s \<longleftrightarrow> (\<forall>k \<in> set (au_hooks s). ah_mounted k \<longrightarrow> ah_audit k = au_global s)"

lemma shared_update:
  assumes "audit_shared s" and "\<And>k. ah_mounted (f k) \<Longrightarrow> ah_mounted k \<and> ah_audit (f k) = ah_audit k"
  shows "audit_shared (update_hook h f s)"
proof (cases "h < length (au_hooks s) \<and> ah_mounted (au_hooks s ! h)")
  case True
  then have old: "au_hooks s ! h \<in> set (au_hooks s)" by simp
  show ?thesis unfolding audit_shared_def
  proof (intro ballI impI)
    fix k
    assume "k \<in> set (au_hooks (update_hook h f s))" and k: "ah_mounted k"
    then consider "k \<in> set (au_hooks s)" | "k = f (au_hooks s ! h)"
      using True set_update_subset_insert [of "au_hooks s" h] by (auto simp: update_hook_def)
    then show "ah_audit k = au_global (update_hook h f s)"
      using assms(1) assms(2) [of "au_hooks s ! h"] old k True by cases (auto simp: audit_shared_def update_hook_def)
  qed
next
  case False
  then have "update_hook h f s = s" unfolding update_hook_def by (rule if_not_P)
  with assms(1) show ?thesis by simp
qed

lemma shared_loading: "audit_shared s \<Longrightarrow> audit_shared (set_loading b w s)"
  by (auto simp: set_loading_def intro: shared_update)

lemma shared_waiting [simp]: "audit_shared (s\<lparr>au_waiting := ws\<rparr>) = audit_shared s"
  by (simp add: audit_shared_def)

lemma shared_publish: "audit_shared (publish w result s)"
  unfolding publish_def by (rule shared_loading) (auto simp: audit_shared_def)

lemma audit_shared_step [inv_steps]: "audit_shared s \<Longrightarrow> audit_shared (audit_step e s)"
proof (cases e)
  case MountAudit
  then show "audit_shared s \<Longrightarrow> ?thesis" by (auto simp: mount_audit_def audit_shared_def)
next
  case (UnmountAudit h)
  then show "audit_shared s \<Longrightarrow> ?thesis" by (auto simp: unmount_audit_def intro: shared_update)
qed (auto simp: runAudit_def audit_answered_def delay_over_def shared_loading shared_publish Let_def
    split: audit_stage.split option.split)

interpretation audits: invariant_machine audit_step audit_shared
  by unfold_locales (rule audit_shared_step)

text \<open>
  Every part of the interface shows the same audit: after any sequence of mounts,
  unmounts, audits, failures and delays, all mounted uses of the hook hold the one shared
  result.
\<close>

theorem audit_consistent:
  "let s = run audit_step es init_audit
   in list_all (\<lambda>k. ah_audit k = au_global s) (filter ah_mounted (au_hooks s))"
proof -
  have "audit_shared (run audit_step es init_audit)"
    by (intro audits.run_inv) (simp add: audit_shared_def init_audit_def)
  then show ?thesis by (auto simp: audit_shared_def list_all_iff Let_def)
qed

text \<open>
  Nothing forgets it: when every use has been unmounted, as a lock does, the next one, of whichever
  vault, starts with the old result.
\<close>

lemma audit_survives_lock:
  "let s = run audit_step [MountAudit, RunAudit 0 True True 0, AuditAnswered 0 1 (Some a), UnmountAudit 0, MountAudit] init_audit
   in ah_mounted (au_hooks s ! 1) \<and> ah_audit (au_hooks s ! 1) = Some a"
  by (simp add: init_audit_def mount_audit_def runAudit_def set_loading_def audit_answered_def publish_def unmount_audit_def
      update_hook_def without_def)

section \<open>The issues the dashboard lists\<close>

text \<open>
  \<open>SecurityDashboard.view.tsx\<close>: entries that share a password are listed as one group, at the first of
  them. \<open>collate\<close> is \<open>localeCompare\<close>.
\<close>

record display_issue =
  di_id :: string
  di_issue_type :: issue_type
  di_severity :: issue_severity
  di_entry_id :: string
  di_entry_title :: string
  di_description :: string
  di_is_group :: bool
  di_group_entries :: "(string \<times> string) list"

definition reuse_titles :: "(string \<Rightarrow> string \<Rightarrow> int) \<Rightarrow> security_issue \<Rightarrow> string list" where
  "reuse_titles collate issue =
     (let parts = split_str '': '' (si_description issue);
          others = (if length parts > 1 then map trim (split_on CHR '','' (parts ! 1)) else [])
      in sort_by collate (uniq (trim (si_entry_title issue) # others)))"

definition group_key :: "string list \<Rightarrow> string" where
  "group_key titles = join_with '':::'' (map to_lower titles)"

definition reuse_group :: "security_issue list \<Rightarrow> string list \<Rightarrow> security_issue \<Rightarrow> display_issue" where
  "reuse_group issues titles issue =
     (let cluster = filter (\<lambda>i. si_issue_type i = ReusedPassword \<and>
                      list_ex (\<lambda>t. to_lower t = to_lower (si_entry_title i)) titles) issues;
          member = (\<lambda>title. (case find (\<lambda>i. to_lower (si_entry_title i) = to_lower title) cluster of
                      Some i \<Rightarrow> si_entry_id i | None \<Rightarrow> si_entry_id issue, title))
      in \<lparr>di_id = ''reused-group-'' @ group_key titles, di_issue_type = ReusedPassword, di_severity = si_severity issue,
          di_entry_id = si_entry_id issue, di_entry_title = join_with '', '' titles,
          di_description = si_description issue, di_is_group = True, di_group_entries = map member titles\<rparr>)"

definition issue_type_name :: "issue_type \<Rightarrow> string" where
  "issue_type_name t =
     (case t of IssueBreached \<Rightarrow> ''Breached'' | WeakPassword \<Rightarrow> ''WeakPassword'' | ReusedPassword \<Rightarrow> ''ReusedPassword''
      | OldPassword \<Rightarrow> ''OldPassword'' | Missing2FA \<Rightarrow> ''Missing2FA'' | ShortPassword \<Rightarrow> ''ShortPassword'')"

definition single_issue :: "security_issue \<Rightarrow> display_issue" where
  "single_issue issue =
     \<lparr>di_id = si_entry_id issue @ ''-'' @ issue_type_name (si_issue_type issue), di_issue_type = si_issue_type issue,
      di_severity = si_severity issue, di_entry_id = si_entry_id issue, di_entry_title = si_entry_title issue,
      di_description = si_description issue, di_is_group = False, di_group_entries = []\<rparr>"

fun display_from ::
  "(string \<Rightarrow> string \<Rightarrow> int) \<Rightarrow> security_issue list \<Rightarrow> string list \<Rightarrow> security_issue list \<Rightarrow> display_issue list" where
  "display_from collate issues seen [] = []"
| "display_from collate issues seen (issue # rest) =
     (if si_issue_type issue = ReusedPassword
      then let titles = reuse_titles collate issue; key = group_key titles
           in if key \<in> set seen then display_from collate issues seen rest
              else reuse_group issues titles issue # display_from collate issues (key # seen) rest
      else single_issue issue # display_from collate issues seen rest)"

definition displayIssues :: "(string \<Rightarrow> string \<Rightarrow> int) \<Rightarrow> security_audit option \<Rightarrow> display_issue list" where
  "displayIssues collate audit =
     (case audit of None \<Rightarrow> [] | Some a \<Rightarrow> display_from collate (sa_issues a) [] (sa_issues a))"

lemma display_from_keys:
  "k \<in> set seen \<Longrightarrow> \<forall>g \<in> set (display_from collate issues seen rest). di_is_group g \<longrightarrow> di_id g \<noteq> ''reused-group-'' @ k"
proof (induction rest arbitrary: seen)
  case (Cons issue rest)
  let ?key = "group_key (reuse_titles collate issue)"
  from Cons.IH [of seen] Cons.IH [of "?key # seen"] Cons.prems show ?case
    by (auto simp: Let_def reuse_group_def single_issue_def simp del: append.simps)
qed simp

lemma display_from_groups: "distinct (map di_id (filter di_is_group (display_from collate issues seen rest)))"
proof (induction collate issues seen rest rule: display_from.induct)
  case (2 collate issues seen issue rest)
  let ?key = "group_key (reuse_titles collate issue)"
  show ?case
    using 2 display_from_keys [of ?key "?key # seen" collate issues rest]
    by (auto simp: Let_def reuse_group_def single_issue_def simp del: append.simps)
qed simp

lemma display_from_covers:
  assumes "i \<in> set rest" "si_issue_type i \<noteq> ReusedPassword"
  shows "single_issue i \<in> set (display_from collate issues seen rest)"
  using assms by (induction collate issues seen rest rule: display_from.induct) (auto simp: Let_def)

lemma display_from_reused:
  assumes "i \<in> set rest" "si_issue_type i = ReusedPassword" "group_key (reuse_titles collate i) \<notin> set seen"
  shows "\<exists>g \<in> set (display_from collate issues seen rest).
    di_is_group g \<and> di_id g = ''reused-group-'' @ group_key (reuse_titles collate i)"
  using assms
proof (induction rest arbitrary: seen)
  case (Cons issue rest)
  let ?key = "group_key (reuse_titles collate issue)"
  show ?case
  proof (cases "si_issue_type issue = ReusedPassword \<and> ?key = group_key (reuse_titles collate i)")
    case True
    then have "reuse_group issues (reuse_titles collate issue) issue \<in> set (display_from collate issues seen (issue # rest))"
      using Cons.prems(3) by (simp add: Let_def)
    with True show ?thesis by (intro bexI) (simp_all add: reuse_group_def Let_def)
  next
    case False
    then have "i \<in> set rest" using Cons.prems(1,2) by auto
    with Cons.IH [of "?key # seen"] Cons.IH [of seen] Cons.prems(2,3) False show ?thesis
      by (auto simp: Let_def)
  qed
qed simp

text \<open>
  The dashboard drops no issue and repeats no group: every issue that is not about reuse
  is listed as it is, every issue about reuse belongs to a listed group, and no group is listed
  twice.
\<close>

theorem displayIssues_complete:
  "let shown = displayIssues collate (Some a)
   in distinct (map di_id (filter di_is_group shown)) \<and>
      list_all (\<lambda>i. if si_issue_type i = ReusedPassword
                    then list_ex (\<lambda>g. di_is_group g \<and> di_id g = ''reused-group-'' @ group_key (reuse_titles collate i)) shown
                    else single_issue i \<in> set shown) (sa_issues a)"
  using display_from_groups display_from_covers display_from_reused [where seen = "[]"]
  by (auto simp: displayIssues_def list_all_iff list_ex_iff Let_def)

end
