(* ===== verification/Sync_Review.thy ===== *)
theory Sync_Review
  imports Session Sync_Text
begin

text \<open>
  The review of a synchronisation before it is applied: \<open>features/sync/components/SyncReview.tsx\<close>. The
  host subscribes to reviews for the session it is mounted in and shows the pending one; the dialog
  collects a decision per change and sends them; a row reveals the two values on request.
\<close>

section \<open>Data\<close>

datatype sync_choice = ChooseLocal | ChooseRemote | ChooseBoth | ChooseEdited

record sync_decision =
  sd_key :: string
  sd_choice :: sync_choice
  sd_text :: "string option"

record sync_change =
  sg_key :: string
  sg_entry_id :: string
  sg_title :: string
  sg_field :: string
  sg_custom_field_name :: "string option"
  sg_conflict :: bool
  sg_suggested :: "sync_choice option"
  sg_local_changed_at :: "string option"
  sg_remote_changed_at :: "string option"
  sg_can_keep_both :: bool
  sg_can_edit :: bool
  sg_keep_both_entries :: "(string \<times> string) list option"

record sync_preview =
  sp_id :: string
  sp_background :: "bool option"
  sp_local_revision :: string
  sp_remote_revision :: string
  sp_changes :: "sync_change list"

text \<open>The label of a change; \<open>Inr\<close> is a text of its own, \<open>Inl\<close> a translated key and what follows it.\<close>

definition syncFieldKeys :: "(string \<times> string) list" where
  "syncFieldKeys =
     [(''title'', ''entry.title''), (''username'', ''detail.username''), (''email'', ''detail.email''),
      (''url'', ''detail.url''), (''notes'', ''detail.notes''), (''encrypted_password'', ''detail.password''),
      (''encrypted_totp_secret'', ''entry.totp_placeholder''), (''state'', ''sync.review_state''),
      (''tag'', ''sync.review_tag''), (''favorite'', ''detail.favorite''), (''pinned'', ''entry.pinned_entry''),
      (''passkey'', ''detail.passkey''), (''tags'', ''sidebar.tags''), (''tag_order'', ''sidebar.tags''),
      (''vault_name'', ''settings.vault_name'')]"

definition syncFieldLabel :: "sync_change \<Rightarrow> (string \<times> string) + string" where
  "syncFieldLabel c =
     (if sg_custom_field_name c = Some ''_field_order'' then Inl (''sync.review_field_order'', [])
      else if starts_with (sg_field c) ''tag_membership/'' \<or> starts_with (sg_field c) ''tag_name/''
      then Inl (''sidebar.tags'', '': '' @ or_else (sg_custom_field_name c) [])
      else case map_of syncFieldKeys (sg_field c) of
             Some k \<Rightarrow> Inl (k, [])
           | None \<Rightarrow>
               if starts_with (sg_field c) ''custom/''
               then (if truthy_str (sg_custom_field_name c) then Inr (the (sg_custom_field_name c))
                     else Inl (''sync.review_custom'', []))
               else if starts_with (sg_field c) ''attachment/'' then Inl (''sync.review_attachment'', [])
               else Inr (sg_field c))"

section \<open>The host\<close>

datatype subscription_stage = AwaitSubscription | AwaitReview | SubscriptionDone

record subscription =
  sb_generation :: nat
  sb_disposed :: bool
  sb_receivedEvent :: bool
  sb_subscribed :: bool
  sb_stage :: subscription_stage

record host_state =
  hs_auth :: auth_state
  hs_deps :: "(bool \<times> vault option) option"
  hs_current :: "nat option"
  hs_subscriptions :: "subscription list"
  hs_pending :: "(sync_preview option \<times> nat) option"

definition init_host :: "auth_state \<Rightarrow> host_state" where
  "init_host a = \<lparr>hs_auth = a, hs_deps = None, hs_current = None, hs_subscriptions = [], hs_pending = None\<rparr>"

definition update_subscription :: "nat \<Rightarrow> (subscription \<Rightarrow> subscription) \<Rightarrow> host_state \<Rightarrow> host_state" where
  "update_subscription i f s = s\<lparr>hs_subscriptions := (hs_subscriptions s)[i := f (hs_subscriptions s ! i)]\<rparr>"

definition dispose_host :: "host_state \<Rightarrow> host_state" where
  "dispose_host s =
     (case hs_current s of
        None \<Rightarrow> s
      | Some i \<Rightarrow> (update_subscription i (\<lambda>b. b\<lparr>sb_disposed := True, sb_subscribed := False\<rparr>) s)\<lparr>hs_current := None\<rparr>)"

definition subscribe_host :: "host_state \<Rightarrow> host_state" where
  "subscribe_host s =
     (if au_isLocked (hs_auth s) \<or> au_currentVault (hs_auth s) = None then s
      else s\<lparr>hs_current := Some (length (hs_subscriptions s)),
             hs_subscriptions := hs_subscriptions s @
               [\<lparr>sb_generation = getSessionGeneration (hs_auth s), sb_disposed = False, sb_receivedEvent = False,
                 sb_subscribed = False, sb_stage = AwaitSubscription\<rparr>]\<rparr>)"

definition render_host :: "host_state \<Rightarrow> host_state" where
  "render_host s =
     (let deps = (au_isLocked (hs_auth s), au_currentVault (hs_auth s))
      in if hs_deps s = Some deps then s else subscribe_host (dispose_host (s\<lparr>hs_deps := Some deps\<rparr>)))"

definition accept_review :: "nat \<Rightarrow> sync_preview option \<Rightarrow> host_state \<Rightarrow> host_state" where
  "accept_review i v s =
     (let b = hs_subscriptions s ! i
      in if \<not> sb_disposed b \<and> isSessionCurrent (hs_auth s) (sb_generation b)
         then s\<lparr>hs_pending := Some (v, sb_generation b)\<rparr> else s)"

text \<open>
  A review arrives; the callback may run before \<open>onSyncReview\<close> has returned, and until the
  subscription has been stopped.
\<close>

definition review_event :: "nat \<Rightarrow> sync_preview option \<Rightarrow> host_state \<Rightarrow> host_state" where
  "review_event i v s = accept_review i v (update_subscription i (\<lambda>b. b\<lparr>sb_receivedEvent := True\<rparr>) s)"

definition subscription_ready :: "nat \<Rightarrow> bool \<Rightarrow> host_state \<Rightarrow> host_state" where
  "subscription_ready i ok s =
     (let b = hs_subscriptions s ! i
      in if sb_stage b \<noteq> AwaitSubscription then s
         else if \<not> ok \<or> sb_disposed b then update_subscription i (\<lambda>b. b\<lparr>sb_stage := SubscriptionDone\<rparr>) s
         else update_subscription i (\<lambda>b. b\<lparr>sb_subscribed := True, sb_stage := AwaitReview\<rparr>) s)"

definition review_answered :: "nat \<Rightarrow> sync_preview option option \<Rightarrow> host_state \<Rightarrow> host_state" where
  "review_answered i res s =
     (let b = hs_subscriptions s ! i
      in if sb_stage b \<noteq> AwaitReview then s
         else let s = update_subscription i (\<lambda>b. b\<lparr>sb_stage := SubscriptionDone\<rparr>) s
              in case res of None \<Rightarrow> s | Some v \<Rightarrow> if sb_receivedEvent b then s else accept_review i v s)"

definition close_review :: "host_state \<Rightarrow> host_state" where
  "close_review s = s\<lparr>hs_pending := None\<rparr>"

text \<open>What the host renders: the review the dialog is opened for.\<close>

definition shown_review :: "host_state \<Rightarrow> sync_preview option" where
  "shown_review s =
     (if au_isLocked (hs_auth s) then None
      else case hs_pending s of
             Some (Some p, g) \<Rightarrow> if isSessionCurrent (hs_auth s) g then Some p else None
           | _ \<Rightarrow> None)"

datatype host_event =
    HostAuth auth_event
  | RenderHost
  | ReviewEvent nat "sync_preview option"
  | SubscriptionReady nat bool
  | ReviewAnswered nat "sync_preview option option"
  | CloseReview
  | UnmountHost

definition for_subscription :: "nat \<Rightarrow> (host_state \<Rightarrow> host_state) \<Rightarrow> host_state \<Rightarrow> host_state" where
  "for_subscription i f s = (if i < length (hs_subscriptions s) then f s else s)"

fun host_step :: "host_event \<Rightarrow> host_state \<Rightarrow> host_state" where
  "host_step (HostAuth e) s = s\<lparr>hs_auth := auth_step e (hs_auth s)\<rparr>"
| "host_step RenderHost s = render_host s"
| "host_step (ReviewEvent i v) s = for_subscription i (review_event i v) s"
| "host_step (SubscriptionReady i ok) s = for_subscription i (subscription_ready i ok) s"
| "host_step (ReviewAnswered i res) s = for_subscription i (review_answered i res) s"
| "host_step CloseReview s = close_review s"
| "host_step UnmountHost s = (dispose_host s)\<lparr>hs_deps := None\<rparr>"

section \<open>The dialog\<close>

datatype review_call = ApproveSyncReview string "sync_decision list" | CancelSyncReview

datatype review_wait = WaitApprove nat | WaitCancel

record review_state =
  rv_auth :: auth_state
  rv_preview :: sync_preview
  rv_decisions :: "(string, sync_decision) omap"
  rv_busy :: bool
  rv_error :: string
  rv_closed :: bool
  rv_waiting :: "review_wait list"
  rv_calls :: "review_call list"

definition initial_decisions :: "sync_preview \<Rightarrow> (string, sync_decision) omap" where
  "initial_decisions p =
     fold (\<lambda>c m. case sg_suggested c of
         Some choice \<Rightarrow>
           if sg_conflict c then om_set (sg_key c) \<lparr>sd_key = sg_key c, sd_choice = choice, sd_text = None\<rparr> m else m
       | None \<Rightarrow> m) (sp_changes p) []"

definition open_review :: "auth_state \<Rightarrow> sync_preview \<Rightarrow> review_state" where
  "open_review a p = \<lparr>rv_auth = a, rv_preview = p, rv_decisions = initial_decisions p, rv_busy = False, rv_error = [],
     rv_closed = False, rv_waiting = [], rv_calls = []\<rparr>"

definition chose_both :: "review_state \<Rightarrow> sync_change \<Rightarrow> bool" where
  "chose_both s c \<longleftrightarrow>
     (case om_get (rv_decisions s) (sg_key c) of None \<Rightarrow> False | Some d \<Rightarrow> sd_choice d = ChooseBoth)"

text \<open>The entries that will be kept twice, and the number of conflicts without a decision.\<close>

definition duplicated :: "review_state \<Rightarrow> string list" where
  "duplicated s =
     map sg_entry_id (filter (\<lambda>c. sg_keep_both_entries c \<noteq> None \<and> chose_both s c) (sp_changes (rv_preview s)))"

definition unresolved :: "review_state \<Rightarrow> nat" where
  "unresolved s =
     length (filter (\<lambda>c. sg_conflict c \<and> om_get (rv_decisions s) (sg_key c) = None \<and> sg_entry_id c \<notin> set (duplicated s))
       (sp_changes (rv_preview s)))"

definition choose_change :: "sync_change \<Rightarrow> sync_decision \<Rightarrow> review_state \<Rightarrow> review_state" where
  "choose_change change decision s =
     (let kept = rv_decisions s;
          kept = (if sg_keep_both_entries change \<noteq> None \<and> sd_choice decision = ChooseBoth
                  then fold (\<lambda>field m. if sg_entry_id field = sg_entry_id change then om_del (sg_key field) m else m)
                         (sp_changes (rv_preview s)) kept
                  else kept)
      in s\<lparr>rv_decisions := om_set (sg_key change) decision kept\<rparr>)"

text \<open>A row is disabled while the dialog is busy, and when its entry is kept twice because of another row.\<close>

definition row_disabled :: "review_state \<Rightarrow> sync_change \<Rightarrow> bool" where
  "row_disabled s c \<longleftrightarrow> rv_busy s \<or> sg_entry_id c \<in> set (duplicated s) \<and> \<not> chose_both s c"

definition row_offers :: "sync_change \<Rightarrow> sync_choice \<Rightarrow> bool" where
  "row_offers c choice \<longleftrightarrow>
     (case choice of ChooseBoth \<Rightarrow> sg_can_keep_both c | ChooseEdited \<Rightarrow> sg_can_edit c | _ \<Rightarrow> True)"

definition choose_row :: "nat \<Rightarrow> sync_choice \<Rightarrow> string option \<Rightarrow> review_state \<Rightarrow> review_state" where
  "choose_row i choice txt s =
     (if i < length (sp_changes (rv_preview s))
      then let c = sp_changes (rv_preview s) ! i
           in if row_disabled s c \<or> \<not> row_offers c choice then s
              else choose_change c \<lparr>sd_key = sg_key c, sd_choice = choice, sd_text = txt\<rparr> s
      else s)"

definition review_called :: "review_call \<Rightarrow> review_wait \<Rightarrow> review_state \<Rightarrow> review_state" where
  "review_called c w s = s\<lparr>rv_calls := rv_calls s @ [c], rv_waiting := rv_waiting s @ [w]\<rparr>"

definition cancel_review :: "review_state \<Rightarrow> review_state" where
  "cancel_review s = (if rv_busy s then s else review_called CancelSyncReview WaitCancel s)"

definition approve_review :: "review_state \<Rightarrow> review_state" where
  "approve_review s =
     (if rv_busy s \<or> unresolved s \<noteq> 0 then s
      else review_called (ApproveSyncReview (sp_id (rv_preview s)) (map snd (rv_decisions s)))
             (WaitApprove (getSessionGeneration (rv_auth s))) (s\<lparr>rv_busy := True, rv_error := []\<rparr>))"

definition resume_review :: "review_wait \<Rightarrow> string option \<Rightarrow> review_state \<Rightarrow> review_state" where
  "resume_review w err s =
     (case w of
        WaitApprove g \<Rightarrow>
          if \<not> isSessionCurrent (rv_auth s) g then s
          else (case err of None \<Rightarrow> s\<lparr>rv_closed := True\<rparr> | Some e \<Rightarrow> s\<lparr>rv_error := e, rv_busy := False\<rparr>)
      | WaitCancel \<Rightarrow> (case err of None \<Rightarrow> s\<lparr>rv_closed := True\<rparr> | Some e \<Rightarrow> s\<lparr>rv_error := e\<rparr>))"

datatype dialog_event =
    ReviewAuth auth_event
  | ChooseRow nat sync_choice "string option"
  | CancelClicked
  | ApproveClicked
  | SettleReview nat "string option"

text \<open>The clicks reach the dialog while it is open; what is under way settles even afterwards.\<close>

fun review_step :: "dialog_event \<Rightarrow> review_state \<Rightarrow> review_state" where
  "review_step (ReviewAuth e) s = s\<lparr>rv_auth := auth_step e (rv_auth s)\<rparr>"
| "review_step (ChooseRow i choice txt) s = (if rv_closed s then s else choose_row i choice txt s)"
| "review_step CancelClicked s = (if rv_closed s then s else cancel_review s)"
| "review_step ApproveClicked s = (if rv_closed s then s else approve_review s)"
| "review_step (SettleReview i err) s =
     (if i < length (rv_waiting s)
      then resume_review (rv_waiting s ! i) err
             (s\<lparr>rv_waiting := take i (rv_waiting s) @ drop (Suc i) (rv_waiting s)\<rparr>)
      else s)"

section \<open>A row of the dialog\<close>

text \<open>
  The choice a row shows as selected, and its two sides with the later change first;
  \<open>Date.parse\<close> is the parameter \<open>date\<close> (\<open>None\<close> is \<open>NaN\<close>, which is not above anything).
\<close>

definition row_selected :: "review_state \<Rightarrow> sync_change \<Rightarrow> sync_choice option" where
  "row_selected s c =
     (case om_get (rv_decisions s) (sg_key c) of Some d \<Rightarrow> Some (sd_choice d) | None \<Rightarrow> sg_suggested c)"

datatype sync_side = LocalSide | RemoteSide

definition latest_side :: "(string \<Rightarrow> int option) \<Rightarrow> sync_change \<Rightarrow> sync_side option" where
  "latest_side date c =
     (if truthy_str (sg_local_changed_at c) \<and> truthy_str (sg_remote_changed_at c) \<and>
         sg_local_changed_at c \<noteq> sg_remote_changed_at c
      then (case (date (the (sg_local_changed_at c)), date (the (sg_remote_changed_at c))) of
              (Some l, Some r) \<Rightarrow> Some (if l > r then LocalSide else RemoteSide)
            | _ \<Rightarrow> Some RemoteSide)
      else None)"

definition row_sides :: "(string \<Rightarrow> int option) \<Rightarrow> sync_change \<Rightarrow> sync_side list" where
  "row_sides date c =
     (if latest_side date c = Some RemoteSide then [RemoteSide, LocalSide] else [LocalSide, RemoteSide])"

text \<open>The values of a row are asked for when the user reveals them; an entry waits for both answers.\<close>

datatype row_call = InspectSyncField string string bool

record row_state =
  rw_auth :: auth_state
  rw_values :: "(string \<times> string) option"
  rw_error :: string
  rw_loading :: bool
  rw_alive :: bool
  rw_waiting :: "nat list"
  rw_calls :: "row_call list"

definition init_row :: "auth_state \<Rightarrow> row_state" where
  "init_row a = \<lparr>rw_auth = a, rw_values = None, rw_error = [], rw_loading = False, rw_alive = True,
     rw_waiting = [], rw_calls = []\<rparr>"

definition reveal :: "string \<Rightarrow> string \<Rightarrow> row_state \<Rightarrow> row_state" where
  "reveal previewId key s =
     (if rw_values s \<noteq> None then s\<lparr>rw_values := None\<rparr>
      else if rw_loading s then s
      else s\<lparr>rw_loading := True, rw_waiting := rw_waiting s @ [getSessionGeneration (rw_auth s)],
             rw_calls := rw_calls s @ [InspectSyncField previewId key False, InspectSyncField previewId key True]\<rparr>)"

definition resume_reveal :: "nat \<Rightarrow> string + string \<times> string \<Rightarrow> row_state \<Rightarrow> row_state" where
  "resume_reveal g res s =
     (if \<not> rw_alive s \<or> \<not> isSessionCurrent (rw_auth s) g then s
      else (case res of Inr v \<Rightarrow> s\<lparr>rw_values := Some v\<rparr> | Inl e \<Rightarrow> s\<lparr>rw_error := e\<rparr>)\<lparr>rw_loading := False\<rparr>)"

datatype row_event =
    RowAuth auth_event
  | RevealClicked string string
  | SettleReveal nat "string + string \<times> string"
  | UnmountRow

fun row_step :: "row_event \<Rightarrow> row_state \<Rightarrow> row_state" where
  "row_step (RowAuth e) s = s\<lparr>rw_auth := auth_step e (rw_auth s)\<rparr>"
| "row_step (RevealClicked p k) s = (if rw_alive s \<and> \<not> rw_loading s then reveal p k s else s)"
| "row_step (SettleReveal i res) s =
     (if i < length (rw_waiting s)
      then resume_reveal (rw_waiting s ! i) res
             (s\<lparr>rw_waiting := take i (rw_waiting s) @ drop (Suc i) (rw_waiting s)\<rparr>)
      else s)"
| "row_step UnmountRow s = s\<lparr>rw_alive := False\<rparr>"

section \<open>The host shows reviews of the open session only\<close>

lemmas host_defs =
  render_host_def subscribe_host_def dispose_host_def update_subscription_def review_event_def
  accept_review_def subscription_ready_def review_answered_def close_review_def for_subscription_def Let_def

abbreviation gens :: "host_state \<Rightarrow> nat list" where
  "gens s \<equiv> map sb_generation (hs_subscriptions s)"

lemma same_gens [simp]: "(map h xs)[i := h (xs ! i)] = map h xs"
  by (cases "i < length xs") (simp_all add: list_update_same_conv list_update_beyond)

lemma gens_step:
  "gens (host_step e s) = gens s \<or> gens (host_step e s) = gens s @ [generation (hs_auth s)]"
  by (cases e) (auto simp: host_defs map_update getSessionGeneration_def split: option.splits)

lemma host_gen: "generation (hs_auth s) \<le> generation (hs_auth (host_step e s))"
  by (cases e) (auto simp: host_defs generation_step split: option.splits)

lemma host_gen_run: "generation (hs_auth s) \<le> generation (hs_auth (run host_step es s))"
  by (induction es arbitrary: s) (auto intro: order_trans host_gen)

definition host_inv :: "host_state \<Rightarrow> bool" where
  "host_inv s \<longleftrightarrow>
     (\<forall>h \<in> set (gens s). h \<le> generation (hs_auth s)) \<and>
     (\<forall>v g. hs_pending s = Some (v, g) \<longrightarrow> g \<le> generation (hs_auth s))"

lemma host_pending_step:
  "hs_pending (host_step e s) = Some (v, g) \<Longrightarrow>
     hs_pending s = Some (v, g) \<or> isSessionCurrent (hs_auth s) g"
  by (cases e) (auto simp: host_defs split: option.splits if_splits)

lemma host_inv_step [inv_steps]: "host_inv s \<Longrightarrow> host_inv (host_step e s)"
  using gens_step [of e s] host_pending_step [of e s] host_gen [of s e]
  unfolding host_inv_def
  by (auto simp: isSessionCurrent_def simp del: set_map dest: order_trans)

interpretation review_host: invariant_machine host_step host_inv
  by unfold_locales (rule host_inv_step)

lemma host_inv_run: "host_inv (run host_step es (init_host a))"
  by (rule review_host.run_inv) (simp add: host_inv_def init_host_def)

text \<open>An event that hands the review \<open>p\<close> to subscription \<open>i\<close>.\<close>

definition delivers :: "host_event \<Rightarrow> nat \<Rightarrow> sync_preview \<Rightarrow> bool" where
  "delivers e i p \<longleftrightarrow> e = ReviewEvent i (Some p) \<or> e = ReviewAnswered i (Some (Some p))"

text \<open>The first \<open>n\<close> subscriptions belong to generations up to \<open>g\<close>, which is over.\<close>

definition older :: "nat \<Rightarrow> nat \<Rightarrow> host_state \<Rightarrow> bool" where
  "older n g s \<longleftrightarrow>
     n \<le> length (gens s) \<and> (\<forall>i < n. gens s ! i \<le> g) \<and> g < generation (hs_auth s)"

lemma older_step: "older n g s \<Longrightarrow> older n g (host_step e s)"
  using gens_step [of e s] host_gen [of s e]
  unfolding older_def by (auto simp: nth_append simp del: length_map nth_map)

lemma delivered_step:
  assumes "older n g s" and "hs_pending (host_step e s) = Some (Some p, h)" and "g < h"
  shows "hs_pending s = Some (Some p, h) \<or> (\<exists>i \<ge> n. delivers e i p)"
  using assms
  by (cases e) (auto simp: host_defs older_def delivers_def nth_list_update not_le split: option.splits if_splits)

lemma delivered_run:
  assumes "older n g s" and "hs_pending (run host_step es s) = Some (Some p, h)" and "g < h"
  shows "hs_pending s = Some (Some p, h) \<or> (\<exists>e \<in> set es. \<exists>i \<ge> n. delivers e i p)"
  using assms
proof (induction es arbitrary: s)
  case (Cons e es)
  then show ?case
    using delivered_step [of n g s e p h] older_step [of n g s e] by fastforce
qed simp

text \<open>
  Claim C19. When the session ends, the review that was waiting disappears in the same step, and a
  review shown at any later moment was delivered after that, to a subscription made after that:
  nothing handed to an earlier subscription is ever shown again.
\<close>

theorem review_session_bound:
  assumes "ends_session e"
    and "s = run host_step es (init_host a)"
    and "shown_review (run host_step fs (host_step (HostAuth e) s)) = Some p"
  shows "\<exists>f \<in> set fs. \<exists>i \<ge> length (hs_subscriptions s). delivers f i p"
proof -
  let ?s = "host_step (HostAuth e) s" and ?g = "generation (hs_auth s)"
  have inv: "host_inv s" using assms(2) host_inv_run by simp
  have "?g < generation (hs_auth ?s)" using assms(1) by (simp add: generation_ends)
  moreover from inv have "older (length (hs_subscriptions s)) ?g ?s"
    using calculation by (auto simp: older_def host_inv_def)
  moreover obtain h where h: "hs_pending (run host_step fs ?s) = Some (Some p, h)"
    and cur: "isSessionCurrent (hs_auth (run host_step fs ?s)) h"
    using assms(3) by (auto simp: shown_review_def split: if_splits option.splits)
  moreover from cur have "?g < h"
    using calculation(1) host_gen_run [of ?s fs] by (simp add: isSessionCurrent_def)
  moreover have "hs_pending ?s \<noteq> Some (Some p, h)"
    using inv \<open>?g < h\<close> by (auto simp: host_inv_def)
  ultimately show ?thesis
    using delivered_run [of _ ?g ?s fs p h] by blast
qed

definition review_demo :: sync_preview where
  "review_demo = \<lparr>sp_id = ''r1'', sp_background = None, sp_local_revision = ''1'', sp_remote_revision = ''2'',
     sp_changes =
       [\<lparr>sg_key = ''e1/notes'', sg_entry_id = ''e1'', sg_title = ''Mail'', sg_field = ''notes'',
         sg_custom_field_name = None, sg_conflict = True, sg_suggested = None, sg_local_changed_at = None,
         sg_remote_changed_at = None, sg_can_keep_both = True, sg_can_edit = True,
         sg_keep_both_entries = Some [(''e1'', ''Mail''), (''e1b'', ''Mail (copy)'')]\<rparr>,
        \<lparr>sg_key = ''e1/url'', sg_entry_id = ''e1'', sg_title = ''Mail'', sg_field = ''url'',
         sg_custom_field_name = None, sg_conflict = True, sg_suggested = None, sg_local_changed_at = None,
         sg_remote_changed_at = None, sg_can_keep_both = False, sg_can_edit = True,
         sg_keep_both_entries = None\<rparr>]\<rparr>"

definition demo_open_session :: "auth_event list" where
  "demo_open_session =
     [SetCurrentVault (Some \<lparr>va_id = ''v'', va_name = ''V'', va_path = []\<rparr>) False, SetIsLocked False]"

theorem review_session_bound_witness:
  "\<exists>f \<in> set [RenderHost, HostAuth (SetIsLocked False), RenderHost, SubscriptionReady 1 True,
                ReviewAnswered 1 (Some (Some review_demo))].
     \<exists>i \<ge> length (hs_subscriptions (run host_step (map HostAuth demo_open_session @ [RenderHost]) (init_host (init_auth True)))).
       delivers f i review_demo"
  by (rule review_session_bound [of LockVault, OF _ refl])
     (simp_all add: demo_open_session_def init_host_def init_auth_def auth_defs host_defs shown_review_def
        getSessionGeneration_def isSessionCurrent_def numeral_2_eq_2)

section \<open>What the dialog sends\<close>

lemmas review_defs =
  choose_row_def choose_change_def review_called_def cancel_review_def approve_review_def resume_review_def Let_def

definition decisions_ok :: "sync_preview \<Rightarrow> (string, sync_decision) omap \<Rightarrow> bool" where
  "decisions_ok p m \<longleftrightarrow>
     om_wf m \<and> (\<forall>(k, d) \<in> set m. sd_key d = k \<and> k \<in> sg_key ` set (sp_changes p))"

lemma decisions_ok_set:
  "decisions_ok p m \<Longrightarrow> c \<in> set (sp_changes p) \<Longrightarrow> sd_key d = sg_key c \<Longrightarrow> decisions_ok p (om_set (sg_key c) d m)"
  using set_om_set_sub [of "sg_key c" d m] by (auto simp: decisions_ok_def)

lemma decisions_ok_del: "decisions_ok p m \<Longrightarrow> decisions_ok p (om_del k m)"
  by (auto simp: decisions_ok_def set_om_del)

text \<open>Folding an operation that keeps a property over a list keeps it.\<close>

lemma fold_keeps: "(\<And>x m. x \<in> set xs \<Longrightarrow> P m \<Longrightarrow> P (f x m)) \<Longrightarrow> P m \<Longrightarrow> P (fold f xs m)"
  by (induction xs arbitrary: m) auto

lemma decisions_ok_initial: "decisions_ok p (initial_decisions p)"
  unfolding initial_decisions_def
  by (rule fold_keeps) (auto intro!: decisions_ok_set split: option.splits simp: decisions_ok_def [of p "[]"])

lemma decisions_ok_delete_all:
  "decisions_ok p m \<Longrightarrow> decisions_ok p (fold (\<lambda>c m. if P c then om_del (f c) m else m) cs m)"
  by (rule fold_keeps) (auto intro: decisions_ok_del)

lemma decisions_ok_choose:
  "decisions_ok (rv_preview s) (rv_decisions s) \<Longrightarrow> c \<in> set (sp_changes (rv_preview s)) \<Longrightarrow> sd_key d = sg_key c \<Longrightarrow>
   decisions_ok (rv_preview s) (rv_decisions (choose_change c d s))"
  by (simp add: choose_change_def Let_def decisions_ok_set decisions_ok_delete_all)

definition complete_approval :: "sync_preview \<Rightarrow> sync_decision list \<Rightarrow> bool" where
  "complete_approval p ds \<longleftrightarrow>
     distinct (map sd_key ds) \<and> sd_key ` set ds \<subseteq> sg_key ` set (sp_changes p) \<and>
     (\<forall>c \<in> set (sp_changes p). sg_conflict c \<longrightarrow>
        sg_key c \<in> sd_key ` set ds \<or>
        (\<exists>c' \<in> set (sp_changes p). \<exists>d \<in> set ds.
           sg_entry_id c' = sg_entry_id c \<and> sg_keep_both_entries c' \<noteq> None \<and>
           sd_key d = sg_key c' \<and> sd_choice d = ChooseBoth))"

lemma decisions_key: "decisions_ok p m \<Longrightarrow> x \<in> set m \<Longrightarrow> sd_key (snd x) = fst x"
  by (simp add: decisions_ok_def split_beta)

lemma decisions_keys: "decisions_ok p m \<Longrightarrow> map sd_key (map snd m) = om_keys m"
  by (simp add: decisions_key)

lemma approval_complete:
  assumes "decisions_ok (rv_preview s) (rv_decisions s)" and "unresolved s = 0"
  shows "complete_approval (rv_preview s) (map snd (rv_decisions s))"
proof -
  let ?ds = "map snd (rv_decisions s)"
  have keys: "map sd_key ?ds = om_keys (rv_decisions s)"
    using assms(1) by (rule decisions_keys)
  have decided: "sg_key c \<in> sd_key ` set ?ds" if "om_get (rv_decisions s) (sg_key c) \<noteq> None" for c
    using that arg_cong [OF keys, of set] by (simp add: map_of_eq_None_iff image_image)
  have both: "\<exists>d \<in> set ?ds. sd_key d = sg_key c \<and> sd_choice d = ChooseBoth" if "chose_both s c" for c
  proof -
    from that obtain d where d: "(sg_key c, d) \<in> set (rv_decisions s)" "sd_choice d = ChooseBoth"
      by (auto simp: chose_both_def dest: map_of_SomeD split: option.splits)
    then show ?thesis using decisions_key [OF assms(1) d(1)] by force
  qed
  show ?thesis
    unfolding complete_approval_def
  proof (intro conjI ballI impI)
    show "distinct (map sd_key ?ds)" unfolding keys using assms(1) by (simp add: decisions_ok_def)
    show "sd_key ` set ?ds \<subseteq> sg_key ` set (sp_changes (rv_preview s))"
      using assms(1) by (auto simp: decisions_ok_def)
    fix c assume "c \<in> set (sp_changes (rv_preview s))" "sg_conflict c"
    then have "om_get (rv_decisions s) (sg_key c) \<noteq> None \<or> sg_entry_id c \<in> set (duplicated s)"
      using assms(2) by (auto simp: unresolved_def filter_empty_conv)
    then show "sg_key c \<in> sd_key ` set ?ds \<or>
        (\<exists>c' \<in> set (sp_changes (rv_preview s)). \<exists>d \<in> set ?ds.
           sg_entry_id c' = sg_entry_id c \<and> sg_keep_both_entries c' \<noteq> None \<and>
           sd_key d = sg_key c' \<and> sd_choice d = ChooseBoth)"
      using decided [of c] both by (fastforce simp: duplicated_def)
  qed
qed

fun waits_approval :: "review_wait \<Rightarrow> bool" where
  "waits_approval (WaitApprove g) = True"
| "waits_approval WaitCancel = False"

definition review_inv :: "sync_preview \<Rightarrow> review_state \<Rightarrow> bool" where
  "review_inv p s \<longleftrightarrow>
     rv_preview s = p \<and> decisions_ok p (rv_decisions s) \<and>
     (\<forall>i ds. ApproveSyncReview i ds \<in> set (rv_calls s) \<longrightarrow> i = sp_id p \<and> complete_approval p ds) \<and>
     length (filter waits_approval (rv_waiting s)) \<le> (if rv_busy s then 1 else 0)"

lemma review_inv_choose:
  "review_inv p s \<Longrightarrow> review_inv p (choose_row i choice txt s)"
  using decisions_ok_choose [of s "sp_changes (rv_preview s) ! i"]
  by (auto simp: review_inv_def choose_row_def Let_def) (auto simp: choose_change_def Let_def)

lemma review_inv_approve: "review_inv p s \<Longrightarrow> review_inv p (approve_review s)"
  using approval_complete [of s]
  by (auto simp: review_inv_def approve_review_def review_called_def)

lemma review_inv_resume:
  assumes "review_inv p s" and "i < length (rv_waiting s)"
  shows "review_inv p (resume_review (rv_waiting s ! i) err
           (s\<lparr>rv_waiting := take i (rv_waiting s) @ drop (Suc i) (rv_waiting s)\<rparr>))"
proof -
  have "length (filter waits_approval (rv_waiting s)) =
        length (filter waits_approval (take i (rv_waiting s) @ drop (Suc i) (rv_waiting s))) +
        (if waits_approval (rv_waiting s ! i) then 1 else 0)"
    by (subst filter_remove_nth [OF assms(2)]) simp
  then show ?thesis
    using assms(1)
    by (cases "rv_waiting s ! i") (auto simp: review_inv_def resume_review_def split: option.splits if_splits)
qed

lemma review_inv_step [inv_steps]: "review_inv p s \<Longrightarrow> review_inv p (review_step e s)"
proof (cases e)
  case (ReviewAuth x)
  then show "review_inv p s \<Longrightarrow> ?thesis" by (simp add: review_inv_def)
qed (auto simp: review_inv_choose review_inv_approve review_inv_resume
       , auto simp: review_inv_def cancel_review_def review_called_def)

interpretation review_dialog: invariant_machine review_step "review_inv p" for p
  by unfold_locales (rule review_inv_step)

lemma review_inv_run: "review_inv p (run review_step es (open_review a p))"
  by (rule review_dialog.run_inv) (simp add: review_inv_def open_review_def decisions_ok_initial)

text \<open>
  Claim C20. Whatever the user clicks, and however the answers arrive, the decisions an approval sends
  are of the review shown, at most one per change and only for its changes, and every conflict is
  decided: by a decision of its own or because its entry is kept twice.
\<close>

theorem approval_decides_conflicts:
  assumes "ApproveSyncReview i ds \<in> set (rv_calls (run review_step es (open_review a p)))"
  shows "i = sp_id p \<and> complete_approval p ds"
  using assms review_inv_run [of p es a] by (simp add: review_inv_def)

lemma one_approval_waits:
  "length (filter waits_approval (rv_waiting (run review_step es (open_review a p)))) \<le> 1"
  using review_inv_run [of p es a] by (auto simp: review_inv_def split: if_splits)

section \<open>An entry kept twice has one decision\<close>

text \<open>If a change is decided as keeping its entry twice, no other change of the entry is decided.\<close>

definition twice :: "(string \<Rightarrow> sync_decision option) \<Rightarrow> sync_change \<Rightarrow> bool" where
  "twice m c \<longleftrightarrow>
     sg_keep_both_entries c \<noteq> None \<and> (case m (sg_key c) of None \<Rightarrow> False | Some d \<Rightarrow> sd_choice d = ChooseBoth)"

definition alone :: "sync_change set \<Rightarrow> (string \<Rightarrow> sync_decision option) \<Rightarrow> bool" where
  "alone C m \<longleftrightarrow>
     (\<forall>c \<in> C. \<forall>c' \<in> C. twice m c \<longrightarrow> sg_entry_id c' = sg_entry_id c \<longrightarrow> m (sg_key c') \<noteq> None \<longrightarrow> c' = c)"

lemma aloneD:
  "alone C m \<Longrightarrow> twice m c \<Longrightarrow> c \<in> C \<Longrightarrow> c' \<in> C \<Longrightarrow> sg_entry_id c' = sg_entry_id c \<Longrightarrow> m (sg_key c') \<noteq> None \<Longrightarrow> c' = c"
  by (simp add: alone_def)

lemma get_delete_all:
  "om_get (fold (\<lambda>c m. if P c then om_del (f c) m else m) cs m) =
     (\<lambda>k. if \<exists>c \<in> set cs. P c \<and> f c = k then None else om_get m k)"
  by (induction cs arbitrary: m) (auto simp: fun_eq_iff)

lemma alone_less:
  assumes "alone C m" and "\<And>k v. m' k = Some v \<Longrightarrow> m k = Some v"
  shows "alone C m'"
  unfolding alone_def
proof (intro ballI impI)
  fix c c' assume c: "c \<in> C" "twice m' c" and c': "c' \<in> C" "sg_entry_id c' = sg_entry_id c" "m' (sg_key c') \<noteq> None"
  from c(2) assms(2) have "twice m c" by (auto simp: twice_def split: option.splits)
  moreover from c'(3) assms(2) have "m (sg_key c') \<noteq> None" by auto
  ultimately show "c' = c" using aloneD [OF assms(1) _ c(1) c'(1,2)] by blast
qed

lemma alone_first:
  assumes "alone C m" and "inj_on sg_key C" and c0: "c0 \<in> C"
    and first: "\<And>c. c \<in> C \<Longrightarrow> sg_entry_id c = sg_entry_id c0 \<Longrightarrow> m (sg_key c) = None"
  shows "alone C (m(sg_key c0 \<mapsto> d))"
  unfolding alone_def
proof (intro ballI impI)
  fix c c' assume c: "c \<in> C" "twice (m(sg_key c0 \<mapsto> d)) c"
    and c': "c' \<in> C" "sg_entry_id c' = sg_entry_id c" "(m(sg_key c0 \<mapsto> d)) (sg_key c') \<noteq> None"
  have same: "x = c0" if "x \<in> C" "sg_key x = sg_key c0" for x
    using inj_onD [OF assms(2) that(2) that(1) c0] .
  have fresh: "x = c0 \<or> sg_entry_id x \<noteq> sg_entry_id c0 \<and> m (sg_key x) \<noteq> None"
    if "x \<in> C" "(m(sg_key c0 \<mapsto> d)) (sg_key x) \<noteq> None" for x
    using that same [OF that(1)] first [OF that(1)] by (auto split: if_splits)
  have "(m(sg_key c0 \<mapsto> d)) (sg_key c) \<noteq> None" using c(2) by (auto simp: twice_def split: option.splits)
  from fresh [OF c(1) this] show "c' = c"
  proof
    assume "c = c0"
    then show ?thesis using fresh [OF c'(1,3)] c'(2) by auto
  next
    assume other: "sg_entry_id c \<noteq> sg_entry_id c0 \<and> m (sg_key c) \<noteq> None"
    then have "sg_key c \<noteq> sg_key c0" using same [OF c(1)] by auto
    then have "twice m c" using c(2) by (simp add: twice_def)
    moreover have "m (sg_key c') \<noteq> None" using fresh [OF c'(1,3)] c'(2) other by auto
    ultimately show ?thesis using aloneD [OF assms(1) _ c(1) c'(1,2)] by blast
  qed
qed

lemma alone_choose_other:
  assumes "alone C m" and "inj_on sg_key C" and c0: "c0 \<in> C"
    and "sg_keep_both_entries c0 = None \<or> sd_choice d \<noteq> ChooseBoth"
    and open_row: "\<And>c. c \<in> C \<Longrightarrow> twice m c \<Longrightarrow> sg_entry_id c0 = sg_entry_id c \<Longrightarrow> m (sg_key c0) \<noteq> None"
  shows "alone C (m(sg_key c0 \<mapsto> d))"
  unfolding alone_def
proof (intro ballI impI)
  fix c c' assume c: "c \<in> C" "twice (m(sg_key c0 \<mapsto> d)) c"
    and c': "c' \<in> C" "sg_entry_id c' = sg_entry_id c" "(m(sg_key c0 \<mapsto> d)) (sg_key c') \<noteq> None"
  have "c \<noteq> c0" using c(2) assms(4) by (auto simp: twice_def)
  then have "sg_key c \<noteq> sg_key c0" using inj_onD [OF assms(2) _ c(1) c0] by auto
  then have old: "twice m c" using c(2) by (simp add: twice_def)
  have "m (sg_key c') \<noteq> None"
  proof (cases "sg_key c' = sg_key c0")
    case True
    then have "c' = c0" using inj_onD [OF assms(2) _ c'(1) c0] by auto
    then show ?thesis using open_row [OF c(1) old] c'(2) by simp
  next
    case False
    then show ?thesis using c'(3) by simp
  qed
  then show "c' = c" by (rule aloneD [OF assms(1) old c(1) c'(1,2)])
qed

definition well_formed_preview :: "sync_preview \<Rightarrow> bool" where
  "well_formed_preview p \<longleftrightarrow>
     distinct (map sg_key (sp_changes p)) \<and> list_all (\<lambda>c. sg_suggested c \<noteq> Some ChooseBoth) (sp_changes p)"

abbreviation decided_alone :: "review_state \<Rightarrow> bool" where
  "decided_alone s \<equiv> alone (set (sp_changes (rv_preview s))) (om_get (rv_decisions s))"

lemma twice_duplicated:
  "c \<in> set (sp_changes (rv_preview s)) \<Longrightarrow> twice (om_get (rv_decisions s)) c \<Longrightarrow> sg_entry_id c \<in> set (duplicated s)"
  by (auto simp: duplicated_def twice_def chose_both_def)

lemma alone_choose:
  assumes p: "well_formed_preview (rv_preview s)" and a: "decided_alone s"
    and c0: "c0 \<in> set (sp_changes (rv_preview s))" and row: "\<not> row_disabled s c0"
  shows "decided_alone (choose_change c0 d s)"
proof -
  let ?C = "set (sp_changes (rv_preview s))"
  have inj: "inj_on sg_key ?C" using p by (simp add: well_formed_preview_def distinct_map)
  show ?thesis
  proof (cases "sg_keep_both_entries c0 \<noteq> None \<and> sd_choice d = ChooseBoth")
    case True
    have "alone ?C ((\<lambda>k. if \<exists>c \<in> ?C. sg_entry_id c = sg_entry_id c0 \<and> sg_key c = k then None
        else om_get (rv_decisions s) k)(sg_key c0 \<mapsto> d))"
      by (rule alone_first [OF alone_less [OF a] inj c0]) (auto split: if_splits)
    then show ?thesis using True by (simp add: choose_change_def Let_def get_delete_all)
  next
    case False
    have "om_get (rv_decisions s) (sg_key c0) \<noteq> None"
      if "c \<in> ?C" "twice (om_get (rv_decisions s)) c" "sg_entry_id c0 = sg_entry_id c" for c
      using twice_duplicated [OF that(1,2)] row that(3)
      by (auto simp: row_disabled_def chose_both_def split: option.splits)
    then have "alone ?C ((om_get (rv_decisions s))(sg_key c0 \<mapsto> d))"
      using False by (intro alone_choose_other [OF a inj c0]) auto
    then show ?thesis using False by (auto simp: choose_change_def Let_def)
  qed
qed

lemma initial_not_both:
  assumes "well_formed_preview p" and "om_get (initial_decisions p) k = Some d"
  shows "sd_choice d \<noteq> ChooseBoth"
proof -
  have "\<forall>k d. om_get (initial_decisions p) k = Some d \<longrightarrow> sd_choice d \<noteq> ChooseBoth"
    unfolding initial_decisions_def
    by (rule fold_keeps) (use assms(1) in \<open>auto simp: well_formed_preview_def list_all_iff split: option.splits\<close>)
  then show ?thesis using assms(2) by blast
qed

lemma alone_initial: "well_formed_preview p \<Longrightarrow> decided_alone (open_review a p)"
  using initial_not_both [of p] by (auto simp: open_review_def alone_def twice_def split: option.splits)

lemma review_frame:
  assumes "e \<noteq> ApproveClicked" and "\<And>i choice x. e \<noteq> ChooseRow i choice x"
  shows "rv_decisions (review_step e s) = rv_decisions s" and "rv_preview (review_step e s) = rv_preview s"
    and "ApproveSyncReview i ds \<in> set (rv_calls (review_step e s)) \<longleftrightarrow> ApproveSyncReview i ds \<in> set (rv_calls s)"
  using assms
  by (cases e; auto simp: cancel_review_def review_called_def resume_review_def split: review_wait.splits option.splits)+

definition sent_alone :: "sync_preview \<Rightarrow> sync_decision list \<Rightarrow> bool" where
  "sent_alone p ds \<longleftrightarrow> (\<exists>m. ds = map snd m \<and> decisions_ok p m \<and> alone (set (sp_changes p)) (om_get m))"

lemma sent_aloneI: "decisions_ok p m \<Longrightarrow> alone (set (sp_changes p)) (om_get m) \<Longrightarrow> sent_alone p (map snd m)"
  by (auto simp: sent_alone_def)

definition alone_inv :: "sync_preview \<Rightarrow> review_state \<Rightarrow> bool" where
  "alone_inv p s \<longleftrightarrow> review_inv p s \<and> decided_alone s \<and>
     (\<forall>i ds. ApproveSyncReview i ds \<in> set (rv_calls s) \<longrightarrow>
        sent_alone p ds)"

lemma alone_inv_step:
  assumes "well_formed_preview p" and "alone_inv p s"
  shows "alone_inv p (review_step e s)"
proof -
  have p: "rv_preview s = p" using assms(2) by (simp add: alone_inv_def review_inv_def)
  have inv: "review_inv p (review_step e s)"
    using assms(2) by (intro review_inv_step) (simp add: alone_inv_def)
  consider (row) i choice x where "e = ChooseRow i choice x" | (approve) "e = ApproveClicked"
    | (other) "e \<noteq> ApproveClicked" "\<And>i choice x. e \<noteq> ChooseRow i choice x" by blast
  then show ?thesis
  proof cases
    case (row i choice x)
    have "decided_alone (choose_row i choice x s)"
      using alone_choose [of s "sp_changes (rv_preview s) ! i"] assms p
      by (auto simp: choose_row_def Let_def alone_inv_def)
    moreover have "rv_calls (choose_row i choice x s) = rv_calls s"
      by (auto simp: choose_row_def choose_change_def Let_def)
    ultimately show ?thesis using inv assms(2) row by (auto simp: alone_inv_def)
  next
    case approve
    moreover have "sent_alone p (map snd (rv_decisions s))"
      using assms(2) p by (intro sent_aloneI) (simp_all add: alone_inv_def review_inv_def)
    ultimately show ?thesis using inv assms(2)
      by (auto simp: alone_inv_def approve_review_def review_called_def)
  next
    case other
    show ?thesis
      using inv assms(2) unfolding alone_inv_def review_frame(1,2) [OF other] by (simp add: review_frame(3) [OF other])
  qed
qed

text \<open>
  In a review whose changes have different keys and which suggests keeping both nowhere, an
  approval that keeps an entry twice decides that entry by this one choice alone: no decision of
  another field of the entry is sent with it, in whatever order the rows were clicked.
\<close>

theorem kept_twice_decides_alone:
  assumes "well_formed_preview p"
    and "ApproveSyncReview i ds \<in> set (rv_calls (run review_step es (open_review a p)))"
    and "c \<in> set (sp_changes p)" and "c' \<in> set (sp_changes p)" and "sg_entry_id c' = sg_entry_id c"
    and "d \<in> set ds" and "sd_key d = sg_key c" and "sd_choice d = ChooseBoth" and "sg_keep_both_entries c \<noteq> None"
    and "d' \<in> set ds" and "sd_key d' = sg_key c'"
  shows "c' = c \<and> d' = d"
proof -
  have "alone_inv p (run review_step es (open_review a p))"
  proof (induction es rule: rev_induct)
    case Nil
    then show ?case
      using alone_initial [OF assms(1)] review_inv_run [of p "[]" a]
      by (simp add: alone_inv_def open_review_def)
  next
    case (snoc e es)
    then show ?case using alone_inv_step [OF assms(1)] by simp
  qed
  with assms(2) obtain m where m: "ds = map snd m" "decisions_ok p m" "alone (set (sp_changes p)) (om_get m)"
    by (auto simp: alone_inv_def sent_alone_def)
  have got: "om_get m (sd_key x) = Some x" if "x \<in> set ds" for x
  proof -
    from that m(1) obtain k where k: "(k, x) \<in> set m" by auto
    moreover have "sd_key x = k" using decisions_key [OF m(2) k] by simp
    ultimately show ?thesis using m(2) by (simp add: decisions_ok_def)
  qed
  have "c' = c"
    using got [OF assms(6)] got [OF assms(10)] assms(3-5,7-9,11)
    by (intro aloneD [OF m(3), of c c']) (auto simp: twice_def)
  moreover have "d' = d" using got [OF assms(6)] got [OF assms(10)] assms(7,11) calculation by simp
  ultimately show ?thesis by blast
qed

text \<open>The demonstration review, decided by keeping its entry twice.\<close>

definition demo_both :: "dialog_event list" where
  "demo_both = [ChooseRow 1 ChooseRemote None, ApproveClicked, ChooseRow 0 ChooseBoth None, ChooseRow 1 ChooseLocal None,
     ApproveClicked]"

lemmas review_eval =
  demo_both_def review_demo_def open_review_def initial_decisions_def choose_row_def choose_change_def row_disabled_def
  row_offers_def duplicated_def unresolved_def chose_both_def approve_review_def review_called_def om_del_def Let_def

lemma demo_sends:
  "rv_calls (run review_step demo_both (open_review a review_demo)) =
     [ApproveSyncReview ''r1'' [\<lparr>sd_key = ''e1/notes'', sd_choice = ChooseBoth, sd_text = None\<rparr>]]"
  by (simp add: review_eval)

theorem approval_decides_conflicts_witness:
  "complete_approval review_demo [\<lparr>sd_key = ''e1/notes'', sd_choice = ChooseBoth, sd_text = None\<rparr>]"
  using approval_decides_conflicts [of "''r1''" _ demo_both "init_auth True" review_demo]
  by (simp add: demo_sends)

abbreviation demo_decision :: sync_decision where
  "demo_decision \<equiv> \<lparr>sd_key = ''e1/notes'', sd_choice = ChooseBoth, sd_text = None\<rparr>"

theorem kept_twice_decides_alone_witness:
  "well_formed_preview review_demo \<and>
   (hd (sp_changes review_demo) = sp_changes review_demo ! 0 \<and> demo_decision = demo_decision)"
proof (rule conjI)
  show wf: "well_formed_preview review_demo" by (simp add: review_demo_def well_formed_preview_def)
  have sent: "ApproveSyncReview ''r1'' [demo_decision] \<in> set (rv_calls (run review_step demo_both (open_review (init_auth True) review_demo)))"
    by (simp add: demo_sends)
  have c: "sp_changes review_demo ! 0 \<in> set (sp_changes review_demo)" "hd (sp_changes review_demo) \<in> set (sp_changes review_demo)"
    "sg_entry_id (hd (sp_changes review_demo)) = sg_entry_id (sp_changes review_demo ! 0)"
    "sg_key (sp_changes review_demo ! 0) = ''e1/notes''" "sg_key (hd (sp_changes review_demo)) = ''e1/notes''"
    "sg_keep_both_entries (sp_changes review_demo ! 0) \<noteq> None"
    by (simp_all add: review_demo_def)
  show "hd (sp_changes review_demo) = sp_changes review_demo ! 0 \<and> demo_decision = demo_decision"
    by (rule kept_twice_decides_alone [OF wf sent c(1-3)]) (simp_all add: c(4-6))
qed

section \<open>Two behaviours worth knowing\<close>

text \<open>
  Cancelling does not make the dialog busy: while a cancellation is under way the review can still be
  approved, and both requests reach the back end (lines 73 to 79).
\<close>

lemma approve_while_cancelling:
  "rv_calls (run review_step [ChooseRow 0 ChooseBoth None, CancelClicked, ApproveClicked] (open_review a review_demo)) =
     [CancelSyncReview, ApproveSyncReview ''r1'' [\<lparr>sd_key = ''e1/notes'', sd_choice = ChooseBoth, sd_text = None\<rparr>]]"
  by (simp add: review_eval cancel_review_def)

text \<open>
  The error of a failed reveal is never cleared: it stays below the row after the values have been
  revealed at the second attempt (lines 130 to 132).
\<close>

lemma reveal_keeps_old_error:
  "let s = run row_step [RevealClicked p k, SettleReveal 0 (Inl e), RevealClicked p k, SettleReveal 0 (Inr v)] (init_row (auth_step (SetIsLocked False) (init_auth True)))
   in rw_values s = Some v \<and> rw_error s = e"
  by (simp add: init_row_def reveal_def resume_reveal_def getSessionGeneration_def isSessionCurrent_def init_auth_def auth_defs)

end
