(* ===== verification/Qr_Decoder.thy ===== *)
theory Qr_Decoder
  imports Vault_Prelude Complex_Main
begin

text \<open>
  Reading a QR code from an image: \<open>utils/qrDecoder.ts\<close>. The platform is a parameter of the model:
  the browser's barcode detector, the decoding of an image file, the drawing of an image on a canvas
  and the library jsQR. What the source computes itself is here: the sizes it tries and their order,
  the canvas dimensions, the contrast treatment of the pixels and the treatment of every answer.

  Pixel arithmetic is exact; the source computes with double precision numbers, which can differ by one
  in a stored byte only where the exact value is half way between two bytes.
\<close>

section \<open>Data and platform\<close>

datatype qr_failure = NOT_FOUND | INVALID_IMAGE | EMPTY_FILE

record qr_result =
  qr_success :: bool
  qr_text :: "string option"
  qr_error :: "qr_failure option"
  qr_errorMessage :: "string option"

record qr_image =
  qi_naturalWidth :: nat
  qi_naturalHeight :: nat
  qi_width :: nat
  qi_height :: nat
  qi_content :: nat

text \<open>What can be passed in: a file or blob, an image element, an address, or nothing.\<close>

datatype qr_input = NoImage | BlobInput nat | ElementInput qr_image | AddressInput string

record detected_barcode =
  dc_rawValue :: "string option"

text \<open>
  The platform. A sum's left side is the message of an exception. \<open>pf_hasDetector\<close> says whether
  the window has a \<open>BarcodeDetector\<close>; \<open>pf_draw\<close> is \<open>drawImage\<close> followed by
  \<open>getImageData\<close>; \<open>pf_jsQR\<close> is the library on bytes, width and height.
\<close>

record qr_platform =
  pf_hasDetector :: bool
  pf_createImageBitmap :: "qr_input \<Rightarrow> string + nat"
  pf_detect :: "nat \<Rightarrow> string + detected_barcode list option"
  pf_loadImage :: "qr_input \<Rightarrow> string + qr_image"
  pf_hasContext :: bool
  pf_draw :: "qr_image \<Rightarrow> nat \<Rightarrow> nat \<Rightarrow> nat list"
  pf_jsQR :: "nat list \<Rightarrow> nat \<Rightarrow> nat \<Rightarrow> string option"

definition truthy_input :: "qr_input \<Rightarrow> bool" where
  "truthy_input i = (case i of NoImage \<Rightarrow> False | AddressInput u \<Rightarrow> u \<noteq> [] | _ \<Rightarrow> True)"

section \<open>The native detector\<close>

definition tryBarcodeDetector :: "qr_platform \<Rightarrow> nat \<Rightarrow> string option" where
  "tryBarcodeDetector pf bitmap =
     (if \<not> pf_hasDetector pf then None
      else case pf_detect pf bitmap of
             Inr (Some (b # _)) \<Rightarrow>
               (case dc_rawValue b of Some v \<Rightarrow> if v \<noteq> [] then Some (trim v) else None | None \<Rightarrow> None)
           | _ \<Rightarrow> None)"

text \<open>A text that is present and not empty, as the source's truth test of a string or null.\<close>

definition present :: "string option \<Rightarrow> string option" where
  "present r = (case r of Some v \<Rightarrow> if v = [] then None else Some v | None \<Rightarrow> None)"

definition detector_attempt :: "qr_platform \<Rightarrow> qr_input \<Rightarrow> string option" where
  "detector_attempt pf input =
     (if \<not> pf_hasDetector pf then None
      else case input of
             AddressInput _ \<Rightarrow> None
           | _ \<Rightarrow> (case pf_createImageBitmap pf input of
                    Inl _ \<Rightarrow> None
                  | Inr bitmap \<Rightarrow> present (tryBarcodeDetector pf bitmap)))"

section \<open>Sizes\<close>

definition or_zero :: "nat \<Rightarrow> nat \<Rightarrow> nat" where
  "or_zero a b = (if a \<noteq> 0 then a else b)"

definition origWidth :: "qr_image \<Rightarrow> nat" where
  "origWidth i = or_zero (qi_naturalWidth i) (qi_width i)"

definition origHeight :: "qr_image \<Rightarrow> nat" where
  "origHeight i = or_zero (qi_naturalHeight i) (qi_height i)"

text \<open>\<open>Math.round(a / b)\<close> of a quotient that is not negative.\<close>

definition round_div :: "nat \<Rightarrow> nat \<Rightarrow> nat" where
  "round_div a b = (2 * a + b) div (2 * b)"

definition scaled_size :: "nat \<Rightarrow> nat \<Rightarrow> nat \<Rightarrow> nat \<times> nat" where
  "scaled_size w h maxDimension =
     (if w > maxDimension \<or> h > maxDimension
      then (if w \<ge> h then (maxDimension, round_div (h * maxDimension) w)
            else (round_div (w * maxDimension) h, maxDimension))
      else (w, h))"

definition targetScales :: "nat \<Rightarrow> nat list" where
  "targetScales maxDim =
     (if maxDim > 1200 then [1024, 640, 1600] @ (if maxDim \<le> 2400 then [maxDim] else [])
      else if maxDim > 640 then [maxDim, 640, 1024]
      else [maxDim, 800])"

section \<open>Contrast\<close>

text \<open>What a clamped byte array stores for a number: the nearest byte, ties to the even one.\<close>

definition clamped_byte :: "rat \<Rightarrow> nat" where
  "clamped_byte x =
     (if x \<le> 0 then 0 else if x \<ge> 255 then 255
      else let f = floor x; r = x - of_int f
           in nat (if r < 1/2 \<or> r = 1/2 \<and> even f then f else f + 1))"

definition gray_of :: "nat \<Rightarrow> nat \<Rightarrow> nat \<Rightarrow> rat" where
  "gray_of r g b = 299/1000 * of_nat r + 587/1000 * of_nat g + 114/1000 * of_nat b"

definition contrast_of :: "rat \<Rightarrow> rat" where
  "contrast_of gray = min 255 (max 0 (14/10 * (gray - 128) + 128))"

fun boost_contrast :: "nat list \<Rightarrow> nat list" where
  "boost_contrast (r # g # b # a # px) =
     (let c = clamped_byte (contrast_of (gray_of r g b)) in c # c # c # a # boost_contrast px)"
| "boost_contrast px = px"

section \<open>Scanning\<close>

text \<open>
  \<open>getImageData\<close> of an area without width or height throws; its message is a parameter of the
  platform only through \<open>index_size_error\<close>.
\<close>

definition index_size_error :: string where
  "index_size_error = ''IndexSizeError''"

definition scanImageAtScale :: "qr_platform \<Rightarrow> qr_image \<Rightarrow> nat \<Rightarrow> bool \<Rightarrow> string + string option" where
  "scanImageAtScale pf img maxDimension applyContrast =
     (if origWidth img = 0 \<or> origHeight img = 0 then Inr None
      else let (width, height) = scaled_size (origWidth img) (origHeight img) maxDimension
           in if \<not> pf_hasContext pf then Inr None
              else if width = 0 \<or> height = 0 then Inl index_size_error
              else let d = pf_draw pf img width height;
                       d = (if applyContrast then boost_contrast d else d)
                   in case pf_jsQR pf d width height of
                        Some t \<Rightarrow> if t \<noteq> [] \<and> trim t \<noteq> [] then Inr (Some (trim t)) else Inr None
                      | None \<Rightarrow> Inr None)"

fun scan_scales :: "qr_platform \<Rightarrow> qr_image \<Rightarrow> nat list \<Rightarrow> string + string option" where
  "scan_scales pf img [] = Inr None"
| "scan_scales pf img (scale # scales) =
     (case scanImageAtScale pf img scale False of
        Inl e \<Rightarrow> Inl e
      | Inr (Some text) \<Rightarrow> Inr (Some text)
      | Inr None \<Rightarrow> scan_scales pf img scales)"

definition qr_ok :: "string \<Rightarrow> qr_result" where
  "qr_ok text = \<lparr>qr_success = True, qr_text = Some text, qr_error = None, qr_errorMessage = None\<rparr>"

definition qr_fail :: "qr_failure \<Rightarrow> string \<Rightarrow> qr_result" where
  "qr_fail e m = \<lparr>qr_success = False, qr_text = None, qr_error = Some e, qr_errorMessage = Some m\<rparr>"

definition maxDim :: "qr_image \<Rightarrow> nat" where
  "maxDim img = max (origWidth img) (origHeight img)"

definition decode_element :: "qr_platform \<Rightarrow> qr_image \<Rightarrow> qr_result" where
  "decode_element pf img =
     (if origWidth img = 0 \<or> origHeight img = 0
      then qr_fail INVALID_IMAGE ''Could not load image dimensions''
      else case scan_scales pf img (targetScales (maxDim img)) of
             Inl e \<Rightarrow> qr_fail INVALID_IMAGE e
           | Inr (Some text) \<Rightarrow> qr_ok text
           | Inr None \<Rightarrow>
               (case scanImageAtScale pf img (min (maxDim img) 1024) True of
                  Inl e \<Rightarrow> qr_fail INVALID_IMAGE e
                | Inr (Some text) \<Rightarrow> qr_ok text
                | Inr None \<Rightarrow> qr_fail NOT_FOUND ''No valid QR code was detected in the image''))"

definition decodeQrFromImage :: "qr_platform \<Rightarrow> qr_input \<Rightarrow> qr_result" where
  "decodeQrFromImage pf input =
     (if \<not> truthy_input input then qr_fail EMPTY_FILE ''No image provided''
      else case detector_attempt pf input of
             Some text \<Rightarrow> qr_ok text
           | None \<Rightarrow>
               (case input of
                  ElementInput img \<Rightarrow> decode_element pf img
                | _ \<Rightarrow> (case pf_loadImage pf input of
                         Inl e \<Rightarrow> qr_fail INVALID_IMAGE e
                       | Inr img \<Rightarrow> decode_element pf img)))"

section \<open>The canvases\<close>

lemma round_div_le: "a * m \<le> b * n \<Longrightarrow> 0 < n \<Longrightarrow> round_div (a * m) n \<le> b"
proof -
  assume le: "a * m \<le> b * n" and n: "0 < n"
  then have "2 * (a * m) + n < Suc b * (2 * n)" by (simp add: algebra_simps)
  then have "round_div (a * m) n < Suc b"
    unfolding round_div_def using n by (simp add: less_mult_imp_div_less)
  then show "round_div (a * m) n \<le> b" by simp
qed

lemma scaled_size_bounds:
  assumes "scaled_size w h m = (w', h')"
  shows "w' \<le> w" and "h' \<le> h" and "w' \<le> m" and "h' \<le> m"
proof -
  have "round_div (h * m) w \<le> h \<and> round_div (h * m) w \<le> m" if "m < w" "h \<le> w"
    using that by (intro conjI round_div_le) (simp_all add: mult.commute mult_le_mono)
  moreover have "round_div (w * m) h \<le> w \<and> round_div (w * m) h \<le> m" if "m < h" "w \<le> h"
    using that by (intro conjI round_div_le) (simp_all add: mult.commute mult_le_mono)
  ultimately have "w' \<le> w \<and> h' \<le> h \<and> w' \<le> m \<and> h' \<le> m"
    using assms by (auto simp: scaled_size_def split: if_splits)
  then show "w' \<le> w" and "h' \<le> h" and "w' \<le> m" and "h' \<le> m" by blast+
qed

lemma scaled_size_id: "w \<le> m \<Longrightarrow> h \<le> m \<Longrightarrow> scaled_size w h m = (w, h)"
  by (simp add: scaled_size_def)

lemma targetScales_bound: "x \<in> set (targetScales m) \<Longrightarrow> x \<le> 2400"
  by (auto simp: targetScales_def split: if_splits)

text \<open>Two platforms that draw alike on canvases within the bounds.\<close>

definition draws_alike :: "qr_platform \<Rightarrow> (qr_image \<Rightarrow> nat \<Rightarrow> nat \<Rightarrow> nat list) \<Rightarrow> bool" where
  "draws_alike pf draw \<longleftrightarrow>
     (\<forall>img w h. 0 < w \<and> w \<le> origWidth img \<and> w \<le> 2400 \<and> 0 < h \<and> h \<le> origHeight img \<and> h \<le> 2400 \<longrightarrow>
        draw img w h = pf_draw pf img w h)"

lemma scan_alike:
  assumes "draws_alike pf draw" and "m \<le> 2400"
  shows "scanImageAtScale (pf\<lparr>pf_draw := draw\<rparr>) img m c = scanImageAtScale pf img m c"
proof (cases "scaled_size (origWidth img) (origHeight img) m")
  case (Pair w h)
  note b = scaled_size_bounds [OF Pair]
  have "draw img w h = pf_draw pf img w h" if "0 < w" "0 < h"
    using assms(1) that b assms(2) by (simp add: draws_alike_def)
  then show ?thesis by (simp add: scanImageAtScale_def Pair)
qed

lemma scan_scales_alike:
  assumes "draws_alike pf draw"
  shows "(\<And>m. m \<in> set ms \<Longrightarrow> m \<le> 2400) \<Longrightarrow> scan_scales (pf\<lparr>pf_draw := draw\<rparr>) img ms = scan_scales pf img ms"
  by (induction ms) (auto simp: scan_alike [OF assms] split: sum.split option.split)

lemma decode_element_alike:
  "draws_alike pf draw \<Longrightarrow> decode_element (pf\<lparr>pf_draw := draw\<rparr>) img = decode_element pf img"
  by (auto simp: decode_element_def scan_alike scan_scales_alike targetScales_bound split: sum.split option.split)

lemma detector_alike: "detector_attempt (pf\<lparr>pf_draw := draw\<rparr>) input = detector_attempt pf input"
proof -
  have "tryBarcodeDetector (pf\<lparr>pf_draw := draw\<rparr>) b = tryBarcodeDetector pf b" for b
    by (simp add: tryBarcodeDetector_def)
  then show ?thesis by (auto simp: detector_attempt_def split: qr_input.split sum.split)
qed

text \<open>
  Decoding never asks for a canvas that is wider or higher than the image, or than 2400
  pixels: a platform that draws anything else on larger canvases gives the same result.
\<close>

theorem decode_canvas_bound:
  assumes "\<And>img w h. 0 < w \<Longrightarrow> w \<le> origWidth img \<Longrightarrow> w \<le> 2400 \<Longrightarrow> 0 < h \<Longrightarrow> h \<le> origHeight img \<Longrightarrow> h \<le> 2400 \<Longrightarrow>
             draw img w h = pf_draw pf img w h"
  shows "decodeQrFromImage (pf\<lparr>pf_draw := draw\<rparr>) input = decodeQrFromImage pf input"
proof -
  have alike: "draws_alike pf draw" using assms by (simp add: draws_alike_def)
  show ?thesis
    by (auto simp: decodeQrFromImage_def decode_element_alike [OF alike] detector_alike
        split: option.split qr_input.split sum.split)
qed

section \<open>What is read\<close>

text \<open>The attempts on an image, in order; the first that reads a text decides.\<close>

definition attempts :: "nat \<Rightarrow> (nat \<times> bool) list" where
  "attempts m = map (\<lambda>s. (s, False)) (targetScales m) @ [(min m 1024, True)]"

definition reads :: "qr_platform \<Rightarrow> qr_image \<Rightarrow> nat \<times> bool \<Rightarrow> string option" where
  "reads pf img a =
     (let (w, h) = scaled_size (origWidth img) (origHeight img) (fst a); d = pf_draw pf img w h
      in case pf_jsQR pf (if snd a then boost_contrast d else d) w h of
           Some t \<Rightarrow> present (Some (trim t)) | None \<Rightarrow> None)"

definition first_read :: "qr_platform \<Rightarrow> qr_image \<Rightarrow> qr_result" where
  "first_read pf img =
     (case List.map_filter (reads pf img) (attempts (maxDim img)) of
        text # _ \<Rightarrow> qr_ok text
      | [] \<Rightarrow> qr_fail NOT_FOUND ''No valid QR code was detected in the image'')"

lemma scan_reads:
  assumes "pf_hasContext pf" and "origWidth img \<noteq> 0" and "origHeight img \<noteq> 0"
    and "scaled_size (origWidth img) (origHeight img) m = (w, h)" and "w \<noteq> 0" and "h \<noteq> 0"
  shows "scanImageAtScale pf img m c = Inr (reads pf img (m, c))"
  using assms by (auto simp: scanImageAtScale_def reads_def present_def Let_def split: option.split)

text \<open>No canvas of the attempts is empty.\<close>

definition solid :: "qr_image \<Rightarrow> bool" where
  "solid img \<longleftrightarrow> origWidth img \<noteq> 0 \<and> origHeight img \<noteq> 0 \<and>
     list_all (\<lambda>(m, c). case scaled_size (origWidth img) (origHeight img) m of (w, h) \<Rightarrow> w \<noteq> 0 \<and> h \<noteq> 0)
       (attempts (maxDim img))"

lemma solid_scan:
  assumes "pf_hasContext pf" and "solid img" and "(m, c) \<in> set (attempts (maxDim img))"
  shows "scanImageAtScale pf img m c = Inr (reads pf img (m, c))"
proof -
  obtain w h where s: "scaled_size (origWidth img) (origHeight img) m = (w, h)" by fastforce
  then have "w \<noteq> 0" "h \<noteq> 0" using assms(2,3) by (auto simp: solid_def list_all_iff)
  then show ?thesis using assms(2) by (intro scan_reads [OF assms(1) _ _ s]) (simp_all add: solid_def)
qed

lemma scan_scales_first:
  "(\<And>m. m \<in> set ms \<Longrightarrow> scanImageAtScale pf img m False = Inr (reads pf img (m, False))) \<Longrightarrow>
   scan_scales pf img ms =
     Inr (case List.map_filter (reads pf img) (map (\<lambda>m. (m, False)) ms) of [] \<Rightarrow> None | t # _ \<Rightarrow> Some t)"
  by (induction ms) (auto simp: List.map_filter_simps split: option.split)

lemma filter_reads_append:
  "List.map_filter f (xs @ ys) = List.map_filter f xs @ List.map_filter f ys"
  by (induction xs) (auto simp: List.map_filter_simps split: option.split)

text \<open>
  The same in other words, without the code's own sizes, rounding and byte arithmetic. A canvas keeps the
  proportions: the longer side is the limit, the other the nearest whole number, halves rounded up.
\<close>

definition fitted :: "nat \<Rightarrow> nat \<Rightarrow> nat \<Rightarrow> nat \<times> nat" where
  "fitted w h m =
     (if max w h \<le> m then (w, h)
      else (nat (round (real w * real m / real (max w h))), nat (round (real h * real m / real (max w h)))))"

definition sizes :: "nat \<Rightarrow> nat list" where
  "sizes m = (if 2400 < m then [1024, 640, 1600] else if 1200 < m then [1024, 640, 1600, m]
              else if 640 < m then [m, 640, 1024] else [m, 800])"

text \<open>
  The contrast treatment of RGBA bytes: each colour byte becomes the grey of its pixel, stretched by two fifths
  around the middle and cut to the range of a byte, rounded to the nearest byte and to the even one of two;
  the opacity stays, as do bytes after the last whole pixel.
\<close>

definition stretched :: "nat \<Rightarrow> nat \<Rightarrow> nat \<Rightarrow> rat" where
  "stretched r g b = min 255 (max 0 (7/5 * ((299 * of_nat r + 587 * of_nat g + 114 * of_nat b) / 1000 - 128) + 128))"

definition nearest_byte :: "rat \<Rightarrow> nat \<Rightarrow> bool" where
  "nearest_byte x b \<longleftrightarrow> \<bar>of_nat b - x\<bar> \<le> 1/2 \<and> (\<bar>of_nat b - x\<bar> = 1/2 \<longrightarrow> even b)"

definition contrasted :: "nat list \<Rightarrow> nat list \<Rightarrow> bool" where
  "contrasted px out \<longleftrightarrow> length out = length px \<and>
     (\<forall>i < length px. let k = 4 * (i div 4) in
        if i mod 4 = 3 \<or> length px < k + 4 then out ! i = px ! i
        else nearest_byte (stretched (px ! k) (px ! (k + 1)) (px ! (k + 2))) (out ! i))"

lemma round_div_round: "0 < b \<Longrightarrow> round_div a b = nat (round (real a / real b))"
proof -
  assume b: "0 < b"
  then have "real a / real b + 1/2 = real (2 * a + b) / real (2 * b)" by (simp add: field_simps)
  then show ?thesis by (simp add: round_div_def round_def floor_divide_of_nat_eq del: of_nat_add of_nat_mult)
qed

lemma scaled_fitted: "0 < w \<Longrightarrow> 0 < h \<Longrightarrow> scaled_size w h m = fitted w h m"
  using round_div_round [of w "h * m"] round_div_round [of h "w * m"]
  by (auto simp: scaled_size_def fitted_def max_def)

lemma targetScales_sizes: "targetScales m = sizes m"
  by (simp add: targetScales_def sizes_def)

lemma clamped_nearest: "0 \<le> x \<Longrightarrow> x \<le> 255 \<Longrightarrow> nearest_byte x (clamped_byte x)"
proof -
  assume x: "0 \<le> x" "x \<le> 255"
  define f where "f = floor x"
  have f: "of_int f \<le> x" "x < of_int f + 1" "0 \<le> f" using x floor_correct [of x] by (simp_all add: f_def)
  have nat: "(of_nat (nat y) :: rat) = of_int y" "even (nat y) = even y" if "0 \<le> y" for y
    using that by (simp_all add: even_nat_iff)
  show ?thesis using x f nat [of f] nat [of "f + 1"]
    by (auto simp: clamped_byte_def nearest_byte_def Let_def abs_if simp flip: f_def)
qed

lemma stretched_contrast: "contrast_of (gray_of r g b) = stretched r g b"
  by (simp add: contrast_of_def gray_of_def stretched_def field_simps)

lemma stretched_range: "0 \<le> stretched r g b" "stretched r g b \<le> 255"
  by (simp_all add: stretched_def)

lemma contrasted_pixel:
  assumes c: "c = clamped_byte (contrast_of (gray_of r g b))" and IH: "contrasted px out"
  shows "contrasted (r # g # b # a # px) (c # c # c # a # out)"
proof -
  have near: "nearest_byte (stretched r g b) c"
    using clamped_nearest [OF stretched_range] by (simp add: c stretched_contrast)
  have "let k = 4 * (i div 4) in
        if i mod 4 = 3 \<or> length (r # g # b # a # px) < k + 4
        then (c # c # c # a # out) ! i = (r # g # b # a # px) ! i
        else nearest_byte (stretched ((r # g # b # a # px) ! k) ((r # g # b # a # px) ! (k + 1)) ((r # g # b # a # px) ! (k + 2)))
               ((c # c # c # a # out) ! i)" if "i < length (r # g # b # a # px)" for i
  proof (cases "i < 4")
    case True
    then have "i = 0 \<or> i = 1 \<or> i = 2 \<or> i = 3" by auto
    then show ?thesis using near by auto
  next
    case False
    then obtain j where j: "i = j + 4" using le_Suc_ex [of 4 i] by (auto simp: add.commute)
    then have "j < length px" using that by simp
    with IH have "if j mod 4 = 3 \<or> length px < 4 * (j div 4) + 4 then out ! j = px ! j
        else nearest_byte (stretched (px ! (4 * (j div 4))) (px ! (4 * (j div 4) + 1)) (px ! (4 * (j div 4) + 2))) (out ! j)"
      unfolding contrasted_def Let_def by blast
    then show ?thesis by (simp add: Let_def j add.commute [of 4] flip: Suc_eq_plus1 cong: if_cong)
  qed
  then show ?thesis using IH by (simp add: contrasted_def)
qed

lemma contrasted_short: "length px < 4 \<Longrightarrow> contrasted px px"
  by (simp add: contrasted_def Let_def)

lemma contrasted_boost: "contrasted px (boost_contrast px)"
proof (induction px rule: boost_contrast.induct)
  case (1 r g b a px)
  from contrasted_pixel [OF refl this] show ?case by (simp add: Let_def)
qed (simp_all add: contrasted_short)

text \<open>No canvas is empty when neither side is more than 1280 times the other.\<close>

lemma scaled_nonzero:
  assumes "0 < w" "0 < h" "w \<le> 2 * m * h" "h \<le> 2 * m * w" "0 < m"
  shows "case scaled_size w h m of (w', h') \<Rightarrow> w' \<noteq> 0 \<and> h' \<noteq> 0"
proof -
  have "round_div (a * m) b \<noteq> 0" if "b \<le> 2 * m * a" "0 < b" for a b
    using that by (auto simp: round_div_def div_eq_0_iff mult_ac)
  then show ?thesis using assms by (auto simp: scaled_size_def)
qed

lemma solid_sides:
  assumes "0 < origWidth img" "0 < origHeight img"
    and "origWidth img \<le> 1280 * origHeight img" "origHeight img \<le> 1280 * origWidth img"
  shows "solid img"
proof -
  let ?w = "origWidth img" and ?h = "origHeight img"
  have big: "case scaled_size ?w ?h m of (w', h') \<Rightarrow> w' \<noteq> 0 \<and> h' \<noteq> 0" if "640 \<le> m" for m
  proof -
    have "1280 * x \<le> 2 * m * x" for x using that by (intro mult_le_mono1) simp
    from le_trans [OF assms(3) this] le_trans [OF assms(4) this] show ?thesis
      using assms(1,2) that by (intro scaled_nonzero) simp_all
  qed
  have all: "case scaled_size ?w ?h m of (w', h') \<Rightarrow> w' \<noteq> 0 \<and> h' \<noteq> 0" if "640 \<le> m \<or> maxDim img \<le> m" for m
    using that big [of m] assms(1,2) by (auto simp: maxDim_def scaled_size_id)
  have "640 \<le> m \<or> maxDim img \<le> m" if "(m, c) \<in> set (attempts (maxDim img))" for m c
    using that by (auto simp: attempts_def targetScales_def split: if_splits)
  with all assms(1,2) show ?thesis by (fastforce simp: solid_def list_all_iff)
qed

text \<open>
  Claim C31. On an image whose sides are given, neither more than 1280 times the other, and with a
  canvas to draw on, the decoder gives the text of the first attempt in which the library reads more
  than blanks: the sizes 1024, 640, 1600 (and the image's own up to 2400) for a large image, its own, 640 and
  1024 for one up to 1200, its own and 800 for one up to 640, each on the drawn pixels, and last at
  most 1024 on pixels with the contrast treatment; otherwise it says that nothing was found.
\<close>

theorem decode_element_first_read:
  assumes "pf_hasContext pf" and "0 < origWidth img" and "0 < origHeight img"
    and "origWidth img \<le> 1280 * origHeight img" and "origHeight img \<le> 1280 * origWidth img"
  shows "\<exists>treat. (\<forall>px. contrasted px (treat px)) \<and>
    decode_element pf img =
      (let W = origWidth img; H = origHeight img
       in case List.map_filter
            (\<lambda>(m, contrast). let (w, h) = fitted W H m; d = pf_draw pf img w h
                in Option.bind (pf_jsQR pf (if contrast then treat d else d) w h)
                     (\<lambda>t. if trim t = [] then None else Some (trim t)))
            (map (\<lambda>m. (m, False)) (sizes (max W H)) @ [(min (max W H) 1024, True)]) of
          text # _ \<Rightarrow> qr_ok text
        | [] \<Rightarrow> qr_fail NOT_FOUND ''No valid QR code was detected in the image'')"
proof -
  have solid: "solid img" by (rule solid_sides [OF assms(2-5)])
  let ?M = "maxDim img"
  have scales: "scan_scales pf img (targetScales ?M) =
      Inr (case List.map_filter (reads pf img) (map (\<lambda>m. (m, False)) (targetScales ?M)) of [] \<Rightarrow> None | t # _ \<Rightarrow> Some t)"
    by (rule scan_scales_first) (rule solid_scan [OF assms(1) solid], simp add: attempts_def)
  have last: "scanImageAtScale pf img (min ?M 1024) True = Inr (reads pf img (min ?M 1024, True))"
    by (rule solid_scan [OF assms(1) solid]) (simp add: attempts_def)
  have first: "decode_element pf img = first_read pf img"
    using solid
    by (simp add: decode_element_def first_read_def scales last attempts_def solid_def filter_reads_append
        List.map_filter_simps split: list.split option.split)
  have reads: "reads pf img = (\<lambda>(m, contrast). let (w, h) = fitted (origWidth img) (origHeight img) m; d = pf_draw pf img w h
      in Option.bind (pf_jsQR pf (if contrast then boost_contrast d else d) w h)
           (\<lambda>t. if trim t = [] then None else Some (trim t)))"
    by (auto simp: reads_def present_def fun_eq_iff scaled_fitted [OF assms(2,3)] Let_def split: option.split prod.split)
  show ?thesis
    unfolding first first_read_def attempts_def reads targetScales_sizes maxDim_def Let_def
    by (rule exI [of _ boost_contrast]) (simp add: contrasted_boost)
qed

lemma scan_text: "scanImageAtScale pf img m c = Inr (Some t) \<Longrightarrow> t \<noteq> [] \<and> trim t = t"
  by (auto simp: scanImageAtScale_def Let_def split: if_splits prod.splits option.splits)

lemma scan_scales_text: "scan_scales pf img ms = Inr (Some t) \<Longrightarrow> t \<noteq> [] \<and> trim t = t"
  by (induction ms) (auto dest: scan_text split: sum.splits option.splits)

lemma detector_text: "detector_attempt pf input = Some t \<Longrightarrow> t \<noteq> [] \<and> trim t = t"
  by (auto simp: detector_attempt_def present_def tryBarcodeDetector_def
      split: if_splits qr_input.splits sum.splits option.splits list.splits)

definition clean_result :: "qr_result \<Rightarrow> bool" where
  "clean_result r \<longleftrightarrow>
     (case qr_text r of
        Some t \<Rightarrow> qr_success r \<and> t \<noteq> [] \<and> trim t = t \<and> qr_error r = None
      | None \<Rightarrow> \<not> qr_success r \<and> qr_error r \<noteq> None)"

lemma clean_results:
  "clean_result (qr_fail e m)" "t \<noteq> [] \<Longrightarrow> trim t = t \<Longrightarrow> clean_result (qr_ok t)"
  by (simp_all add: clean_result_def qr_fail_def qr_ok_def)

lemma decode_element_clean: "clean_result (decode_element pf img)"
  by (auto simp: decode_element_def intro!: clean_results dest: scan_text scan_scales_text split: sum.split option.split)

text \<open>
  Whatever the platform answers, the result is one of two kinds: a success with a text that is
  not empty and has no blanks around it, or a failure with its error and without a text.
\<close>

theorem decode_result_clean: "clean_result (decodeQrFromImage pf input)"
  by (auto simp: decodeQrFromImage_def decode_element_clean intro!: clean_results dest: detector_text
      split: option.split qr_input.split sum.split)

section \<open>Contrast\<close>

lemma clamped_byte_le: "clamped_byte x \<le> 255"
proof -
  have "nat \<lfloor>x\<rfloor> \<le> 254" if "x < 255" using that by linarith
  then show ?thesis by (auto simp: clamped_byte_def Let_def)
qed

lemma contrast_mono: "x \<le> y \<Longrightarrow> contrast_of x \<le> contrast_of y"
  unfolding contrast_of_def by (intro min.mono max.mono order_refl) simp

text \<open>
  The treatment keeps the length and every fourth byte (the opacity), and makes the other three of a
  pixel equal.
\<close>

lemma boost_contrast_shape:
  "length (boost_contrast px) = length px"
  "i < length px div 4 \<Longrightarrow>
     boost_contrast px ! (4 * i + 3) = px ! (4 * i + 3) \<and> boost_contrast px ! (4 * i) \<le> 255 \<and>
     boost_contrast px ! (4 * i + 1) = boost_contrast px ! (4 * i) \<and>
     boost_contrast px ! (4 * i + 2) = boost_contrast px ! (4 * i)"
proof (induction px arbitrary: i rule: boost_contrast.induct)
  case (1 r g b a px)
  {
    case 1
    then show ?case using "1.IH"(1) by (simp add: Let_def)
  next
    case 2
    then show ?case
      using "1.IH"(2) [OF refl, of "i - 1"] by (cases i) (simp_all add: Let_def clamped_byte_le add.commute)
  }
qed simp_all

section \<open>Two behaviours worth knowing\<close>

text \<open>
  The second size tried for a small image is larger than the image, but a canvas is never larger than
  the image: the second scan repeats the first (lines 203 to 206 and 92).
\<close>

lemma second_scan_repeats:
  "maxDim img \<le> 640 \<Longrightarrow> scanImageAtScale pf img 800 c = scanImageAtScale pf img (maxDim img) c"
  by (simp add: scanImageAtScale_def scaled_size_id maxDim_def)

text \<open>
  An image more than 2048 times as wide as it is high gets a canvas without height: the exception makes
  the result \<open>INVALID_IMAGE\<close>, not \<open>NOT_FOUND\<close> (lines 95 and 109).
\<close>

lemma thin_image_invalid:
  assumes "pf_hasContext pf" and "origWidth img = 4000" and "origHeight img = 1"
  shows "decode_element pf img = qr_fail INVALID_IMAGE index_size_error"
  using assms by (simp add: decode_element_def targetScales_def maxDim_def scanImageAtScale_def scaled_size_def round_div_def)

section \<open>A platform to try it on\<close>

definition demo_image :: qr_image where
  "demo_image = \<lparr>qi_naturalWidth = 3000, qi_naturalHeight = 4000, qi_width = 0, qi_height = 0, qi_content = 7\<rparr>"

text \<open>The library reads a text on canvases of 640 pixels only.\<close>

definition demo_platform :: qr_platform where
  "demo_platform = \<lparr>pf_hasDetector = False, pf_createImageBitmap = (\<lambda>_. Inl []), pf_detect = (\<lambda>_. Inr None),
     pf_loadImage = (\<lambda>_. Inr demo_image), pf_hasContext = True, pf_draw = (\<lambda>img w h. [w, h, qi_content img]),
     pf_jsQR = (\<lambda>d w h. if d = [480, 640, 7] then Some '' otpauth:x '' else None)\<rparr>"

lemmas qr_eval =
  demo_platform_def demo_image_def origWidth_def origHeight_def or_zero_def maxDim_def targetScales_def
  scaled_size_def round_div_def scanImageAtScale_def decode_element_def trim_def trim_start_def trim_end_def is_ws_def

theorem decode_canvas_bound_witness:
  "decodeQrFromImage (demo_platform\<lparr>pf_draw := \<lambda>img w h. if w \<le> 2400 \<and> h \<le> 2400 then [w, h, qi_content img] else []\<rparr>)
     (ElementInput demo_image) = qr_ok ''otpauth:x''"
proof -
  have "decodeQrFromImage (demo_platform\<lparr>pf_draw := \<lambda>img w h. if w \<le> 2400 \<and> h \<le> 2400 then [w, h, qi_content img] else []\<rparr>)
          (ElementInput demo_image) = decodeQrFromImage demo_platform (ElementInput demo_image)"
    by (rule decode_canvas_bound) (simp add: demo_platform_def)
  also have "\<dots> = qr_ok ''otpauth:x''"
    by (simp add: decodeQrFromImage_def truthy_input_def detector_attempt_def qr_eval)
  finally show ?thesis .
qed

theorem decode_element_first_read_witness:
  "decode_element demo_platform demo_image = qr_ok ''otpauth:x'' \<and> sizes 4000 = [1024, 640, 1600] \<and> fitted 3000 4000 640 = (480, 640)"
proof -
  have dims: "origWidth demo_image = 3000" "origHeight demo_image = 4000" by (simp_all add: qr_eval)
  have fit: "fitted 3000 4000 1024 = (768, 1024)" "fitted 3000 4000 640 = (480, 640)" "sizes 4000 = [1024, 640, 1600]"
    by (simp_all add: fitted_def sizes_def flip: scaled_fitted)
  have "pf_hasContext demo_platform" by (simp add: qr_eval)
  from decode_element_first_read [OF this, of demo_image] obtain treat where
    "decode_element demo_platform demo_image =
      (case List.map_filter
            (\<lambda>(m, contrast). let (w, h) = fitted 3000 4000 m; d = pf_draw demo_platform demo_image w h
                in Option.bind (pf_jsQR demo_platform (if contrast then treat d else d) w h)
                     (\<lambda>t. if trim t = [] then None else Some (trim t)))
            [(1024, False), (640, False), (1600, False), (1024, True)] of
          text # _ \<Rightarrow> qr_ok text
        | [] \<Rightarrow> qr_fail NOT_FOUND ''No valid QR code was detected in the image'')"
    unfolding dims by (auto simp: Let_def fit(3))
  then have "decode_element demo_platform demo_image = qr_ok ''otpauth:x''"
    by (simp add: List.map_filter_simps fit) (simp add: qr_eval List.map_filter_simps)
  with fit show ?thesis by simp
qed

end
