(* ===== verification/Qr_Scanner.thy ===== *)
theory Qr_Scanner
  imports Qr_Decoder Vault_Types
begin

text \<open>
  The scanner dialog: \<open>features/sync/components/QrScannerModal.tsx\<close>. The state is that of the component and
  its references, with the camera streams that have been handed out and not been stopped. The video
  element, the detector and jsQR answer through events.
\<close>

section \<open>State\<close>

record media_device =
  md_id :: string
  md_label :: string
  md_video :: bool

record scanner_state =
  sn_mounted :: bool
  sn_open :: bool
  sn_prefix :: string
  sn_hasVideo :: bool
  sn_error :: "string option"
  sn_cameras :: "media_device list"
  sn_selected :: string
  sn_isScanning :: bool
  sn_decoding :: bool
  sn_success :: bool
  sn_stream :: "nat option"
  sn_frame :: bool
  sn_hasScanned :: bool
  sn_request :: nat
  sn_timer :: "string option"
  sn_streams :: "nat list"
  sn_granted :: nat
  sn_media :: "nat list"
  sn_plays :: "nat list"
  sn_detects :: "nat list"
  sn_decodes :: "nat list"
  sn_enumerations :: "string list"
  sn_scanned :: "string list"

definition init_scanner :: "string \<Rightarrow> scanner_state" where
  "init_scanner p =
     \<lparr>sn_mounted = True, sn_open = False, sn_prefix = p, sn_hasVideo = True, sn_error = None, sn_cameras = [],
      sn_selected = [], sn_isScanning = True, sn_decoding = False, sn_success = False, sn_stream = None,
      sn_frame = False, sn_hasScanned = False, sn_request = 0, sn_timer = None, sn_streams = [], sn_granted = 0,
      sn_media = [], sn_plays = [], sn_detects = [], sn_decodes = [], sn_enumerations = [], sn_scanned = []\<rparr>"

definition expected_prefix :: string where
  "expected_prefix = ''yntrapair://''"

definition isValidPayload :: "scanner_state \<Rightarrow> string \<Rightarrow> bool" where
  "isValidPayload s payload \<longleftrightarrow>
     sn_prefix s = [] \<or> starts_with (to_lower (trim payload)) (to_lower (sn_prefix s))"

definition drop_nth :: "nat \<Rightarrow> 'a list \<Rightarrow> 'a list" where
  "drop_nth i xs = take i xs @ drop (Suc i) xs"

section \<open>The camera\<close>

definition stop_stream :: "nat \<Rightarrow> scanner_state \<Rightarrow> scanner_state" where
  "stop_stream n s = s\<lparr>sn_streams := filter (\<lambda>m. m \<noteq> n) (sn_streams s)\<rparr>"

definition stopCamera :: "scanner_state \<Rightarrow> scanner_state" where
  "stopCamera s =
     (let s = s\<lparr>sn_request := Suc (sn_request s), sn_timer := None, sn_frame := False\<rparr>
      in case sn_stream s of None \<Rightarrow> s | Some n \<Rightarrow> (stop_stream n s)\<lparr>sn_stream := None\<rparr>)"

definition handleSuccess :: "string \<Rightarrow> scanner_state \<Rightarrow> scanner_state" where
  "handleSuccess payload s =
     (if sn_hasScanned s then s
      else (stopCamera (s\<lparr>sn_hasScanned := True, sn_success := True\<rparr>))\<lparr>sn_timer := Some payload\<rparr>)"

definition startCamera :: "scanner_state \<Rightarrow> scanner_state" where
  "startCamera s =
     (let s = stopCamera s; s = s\<lparr>sn_request := Suc (sn_request s), sn_hasScanned := False\<rparr>
      in s\<lparr>sn_media := sn_media s @ [sn_request s]\<rparr>)"

text \<open>The effect on \<open>isOpen\<close>, the selected camera and the identity of \<open>startCamera\<close>: clean-up, then start or stop.\<close>

definition camera_effect :: "scanner_state \<Rightarrow> scanner_state" where
  "camera_effect s =
     (let s = stopCamera s
      in if sn_open s then startCamera (s\<lparr>sn_hasScanned := False\<rparr>) else stopCamera s)"

definition set_open :: "bool \<Rightarrow> scanner_state \<Rightarrow> scanner_state" where
  "set_open b s = (if b = sn_open s then s else camera_effect (s\<lparr>sn_open := b\<rparr>))"

definition select_camera :: "string \<Rightarrow> scanner_state \<Rightarrow> scanner_state" where
  "select_camera c s = (if c = sn_selected s then s else camera_effect (s\<lparr>sn_selected := c\<rparr>))"

definition camera_failed :: "bool \<Rightarrow> scanner_state \<Rightarrow> scanner_state" where
  "camera_failed denied s =
     (stopCamera s)\<lparr>sn_isScanning := False,
        sn_error := Some (if denied then ''pairing.err_camera_permission'' else ''pairing.err_camera_init'')\<rparr>"

text \<open>\<open>getUserMedia\<close> settles: with a new stream, or refused (denied or otherwise).\<close>

definition media_settled :: "nat \<Rightarrow> bool option \<Rightarrow> scanner_state \<Rightarrow> scanner_state" where
  "media_settled k refused s =
     (if length (sn_media s) \<le> k then s
      else let request = sn_media s ! k; s = s\<lparr>sn_media := drop_nth k (sn_media s)\<rparr>
           in case refused of
                Some denied \<Rightarrow> if request \<noteq> sn_request s then s else camera_failed denied s
              | None \<Rightarrow>
                  let stream = sn_granted s;
                      s = s\<lparr>sn_granted := Suc (sn_granted s), sn_streams := sn_streams s @ [stream]\<rparr>
                  in if request \<noteq> sn_request s then stop_stream stream s
                     else let s = s\<lparr>sn_stream := Some stream, sn_error := None, sn_isScanning := True, sn_success := False\<rparr>
                          in if sn_hasVideo s then s\<lparr>sn_plays := sn_plays s @ [request]\<rparr> else s)"

definition play_settled :: "nat \<Rightarrow> bool \<Rightarrow> scanner_state \<Rightarrow> scanner_state" where
  "play_settled k ok s =
     (if length (sn_plays s) \<le> k then s
      else let request = sn_plays s ! k; s = s\<lparr>sn_plays := drop_nth k (sn_plays s)\<rparr>
           in if request \<noteq> sn_request s then s
              else if ok then s\<lparr>sn_enumerations := sn_enumerations s @ [sn_selected s], sn_frame := True\<rparr>
              else camera_failed False s)"

definition prefers_back :: "media_device \<Rightarrow> bool" where
  "prefers_back d \<longleftrightarrow>
     has_sub (to_lower (md_label d)) ''back'' \<or> has_sub (to_lower (md_label d)) ''rear'' \<or>
     has_sub (to_lower (md_label d)) ''environment''"

text \<open>The device list arrives; an enumeration keeps the selection its closure saw.\<close>

definition detect_cameras :: "nat \<Rightarrow> media_device list option \<Rightarrow> scanner_state \<Rightarrow> scanner_state" where
  "detect_cameras k res s =
     (if length (sn_enumerations s) \<le> k then s
      else let seen = sn_enumerations s ! k; s = s\<lparr>sn_enumerations := drop_nth k (sn_enumerations s)\<rparr>
           in case res of
                None \<Rightarrow> s
              | Some devices \<Rightarrow>
                  let videoDevices = filter md_video devices; s = s\<lparr>sn_cameras := videoDevices\<rparr>
                  in if videoDevices \<noteq> [] \<and> seen = []
                     then select_camera (case List.find prefers_back videoDevices of
                            Some d \<Rightarrow> md_id d | None \<Rightarrow> md_id (hd videoDevices)) s
                     else s)"

definition handleSwitchCamera :: "scanner_state \<Rightarrow> scanner_state" where
  "handleSwitchCamera s =
     (if length (sn_cameras s) \<le> 1 then s
      else let nextIndex = (case find_index (\<lambda>c. md_id c = sn_selected s) (sn_cameras s) of
                              None \<Rightarrow> 0 | Some i \<Rightarrow> Suc i mod length (sn_cameras s))
           in select_camera (md_id (sn_cameras s ! nextIndex)) s)"

section \<open>Reading\<close>

text \<open>
  A frame of the loop. \<open>ready\<close>: the video has data and the canvas a context; \<open>detector\<close>: the window
  has a barcode detector; \<open>code\<close>: what jsQR reads.
\<close>

definition scan_frame :: "bool \<Rightarrow> bool \<Rightarrow> string option \<Rightarrow> scanner_state \<Rightarrow> scanner_state" where
  "scan_frame ready detector code s =
     (if \<not> sn_frame s then s
      else let s = s\<lparr>sn_frame := False\<rparr>
           in if sn_hasScanned s \<or> \<not> sn_hasVideo s then s
              else if \<not> ready then s\<lparr>sn_frame := True\<rparr>
              else let s = (if detector then s\<lparr>sn_detects := sn_detects s @ [sn_request s]\<rparr> else s)
                   in if truthy_str code \<and> isValidPayload s (the code) then handleSuccess (trim (the code)) s
                      else s\<lparr>sn_frame := True\<rparr>)"

definition detector_answered :: "nat \<Rightarrow> string option \<Rightarrow> scanner_state \<Rightarrow> scanner_state" where
  "detector_answered k raw s =
     (if length (sn_detects s) \<le> k then s
      else let request = sn_detects s ! k; s = s\<lparr>sn_detects := drop_nth k (sn_detects s)\<rparr>
           in if request = sn_request s \<and> \<not> sn_hasScanned s \<and> truthy_str raw \<and> isValidPayload s (the raw)
              then handleSuccess (trim (the raw)) s else s)"

definition handleProcessFile :: "scanner_state \<Rightarrow> scanner_state" where
  "handleProcessFile s = s\<lparr>sn_error := None, sn_decoding := True, sn_decodes := sn_decodes s @ [sn_request s]\<rparr>"

definition file_decoded :: "nat \<Rightarrow> qr_result option \<Rightarrow> scanner_state \<Rightarrow> scanner_state" where
  "file_decoded k res s =
     (if length (sn_decodes s) \<le> k then s
      else let request = sn_decodes s ! k; s = s\<lparr>sn_decodes := drop_nth k (sn_decodes s)\<rparr>
           in if request \<noteq> sn_request s then s
              else let s = s\<lparr>sn_decoding := False\<rparr>
                   in case res of
                        None \<Rightarrow> s\<lparr>sn_error := Some ''pairing.err_decode_failed''\<rparr>
                      | Some r \<Rightarrow>
                          if qr_success r \<and> truthy_str (qr_text r)
                          then let code = trim (the (qr_text r))
                               in if isValidPayload s code then handleSuccess code s
                                  else s\<lparr>sn_error := Some ''pairing.err_wrong_qr_type''\<rparr>
                          else s\<lparr>sn_error := Some ''pairing.err_no_qr_found''\<rparr>)"

definition timer_fires :: "scanner_state \<Rightarrow> scanner_state" where
  "timer_fires s =
     (case sn_timer s of None \<Rightarrow> s | Some p \<Rightarrow> s\<lparr>sn_timer := None, sn_scanned := sn_scanned s @ [p]\<rparr>)"

definition unmount_scanner :: "scanner_state \<Rightarrow> scanner_state" where
  "unmount_scanner s = (stopCamera s)\<lparr>sn_mounted := False, sn_open := False, sn_hasVideo := False\<rparr>"

datatype scanner_event =
    SetOpen bool
  | OtherRender
  | VideoElement bool
  | MediaSettled nat "bool option"
  | PlaySettled nat bool
  | Enumerated nat "media_device list option"
  | SwitchCamera
  | RetryCamera
  | FrameRuns bool bool "string option"
  | DetectorAnswered nat "string option"
  | FileGiven
  | FileDecoded nat "qr_result option"
  | SuccessTimer
  | UnmountScanner

text \<open>
  \<open>OtherRender\<close> is a render with another \<open>onScan\<close> or translation function: \<open>startCamera\<close> gets a new
  identity and the effect runs again. Without the component no effect runs.
\<close>

fun scanner_step :: "scanner_event \<Rightarrow> scanner_state \<Rightarrow> scanner_state" where
  "scanner_step (SetOpen b) s = (if sn_mounted s then set_open b s else s)"
| "scanner_step OtherRender s = (if sn_mounted s then camera_effect s else s)"
| "scanner_step (VideoElement b) s = (if sn_mounted s then s\<lparr>sn_hasVideo := b\<rparr> else s)"
| "scanner_step (MediaSettled k r) s = media_settled k r s"
| "scanner_step (PlaySettled k ok) s = play_settled k ok s"
| "scanner_step (Enumerated k res) s = (if sn_mounted s then detect_cameras k res s else s)"
| "scanner_step SwitchCamera s = (if sn_mounted s \<and> sn_open s then handleSwitchCamera s else s)"
| "scanner_step RetryCamera s =
     (if sn_mounted s \<and> sn_open s \<and> sn_error s \<noteq> None \<and> \<not> sn_decoding s \<and> \<not> sn_success s then startCamera s else s)"
| "scanner_step (FrameRuns r d c) s = scan_frame r d c s"
| "scanner_step (DetectorAnswered k raw) s = detector_answered k raw s"
| "scanner_step FileGiven s = (if sn_mounted s \<and> sn_open s then handleProcessFile s else s)"
| "scanner_step (FileDecoded k res) s = file_decoded k res s"
| "scanner_step SuccessTimer s = timer_fires s"
| "scanner_step UnmountScanner s = (if sn_mounted s then unmount_scanner s else s)"

section \<open>The camera is off when the scanner is closed\<close>

abbreviation waits :: "scanner_state \<Rightarrow> nat list" where
  "waits s \<equiv> sn_media s @ sn_plays s @ sn_detects s @ sn_decodes s"

definition good_payload :: "string \<Rightarrow> string \<Rightarrow> bool" where
  "good_payload p t \<longleftrightarrow> trim t = t \<and> (p = [] \<or> starts_with (to_lower t) (to_lower p))"

text \<open>Exactly the stream of the reference is running, and what waits belongs to requests of the past.\<close>

definition camera_inv :: "scanner_state \<Rightarrow> bool" where
  "camera_inv s \<longleftrightarrow>
     sn_streams s = (case sn_stream s of None \<Rightarrow> [] | Some n \<Rightarrow> [n]) \<and>
     (\<forall>n. sn_stream s = Some n \<longrightarrow> n < sn_granted s \<and> sn_open s \<and> sn_request s \<notin> set (sn_media s)) \<and>
     distinct (sn_media s) \<and>
     (\<forall>r \<in> set (waits s). r \<le> sn_request s \<and> (\<not> sn_open s \<longrightarrow> r < sn_request s)) \<and>
     (\<not> sn_open s \<longrightarrow> sn_timer s = None \<and> \<not> sn_frame s)"

lemma stopCamera_simps [simp]:
  "sn_request (stopCamera s) = Suc (sn_request s)" "sn_timer (stopCamera s) = None" "sn_frame (stopCamera s) = False"
  "sn_stream (stopCamera s) = None" "sn_open (stopCamera s) = sn_open s" "sn_media (stopCamera s) = sn_media s"
  "sn_plays (stopCamera s) = sn_plays s" "sn_detects (stopCamera s) = sn_detects s" "sn_decodes (stopCamera s) = sn_decodes s"
  "sn_mounted (stopCamera s) = sn_mounted s" "sn_scanned (stopCamera s) = sn_scanned s" "sn_prefix (stopCamera s) = sn_prefix s"
  "sn_granted (stopCamera s) = sn_granted s" "sn_hasScanned (stopCamera s) = sn_hasScanned s"
  by (simp_all add: stopCamera_def stop_stream_def Let_def split: option.split)

text \<open>What \<open>stopCamera\<close> leaves: nothing runs, and everything that waits is of an older request.\<close>

definition camera_stopped :: "scanner_state \<Rightarrow> bool" where
  "camera_stopped s \<longleftrightarrow>
     sn_streams s = [] \<and> sn_stream s = None \<and> distinct (sn_media s) \<and> (\<forall>r \<in> set (waits s). r < sn_request s) \<and>
     sn_timer s = None \<and> \<not> sn_frame s"

lemma stopped_inv: "camera_stopped s \<Longrightarrow> camera_inv s"
  by (auto simp: camera_stopped_def camera_inv_def intro: less_imp_le)

lemma stop_stops: "camera_inv s \<Longrightarrow> camera_stopped (stopCamera s)"
proof -
  assume inv: "camera_inv s"
  have "sn_streams (stopCamera s) = []"
    using inv by (simp add: camera_inv_def stopCamera_def stop_stream_def Let_def split: option.split)
  then show ?thesis using inv by (auto simp: camera_inv_def camera_stopped_def less_Suc_eq_le)
qed

lemma stopped_stop: "camera_stopped s \<Longrightarrow> camera_stopped (stopCamera s)"
  by (intro stop_stops stopped_inv)

lemma stopped_same:
  "camera_stopped s \<Longrightarrow> sn_streams t = sn_streams s \<Longrightarrow> sn_stream t = sn_stream s \<Longrightarrow> waits t = waits s \<Longrightarrow>
   sn_media t = sn_media s \<Longrightarrow> sn_request t = sn_request s \<Longrightarrow> sn_timer t = sn_timer s \<Longrightarrow> sn_frame t = sn_frame s \<Longrightarrow>
   camera_stopped t"
  by (simp add: camera_stopped_def)

lemma start_inv: "camera_stopped s \<Longrightarrow> sn_open s \<Longrightarrow> camera_inv (startCamera s)"
proof -
  assume s: "camera_stopped s" "sn_open s"
  have st: "camera_stopped (stopCamera s)" using s(1) by (rule stopped_stop)
  then have old: "r < Suc (sn_request s)" if "r \<in> set (waits s)" for r
    using that by (auto simp: camera_stopped_def)
  have "Suc (Suc (sn_request s)) \<notin> set (sn_media s)" using old [of "Suc (Suc (sn_request s))"] by auto
  moreover have "r \<le> Suc (Suc (sn_request s))" if "r \<in> set (waits s)" for r
    using old [OF that] by simp
  ultimately show ?thesis using st s(2)
    by (simp add: camera_stopped_def camera_inv_def startCamera_def Let_def)
qed

lemma effect_inv:
  assumes "camera_stopped (stopCamera s)"
  shows "camera_inv (camera_effect s)"
proof (cases "sn_open s")
  case True
  then show ?thesis
    using assms by (simp add: camera_effect_def Let_def) (rule start_inv, rule stopped_same [OF assms], simp_all)
next
  case False
  then show ?thesis using stopped_inv [OF stopped_stop [OF assms]] by (simp add: camera_effect_def Let_def)
qed

lemma stop_after_update:
  assumes "camera_inv s"
  shows "camera_stopped (stopCamera (s\<lparr>sn_open := b\<rparr>))" and "camera_stopped (stopCamera (s\<lparr>sn_selected := c\<rparr>))"
proof -
  have st: "camera_stopped (stopCamera s)" using assms by (rule stop_stops)
  show "camera_stopped (stopCamera (s\<lparr>sn_open := b\<rparr>))" "camera_stopped (stopCamera (s\<lparr>sn_selected := c\<rparr>))"
    by (rule stopped_same [OF st]; simp add: stopCamera_def stop_stream_def Let_def split: option.split)+
qed

lemma set_open_inv: "camera_inv s \<Longrightarrow> camera_inv (set_open b s)"
  by (simp add: set_open_def effect_inv stop_after_update)

lemma select_inv: "camera_inv s \<Longrightarrow> camera_inv (select_camera c s)"
  by (simp add: select_camera_def effect_inv stop_after_update)

lemma failed_inv: "camera_inv s \<Longrightarrow> camera_inv (camera_failed d s)"
  unfolding camera_failed_def
  by (rule stopped_inv) (rule stopped_same [OF stop_stops], simp_all)

lemma camera_inv_same:
  "camera_inv s \<Longrightarrow> sn_streams t = sn_streams s \<Longrightarrow> sn_stream t = sn_stream s \<Longrightarrow> sn_granted t = sn_granted s \<Longrightarrow>
   sn_open t = sn_open s \<Longrightarrow> sn_request t = sn_request s \<Longrightarrow> set (sn_media t) \<subseteq> set (sn_media s) \<Longrightarrow>
   distinct (sn_media t) \<Longrightarrow> set (waits t) \<subseteq> set (waits s) \<Longrightarrow> sn_timer t = sn_timer s \<Longrightarrow> sn_frame t = sn_frame s \<Longrightarrow>
   camera_inv t"
  unfolding camera_inv_def by (auto simp del: set_append) 

lemma set_drop_nth: "set (drop_nth i xs) \<subseteq> set xs"
  by (auto simp: drop_nth_def dest: in_set_takeD in_set_dropD)

lemma distinct_drop_nth: "distinct xs \<Longrightarrow> distinct (drop_nth i xs)"
  by (simp add: drop_nth_def set_take_disj_set_drop_if_distinct)

lemma success_inv:
  assumes "camera_inv s" and "sn_open s"
  shows "camera_inv (handleSuccess p s)"
proof -
  let ?s = "s\<lparr>sn_hasScanned := True, sn_success := True\<rparr>"
  have "camera_inv ?s" by (rule camera_inv_same [OF assms(1)]) (use assms(1) in \<open>simp_all add: camera_inv_def\<close>)
  then have "camera_stopped (stopCamera ?s)" by (rule stop_stops)
  then have "camera_inv ((stopCamera ?s)\<lparr>sn_timer := Some p\<rparr>)"
    using assms(2) by (auto simp: camera_stopped_def camera_inv_def intro: less_imp_le)
  then show ?thesis using assms(1) by (simp add: handleSuccess_def)
qed

lemma waiting_current_open: "camera_inv s \<Longrightarrow> r \<in> set (waits s) \<Longrightarrow> r = sn_request s \<Longrightarrow> sn_open s"
  by (auto simp: camera_inv_def)

lemma drop_wait_inv:
  assumes "camera_inv s"
  shows "camera_inv (s\<lparr>sn_media := drop_nth k (sn_media s)\<rparr>)" and "camera_inv (s\<lparr>sn_plays := drop_nth k (sn_plays s)\<rparr>)"
    and "camera_inv (s\<lparr>sn_detects := drop_nth k (sn_detects s)\<rparr>)" and "camera_inv (s\<lparr>sn_decodes := drop_nth k (sn_decodes s)\<rparr>)"
  by (rule camera_inv_same [OF assms];
      use assms set_drop_nth [of k "sn_media s"] set_drop_nth [of k "sn_plays s"] set_drop_nth [of k "sn_detects s"]
        set_drop_nth [of k "sn_decodes s"] in \<open>auto simp: camera_inv_def distinct_drop_nth\<close>)+

lemma quiet_inv:
  assumes "camera_inv s"
  shows "camera_inv (s\<lparr>sn_error := e\<rparr>)" and "camera_inv (s\<lparr>sn_decoding := b\<rparr>)" and "camera_inv (s\<lparr>sn_hasVideo := b\<rparr>)"
    and "camera_inv (s\<lparr>sn_cameras := cs\<rparr>)" and "camera_inv (s\<lparr>sn_enumerations := es\<rparr>)"
    and "camera_inv (s\<lparr>sn_isScanning := b\<rparr>)" and "camera_inv (s\<lparr>sn_success := b\<rparr>)" and "camera_inv (s\<lparr>sn_frame := False\<rparr>)"
    and "camera_inv (s\<lparr>sn_scanned := xs\<rparr>)" and "camera_inv (s\<lparr>sn_timer := None\<rparr>)"
  using assms by (simp_all add: camera_inv_def)

lemma frame_inv: "camera_inv s \<Longrightarrow> sn_open s \<Longrightarrow> camera_inv (s\<lparr>sn_frame := b\<rparr>)"
  by (simp add: camera_inv_def)

lemma wait_inv:
  assumes "camera_inv s" and "sn_open s"
  shows "camera_inv (s\<lparr>sn_plays := sn_plays s @ [sn_request s]\<rparr>)" and "camera_inv (s\<lparr>sn_detects := sn_detects s @ [sn_request s]\<rparr>)"
    and "camera_inv (s\<lparr>sn_decodes := sn_decodes s @ [sn_request s]\<rparr>)"
  using assms by (auto simp: camera_inv_def)

lemma refused_stream: "n \<notin> set (sn_streams s) \<Longrightarrow> sn_streams (stop_stream n (s\<lparr>sn_streams := sn_streams s @ [n]\<rparr>)) = sn_streams s"
  by (auto simp: stop_stream_def filter_id_conv)

lemma media_inv:
  assumes inv: "camera_inv s"
  shows "camera_inv (media_settled k r s)"
proof (cases "k < length (sn_media s)")
  case True
  let ?r = "sn_media s ! k" and ?s = "s\<lparr>sn_media := drop_nth k (sn_media s)\<rparr>"
  have drop: "camera_inv ?s" by (rule drop_wait_inv) fact
  have gone: "?r \<notin> set (drop_nth k (sn_media s))"
    using inv True by (auto simp: camera_inv_def drop_nth_def distinct_conv_nth in_set_conv_nth)
  have fresh: "sn_granted s \<notin> set (sn_streams s)" using inv by (auto simp: camera_inv_def split: option.splits)
  show ?thesis
  proof (cases r)
    case (Some d)
    then show ?thesis using True drop failed_inv [OF drop] by (simp add: media_settled_def Let_def)
  next
    case None
    let ?g = "?s\<lparr>sn_granted := Suc (sn_granted s)\<rparr>"
    have granted: "camera_inv ?g" using drop by (simp add: camera_inv_def less_SucI)
    show ?thesis
    proof (cases "?r = sn_request s")
      case False
      have "camera_inv (stop_stream (sn_granted s) (?g\<lparr>sn_streams := sn_streams s @ [sn_granted s]\<rparr>))"
        by (rule camera_inv_same [OF granted]) (use inv fresh in \<open>auto simp: stop_stream_def filter_id_conv camera_inv_def distinct_drop_nth\<close>)
      then show ?thesis using True None False by (simp add: media_settled_def Let_def)
    next
      case cur: True
      have "?r \<in> set (waits s)" using nth_mem [OF True] by simp
      with inv cur have o: "sn_open s" by (blast intro: waiting_current_open)
      have none: "sn_stream s = None"
        using inv True cur nth_mem [OF True] by (cases "sn_stream s") (auto simp: camera_inv_def)
      let ?t = "?g\<lparr>sn_streams := sn_streams s @ [sn_granted s], sn_stream := Some (sn_granted s), sn_error := None, sn_isScanning := True, sn_success := False\<rparr>"
      have t: "camera_inv ?t"
        using granted none o gone cur by (simp add: camera_inv_def)
      then have "camera_inv (?t\<lparr>sn_plays := sn_plays ?t @ [sn_request ?t]\<rparr>)" by (rule wait_inv) (simp add: o)
      with t show ?thesis using True None cur by (simp add: media_settled_def Let_def)
    qed
  qed
qed (simp add: media_settled_def inv)

lemma play_inv:
  assumes inv: "camera_inv s"
  shows "camera_inv (play_settled k ok s)"
proof (cases "k < length (sn_plays s) \<and> sn_plays s ! k = sn_request s")
  case True
  then have "sn_open s" using inv nth_mem [of k "sn_plays s"] by (intro waiting_current_open [OF inv]) auto
  then show ?thesis
    using True failed_inv [OF drop_wait_inv(2) [OF inv]] frame_inv [OF quiet_inv(5) [OF drop_wait_inv(2) [OF inv]]]
    by (simp add: play_settled_def Let_def)
qed (use drop_wait_inv(2) [OF inv] inv in \<open>auto simp: play_settled_def Let_def not_less\<close>)

lemma reading_inv:
  assumes inv: "camera_inv s"
  shows "camera_inv (scan_frame ready det code s)" and "camera_inv (detector_answered k raw s)"
    and "camera_inv (file_decoded k res s)" and "sn_open s \<Longrightarrow> camera_inv (handleProcessFile s)"
proof -
  let ?f = "s\<lparr>sn_frame := False\<rparr>" and ?d = "s\<lparr>sn_frame := False, sn_detects := sn_detects s @ [sn_request s]\<rparr>"
  have f: "camera_inv ?f" by (rule quiet_inv) fact
  show "camera_inv (scan_frame ready det code s)"
  proof (cases "sn_frame s")
    case True
    then have o: "sn_open s" using inv by (auto simp: camera_inv_def)
    have d: "camera_inv ?d" using wait_inv(2) [OF f] o by simp
    show ?thesis
      using True o inv f d success_inv [OF f] success_inv [OF d] frame_inv [OF f] frame_inv [OF d]
      by (simp add: scan_frame_def Let_def)
  qed (simp add: scan_frame_def inv)
  show "camera_inv (detector_answered k raw s)"
  proof (cases "k < length (sn_detects s) \<and> sn_detects s ! k = sn_request s")
    case True
    then have "sn_open s" using nth_mem [of k "sn_detects s"] by (intro waiting_current_open [OF inv]) auto
    then show ?thesis
      using success_inv [OF drop_wait_inv(3) [OF inv]] drop_wait_inv(3) [OF inv] inv by (simp add: detector_answered_def Let_def)
  qed (use drop_wait_inv(3) [OF inv] inv in \<open>auto simp: detector_answered_def Let_def not_less\<close>)
  show "camera_inv (file_decoded k res s)"
  proof (cases "k < length (sn_decodes s) \<and> sn_decodes s ! k = sn_request s")
    case True
    then have o: "sn_open s" using nth_mem [of k "sn_decodes s"] by (intro waiting_current_open [OF inv]) auto
    have d: "camera_inv (s\<lparr>sn_decodes := drop_nth k (sn_decodes s), sn_decoding := False\<rparr>)"
      using quiet_inv(2) [OF drop_wait_inv(4) [OF inv]] by simp
    show ?thesis
      using True success_inv [OF d] quiet_inv(1) [OF d] o by (simp add: file_decoded_def Let_def split: option.split)
  qed (use drop_wait_inv(4) [OF inv] inv in \<open>auto simp: file_decoded_def Let_def not_less\<close>)
  show "camera_inv (handleProcessFile s)" if "sn_open s"
    using wait_inv(3) [OF quiet_inv(2) [OF quiet_inv(1) [OF inv]]] that by (simp add: handleProcessFile_def)
qed

lemma enumerated_inv: "camera_inv s \<Longrightarrow> camera_inv (detect_cameras k res s)"
  using quiet_inv(5) [of s "drop_nth k (sn_enumerations s)"]
    quiet_inv(4) [of "s\<lparr>sn_enumerations := drop_nth k (sn_enumerations s)\<rparr>"]
  by (simp add: detect_cameras_def select_inv Let_def split: option.split)

lemma unmount_inv: "camera_inv s \<Longrightarrow> camera_inv (unmount_scanner s)"
  unfolding unmount_scanner_def by (rule stopped_inv) (rule stopped_same [OF stop_stops], simp_all)

lemma camera_inv_step [inv_steps]:
  assumes "camera_inv s"
  shows "camera_inv (scanner_step e s)"
proof (cases e)
  case OtherRender
  then show ?thesis using assms by (simp add: effect_inv stop_stops)
next
  case RetryCamera
  have "camera_inv (startCamera s)" if "sn_open s"
  proof -
    have "camera_stopped (stopCamera s)" using assms by (rule stop_stops)
    then have "r < Suc (sn_request s)" if "r \<in> set (waits s)" for r using that by (auto simp: camera_stopped_def)
    then have "Suc (Suc (sn_request s)) \<notin> set (sn_media s)" "\<And>r. r \<in> set (waits s) \<Longrightarrow> r \<le> Suc (Suc (sn_request s))"
      by (fastforce, simp add: less_Suc_eq_le le_SucI)
    then show ?thesis using \<open>camera_stopped (stopCamera s)\<close> that
      by (simp add: camera_stopped_def camera_inv_def startCamera_def Let_def)
  qed
  then show ?thesis using assms RetryCamera by simp
next
  case SuccessTimer
  then show ?thesis
    using assms quiet_inv(9) [OF quiet_inv(10) [OF assms]] by (simp add: timer_fires_def split: option.split)
qed (use assms in \<open>simp_all add: set_open_inv quiet_inv(3) media_inv play_inv enumerated_inv handleSwitchCamera_def
      select_inv reading_inv unmount_inv Let_def\<close>)

interpretation scanner: invariant_machine scanner_step camera_inv
  by unfold_locales (rule camera_inv_step)

lemma camera_inv_run: "camera_inv (run scanner_step es (init_scanner p))"
  by (rule scanner.run_inv) (simp add: camera_inv_def init_scanner_def)

text \<open>
  Claim C28. The camera never runs unnoticed: at most one stream is running at any time, whatever is opened, closed,
  switched or granted late, and as soon as the scanner is closed none is; no frame is examined and no
  code is about to be reported.
\<close>

theorem camera_off_when_closed:
  assumes "s = run scanner_step es (init_scanner p)"
  shows "length (sn_streams s) \<le> 1 \<and>
         (sn_open s \<or> (sn_streams s = [] \<and> sn_timer s = None \<and> sn_frame s = False))"
proof -
  have "camera_inv s" using assms camera_inv_run by simp
  then show ?thesis by (cases "sn_stream s") (auto simp: camera_inv_def)
qed

theorem camera_off_when_closed_witness:
  "sn_streams (run scanner_step [SetOpen True, SetOpen False, MediaSettled 0 None] (init_scanner [])) = []"
proof -
  let ?s = "run scanner_step [SetOpen True, SetOpen False, MediaSettled 0 None] (init_scanner [])"
  have "\<not> sn_open ?s"
    by (simp add: init_scanner_def set_open_def camera_effect_def startCamera_def stopCamera_def stop_stream_def media_settled_def Let_def)
  with camera_off_when_closed [OF refl, of "[SetOpen True, SetOpen False, MediaSettled 0 None]" "[]"] show ?thesis by blast
qed

section \<open>What is reported\<close>

definition payload_inv :: "string \<Rightarrow> scanner_state \<Rightarrow> bool" where
  "payload_inv p s \<longleftrightarrow> sn_prefix s = p \<and> (\<forall>t. sn_timer s = Some t \<or> t \<in> set (sn_scanned s) \<longrightarrow> good_payload p t)"

lemma good_payload_trim: "isValidPayload s t \<Longrightarrow> good_payload (sn_prefix s) (trim t)"
  by (auto simp: isValidPayload_def good_payload_def)

lemma payload_stop: "payload_inv p s \<Longrightarrow> payload_inv p (stopCamera s)"
  by (simp add: payload_inv_def)

lemma payload_success: "payload_inv p s \<Longrightarrow> good_payload p t \<Longrightarrow> payload_inv p (handleSuccess t s)"
  by (auto simp: handleSuccess_def payload_inv_def)

lemmas payload_ops =
  set_open_def select_camera_def camera_effect_def startCamera_def media_settled_def play_settled_def camera_failed_def
  detect_cameras_def handleSwitchCamera_def stop_stream_def handleProcessFile_def unmount_scanner_def timer_fires_def Let_def

lemma payload_step [inv_steps]: "payload_inv p s \<Longrightarrow> payload_inv p (scanner_step e s)"
proof (cases e)
  case (FrameRuns r d c)
  then show "payload_inv p s \<Longrightarrow> ?thesis"
    using good_payload_trim [of s]
    by (auto simp: scan_frame_def Let_def isValidPayload_def intro!: payload_success) (auto simp: payload_inv_def)
next
  case (DetectorAnswered k raw)
  then show "payload_inv p s \<Longrightarrow> ?thesis"
    using good_payload_trim [of s]
    by (auto simp: detector_answered_def Let_def isValidPayload_def intro!: payload_success) (auto simp: payload_inv_def)
next
  case (FileDecoded k res)
  then show "payload_inv p s \<Longrightarrow> ?thesis"
    using good_payload_trim [of s]
    by (auto simp: file_decoded_def Let_def isValidPayload_def intro!: payload_success split: option.split) (auto simp: payload_inv_def)
qed (auto simp: payload_inv_def payload_ops split: option.splits)

interpretation payloads: invariant_machine scanner_step "payload_inv p" for p
  by unfold_locales (rule payload_step)

text \<open>
  Only codes of the expected kind are reported: whatever the detector, jsQR or an image gives, a reported
  text has no blanks around it and begins, in any case, with the prefix the dialog was opened for.
\<close>

theorem scanner_reports_expected:
  assumes "t \<in> set (sn_scanned (run scanner_step es (init_scanner p)))"
  shows "trim t = t \<and> (p = [] \<or> starts_with (to_lower t) (to_lower p))"
proof -
  have "payload_inv p (init_scanner p)" by (simp add: payload_inv_def init_scanner_def)
  from payloads.run_inv [OF this] show ?thesis using assms by (auto simp: payload_inv_def good_payload_def)
qed

lemmas scanner_eval =
  init_scanner_def payload_ops stopCamera_def drop_nth_def scan_frame_def handleSuccess_def file_decoded_def
  isValidPayload_def expected_prefix_def trim_def trim_start_def trim_end_def is_ws_def to_lower_def lower_char_def

abbreviation demo_scan :: "scanner_event list" where
  "demo_scan \<equiv> [SetOpen True, MediaSettled 0 None, PlaySettled 0 True, FrameRuns True False (Some ''http://x''),
     FrameRuns True False (Some '' YntraPair://1 ''), SuccessTimer]"

lemma demo_scanned: "sn_scanned (run scanner_step demo_scan (init_scanner expected_prefix)) = [''YntraPair://1'']"
  by (simp add: scanner_eval char_of_def bit_Suc_0_iff)

theorem scanner_reports_expected_witness: "starts_with (to_lower ''YntraPair://1'') (to_lower expected_prefix)"
  using scanner_reports_expected [of "''YntraPair://1''" demo_scan expected_prefix] demo_scanned
  by (simp add: expected_prefix_def)

text \<open>
  An image that is being decoded when the camera is refused is forgotten: the refusal outdates the
  request, so the code found in the image is not reported and the dialog keeps saying that it decodes
  (lines 172, 201 to 208 and 233).
\<close>

lemma image_lost_when_camera_refused:
  "let s = run scanner_step [SetOpen True, FileGiven, MediaSettled 0 (Some True),
       FileDecoded 0 (Some (qr_ok ''yntrapair://1'')), SuccessTimer] (init_scanner expected_prefix)
   in sn_scanned s = [] \<and> sn_decoding s \<and> sn_timer s = None"
  by (simp add: scanner_eval)

end
