(* ===== verification/Pairing_Wizard.thy ===== *)
theory Pairing_Wizard
  imports Entries_State Sync_Text
begin

text \<open>
  The pairing dialog: \<open>features/sync/components/DevicePairingWizard.tsx\<close>, its state, its handlers, the
  serial queue of the QR host (\<open>qrQueue\<close>), the effects that own a QR attempt, and the attempts that wait
  for native calls. The handlers belong to widgets that are only there in certain steps; an event that
  its widget cannot deliver changes nothing. An open scanner covers the dialog, so only the Escape
  key, which is a window listener, reaches the dialog under it.

  Left out: the list of local addresses with the two copy buttons, autofocus and the visibility of the
  password, which are display only; the VPN notice is its flag and its storage key.
\<close>

section \<open>Data\<close>

datatype wizard_page = RoleStep | PasswordStep | CodeStep | ConnectingStep | SuccessStep

datatype pairing_role = Host | Client

datatype pairing_mode = QrMode | PinMode

record pairing_stats =
  ps_total_entries :: nat
  ps_peer_addr :: "string option"
  ps_vault_path :: "string option"
  ps_peer_saved :: "bool option"

record qr_session =
  qs_qr_payload :: string
  qs_sas_code :: string
  qs_expires_at :: nat

record qr_client_result =
  qc_stats :: pairing_stats
  qc_sas_code :: "string option"
  qc_needs_password :: bool
  qc_has_master_password :: bool

text \<open>A rejected promise: with a string, or with an error object and its message.\<close>

datatype rejection = RejectedText string | RejectedError string

datatype pairing_call =
    CheckBiometric
  | GeneratePairingCode
  | CancelPairingHost
  | CancelQrPairingHost
  | GenerateQrSession
  | StartQrHost string bool
  | StartQrClient string
  | CompleteAdopted string
  | StartHost string string string
  | ScanPairing string string nat
  | StartClient string string string string
  | EnableBiometricCall

text \<open>The tasks of the queue, by the effect that prepares a host.\<close>

datatype qr_task = CancelPairingTask | CancelQrTask | PrepareQr nat

datatype queue_stage = QueueIdle | AwaitCancelled | AwaitSession

record qr_effect =
  qe_password :: string
  qe_include :: bool
  qe_disposed :: bool

datatype attempt_kind =
    QrClientAttempt string
  | AdoptAttempt string
  | HostAttempt string string
  | ClientAttempt string string string string

datatype attempt_stage = WaitQueue nat | WaitCancel | WaitScan | WaitNative string

record pairing_attempt =
  pa_number :: nat
  pa_kind :: attempt_kind
  pa_stage :: attempt_stage

record qr_deps =
  qd_open :: bool
  qd_step :: wizard_page
  qd_role :: pairing_role
  qd_mode :: pairing_mode
  qd_password :: string
  qd_include :: bool
  qd_revision :: nat

record wizard_state =
  pw_mounted :: bool
  pw_isOpen :: bool
  pw_defaultRole :: "pairing_role option"
  pw_adoptMode :: bool
  pw_locked :: bool
  pw_vault :: "vault option"
  pw_settingListen :: "bool option"
  pw_step :: wizard_page
  pw_role :: pairing_role
  pw_mode :: pairing_mode
  pw_qrSession :: "qr_session option"
  pw_scannerOpen :: bool
  pw_include :: bool
  pw_canEnroll :: bool
  pw_clientSas :: "string option"
  pw_manualAdoption :: bool
  pw_bioAvailable :: bool
  pw_bioEnrolled :: bool
  pw_enrolling :: bool
  pw_vpnOpen :: bool
  pw_vpnInitial :: bool
  pw_vpnDismissed :: bool
  pw_pairingCode :: string
  pw_digits :: "string list"
  pw_password :: string
  pw_error :: "message option"
  pw_status :: message
  pw_stats :: "pairing_stats option"
  pw_manualIp :: string
  pw_showManualIp :: bool
  pw_autoListen :: bool
  pw_autoSync :: bool
  pw_cancelled :: bool
  pw_attempt :: nat
  pw_adoptedPath :: "string option"
  pw_lastPeer :: "string option"
  pw_tasks :: "qr_task list"
  pw_done :: nat
  pw_queue :: queue_stage
  pw_revision :: nat
  pw_effects :: "qr_effect list"
  pw_current :: "nat option"
  pw_qrDeps :: "qr_deps option"
  pw_codeDeps :: "(wizard_page \<times> pairing_role \<times> string) option"
  pw_codeWaits :: nat
  pw_bioWaits :: nat
  pw_enrollWaits :: nat
  pw_hostWaits :: "nat list"
  pw_attempts :: "pairing_attempt list"
  pw_calls :: "pairing_call list"
  pw_toggles :: "bool list"
  pw_updates :: "(bool \<times> bool) list"
  pw_finished :: "pairing_stats option list"
  pw_closes :: nat
  pw_toasts :: "(message \<times> toast_type) list"

definition no_digits :: "string list" where
  "no_digits = replicate 6 []"

definition native_call :: "pairing_call \<Rightarrow> wizard_state \<Rightarrow> wizard_state" where
  "native_call c s = s\<lparr>pw_calls := pw_calls s @ [c]\<rparr>"

definition enqueue :: "qr_task \<Rightarrow> wizard_state \<Rightarrow> wizard_state" where
  "enqueue k s = s\<lparr>pw_tasks := pw_tasks s @ [k]\<rparr>"

definition pairing_toast :: "message \<Rightarrow> toast_type \<Rightarrow> wizard_state \<Rightarrow> wizard_state" where
  "pairing_toast m k s = s\<lparr>pw_toasts := pw_toasts s @ [(m, k)]\<rparr>"

definition count_text :: "nat \<Rightarrow> string" where
  "count_text n = show_nat n"

definition success_toast :: "pairing_stats \<Rightarrow> wizard_state \<Rightarrow> wizard_state" where
  "success_toast st = pairing_toast (Tr ''pairing.success_toast'' [(''count'', count_text (ps_total_entries st))]) ToastSuccess"

text \<open>\<open>String(error) || error\<close>, and the message of an attempt's error with its fallback text.\<close>

definition plain_error :: "rejection \<Rightarrow> message" where
  "plain_error e =
     (case e of RejectedText t \<Rightarrow> Plain t | RejectedError m \<Rightarrow> Plain (if m = [] then ''Error'' else m))"

definition attempt_error :: "string \<Rightarrow> rejection \<Rightarrow> message" where
  "attempt_error key e =
     (case e of RejectedText t \<Rightarrow> Plain t | RejectedError m \<Rightarrow> if m = [] then Tr key [] else Plain m)"

section \<open>Opening and closing\<close>

definition first_step :: "pairing_role option \<Rightarrow> wizard_page" where
  "first_step r = (case r of Some Client \<Rightarrow> CodeStep | Some Host \<Rightarrow> PasswordStep | None \<Rightarrow> RoleStep)"

definition reset_wizard :: "wizard_state \<Rightarrow> wizard_state" where
  "reset_wizard s = s\<lparr>pw_error := None, pw_stats := None, pw_password := [], pw_digits := no_digits, pw_manualIp := [],
     pw_showManualIp := False, pw_mode := QrMode, pw_qrSession := None, pw_scannerOpen := False, pw_include := True,
     pw_canEnroll := False, pw_clientSas := None, pw_manualAdoption := False, pw_bioEnrolled := False,
     pw_enrolling := False, pw_role := or_else (pw_defaultRole s) Host, pw_step := first_step (pw_defaultRole s)\<rparr>"

text \<open>The effect of opening: the background listener is paused, and everything under way is outdated.\<close>

definition opened_effect :: "wizard_state \<Rightarrow> wizard_state" where
  "opened_effect s =
     (if pw_isOpen s
      then s\<lparr>pw_toggles := pw_toggles s @ [False], pw_attempt := Suc (pw_attempt s), pw_cancelled := False,
             pw_adoptedPath := None\<rparr>
      else s)"

definition biometric_effect :: "wizard_state \<Rightarrow> wizard_state" where
  "biometric_effect s =
     (if pw_isOpen s then native_call CheckBiometric (s\<lparr>pw_bioWaits := Suc (pw_bioWaits s)\<rparr>) else s)"

text \<open>A render with other properties: the resets during rendering, then the effects that depend on them.\<close>

definition vpn_notice :: "wizard_state \<Rightarrow> wizard_state" where
  "vpn_notice s =
     s\<lparr>pw_vpnOpen := pw_isOpen s \<and> \<not> pw_vpnDismissed s, pw_vpnInitial := pw_isOpen s \<and> \<not> pw_vpnDismissed s\<rparr>"

definition set_props :: "bool \<Rightarrow> pairing_role option \<Rightarrow> wizard_state \<Rightarrow> wizard_state" where
  "set_props o' r s =
     (if o' = pw_isOpen s \<and> r = pw_defaultRole s then s
      else let switched = (o' \<noteq> pw_isOpen s); s = s\<lparr>pw_isOpen := o', pw_defaultRole := r\<rparr>;
               s = (if switched then vpn_notice s else s);
               s = (if o' then reset_wizard s else s);
               s = (if switched then biometric_effect s else s)
           in opened_effect s)"

text \<open>The caller's \<open>onClose\<close>: both places that show the dialog close it.\<close>

definition onClose :: "wizard_state \<Rightarrow> wizard_state" where
  "onClose s = set_props False (pw_defaultRole s) (s\<lparr>pw_closes := Suc (pw_closes s)\<rparr>)"

definition forget_secrets :: "wizard_state \<Rightarrow> wizard_state" where
  "forget_secrets s = s\<lparr>pw_password := [], pw_digits := no_digits, pw_canEnroll := False, pw_clientSas := None,
     pw_manualAdoption := False\<rparr>"

definition outdate_attempts :: "wizard_state \<Rightarrow> wizard_state" where
  "outdate_attempts s = s\<lparr>pw_cancelled := True, pw_attempt := Suc (pw_attempt s)\<rparr>"

definition handleClose :: "wizard_state \<Rightarrow> wizard_state" where
  "handleClose s =
     (let s = forget_secrets (enqueue CancelQrTask (enqueue CancelPairingTask (outdate_attempts s)));
          s = (if truthy (pw_settingListen s) then s\<lparr>pw_toggles := pw_toggles s @ [True]\<rparr> else s)
      in onClose s)"

definition handleFinishSuccess :: "wizard_state \<Rightarrow> wizard_state" where
  "handleFinishSuccess s =
     (let listenAfterPairing = (pw_autoListen s \<or> pw_role s = Client \<and> pw_autoSync s);
          s = forget_secrets (s\<lparr>pw_updates := pw_updates s @ [(listenAfterPairing, pw_autoSync s)],
                                 pw_settingListen := Some listenAfterPairing\<rparr>);
          s = (if listenAfterPairing then s\<lparr>pw_toggles := pw_toggles s @ [True]\<rparr> else s)
      in onClose (s\<lparr>pw_finished := pw_finished s @ [pw_stats s]\<rparr>))"

section \<open>Effects after a render\<close>

definition code_effect :: "wizard_state \<Rightarrow> wizard_state" where
  "code_effect s =
     (let deps = (pw_step s, pw_role s, pw_pairingCode s)
      in if pw_codeDeps s = Some deps then s
         else let s = s\<lparr>pw_codeDeps := Some deps\<rparr>
              in if pw_step s \<in> {PasswordStep, CodeStep} \<and> pw_role s = Host \<and> pw_pairingCode s = []
                 then native_call GeneratePairingCode (s\<lparr>pw_codeWaits := Suc (pw_codeWaits s)\<rparr>) else s)"

definition qr_deps_of :: "wizard_state \<Rightarrow> qr_deps" where
  "qr_deps_of s = \<lparr>qd_open = pw_isOpen s, qd_step = pw_step s, qd_role = pw_role s, qd_mode = pw_mode s,
     qd_password = pw_password s, qd_include = pw_include s, qd_revision = pw_revision s\<rparr>"

definition qr_wanted :: "qr_deps \<Rightarrow> bool" where
  "qr_wanted d \<longleftrightarrow> qd_open d \<and> qd_step d = CodeStep \<and> qd_role d = Host \<and> qd_mode d = QrMode"

definition dispose_qr :: "wizard_state \<Rightarrow> wizard_state" where
  "dispose_qr s =
     (case pw_current s of
        None \<Rightarrow> s
      | Some i \<Rightarrow> enqueue CancelQrTask
          (s\<lparr>pw_effects := (pw_effects s)[i := (pw_effects s ! i)\<lparr>qe_disposed := True\<rparr>], pw_current := None\<rparr>))"

definition start_qr :: "wizard_state \<Rightarrow> wizard_state" where
  "start_qr s =
     (if \<not> qr_wanted (qr_deps_of s) then s
      else enqueue (PrepareQr (length (pw_effects s)))
        (s\<lparr>pw_current := Some (length (pw_effects s)),
           pw_effects := pw_effects s @
             [\<lparr>qe_password = pw_password s, qe_include = pw_include s, qe_disposed = False\<rparr>]\<rparr>))"

definition qr_host_effect :: "wizard_state \<Rightarrow> wizard_state" where
  "qr_host_effect s =
     (if pw_qrDeps s = Some (qr_deps_of s) then s
      else start_qr (dispose_qr (s\<lparr>pw_qrDeps := Some (qr_deps_of s)\<rparr>)))"

definition after_render :: "wizard_state \<Rightarrow> wizard_state" where
  "after_render s = qr_host_effect (code_effect s)"

section \<open>The queue\<close>

definition effect_disposed :: "wizard_state \<Rightarrow> nat \<Rightarrow> bool" where
  "effect_disposed s i \<longleftrightarrow> qe_disposed (pw_effects s ! i)"

definition task_done :: "wizard_state \<Rightarrow> wizard_state" where
  "task_done s = s\<lparr>pw_done := Suc (pw_done s), pw_queue := QueueIdle\<rparr>"

definition queue_start :: "wizard_state \<Rightarrow> wizard_state" where
  "queue_start s =
     (if pw_queue s \<noteq> QueueIdle \<or> length (pw_tasks s) \<le> pw_done s then s
      else (case pw_tasks s ! pw_done s of
              CancelPairingTask \<Rightarrow> native_call CancelPairingHost
            | _ \<Rightarrow> native_call CancelQrPairingHost) (s\<lparr>pw_queue := AwaitCancelled\<rparr>))"

definition prepare_failed :: "nat \<Rightarrow> rejection \<Rightarrow> wizard_state \<Rightarrow> wizard_state" where
  "prepare_failed i e s = task_done (if effect_disposed s i then s else s\<lparr>pw_error := Some (plain_error e)\<rparr>)"

text \<open>The native cancellation of the running task settles.\<close>

definition queue_cancelled :: "rejection option \<Rightarrow> wizard_state \<Rightarrow> wizard_state" where
  "queue_cancelled err s =
     (if pw_queue s \<noteq> AwaitCancelled then s
      else case pw_tasks s ! pw_done s of
             PrepareQr i \<Rightarrow>
               (case err of
                  Some e \<Rightarrow> prepare_failed i e s
                | None \<Rightarrow> if effect_disposed s i then task_done s
                          else native_call GenerateQrSession
                                 (s\<lparr>pw_qrSession := None, pw_error := None, pw_queue := AwaitSession\<rparr>))
           | _ \<Rightarrow> task_done s)"

definition queue_session :: "rejection + qr_session \<Rightarrow> wizard_state \<Rightarrow> wizard_state" where
  "queue_session res s =
     (if pw_queue s \<noteq> AwaitSession then s
      else case pw_tasks s ! pw_done s of
             PrepareQr i \<Rightarrow>
               (case res of
                  Inl e \<Rightarrow> prepare_failed i e s
                | Inr session \<Rightarrow>
                    if effect_disposed s i then task_done s
                    else task_done (native_call (StartQrHost (qe_password (pw_effects s ! i)) (qe_include (pw_effects s ! i)))
                           (s\<lparr>pw_qrSession := Some session, pw_hostWaits := pw_hostWaits s @ [i]\<rparr>)))
           | _ \<Rightarrow> s)"

definition host_settled :: "nat \<Rightarrow> rejection + pairing_stats \<Rightarrow> wizard_state \<Rightarrow> wizard_state" where
  "host_settled k res s =
     (if length (pw_hostWaits s) \<le> k then s
      else let i = pw_hostWaits s ! k; s = s\<lparr>pw_hostWaits := take k (pw_hostWaits s) @ drop (Suc k) (pw_hostWaits s)\<rparr>
           in if effect_disposed s i then s
              else case res of
                     Inl e \<Rightarrow> s\<lparr>pw_error := Some (plain_error e)\<rparr>
                   | Inr stats \<Rightarrow>
                       let s = s\<lparr>pw_stats := Some stats, pw_step := SuccessStep\<rparr>;
                           s = (if truthy_str (ps_peer_addr stats) then s\<lparr>pw_lastPeer := ps_peer_addr stats\<rparr> else s)
                       in if ps_peer_saved stats = Some False
                          then pairing_toast (Tr ''pairing.received_pending_password'' []) ToastSuccess s
                          else success_toast stats s)"

section \<open>Attempts\<close>

text \<open>
  An attempt takes the next number and first waits for the tasks that are in the queue by then. It is
  live while no other attempt has begun and nothing has cancelled it.
\<close>

definition start_attempt :: "attempt_kind \<Rightarrow> wizard_state \<Rightarrow> wizard_state" where
  "start_attempt k s =
     s\<lparr>pw_attempt := Suc (pw_attempt s), pw_cancelled := False,
       pw_attempts := pw_attempts s @
         [\<lparr>pa_number = Suc (pw_attempt s), pa_kind = k,
           pa_stage = (case k of AdoptAttempt _ \<Rightarrow> WaitNative [] | _ \<Rightarrow> WaitQueue (length (pw_tasks s)))\<rparr>]\<rparr>"

definition live :: "wizard_state \<Rightarrow> pairing_attempt \<Rightarrow> bool" where
  "live s a \<longleftrightarrow> \<not> pw_cancelled s \<and> pa_number a = pw_attempt s"

definition handleQrScanned :: "string \<Rightarrow> wizard_state \<Rightarrow> wizard_state" where
  "handleQrScanned payload s =
     start_attempt (QrClientAttempt payload)
       (s\<lparr>pw_scannerOpen := False, pw_error := None, pw_step := ConnectingStep,
          pw_status := Tr ''pairing.connecting_qr'' []\<rparr>)"

definition enter_password :: message where
  "enter_password = Tr ''pairing.err_enter_password'' []"

definition handleSaveAdoptedVaultWithPassword :: "wizard_state \<Rightarrow> wizard_state" where
  "handleSaveAdoptedVaultWithPassword s =
     (if trim (pw_password s) = [] then s\<lparr>pw_error := Some enter_password\<rparr>
      else start_attempt (AdoptAttempt (pw_password s))
             (native_call (CompleteAdopted (pw_password s))
                (s\<lparr>pw_error := None, pw_step := ConnectingStep, pw_status := Tr ''pairing.saving_adopted_vault'' []\<rparr>)))"

definition handlePasswordAdvance :: "wizard_state \<Rightarrow> wizard_state" where
  "handlePasswordAdvance s =
     (if trim (pw_password s) = [] then s\<lparr>pw_error := Some enter_password\<rparr>
      else s\<lparr>pw_error := None, pw_step := CodeStep\<rparr>)"

definition handlePasswordSubmit :: "wizard_state \<Rightarrow> wizard_state" where
  "handlePasswordSubmit s =
     (if pw_manualAdoption s then handleSaveAdoptedVaultWithPassword s else handlePasswordAdvance s)"

definition startHostListening :: "wizard_state \<Rightarrow> wizard_state" where
  "startHostListening s =
     (if pw_pairingCode s = [] then s
      else if pw_password s = [] then s\<lparr>pw_error := Some enter_password, pw_step := PasswordStep\<rparr>
      else start_attempt (HostAttempt (pw_password s) (pw_pairingCode s))
             (s\<lparr>pw_error := None, pw_step := ConnectingStep, pw_status := Tr ''pairing.waiting_for_peer'' []\<rparr>))"

definition full_code :: "wizard_state \<Rightarrow> string" where
  "full_code s = concat (pw_digits s)"

text \<open>The path of the vault to merge into, empty for a device that adopts the vault.\<close>

definition merge_path :: "wizard_state \<Rightarrow> string" where
  "merge_path s =
     (if pw_adoptMode s \<or> pw_locked s then []
      else case pw_vault s of None \<Rightarrow> [] | Some v \<Rightarrow> va_path v)"

definition startClientConnecting :: "wizard_state \<Rightarrow> wizard_state" where
  "startClientConnecting s =
     (if pw_password s = [] then s\<lparr>pw_error := Some enter_password\<rparr>
      else if length (full_code s) \<noteq> 6 then s\<lparr>pw_error := Some (Tr ''pairing.err_enter_pin'' [])\<rparr>
      else start_attempt (ClientAttempt (pw_password s) (full_code s) (pw_manualIp s) (merge_path s))
             (s\<lparr>pw_error := None, pw_step := ConnectingStep\<rparr>))"

section \<open>The answers an attempt waits for\<close>

datatype attempt_answer =
    Rejected rejection
  | HostCancelled
  | Discovered "string option"
  | QrPaired qr_client_result
  | Paired pairing_stats

definition drop_attempt :: "nat \<Rightarrow> wizard_state \<Rightarrow> wizard_state" where
  "drop_attempt i s = s\<lparr>pw_attempts := take i (pw_attempts s) @ drop (Suc i) (pw_attempts s)\<rparr>"

definition set_stage :: "nat \<Rightarrow> attempt_stage \<Rightarrow> wizard_state \<Rightarrow> wizard_state" where
  "set_stage i g s = s\<lparr>pw_attempts := (pw_attempts s)[i := (pw_attempts s ! i)\<lparr>pa_stage := g\<rparr>]\<rparr>"

definition failed_step :: "attempt_kind \<Rightarrow> wizard_page" where
  "failed_step k = (case k of AdoptAttempt _ \<Rightarrow> PasswordStep | _ \<Rightarrow> CodeStep)"

definition failed_key :: "attempt_kind \<Rightarrow> string" where
  "failed_key k =
     (case k of AdoptAttempt _ \<Rightarrow> ''pairing.err_failed'' | HostAttempt _ _ \<Rightarrow> ''pairing.err_failed''
      | _ \<Rightarrow> ''pairing.err_connect_failed'')"

definition attempt_failed :: "attempt_kind \<Rightarrow> message \<Rightarrow> wizard_state \<Rightarrow> wizard_state" where
  "attempt_failed k m s = s\<lparr>pw_error := Some m, pw_step := failed_step k\<rparr>"

definition clean_ip :: "string \<Rightarrow> string" where
  "clean_ip a = trim (hd (split_on (CHR '':'') a))"

definition with_port :: "string \<Rightarrow> string" where
  "with_port ip = (if CHR '':'' \<in> set ip then ip else ip @ '':5324'')"

definition connect_client :: "nat \<Rightarrow> attempt_kind \<Rightarrow> string \<Rightarrow> wizard_state \<Rightarrow> wizard_state" where
  "connect_client i k addr s =
     (case k of
        ClientAttempt pw code ip path \<Rightarrow>
          native_call (StartClient addr pw code (if truthy_str (pw_adoptedPath s) then the (pw_adoptedPath s) else path))
            (set_stage i (WaitNative addr) (s\<lparr>pw_status := Tr ''pairing.connecting_addr'' [(''addr'', addr)]\<rparr>))
      | _ \<Rightarrow> s)"

text \<open>What an attempt does once the old host has been cancelled.\<close>

definition attempt_ready :: "nat \<Rightarrow> attempt_kind \<Rightarrow> wizard_state \<Rightarrow> wizard_state" where
  "attempt_ready i k s =
     (case k of
        QrClientAttempt payload \<Rightarrow> native_call (StartQrClient payload) (set_stage i (WaitNative []) s)
      | HostAttempt pw code \<Rightarrow> native_call (StartHost ''0.0.0.0:5324'' pw code) (set_stage i (WaitNative []) s)
      | ClientAttempt pw code ip path \<Rightarrow>
          if trim ip \<noteq> [] then connect_client i k (with_port (trim ip)) s
          else native_call (ScanPairing pw code 10000)
                 (set_stage i WaitScan (s\<lparr>pw_status := Tr ''pairing.scanning_beacon'' []\<rparr>))
      | AdoptAttempt pw \<Rightarrow> s)"

definition qr_client_done :: "qr_client_result \<Rightarrow> wizard_state \<Rightarrow> wizard_state" where
  "qr_client_done res s =
     (let s = (if truthy_str (qc_sas_code res) then s\<lparr>pw_clientSas := qc_sas_code res\<rparr> else s);
          s = (if truthy_str (ps_vault_path (qc_stats res)) then s\<lparr>pw_adoptedPath := ps_vault_path (qc_stats res)\<rparr> else s);
          s = s\<lparr>pw_stats := Some (qc_stats res)\<rparr>
      in if qc_needs_password res then s\<lparr>pw_manualAdoption := True, pw_step := PasswordStep, pw_status := Plain []\<rparr>
         else success_toast (qc_stats res)
                (s\<lparr>pw_canEnroll := qc_has_master_password res, pw_step := SuccessStep\<rparr>))"

definition attempt_paired :: "attempt_kind \<Rightarrow> string \<Rightarrow> pairing_stats \<Rightarrow> wizard_state \<Rightarrow> wizard_state" where
  "attempt_paired k addr stats s =
     (let s = s\<lparr>pw_stats := Some stats, pw_step := SuccessStep\<rparr>
      in success_toast stats
        (case k of
           AdoptAttempt _ \<Rightarrow> s\<lparr>pw_canEnroll := True, pw_manualAdoption := False, pw_password := []\<rparr>
         | HostAttempt _ _ \<Rightarrow>
             (if truthy_str (ps_peer_addr stats) then s\<lparr>pw_lastPeer := Some (clean_ip (the (ps_peer_addr stats)))\<rparr> else s)
         | _ \<Rightarrow>
             (let raw = (if truthy_str (ps_peer_addr stats) then the (ps_peer_addr stats) else addr);
                  s = (if truthy_str (ps_vault_path stats) then s\<lparr>pw_adoptedPath := ps_vault_path stats\<rparr> else s)
              in if raw \<noteq> [] then s\<lparr>pw_lastPeer := Some (clean_ip raw)\<rparr> else s)))"

text \<open>
  The continuation of attempt \<open>i\<close>. A scan that found nobody shows the field for the address before
  it asks whether the attempt is still live.
\<close>

definition attempt_queue :: "nat \<Rightarrow> wizard_state \<Rightarrow> wizard_state" where
  "attempt_queue i s =
     (if i < length (pw_attempts s)
      then (case pa_stage (pw_attempts s ! i) of
              WaitQueue n \<Rightarrow>
                if pw_done s < n then s
                else if live s (pw_attempts s ! i) then native_call CancelPairingHost (set_stage i WaitCancel s)
                else drop_attempt i s
            | _ \<Rightarrow> s)
      else s)"

definition attempt_answered :: "nat \<Rightarrow> attempt_answer \<Rightarrow> wizard_state \<Rightarrow> wizard_state" where
  "attempt_answered i ans s =
     (if length (pw_attempts s) \<le> i then s
      else let a = pw_attempts s ! i; k = pa_kind a; ok = live s a
           in case (pa_stage a, ans) of
                (WaitQueue n, _) \<Rightarrow> s
              | (_, Rejected e) \<Rightarrow>
                  let s = drop_attempt i s in if ok then attempt_failed k (attempt_error (failed_key k) e) s else s
              | (WaitCancel, HostCancelled) \<Rightarrow> if ok then attempt_ready i k s else drop_attempt i s
              | (WaitScan, Discovered found) \<Rightarrow>
                  if \<not> truthy_str found
                  then let s = drop_attempt i (s\<lparr>pw_showManualIp := True\<rparr>)
                       in if ok then attempt_failed k (Tr ''pairing.err_no_peer'' []) s else s
                  else if ok then connect_client i k (the found) s else drop_attempt i s
              | (WaitNative addr, QrPaired res) \<Rightarrow>
                  (case k of
                     QrClientAttempt _ \<Rightarrow> let s = drop_attempt i s in if ok then qr_client_done res s else s
                   | _ \<Rightarrow> s)
              | (WaitNative addr, Paired stats) \<Rightarrow>
                  (case k of
                     QrClientAttempt _ \<Rightarrow> s
                   | _ \<Rightarrow> let s = drop_attempt i s in if ok then attempt_paired k addr stats s else s)
              | _ \<Rightarrow> s)"

section \<open>Events\<close>

datatype wizard_event =
    SetProps bool "pairing_role option"
  | EscapePressed
  | CloseClicked
  | VpnInfo
  | VpnClosed
  | VpnConfirmed bool
  | ChooseRole pairing_role
  | TypePassword string
  | SubmitPassword
  | BackToRole
  | BackToPassword
  | ChooseMode pairing_mode
  | SetInclude bool
  | RefreshQr
  | OpenScanner
  | ScannerClosed
  | QrScanned string
  | TypeDigit nat string
  | PasteDigits string
  | ConnectPressed
  | ToggleManualIp
  | TypeManualIp string
  | ListenClicked
  | CancelConnecting
  | EnrollClicked
  | SetAuto bool
  | SyncAgain
  | Finish
  | QueueStart
  | QueueCancelled "rejection option"
  | QueueSession "rejection + qr_session"
  | HostSettled nat "rejection + pairing_stats"
  | AttemptQueue nat
  | AttemptAnswered nat attempt_answer
  | CodeGenerated "rejection + string"
  | BioAnswered "bool option"
  | EnrollSettled "rejection option"
  | UnmountWizard

text \<open>The dialog is on the screen with nothing above it.\<close>

definition shown :: "wizard_state \<Rightarrow> bool" where
  "shown s \<longleftrightarrow> pw_mounted s \<and> pw_isOpen s \<and> \<not> pw_scannerOpen s \<and> \<not> pw_vpnOpen s"

definition at_page :: "wizard_page \<Rightarrow> wizard_state \<Rightarrow> bool" where
  "at_page st s \<longleftrightarrow> shown s \<and> pw_step s = st"

definition code_page :: "pairing_role \<Rightarrow> pairing_mode \<Rightarrow> wizard_state \<Rightarrow> bool" where
  "code_page r m s \<longleftrightarrow> at_page CodeStep s \<and> pw_role s = r \<and> pw_mode s = m"

definition typePassword :: "string \<Rightarrow> wizard_state \<Rightarrow> wizard_state" where
  "typePassword t s = s\<lparr>pw_password := t, pw_error := None\<rparr>"

definition closeVpn :: "wizard_state \<Rightarrow> wizard_state" where
  "closeVpn s = (if pw_vpnInitial s then handleClose s else s\<lparr>pw_vpnOpen := False\<rparr>)"

definition confirmVpn :: "bool \<Rightarrow> wizard_state \<Rightarrow> wizard_state" where
  "confirmVpn dontAskAgain s = s\<lparr>pw_vpnDismissed := dontAskAgain, pw_vpnOpen := False, pw_vpnInitial := False\<rparr>"

definition backToRole :: "wizard_state \<Rightarrow> wizard_state" where
  "backToRole s =
     (if at_page PasswordStep s
      then (if pw_defaultRole s = None \<and> \<not> pw_manualAdoption s then s\<lparr>pw_step := RoleStep\<rparr> else handleClose s)
      else if pw_defaultRole s = None then s\<lparr>pw_step := RoleStep\<rparr>
      else if pw_mode s = PinMode then handleClose s else s)"

definition backToPassword :: "wizard_state \<Rightarrow> wizard_state" where
  "backToPassword s =
     (if pw_mode s = QrMode then enqueue CancelQrTask s else s)\<lparr>pw_step := PasswordStep\<rparr>"

definition chooseMode :: "pairing_mode \<Rightarrow> wizard_state \<Rightarrow> wizard_state" where
  "chooseMode m s =
     (let s = s\<lparr>pw_mode := m, pw_error := None\<rparr> in if m = PinMode then enqueue CancelQrTask s else s)"

definition handleDigitChange :: "nat \<Rightarrow> string \<Rightarrow> wizard_state \<Rightarrow> wizard_state" where
  "handleDigitChange i v s =
     (let char = (if v = [] then [] else [last v])
      in if list_all is_digit char then s\<lparr>pw_digits := (pw_digits s)[i := char], pw_error := None\<rparr> else s)"

definition handlePaste :: "string \<Rightarrow> wizard_state \<Rightarrow> wizard_state" where
  "handlePaste v s =
     (let pasted = take 6 (filter is_digit v)
      in if pasted = [] then s
         else s\<lparr>pw_digits := map (\<lambda>c. [c]) pasted @ replicate (6 - length pasted) []\<rparr>)"

definition cancelConnecting :: "wizard_state \<Rightarrow> wizard_state" where
  "cancelConnecting s = (enqueue CancelQrTask (enqueue CancelPairingTask (outdate_attempts s)))\<lparr>pw_step := CodeStep\<rparr>"

definition handleEnrollBiometric :: "wizard_state \<Rightarrow> wizard_state" where
  "handleEnrollBiometric s =
     (if \<not> pw_canEnroll s then s
      else native_call EnableBiometricCall (s\<lparr>pw_enrolling := True, pw_enrollWaits := Suc (pw_enrollWaits s)\<rparr>))"

definition enroll_settled :: "rejection option \<Rightarrow> wizard_state \<Rightarrow> wizard_state" where
  "enroll_settled err s =
     (if pw_enrollWaits s = 0 then s
      else let s = s\<lparr>pw_enrollWaits := pw_enrollWaits s - 1, pw_enrolling := False\<rparr>
           in case err of
                None \<Rightarrow> pairing_toast (Tr ''pairing.biometric_enrolled_success'' []) ToastSuccess
                          (s\<lparr>pw_bioEnrolled := True, pw_canEnroll := False\<rparr>)
              | Some e \<Rightarrow> pairing_toast
                    (Plain (case e of RejectedText t \<Rightarrow> t
                            | RejectedError m \<Rightarrow> if m = [] then ''Kunde inte aktivera biometri'' else m)) ToastError s)"

definition setAuto :: "bool \<Rightarrow> wizard_state \<Rightarrow> wizard_state" where
  "setAuto v s = (if pw_role s = Host then s\<lparr>pw_autoListen := v\<rparr> else s\<lparr>pw_autoSync := v, pw_autoListen := v\<rparr>)"

definition code_generated :: "rejection + string \<Rightarrow> wizard_state \<Rightarrow> wizard_state" where
  "code_generated res s =
     (if pw_codeWaits s = 0 then s
      else let s = s\<lparr>pw_codeWaits := pw_codeWaits s - 1\<rparr>
           in case res of
                Inr code \<Rightarrow> s\<lparr>pw_pairingCode := code\<rparr>
              | Inl e \<Rightarrow> s\<lparr>pw_error := Some (Tr ''pairing.err_code_gen''
                          [(''err'', case e of RejectedText t \<Rightarrow> t | RejectedError m \<Rightarrow> ''Error: '' @ m)])\<rparr>)"

definition bio_answered :: "bool option \<Rightarrow> wizard_state \<Rightarrow> wizard_state" where
  "bio_answered res s =
     (if pw_bioWaits s = 0 then s
      else let s = s\<lparr>pw_bioWaits := pw_bioWaits s - 1\<rparr>
           in case res of None \<Rightarrow> s | Some b \<Rightarrow> s\<lparr>pw_bioAvailable := b\<rparr>)"

text \<open>Unmounting runs the clean-ups: that of the QR attempt first, then that of the dialog.\<close>

definition unmount_wizard :: "wizard_state \<Rightarrow> wizard_state" where
  "unmount_wizard s =
     (enqueue CancelQrTask (enqueue CancelPairingTask (forget_secrets (outdate_attempts (dispose_qr s)))))
       \<lparr>pw_mounted := False, pw_isOpen := False\<rparr>"

definition guarded :: "bool \<Rightarrow> (wizard_state \<Rightarrow> wizard_state) \<Rightarrow> wizard_state \<Rightarrow> wizard_state" where
  "guarded b f s = (if b then f s else s)"

fun wizard_handle :: "wizard_event \<Rightarrow> wizard_state \<Rightarrow> wizard_state" where
  "wizard_handle (SetProps o' r) s = guarded (pw_mounted s) (set_props o' r) s"
| "wizard_handle EscapePressed s =
     (if pw_mounted s \<and> pw_vpnOpen s then closeVpn s else guarded (pw_mounted s \<and> pw_isOpen s) handleClose s)"
| "wizard_handle CloseClicked s = guarded (shown s) handleClose s"
| "wizard_handle VpnInfo s = guarded (shown s) (\<lambda>s. s\<lparr>pw_vpnInitial := False, pw_vpnOpen := True\<rparr>) s"
| "wizard_handle VpnClosed s = guarded (pw_mounted s \<and> pw_vpnOpen s) closeVpn s"
| "wizard_handle (VpnConfirmed d) s = guarded (pw_mounted s \<and> pw_vpnOpen s) (confirmVpn d) s"
| "wizard_handle (ChooseRole r) s =
     guarded (at_page RoleStep s)
       (\<lambda>s. s\<lparr>pw_role := r, pw_step := (if r = Host then PasswordStep else CodeStep)\<rparr>) s"
| "wizard_handle (TypePassword t) s = guarded (at_page PasswordStep s \<or> code_page Client PinMode s) (typePassword t) s"
| "wizard_handle SubmitPassword s = guarded (at_page PasswordStep s) handlePasswordSubmit s"
| "wizard_handle BackToRole s = guarded (at_page PasswordStep s \<or> at_page CodeStep s \<and> pw_role s = Client) backToRole s"
| "wizard_handle BackToPassword s = guarded (at_page CodeStep s \<and> pw_role s = Host) backToPassword s"
| "wizard_handle (ChooseMode m) s = guarded (at_page CodeStep s) (chooseMode m) s"
| "wizard_handle (SetInclude b) s =
     guarded (code_page Host QrMode s) (\<lambda>s. s\<lparr>pw_include := b, pw_qrSession := None\<rparr>) s"
| "wizard_handle RefreshQr s =
     guarded (code_page Host QrMode s \<and> pw_qrSession s \<noteq> None) (\<lambda>s. s\<lparr>pw_revision := Suc (pw_revision s)\<rparr>) s"
| "wizard_handle OpenScanner s = guarded (code_page Client QrMode s) (\<lambda>s. s\<lparr>pw_scannerOpen := True\<rparr>) s"
| "wizard_handle ScannerClosed s = guarded (pw_mounted s \<and> pw_scannerOpen s) (\<lambda>s. s\<lparr>pw_scannerOpen := False\<rparr>) s"
| "wizard_handle (QrScanned p) s = guarded (pw_mounted s \<and> pw_scannerOpen s) (handleQrScanned p) s"
| "wizard_handle (TypeDigit i v) s = guarded (code_page Client PinMode s \<and> i < 6) (handleDigitChange i v) s"
| "wizard_handle (PasteDigits v) s = guarded (code_page Client PinMode s) (handlePaste v) s"
| "wizard_handle ConnectPressed s =
     guarded (code_page Client PinMode s \<and> length (full_code s) = 6) startClientConnecting s"
| "wizard_handle ToggleManualIp s =
     guarded (code_page Client PinMode s) (\<lambda>s. s\<lparr>pw_showManualIp := \<not> pw_showManualIp s\<rparr>) s"
| "wizard_handle (TypeManualIp v) s =
     guarded (code_page Client PinMode s \<and> pw_showManualIp s)
       (\<lambda>s. s\<lparr>pw_manualIp := formatIpv4Input v (pw_manualIp s)\<rparr>) s"
| "wizard_handle ListenClicked s =
     guarded (code_page Host PinMode s \<and> pw_password s \<noteq> [] \<and> pw_pairingCode s \<noteq> []) startHostListening s"
| "wizard_handle CancelConnecting s = guarded (at_page ConnectingStep s) cancelConnecting s"
| "wizard_handle EnrollClicked s =
     guarded (at_page SuccessStep s \<and> pw_canEnroll s \<and> pw_bioAvailable s \<and> \<not> pw_bioEnrolled s \<and> \<not> pw_enrolling s)
       handleEnrollBiometric s"
| "wizard_handle (SetAuto v) s = guarded (at_page SuccessStep s) (setAuto v) s"
| "wizard_handle SyncAgain s = guarded (at_page SuccessStep s) (\<lambda>s. s\<lparr>pw_step := CodeStep\<rparr>) s"
| "wizard_handle Finish s = guarded (at_page SuccessStep s) handleFinishSuccess s"
| "wizard_handle QueueStart s = queue_start s"
| "wizard_handle (QueueCancelled err) s = queue_cancelled err s"
| "wizard_handle (QueueSession res) s = queue_session res s"
| "wizard_handle (HostSettled k res) s = host_settled k res s"
| "wizard_handle (AttemptQueue i) s = attempt_queue i s"
| "wizard_handle (AttemptAnswered i ans) s = attempt_answered i ans s"
| "wizard_handle (CodeGenerated res) s = code_generated res s"
| "wizard_handle (BioAnswered res) s = bio_answered res s"
| "wizard_handle (EnrollSettled err) s = enroll_settled err s"
| "wizard_handle UnmountWizard s = guarded (pw_mounted s) unmount_wizard s"

text \<open>Every event is followed by a render and its effects, as long as the dialog is mounted.\<close>

definition wizard_step :: "wizard_event \<Rightarrow> wizard_state \<Rightarrow> wizard_state" where
  "wizard_step e s = (let s = wizard_handle e s in if pw_mounted s then after_render s else s)"

text \<open>The state of a new dialog; the settings it reads are \<open>p2pAutoListen\<close> and \<open>p2pAutoSyncWifi\<close>.\<close>

definition init_wizard :: "pairing_role option \<Rightarrow> bool \<Rightarrow> bool \<Rightarrow> vault option \<Rightarrow> bool option \<times> bool option \<Rightarrow> bool \<Rightarrow> wizard_state" where
  "init_wizard r adopt locked v st dismissed =
     \<lparr>pw_mounted = True, pw_isOpen = False, pw_defaultRole = r, pw_adoptMode = adopt, pw_locked = locked, pw_vault = v,
      pw_settingListen = fst st, pw_step = first_step r, pw_role = or_else r Host, pw_mode = QrMode,
      pw_qrSession = None, pw_scannerOpen = False, pw_include = True, pw_canEnroll = False, pw_clientSas = None,
      pw_manualAdoption = False, pw_bioAvailable = False, pw_bioEnrolled = False, pw_enrolling = False,
      pw_vpnOpen = False, pw_vpnInitial = False, pw_vpnDismissed = dismissed, pw_pairingCode = [],
      pw_digits = no_digits, pw_password = [], pw_error = None, pw_status = Plain [], pw_stats = None,
      pw_manualIp = [], pw_showManualIp = False, pw_autoListen = or_else (fst st) True,
      pw_autoSync = or_else (snd st) True, pw_cancelled = False, pw_attempt = 0,
      pw_adoptedPath = None, pw_lastPeer = None, pw_tasks = [], pw_done = 0, pw_queue = QueueIdle,
      pw_revision = 0, pw_effects = [], pw_current = None, pw_qrDeps = None, pw_codeDeps = None, pw_codeWaits = 0,
      pw_bioWaits = 0, pw_enrollWaits = 0, pw_hostWaits = [], pw_attempts = [], pw_calls = [], pw_toggles = [],
      pw_updates = [], pw_finished = [], pw_closes = 0, pw_toasts = []\<rparr>"

text \<open>The first render of the dialog, which both places mount closed.\<close>

definition mount_wizard :: "pairing_role option \<Rightarrow> bool \<Rightarrow> bool \<Rightarrow> vault option \<Rightarrow> bool option \<times> bool option \<Rightarrow> bool \<Rightarrow> wizard_state" where
  "mount_wizard r adopt locked v st dismissed = after_render (init_wizard r adopt locked v st dismissed)"

end
