(* ===== verification/Pairing_Safety.thy ===== *)
theory Pairing_Safety
  imports Pairing_Wizard
begin

text \<open>
  What holds for the pairing dialog of \<open>Pairing_Wizard\<close>: who may start a QR host, that hosts do not overlap,
  that a given-up attempt has no effect, and that the password is forgotten.
\<close>

section \<open>What the handlers leave alone\<close>

lemmas wizard_basics =
  native_call_def enqueue_def pairing_toast_def success_toast_def guarded_def task_done_def set_stage_def drop_attempt_def Let_def

lemmas wizard_ops =
  reset_wizard_def opened_effect_def biometric_effect_def vpn_notice_def set_props_def onClose_def forget_secrets_def
  outdate_attempts_def handleClose_def handleFinishSuccess_def queue_start_def prepare_failed_def
  queue_cancelled_def queue_session_def host_settled_def start_attempt_def handleQrScanned_def
  handleSaveAdoptedVaultWithPassword_def handlePasswordAdvance_def handlePasswordSubmit_def startHostListening_def
  startClientConnecting_def attempt_failed_def connect_client_def attempt_ready_def qr_client_done_def attempt_paired_def
  attempt_queue_def attempt_answered_def typePassword_def closeVpn_def confirmVpn_def backToRole_def backToPassword_def
  chooseMode_def handleDigitChange_def handlePaste_def cancelConnecting_def handleEnrollBiometric_def enroll_settled_def
  setAuto_def code_generated_def bio_answered_def

lemmas wizard_splits =
  option.split sum.split qr_task.split attempt_kind.split attempt_stage.split attempt_answer.split if_split

text \<open>What the QR effect owns: only rendering and unmounting change it.\<close>

definition same_qr :: "wizard_state \<Rightarrow> wizard_state \<Rightarrow> bool" where
  "same_qr s t \<longleftrightarrow>
     pw_effects t = pw_effects s \<and> pw_current t = pw_current s \<and> pw_qrDeps t = pw_qrDeps s \<and>
     (\<forall>i. PrepareQr i \<in> set (pw_tasks t) \<longleftrightarrow> PrepareQr i \<in> set (pw_tasks s))"

lemma handle_effects:
  assumes "e \<noteq> UnmountWizard"
  shows "pw_effects (wizard_handle e s) = pw_effects s" and "pw_current (wizard_handle e s) = pw_current s"
    and "pw_qrDeps (wizard_handle e s) = pw_qrDeps s" and "pw_mounted (wizard_handle e s) = pw_mounted s"
    and "PrepareQr i \<in> set (pw_tasks (wizard_handle e s)) \<longleftrightarrow> PrepareQr i \<in> set (pw_tasks s)"
  using assms
  by (cases e; simp add: wizard_basics wizard_ops split: wizard_splits)+

lemma handle_same_qr: "e \<noteq> UnmountWizard \<Longrightarrow> same_qr s (wizard_handle e s)"
  by (simp add: same_qr_def handle_effects)

definition qr_owned :: "wizard_state \<Rightarrow> bool" where
  "qr_owned s \<longleftrightarrow>
     (\<forall>i. PrepareQr i \<in> set (pw_tasks s) \<longrightarrow> i < length (pw_effects s)) \<and>
     (\<forall>i < length (pw_effects s). \<not> qe_disposed (pw_effects s ! i) \<longrightarrow> pw_current s = Some i) \<and>
     (\<forall>i. pw_current s = Some i \<longrightarrow> i < length (pw_effects s) \<and>
        (\<exists>d. pw_qrDeps s = Some d \<and> qr_wanted d \<and> qe_password (pw_effects s ! i) = qd_password d \<and>
             qe_include (pw_effects s ! i) = qd_include d))"

lemma owned_current:
  "qr_owned s \<Longrightarrow> PrepareQr i \<in> set (pw_tasks s) \<Longrightarrow> \<not> effect_disposed s i \<Longrightarrow> pw_current s = Some i"
  unfolding qr_owned_def effect_disposed_def by blast

lemma owned_deps:
  "qr_owned s \<Longrightarrow> pw_current s = Some i \<Longrightarrow>
     \<exists>d. pw_qrDeps s = Some d \<and> qr_wanted d \<and> qe_password (pw_effects s ! i) = qd_password d \<and>
         qe_include (pw_effects s ! i) = qd_include d"
  unfolding qr_owned_def by blast

lemma qr_owned_same: "same_qr s t \<Longrightarrow> qr_owned t = qr_owned s"
  by (simp add: same_qr_def qr_owned_def)

lemma qr_owned_dispose:
  assumes "qr_owned s"
  shows "qr_owned (dispose_qr s) \<and> pw_current (dispose_qr s) = None"
proof (cases "pw_current s")
  case None
  then show ?thesis using assms by (simp add: dispose_qr_def)
next
  case (Some i)
  have "qe_disposed (pw_effects (dispose_qr s) ! j)" if "j < length (pw_effects s)" for j
    using assms Some that by (cases "j = i") (auto simp: qr_owned_def dispose_qr_def enqueue_def)
  then show ?thesis using assms Some by (simp add: qr_owned_def dispose_qr_def enqueue_def)
qed

lemma effect_mounted [simp]:
  "pw_mounted (code_effect s) = pw_mounted s" "pw_mounted (dispose_qr s) = pw_mounted s"
  "pw_mounted (start_qr s) = pw_mounted s" "pw_mounted (qr_host_effect s) = pw_mounted s"
  by (simp_all add: code_effect_def dispose_qr_def start_qr_def qr_host_effect_def enqueue_def native_call_def Let_def
      split: option.split)

lemma code_effect_same: "same_qr s (code_effect s)"
  by (simp add: code_effect_def same_qr_def native_call_def Let_def)

lemma code_effect_deps [simp]: "qr_deps_of (code_effect s) = qr_deps_of s"
  by (simp add: code_effect_def qr_deps_of_def native_call_def Let_def)

lemma qr_deps_dispose [simp]: "qr_deps_of (dispose_qr s) = qr_deps_of s"
  by (simp add: dispose_qr_def qr_deps_of_def enqueue_def split: option.split)

lemma qr_owned_start:
  assumes "qr_owned s" and "pw_current s = None" and "pw_qrDeps s = Some (qr_deps_of s)"
  shows "qr_owned (start_qr s) \<and> pw_qrDeps (start_qr s) = Some (qr_deps_of (start_qr s))"
  using assms
  by (auto simp: qr_owned_def start_qr_def enqueue_def nth_append less_Suc_eq qr_deps_of_def)

lemma qr_owned_effect:
  assumes "qr_owned s"
  shows "qr_owned (qr_host_effect s) \<and> pw_qrDeps (qr_host_effect s) = Some (qr_deps_of (qr_host_effect s))"
proof (cases "pw_qrDeps s = Some (qr_deps_of s)")
  case True
  then show ?thesis using assms by (simp add: qr_host_effect_def)
next
  case False
  let ?s = "s\<lparr>pw_qrDeps := Some (qr_deps_of s)\<rparr>"
  have d: "qr_deps_of ?s = qr_deps_of s" by (simp add: qr_deps_of_def)
  have "qr_owned (dispose_qr s) \<and> pw_current (dispose_qr s) = None" by (rule qr_owned_dispose) fact
  then have "qr_owned (dispose_qr ?s) \<and> pw_current (dispose_qr ?s) = None"
    by (auto simp: qr_owned_def dispose_qr_def enqueue_def split: option.split)
  moreover have "pw_qrDeps (dispose_qr ?s) = Some (qr_deps_of (dispose_qr ?s))"
    by (simp add: d) (simp add: dispose_qr_def enqueue_def split: option.split)
  ultimately show ?thesis using False by (simp add: qr_host_effect_def qr_owned_start)
qed

definition wizard_inv :: "wizard_state \<Rightarrow> bool" where
  "wizard_inv s \<longleftrightarrow> qr_owned s \<and> (if pw_mounted s then pw_qrDeps s = Some (qr_deps_of s) else pw_current s = None)"

lemma wizard_inv_step [inv_steps]:
  assumes "wizard_inv s"
  shows "wizard_inv (wizard_step e s)"
proof -
  have owned: "qr_owned s" using assms by (simp add: wizard_inv_def)
  show ?thesis
  proof (cases "e = UnmountWizard")
    case False
    then have h: "same_qr s (wizard_handle e s)" by (rule handle_same_qr)
    then have "qr_owned (wizard_handle e s)" using owned qr_owned_same by blast
    then have "qr_owned (code_effect (wizard_handle e s))" using qr_owned_same [OF code_effect_same] by blast
    from qr_owned_effect [OF this] show ?thesis
      using h assms \<open>qr_owned (wizard_handle e s)\<close> handle_effects(4) [OF False, of s]
      by (cases "pw_mounted s") (simp_all add: wizard_inv_def wizard_step_def after_render_def same_qr_def Let_def)
  next
    case True
    have d: "qr_owned (dispose_qr s) \<and> pw_current (dispose_qr s) = None"
      using owned by (rule qr_owned_dispose)
    have "same_qr (dispose_qr s) (unmount_wizard s)"
      by (simp add: same_qr_def unmount_wizard_def enqueue_def forget_secrets_def outdate_attempts_def)
    with d have "qr_owned (unmount_wizard s) \<and> pw_current (unmount_wizard s) = None"
      using qr_owned_same [of "dispose_qr s" "unmount_wizard s"] by (simp add: same_qr_def)
    moreover have "\<not> pw_mounted (unmount_wizard s)" by (simp add: unmount_wizard_def)
    ultimately show ?thesis
      using assms True by (cases "pw_mounted s") (simp_all add: wizard_inv_def wizard_step_def guarded_def)
  qed
qed

interpretation wizard_machine: invariant_machine wizard_step wizard_inv
  by unfold_locales (rule wizard_inv_step)

lemma wizard_inv_mount: "wizard_inv (mount_wizard r adopt locked v st dismissed)"
proof -
  have "qr_owned (init_wizard r adopt locked v st dismissed)"
    by (simp add: qr_owned_def init_wizard_def)
  then have "qr_owned (code_effect (init_wizard r adopt locked v st dismissed))"
    using qr_owned_same [OF code_effect_same] by blast
  from qr_owned_effect [OF this] show ?thesis
    by (simp add: wizard_inv_def mount_wizard_def after_render_def init_wizard_def)
qed

section \<open>Which handlers call the native side\<close>

lemma calls_native [simp]: "pw_calls (native_call c s) = pw_calls s @ [c]"
  by (simp add: native_call_def)

lemma calls_basics [simp]:
  "pw_calls (enqueue q s) = pw_calls s"
  "pw_calls (pairing_toast m y s) = pw_calls s"
  "pw_calls (success_toast st s) = pw_calls s"
  "pw_calls (task_done s) = pw_calls s"
  "pw_calls (set_stage i g s) = pw_calls s"
  "pw_calls (drop_attempt i s) = pw_calls s"
  by (simp_all add: enqueue_def pairing_toast_def success_toast_def task_done_def set_stage_def drop_attempt_def Let_def split: wizard_splits)

lemma calls_quiet [simp]:
  "pw_calls (reset_wizard s) = pw_calls s"
  "pw_calls (opened_effect s) = pw_calls s"
  "pw_calls (vpn_notice s) = pw_calls s"
  "pw_calls (forget_secrets s) = pw_calls s"
  "pw_calls (outdate_attempts s) = pw_calls s"
  "pw_calls (handlePasswordAdvance s) = pw_calls s"
  "pw_calls (start_attempt k s) = pw_calls s"
  "pw_calls (attempt_failed k m s) = pw_calls s"
  "pw_calls (qr_client_done r s) = pw_calls s"
  "pw_calls (attempt_paired k a st s) = pw_calls s"
  "pw_calls (typePassword t s) = pw_calls s"
  "pw_calls (confirmVpn b s) = pw_calls s"
  "pw_calls (backToPassword s) = pw_calls s"
  "pw_calls (chooseMode md s) = pw_calls s"
  "pw_calls (enroll_settled er s) = pw_calls s"
  "pw_calls (setAuto b s) = pw_calls s"
  "pw_calls (code_generated rc s) = pw_calls s"
  "pw_calls (bio_answered ob s) = pw_calls s"
  "pw_calls (host_settled i rs s) = pw_calls s"
  "pw_calls (handleDigitChange i t s) = pw_calls s"
  "pw_calls (handlePaste t s) = pw_calls s"
  by (simp_all add: reset_wizard_def opened_effect_def vpn_notice_def forget_secrets_def outdate_attempts_def handlePasswordAdvance_def start_attempt_def attempt_failed_def qr_client_done_def attempt_paired_def typePassword_def confirmVpn_def backToPassword_def chooseMode_def enroll_settled_def setAuto_def code_generated_def bio_answered_def host_settled_def handleDigitChange_def handlePaste_def Let_def split: wizard_splits)

lemma calls_quiet2 [simp]:
  "pw_calls (dispose_qr s) = pw_calls s"
  "pw_calls (start_qr s) = pw_calls s"
  "pw_calls (handleQrScanned t s) = pw_calls s"
  "pw_calls (startHostListening s) = pw_calls s"
  "pw_calls (startClientConnecting s) = pw_calls s"
  "pw_calls (cancelConnecting s) = pw_calls s"
  "pw_calls (prepare_failed i e s) = pw_calls s"
  by (simp_all add: dispose_qr_def start_qr_def handleQrScanned_def startHostListening_def startClientConnecting_def cancelConnecting_def prepare_failed_def Let_def split: wizard_splits)

lemma calls_effect [simp]:
  "pw_calls (qr_host_effect s) = pw_calls s"
  by (simp_all add: qr_host_effect_def Let_def split: wizard_splits)

text \<open>The two calls of the queue that concern the QR host.\<close>

fun starts_qr :: "pairing_call \<Rightarrow> bool" where
  "starts_qr (StartQrHost p i) = True"
| "starts_qr _ = False"

fun qr_call :: "pairing_call \<Rightarrow> bool" where
  "qr_call (StartQrHost p i) = True"
| "qr_call CancelQrPairingHost = True"
| "qr_call _ = False"

abbreviation qr_log :: "wizard_state \<Rightarrow> pairing_call list" where
  "qr_log s \<equiv> filter qr_call (pw_calls s)"

lemma log1 [simp]:
  "qr_log (biometric_effect s) = qr_log s"
  "qr_log (code_effect s) = qr_log s"
  "qr_log (handleSaveAdoptedVaultWithPassword s) = qr_log s"
  "qr_log (connect_client i k a s) = qr_log s"
  "qr_log (handleEnrollBiometric s) = qr_log s"
  "qr_log (queue_cancelled er s) = qr_log s"
  "qr_log (attempt_queue i s) = qr_log s"
  "qr_log (unmount_wizard s) = qr_log s"
  by (simp_all add: biometric_effect_def code_effect_def handleSaveAdoptedVaultWithPassword_def connect_client_def handleEnrollBiometric_def queue_cancelled_def attempt_queue_def unmount_wizard_def Let_def split: wizard_splits)

lemma log2 [simp]:
  "qr_log (set_props b r s) = qr_log s"
  "qr_log (attempt_ready i k s) = qr_log s"
  "qr_log (handlePasswordSubmit s) = qr_log s"
  by (simp_all add: set_props_def attempt_ready_def handlePasswordSubmit_def Let_def split: wizard_splits)

lemma log3 [simp]:
  "qr_log (onClose s) = qr_log s"
  "qr_log (attempt_answered i ans s) = qr_log s"
  by (simp_all add: onClose_def attempt_answered_def Let_def split: wizard_splits)

lemma log4 [simp]:
  "qr_log (handleClose s) = qr_log s"
  "qr_log (handleFinishSuccess s) = qr_log s"
  by (simp_all add: handleClose_def handleFinishSuccess_def Let_def split: wizard_splits)

lemma log5 [simp]:
  "qr_log (closeVpn s) = qr_log s"
  "qr_log (backToRole s) = qr_log s"
  by (simp_all add: closeVpn_def backToRole_def Let_def split: wizard_splits)

lemma handle_log:
  "e \<noteq> QueueStart \<Longrightarrow> \<forall>res. e \<noteq> QueueSession res \<Longrightarrow> qr_log (wizard_handle e s) = qr_log s"
  by (cases e) (simp_all add: guarded_def)

lemma handle_queue:
  assumes "e \<noteq> QueueStart" and "\<forall>err. e \<noteq> QueueCancelled err" and "\<forall>res. e \<noteq> QueueSession res"
  shows "pw_queue (wizard_handle e s) = pw_queue s" and "pw_done (wizard_handle e s) = pw_done s"
    and "\<exists>ts. pw_tasks (wizard_handle e s) = pw_tasks s @ ts"
  using assms
  by (cases e; simp add: unmount_wizard_def dispose_qr_def wizard_basics wizard_ops split: wizard_splits)+

lemma effects_log [simp]:
  "qr_log (after_render s) = qr_log s" "pw_queue (after_render s) = pw_queue s" "pw_done (after_render s) = pw_done s"
  "\<exists>ts. pw_tasks (after_render s) = pw_tasks s @ ts"
  by (simp_all add: after_render_def) (simp_all add: qr_host_effect_def code_effect_def start_qr_def dispose_qr_def
      wizard_basics split: option.split)

lemma start_calls [simp]: "qr_call c \<and> starts_qr c \<longleftrightarrow> starts_qr c" "starts_qr c \<and> qr_call c \<longleftrightarrow> starts_qr c"
  by (cases c; simp)+

section \<open>One host after another\<close>

definition no_two_starts :: "pairing_call list \<Rightarrow> bool" where
  "no_two_starts cs = successively (\<lambda>a b. starts_qr a \<longrightarrow> \<not> starts_qr b) cs"

definition preparing :: "wizard_state \<Rightarrow> bool" where
  "preparing s \<longleftrightarrow> pw_queue s = AwaitSession \<or> pw_queue s = AwaitCancelled \<and> pw_tasks s ! pw_done s \<notin> {CancelPairingTask, CancelQrTask}"

definition queue_inv :: "wizard_state \<Rightarrow> bool" where
  "queue_inv s \<longleftrightarrow>
     (pw_queue s \<noteq> QueueIdle \<longrightarrow> pw_done s < length (pw_tasks s)) \<and>
     (preparing s \<longrightarrow> qr_log s \<noteq> [] \<and> \<not> starts_qr (last (qr_log s))) \<and>
     no_two_starts (qr_log s)"

lemma queue_inv_frame:
  assumes "queue_inv s" and "pw_queue t = pw_queue s" and "pw_done t = pw_done s"
    and "\<exists>ts. pw_tasks t = pw_tasks s @ ts" and "qr_log t = qr_log s"
  shows "queue_inv t"
  using assms by (auto simp: queue_inv_def preparing_def nth_append)

lemma queue_inv_start: "queue_inv s \<Longrightarrow> queue_inv (queue_start s)"
  by (auto simp: queue_start_def queue_inv_def preparing_def native_call_def no_two_starts_def successively_append_iff split: qr_task.split)

lemma queue_inv_done: "queue_inv s \<Longrightarrow> queue_inv (task_done s)"
  by (simp add: queue_inv_def preparing_def task_done_def)

lemma queue_inv_failed: "queue_inv s \<Longrightarrow> queue_inv (prepare_failed i e s)"
proof -
  assume "queue_inv s"
  then have "queue_inv (s\<lparr>pw_error := m\<rparr>)" for m by (simp add: queue_inv_def preparing_def)
  then show ?thesis using \<open>queue_inv s\<close> by (simp add: prepare_failed_def queue_inv_done)
qed

lemma queue_inv_cancelled: "queue_inv s \<Longrightarrow> queue_inv (queue_cancelled err s)"
  by (auto simp: queue_cancelled_def queue_inv_done queue_inv_failed split: qr_task.split option.split)
     (auto simp: queue_inv_def preparing_def native_call_def no_two_starts_def successively_append_iff)

lemma queue_inv_session:
  assumes "queue_inv s"
  shows "queue_inv (queue_session res s)"
proof (cases "pw_queue s = AwaitSession")
  case True
  have "queue_inv (task_done (native_call (StartQrHost p inc) (s\<lparr>pw_qrSession := q, pw_hostWaits := w\<rparr>)))" for p inc q w
    using assms True by (auto simp: queue_inv_def preparing_def native_call_def task_done_def no_two_starts_def successively_append_iff)
  then show ?thesis
    using assms by (auto simp: queue_session_def queue_inv_done queue_inv_failed split: qr_task.split sum.split)
qed (simp add: queue_session_def assms)

lemma queue_inv_step: "queue_inv s \<Longrightarrow> queue_inv (wizard_step e s)"
proof -
  assume s: "queue_inv s"
  have "queue_inv (wizard_handle e s)"
  proof (cases "e = QueueStart \<or> (\<exists>err. e = QueueCancelled err) \<or> (\<exists>res. e = QueueSession res)")
    case True
    then show ?thesis using s by (auto simp: queue_inv_start queue_inv_cancelled queue_inv_session)
  next
    case False
    then show ?thesis
      by (intro queue_inv_frame [OF s] handle_queue handle_log) auto
  qed
  moreover from this have "queue_inv (after_render (wizard_handle e s))"
    by (rule queue_inv_frame) simp_all
  ultimately show ?thesis by (simp add: wizard_step_def Let_def)
qed

interpretation wizard_queue: invariant_machine wizard_step queue_inv
  by unfold_locales (rule queue_inv_step)

lemma queue_inv_mount: "queue_inv (mount_wizard r adopt locked v st dismissed)"
proof -
  have "queue_inv (init_wizard r adopt locked v st dismissed)"
    by (simp add: queue_inv_def preparing_def init_wizard_def no_two_starts_def)
  then show ?thesis unfolding mount_wizard_def by (rule queue_inv_frame) simp_all
qed

text \<open>
  Claim C8. Between two starts of a QR host there is always a cancellation of the host before, in the order in
  which the native side is called, whatever the user does and in whatever order calls settle.
\<close>

theorem qr_hosts_do_not_overlap:
  "no_two_starts (filter qr_call (pw_calls (run wizard_step es (mount_wizard r adopt locked v st dismissed))))"
  using wizard_queue.run_inv [OF queue_inv_mount] by (simp add: queue_inv_def)

text \<open>
  Claim C9. A QR host is only started for the page that shows its code: when the native call is made the
  dialog is open at the host's QR code, and the password and the choice to include it are those
  of that moment, whatever has been typed, chosen, cancelled or answered in between.
\<close>

theorem qr_host_started_by_page:
  assumes "s = run wizard_step es (mount_wizard r adopt locked v st dismissed)"
    and "pw_calls (wizard_step e s) = pw_calls s @ cs" and "StartQrHost pw inc \<in> set cs"
  shows "pw_isOpen s \<and> pw_step s = CodeStep \<and> pw_role s = Host \<and> pw_mode s = QrMode \<and>
         pw = pw_password s \<and> inc = pw_include s"
proof -
  have inv: "wizard_inv s" using assms(1) wizard_machine.run_inv [OF wizard_inv_mount] by simp
  have new: "filter starts_qr (qr_log (wizard_step e s)) = filter starts_qr (qr_log s) @ filter starts_qr cs"
    using assms(2) by (simp add: start_calls)
  have log: "qr_log (wizard_step e s) = qr_log (wizard_handle e s)"
    by (simp add: wizard_step_def Let_def)
  have some: "filter starts_qr cs \<noteq> []" using assms(3) by (force simp: filter_empty_conv)
  then have "e = QueueStart \<or> (\<exists>res. e = QueueSession res)"
    using arg_cong [OF handle_log [of e s], of "filter starts_qr"] new log by auto
  moreover have "filter starts_qr (qr_log (queue_start s)) = filter starts_qr (qr_log s)"
    by (simp add: queue_start_def native_call_def start_calls split: qr_task.split)
  ultimately obtain res where e: "e = QueueSession res" using new log some by auto
  obtain i where i: "pw_tasks s ! pw_done s = PrepareQr i" "\<not> effect_disposed s i" "pw_queue s = AwaitSession"
    and now: "filter starts_qr (pw_calls (queue_session res s)) =
      filter starts_qr (pw_calls s) @ [StartQrHost (qe_password (pw_effects s ! i)) (qe_include (pw_effects s ! i))]"
    using some new log unfolding e
    by (auto simp: queue_session_def split: if_splits qr_task.splits sum.splits)
  have "filter starts_qr cs = [StartQrHost (qe_password (pw_effects s ! i)) (qe_include (pw_effects s ! i))]"
    using new log now unfolding e by simp
  then have call: "pw = qe_password (pw_effects s ! i) \<and> inc = qe_include (pw_effects s ! i)"
  proof -
    have "StartQrHost pw inc \<in> set (filter starts_qr cs)" using assms(3) by simp
    then show ?thesis using \<open>filter starts_qr cs = _\<close> by simp
  qed
  have "queue_inv s" using assms(1) wizard_queue.run_inv [OF queue_inv_mount] by simp
  then have "pw_done s < length (pw_tasks s)" using i(3) by (simp add: queue_inv_def)
  from nth_mem [OF this] have "PrepareQr i \<in> set (pw_tasks s)" using i(1) by simp
  with inv i(2) have cur: "pw_current s = Some i" unfolding wizard_inv_def by (blast intro: owned_current)
  with inv have deps: "pw_qrDeps s = Some (qr_deps_of s)" by (simp add: wizard_inv_def split: if_splits)
  obtain d where "pw_qrDeps s = Some d" "qr_wanted d" "qe_password (pw_effects s ! i) = qd_password d"
      "qe_include (pw_effects s ! i) = qd_include d"
    using inv owned_deps [OF _ cur] unfolding wizard_inv_def by blast
  with deps call show ?thesis by (simp add: qr_wanted_def qr_deps_of_def)
qed

section \<open>Credentials of an attempt\<close>

lemma attempts_basics [simp]:
  "pw_attempts (native_call c s) = pw_attempts s"
  "pw_attempts (enqueue q s) = pw_attempts s"
  "pw_attempts (pairing_toast m y s) = pw_attempts s"
  "pw_attempts (task_done s) = pw_attempts s"
  by (simp_all add: native_call_def enqueue_def pairing_toast_def task_done_def Let_def split: wizard_splits)

lemma attempts_quiet [simp]:
  "pw_attempts (success_toast st s) = pw_attempts s"
  "pw_attempts (reset_wizard s) = pw_attempts s"
  "pw_attempts (opened_effect s) = pw_attempts s"
  "pw_attempts (vpn_notice s) = pw_attempts s"
  "pw_attempts (forget_secrets s) = pw_attempts s"
  "pw_attempts (outdate_attempts s) = pw_attempts s"
  "pw_attempts (handlePasswordAdvance s) = pw_attempts s"
  "pw_attempts (attempt_failed k m s) = pw_attempts s"
  "pw_attempts (typePassword t s) = pw_attempts s"
  "pw_attempts (confirmVpn b s) = pw_attempts s"
  "pw_attempts (backToPassword s) = pw_attempts s"
  "pw_attempts (chooseMode md s) = pw_attempts s"
  "pw_attempts (enroll_settled er s) = pw_attempts s"
  "pw_attempts (setAuto b s) = pw_attempts s"
  "pw_attempts (code_generated rc s) = pw_attempts s"
  "pw_attempts (bio_answered ob s) = pw_attempts s"
  "pw_attempts (dispose_qr s) = pw_attempts s"
  "pw_attempts (start_qr s) = pw_attempts s"
  "pw_attempts (handleDigitChange i t s) = pw_attempts s"
  "pw_attempts (handlePaste t s) = pw_attempts s"
  "pw_attempts (biometric_effect s) = pw_attempts s"
  "pw_attempts (code_effect s) = pw_attempts s"
  "pw_attempts (handleEnrollBiometric s) = pw_attempts s"
  "pw_attempts (queue_start s) = pw_attempts s"
  by (simp_all add: success_toast_def reset_wizard_def opened_effect_def vpn_notice_def forget_secrets_def outdate_attempts_def handlePasswordAdvance_def attempt_failed_def typePassword_def confirmVpn_def backToPassword_def chooseMode_def enroll_settled_def setAuto_def code_generated_def bio_answered_def dispose_qr_def start_qr_def handleDigitChange_def handlePaste_def biometric_effect_def code_effect_def handleEnrollBiometric_def queue_start_def Let_def split: wizard_splits)

lemma attempts_quiet2 [simp]:
  "pw_attempts (attempt_paired k a st s) = pw_attempts s"
  "pw_attempts (qr_client_done r s) = pw_attempts s"
  "pw_attempts (prepare_failed i e s) = pw_attempts s"
  "pw_attempts (host_settled i rs s) = pw_attempts s"
  "pw_attempts (qr_host_effect s) = pw_attempts s"
  "pw_attempts (set_props b dr s) = pw_attempts s"
  "pw_attempts (cancelConnecting s) = pw_attempts s"
  "pw_attempts (unmount_wizard s) = pw_attempts s"
  by (simp_all add: attempt_paired_def qr_client_done_def prepare_failed_def host_settled_def qr_host_effect_def set_props_def cancelConnecting_def unmount_wizard_def Let_def split: wizard_splits)

lemma attempts_quiet3 [simp]:
  "pw_attempts (onClose s) = pw_attempts s"
  "pw_attempts (queue_cancelled er s) = pw_attempts s"
  "pw_attempts (queue_session rq s) = pw_attempts s"
  "pw_attempts (after_render s) = pw_attempts s"
  by (simp_all add: onClose_def queue_cancelled_def queue_session_def after_render_def Let_def split: wizard_splits)

lemma attempts_quiet4 [simp]:
  "pw_attempts (handleClose s) = pw_attempts s"
  "pw_attempts (handleFinishSuccess s) = pw_attempts s"
  by (simp_all add: handleClose_def handleFinishSuccess_def Let_def split: wizard_splits)

lemma attempts_quiet5 [simp]:
  "pw_attempts (closeVpn s) = pw_attempts s"
  "pw_attempts (backToRole s) = pw_attempts s"
  by (simp_all add: closeVpn_def backToRole_def Let_def split: wizard_splits)

definition six_digits :: "string \<Rightarrow> bool" where
  "six_digits c \<longleftrightarrow> length c = 6 \<and> list_all is_digit c"

fun kind_ok :: "attempt_kind \<Rightarrow> bool" where
  "kind_ok (QrClientAttempt p) \<longleftrightarrow> True"
| "kind_ok (AdoptAttempt pw) \<longleftrightarrow> trim pw \<noteq> []"
| "kind_ok (HostAttempt pw code) \<longleftrightarrow> pw \<noteq> [] \<and> code \<noteq> []"
| "kind_ok (ClientAttempt pw code ip path) \<longleftrightarrow> pw \<noteq> [] \<and> six_digits code"

fun call_ok :: "pairing_call \<Rightarrow> bool" where
  "call_ok (CompleteAdopted pw) \<longleftrightarrow> trim pw \<noteq> []"
| "call_ok (StartHost a pw code) \<longleftrightarrow> pw \<noteq> [] \<and> code \<noteq> []"
| "call_ok (ScanPairing pw code n) \<longleftrightarrow> pw \<noteq> [] \<and> six_digits code"
| "call_ok (StartClient a pw code path) \<longleftrightarrow> pw \<noteq> [] \<and> six_digits code"
| "call_ok _ \<longleftrightarrow> True"

definition digits_ok :: "string list \<Rightarrow> bool" where
  "digits_ok ds \<longleftrightarrow> list_all (\<lambda>d. length d \<le> 1 \<and> list_all is_digit d) ds"

lemma digits_no [simp]: "digits_ok no_digits"
  by (simp add: digits_ok_def no_digits_def list_all_iff)

lemma digits_frame0 [simp]:
  "pw_digits (native_call c s) = pw_digits s"
  "pw_digits (enqueue q s) = pw_digits s"
  "pw_digits (pairing_toast m y s) = pw_digits s"
  "pw_digits (task_done s) = pw_digits s"
  "pw_digits (set_stage i g s) = pw_digits s"
  "pw_digits (drop_attempt i s) = pw_digits s"
  by (simp_all add: native_call_def enqueue_def pairing_toast_def task_done_def set_stage_def drop_attempt_def Let_def split: wizard_splits)

lemma digits_frame1 [simp]:
  "pw_digits (success_toast st s) = pw_digits s"
  "pw_digits (opened_effect s) = pw_digits s"
  "pw_digits (vpn_notice s) = pw_digits s"
  "pw_digits (outdate_attempts s) = pw_digits s"
  "pw_digits (start_attempt k s) = pw_digits s"
  "pw_digits (attempt_failed k m s) = pw_digits s"
  "pw_digits (confirmVpn b s) = pw_digits s"
  "pw_digits (backToPassword s) = pw_digits s"
  "pw_digits (chooseMode md s) = pw_digits s"
  "pw_digits (enroll_settled er s) = pw_digits s"
  "pw_digits (setAuto b s) = pw_digits s"
  "pw_digits (code_generated rc s) = pw_digits s"
  "pw_digits (bio_answered ob s) = pw_digits s"
  "pw_digits (dispose_qr s) = pw_digits s"
  "pw_digits (start_qr s) = pw_digits s"
  "pw_digits (biometric_effect s) = pw_digits s"
  "pw_digits (code_effect s) = pw_digits s"
  "pw_digits (handleEnrollBiometric s) = pw_digits s"
  "pw_digits (queue_start s) = pw_digits s"
  "pw_digits (handleQrScanned t s) = pw_digits s"
  "pw_digits (handlePasswordAdvance s) = pw_digits s"
  by (simp_all add: success_toast_def opened_effect_def vpn_notice_def outdate_attempts_def start_attempt_def attempt_failed_def confirmVpn_def backToPassword_def chooseMode_def enroll_settled_def setAuto_def code_generated_def bio_answered_def dispose_qr_def start_qr_def biometric_effect_def code_effect_def handleEnrollBiometric_def queue_start_def handleQrScanned_def handlePasswordAdvance_def Let_def split: wizard_splits)

lemma digits_frame2 [simp]:
  "pw_digits (qr_client_done r s) = pw_digits s"
  "pw_digits (prepare_failed i e s) = pw_digits s"
  "pw_digits (host_settled i rs s) = pw_digits s"
  "pw_digits (qr_host_effect s) = pw_digits s"
  "pw_digits (cancelConnecting s) = pw_digits s"
  "pw_digits (handleSaveAdoptedVaultWithPassword s) = pw_digits s"
  "pw_digits (startHostListening s) = pw_digits s"
  "pw_digits (startClientConnecting s) = pw_digits s"
  "pw_digits (connect_client i k a s) = pw_digits s"
  "pw_digits (attempt_queue i s) = pw_digits s"
  by (simp_all add: qr_client_done_def prepare_failed_def host_settled_def qr_host_effect_def cancelConnecting_def handleSaveAdoptedVaultWithPassword_def startHostListening_def startClientConnecting_def connect_client_def attempt_queue_def Let_def split: wizard_splits)

lemma digits_frame3 [simp]:
  "pw_digits (queue_cancelled er s) = pw_digits s"
  "pw_digits (queue_session rq s) = pw_digits s"
  "pw_digits (after_render s) = pw_digits s"
  "pw_digits (handlePasswordSubmit s) = pw_digits s"
  "pw_digits (attempt_ready i k s) = pw_digits s"
  by (simp_all add: queue_cancelled_def queue_session_def after_render_def handlePasswordSubmit_def attempt_ready_def Let_def split: wizard_splits)

lemma digits_change [simp]: "digits_ok (pw_digits s) \<Longrightarrow> digits_ok (pw_digits (handleDigitChange i v s))"
  by (auto simp: handleDigitChange_def digits_ok_def list_all_iff Let_def dest: set_update_subset_insert [THEN subsetD])

lemma digits_paste [simp]: "digits_ok (pw_digits s) \<Longrightarrow> digits_ok (pw_digits (handlePaste v s))"
  by (auto simp: handlePaste_def digits_ok_def list_all_iff Let_def dest: in_set_takeD)

lemma digits_kept0 [simp]:
  "digits_ok (pw_digits s) \<Longrightarrow> digits_ok (pw_digits (reset_wizard s))"
  "digits_ok (pw_digits s) \<Longrightarrow> digits_ok (pw_digits (forget_secrets s))"
  "digits_ok (pw_digits s) \<Longrightarrow> digits_ok (pw_digits (typePassword t s))"
  by (simp_all add: reset_wizard_def forget_secrets_def typePassword_def Let_def split: wizard_splits)

lemma digits_kept1 [simp]:
  "digits_ok (pw_digits s) \<Longrightarrow> digits_ok (pw_digits (attempt_paired k a st s))"
  by (simp_all add: attempt_paired_def Let_def split: wizard_splits)

lemma digits_kept2 [simp]:
  "digits_ok (pw_digits s) \<Longrightarrow> digits_ok (pw_digits (set_props b dr s))"
  "digits_ok (pw_digits s) \<Longrightarrow> digits_ok (pw_digits (attempt_answered i ans s))"
  "digits_ok (pw_digits s) \<Longrightarrow> digits_ok (pw_digits (unmount_wizard s))"
  by (simp_all add: set_props_def attempt_answered_def unmount_wizard_def Let_def split: wizard_splits)

lemma digits_kept3 [simp]:
  "digits_ok (pw_digits s) \<Longrightarrow> digits_ok (pw_digits (onClose s))"
  by (simp_all add: onClose_def Let_def split: wizard_splits)

lemma digits_kept4 [simp]:
  "digits_ok (pw_digits s) \<Longrightarrow> digits_ok (pw_digits (handleClose s))"
  "digits_ok (pw_digits s) \<Longrightarrow> digits_ok (pw_digits (handleFinishSuccess s))"
  by (simp_all add: handleClose_def handleFinishSuccess_def Let_def split: wizard_splits)

lemma digits_kept5 [simp]:
  "digits_ok (pw_digits s) \<Longrightarrow> digits_ok (pw_digits (closeVpn s))"
  "digits_ok (pw_digits s) \<Longrightarrow> digits_ok (pw_digits (backToRole s))"
  by (simp_all add: closeVpn_def backToRole_def Let_def split: wizard_splits)

lemma digits_step [inv_steps]: "digits_ok (pw_digits s) \<Longrightarrow> digits_ok (pw_digits (wizard_step e s))"
  by (cases e) (simp_all add: wizard_step_def guarded_def Let_def)

lemma six_digits_code: "digits_ok (pw_digits s) \<Longrightarrow> length (full_code s) = 6 \<Longrightarrow> six_digits (full_code s)"
  by (auto simp: six_digits_def full_code_def digits_ok_def list_all_iff)

text \<open>All attempts under way and all calls made have the credentials they need.\<close>

definition kinds_ok :: "pairing_attempt list \<Rightarrow> bool" where
  "kinds_ok as \<longleftrightarrow> list_all (\<lambda>a. kind_ok (pa_kind a)) as"

lemma kinds_basics [simp]:
  "kinds_ok (pw_attempts s) \<Longrightarrow> kinds_ok (pw_attempts (drop_attempt i s))"
  "kinds_ok (pw_attempts s) \<Longrightarrow> i < length (pw_attempts s) \<Longrightarrow> kinds_ok (pw_attempts (set_stage i g s))"
  "kinds_ok (pw_attempts s) \<Longrightarrow> kind_ok k \<Longrightarrow> kinds_ok (pw_attempts (start_attempt k s))"
  by (auto simp: kinds_ok_def list_all_iff drop_attempt_def set_stage_def start_attempt_def
      dest!: set_update_subset_insert [THEN subsetD] in_set_takeD in_set_dropD)

lemma kinds_nth: "kinds_ok as \<Longrightarrow> i < length as \<Longrightarrow> kind_ok (pa_kind (as ! i))"
  by (simp add: kinds_ok_def list_all_length)

lemma kinds_starts [simp]:
  "kinds_ok (pw_attempts s) \<Longrightarrow> kinds_ok (pw_attempts (handleQrScanned p s))"
  "kinds_ok (pw_attempts s) \<Longrightarrow> kinds_ok (pw_attempts (handlePasswordSubmit s))"
  "kinds_ok (pw_attempts s) \<Longrightarrow> kinds_ok (pw_attempts (startHostListening s))"
  "kinds_ok (pw_attempts s) \<Longrightarrow> digits_ok (pw_digits s) \<Longrightarrow> kinds_ok (pw_attempts (startClientConnecting s))"
  by (simp_all add: handleQrScanned_def handlePasswordSubmit_def handleSaveAdoptedVaultWithPassword_def
      startHostListening_def startClientConnecting_def six_digits_code)

lemma kinds_stages [simp]:
  "kinds_ok (pw_attempts s) \<Longrightarrow> i < length (pw_attempts s) \<Longrightarrow> kinds_ok (pw_attempts (connect_client i k a s))"
  "kinds_ok (pw_attempts s) \<Longrightarrow> kinds_ok (pw_attempts (attempt_queue i s))"
  by (simp_all add: connect_client_def attempt_queue_def split: attempt_kind.split attempt_stage.split)

lemma kinds_ready [simp]:
  "kinds_ok (pw_attempts s) \<Longrightarrow> i < length (pw_attempts s) \<Longrightarrow> kinds_ok (pw_attempts (attempt_ready i k s))"
  by (simp add: attempt_ready_def split: attempt_kind.split)

lemma kinds_answered [simp]: "kinds_ok (pw_attempts s) \<Longrightarrow> kinds_ok (pw_attempts (attempt_answered i ans s))"
  by (simp add: attempt_answered_def Let_def split: attempt_kind.split attempt_stage.split attempt_answer.split)

lemma kinds_step: "kinds_ok (pw_attempts s) \<Longrightarrow> digits_ok (pw_digits s) \<Longrightarrow> kinds_ok (pw_attempts (wizard_step e s))"
  by (cases e) (simp_all add: wizard_step_def guarded_def Let_def)

definition calls_ok :: "pairing_call list \<Rightarrow> bool" where
  "calls_ok cs \<longleftrightarrow> list_all call_ok cs"

lemma calls_ok_append [simp]: "calls_ok (cs @ [c]) \<longleftrightarrow> calls_ok cs \<and> call_ok c"
  by (simp add: calls_ok_def)

lemma calls_ok1 [simp]:
  "calls_ok (pw_calls s) \<Longrightarrow> calls_ok (pw_calls (biometric_effect s))"
  "calls_ok (pw_calls s) \<Longrightarrow> calls_ok (pw_calls (code_effect s))"
  "calls_ok (pw_calls s) \<Longrightarrow> calls_ok (pw_calls (handleSaveAdoptedVaultWithPassword s))"
  "calls_ok (pw_calls s) \<Longrightarrow> calls_ok (pw_calls (handleEnrollBiometric s))"
  "calls_ok (pw_calls s) \<Longrightarrow> calls_ok (pw_calls (queue_start s))"
  "calls_ok (pw_calls s) \<Longrightarrow> calls_ok (pw_calls (queue_cancelled er s))"
  "calls_ok (pw_calls s) \<Longrightarrow> calls_ok (pw_calls (queue_session rq s))"
  "calls_ok (pw_calls s) \<Longrightarrow> calls_ok (pw_calls (attempt_queue i s))"
  "calls_ok (pw_calls s) \<Longrightarrow> calls_ok (pw_calls (unmount_wizard s))"
  by (simp_all add: biometric_effect_def code_effect_def handleSaveAdoptedVaultWithPassword_def handleEnrollBiometric_def queue_start_def queue_cancelled_def queue_session_def attempt_queue_def unmount_wizard_def Let_def split: wizard_splits)

lemma calls_ok_stages [simp]:
  "calls_ok (pw_calls s) \<Longrightarrow> kind_ok k \<Longrightarrow> calls_ok (pw_calls (connect_client i k a s))"
  by (cases k) (simp_all add: connect_client_def)

lemma calls_ok_ready [simp]:
  "calls_ok (pw_calls s) \<Longrightarrow> kind_ok k \<Longrightarrow> calls_ok (pw_calls (attempt_ready i k s))"
  by (cases k) (simp_all add: attempt_ready_def)

lemma calls_ok_answered [simp]:
  "calls_ok (pw_calls s) \<Longrightarrow> kinds_ok (pw_attempts s) \<Longrightarrow> calls_ok (pw_calls (attempt_answered i ans s))"
  using kinds_nth [of "pw_attempts s" i]
  by (simp add: attempt_answered_def Let_def not_le split: attempt_kind.split attempt_stage.split attempt_answer.split)

lemma calls_ok2 [simp]:
  "calls_ok (pw_calls s) \<Longrightarrow> calls_ok (pw_calls (set_props b dr s))"
  "calls_ok (pw_calls s) \<Longrightarrow> calls_ok (pw_calls (handlePasswordSubmit s))"
  "calls_ok (pw_calls s) \<Longrightarrow> calls_ok (pw_calls (after_render s))"
  by (simp_all add: set_props_def handlePasswordSubmit_def after_render_def Let_def split: wizard_splits)

lemma calls_ok3 [simp]:
  "calls_ok (pw_calls s) \<Longrightarrow> calls_ok (pw_calls (onClose s))"
  by (simp_all add: onClose_def Let_def split: wizard_splits)

lemma calls_ok4 [simp]:
  "calls_ok (pw_calls s) \<Longrightarrow> calls_ok (pw_calls (handleClose s))"
  "calls_ok (pw_calls s) \<Longrightarrow> calls_ok (pw_calls (handleFinishSuccess s))"
  by (simp_all add: handleClose_def handleFinishSuccess_def Let_def split: wizard_splits)

lemma calls_ok5 [simp]:
  "calls_ok (pw_calls s) \<Longrightarrow> calls_ok (pw_calls (closeVpn s))"
  "calls_ok (pw_calls s) \<Longrightarrow> calls_ok (pw_calls (backToRole s))"
  by (simp_all add: closeVpn_def backToRole_def Let_def split: wizard_splits)

lemma calls_step: "calls_ok (pw_calls s) \<Longrightarrow> kinds_ok (pw_attempts s) \<Longrightarrow> calls_ok (pw_calls (wizard_step e s))"
  by (cases e) (simp_all add: wizard_step_def guarded_def Let_def)

definition credentials_inv :: "wizard_state \<Rightarrow> bool" where
  "credentials_inv s \<longleftrightarrow> digits_ok (pw_digits s) \<and> kinds_ok (pw_attempts s) \<and> calls_ok (pw_calls s)"

interpretation wizard_credentials: invariant_machine wizard_step credentials_inv
  by unfold_locales (simp add: credentials_inv_def digits_step kinds_step calls_step)

text \<open>
  No pairing is attempted with incomplete credentials: the native side is asked to listen, to scan, to
  connect or to save an adopted vault only with a password (one that is more than blanks for an
  adopted vault), to listen only with a pairing code, and to scan and connect only with six digits.
\<close>

theorem pairing_credentials_complete:
  assumes "c \<in> set (pw_calls (run wizard_step es (mount_wizard r adopt locked v st dismissed)))"
  shows "call_ok c"
proof -
  have "credentials_inv (init_wizard r adopt locked v st dismissed)"
    by (simp add: credentials_inv_def init_wizard_def kinds_ok_def calls_ok_def)
  then have "credentials_inv (mount_wizard r adopt locked v st dismissed)"
    by (simp add: credentials_inv_def mount_wizard_def)
  from wizard_credentials.run_inv [OF this] show ?thesis
    using assms by (simp add: credentials_inv_def calls_ok_def list_all_iff)
qed

section \<open>The password is forgotten\<close>

lemma password_frame0 [simp]:
  "pw_password (native_call c s) = pw_password s"
  "pw_password (enqueue q s) = pw_password s"
  "pw_password (pairing_toast m y s) = pw_password s"
  "pw_password (task_done s) = pw_password s"
  "pw_password (set_stage i g s) = pw_password s"
  "pw_password (drop_attempt i s) = pw_password s"
  by (simp_all add: native_call_def enqueue_def pairing_toast_def task_done_def set_stage_def drop_attempt_def Let_def split: wizard_splits)

lemma password_frame1 [simp]:
  "pw_password (success_toast st s) = pw_password s"
  "pw_password (opened_effect s) = pw_password s"
  "pw_password (vpn_notice s) = pw_password s"
  "pw_password (outdate_attempts s) = pw_password s"
  "pw_password (start_attempt k s) = pw_password s"
  "pw_password (attempt_failed k m s) = pw_password s"
  "pw_password (confirmVpn b s) = pw_password s"
  "pw_password (backToPassword s) = pw_password s"
  "pw_password (chooseMode md s) = pw_password s"
  "pw_password (enroll_settled er s) = pw_password s"
  "pw_password (setAuto b s) = pw_password s"
  "pw_password (code_generated rc s) = pw_password s"
  "pw_password (bio_answered ob s) = pw_password s"
  "pw_password (dispose_qr s) = pw_password s"
  "pw_password (start_qr s) = pw_password s"
  "pw_password (biometric_effect s) = pw_password s"
  "pw_password (code_effect s) = pw_password s"
  "pw_password (handleEnrollBiometric s) = pw_password s"
  "pw_password (queue_start s) = pw_password s"
  "pw_password (handleQrScanned t s) = pw_password s"
  "pw_password (handlePasswordAdvance s) = pw_password s"
  by (simp_all add: success_toast_def opened_effect_def vpn_notice_def outdate_attempts_def start_attempt_def attempt_failed_def confirmVpn_def backToPassword_def chooseMode_def enroll_settled_def setAuto_def code_generated_def bio_answered_def dispose_qr_def start_qr_def biometric_effect_def code_effect_def handleEnrollBiometric_def queue_start_def handleQrScanned_def handlePasswordAdvance_def Let_def split: wizard_splits)

lemma password_frame2 [simp]:
  "pw_password (qr_client_done r s) = pw_password s"
  "pw_password (prepare_failed i e s) = pw_password s"
  "pw_password (host_settled i rs s) = pw_password s"
  "pw_password (qr_host_effect s) = pw_password s"
  "pw_password (cancelConnecting s) = pw_password s"
  "pw_password (handleSaveAdoptedVaultWithPassword s) = pw_password s"
  "pw_password (startHostListening s) = pw_password s"
  "pw_password (startClientConnecting s) = pw_password s"
  "pw_password (connect_client i k a s) = pw_password s"
  "pw_password (attempt_queue i s) = pw_password s"
  by (simp_all add: qr_client_done_def prepare_failed_def host_settled_def qr_host_effect_def cancelConnecting_def handleSaveAdoptedVaultWithPassword_def startHostListening_def startClientConnecting_def connect_client_def attempt_queue_def Let_def split: wizard_splits)

lemma password_frame3 [simp]:
  "pw_password (queue_cancelled er s) = pw_password s"
  "pw_password (queue_session rq s) = pw_password s"
  "pw_password (after_render s) = pw_password s"
  "pw_password (handlePasswordSubmit s) = pw_password s"
  "pw_password (attempt_ready i k s) = pw_password s"
  by (simp_all add: queue_cancelled_def queue_session_def after_render_def handlePasswordSubmit_def attempt_ready_def Let_def split: wizard_splits)

lemma password_digits [simp]:
  "pw_password (handleDigitChange i t s) = pw_password s"
  "pw_password (handlePaste t s) = pw_password s"
  by (simp_all add: handleDigitChange_def handlePaste_def Let_def split: wizard_splits)

lemma password_kept0 [simp]:
  "pw_password s = [] \<Longrightarrow> pw_password (reset_wizard s) = []"
  "pw_password s = [] \<Longrightarrow> pw_password (forget_secrets s) = []"
  by (simp_all add: reset_wizard_def forget_secrets_def Let_def split: wizard_splits)

lemma password_kept1 [simp]:
  "pw_password s = [] \<Longrightarrow> pw_password (attempt_paired k a st s) = []"
  by (simp_all add: attempt_paired_def Let_def split: wizard_splits)

lemma password_kept2 [simp]:
  "pw_password s = [] \<Longrightarrow> pw_password (set_props b dr s) = []"
  "pw_password s = [] \<Longrightarrow> pw_password (attempt_answered i ans s) = []"
  "pw_password s = [] \<Longrightarrow> pw_password (unmount_wizard s) = []"
  by (simp_all add: set_props_def attempt_answered_def unmount_wizard_def Let_def split: wizard_splits)

lemma password_kept3 [simp]:
  "pw_password s = [] \<Longrightarrow> pw_password (onClose s) = []"
  by (simp_all add: onClose_def Let_def split: wizard_splits)

lemma password_kept4 [simp]:
  "pw_password s = [] \<Longrightarrow> pw_password (handleClose s) = []"
  "pw_password s = [] \<Longrightarrow> pw_password (handleFinishSuccess s) = []"
  by (simp_all add: handleClose_def handleFinishSuccess_def Let_def split: wizard_splits)

lemma password_kept5 [simp]:
  "pw_password s = [] \<Longrightarrow> pw_password (closeVpn s) = []"
  "pw_password s = [] \<Longrightarrow> pw_password (backToRole s) = []"
  by (simp_all add: closeVpn_def backToRole_def Let_def split: wizard_splits)

lemma password_step:
  "\<forall>t. e \<noteq> TypePassword t \<Longrightarrow> pw_password s = [] \<Longrightarrow> pw_password (wizard_step e s) = []"
  by (cases e) (simp_all add: wizard_step_def guarded_def Let_def)

lemma password_run:
  "(\<And>t. TypePassword t \<notin> set es) \<Longrightarrow> pw_password s = [] \<Longrightarrow> pw_password (run wizard_step es s) = []"
proof (induction es arbitrary: s)
  case (Cons e es)
  then have "pw_password (wizard_step e s) = []" by (intro password_step) auto
  then show ?case using Cons by simp
qed simp

text \<open>
  The events by which the user or the page above leaves the dialog: Escape, the close buttons and the
  backdrop, the notice about VPNs refused, the back buttons where there is nothing to go back to, the
  button of the last page, and unmounting.
\<close>

fun leaves :: "wizard_event \<Rightarrow> wizard_state \<Rightarrow> bool" where
  "leaves EscapePressed s \<longleftrightarrow> pw_mounted s \<and> (if pw_vpnOpen s then pw_vpnInitial s else pw_isOpen s)"
| "leaves CloseClicked s \<longleftrightarrow> shown s"
| "leaves VpnClosed s \<longleftrightarrow> pw_mounted s \<and> pw_vpnOpen s \<and> pw_vpnInitial s"
| "leaves BackToRole s \<longleftrightarrow> pw_defaultRole s \<noteq> None \<and> (at_page PasswordStep s \<or> code_page Client PinMode s) \<or>
     at_page PasswordStep s \<and> pw_manualAdoption s"
| "leaves Finish s \<longleftrightarrow> at_page SuccessStep s"
| "leaves UnmountWizard s \<longleftrightarrow> pw_mounted s"
| "leaves _ s \<longleftrightarrow> False"

lemma closed_forgets [simp]:
  "pw_password (onClose s) = pw_password s" "pw_digits (onClose s) = pw_digits s" "pw_clientSas (onClose s) = pw_clientSas s"
  "pw_canEnroll (onClose s) = pw_canEnroll s" "pw_manualAdoption (onClose s) = pw_manualAdoption s"
  "pw_isOpen (onClose s) = False"
  by (simp_all add: onClose_def set_props_def vpn_notice_def biometric_effect_def opened_effect_def Let_def)

lemma render_keeps [simp]:
  "pw_clientSas (after_render s) = pw_clientSas s" "pw_digits (after_render s) = pw_digits s"
  "pw_canEnroll (after_render s) = pw_canEnroll s" "pw_manualAdoption (after_render s) = pw_manualAdoption s"
  "pw_isOpen (after_render s) = pw_isOpen s"
  by (simp_all add: after_render_def qr_host_effect_def code_effect_def start_qr_def dispose_qr_def wizard_basics
      split: option.split)

text \<open>Nothing of the secrets the user typed is left.\<close>

definition secrets_gone :: "wizard_state \<Rightarrow> bool" where
  "secrets_gone s \<longleftrightarrow> pw_password s = [] \<and> pw_digits s = no_digits \<and> pw_clientSas s = None \<and>
     \<not> pw_canEnroll s \<and> \<not> pw_manualAdoption s"

lemma gone_close: "secrets_gone (handleClose s)" "secrets_gone (handleFinishSuccess s)"
  by (simp_all add: secrets_gone_def handleClose_def handleFinishSuccess_def forget_secrets_def Let_def)

lemma gone_unmount: "secrets_gone (unmount_wizard s)"
  by (simp add: secrets_gone_def unmount_wizard_def enqueue_def forget_secrets_def)

lemma gone_render: "secrets_gone (after_render s) = secrets_gone s"
  by (simp add: secrets_gone_def)

lemma leave_closes:
  assumes "leaves e s"
  shows "wizard_handle e s \<in> {handleClose s, handleFinishSuccess s, unmount_wizard s}"
  using assms
  by (cases e) (auto simp: guarded_def closeVpn_def backToRole_def at_page_def code_page_def shown_def)

lemma leave_forgets:
  assumes "leaves e s"
  shows "secrets_gone (wizard_step e s)"
proof -
  have "secrets_gone (wizard_handle e s)" using leave_closes [OF assms] gone_close gone_unmount by auto
  then show ?thesis by (simp add: wizard_step_def gone_render Let_def)
qed

text \<open>Every other event leaves the dialog open, unless the owner takes it away itself.\<close>

lemma open_frame [simp]:
  "pw_isOpen (native_call c s) = pw_isOpen s" "pw_isOpen (enqueue q s) = pw_isOpen s"
  "pw_isOpen (pairing_toast m y s) = pw_isOpen s" "pw_isOpen (success_toast st s) = pw_isOpen s"
  "pw_isOpen (task_done s) = pw_isOpen s" "pw_isOpen (set_stage i g s) = pw_isOpen s"
  "pw_isOpen (drop_attempt i s) = pw_isOpen s" "pw_isOpen (start_attempt k s) = pw_isOpen s"
  "pw_isOpen (attempt_failed k m s) = pw_isOpen s" "pw_isOpen (connect_client i k a s) = pw_isOpen s"
  "pw_isOpen (outdate_attempts s) = pw_isOpen s" "pw_isOpen (prepare_failed i e s) = pw_isOpen s"
  by (simp_all add: wizard_basics start_attempt_def attempt_failed_def connect_client_def outdate_attempts_def
      prepare_failed_def split: wizard_splits)

lemma open_answers [simp]:
  "pw_isOpen (qr_client_done r s) = pw_isOpen s" "pw_isOpen (attempt_paired k a st s) = pw_isOpen s"
  "pw_isOpen (attempt_ready i k s) = pw_isOpen s" "pw_isOpen (queue_start s) = pw_isOpen s"
  "pw_isOpen (queue_cancelled er s) = pw_isOpen s" "pw_isOpen (queue_session rs s) = pw_isOpen s"
  "pw_isOpen (host_settled i rst s) = pw_isOpen s" "pw_isOpen (attempt_queue i s) = pw_isOpen s"
  "pw_isOpen (enroll_settled er s) = pw_isOpen s" "pw_isOpen (code_generated rc s) = pw_isOpen s"
  "pw_isOpen (bio_answered ob s) = pw_isOpen s" "pw_isOpen (handleEnrollBiometric s) = pw_isOpen s"
  by (simp_all add: qr_client_done_def attempt_paired_def attempt_ready_def queue_start_def queue_cancelled_def
      queue_session_def host_settled_def attempt_queue_def enroll_settled_def code_generated_def bio_answered_def
      handleEnrollBiometric_def Let_def split: wizard_splits)

lemma open_handlers [simp]:
  "pw_isOpen (attempt_answered i ans s) = pw_isOpen s" "pw_isOpen (handleQrScanned t s) = pw_isOpen s"
  "pw_isOpen (handlePasswordSubmit s) = pw_isOpen s" "pw_isOpen (startHostListening s) = pw_isOpen s"
  "pw_isOpen (startClientConnecting s) = pw_isOpen s" "pw_isOpen (typePassword t s) = pw_isOpen s"
  "pw_isOpen (confirmVpn b s) = pw_isOpen s" "pw_isOpen (backToPassword s) = pw_isOpen s"
  "pw_isOpen (chooseMode md s) = pw_isOpen s" "pw_isOpen (handleDigitChange i t s) = pw_isOpen s"
  "pw_isOpen (handlePaste t s) = pw_isOpen s" "pw_isOpen (cancelConnecting s) = pw_isOpen s"
  "pw_isOpen (setAuto b s) = pw_isOpen s"
  by (simp_all add: attempt_answered_def handleQrScanned_def handlePasswordSubmit_def handleSaveAdoptedVaultWithPassword_def
      handlePasswordAdvance_def startHostListening_def startClientConnecting_def typePassword_def confirmVpn_def
      backToPassword_def chooseMode_def handleDigitChange_def handlePaste_def cancelConnecting_def setAuto_def Let_def
      split: wizard_splits)

lemma closed_by_leaving:
  assumes "pw_isOpen s" and "\<not> pw_isOpen (wizard_step e s)" and "\<And>r. e \<noteq> SetProps False r"
  shows "leaves e s"
  using assms
  by (cases e) (auto simp: wizard_step_def guarded_def closeVpn_def backToRole_def set_props_def reset_wizard_def vpn_notice_def
      biometric_effect_def opened_effect_def at_page_def code_page_def shown_def Let_def split: if_splits)

text \<open>
  Claim C29. Whatever closes the dialog (the owner taking it away of its own accord apart, which neither
  of the two places does), in that step the password field, the digits typed, the confirmation code of the
  other device and the offers that depend on the password are cleared, and no answer that arrives
  later brings the password back: it stays empty until somebody types one. The code generated for the other
  device and the QR session are not cleared when the dialog closes (\<open>pairing_code_reused\<close>).
\<close>

theorem pairing_password_forgotten:
  assumes "pw_isOpen s" and "\<not> pw_isOpen (wizard_step e s)" and "\<And>r. e \<noteq> SetProps False r"
    and "\<And>t. TypePassword t \<notin> set fs"
  shows "secrets_gone (wizard_step e s) \<and> pw_password (run wizard_step fs (wizard_step e s)) = []"
proof -
  have "secrets_gone (wizard_step e s)" by (rule leave_forgets [OF closed_by_leaving [OF assms(1-3)]])
  moreover from this have "pw_password (wizard_step e s) = []" by (simp add: secrets_gone_def)
  ultimately show ?thesis using password_run [OF assms(4)] by blast
qed

section \<open>An attempt that was given up\<close>

lemma number_frame0 [simp]:
  "pw_attempt (native_call c s) = pw_attempt s"
  "pw_attempt (enqueue q s) = pw_attempt s"
  "pw_attempt (pairing_toast m y s) = pw_attempt s"
  "pw_attempt (task_done s) = pw_attempt s"
  "pw_attempt (set_stage i g s) = pw_attempt s"
  "pw_attempt (drop_attempt i s) = pw_attempt s"
  by (simp_all add: native_call_def enqueue_def pairing_toast_def task_done_def set_stage_def drop_attempt_def Let_def split: wizard_splits)

lemma number_frame1 [simp]:
  "pw_attempt (success_toast st s) = pw_attempt s"
  "pw_attempt (vpn_notice s) = pw_attempt s"
  "pw_attempt (attempt_failed k m s) = pw_attempt s"
  "pw_attempt (confirmVpn b s) = pw_attempt s"
  "pw_attempt (backToPassword s) = pw_attempt s"
  "pw_attempt (chooseMode md s) = pw_attempt s"
  "pw_attempt (enroll_settled er s) = pw_attempt s"
  "pw_attempt (setAuto b s) = pw_attempt s"
  "pw_attempt (code_generated rc s) = pw_attempt s"
  "pw_attempt (bio_answered ob s) = pw_attempt s"
  "pw_attempt (dispose_qr s) = pw_attempt s"
  "pw_attempt (start_qr s) = pw_attempt s"
  "pw_attempt (biometric_effect s) = pw_attempt s"
  "pw_attempt (code_effect s) = pw_attempt s"
  "pw_attempt (handleEnrollBiometric s) = pw_attempt s"
  "pw_attempt (queue_start s) = pw_attempt s"
  "pw_attempt (handlePasswordAdvance s) = pw_attempt s"
  "pw_attempt (reset_wizard s) = pw_attempt s"
  "pw_attempt (forget_secrets s) = pw_attempt s"
  "pw_attempt (typePassword t s) = pw_attempt s"
  "pw_attempt (handleDigitChange i t s) = pw_attempt s"
  "pw_attempt (handlePaste t s) = pw_attempt s"
  by (simp_all add: success_toast_def vpn_notice_def attempt_failed_def confirmVpn_def backToPassword_def chooseMode_def enroll_settled_def setAuto_def code_generated_def bio_answered_def dispose_qr_def start_qr_def biometric_effect_def code_effect_def handleEnrollBiometric_def queue_start_def handlePasswordAdvance_def reset_wizard_def forget_secrets_def typePassword_def handleDigitChange_def handlePaste_def Let_def split: wizard_splits)

lemma number_frame2 [simp]:
  "pw_attempt (qr_client_done r s) = pw_attempt s"
  "pw_attempt (prepare_failed i e s) = pw_attempt s"
  "pw_attempt (host_settled i rs s) = pw_attempt s"
  "pw_attempt (qr_host_effect s) = pw_attempt s"
  "pw_attempt (connect_client i k a s) = pw_attempt s"
  "pw_attempt (attempt_queue i s) = pw_attempt s"
  "pw_attempt (attempt_paired k a st s) = pw_attempt s"
  by (simp_all add: qr_client_done_def prepare_failed_def host_settled_def qr_host_effect_def connect_client_def attempt_queue_def attempt_paired_def Let_def split: wizard_splits)

lemma number_frame3 [simp]:
  "pw_attempt (queue_cancelled er s) = pw_attempt s"
  "pw_attempt (queue_session rq s) = pw_attempt s"
  "pw_attempt (after_render s) = pw_attempt s"
  "pw_attempt (attempt_ready i k s) = pw_attempt s"
  "pw_attempt (attempt_answered i ans s) = pw_attempt s"
  by (simp_all add: queue_cancelled_def queue_session_def after_render_def attempt_ready_def attempt_answered_def Let_def split: wizard_splits)

lemma cancelled_frame0 [simp]:
  "pw_cancelled (native_call c s) = pw_cancelled s"
  "pw_cancelled (enqueue q s) = pw_cancelled s"
  "pw_cancelled (pairing_toast m y s) = pw_cancelled s"
  "pw_cancelled (task_done s) = pw_cancelled s"
  "pw_cancelled (set_stage i g s) = pw_cancelled s"
  "pw_cancelled (drop_attempt i s) = pw_cancelled s"
  by (simp_all add: native_call_def enqueue_def pairing_toast_def task_done_def set_stage_def drop_attempt_def Let_def split: wizard_splits)

lemma cancelled_frame1 [simp]:
  "pw_cancelled (success_toast st s) = pw_cancelled s"
  "pw_cancelled (vpn_notice s) = pw_cancelled s"
  "pw_cancelled (attempt_failed k m s) = pw_cancelled s"
  "pw_cancelled (confirmVpn b s) = pw_cancelled s"
  "pw_cancelled (backToPassword s) = pw_cancelled s"
  "pw_cancelled (chooseMode md s) = pw_cancelled s"
  "pw_cancelled (enroll_settled er s) = pw_cancelled s"
  "pw_cancelled (setAuto b s) = pw_cancelled s"
  "pw_cancelled (code_generated rc s) = pw_cancelled s"
  "pw_cancelled (bio_answered ob s) = pw_cancelled s"
  "pw_cancelled (dispose_qr s) = pw_cancelled s"
  "pw_cancelled (start_qr s) = pw_cancelled s"
  "pw_cancelled (biometric_effect s) = pw_cancelled s"
  "pw_cancelled (code_effect s) = pw_cancelled s"
  "pw_cancelled (handleEnrollBiometric s) = pw_cancelled s"
  "pw_cancelled (queue_start s) = pw_cancelled s"
  "pw_cancelled (handlePasswordAdvance s) = pw_cancelled s"
  "pw_cancelled (reset_wizard s) = pw_cancelled s"
  "pw_cancelled (forget_secrets s) = pw_cancelled s"
  "pw_cancelled (typePassword t s) = pw_cancelled s"
  "pw_cancelled (handleDigitChange i t s) = pw_cancelled s"
  "pw_cancelled (handlePaste t s) = pw_cancelled s"
  by (simp_all add: success_toast_def vpn_notice_def attempt_failed_def confirmVpn_def backToPassword_def chooseMode_def enroll_settled_def setAuto_def code_generated_def bio_answered_def dispose_qr_def start_qr_def biometric_effect_def code_effect_def handleEnrollBiometric_def queue_start_def handlePasswordAdvance_def reset_wizard_def forget_secrets_def typePassword_def handleDigitChange_def handlePaste_def Let_def split: wizard_splits)

lemma cancelled_frame2 [simp]:
  "pw_cancelled (qr_client_done r s) = pw_cancelled s"
  "pw_cancelled (prepare_failed i e s) = pw_cancelled s"
  "pw_cancelled (host_settled i rs s) = pw_cancelled s"
  "pw_cancelled (qr_host_effect s) = pw_cancelled s"
  "pw_cancelled (connect_client i k a s) = pw_cancelled s"
  "pw_cancelled (attempt_queue i s) = pw_cancelled s"
  "pw_cancelled (attempt_paired k a st s) = pw_cancelled s"
  by (simp_all add: qr_client_done_def prepare_failed_def host_settled_def qr_host_effect_def connect_client_def attempt_queue_def attempt_paired_def Let_def split: wizard_splits)

lemma cancelled_frame3 [simp]:
  "pw_cancelled (queue_cancelled er s) = pw_cancelled s"
  "pw_cancelled (queue_session rq s) = pw_cancelled s"
  "pw_cancelled (after_render s) = pw_cancelled s"
  "pw_cancelled (attempt_ready i k s) = pw_cancelled s"
  "pw_cancelled (attempt_answered i ans s) = pw_cancelled s"
  by (simp_all add: queue_cancelled_def queue_session_def after_render_def attempt_ready_def attempt_answered_def Let_def split: wizard_splits)

definition outdated :: "nat \<Rightarrow> bool \<Rightarrow> nat \<Rightarrow> bool" where
  "outdated n cancelled attempt \<longleftrightarrow> n < attempt \<or> cancelled \<and> n \<le> attempt"

lemma outdated_basics [simp]:
  "outdated n c a \<Longrightarrow> outdated n False (Suc a)" "outdated n c a \<Longrightarrow> outdated n True (Suc a)"
  by (auto simp: outdated_def)

lemma outdated_kept0 [simp]:
  "outdated n (pw_cancelled s) (pw_attempt s) \<Longrightarrow> outdated n (pw_cancelled (start_attempt k s)) (pw_attempt (start_attempt k s))"
  "outdated n (pw_cancelled s) (pw_attempt s) \<Longrightarrow> outdated n (pw_cancelled (outdate_attempts s)) (pw_attempt (outdate_attempts s))"
  "outdated n (pw_cancelled s) (pw_attempt s) \<Longrightarrow> outdated n (pw_cancelled (opened_effect s)) (pw_attempt (opened_effect s))"
  by (simp_all add: start_attempt_def outdate_attempts_def opened_effect_def Let_def split: wizard_splits)

lemma outdated_kept1 [simp]:
  "outdated n (pw_cancelled s) (pw_attempt s) \<Longrightarrow> outdated n (pw_cancelled (handleQrScanned t s)) (pw_attempt (handleQrScanned t s))"
  "outdated n (pw_cancelled s) (pw_attempt s) \<Longrightarrow> outdated n (pw_cancelled (cancelConnecting s)) (pw_attempt (cancelConnecting s))"
  "outdated n (pw_cancelled s) (pw_attempt s) \<Longrightarrow> outdated n (pw_cancelled (handleSaveAdoptedVaultWithPassword s)) (pw_attempt (handleSaveAdoptedVaultWithPassword s))"
  "outdated n (pw_cancelled s) (pw_attempt s) \<Longrightarrow> outdated n (pw_cancelled (startHostListening s)) (pw_attempt (startHostListening s))"
  "outdated n (pw_cancelled s) (pw_attempt s) \<Longrightarrow> outdated n (pw_cancelled (startClientConnecting s)) (pw_attempt (startClientConnecting s))"
  by (simp_all add: handleQrScanned_def cancelConnecting_def handleSaveAdoptedVaultWithPassword_def startHostListening_def startClientConnecting_def Let_def split: wizard_splits)

lemma outdated_kept2 [simp]:
  "outdated n (pw_cancelled s) (pw_attempt s) \<Longrightarrow> outdated n (pw_cancelled (set_props b dr s)) (pw_attempt (set_props b dr s))"
  "outdated n (pw_cancelled s) (pw_attempt s) \<Longrightarrow> outdated n (pw_cancelled (unmount_wizard s)) (pw_attempt (unmount_wizard s))"
  "outdated n (pw_cancelled s) (pw_attempt s) \<Longrightarrow> outdated n (pw_cancelled (handlePasswordSubmit s)) (pw_attempt (handlePasswordSubmit s))"
  by (simp_all add: set_props_def unmount_wizard_def handlePasswordSubmit_def Let_def split: wizard_splits)

lemma outdated_kept3 [simp]:
  "outdated n (pw_cancelled s) (pw_attempt s) \<Longrightarrow> outdated n (pw_cancelled (onClose s)) (pw_attempt (onClose s))"
  by (simp_all add: onClose_def Let_def split: wizard_splits)

lemma outdated_kept4 [simp]:
  "outdated n (pw_cancelled s) (pw_attempt s) \<Longrightarrow> outdated n (pw_cancelled (handleClose s)) (pw_attempt (handleClose s))"
  "outdated n (pw_cancelled s) (pw_attempt s) \<Longrightarrow> outdated n (pw_cancelled (handleFinishSuccess s)) (pw_attempt (handleFinishSuccess s))"
  by (simp_all add: handleClose_def handleFinishSuccess_def Let_def split: wizard_splits)

lemma outdated_kept5 [simp]:
  "outdated n (pw_cancelled s) (pw_attempt s) \<Longrightarrow> outdated n (pw_cancelled (closeVpn s)) (pw_attempt (closeVpn s))"
  "outdated n (pw_cancelled s) (pw_attempt s) \<Longrightarrow> outdated n (pw_cancelled (backToRole s)) (pw_attempt (backToRole s))"
  by (simp_all add: closeVpn_def backToRole_def Let_def split: wizard_splits)

lemma outdated_step:
  "outdated n (pw_cancelled s) (pw_attempt s) \<Longrightarrow>
   outdated n (pw_cancelled (wizard_step e s)) (pw_attempt (wizard_step e s))"
  by (cases e) (simp_all add: wizard_step_def guarded_def Let_def)

lemma outdated_run:
  "outdated n (pw_cancelled s) (pw_attempt s) \<Longrightarrow>
   outdated n (pw_cancelled (run wizard_step es s)) (pw_attempt (run wizard_step es s))"
  by (induction es arbitrary: s) (auto intro: outdated_step)

text \<open>The user gives up: the dialog is closed or unmounted, or an attempt is cancelled.\<close>

fun gives_up :: "wizard_event \<Rightarrow> wizard_state \<Rightarrow> bool" where
  "gives_up CancelConnecting s \<longleftrightarrow> at_page ConnectingStep s"
| "gives_up Finish s \<longleftrightarrow> False"
| "gives_up e s \<longleftrightarrow> leaves e s"

lemma outdated_now: "outdated (pw_attempt s) (pw_cancelled (outdate_attempts s)) (pw_attempt (outdate_attempts s))"
  by (simp add: outdated_def outdate_attempts_def)

lemma closed_numbers: "pw_cancelled (onClose s) = pw_cancelled s" "pw_attempt (onClose s) = pw_attempt s"
  by (simp_all add: onClose_def set_props_def opened_effect_def biometric_effect_def vpn_notice_def Let_def)

lemma outdated_close:
  "outdated (pw_attempt s) (pw_cancelled (handleClose s)) (pw_attempt (handleClose s))"
  "outdated (pw_attempt s) (pw_cancelled (unmount_wizard s)) (pw_attempt (unmount_wizard s))"
  "outdated (pw_attempt s) (pw_cancelled (cancelConnecting s)) (pw_attempt (cancelConnecting s))"
  by (simp_all add: handleClose_def closed_numbers cancelConnecting_def unmount_wizard_def outdate_attempts_def outdated_def
      Let_def)

lemma gives_up_handles:
  "gives_up e s \<Longrightarrow> wizard_handle e s \<in> {handleClose s, unmount_wizard s, cancelConnecting s}"
  by (cases e) (auto simp: guarded_def closeVpn_def backToRole_def at_page_def code_page_def shown_def)

lemma gives_up_outdates:
  assumes "gives_up e s"
  shows "outdated (pw_attempt s) (pw_cancelled (wizard_step e s)) (pw_attempt (wizard_step e s))"
  using gives_up_handles [OF assms] outdated_close [of s] by (auto simp: wizard_step_def Let_def)

lemma outdated_not_live: "outdated (pa_number a) (pw_cancelled s) (pw_attempt s) \<Longrightarrow> \<not> live s a"
  by (auto simp: outdated_def live_def)

lemma not_live_answered:
  assumes "\<not> live s (pw_attempts s ! i)"
  shows "attempt_answered i ans s \<in> {s, drop_attempt i s, drop_attempt i (s\<lparr>pw_showManualIp := True\<rparr>)}"
  using assms
  by (simp add: attempt_answered_def Let_def split: attempt_kind.split attempt_stage.split attempt_answer.split)

lemma not_live_queue: "\<not> live s (pw_attempts s ! i) \<Longrightarrow> attempt_queue i s \<in> {s, drop_attempt i s}"
  by (simp add: attempt_queue_def split: attempt_stage.split)

text \<open>Hosts of QR codes: giving up disposes of all there are, and none is revived.\<close>

lemma disposed_dispose:
  assumes "i < length (pw_effects s)" and "effect_disposed s i"
  shows "i < length (pw_effects (dispose_qr s)) \<and> effect_disposed (dispose_qr s) i"
proof (cases "pw_current s")
  case None
  then show ?thesis using assms by (simp add: dispose_qr_def)
next
  case (Some j)
  then show ?thesis using assms by (cases "i = j") (simp_all add: dispose_qr_def effect_disposed_def enqueue_def)
qed

lemma disposed_start:
  "i < length (pw_effects s) \<Longrightarrow> effect_disposed s i \<Longrightarrow>
   i < length (pw_effects (start_qr s)) \<and> effect_disposed (start_qr s) i"
  by (simp add: start_qr_def effect_disposed_def enqueue_def nth_append)

lemma disposed_same: "pw_effects t = pw_effects s \<Longrightarrow> effect_disposed t = effect_disposed s"
  by (simp add: effect_disposed_def fun_eq_iff)

lemma disposed_render:
  assumes "i < length (pw_effects s)" and "effect_disposed s i"
  shows "i < length (pw_effects (after_render s)) \<and> effect_disposed (after_render s) i"
proof -
  have c: "pw_effects (code_effect s) = pw_effects s" using code_effect_same [of s] by (simp add: same_qr_def)
  let ?s = "(code_effect s)\<lparr>pw_qrDeps := Some (qr_deps_of s)\<rparr>"
  have "i < length (pw_effects ?s)" "effect_disposed ?s i" using assms c by (simp_all add: disposed_same [of ?s s])
  with disposed_start disposed_dispose assms c show ?thesis
    by (simp add: after_render_def qr_host_effect_def disposed_same [OF c])
qed

lemma disposed_step:
  assumes "i < length (pw_effects s) \<and> effect_disposed s i"
  shows "i < length (pw_effects (wizard_step e s)) \<and> effect_disposed (wizard_step e s) i"
proof -
  have "i < length (pw_effects (wizard_handle e s)) \<and> effect_disposed (wizard_handle e s) i"
  proof (cases "e = UnmountWizard")
    case True
    have "pw_effects (unmount_wizard s) = pw_effects (dispose_qr s)"
      by (simp add: unmount_wizard_def enqueue_def forget_secrets_def outdate_attempts_def)
    with True assms disposed_dispose [of i s] show ?thesis by (simp add: guarded_def effect_disposed_def)
  next
    case False
    with assms show ?thesis by (simp add: handle_effects(1) effect_disposed_def)
  qed
  with disposed_render show ?thesis by (simp add: wizard_step_def Let_def)
qed

lemma disposed_run:
  "i < length (pw_effects s) \<and> effect_disposed s i \<Longrightarrow>
   i < length (pw_effects (run wizard_step es s)) \<and> effect_disposed (run wizard_step es s) i"
proof (induction es arbitrary: s)
  case (Cons e es)
  from Cons.IH [OF disposed_step [OF Cons.prems, of e]] show ?case by simp
qed simp

text \<open>Where no QR page is shown, every host has been disposed of.\<close>

lemma all_disposed:
  assumes "wizard_inv s" and "\<not> pw_mounted s \<or> \<not> qr_wanted (qr_deps_of s)" and "i < length (pw_effects s)"
  shows "effect_disposed s i"
proof -
  have "pw_current s = None"
    using assms(1,2) owned_deps [of s] by (cases "pw_current s") (auto simp: wizard_inv_def split: if_splits)
  then show ?thesis using assms(1,3) by (auto simp: wizard_inv_def qr_owned_def effect_disposed_def)
qed

lemma given_up_disposes:
  assumes "wizard_inv s" and "gives_up e s" and "i < length (pw_effects s)"
  shows "i < length (pw_effects (wizard_step e s)) \<and> effect_disposed (wizard_step e s) i"
proof (cases "e = CancelConnecting")
  case True
  then have "\<not> qr_wanted (qr_deps_of s)" using assms(2) by (simp add: at_page_def qr_wanted_def qr_deps_of_def)
  with all_disposed [OF assms(1) _ assms(3)] assms(3) show ?thesis by (intro disposed_step) blast
next
  case False
  have "e \<noteq> Finish" and lv: "leaves e s" using assms(2) False by (cases e; simp)+
  then have "wizard_handle e s \<in> {handleClose s, unmount_wizard s}"
    using assms(2) False gives_up_handles [OF assms(2)] by (cases e) (auto simp: cancelConnecting_def guarded_def closeVpn_def
        backToRole_def at_page_def code_page_def shown_def split: if_splits)
  then have closed: "\<not> pw_isOpen (wizard_step e s)"
    by (auto simp: wizard_step_def handleClose_def unmount_wizard_def Let_def)
  have longer: "i < length (pw_effects (wizard_step e s))"
  proof -
    have "length (pw_effects s) \<le> length (pw_effects (wizard_handle e s))"
      by (cases "e = UnmountWizard")
         (auto simp: handle_effects(1) guarded_def unmount_wizard_def enqueue_def forget_secrets_def outdate_attempts_def
           dispose_qr_def split: option.split)
    moreover have "length (pw_effects x) \<le> length (pw_effects (after_render x))" for x
      by (auto simp: after_render_def qr_host_effect_def code_effect_def start_qr_def dispose_qr_def wizard_basics
          split: option.split)
    ultimately show ?thesis using assms(3) by (simp add: wizard_step_def Let_def) (meson le_trans less_le_trans)
  qed
  have "\<not> qr_wanted (qr_deps_of (wizard_step e s))" using closed by (simp add: qr_wanted_def qr_deps_of_def)
  with all_disposed [OF wizard_inv_step [OF assms(1)] _ longer] longer show ?thesis by blast
qed

lemma host_silent:
  "k < length (pw_hostWaits s) \<Longrightarrow> effect_disposed s (pw_hostWaits s ! k) \<Longrightarrow>
   host_settled k res s = s\<lparr>pw_hostWaits := take k (pw_hostWaits s) @ drop (Suc k) (pw_hostWaits s)\<rparr>"
  by (simp add: host_settled_def effect_disposed_def Let_def)

text \<open>
  Claim C7. Once the user has given up, by closing or unmounting the dialog or by cancelling the attempt, the
  connection attempts numbered until then have no effect any more: however much later one continues, whatever
  has been started since and whatever it is answered, it is only forgotten; it makes no native call and
  changes neither page, password, message nor result. (A scan that found nobody still uncovers the address
  field.) Neither has the answer of a QR host started until then. The other waits of the dialog, for the
  enrolment, the generated code and the biometric check, are not covered: their answers are still taken.
\<close>

theorem given_up_attempt_is_silent:
  assumes "s = run wizard_step es (mount_wizard r adopt locked v st dismissed)"
    and "gives_up e s" and "t = run wizard_step fs (wizard_step e s)"
  shows "(pa_number (pw_attempts t ! i) \<le> pw_attempt s \<longrightarrow>
            wizard_handle (AttemptAnswered i ans) t \<in> {t, drop_attempt i t, drop_attempt i (t\<lparr>pw_showManualIp := True\<rparr>)} \<and>
            wizard_handle (AttemptQueue i) t \<in> {t, drop_attempt i t}) \<and>
         (k < length (pw_hostWaits t) \<and> pw_hostWaits t ! k < length (pw_effects s) \<longrightarrow>
            wizard_handle (HostSettled k res) t =
              t\<lparr>pw_hostWaits := take k (pw_hostWaits t) @ drop (Suc k) (pw_hostWaits t)\<rparr>)"
proof -
  have inv: "wizard_inv s" unfolding assms(1) by (rule wizard_machine.run_inv [OF wizard_inv_mount])
  have out: "outdated (pw_attempt s) (pw_cancelled t) (pw_attempt t)"
    unfolding assms(3) by (rule outdated_run [OF gives_up_outdates [OF assms(2)]])
  have "\<not> live t (pw_attempts t ! i)" if "pa_number (pw_attempts t ! i) \<le> pw_attempt s"
    using out that by (intro outdated_not_live) (auto simp: outdated_def)
  moreover have "effect_disposed t j" if "j < length (pw_effects s)" for j
    unfolding assms(3) using disposed_run [OF given_up_disposes [OF inv assms(2) that]] by blast
  ultimately show ?thesis using not_live_answered not_live_queue host_silent by simp
qed

section \<open>Runs\<close>

text \<open>A dialog without a fixed role, on a device with an open vault, whose VPN notice has been dismissed.\<close>

definition demo_wizard :: wizard_state where
  "demo_wizard = mount_wizard None False False (Some \<lparr>va_id = ''v'', va_name = ''V'', va_path = ''/v''\<rparr>) (None, None) True"

definition demo_stats :: pairing_stats where
  "demo_stats = \<lparr>ps_total_entries = 1, ps_peer_addr = None, ps_vault_path = None, ps_peer_saved = None\<rparr>"

lemmas run_eval =
  demo_wizard_def mount_wizard_def init_wizard_def wizard_step_def after_render_def qr_host_effect_def code_effect_def
  start_qr_def dispose_qr_def qr_deps_of_def qr_wanted_def first_step_def no_digits_def shown_def at_page_def
  code_page_def live_def effect_disposed_def full_code_def merge_path_def with_port_def count_text_def
  failed_step_def failed_key_def attempt_error_def plain_error_def trim_def trim_start_def trim_end_def is_ws_def is_digit_def
  truthy_def demo_stats_def wizard_basics

abbreviation demo_host :: "wizard_event list" where
  "demo_host \<equiv> [SetProps True None, ChooseRole Host, TypePassword ''pw'', SubmitPassword, QueueStart, QueueCancelled None]"

abbreviation demo_session :: qr_session where
  "demo_session \<equiv> \<lparr>qs_qr_payload = ''p'', qs_sas_code = ''1'', qs_expires_at = 0\<rparr>"

abbreviation demo_client :: "wizard_event list" where
  "demo_client \<equiv> [SetProps True (Some Client), ChooseMode PinMode, TypePassword ''pw'', PasteDigits ''123 456'', ConnectPressed]"

lemma run_host_demo:
  "pw_calls (run wizard_step (demo_host @ [QueueSession (Inr demo_session)]) demo_wizard) =
     pw_calls (run wizard_step demo_host demo_wizard) @ [StartQrHost ''pw'' True]"
  by (simp add: run_eval wizard_ops)

theorem qr_host_started_by_page_witness:
  "pw_password (run wizard_step demo_host demo_wizard) = ''pw''"
proof -
  have "pw_calls (wizard_step (QueueSession (Inr demo_session)) (run wizard_step demo_host demo_wizard)) =
      pw_calls (run wizard_step demo_host demo_wizard) @ [StartQrHost ''pw'' True]"
    using run_host_demo by simp
  from qr_host_started_by_page [OF arg_cong [OF demo_wizard_def, of "run wizard_step demo_host"] this, of "''pw''" True]
  show ?thesis by simp
qed

lemma run_client_demo:
  "last (pw_calls (run wizard_step (demo_client @ [QueueStart, QueueCancelled None, AttemptQueue 0, AttemptAnswered 0 HostCancelled])
     demo_wizard)) = ScanPairing ''pw'' ''123456'' 10000"
  by (simp add: run_eval wizard_ops)

theorem pairing_credentials_complete_witness: "call_ok (ScanPairing ''pw'' ''123456'' 10000)"
proof -
  let ?s = "run wizard_step (demo_client @ [QueueStart, QueueCancelled None, AttemptQueue 0, AttemptAnswered 0 HostCancelled]) demo_wizard"
  have "pw_calls ?s \<noteq> []" by (simp add: run_eval wizard_ops)
  with run_client_demo have "ScanPairing ''pw'' ''123456'' 10000 \<in> set (pw_calls ?s)" by (metis last_in_set)
  then show ?thesis unfolding demo_wizard_def by (rule pairing_credentials_complete)
qed

theorem pairing_password_forgotten_witness:
  "pw_password (run wizard_step [QueueStart, QueueCancelled None] (wizard_step EscapePressed (run wizard_step demo_host demo_wizard))) = []"
proof -
  have "pw_isOpen (run wizard_step demo_host demo_wizard)"
    "\<not> pw_isOpen (wizard_step EscapePressed (run wizard_step demo_host demo_wizard))"
    by (simp_all add: run_eval wizard_ops)
  from pairing_password_forgotten [OF this, of "[QueueStart, QueueCancelled None]"] show ?thesis by simp
qed

theorem given_up_attempt_is_silent_witness:
  "let t = run wizard_step [ConnectPressed] (wizard_step CancelConnecting (run wizard_step demo_client demo_wizard))
   in length (pw_attempts t) = 2 \<and> wizard_handle (AttemptQueue 0) t \<in> {t, drop_attempt 0 t}"
proof -
  let ?s = "run wizard_step demo_client demo_wizard"
  let ?t = "run wizard_step [ConnectPressed] (wizard_step CancelConnecting ?s)"
  have "gives_up CancelConnecting ?s" "pa_number (pw_attempts ?t ! 0) \<le> pw_attempt ?s" "length (pw_attempts ?t) = 2"
    by (simp_all add: run_eval wizard_ops)
  with given_up_attempt_is_silent [OF arg_cong [OF demo_wizard_def, of "run wizard_step demo_client"] this(1) refl,
      where fs = "[ConnectPressed]" and i = 0]
  show ?thesis by (simp only: Let_def simp_thms)
qed

section \<open>Three behaviours worth knowing\<close>

text \<open>
  The six-digit code is generated while there is none and never forgotten: a second pairing, with the dialog
  closed and opened again in between, shows the code of the first (lines 254 to 262).
\<close>

lemma pairing_code_reused:
  "let s = run wizard_step [SetProps True None, ChooseRole Host, CodeGenerated (Inr ''111111''), EscapePressed,
       SetProps True None, ChooseRole Host] demo_wizard
   in pw_isOpen s \<and> pw_pairingCode s = ''111111'' \<and> count_list (pw_calls s) GeneratePairingCode = 1"
  by (simp add: run_eval wizard_ops)

text \<open>
  The Escape key closes the dialog but not the scanner above it; a code scanned then starts a pairing that
  runs to the native call without a dialog (lines 226 to 234 and 1408 to 1412).
\<close>

lemma pairing_without_dialog:
  "let s = run wizard_step [SetProps True (Some Client), OpenScanner, EscapePressed, QrScanned ''p'', QueueStart,
       QueueCancelled None, QueueStart, QueueCancelled None, AttemptQueue 0, AttemptAnswered 0 HostCancelled] demo_wizard
   in \<not> pw_isOpen s \<and> last (pw_calls s) = StartQrClient ''p''"
  by (simp add: run_eval wizard_ops)

text \<open>
  Cancelling while an adopted vault is saved leaves the dialog in adoption mode. If the user then chooses to
  be the host, the password page saves the adopted vault again instead of going on, and after that
  "sync again" offers the vault by QR code with an empty password (lines 384 to 390 and 1284 to 1290).
\<close>

lemma host_with_empty_password:
  "last (pw_calls (run wizard_step
     [SetProps True None, ChooseRole Client, OpenScanner, QrScanned ''p'', AttemptQueue 0, AttemptAnswered 0 HostCancelled,
      AttemptAnswered 0 (QrPaired \<lparr>qc_stats = demo_stats, qc_sas_code = None, qc_needs_password = True, qc_has_master_password = False\<rparr>),
      TypePassword ''pw'', SubmitPassword, CancelConnecting, BackToRole, ChooseRole Host, SubmitPassword,
      AttemptAnswered 1 (Paired demo_stats), SyncAgain, QueueStart, QueueCancelled None, QueueStart, QueueCancelled None,
      QueueStart, QueueCancelled None, QueueSession (Inr demo_session)] demo_wizard)) = StartQrHost [] True"
  by (simp add: run_eval wizard_ops)

end
