(* ===== verification/Translations.thy ===== *)
theory Translations
  imports Session
begin

text \<open>
  Translated texts: \<open>i18n/languages.ts\<close>, \<open>i18n/translations.ts\<close> and the language context. The
  24 tables of \<open>i18n/locales\<close> are data; here a dictionary is any map from keys to texts, so what
  is proved holds for each of them. The names of the languages in their own scripts and the flags are
  left out of the language table.
\<close>

section \<open>Languages\<close>

datatype text_dir = Ltr | Rtl

record language_option =
  lo_code :: string
  lo_name :: string
  lo_dir :: text_dir

definition lang_opt :: "string \<Rightarrow> string \<Rightarrow> text_dir \<Rightarrow> language_option" where
  "lang_opt c n d = \<lparr>lo_code = c, lo_name = n, lo_dir = d\<rparr>"

definition LANGUAGES :: "language_option list" where
  "LANGUAGES =
     [lang_opt ''en'' ''English'' Ltr,
      lang_opt ''es'' ''Spanish'' Ltr,
      lang_opt ''fr'' ''French'' Ltr,
      lang_opt ''de'' ''German'' Ltr,
      lang_opt ''it'' ''Italian'' Ltr,
      lang_opt ''pt'' ''Portuguese'' Ltr,
      lang_opt ''ru'' ''Russian'' Ltr,
      lang_opt ''ja'' ''Japanese'' Ltr,
      lang_opt ''ko'' ''Korean'' Ltr,
      lang_opt ''zh-CN'' ''Chinese (Simplified)'' Ltr,
      lang_opt ''zh-TW'' ''Chinese (Traditional)'' Ltr,
      lang_opt ''ar'' ''Arabic'' Rtl,
      lang_opt ''hi'' ''Hindi'' Ltr,
      lang_opt ''nl'' ''Dutch'' Ltr,
      lang_opt ''pl'' ''Polish'' Ltr,
      lang_opt ''uk'' ''Ukrainian'' Ltr,
      lang_opt ''sv'' ''Swedish'' Ltr,
      lang_opt ''tr'' ''Turkish'' Ltr,
      lang_opt ''da'' ''Danish'' Ltr,
      lang_opt ''fi'' ''Finnish'' Ltr,
      lang_opt ''no'' ''Norwegian'' Ltr,
      lang_opt ''cs'' ''Czech'' Ltr,
      lang_opt ''el'' ''Greek'' Ltr,
      lang_opt ''he'' ''Hebrew'' Rtl]"

definition DEFAULT_LANGUAGE :: string where
  "DEFAULT_LANGUAGE = ''en''"

definition getLanguageByCode :: "string \<Rightarrow> language_option" where
  "getLanguageByCode code =
     (case List.find (\<lambda>l. to_lower (lo_code l) = to_lower code) LANGUAGES of
        Some l \<Rightarrow> l | None \<Rightarrow> LANGUAGES ! 0)"

section \<open>Interpolation\<close>

type_synonym translation_dict = "string \<Rightarrow> string option"

definition word_char :: "char \<Rightarrow> bool" where
  "word_char c \<longleftrightarrow> is_letter c \<or> is_digit c \<or> c = CHR ''_''"

text \<open>
  \<open>/\{\s*(\w+)\s*\}/\<close> at the start of a string: the name, the text matched and the rest. The two classes
  and the closing brace exclude each other, so the greedy match is the only one.
\<close>

definition match_placeholder :: "string \<Rightarrow> (string \<times> string \<times> string) option" where
  "match_placeholder s =
     (case s of
        c # s1 \<Rightarrow>
          if c \<noteq> CHR ''{'' then None
          else let s2 = dropWhile is_ws s1; name = takeWhile word_char s2;
                   s3 = dropWhile is_ws (dropWhile word_char s2)
               in (case s3 of
                     d # rest \<Rightarrow>
                       if name \<noteq> [] \<and> d = CHR ''}''
                       then Some (name, take (length s - length rest) s, rest) else None
                   | [] \<Rightarrow> None)
      | [] \<Rightarrow> None)"

lemma match_placeholder_shorter: "match_placeholder s = Some (n, m, rest) \<Longrightarrow> length rest < length s"
proof -
  assume a: "match_placeholder s = Some (n, m, rest)"
  then obtain s1 where s: "s = CHR ''{'' # s1"
    by (auto simp: match_placeholder_def split: list.splits if_splits)
  with a obtain d where d: "dropWhile is_ws (dropWhile word_char (dropWhile is_ws s1)) = d # rest"
    by (auto simp: match_placeholder_def Let_def split: list.splits if_splits)
  have "Suc (length rest) \<le> length (dropWhile word_char (dropWhile is_ws s1))"
    using length_dropWhile_le [of is_ws "dropWhile word_char (dropWhile is_ws s1)"] d by simp
  also have "\<dots> \<le> length s1"
    using length_dropWhile_le [of word_char "dropWhile is_ws s1"] length_dropWhile_le [of is_ws s1] by linarith
  finally show ?thesis using s by simp
qed

text \<open>\<open>text.replace(...)\<close>: every match from left to right, and nothing inside what was put in.\<close>

function interpolate :: "(string \<times> string) list \<Rightarrow> string \<Rightarrow> string" where
  "interpolate params s =
     (case match_placeholder s of
        Some (name, m, rest) \<Rightarrow>
          (case map_of params name of Some v \<Rightarrow> v | None \<Rightarrow> m) @ interpolate params rest
      | None \<Rightarrow> (case s of [] \<Rightarrow> [] | c # cs \<Rightarrow> c # interpolate params cs))"
  by auto
termination
  by (relation "measure (\<lambda>(_, s). length s)") (auto dest: match_placeholder_shorter)

declare interpolate.simps [simp del]

section \<open>The loader\<close>

definition localeLoaders :: "string list" where
  "localeLoaders =
     [''en'', ''es'', ''fr'', ''de'', ''it'', ''pt'', ''ru'', ''ja'', ''ko'', ''zh-CN'', ''zh-TW'', 
      ''ar'', ''hi'', ''nl'', ''pl'', ''uk'', ''sv'', ''tr'', ''da'', ''fi'', ''no'', ''cs'', ''el'', 
      ''he'']"

text \<open>
  The module's state: the dictionaries in memory, and the languages whose chunk is being imported, in the
  order the imports were started; \<open>tl_imports\<close> records every import ever started.
\<close>

record loader_state =
  tl_translations :: "(string, translation_dict) omap"
  tl_loading :: "string list"
  tl_imports :: "string list"

definition isTranslationLoaded :: "loader_state \<Rightarrow> string \<Rightarrow> bool" where
  "isTranslationLoaded s lang \<longleftrightarrow> om_get (tl_translations s) lang \<noteq> None"

definition target_lang :: "string \<Rightarrow> string" where
  "target_lang lang = (if lang \<in> set localeLoaders then lang else DEFAULT_LANGUAGE)"

definition loadTranslation :: "string \<Rightarrow> loader_state \<Rightarrow> loader_state" where
  "loadTranslation lang s =
     (let targetLang = target_lang lang
      in if isTranslationLoaded s targetLang \<or> targetLang \<in> set (tl_loading s) then s
         else s\<lparr>tl_loading := tl_loading s @ [targetLang], tl_imports := tl_imports s @ [targetLang]\<rparr>)"

text \<open>An import ends: with the dictionary of the chunk, or with an error.\<close>

definition import_settled :: "string \<Rightarrow> translation_dict option \<Rightarrow> loader_state \<Rightarrow> loader_state" where
  "import_settled targetLang res s =
     (let s = s\<lparr>tl_loading := remove1 targetLang (tl_loading s)\<rparr>
      in case res of
           None \<Rightarrow> s
         | Some dict \<Rightarrow>
             let s = s\<lparr>tl_translations := om_set targetLang dict (tl_translations s)\<rparr>
             in if targetLang \<noteq> DEFAULT_LANGUAGE \<and> \<not> isTranslationLoaded s DEFAULT_LANGUAGE \<and>
                   DEFAULT_LANGUAGE \<notin> set (tl_loading s)
                then loadTranslation DEFAULT_LANGUAGE s else s)"

text \<open>What a caller of \<open>loadTranslation\<close> gets when the import fails.\<close>

definition load_fallback :: "loader_state \<Rightarrow> translation_dict" where
  "load_fallback s = (case om_get (tl_translations s) DEFAULT_LANGUAGE of Some d \<Rightarrow> d | None \<Rightarrow> (\<lambda>_. None))"

text \<open>
  The language of the stored settings. \<open>language_of\<close> is \<open>JSON.parse(saved)?.language\<close>: \<open>None\<close> is
  an exception, \<open>Some None\<close> a value without the field.
\<close>

definition getInitialLanguage :: "(string \<Rightarrow> string option option) \<Rightarrow> string option \<Rightarrow> string" where
  "getInitialLanguage language_of saved =
     (if truthy_str saved
      then (case language_of (the saved) of
              Some (Some l) \<Rightarrow> if l \<noteq> [] \<and> l \<in> set localeLoaders then l else DEFAULT_LANGUAGE
            | _ \<Rightarrow> DEFAULT_LANGUAGE)
      else DEFAULT_LANGUAGE)"

definition init_loader :: "(string \<Rightarrow> string option option) \<Rightarrow> string option \<Rightarrow> loader_state" where
  "init_loader language_of saved =
     (let s = \<lparr>tl_translations = [], tl_loading = [], tl_imports = []\<rparr>;
          initialLanguage = getInitialLanguage language_of saved;
          s = loadTranslation initialLanguage s
      in if initialLanguage \<noteq> DEFAULT_LANGUAGE then loadTranslation DEFAULT_LANGUAGE s else s)"

definition getTranslation :: "loader_state \<Rightarrow> string \<Rightarrow> string \<Rightarrow> (string \<times> string) list option \<Rightarrow> string" where
  "getTranslation s lang key params =
     (let dict = (case om_get (tl_translations s) lang of Some d \<Rightarrow> Some d
                  | None \<Rightarrow> om_get (tl_translations s) DEFAULT_LANGUAGE);
          text = (case Option.bind dict (\<lambda>d. d key) of
                    Some v \<Rightarrow> v
                  | None \<Rightarrow> (case Option.bind (om_get (tl_translations s) DEFAULT_LANGUAGE) (\<lambda>d. d key) of
                              Some v \<Rightarrow> v | None \<Rightarrow> key))
      in case params of Some ps \<Rightarrow> interpolate ps text | None \<Rightarrow> text)"

section \<open>The language context\<close>

text \<open>
  The provider with the loader it uses: the language of the last render, the language whose chunk it
  has seen loaded, and the waiting effects, cancelled when the language changes.
\<close>

record language_effect =
  le_language :: string
  le_cancelled :: bool

record language_state =
  lg_loader :: loader_state
  lg_language :: "string option"
  lg_activeLoadedLang :: string
  lg_effects :: "language_effect list"

definition settings_language :: "string option \<Rightarrow> string" where
  "settings_language l = (if truthy_str l then the l else DEFAULT_LANGUAGE)"

definition mount_language :: "loader_state \<Rightarrow> string option \<Rightarrow> language_state" where
  "mount_language s l =
     \<lparr>lg_loader = s, lg_language = None,
      lg_activeLoadedLang = (if isTranslationLoaded s (settings_language l) then settings_language l else []),
      lg_effects = []\<rparr>"

text \<open>A render: when the language differs, the old effect is cancelled and a new one starts loading.\<close>

definition render_language :: "string option \<Rightarrow> language_state \<Rightarrow> language_state" where
  "render_language l s =
     (let language = settings_language l
      in if lg_language s = Some language then s
         else s\<lparr>lg_language := Some language,
                lg_effects := map (\<lambda>e. e\<lparr>le_cancelled := True\<rparr>) (lg_effects s) @
                  [\<lparr>le_language = language, le_cancelled = False\<rparr>],
                lg_loader := loadTranslation language (lg_loader s)\<rparr>)"

text \<open>
  The promise of an effect: it settles when the chunk of its language is no longer being imported. It
  never fails, because a failed import gives the fallback.
\<close>

definition effect_loaded :: "nat \<Rightarrow> language_state \<Rightarrow> language_state" where
  "effect_loaded i s =
     (if i < length (lg_effects s) \<and> target_lang (le_language (lg_effects s ! i)) \<notin> set (tl_loading (lg_loader s))
      then let e = lg_effects s ! i; s = s\<lparr>lg_effects := take i (lg_effects s) @ drop (Suc i) (lg_effects s)\<rparr>
           in if le_cancelled e then s else s\<lparr>lg_activeLoadedLang := le_language e\<rparr>
      else s)"

definition unmount_language :: "language_state \<Rightarrow> language_state" where
  "unmount_language s = s\<lparr>lg_effects := map (\<lambda>e. e\<lparr>le_cancelled := True\<rparr>) (lg_effects s)\<rparr>"

definition translate :: "language_state \<Rightarrow> string \<Rightarrow> string \<Rightarrow> (string \<times> string) list option \<Rightarrow> string" where
  "translate s language key params =
     getTranslation (lg_loader s) (if lg_activeLoadedLang s = language then lg_activeLoadedLang s else language) key params"

datatype language_event =
    RenderLanguage "string option"
  | ImportSettled nat "translation_dict option"
  | EffectLoaded nat
  | UnmountLanguage

fun language_step :: "language_event \<Rightarrow> language_state \<Rightarrow> language_state" where
  "language_step (RenderLanguage l) s = render_language l s"
| "language_step (ImportSettled i res) s =
     (if i < length (tl_loading (lg_loader s))
      then s\<lparr>lg_loader := import_settled (tl_loading (lg_loader s) ! i) res (lg_loader s)\<rparr> else s)"
| "language_step (EffectLoaded i) s = effect_loaded i s"
| "language_step UnmountLanguage s = unmount_language s"

section \<open>Placeholders are replaced once\<close>

text \<open>The parts of a text: placeholders with their name, and single characters.\<close>

function parts :: "string \<Rightarrow> (string option \<times> string) list" where
  "parts s =
     (case match_placeholder s of
        Some (name, m, rest) \<Rightarrow> (Some name, m) # parts rest
      | None \<Rightarrow> (case s of [] \<Rightarrow> [] | c # cs \<Rightarrow> (None, [c]) # parts cs))"
  by auto
termination
  by (relation "measure length") (auto dest: match_placeholder_shorter)

declare parts.simps [simp del]

definition put_part :: "(string \<times> string) list \<Rightarrow> string option \<times> string \<Rightarrow> string" where
  "put_part params p =
     (case fst p of None \<Rightarrow> snd p | Some n \<Rightarrow> (case map_of params n of Some v \<Rightarrow> v | None \<Rightarrow> snd p))"

lemma match_placeholder_Nil [simp]: "match_placeholder [] = None"
  by (simp add: match_placeholder_def)

lemma interpolate_eqs:
  "interpolate ps [] = []"
  "match_placeholder (c # cs) = None \<Longrightarrow> interpolate ps (c # cs) = c # interpolate ps cs"
  "match_placeholder s = Some (n, m, rest) \<Longrightarrow> interpolate ps s = put_part ps (Some n, m) @ interpolate ps rest"
  by (subst interpolate.simps; simp add: put_part_def split: option.split)+

lemma parts_eqs:
  "parts [] = []"
  "match_placeholder (c # cs) = None \<Longrightarrow> parts (c # cs) = (None, [c]) # parts cs"
  "match_placeholder s = Some (n, m, rest) \<Longrightarrow> parts s = (Some n, m) # parts rest"
  by (subst parts.simps; simp)+

text \<open>A placeholder: braces around a name, with blanks around the name only.\<close>

definition placeholder :: "string \<Rightarrow> string \<Rightarrow> bool" where
  "placeholder n m \<longleftrightarrow>
     n \<noteq> [] \<and> list_all word_char n \<and>
     (\<exists>u v. list_all is_ws u \<and> list_all is_ws v \<and> m = CHR ''{'' # u @ n @ v @ [CHR ''}''])"

lemma list_all_takeWhile: "list_all P (takeWhile P xs)"
  by (induction xs) auto

lemma match_placeholder_shape:
  assumes "match_placeholder s = Some (n, m, rest)"
  shows "m @ rest = s" and "placeholder n m"
proof -
  from assms obtain s1 where s: "s = CHR ''{'' # s1"
    by (auto simp: match_placeholder_def split: list.splits if_splits)
  define s2 where "s2 = dropWhile is_ws s1"
  define s3 where "s3 = dropWhile is_ws (dropWhile word_char s2)"
  from assms s have f: "s3 = CHR ''}'' # rest" "n = takeWhile word_char s2" "n \<noteq> []" "m = take (length s - length rest) s"
    by (auto simp: match_placeholder_def Let_def s2_def s3_def split: list.splits if_splits)
  have "s1 = takeWhile is_ws s1 @ n @ takeWhile is_ws (dropWhile word_char s2) @ s3"
    unfolding f(2) s2_def s3_def by (metis takeWhile_dropWhile_id)
  then have whole: "s = (CHR ''{'' # takeWhile is_ws s1 @ n @ takeWhile is_ws (dropWhile word_char s2) @ [CHR ''}'']) @ rest"
    (is "s = ?m @ rest") using s f(1) by simp
  then have m: "m = ?m" using f(4) by simp
  then show "m @ rest = s" using whole by simp
  show "placeholder n m"
    unfolding placeholder_def m using f(3)
    by (intro conjI exI [of _ "takeWhile is_ws s1"] exI [of _ "takeWhile is_ws (dropWhile word_char s2)"])
       (simp_all add: list_all_takeWhile f(2))
qed

text \<open>
  Interpolation replaces once: the placeholders are those of the text itself, each is replaced by
  its parameter or left as it stands, and everything else is kept. What a value contains, braces
  and other placeholders included, is put in as it is.
\<close>

theorem interpolate_once:
  "interpolate params s = concat (map (put_part params) (parts s)) \<and> concat (map snd (parts s)) = s \<and>
   list_all (\<lambda>(n, m). case n of None \<Rightarrow> length m = 1 | Some n \<Rightarrow> placeholder n m) (parts s)"
proof (induction s rule: length_induct)
  case (1 s)
  show ?case
  proof (cases "match_placeholder s")
    case None
    then show ?thesis
      using 1 by (cases s) (simp_all add: interpolate_eqs parts_eqs put_part_def)
  next
    case (Some r)
    then obtain n m rest where r: "match_placeholder s = Some (n, m, rest)" by (cases r) auto
    note IH = 1 [rule_format, OF match_placeholder_shorter [OF r]]
    show ?thesis
      using IH match_placeholder_shape [OF r]
      by (simp add: interpolate_eqs(3) [OF r] parts_eqs(3) [OF r])
  qed
qed

section \<open>Every chunk is imported once\<close>

definition loader_inv :: "loader_state \<Rightarrow> bool" where
  "loader_inv s \<longleftrightarrow>
     distinct (tl_loading s) \<and>
     list_all (\<lambda>l. l \<in> set localeLoaders \<and> \<not> isTranslationLoaded s l) (tl_loading s)"

lemma target_supported: "target_lang l \<in> set localeLoaders"
  by (simp add: target_lang_def DEFAULT_LANGUAGE_def localeLoaders_def)

lemma loader_inv_load: "loader_inv s \<Longrightarrow> loader_inv (loadTranslation l s)"
  using target_supported [of l]
  by (auto simp: loader_inv_def loadTranslation_def Let_def isTranslationLoaded_def list_all_iff)

lemma loader_inv_settled:
  assumes "loader_inv s" and "l \<in> set (tl_loading s)"
  shows "loader_inv (import_settled l res s)"
proof -
  let ?s = "s\<lparr>tl_loading := remove1 l (tl_loading s)\<rparr>"
  have "loader_inv ?s"
    using assms(1) by (auto simp: loader_inv_def isTranslationLoaded_def list_all_iff dest: notin_set_remove1)
  moreover have "loader_inv (?s\<lparr>tl_translations := om_set l d (tl_translations ?s)\<rparr>)" for d
    using assms(1) by (auto simp: loader_inv_def isTranslationLoaded_def list_all_iff)
  ultimately show ?thesis
    by (auto simp: import_settled_def Let_def loader_inv_load split: option.split)
qed

lemma loader_inv_step [inv_steps]: "loader_inv (lg_loader s) \<Longrightarrow> loader_inv (lg_loader (language_step e s))"
  by (cases e) (auto simp: render_language_def effect_loaded_def unmount_language_def Let_def loader_inv_load loader_inv_settled)

interpretation language_machine: invariant_machine language_step "\<lambda>s. loader_inv (lg_loader s)"
  by unfold_locales (rule loader_inv_step)

lemma loader_inv_init: "loader_inv (init_loader f saved)"
proof -
  have "loader_inv \<lparr>tl_translations = [], tl_loading = [], tl_imports = []\<rparr>"
    by (simp add: loader_inv_def)
  then show ?thesis by (auto simp: init_loader_def Let_def intro!: loader_inv_load)
qed

lemma import_count_load:
  "isTranslationLoaded s l \<Longrightarrow>
   isTranslationLoaded (loadTranslation k s) l \<and> count_list (tl_imports (loadTranslation k s)) l = count_list (tl_imports s) l"
  by (auto simp: loadTranslation_def Let_def isTranslationLoaded_def)

lemma import_count_settled:
  "isTranslationLoaded s l \<Longrightarrow>
   isTranslationLoaded (import_settled k res s) l \<and> count_list (tl_imports (import_settled k res s)) l = count_list (tl_imports s) l"
  using import_count_load [of "s\<lparr>tl_loading := remove1 k (tl_loading s), tl_translations := om_set k d (tl_translations s)\<rparr>" l for d]
  by (auto simp: import_settled_def Let_def isTranslationLoaded_def split: option.split)

lemma import_count_step:
  "isTranslationLoaded (lg_loader s) l \<Longrightarrow>
   isTranslationLoaded (lg_loader (language_step e s)) l \<and>
   count_list (tl_imports (lg_loader (language_step e s))) l = count_list (tl_imports (lg_loader s)) l"
  by (cases e) (auto simp: render_language_def effect_loaded_def unmount_language_def Let_def
      import_count_load import_count_settled)

text \<open>
  The chunk of a language is never imported twice at a time, and never again once it is in
  memory, in whatever order languages are chosen and imports succeed or fail.
\<close>

theorem chunk_imported_once:
  assumes "s = run language_step es (mount_language (init_loader f saved) l)"
  shows "distinct (tl_loading (lg_loader s)) \<and>
         (isTranslationLoaded (lg_loader s) k \<longrightarrow>
            k \<notin> set (tl_loading (lg_loader (run language_step fs s))) \<and>
            count_list (tl_imports (lg_loader (run language_step fs s))) k = count_list (tl_imports (lg_loader s)) k)"
proof -
  have inv: "loader_inv (lg_loader (run language_step gs (mount_language (init_loader f saved) l)))" for gs
    by (rule language_machine.run_inv) (simp add: mount_language_def loader_inv_init)
  have count: "isTranslationLoaded (lg_loader s) k \<Longrightarrow>
      isTranslationLoaded (lg_loader (run language_step fs s)) k \<and>
      count_list (tl_imports (lg_loader (run language_step fs s))) k = count_list (tl_imports (lg_loader s)) k" for s
    by (induction fs arbitrary: s) (auto simp: import_count_step)
  show ?thesis
    using inv [of es] inv [of "es @ fs"] count [of s] assms
    by (auto simp: loader_inv_def list_all_iff)
qed

theorem chunk_imported_once_witness:
  "count_list (tl_imports (lg_loader (run language_step
     [RenderLanguage (Some ''en''), RenderLanguage (Some ''sv''), RenderLanguage (Some ''de'')]
     (run language_step [RenderLanguage (Some ''sv''), ImportSettled 1 (Some Map.empty), EffectLoaded 0]
       (mount_language (init_loader (\<lambda>_. None) None) None))))) ''sv'' = 1"
proof -
  let ?s = "run language_step [RenderLanguage (Some ''sv''), ImportSettled 1 (Some Map.empty), EffectLoaded 0]
       (mount_language (init_loader (\<lambda>_. None) None) None)"
  have loaded: "isTranslationLoaded (lg_loader ?s) ''sv''" and one: "count_list (tl_imports (lg_loader ?s)) ''sv'' = 1"
    by (simp_all add: mount_language_def init_loader_def getInitialLanguage_def loadTranslation_def target_lang_def
        DEFAULT_LANGUAGE_def localeLoaders_def isTranslationLoaded_def render_language_def settings_language_def
        import_settled_def effect_loaded_def Let_def)
  show ?thesis
    using chunk_imported_once [OF refl, THEN conjunct2, rule_format, OF loaded, THEN conjunct2] one by (rule trans)
qed

text \<open>A text whose value looks like a placeholder, and one whose parameter is missing.\<close>

lemma interpolate_examples:
  "interpolate [(''err'', ''{ x }''), (''x'', ''1'')] ''a {err}{ y }'' = ''a { x }{ y }''"
  by (simp add: interpolate.simps match_placeholder_def is_ws_def word_char_def is_letter_def is_digit_def)

section \<open>Which text is shown\<close>

lemma getTranslation_cases:
  "om_get (tl_translations s) lang = Some d \<Longrightarrow> d key = Some v \<Longrightarrow> getTranslation s lang key None = v"
  "om_get (tl_translations s) lang = Some d \<Longrightarrow> d key = None \<Longrightarrow> om_get (tl_translations s) DEFAULT_LANGUAGE = Some e \<Longrightarrow>
     e key = Some v \<Longrightarrow> getTranslation s lang key None = v"
  "om_get (tl_translations s) lang = None \<Longrightarrow> om_get (tl_translations s) DEFAULT_LANGUAGE = None \<Longrightarrow>
     getTranslation s lang key None = key"
  by (simp_all add: getTranslation_def)

text \<open>Every language of the table has a loader and is found by its own code, in any case.\<close>

lemma languages_loadable:
  "map lo_code LANGUAGES = localeLoaders" "list_all (\<lambda>l. getLanguageByCode (to_upper (lo_code l)) = l) LANGUAGES"
  subgoal by (simp add: LANGUAGES_def localeLoaders_def lang_opt_def)
  subgoal by code_simp
  done

end
