(* ===== verification/Entry_Form.thy ===== *)
theory Entry_Form
  imports Entry_Model Entries_State
begin

text \<open>
  The form that creates and edits an entry: \<open>features/entries/components/EntryModal.tsx\<close>. One mounted
  \<open>EntryForm\<close> (its key remounts it when it is opened or shows another entry) is a step function over
  typing, clicks, chosen files and answers. The bytes of a staged file live in a buffer that several
  places refer to, so the buffers are a store and a staged file has an address.

  What the platform does is an argument: the URL parser, \<open>decodeURIComponent\<close> and the translations
  (\<open>form_env\<close>); the text of a field type in a pattern (\<open>new RegExp(suffix)\<close>) is taken literally.
  Left out: which passwords are visible, the preview of a staged file, the dialogs for tags, apps and
  scanning apart from what they deliver.
\<close>

section \<open>Data\<close>

text \<open>\<open>new URL\<close> of an \<open>otpauth:\<close> link: the two parameters that are used, and the path.\<close>

record totp_url =
  tu_secret :: "string option"
  tu_issuer :: "string option"
  tu_pathname :: string

record form_env =
  fe_parseUrl :: "string \<Rightarrow> url option"
  fe_totpUrl :: "string \<Rightarrow> totp_url option"
  fe_decodeUri :: "string \<Rightarrow> string option"
  fe_t :: "string \<Rightarrow> string"

record picked_file =
  fi_name :: string
  fi_type :: string
  fi_size :: nat

record staged_file =
  sf_name :: string
  sf_mimeType :: string
  sf_buffer :: nat
  sf_size :: nat

datatype form_call =
    GetEntryForForm string
  | DecodeQrFile
  | ReadFile picked_file
  | UpdateEntryFrom password_entry
  | AddEntryFrom password_entry

text \<open>
  What the form waits for: the entry (while the effect is active), an image (with the order of the fields
  when it was given), the first of the remaining files, the save.
\<close>

datatype form_wait =
    WaitEntry bool
  | WaitQrImage "string list"
  | WaitFiles "picked_file list" "staged_file list"
  | WaitSave

record entry_form =
  ef_mounted :: bool
  ef_edit :: "password_entry option"
  ef_form :: password_entry
  ef_order :: "string list"
  ef_original :: "string option"
  ef_existing :: "attachment_info list"
  ef_staged :: "staged_file list"
  ef_delete :: "string list"
  ef_store :: "nat list list"
  ef_loading :: bool
  ef_saving :: bool
  ef_passwordError :: string
  ef_showGenerator :: bool
  ef_customGenerator :: "string option"
  ef_prevTags :: "tag list"
  ef_waits :: "form_wait list"
  ef_calls :: "form_call list"
  ef_toasts :: "(message \<times> toast_type) list"
  ef_closes :: nat

definition EMPTY_ENTRY :: password_entry where
  "EMPTY_ENTRY = \<lparr>pe_id = [], pe_title = [], pe_username = [], pe_password = [], pe_url = [], pe_email = [], pe_notes = [],
     pe_tags = [], pe_favorite = False, pe_pinned = False, pe_totpSecret = None, pe_recoveryCodes = None,
     pe_customFields = [], pe_createdAt = [], pe_updatedAt = [], pe_breachStatus = None, pe_hasPasskey = False,
     pe_passkeyPublicKey = None, pe_generatePasskey = None, pe_passkeyAction = None, pe_attachments = None,
     pe_newAttachments = None, pe_deleteAttachmentIds = None, pe_attachmentCount = None\<rparr>"

definition PRESETS :: "(string \<times> string \<times> string list) list" where
  "PRESETS =
     [(''login-user'', ''preset.login_user'', [''username'', ''password'', ''url'']),
      (''login-email'', ''preset.login_email'', [''email'', ''password'', ''url'']),
      (''note'', ''preset.secure_note'', [''notes'']),
      (''password-only'', ''preset.password_only'', [''password'']),
      (''custom'', ''preset.custom'', [])]"

section \<open>The initial form\<close>

record initial_form =
  in_form :: password_entry
  in_order :: "string list"
  in_original :: "string option"
  in_attachments :: "attachment_info list"

fun gather_recovery :: "string \<Rightarrow> custom_field list \<Rightarrow> string" where
  "gather_recovery acc [] = acc"
| "gather_recovery acc (f # fs) =
     (if isRecoveryField (cf_name f) \<and> trim (cf_value f) \<noteq> []
      then gather_recovery (acc @ (if acc \<noteq> [] then nl else []) @ trim (cf_value f)) fs
      else gather_recovery acc fs)"

definition initialEntryForm :: "password_entry option \<Rightarrow> string \<Rightarrow> initial_form" where
  "initialEntryForm target category =
     (case target of
        None \<Rightarrow>
          \<lparr>in_form = EMPTY_ENTRY\<lparr>pe_tags := (if category \<noteq> ''all'' \<and> category \<noteq> ''favorites'' then [category] else []),
             pe_favorite := (category = ''favorites'')\<rparr>,
           in_order = [''username'', ''password'', ''url''], in_original = None, in_attachments = []\<rparr>
      | Some e \<Rightarrow>
          (let recoveryCodes = gather_recovery (or_else (pe_recoveryCodes e) []) (pe_customFields e);
               customFields = cleaned_fields e;
               standard = entryStandardFields (e\<lparr>pe_customFields := customFields\<rparr>) recoveryCodes;
               password = (if pe_password e = mask then [] else pe_password e);
               form = EMPTY_ENTRY\<lparr>pe_title := pe_title e, pe_username := pe_username e, pe_password := password,
                 pe_url := pe_url e, pe_email := pe_email e, pe_notes := pe_notes e, pe_tags := pe_tags e,
                 pe_favorite := pe_favorite e, pe_pinned := pe_pinned e,
                 pe_totpSecret := (if pe_totpSecret e = Some has_totp_mark then Some [] else pe_totpSecret e),
                 pe_recoveryCodes := (if recoveryCodes \<noteq> [] then Some recoveryCodes else None),
                 pe_customFields := customFields, pe_hasPasskey := pe_hasPasskey e,
                 pe_passkeyPublicKey := pe_passkeyPublicKey e\<rparr>
           in \<lparr>in_form = form, in_order = getFieldLayout customFields standard,
               in_original = (if password \<noteq> [] then Some password else None),
               in_attachments = or_else (pe_attachments e) []\<rparr>))"

definition form_called :: "form_call \<Rightarrow> form_wait \<Rightarrow> entry_form \<Rightarrow> entry_form" where
  "form_called c w s = s\<lparr>ef_calls := ef_calls s @ [c], ef_waits := ef_waits s @ [w]\<rparr>"

definition form_toast :: "message \<Rightarrow> toast_type \<Rightarrow> entry_form \<Rightarrow> entry_form" where
  "form_toast m ty s = s\<lparr>ef_toasts := ef_toasts s @ [(m, ty)]\<rparr>"

text \<open>The opened form with its first effects: an entry that is only a preview is fetched.\<close>

definition mount_form :: "password_entry option \<Rightarrow> string \<Rightarrow> tag list \<Rightarrow> entry_form" where
  "mount_form edit category tags =
     (let i = initialEntryForm edit category;
          s = \<lparr>ef_mounted = True, ef_edit = edit, ef_form = in_form i, ef_order = in_order i, ef_original = in_original i,
            ef_existing = in_attachments i, ef_staged = [], ef_delete = [], ef_store = [], ef_loading = False,
            ef_saving = False, ef_passwordError = [], ef_showGenerator = False, ef_customGenerator = None,
            ef_prevTags = tags, ef_waits = [], ef_calls = [], ef_toasts = [], ef_closes = 0\<rparr>
      in case edit of
           None \<Rightarrow> s
         | Some e \<Rightarrow> if pe_password e = mask
                     then form_called (GetEntryForForm (pe_id e)) (WaitEntry True) (s\<lparr>ef_loading := True\<rparr>) else s)"

section \<open>Fields\<close>

definition form_keys :: "string list" where
  "form_keys = [''username'', ''password'', ''email'', ''url'', ''notes'', ''totpSecret'', ''passkey'', ''attachments'']"

definition activeFields :: "entry_form \<Rightarrow> string list" where
  "activeFields s = filter (\<lambda>f. f \<in> set form_keys) (ef_order s)"

datatype form_update =
    SetTitle string
  | SetUsername string
  | SetPassword string
  | SetUrl string
  | SetEmail string
  | SetNotes string
  | SetTotp "string option"
  | SetRecovery "string option"
  | SetFavorite bool

fun field_update :: "form_update \<Rightarrow> password_entry \<Rightarrow> password_entry" where
  "field_update (SetTitle v) e = e\<lparr>pe_title := v\<rparr>"
| "field_update (SetUsername v) e = e\<lparr>pe_username := v\<rparr>"
| "field_update (SetPassword v) e = e\<lparr>pe_password := v\<rparr>"
| "field_update (SetUrl v) e = e\<lparr>pe_url := v\<rparr>"
| "field_update (SetEmail v) e = e\<lparr>pe_email := v\<rparr>"
| "field_update (SetNotes v) e = e\<lparr>pe_notes := v\<rparr>"
| "field_update (SetTotp v) e = e\<lparr>pe_totpSecret := v\<rparr>"
| "field_update (SetRecovery v) e = e\<lparr>pe_recoveryCodes := v\<rparr>"
| "field_update (SetFavorite v) e = e\<lparr>pe_favorite := v\<rparr>"

definition updateField :: "form_update \<Rightarrow> entry_form \<Rightarrow> entry_form" where
  "updateField u s = s\<lparr>ef_form := field_update u (ef_form s),
     ef_passwordError := (case u of SetPassword _ \<Rightarrow> [] | _ \<Rightarrow> ef_passwordError s)\<rparr>"

definition set_order :: "(string list \<Rightarrow> string list) \<Rightarrow> entry_form \<Rightarrow> entry_form" where
  "set_order f s = s\<lparr>ef_order := f (ef_order s)\<rparr>"

definition removeField :: "string \<Rightarrow> entry_form \<Rightarrow> entry_form" where
  "removeField k = set_order (filter (\<lambda>f. f \<noteq> k))"

definition toggleTag :: "string \<Rightarrow> entry_form \<Rightarrow> entry_form" where
  "toggleTag n s = s\<lparr>ef_form := (ef_form s)\<lparr>pe_tags :=
     if n \<in> set (pe_tags (ef_form s)) then filter (\<lambda>t. t \<noteq> n) (pe_tags (ef_form s)) else pe_tags (ef_form s) @ [n]\<rparr>\<rparr>"

text \<open>The effect on the list of tags: a tag that has just been created is given to the entry.\<close>

definition tags_changed :: "tag list \<Rightarrow> entry_form \<Rightarrow> entry_form" where
  "tags_changed tags s =
     (let s' = s\<lparr>ef_prevTags := tags\<rparr>
      in if length tags > length (ef_prevTags s)
         then case List.find (\<lambda>t. tag_id t \<notin> tag_id ` set (ef_prevTags s)) tags of
                Some t \<Rightarrow> if tag_name t \<in> set (pe_tags (ef_form s)) then s'
                          else s'\<lparr>ef_form := (ef_form s)\<lparr>pe_tags := pe_tags (ef_form s) @ [tag_name t]\<rparr>\<rparr>
              | None \<Rightarrow> s'
         else s')"

definition use_tag_url :: "string \<Rightarrow> entry_form \<Rightarrow> entry_form" where
  "use_tag_url url s = set_order (\<lambda>order. ''url'' # filter (\<lambda>i. i \<noteq> ''url'') order) (updateField (SetUrl url) s)"

subsection \<open>Names of custom fields\<close>

definition getFieldSuffix :: "form_env \<Rightarrow> string \<Rightarrow> string" where
  "getFieldSuffix env ty =
     fe_t env (if ty = ''password'' then ''detail.password''
               else if ty = ''email'' then ''detail.email''
               else if ty = ''phone'' then ''detail.phone''
               else if ty = ''username'' then ''detail.username''
               else if ty = ''url'' then ''detail.url''
               else if ty = ''totp'' then ''detail.totp''
               else if ty = ''notes'' then ''preset.secure_note''
               else ''entry.custom_field'')"

definition getOrdinal :: "form_env \<Rightarrow> nat \<Rightarrow> string" where
  "getOrdinal env n =
     (if n = 0 then []
      else if n - 1 < 9 then fe_t env (''ordinal.'' @ show_nat n) else show_nat (n + 1))"

definition bool_nat :: "bool \<Rightarrow> nat" where
  "bool_nat b = (if b then 1 else 0)"

definition getFieldCount :: "string \<Rightarrow> entry_form \<Rightarrow> nat" where
  "getFieldCount ty s =
     (let has = (\<lambda>k. k \<in> set (ef_order s));
          target = (if ty = ''totpSecret'' then ''totp'' else ty)
      in bool_nat (ty \<in> set [''username'', ''password'', ''email'', ''url'', ''notes'', ''attachments''] \<and> has ty) +
         bool_nat ((ty = ''totpSecret'' \<or> ty = ''totp'') \<and> has ''totpSecret'') +
         length (filter (\<lambda>f. cf_type f = target) (pe_customFields (ef_form s))))"

text \<open>The pattern \<open>\s+suffix$\<close>, with upper and lower case alike.\<close>

definition has_suffix :: "string \<Rightarrow> string \<Rightarrow> bool" where
  "has_suffix name sfx \<longleftrightarrow>
     length sfx < length name \<and> to_lower (drop (length name - length sfx) name) = to_lower sfx \<and>
     is_ws (name ! (length name - length sfx - 1))"

definition getPrefix :: "string \<Rightarrow> string \<Rightarrow> string" where
  "getPrefix name sfx =
     (if sfx = [] then name else if has_suffix name sfx then trim_end (take (length name - length sfx) name) else name)"

definition formatFullName :: "string \<Rightarrow> string \<Rightarrow> string \<Rightarrow> string" where
  "formatFullName pre sfx ordinal =
     (let p = trim pre
      in if p \<noteq> [] then (if has_suffix p sfx then p else p @ '' '' @ sfx)
         else if ordinal \<noteq> [] then ordinal @ '' '' @ sfx else sfx)"

subsection \<open>Adding, changing and removing fields\<close>

definition set_form :: "(password_entry \<Rightarrow> password_entry) \<Rightarrow> entry_form \<Rightarrow> entry_form" where
  "set_form f s = s\<lparr>ef_form := f (ef_form s)\<rparr>"

definition applyTemplatePreset :: "string list \<Rightarrow> entry_form \<Rightarrow> entry_form" where
  "applyTemplatePreset preset s =
     set_form (\<lambda>e. if ''email'' \<in> set preset \<and> trim (pe_email e) = [] \<and> CHR ''@'' \<in> set (pe_username e)
                   then e\<lparr>pe_email := pe_username e\<rparr> else e)
       (set_order (\<lambda>order. applyFieldPreset (ef_form s) order preset) s)"

definition addCustomField :: "string \<Rightarrow> string \<Rightarrow> string \<Rightarrow> entry_form \<Rightarrow> entry_form" where
  "addCustomField uuid ty name s =
     set_order (\<lambda>order. order @ [uuid])
       (set_form (\<lambda>e. e\<lparr>pe_customFields := pe_customFields e @
          [\<lparr>cf_id = uuid, cf_name = name, cf_type = ty, cf_value = [], cf_sensitive = None\<rparr>]\<rparr>) s)"

text \<open>The type of the custom field that is added instead of a standard field that is already there.\<close>

definition custom_type :: "string \<Rightarrow> string" where
  "custom_type key =
     (if key \<in> set [''password'', ''email'', ''username'', ''url'', ''notes'', ''phone''] then key
      else if key = ''totpSecret'' \<or> key = ''totp'' then ''totp'' else ''text'')"

definition handleAddField :: "form_env \<Rightarrow> string \<Rightarrow> string \<Rightarrow> entry_form \<Rightarrow> entry_form" where
  "handleAddField env uuid key s =
     (if key = ''attachments''
      then (if ''attachments'' \<in> set (ef_order s) then s else set_order (\<lambda>order. order @ [''attachments'']) s)\<lparr>ef_delete := []\<rparr>
      else if key \<in> set form_keys \<and> key \<notin> set (ef_order s)
      then set_form (\<lambda>e. if key = ''email'' \<and> trim (pe_email e) = [] \<and> CHR ''@'' \<in> set (pe_username e)
                           then e\<lparr>pe_email := pe_username e\<rparr>
                         else if key = ''username'' \<and> trim (pe_username e) = [] \<and> trim (pe_email e) \<noteq> []
                           then e\<lparr>pe_username := pe_email e\<rparr>
                         else e)
             (set_order (\<lambda>order. order @ [key]) s)
      else let ty = custom_type key;
               ordinal = getOrdinal env (getFieldCount ty s)
           in addCustomField uuid ty (formatFullName ordinal (getFieldSuffix env ty) ordinal) s)"

definition updateCustomField :: "string \<Rightarrow> (custom_field \<Rightarrow> custom_field) \<Rightarrow> entry_form \<Rightarrow> entry_form" where
  "updateCustomField i f =
     set_form (\<lambda>e. e\<lparr>pe_customFields := map (\<lambda>c. if cf_id c = i then f c else c) (pe_customFields e)\<rparr>)"

definition removeCustomField :: "string \<Rightarrow> entry_form \<Rightarrow> entry_form" where
  "removeCustomField i s =
     set_order (filter (\<lambda>f. f \<noteq> i))
       (set_form (\<lambda>e. e\<lparr>pe_customFields := filter (\<lambda>c. cf_id c \<noteq> i) (pe_customFields e)\<rparr>) s)"

text \<open>Typing the name of a custom field, and choosing its type, which renames it.\<close>

definition other_count :: "string \<Rightarrow> string \<Rightarrow> entry_form \<Rightarrow> nat" where
  "other_count i ty s =
     length (filter (\<lambda>f. cf_type f = ty \<and> cf_id f \<noteq> i) (pe_customFields (ef_form s))) + bool_nat (ty \<in> set (ef_order s))"

definition rename_custom :: "form_env \<Rightarrow> string \<Rightarrow> string \<Rightarrow> entry_form \<Rightarrow> entry_form" where
  "rename_custom env i pre s =
     (case List.find (\<lambda>c. cf_id c = i) (pe_customFields (ef_form s)) of
        None \<Rightarrow> s
      | Some cf \<Rightarrow>
          let name = formatFullName pre (getFieldSuffix env (cf_type cf)) (getOrdinal env (other_count i (cf_type cf) s))
          in updateCustomField i (\<lambda>c. c\<lparr>cf_name := name\<rparr>) s)"

definition retype_custom :: "form_env \<Rightarrow> string \<Rightarrow> string \<Rightarrow> entry_form \<Rightarrow> entry_form" where
  "retype_custom env i ty s =
     (case List.find (\<lambda>c. cf_id c = i) (pe_customFields (ef_form s)) of
        None \<Rightarrow> s
      | Some cf \<Rightarrow>
          let pre = getPrefix (cf_name cf) (getFieldSuffix env (cf_type cf));
              name = formatFullName pre (getFieldSuffix env ty) (getOrdinal env (other_count i ty s))
          in updateCustomField i (\<lambda>c. c\<lparr>cf_type := ty, cf_name := name,
               cf_sensitive := Some (ty = ''password'' \<or> cf_sensitive cf = Some True)\<rparr>) s)"

fun position :: "'a \<Rightarrow> 'a list \<Rightarrow> nat option" where
  "position x [] = None"
| "position x (y # ys) = (if y = x then Some 0 else map_option Suc (position x ys))"

definition swap_at :: "nat \<Rightarrow> nat \<Rightarrow> 'a list \<Rightarrow> 'a list" where
  "swap_at i j xs = xs[i := xs ! j, j := xs ! i]"

definition move_field :: "string \<Rightarrow> bool \<Rightarrow> string list \<Rightarrow> string list" where
  "move_field i up order =
     (case position i order of
        None \<Rightarrow> order
      | Some from \<Rightarrow>
          if up then (if from = 0 then order else swap_at from (from - 1) order)
          else (if Suc from < length order then swap_at from (Suc from) order else order))"

section \<open>One-time codes from a QR code\<close>

definition clean_secret :: "string \<Rightarrow> string" where
  "clean_secret s = to_upper (filter (\<lambda>c. \<not> is_ws c \<and> c \<noteq> CHR ''-'') s)"

text \<open>\<open>/^\/+(totp|hotp)\/+/i\<close> is cut off the path.\<close>

definition strip_otp_kind :: "string \<Rightarrow> string" where
  "strip_otp_kind path =
     (let rest = dropWhile (\<lambda>c. c = CHR ''/'') path; kind = to_lower (take 4 rest); after = drop 4 rest
      in if path \<noteq> rest \<and> (kind = ''totp'' \<or> kind = ''hotp'') \<and> starts_with after ''/''
         then dropWhile (\<lambda>c. c = CHR ''/'') after else path)"

text \<open>The secret, the issuer and the account of a scanned text.\<close>

definition read_totp :: "form_env \<Rightarrow> string \<Rightarrow> string \<times> string \<times> string" where
  "read_totp env raw =
     (let secret = trim raw
      in if starts_with (to_lower secret) ''otpauth://''
         then (case fe_totpUrl env secret of
                 None \<Rightarrow> (secret, [], [])
               | Some u \<Rightarrow>
                   (let secret = (if truthy_str (tu_secret u) then clean_secret (the (tu_secret u)) else secret);
                        issuer = (if truthy_str (tu_issuer u) then the (tu_issuer u) else [])
                    in case fe_decodeUri env (strip_otp_kind (tu_pathname u)) of
                         None \<Rightarrow> (secret, issuer, [])
                       | Some part \<Rightarrow>
                           if CHR '':'' \<in> set part
                           then let parts = split_on (CHR '':'') part
                                in (secret, if issuer = [] then trim (hd parts) else issuer, trim (join_with '':'' (tl parts)))
                           else (secret, issuer, trim part)))
         else if starts_with (to_lower secret) ''steam://'' then (secret, [], [])
         else (clean_secret secret, [], []))"

text \<open>\<open>applyTotpSecret\<close> looks at the fields of the render it was created in (\<open>seen\<close>).\<close>

definition applyTotpSecret :: "form_env \<Rightarrow> string list \<Rightarrow> string \<Rightarrow> entry_form \<Rightarrow> entry_form" where
  "applyTotpSecret env seen raw s =
     (case read_totp env raw of
        (secret, issuer, account) \<Rightarrow>
          let s = set_form (\<lambda>e. e\<lparr>pe_totpSecret := Some secret,
                    pe_title := (if trim (pe_title e) \<noteq> [] then pe_title e
                                 else if issuer \<noteq> [] then issuer else if account \<noteq> [] then account else pe_title e),
                    pe_username := (if trim (pe_username e) \<noteq> [] then pe_username e
                                    else if account \<noteq> [] then account else pe_username e)\<rparr>) s;
              s = (if ''totpSecret'' \<in> set seen then s else set_order (\<lambda>order. order @ [''totpSecret'']) s)
          in form_toast (Tr ''entry_modal.qr_scanned_success'' []) ToastSuccess s)"

section \<open>Attachments\<close>

definition zero_buffers :: "staged_file list \<Rightarrow> nat list list \<Rightarrow> nat list list" where
  "zero_buffers fs store = fold (\<lambda>f st. st[sf_buffer f := map (\<lambda>_. 0) (st ! sf_buffer f)]) fs store"

definition max_file_size :: nat where
  "max_file_size = 25 * 1024 * 1024"

definition stage_files :: "staged_file list \<Rightarrow> entry_form \<Rightarrow> entry_form" where
  "stage_files fs s =
     (if fs = [] \<or> \<not> ef_mounted s then s
      else set_order (\<lambda>order. if ''attachments'' \<in> set order then order else order @ [''attachments''])
             (s\<lparr>ef_staged := ef_staged s @ fs\<rparr>))"

text \<open>\<open>handleFileSelect\<close> up to the next file that is read; files that are too large are left out with a message.\<close>

fun read_files :: "picked_file list \<Rightarrow> staged_file list \<Rightarrow> entry_form \<Rightarrow> entry_form" where
  "read_files [] staged s = stage_files staged s"
| "read_files (f # fs) staged s =
     (if fi_size f > max_file_size
      then read_files fs staged (form_toast (Tr ''toast.file_size_exceeded'' [(''name'', fi_name f)]) ToastError s)
      else form_called (ReadFile f) (WaitFiles (f # fs) staged) s)"

definition file_answered :: "picked_file list \<Rightarrow> staged_file list \<Rightarrow> string + nat list \<Rightarrow> entry_form \<Rightarrow> entry_form" where
  "file_answered fs staged ans s =
     (case fs of
        [] \<Rightarrow> s
      | f # fs \<Rightarrow>
          (case ans of
             Inl e \<Rightarrow> read_files fs staged
                        (form_toast (Tr ''toast.file_read_failed'' [(''name'', fi_name f), (''err'', e)]) ToastError s)
           | Inr bytes \<Rightarrow> read_files fs
               (staged @ [\<lparr>sf_name = fi_name f,
                  sf_mimeType = (if fi_type f \<noteq> [] then fi_type f else ''application/octet-stream''),
                  sf_buffer = length (ef_store s), sf_size = fi_size f\<rparr>])
               (s\<lparr>ef_store := ef_store s @ [bytes]\<rparr>)))"

definition remove_attachments :: "entry_form \<Rightarrow> entry_form" where
  "remove_attachments s =
     set_order (filter (\<lambda>f. f \<noteq> ''attachments''))
       (s\<lparr>ef_store := zero_buffers (ef_staged s) (ef_store s), ef_staged := [],
          ef_delete := (if ef_existing s \<noteq> [] then map at_id (ef_existing s) else ef_delete s)\<rparr>)"

definition remove_staged :: "nat \<Rightarrow> entry_form \<Rightarrow> entry_form" where
  "remove_staged i s = s\<lparr>ef_staged := take i (ef_staged s) @ drop (Suc i) (ef_staged s)\<rparr>"

text \<open>Unmounting ends the effects: the entry is no longer waited for, the staged files are overwritten.\<close>

definition unmount_form :: "entry_form \<Rightarrow> entry_form" where
  "unmount_form s =
     (if ef_mounted s
      then s\<lparr>ef_mounted := False, ef_store := zero_buffers (ef_staged s) (ef_store s),
             ef_waits := map (\<lambda>w. case w of WaitEntry _ \<Rightarrow> WaitEntry False | _ \<Rightarrow> w) (ef_waits s)\<rparr>
      else s)"

definition request_close :: "entry_form \<Rightarrow> entry_form" where
  "request_close s = unmount_form (s\<lparr>ef_closes := Suc (ef_closes s)\<rparr>)"

definition onClose :: "entry_form \<Rightarrow> entry_form" where
  "onClose s = (if ef_saving s then s else request_close s)"

definition closeOrCollapseGenerator :: "entry_form \<Rightarrow> entry_form" where
  "closeOrCollapseGenerator s =
     (if ef_showGenerator s \<or> truthy_str (ef_customGenerator s)
      then s\<lparr>ef_showGenerator := False, ef_customGenerator := None\<rparr> else onClose s)"

section \<open>Saving\<close>

definition validate :: "entry_form \<Rightarrow> bool" where
  "validate s \<longleftrightarrow>
     \<not> (''password'' \<in> set (activeFields s) \<and> lr_password (loginFields (ef_form s) (Some (ef_order s))) = None \<and> ef_edit s = None)"

text \<open>The form without what belongs to fields that are not there.\<close>

definition cleaned_form :: "form_env \<Rightarrow> string \<Rightarrow> entry_form \<Rightarrow> password_entry" where
  "cleaned_form env uuid s =
     (let e = ef_form s; has = (\<lambda>k. k \<in> set (activeFields s));
          keep = (\<lambda>k v. if has k then v else []);
          customFields = filter (\<lambda>c. cf_name c \<noteq> field_order_name \<and> \<not> isRecoveryField (cf_name c)) (pe_customFields e) @
             [fieldOrderMetadata uuid (pe_customFields e) (ef_order s) (map_option pe_id (ef_edit s))]
      in e\<lparr>pe_title := deriveTitle (fe_parseUrl env) (pe_title e) (Some (pe_url e)) (Some (pe_email e)) (Some (pe_username e)),
           pe_username := keep ''username'' (pe_username e), pe_password := keep ''password'' (pe_password e),
           pe_url := keep ''url'' (pe_url e), pe_email := keep ''email'' (pe_email e), pe_notes := keep ''notes'' (pe_notes e),
           pe_totpSecret := (if has ''totpSecret'' then pe_totpSecret e else None),
           pe_recoveryCodes := (if has ''totpSecret'' then pe_recoveryCodes e else None),
           pe_passkeyAction :=
             (case ef_edit s of
                Some old \<Rightarrow> if has ''passkey'' then (if \<not> pe_hasPasskey old then Some GeneratePasskey else pe_passkeyAction e)
                            else (if pe_hasPasskey old then Some RemovePasskey else pe_passkeyAction e)
              | None \<Rightarrow> pe_passkeyAction e),
           pe_generatePasskey := (if ef_edit s = None \<and> has ''passkey'' then Some True else pe_generatePasskey e),
           pe_customFields := customFields,
           pe_newAttachments :=
             (if ef_staged s \<noteq> []
              then Some (map (\<lambda>f. \<lparr>na_name = sf_name f, na_mime_type = sf_mimeType f, na_data = ef_store s ! sf_buffer f\<rparr>) (ef_staged s))
              else pe_newAttachments e),
           pe_deleteAttachmentIds := (if ef_delete s \<noteq> [] then Some (ef_delete s) else pe_deleteAttachmentIds e)\<rparr>)"

text \<open>
  \<open>{...editEntry, ...cleanedForm, updatedAt}\<close>: the form has every property of \<open>EMPTY_ENTRY\<close> and the recovery
  codes, and the attachment lists only when they were set.
\<close>

definition merged_entry :: "password_entry \<Rightarrow> password_entry \<Rightarrow> string \<Rightarrow> password_entry" where
  "merged_entry old e now = old\<lparr>pe_title := pe_title e, pe_username := pe_username e, pe_password := pe_password e,
     pe_url := pe_url e, pe_email := pe_email e, pe_notes := pe_notes e, pe_tags := pe_tags e, pe_favorite := pe_favorite e,
     pe_pinned := pe_pinned e, pe_totpSecret := pe_totpSecret e, pe_recoveryCodes := pe_recoveryCodes e,
     pe_customFields := pe_customFields e, pe_hasPasskey := pe_hasPasskey e, pe_passkeyPublicKey := pe_passkeyPublicKey e,
     pe_generatePasskey := pe_generatePasskey e, pe_passkeyAction := pe_passkeyAction e,
     pe_newAttachments := (if pe_newAttachments e \<noteq> None then pe_newAttachments e else pe_newAttachments old),
     pe_deleteAttachmentIds := (if pe_deleteAttachmentIds e \<noteq> None then pe_deleteAttachmentIds e else pe_deleteAttachmentIds old),
     pe_updatedAt := now\<rparr>"

definition submitted_entry :: "form_env \<Rightarrow> string \<Rightarrow> string \<Rightarrow> string \<Rightarrow> entry_form \<Rightarrow> password_entry" where
  "submitted_entry env now uuid uuid' s =
     (case ef_edit s of
        Some old \<Rightarrow> merged_entry old (cleaned_form env uuid s) now
      | None \<Rightarrow> (cleaned_form env uuid s)\<lparr>pe_id := uuid', pe_createdAt := now, pe_updatedAt := now\<rparr>)"

definition handleSubmit :: "form_env \<Rightarrow> string \<Rightarrow> string \<Rightarrow> string \<Rightarrow> entry_form \<Rightarrow> entry_form" where
  "handleSubmit env now uuid uuid' s =
     (if ef_loading s \<or> ef_saving s then s
      else if \<not> validate s then s\<lparr>ef_passwordError := ''Password is required''\<rparr>
      else let s = s\<lparr>ef_passwordError := [], ef_saving := True, ef_loading := True\<rparr>; e = submitted_entry env now uuid uuid' s
           in form_called (if ef_edit s \<noteq> None then UpdateEntryFrom e else AddEntryFrom e) WaitSave s)"

definition save_answered :: "string + bool \<Rightarrow> entry_form \<Rightarrow> entry_form" where
  "save_answered ans s =
     (let s = s\<lparr>ef_saving := False, ef_loading := False\<rparr>
      in case ans of
           Inl e \<Rightarrow> form_toast (Tr ''toast.action_failed'' [(''err'', e)]) ToastError s
         | Inr False \<Rightarrow> s
         | Inr True \<Rightarrow>
             request_close (form_toast (Tr (if ef_edit s \<noteq> None then ''toast.entry_updated'' else ''toast.entry_created'') []) ToastSuccess s))"

section \<open>Answers and events\<close>

datatype form_answer =
    FormFailed string
  | EntryGot password_entry
  | QrDecoded "string option"
  | FileBytes "nat list"
  | Saved bool

text \<open>
  \<open>EntryGot\<close> carries what \<open>decryptedEntryToPasswordEntry\<close> made of the answer. An entry that cannot be
  fetched leaves the form loading.
\<close>

definition entry_got :: "string \<Rightarrow> password_entry \<Rightarrow> entry_form \<Rightarrow> entry_form" where
  "entry_got category e s =
     (let i = initialEntryForm (Some e) category
      in s\<lparr>ef_form := in_form i, ef_order := in_order i, ef_original := in_original i, ef_existing := in_attachments i,
           ef_loading := False\<rparr>)"

definition resume_form :: "form_env \<Rightarrow> string \<Rightarrow> form_wait \<Rightarrow> form_answer \<Rightarrow> entry_form \<Rightarrow> entry_form" where
  "resume_form env category w ans s =
     (case w of
        WaitEntry active \<Rightarrow>
          (case ans of
             EntryGot e \<Rightarrow> if active then entry_got category e s else s
           | FormFailed e \<Rightarrow> if active then form_toast (Plain e) ToastError s else s
           | _ \<Rightarrow> s)
      | WaitQrImage seen \<Rightarrow>
          (case ans of
             QrDecoded (Some text) \<Rightarrow> applyTotpSecret env seen text s
           | QrDecoded None \<Rightarrow> form_toast (Tr ''entry_modal.qr_detect_error'' []) ToastInfo s
           | FormFailed e \<Rightarrow> form_toast (Tr ''toast.qr_scan_error'' [(''err'', e)]) ToastError s
           | _ \<Rightarrow> s)
      | WaitFiles fs staged \<Rightarrow>
          (case ans of
             FileBytes bytes \<Rightarrow> file_answered fs staged (Inr bytes) s
           | FormFailed e \<Rightarrow> file_answered fs staged (Inl e) s
           | _ \<Rightarrow> s)
      | WaitSave \<Rightarrow>
          (case ans of Saved ok \<Rightarrow> save_answered (Inr ok) s | FormFailed e \<Rightarrow> save_answered (Inl e) s | _ \<Rightarrow> s))"

definition answers_form :: "form_wait \<Rightarrow> form_answer \<Rightarrow> bool" where
  "answers_form w ans \<longleftrightarrow>
     (case ans of
        FormFailed _ \<Rightarrow> True
      | EntryGot _ \<Rightarrow> (case w of WaitEntry _ \<Rightarrow> True | _ \<Rightarrow> False)
      | QrDecoded _ \<Rightarrow> (case w of WaitQrImage _ \<Rightarrow> True | _ \<Rightarrow> False)
      | FileBytes _ \<Rightarrow> (case w of WaitFiles _ _ \<Rightarrow> True | _ \<Rightarrow> False)
      | Saved _ \<Rightarrow> w = WaitSave)"

definition settle_form :: "form_env \<Rightarrow> string \<Rightarrow> nat \<Rightarrow> form_answer \<Rightarrow> entry_form \<Rightarrow> entry_form" where
  "settle_form env category i ans s =
     (if i < length (ef_waits s) \<and> answers_form (ef_waits s ! i) ans
      then resume_form env category (ef_waits s ! i) ans (s\<lparr>ef_waits := take i (ef_waits s) @ drop (Suc i) (ef_waits s)\<rparr>)
      else s)"

datatype form_event =
    TypeField form_update
  | TogglesTag string
  | TagsChanged "tag list"
  | UseTagUrl string
  | PresetChosen nat
  | AddField string string
  | AddCustom string string
  | RemoveStandard string
  | RemoveCustom string
  | RenameCustom string string
  | RetypeCustom string string
  | CustomValue string string
  | Reordered "string list"
  | MoveField string bool
  | ShowGenerator bool
  | ShowCustomGenerator "string option"
  | ScannedTotp string
  | QrImageGiven
  | FilesGiven "picked_file list"
  | RemoveAttachments
  | RemoveExisting string
  | RemoveStaged nat
  | SubmitForm string string string
  | CloseForm
  | EscapeForm
  | UnmountForm
  | SettleForm nat form_answer

text \<open>
  Dragging delivers a permutation of the order; only a field that is shown has the widgets that remove,
  rename and move it. The image for a code is chosen inside the field of the secret. An identifier
  made by \<open>crypto.randomUUID\<close> is fresh.
\<close>

definition custom_ids :: "entry_form \<Rightarrow> string list" where
  "custom_ids s = map cf_id (pe_customFields (ef_form s))"

definition fresh_id :: "string \<Rightarrow> entry_form \<Rightarrow> bool" where
  "fresh_id i s \<longleftrightarrow> i \<notin> set (ef_order s) \<and> i \<notin> set (custom_ids s)"

definition custom_shown :: "string \<Rightarrow> entry_form \<Rightarrow> bool" where
  "custom_shown i s \<longleftrightarrow> i \<in> set (ef_order s) \<and> i \<notin> set form_keys \<and> i \<in> set (custom_ids s)"

definition when_form :: "bool \<Rightarrow> (entry_form \<Rightarrow> entry_form) \<Rightarrow> entry_form \<Rightarrow> entry_form" where
  "when_form b f s = (if b then f s else s)"

definition choose_preset :: "nat \<Rightarrow> entry_form \<Rightarrow> entry_form" where
  "choose_preset i s =
     (case PRESETS ! i of
        (name, _, preset) \<Rightarrow>
          if name = ''custom'' then set_order (\<lambda>order. applyFieldPreset (ef_form s) order []) s
          else applyTemplatePreset preset s)"

fun form_handle :: "form_env \<Rightarrow> string \<Rightarrow> form_event \<Rightarrow> entry_form \<Rightarrow> entry_form" where
  "form_handle env category (TypeField u) s = updateField u s"
| "form_handle env category (TogglesTag n) s = toggleTag n s"
| "form_handle env category (TagsChanged tags) s = tags_changed tags s"
| "form_handle env category (UseTagUrl url) s = use_tag_url url s"
| "form_handle env category (PresetChosen i) s = when_form (i < length PRESETS) (choose_preset i) s"
| "form_handle env category (AddField uuid key) s = when_form (fresh_id uuid s) (handleAddField env uuid key) s"
| "form_handle env category (AddCustom uuid ty) s = when_form (fresh_id uuid s) (addCustomField uuid ty []) s"
| "form_handle env category (RemoveStandard k) s = when_form (k \<in> set form_keys \<and> k \<noteq> ''attachments'') (removeField k) s"
| "form_handle env category (RemoveCustom i) s = when_form (custom_shown i s) (removeCustomField i) s"
| "form_handle env category (RenameCustom i pre) s = when_form (custom_shown i s) (rename_custom env i pre) s"
| "form_handle env category (RetypeCustom i ty) s = when_form (custom_shown i s) (retype_custom env i ty) s"
| "form_handle env category (CustomValue i v) s =
     when_form (custom_shown i s) (updateCustomField i (\<lambda>c. c\<lparr>cf_value := v\<rparr>)) s"
| "form_handle env category (Reordered order) s = when_form (mset order = mset (ef_order s)) (set_order (\<lambda>_. order)) s"
| "form_handle env category (MoveField i up) s = set_order (move_field i up) s"
| "form_handle env category (ShowGenerator b) s = s\<lparr>ef_showGenerator := b\<rparr>"
| "form_handle env category (ShowCustomGenerator i) s = s\<lparr>ef_customGenerator := i\<rparr>"
| "form_handle env category (ScannedTotp text) s = applyTotpSecret env (ef_order s) text s"
| "form_handle env category QrImageGiven s =
     when_form (''totpSecret'' \<in> set (ef_order s)) (form_called DecodeQrFile (WaitQrImage (ef_order s))) s"
| "form_handle env category (FilesGiven fs) s = read_files fs [] s"
| "form_handle env category RemoveAttachments s = remove_attachments s"
| "form_handle env category (RemoveExisting i) s = s\<lparr>ef_delete := ef_delete s @ [i]\<rparr>"
| "form_handle env category (RemoveStaged i) s = remove_staged i s"
| "form_handle env category (SubmitForm now uuid uuid') s = handleSubmit env now uuid uuid' s"
| "form_handle env category CloseForm s = onClose s"
| "form_handle env category EscapeForm s = closeOrCollapseGenerator s"
| "form_handle env category UnmountForm s = unmount_form s"
| "form_handle env category (SettleForm i ans) s = settle_form env category i ans s"

definition form_step :: "form_env \<Rightarrow> string \<Rightarrow> form_event \<Rightarrow> entry_form \<Rightarrow> entry_form" where
  "form_step env category e s =
     when_form (ef_mounted s \<or> (case e of SettleForm _ _ \<Rightarrow> True | _ \<Rightarrow> False)) (form_handle env category e) s"

section \<open>The order of the fields\<close>

text \<open>
  Identifiers as \<open>crypto.randomUUID\<close> makes them: not empty, without blanks around them or commas, and not the
  name of a standard field.
\<close>

definition good_id :: "string \<Rightarrow> bool" where
  "good_id i \<longleftrightarrow> i \<noteq> [] \<and> trim i = i \<and> CHR '','' \<notin> set i \<and> i \<notin> set form_keys"

definition good_entry :: "password_entry \<Rightarrow> bool" where
  "good_entry e \<longleftrightarrow> list_all (\<lambda>c. good_id (cf_id c)) (pe_customFields e)"

definition good_event :: "form_event \<Rightarrow> bool" where
  "good_event e \<longleftrightarrow>
     (case e of AddField uuid _ \<Rightarrow> good_id uuid | AddCustom uuid _ \<Rightarrow> good_id uuid
              | SettleForm _ (EntryGot x) \<Rightarrow> good_entry x | _ \<Rightarrow> True)"

definition shows_all :: "string list \<Rightarrow> custom_field list \<Rightarrow> bool" where
  "shows_all order cfs \<longleftrightarrow> distinct order \<and> set order \<subseteq> set form_keys \<union> cf_id ` set cfs \<and>
     (\<forall>c \<in> set cfs. good_id (cf_id c) \<and> (cf_name c \<noteq> field_order_name \<longrightarrow> cf_id c \<in> set order))"

text \<open>
  The order names every field once, standard fields and custom fields that exist, and all custom fields.
  An image is only decoded for a field of the secret that was there.
\<close>

definition order_inv :: "entry_form \<Rightarrow> bool" where
  "order_inv s \<longleftrightarrow> shows_all (ef_order s) (pe_customFields (ef_form s)) \<and>
     (\<forall>w \<in> set (ef_waits s). case w of WaitQrImage seen \<Rightarrow> ''totpSecret'' \<in> set seen | _ \<Rightarrow> True)"

lemma order_inv_cong:
  assumes "ef_order t = ef_order s" and "pe_customFields (ef_form t) = pe_customFields (ef_form s)"
    and "set (ef_waits t) \<subseteq> set (ef_waits s)"
  shows "order_inv s \<Longrightarrow> order_inv t"
  using assms by (auto simp: order_inv_def)

lemma order_inv_set_order:
  "order_inv s \<Longrightarrow> shows_all (f (ef_order s)) (pe_customFields (ef_form s)) \<Longrightarrow> order_inv (set_order f s)"
  by (simp add: order_inv_def set_order_def)

lemma order_inv_set_form:
  "order_inv s \<Longrightarrow> (\<And>e. pe_customFields (f e) = pe_customFields e) \<Longrightarrow> order_inv (set_form f s)"
  by (rule order_inv_cong) (simp_all add: set_form_def)

lemma order_inv_called:
  "order_inv s \<Longrightarrow> (\<And>seen. w = WaitQrImage seen \<Longrightarrow> ''totpSecret'' \<in> set seen) \<Longrightarrow> order_inv (form_called c w s)"
  by (auto simp: order_inv_def form_called_def split: form_wait.split)

lemma order_inv_toast: "order_inv s \<Longrightarrow> order_inv (form_toast m ty s)"
  by (rule order_inv_cong) (simp_all add: form_toast_def)

lemma form_toast_frame [simp]:
  "ef_order (form_toast m ty s) = ef_order s" "ef_form (form_toast m ty s) = ef_form s"
  "ef_waits (form_toast m ty s) = ef_waits s" "ef_mounted (form_toast m ty s) = ef_mounted s"
  by (simp_all add: form_toast_def)

lemma shows_all_add: "shows_all order cfs \<Longrightarrow> k \<in> set form_keys \<Longrightarrow> k \<notin> set order \<Longrightarrow> shows_all (order @ [k]) cfs"
  by (auto simp: shows_all_def)

lemma shows_all_remove: "shows_all order cfs \<Longrightarrow> k \<in> set form_keys \<Longrightarrow> shows_all (filter (\<lambda>f. f \<noteq> k) order) cfs"
  by (auto simp: shows_all_def good_id_def)

lemma shows_all_perm: "shows_all order cfs \<Longrightarrow> mset order' = mset order \<Longrightarrow> shows_all order' cfs"
  unfolding shows_all_def by (metis mset_eq_imp_distinct_iff mset_eq_setD)

lemma shows_all_custom:
  "shows_all order cfs \<Longrightarrow> good_id (cf_id c) \<Longrightarrow> cf_id c \<notin> set order \<Longrightarrow> shows_all (order @ [cf_id c]) (cfs @ [c])"
  by (auto simp: shows_all_def)

lemma shows_all_drop:
  "shows_all order cfs \<Longrightarrow> i \<notin> set form_keys \<Longrightarrow> shows_all (filter (\<lambda>f. f \<noteq> i) order) (filter (\<lambda>c. cf_id c \<noteq> i) cfs)"
  by (auto simp: shows_all_def)

lemma shows_all_update:
  assumes all: "shows_all order cfs" and i: "i \<in> set order" and same: "\<And>c. cf_id (f c) = cf_id c"
  shows "shows_all order (map (\<lambda>c. if cf_id c = i then f c else c) cfs)"
proof -
  define g where "g = (\<lambda>c. if cf_id c = i then f c else c)"
  have ids: "cf_id (g c) = cf_id c" for c by (simp add: g_def same)
  have "cf_id ` set (map g cfs) = cf_id ` set cfs" by (simp add: image_image ids)
  moreover have "good_id (cf_id (g c)) \<and> (cf_name (g c) \<noteq> field_order_name \<longrightarrow> cf_id (g c) \<in> set order)"
    if "c \<in> set cfs" for c
    using all i that unfolding ids by (auto simp: shows_all_def g_def split: if_splits)
  ultimately have "shows_all order (map g cfs)" using all by (simp add: shows_all_def)
  then show ?thesis by (simp add: g_def)
qed

lemma custom_key:
  assumes "i \<notin> set form_keys"
  shows "i \<noteq> ''attachments''" "i \<noteq> ''passkey''" "i \<notin> set [''username'', ''password'', ''email'', ''url'', ''notes'', ''totpSecret'']"
  using assms unfolding form_keys_def by simp_all

lemma preset_keeps_custom:
  assumes "order_inv s" and "c \<in> set (pe_customFields (ef_form s))"
  shows "preset_keeps (ef_form s) (cf_id c)"
proof -
  have "cf_id c \<notin> set form_keys" using assms by (simp add: order_inv_def shows_all_def good_id_def)
  then show ?thesis
    unfolding preset_keeps_def using assms(2) custom_key [of "cf_id c"] by (metis (mono_tags))
qed

lemma shows_all_preset:
  assumes "order_inv s" and "set preset \<subseteq> set form_keys"
  shows "shows_all (applyFieldPreset (ef_form s) (ef_order s) preset) (pe_customFields (ef_form s))"
  using assms preset_keeps_custom [OF assms(1)]
  by (auto simp: applyFieldPreset_def shows_all_def order_inv_def)

lemma mset_swap_at: "i < length xs \<Longrightarrow> j < length xs \<Longrightarrow> mset (swap_at i j xs) = mset xs"
  unfolding swap_at_def by (rule mset_swap)

lemma position_less: "position x xs = Some i \<Longrightarrow> i < length xs"
  by (induction xs arbitrary: i) (auto split: if_splits)

lemma mset_move_field: "mset (move_field i up order) = mset order"
  by (auto simp: move_field_def split: option.split intro!: mset_swap_at dest: position_less)

lemma order_inv_perm: "order_inv s \<Longrightarrow> (\<And>order. mset (f order) = mset order) \<Longrightarrow> order_inv (set_order f s)"
  by (rule order_inv_set_order) (auto simp: order_inv_def intro: shows_all_perm)

lemma order_inv_remove: "order_inv s \<Longrightarrow> k \<in> set form_keys \<Longrightarrow> order_inv (removeField k s)"
  unfolding removeField_def by (rule order_inv_set_order) (auto simp: order_inv_def intro: shows_all_remove)

lemma order_inv_update: "order_inv s \<Longrightarrow> order_inv (updateField u s)"
  by (rule order_inv_cong) (cases u; simp add: updateField_def)+

lemma order_inv_tags: "order_inv s \<Longrightarrow> order_inv (toggleTag n s)" "order_inv s \<Longrightarrow> order_inv (tags_changed tags s)"
  by (rule order_inv_cong; simp add: toggleTag_def tags_changed_def Let_def split: option.split)+

lemma order_inv_url: "order_inv s \<Longrightarrow> order_inv (use_tag_url url s)"
proof -
  assume s: "order_inv s"
  then have u: "order_inv (updateField (SetUrl url) s)" by (rule order_inv_update)
  have "''url'' \<in> set form_keys" by (simp add: form_keys_def)
  then show ?thesis
    unfolding use_tag_url_def
    by (intro order_inv_set_order [OF u]) (use u in \<open>auto simp: order_inv_def shows_all_def\<close>)
qed

lemma PRESETS_standard: "list_all (\<lambda>(_, _, preset). set preset \<subseteq> set form_keys) PRESETS"
  by (simp add: PRESETS_def form_keys_def)

lemma order_inv_template: "order_inv s \<Longrightarrow> set preset \<subseteq> set form_keys \<Longrightarrow> order_inv (applyTemplatePreset preset s)"
  unfolding applyTemplatePreset_def
  by (intro order_inv_set_form order_inv_set_order) (auto intro: shows_all_preset)

lemma order_inv_preset: "order_inv s \<Longrightarrow> i < length PRESETS \<Longrightarrow> order_inv (choose_preset i s)"
  using PRESETS_standard
  by (auto simp: choose_preset_def list_all_length order_inv_template split: prod.splits
      intro!: order_inv_set_order shows_all_preset)

lemma order_inv_add_custom:
  assumes "order_inv s" and "fresh_id i s" and "good_id i"
  shows "order_inv (addCustomField i ty name s)"
  using assms shows_all_custom [of "ef_order s" "pe_customFields (ef_form s)"
      "\<lparr>cf_id = i, cf_name = name, cf_type = ty, cf_value = [], cf_sensitive = None\<rparr>"]
  by (simp add: addCustomField_def set_order_def set_form_def order_inv_def fresh_id_def)

lemma order_inv_add_key: "order_inv s \<Longrightarrow> k \<in> set form_keys \<Longrightarrow> k \<notin> set (ef_order s) \<Longrightarrow> order_inv (set_order (\<lambda>order. order @ [k]) s)"
  by (rule order_inv_set_order) (auto simp: order_inv_def intro: shows_all_add)

lemma attachments_key: "''attachments'' \<in> set form_keys" "''totpSecret'' \<in> set form_keys" "''passkey'' \<in> set form_keys"
  by (simp_all add: form_keys_def)

lemma text_keys: "set [''username'', ''password'', ''url'', ''email'', ''notes''] \<subseteq> set form_keys"
  "set [''username'', ''password'', ''url''] \<subseteq> set form_keys" "set standard_keys = set form_keys"
  by (auto simp: form_keys_def standard_keys_def)

lemma order_inv_add:
  assumes s: "order_inv s" and fresh: "fresh_id uuid s" "good_id uuid"
  shows "order_inv (handleAddField env uuid key s)"
proof -
  consider "key = ''attachments''" | "key \<noteq> ''attachments''" "key \<in> set form_keys" "key \<notin> set (ef_order s)"
    | "key \<noteq> ''attachments''" "\<not> (key \<in> set form_keys \<and> key \<notin> set (ef_order s))" by blast
  then show ?thesis
  proof cases
    case 1
    have "order_inv (t\<lparr>ef_delete := []\<rparr>)" if "order_inv t" for t
      by (rule order_inv_cong [OF _ _ _ that]) simp_all
    then show ?thesis
      unfolding handleAddField_def 1 using s order_inv_add_key [OF s attachments_key(1)] by simp
  next
    case 2
    then show ?thesis
      unfolding handleAddField_def using order_inv_add_key [OF s 2(2,3)] by (auto intro!: order_inv_set_form)
  next
    case 3
    then show ?thesis
      unfolding handleAddField_def Let_def using order_inv_add_custom [OF s fresh] by (simp only: if_False)
  qed
qed

lemma order_inv_field: "order_inv s \<Longrightarrow> i \<in> set (ef_order s) \<Longrightarrow> (\<And>c. cf_id (f c) = cf_id c) \<Longrightarrow> order_inv (updateCustomField i f s)"
  using shows_all_update by (simp add: order_inv_def updateCustomField_def set_form_def)

lemma order_inv_rename:
  "order_inv s \<Longrightarrow> i \<in> set (ef_order s) \<Longrightarrow> order_inv (rename_custom env i pre s)"
  "order_inv s \<Longrightarrow> i \<in> set (ef_order s) \<Longrightarrow> order_inv (retype_custom env i ty s)"
  by (auto simp: rename_custom_def retype_custom_def Let_def intro!: order_inv_field split: option.split)

lemma order_inv_drop: "order_inv s \<Longrightarrow> i \<notin> set form_keys \<Longrightarrow> order_inv (removeCustomField i s)"
  using shows_all_drop by (simp add: order_inv_def removeCustomField_def set_form_def set_order_def)

lemma order_inv_totp:
  assumes s: "order_inv s" and seen: "''totpSecret'' \<in> set seen \<or> ''totpSecret'' \<notin> set (ef_order s)"
  shows "order_inv (applyTotpSecret env seen raw s)"
proof -
  obtain secret issuer account where r: "read_totp env raw = (secret, issuer, account)" by (cases "read_totp env raw")
  have form: "order_inv (set_form f s)" "ef_order (set_form f s) = ef_order s"
    if "\<And>e. pe_customFields (f e) = pe_customFields e" for f
    using order_inv_set_form [OF s that] by (simp_all add: set_form_def)
  show ?thesis
    unfolding applyTotpSecret_def r prod.case Let_def
    using seen
    by (auto intro!: order_inv_toast form order_inv_add_key attachments_key simp: form(2))
qed

lemma order_inv_stage: "order_inv s \<Longrightarrow> order_inv (stage_files fs s)"
proof -
  assume s: "order_inv s"
  have "order_inv (s\<lparr>ef_staged := xs\<rparr>)" for xs by (rule order_inv_cong [OF _ _ _ s]) simp_all
  note st = this
  show ?thesis
    unfolding stage_files_def using s attachments_key
    by (auto intro!: order_inv_set_order st simp: order_inv_def [of s] intro: shows_all_add)
qed

lemma order_inv_read: "order_inv s \<Longrightarrow> order_inv (read_files fs staged s)"
  by (induction fs staged s rule: read_files.induct) (auto intro: order_inv_stage order_inv_toast order_inv_called)

lemma order_inv_file: "order_inv s \<Longrightarrow> order_inv (file_answered fs staged ans s)"
proof -
  assume s: "order_inv s"
  have "order_inv (s\<lparr>ef_store := st\<rparr>)" for st by (rule order_inv_cong [OF _ _ _ s]) simp_all
  then show ?thesis
    using s by (auto simp: file_answered_def intro!: order_inv_read order_inv_toast split: list.split sum.split)
qed

lemma order_inv_remove_attachments: "order_inv s \<Longrightarrow> order_inv (remove_attachments s)"
proof -
  assume s: "order_inv s"
  have "order_inv (s\<lparr>ef_store := st, ef_staged := fs, ef_delete := d\<rparr>)" for st fs d
    by (rule order_inv_cong [OF _ _ _ s]) simp_all
  then show ?thesis
    unfolding remove_attachments_def using attachments_key order_inv_remove
    by (simp add: removeField_def)
qed

lemma order_inv_unmount: "order_inv s \<Longrightarrow> order_inv (unmount_form s)"
  by (auto simp: order_inv_def unmount_form_def split: form_wait.splits)

lemma order_inv_close: "order_inv s \<Longrightarrow> order_inv (request_close s)" "order_inv s \<Longrightarrow> order_inv (onClose s)"
proof -
  assume s: "order_inv s"
  have "order_inv (s\<lparr>ef_closes := n\<rparr>)" for n by (rule order_inv_cong [OF _ _ _ s]) simp_all
  then show "order_inv (request_close s)" unfolding request_close_def by (rule order_inv_unmount)
  then show "order_inv (onClose s)" using s by (simp add: onClose_def)
qed

lemma order_inv_escape: "order_inv s \<Longrightarrow> order_inv (closeOrCollapseGenerator s)"
  by (auto simp: closeOrCollapseGenerator_def order_inv_close intro: order_inv_cong [rotated 3])

lemma shows_all_initial:
  assumes "good_entry e"
  shows "shows_all (in_order (initialEntryForm (Some e) cat)) (pe_customFields (in_form (initialEntryForm (Some e) cat)))"
proof -
  define cfs where "cfs = cleaned_fields e"
  define std where "std = entryStandardFields (e\<lparr>pe_customFields := cfs\<rparr>) (gather_recovery (or_else (pe_recoveryCodes e) []) (pe_customFields e))"
  have order: "in_order (initialEntryForm (Some e) cat) = getFieldLayout cfs std"
    and kept: "pe_customFields (in_form (initialEntryForm (Some e) cat)) = cfs"
    by (simp_all add: initialEntryForm_def Let_def cfs_def std_def)
  have good: "\<forall>c \<in> set cfs. good_id (cf_id c)" using assms by (auto simp: good_entry_def list_all_iff cfs_def cleaned_fields_def)
  have "set (saved_standard x) \<subseteq> set form_keys" for x
    by (auto simp: saved_standard_def text_keys(3) split: option.splits)
  moreover have "set (filled_standard x rc) \<subseteq> set form_keys" for x rc
  proof -
    have "set (filter P [''username'', ''password'', ''url'', ''email'', ''notes'']) \<subseteq> set form_keys" for P
      using text_keys(1) by (meson filter_is_subset order_trans)
    moreover have "set (if b then [k] else []) \<subseteq> set form_keys" if "k \<in> set form_keys" for b and k :: string
      using that by (cases b) simp_all
    ultimately show ?thesis
      unfolding filled_standard_def set_append using attachments_key by (intro Un_least) blast+
  qed
  ultimately have fs: "set (saved_standard x @ filled_standard x rc) \<subseteq> set form_keys" for x rc
    unfolding set_append by (intro Un_least)
  have "set (if b then [''username'', ''password'', ''url''] else saved_standard x @ filled_standard x rc) \<subseteq> set form_keys" for b x rc
    by (cases b) (simp_all only: if_True if_False text_keys(2) fs)
  then have "set std \<subseteq> set form_keys"
    unfolding std_def entryStandardFields_def Let_def set_uniq .
  then show ?thesis
    unfolding order kept shows_all_def
    using good by (auto simp: getFieldLayout_distinct getFieldLayout_set good_id_def)
qed

lemma order_inv_got: "order_inv s \<Longrightarrow> good_entry e \<Longrightarrow> order_inv (entry_got cat e s)"
  using shows_all_initial [of e cat] by (simp add: order_inv_def entry_got_def Let_def)

lemma order_inv_waits: "order_inv s \<Longrightarrow> set ws \<subseteq> set (ef_waits s) \<Longrightarrow> order_inv (s\<lparr>ef_waits := ws\<rparr>)"
  by (rule order_inv_cong) simp_all

lemma order_inv_submit: "order_inv s \<Longrightarrow> order_inv (handleSubmit env now uuid uuid' s)"
proof -
  assume s: "order_inv s"
  have "order_inv (s\<lparr>ef_passwordError := e\<rparr>)" "order_inv (s\<lparr>ef_passwordError := e, ef_saving := b, ef_loading := b'\<rparr>)" for e b b'
    by (rule order_inv_cong [OF _ _ _ s]; simp)+
  then show ?thesis
    using s by (auto simp: handleSubmit_def Let_def intro!: order_inv_called)
qed

lemma order_inv_saved: "order_inv s \<Longrightarrow> order_inv (save_answered ans s)"
proof -
  assume s: "order_inv s"
  have "order_inv (s\<lparr>ef_saving := b, ef_loading := b'\<rparr>)" for b b' by (rule order_inv_cong [OF _ _ _ s]) simp_all
  then show ?thesis
    by (auto simp: save_answered_def Let_def intro!: order_inv_toast order_inv_close split: sum.split bool.split)
qed

lemma order_inv_resume:
  assumes "order_inv s" and "\<And>e. ans = EntryGot e \<Longrightarrow> good_entry e"
    and "\<And>seen. w = WaitQrImage seen \<Longrightarrow> ''totpSecret'' \<in> set seen"
  shows "order_inv (resume_form env cat w ans s)"
  using assms
  by (auto simp: resume_form_def intro: order_inv_got order_inv_toast order_inv_totp order_inv_file order_inv_saved
      split: form_wait.split form_answer.split option.split)

lemma order_inv_settle:
  assumes s: "order_inv s" and "\<And>e. ans = EntryGot e \<Longrightarrow> good_entry e"
  shows "order_inv (settle_form env cat i ans s)"
proof (cases "i < length (ef_waits s)")
  case True
  have "order_inv (s\<lparr>ef_waits := take i (ef_waits s) @ drop (Suc i) (ef_waits s)\<rparr>)"
    by (rule order_inv_waits [OF s]) (use set_take_subset set_drop_subset in fastforce)
  moreover have "''totpSecret'' \<in> set seen" if "ef_waits s ! i = WaitQrImage seen" for seen
    using s nth_mem [OF True] that by (auto simp: order_inv_def split: form_wait.splits)
  ultimately show ?thesis
    using assms(2) s by (auto simp: settle_form_def intro: order_inv_resume)
qed (simp add: settle_form_def s)

lemma order_inv_step:
  assumes s: "order_inv s" and e: "good_event e"
  shows "order_inv (form_step env cat e s)"
proof -
  have "order_inv (form_handle env cat e s)"
  proof (cases e)
    case (SettleForm i ans)
    then show ?thesis using order_inv_settle [OF s, of ans] e by (cases ans) (auto simp: good_event_def)
  next
    case (Reordered order)
    then show ?thesis
      using s by (auto simp: when_form_def order_inv_def set_order_def intro: shows_all_perm)
  next
    case (ShowGenerator b)
    then show ?thesis using s by (auto intro: order_inv_cong [rotated 3])
  next
    case (ShowCustomGenerator i)
    then show ?thesis using s by (auto intro: order_inv_cong [rotated 3])
  next
    case (RemoveExisting i)
    then show ?thesis using s by (auto intro: order_inv_cong [rotated 3])
  next
    case (RemoveStaged i)
    then show ?thesis using s by (auto simp: remove_staged_def intro: order_inv_cong [rotated 3])
  next
    case (MoveField i up)
    then show ?thesis using s by (auto intro: order_inv_perm mset_move_field)
  next
    case (ScannedTotp raw)
    then show ?thesis using s by (auto intro: order_inv_totp)
  next
    case QrImageGiven
    then show ?thesis using s by (auto simp: when_form_def intro: order_inv_called)
  qed (use s e in \<open>auto simp: when_form_def custom_shown_def good_event_def intro: order_inv_update order_inv_tags
        order_inv_url order_inv_preset order_inv_add order_inv_add_custom order_inv_remove order_inv_drop order_inv_rename
        order_inv_field order_inv_read order_inv_remove_attachments order_inv_submit order_inv_close order_inv_escape
        order_inv_unmount\<close>)
  then show ?thesis using s by (simp add: form_step_def when_form_def)
qed

lemma order_inv_mount:
  assumes "\<And>e. edit = Some e \<Longrightarrow> good_entry e"
  shows "order_inv (mount_form edit cat tags)"
proof (cases edit)
  case None
  have "shows_all [''username'', ''password'', ''url''] []" using text_keys(2) by (simp add: shows_all_def)
  then show ?thesis
    using None by (simp add: mount_form_def order_inv_def initialEntryForm_def EMPTY_ENTRY_def Let_def)
next
  case (Some e)
  then show ?thesis
    using shows_all_initial [OF assms [OF Some], of cat] by (simp add: mount_form_def order_inv_def form_called_def Let_def)
qed

lemma order_inv_run:
  "order_inv s \<Longrightarrow> list_all good_event es \<Longrightarrow> order_inv (run (form_step env cat) es s)"
  by (induction es arbitrary: s) (auto intro: order_inv_step)

section \<open>Saving and opening again\<close>

text \<open>
  No custom field that is shown has a name that is kept for the layout or for recovery codes; fields so named
  are not saved (see \<open>recovery_named_field_lost\<close>).
\<close>

definition plain_names :: "entry_form \<Rightarrow> bool" where
  "plain_names s \<longleftrightarrow> (\<forall>c \<in> set (pe_customFields (ef_form s)). cf_id c \<in> set (ef_order s) \<longrightarrow>
     cf_name c \<noteq> field_order_name \<and> \<not> isRecoveryField (cf_name c))"

definition kept_fields :: "entry_form \<Rightarrow> custom_field list" where
  "kept_fields s = filter (\<lambda>c. cf_name c \<noteq> field_order_name \<and> \<not> isRecoveryField (cf_name c)) (pe_customFields (ef_form s))"

definition layout_field :: "string \<Rightarrow> entry_form \<Rightarrow> custom_field" where
  "layout_field uuid s = fieldOrderMetadata uuid (pe_customFields (ef_form s)) (ef_order s) (map_option pe_id (ef_edit s))"

lemma layout_name [simp]: "cf_name (layout_field uuid s) = field_order_name"
  "cf_value (layout_field uuid s) = join_with '','' (ef_order s)"
  by (simp_all add: layout_field_def fieldOrderMetadata_def Let_def)

lemma layout_not_recovery: "\<not> isRecoveryField field_order_name"
  by code_simp

lemma submitted_frame:
  fixes env now uuid uuid' s
  defines "e \<equiv> submitted_entry env now uuid uuid' s"
  shows "pe_customFields e = kept_fields s @ [layout_field uuid s]"
    and "pe_username e = (if ''username'' \<in> set (activeFields s) then pe_username (ef_form s) else [])"
    and "pe_password e = (if ''password'' \<in> set (activeFields s) then pe_password (ef_form s) else [])"
    and "pe_url e = (if ''url'' \<in> set (activeFields s) then pe_url (ef_form s) else [])"
    and "pe_email e = (if ''email'' \<in> set (activeFields s) then pe_email (ef_form s) else [])"
    and "pe_notes e = (if ''notes'' \<in> set (activeFields s) then pe_notes (ef_form s) else [])"
    and "pe_totpSecret e = (if ''totpSecret'' \<in> set (activeFields s) then pe_totpSecret (ef_form s) else None)"
    and "pe_recoveryCodes e = (if ''totpSecret'' \<in> set (activeFields s) then pe_recoveryCodes (ef_form s) else None)"
  by (simp_all add: e_def submitted_entry_def merged_entry_def cleaned_form_def Let_def kept_fields_def layout_field_def
      split: option.split)

lemma gather_none: "(\<And>f. f \<in> set fs \<Longrightarrow> \<not> isRecoveryField (cf_name f)) \<Longrightarrow> gather_recovery acc fs = acc"
  by (induction fs arbitrary: acc) auto

lemma clean_keys: "list_all (\<lambda>k. k \<noteq> [] \<and> trim k = k \<and> CHR '','' \<notin> set k) form_keys"
  by code_simp

lemma order_clean:
  assumes "order_inv s" and "i \<in> set (ef_order s)"
  shows "i \<noteq> [] \<and> trim i = i \<and> CHR '','' \<notin> set i"
proof -
  have "i \<in> set form_keys \<or> (\<exists>c \<in> set (pe_customFields (ef_form s)). i = cf_id c \<and> good_id (cf_id c))"
    using assms unfolding order_inv_def shows_all_def by blast
  then show ?thesis
  proof
    assume "i \<in> set form_keys"
    then show ?thesis by (rule bspec [OF clean_keys [unfolded list_all_iff]])
  qed (auto simp: good_id_def)
qed

lemma saved_order_read:
  assumes "order_inv s" and "ef_order s \<noteq> []"
  shows "map trim (split_on (CHR '','') (join_with '','' (ef_order s))) = ef_order s"
    and "join_with '','' (ef_order s) \<noteq> []"
proof -
  have clean: "trim i = i" "CHR '','' \<notin> set i" "i \<noteq> []" if "i \<in> set (ef_order s)" for i
    using order_clean [OF assms(1) that] by simp_all
  have split: "split_on (CHR '','') (join_with '','' (ef_order s)) = ef_order s"
    using split_on_join [OF assms(2)] clean by simp
  then show "map trim (split_on (CHR '','') (join_with '','' (ef_order s))) = ef_order s"
    by (simp add: map_idI clean)
  show "join_with '','' (ef_order s) \<noteq> []"
  proof
    assume "join_with '','' (ef_order s) = []"
    with split have "ef_order s = [[]]" by simp
    then show False using clean(3) by auto
  qed
qed

text \<open>
  The answer of the back end to the saved entry: the passkey and the attachments are as the form asked for,
  so that there is none unless its field is there.
\<close>

definition answered_entry :: "password_entry \<Rightarrow> entry_form \<Rightarrow> password_entry \<Rightarrow> bool" where
  "answered_entry e s e' \<longleftrightarrow>
     (\<exists>b a n. e' = e\<lparr>pe_hasPasskey := b, pe_attachments := a, pe_attachmentCount := n\<rparr> \<and>
        (b \<longrightarrow> ''passkey'' \<in> set (ef_order s)) \<and>
        (or_else a [] \<noteq> [] \<or> or_else n 0 \<noteq> 0 \<longrightarrow> ''attachments'' \<in> set (ef_order s)))"

lemma kept_plain:
  assumes "c \<in> set (kept_fields s)"
  shows "cf_name c \<noteq> field_order_name" and "\<not> isRecoveryField (cf_name c)" and "c \<in> set (pe_customFields (ef_form s))"
  using assms by (simp_all add: kept_fields_def)

lemma find_layout: "List.find (\<lambda>f. cf_name f = field_order_name) (kept_fields s @ [layout_field uuid s]) = Some (layout_field uuid s)"
proof -
  have "List.find P (xs @ [x]) = Some x" if "\<And>y. y \<in> set xs \<Longrightarrow> \<not> P y" and "P x" for P and xs :: "custom_field list" and x
    using that by (induction xs) auto
  then show ?thesis using kept_plain(1) by simp
qed

lemma in_order_initial:
  "in_order (initialEntryForm (Some e) cat) = getFieldLayout (cleaned_fields e)
     (entryStandardFields (e\<lparr>pe_customFields := cleaned_fields e\<rparr>)
        (gather_recovery (or_else (pe_recoveryCodes e) []) (pe_customFields e)))"
  "pe_customFields (in_form (initialEntryForm (Some e) cat)) = cleaned_fields e"
  by (simp_all add: initialEntryForm_def Let_def)

lemma filled_active:
  assumes e: "e = submitted_entry env now uuid uuid' s" and "answered_entry e s e'"
    and rc: "rc = gather_recovery (or_else (pe_recoveryCodes e') []) (pe_customFields e')"
  shows "set (filled_standard (e'\<lparr>pe_customFields := cfs\<rparr>) rc) \<subseteq> set (ef_order s)"
proof -
  obtain b a n where e': "e' = e\<lparr>pe_hasPasskey := b, pe_attachments := a, pe_attachmentCount := n\<rparr>"
    and pk: "b \<longrightarrow> ''passkey'' \<in> set (ef_order s)"
    and att: "or_else a [] \<noteq> [] \<or> or_else n 0 \<noteq> 0 \<longrightarrow> ''attachments'' \<in> set (ef_order s)"
    using assms(2) by (auto simp: answered_entry_def)
  note subm = submitted_frame [of env now uuid uuid' s, folded e]
  have "gather_recovery x (pe_customFields e') = x" for x
    by (rule gather_none) (auto simp: e' subm(1) layout_not_recovery dest: kept_plain)
  then have rc': "rc = or_else (pe_recoveryCodes e) []" using rc by (simp add: e')
  have active: "k \<in> set (ef_order s)" if "k \<in> set (activeFields s)" for k using that by (simp add: activeFields_def)
  have tx: "k \<in> set (ef_order s)"
    if "k \<in> set [''username'', ''password'', ''url'', ''email'', ''notes'']" "entry_text (e'\<lparr>pe_customFields := cfs\<rparr>) k \<noteq> []" for k
    using that active by (auto simp: entry_text_def e' subm split: if_splits)
  have totp: "''totpSecret'' \<in> set (ef_order s)" if "truthy_str (pe_totpSecret e) \<or> rc \<noteq> []"
    using that active by (auto simp: subm rc' truthy_str_def or_else_def split: if_splits)
  have "set (filter (\<lambda>f. entry_text (e'\<lparr>pe_customFields := cfs\<rparr>) f \<noteq> [] \<and> entry_text (e'\<lparr>pe_customFields := cfs\<rparr>) f \<noteq> mask)
      [''username'', ''password'', ''url'', ''email'', ''notes'']) \<subseteq> set (ef_order s)"
    using tx by (simp only: set_filter) blast
  moreover have "set (if truthy_str (pe_totpSecret (e'\<lparr>pe_customFields := cfs\<rparr>)) \<or> rc \<noteq> [] then [''totpSecret''] else []) \<subseteq> set (ef_order s)"
    using totp by (auto simp: e')
  moreover have "set (if pe_hasPasskey (e'\<lparr>pe_customFields := cfs\<rparr>) then [''passkey''] else []) \<subseteq> set (ef_order s)"
    using pk by (auto simp: e')
  moreover have "set (if or_else (pe_attachments (e'\<lparr>pe_customFields := cfs\<rparr>)) [] \<noteq> [] \<or>
      or_else (pe_attachmentCount (e'\<lparr>pe_customFields := cfs\<rparr>)) 0 \<noteq> 0 then [''attachments''] else []) \<subseteq> set (ef_order s)"
    using att by (auto simp: e')
  ultimately show ?thesis unfolding filled_standard_def set_append by (intro Un_least)
qed

text \<open>The layout of fields that are exactly those of a saved order is that order.\<close>

lemma layout_of_order:
  assumes find: "List.find (\<lambda>cf. cf_name cf = field_order_name) cfs = Some l"
    and read: "map trim (split_on (CHR '','') (cf_value l)) = order" "cf_value l \<noteq> []"
    and order: "distinct order" "[] \<notin> set order"
    and all: "set std \<union> cf_id ` {c \<in> set cfs. cf_name c \<noteq> field_order_name} = set order"
  shows "getFieldLayout cfs std = order"
proof -
  define A where "A = uniq (filter (\<lambda>s. s \<noteq> []) std @ map cf_id (filter (\<lambda>cf. cf_name cf \<noteq> field_order_name \<and> cf_id cf \<noteq> []) cfs))"
  have "cf_id ` {c \<in> set cfs. cf_name c \<noteq> field_order_name \<and> cf_id c \<noteq> []} =
        cf_id ` {c \<in> set cfs. cf_name c \<noteq> field_order_name} - {[]}" by auto
  then have "set A = (set std \<union> cf_id ` {c \<in> set cfs. cf_name c \<noteq> field_order_name}) - {[]}"
    by (auto simp: A_def)
  then have A: "set A = set order" using all order(2) by auto
  have saved: "filter (\<lambda>s. s \<noteq> []) order = order" using order(2) by (auto simp: filter_id_conv)
  have o: "uniq (filter (\<lambda>i. i \<in> set A) order) = order" using order(1) by (simp add: A)
  have m: "filter (\<lambda>i. i \<notin> set order) A = []" by (simp add: A filter_empty_conv)
  show ?thesis
    unfolding getFieldLayout_def Let_def find option.case using read
    by (simp add: saved o m order(1) flip: A_def)
qed

text \<open>
  Claim C13. What the form saves opens in the form with the fields in the order they had, whatever has been added,
  removed, moved, renamed, dragged and answered before, and with the custom fields of the form, under four
  conditions: at least one field is left (without any, the form opens with its default fields); no custom field shown
  bears a reserved name (\<open>plain_names\<close>: such a field is not saved, see \<open>recovery_named_field_lost\<close>); identifiers are
  non-empty, without commas and outer blanks (\<open>good_id\<close>), as UUIDs are; and the back end returns the entry it was
  sent, with a passkey or attachments only where their fields are (\<open>answered_entry\<close>).
\<close>

theorem saved_order_reopens:
  assumes "\<And>x. edit = Some x \<Longrightarrow> good_entry x" and "list_all good_event es"
    and "s = run (form_step env cat) es (mount_form edit cat tags)"
    and "ef_order s \<noteq> []" and "plain_names s"
    and "answered_entry (submitted_entry env now uuid uuid' s) s e'"
  shows "in_order (initialEntryForm (Some e') cat') = ef_order s \<and>
         filter (\<lambda>c. cf_name c \<noteq> field_order_name) (pe_customFields (in_form (initialEntryForm (Some e') cat'))) = kept_fields s"
proof -
  let ?e = "submitted_entry env now uuid uuid' s"
  let ?cfs = "kept_fields s @ [layout_field uuid s]"
  have inv: "order_inv s" unfolding assms(3) using order_inv_run [OF order_inv_mount assms(2)] assms(1) by blast
  have fs: "pe_customFields e' = ?cfs" using assms(6) by (auto simp: answered_entry_def submitted_frame)
  have clean: "cleaned_fields e' = ?cfs"
    by (auto simp: cleaned_fields_def fs filter_id_conv layout_not_recovery dest: kept_plain)
  define rc where "rc = gather_recovery (or_else (pe_recoveryCodes e') []) (pe_customFields e')"
  define x where "x = e'\<lparr>pe_customFields := ?cfs\<rparr>"
  have layout: "saved_layout x = Some (join_with '','' (ef_order s))"
    by (simp add: saved_layout_def x_def find_layout)
  note read = saved_order_read [OF inv assms(4)]
  have saved: "saved_standard x = filter (\<lambda>v. v \<in> set form_keys) (ef_order s)"
    by (simp add: saved_standard_def layout read(1) text_keys(3))
  have std: "set (entryStandardFields x rc) = set (saved_standard x @ filled_standard x rc)"
    unfolding entryStandardFields_def Let_def set_uniq layout using read(2) by (simp add: truthy_str_def)
  have filled: "set (filled_standard x rc) \<subseteq> set (ef_order s)"
    unfolding x_def by (rule filled_active [OF refl assms(6) rc_def])
  have ids: "cf_id ` {c \<in> set ?cfs. cf_name c \<noteq> field_order_name} = cf_id ` set (kept_fields s)"
    using kept_plain(1) by force
  have kept: "cf_id ` set (kept_fields s) \<subseteq> set (ef_order s)"
    using inv by (auto simp: order_inv_def shows_all_def kept_fields_def)
  have custom: "i \<in> cf_id ` set (kept_fields s)" if i: "i \<in> set (ef_order s)" "i \<notin> set form_keys" for i
  proof -
    obtain c where c: "c \<in> set (pe_customFields (ef_form s))" "i = cf_id c"
      using inv i by (auto simp: order_inv_def shows_all_def)
    with assms(5) i have "c \<in> set (kept_fields s)" by (simp add: plain_names_def kept_fields_def)
    then show ?thesis using c by simp
  qed
  have all: "set (entryStandardFields x rc) \<union> cf_id ` {c \<in> set ?cfs. cf_name c \<noteq> field_order_name} = set (ef_order s)"
    unfolding std ids unfolding set_append saved using filled kept custom by auto
  have "getFieldLayout ?cfs (entryStandardFields x rc) = ef_order s"
  proof (rule layout_of_order [OF find_layout _ _ _ _ all])
    show "map trim (split_on (CHR '','') (cf_value (layout_field uuid s))) = ef_order s" "cf_value (layout_field uuid s) \<noteq> []"
      using read by simp_all
    show "distinct (ef_order s)" "[] \<notin> set (ef_order s)"
      using inv order_clean [OF inv] by (auto simp: order_inv_def shows_all_def)
  qed
  moreover have "filter (\<lambda>c. cf_name c \<noteq> field_order_name) (kept_fields s) = kept_fields s"
    using kept_plain(1) by (simp add: filter_id_conv)
  ultimately show ?thesis
    by (simp add: in_order_initial clean x_def rc_def)
qed

text \<open>A new entry: a preset, a custom field that is named and moved to the front.\<close>

definition demo_env :: form_env where
  "demo_env = \<lparr>fe_parseUrl = (\<lambda>_. None), fe_totpUrl = (\<lambda>_. None), fe_decodeUri = Some, fe_t = (\<lambda>k. k)\<rparr>"

definition demo_form :: "form_event list" where
  "demo_form = [PresetChosen 1, TypeField (SetEmail ''ann@b.c''), TypeField (SetPassword ''pw''), AddCustom ''u1'' ''text'',
     CustomValue ''u1'' ''1234'', MoveField ''u1'' True]"

lemmas form_eval = demo_env_def demo_form_def mount_form_def initialEntryForm_def EMPTY_ENTRY_def form_step_def when_form_def
  choose_preset_def PRESETS_def applyTemplatePreset_def applyFieldPreset_def preset_keeps_def entry_text_def uniq_def
  set_order_def set_form_def updateField_def addCustomField_def updateCustomField_def fresh_id_def custom_ids_def
  custom_shown_def form_keys_def move_field_def swap_at_def activeFields_def form_called_def Let_def

lemma demo_form_order:
  "ef_order (run (form_step demo_env ''all'') demo_form (mount_form None ''all'' [])) = [''email'', ''password'', ''u1'', ''url'']"
  "pe_customFields (ef_form (run (form_step demo_env ''all'') demo_form (mount_form None ''all'' []))) =
     [\<lparr>cf_id = ''u1'', cf_name = [], cf_type = ''text'', cf_value = ''1234'', cf_sensitive = None\<rparr>]"
  by (simp_all add: form_eval)

theorem saved_order_reopens_witness:
  "let s = run (form_step demo_env ''all'') demo_form (mount_form None ''all'' []);
       e = submitted_entry demo_env ''now'' ''u2'' ''u3'' s
   in in_order (initialEntryForm (Some e) ''all'') = [''email'', ''password'', ''u1'', ''url'']"
proof -
  let ?s = "run (form_step demo_env ''all'') demo_form (mount_form None ''all'' [])"
  let ?e = "submitted_entry demo_env ''now'' ''u2'' ''u3'' ?s"
  have good: "list_all good_event demo_form"
    by (simp add: demo_form_def good_event_def good_id_def form_keys_def trim_def trim_start_def trim_end_def is_ws_def)
  have plain: "plain_names ?s" by (simp add: plain_names_def demo_form_order isRecoveryField_def field_order_name_def)
  have new: "ef_edit ?s = None" "pe_hasPasskey (ef_form ?s) = False" "pe_attachments (ef_form ?s) = None"
    "pe_attachmentCount (ef_form ?s) = None"
    by (simp_all add: form_eval)
  then have "pe_hasPasskey ?e = False" "pe_attachments ?e = None" "pe_attachmentCount ?e = None"
    by (simp_all add: submitted_entry_def cleaned_form_def Let_def)
  moreover have "x = x\<lparr>pe_hasPasskey := False, pe_attachments := None, pe_attachmentCount := None\<rparr>"
    if "pe_hasPasskey x = False" "pe_attachments x = None" "pe_attachmentCount x = None" for x :: password_entry
    using that by (cases x) simp
  ultimately have "?e = ?e\<lparr>pe_hasPasskey := False, pe_attachments := None, pe_attachmentCount := None\<rparr>" by blast
  then have ans: "answered_entry ?e ?s ?e"
    unfolding answered_entry_def by (intro exI [of _ False] exI [of _ None] conjI) (simp_all add: or_else_def)
  show ?thesis
    using saved_order_reopens [OF _ good refl _ plain ans, of "''all''"] by (simp add: demo_form_order Let_def)
qed

section \<open>Masks are not saved\<close>

text \<open>
  A preview carries a mask in place of the password and a mark in place of the secret of the one-time code.
\<close>

definition unmasked :: "password_entry \<Rightarrow> bool" where
  "unmasked e \<longleftrightarrow> pe_password e \<noteq> mask \<and> pe_totpSecret e \<noteq> Some has_totp_mark"

fun sent_unmasked :: "form_call \<Rightarrow> bool" where
  "sent_unmasked (UpdateEntryFrom e) \<longleftrightarrow> unmasked e"
| "sent_unmasked (AddEntryFrom e) \<longleftrightarrow> unmasked e"
| "sent_unmasked _ \<longleftrightarrow> True"

definition mask_inv :: "entry_form \<Rightarrow> bool" where
  "mask_inv s \<longleftrightarrow> unmasked (ef_form s) \<and> list_all sent_unmasked (ef_calls s)"

text \<open>Nobody types the mask or the mark.\<close>

fun types_no_mask :: "form_event \<Rightarrow> bool" where
  "types_no_mask (TypeField (SetPassword v)) \<longleftrightarrow> v \<noteq> mask"
| "types_no_mask (TypeField (SetTotp v)) \<longleftrightarrow> v \<noteq> Some has_totp_mark"
| "types_no_mask _ \<longleftrightarrow> True"

lemma mask_inv_cong:
  assumes "pe_password (ef_form t) = pe_password (ef_form s)" and "pe_totpSecret (ef_form t) = pe_totpSecret (ef_form s)"
    and "ef_calls t = ef_calls s"
  shows "mask_inv s \<Longrightarrow> mask_inv t"
  using assms by (simp add: mask_inv_def unmasked_def)

lemma mask_inv_called: "mask_inv s \<Longrightarrow> sent_unmasked c \<Longrightarrow> mask_inv (form_called c w s)"
  by (simp add: mask_inv_def form_called_def)

lemma no_small_h: "CHR ''h'' \<notin> set (to_upper s)"
proof -
  have "CHR ''h'' \<notin> set (upper_char c)" for c
  proof
    assume "CHR ''h'' \<in> set (upper_char c)"
    then have "(if (97 \<le> code_of c \<and> code_of c \<le> 122) \<or> (224 \<le> code_of c \<and> code_of c \<le> 254 \<and> code_of c \<noteq> 247)
      then char_of (code_of c - 32) else c) = CHR ''h''" by (auto simp: upper_char_def split: if_splits)
    then have "code_of (if (97 \<le> code_of c \<and> code_of c \<le> 122) \<or> (224 \<le> code_of c \<and> code_of c \<le> 254 \<and> code_of c \<noteq> 247)
      then char_of (code_of c - 32) else c) = code_of CHR ''h''" by simp
    then show False by (auto split: if_splits simp: take_bit_eq_mod)
  qed
  then show ?thesis by (simp add: to_upper_def)
qed

lemma clean_unmarked: "clean_secret x \<noteq> has_totp_mark"
proof
  assume "clean_secret x = has_totp_mark"
  then have "CHR ''h'' \<in> set (clean_secret x)" by (simp add: has_totp_mark_def)
  then show False using no_small_h by (simp add: clean_secret_def)
qed

lemma mark_is_no_link: "\<not> starts_with (to_lower has_totp_mark) ''otpauth://''" "\<not> starts_with (to_lower has_totp_mark) ''steam://''"
  by code_simp+

lemma read_unmarked: "fst (read_totp env raw) \<noteq> has_totp_mark"
  using clean_unmarked mark_is_no_link
  by (auto simp: read_totp_def Let_def split: option.split)

lemma mask_inv_set_order: "mask_inv (set_order f s) = mask_inv s"
  by (simp add: mask_inv_def set_order_def)

lemma mask_inv_set_form:
  "mask_inv s \<Longrightarrow> (\<And>e. pe_password (f e) = pe_password e \<and> pe_totpSecret (f e) = pe_totpSecret e) \<Longrightarrow> mask_inv (set_form f s)"
  by (simp add: mask_inv_def set_form_def unmasked_def)

lemma mask_inv_toast: "mask_inv (form_toast m ty s) = mask_inv s"
  by (simp add: mask_inv_def form_toast_def)

lemma mask_inv_totp: "mask_inv s \<Longrightarrow> mask_inv (applyTotpSecret env seen raw s)"
  using read_unmarked [of env raw]
  by (auto simp: applyTotpSecret_def Let_def mask_inv_toast mask_inv_set_order mask_inv_def set_form_def unmasked_def
      set_order_def form_toast_def split: prod.split)

lemma mask_inv_stage: "mask_inv (stage_files fs s) = mask_inv s"
  by (simp add: stage_files_def mask_inv_set_order) (simp add: mask_inv_def)

lemma mask_inv_read: "mask_inv s \<Longrightarrow> mask_inv (read_files fs staged s)"
  by (induction fs staged s rule: read_files.induct) (auto simp: mask_inv_stage mask_inv_toast intro: mask_inv_called)

lemma mask_inv_file: "mask_inv s \<Longrightarrow> mask_inv (file_answered fs staged ans s)"
proof -
  assume s: "mask_inv s"
  then have "mask_inv (s\<lparr>ef_store := st\<rparr>)" for st by (simp add: mask_inv_def)
  then show ?thesis
    using s by (auto simp: file_answered_def mask_inv_toast intro!: mask_inv_read split: list.split sum.split)
qed

lemma mask_inv_attachments: "mask_inv (remove_attachments s) = mask_inv s"
  by (simp add: remove_attachments_def mask_inv_set_order) (simp add: mask_inv_def)

lemma mask_inv_close: "mask_inv (unmount_form s) = mask_inv s" "mask_inv (request_close s) = mask_inv s"
  "mask_inv (onClose s) = mask_inv s" "mask_inv (closeOrCollapseGenerator s) = mask_inv s"
  by (simp_all add: unmount_form_def request_close_def onClose_def closeOrCollapseGenerator_def mask_inv_def)

lemma mask_inv_tags: "mask_inv (toggleTag n s) = mask_inv s" "mask_inv (tags_changed tags s) = mask_inv s"
  by (simp_all add: toggleTag_def tags_changed_def Let_def mask_inv_def unmasked_def split: option.split)

lemma mask_inv_custom: "mask_inv s \<Longrightarrow> mask_inv (addCustomField i ty n s)" "mask_inv s \<Longrightarrow> mask_inv (removeCustomField i s)"
  "mask_inv s \<Longrightarrow> mask_inv (updateCustomField i f s)" "mask_inv s \<Longrightarrow> mask_inv (removeField k s)"
  by (auto simp: addCustomField_def removeCustomField_def updateCustomField_def removeField_def mask_inv_set_order
      intro!: mask_inv_set_form)

lemma mask_inv_rename: "mask_inv s \<Longrightarrow> mask_inv (rename_custom env i pre s)" "mask_inv s \<Longrightarrow> mask_inv (retype_custom env i ty s)"
  by (auto simp: rename_custom_def retype_custom_def Let_def intro: mask_inv_custom split: option.split)

lemma mask_inv_preset: "mask_inv s \<Longrightarrow> mask_inv (choose_preset i s)"
  by (auto simp: choose_preset_def applyTemplatePreset_def mask_inv_set_order intro!: mask_inv_set_form split: prod.split)

lemma mask_inv_add:
  assumes s: "mask_inv s"
  shows "mask_inv (handleAddField env uuid key s)"
proof -
  have "mask_inv (t\<lparr>ef_delete := []\<rparr>) = mask_inv t" for t by (simp add: mask_inv_def)
  note del = this
  have "mask_inv (set_form (\<lambda>e. if P e then e\<lparr>pe_email := pe_username e\<rparr> else if Q e then e\<lparr>pe_username := pe_email e\<rparr> else e) t)"
    if "mask_inv t" for P Q t
    by (rule mask_inv_set_form [OF that]) simp
  note std = this
  consider "key = ''attachments''" | "key \<noteq> ''attachments''" "key \<in> set form_keys" "key \<notin> set (ef_order s)"
    | "key \<noteq> ''attachments''" "\<not> (key \<in> set form_keys \<and> key \<notin> set (ef_order s))" by blast
  then show ?thesis
  proof cases
    case 1
    then show ?thesis unfolding handleAddField_def 1 by (simp add: del mask_inv_set_order s)
  next
    case 2
    have "mask_inv (set_order (\<lambda>order. order @ [key]) s)" by (simp add: mask_inv_set_order s)
    note this [THEN std]
    then show ?thesis unfolding handleAddField_def using 2 by (simp only: if_False if_True simp_thms)
  next
    case 3
    then show ?thesis unfolding handleAddField_def Let_def by (simp only: if_False mask_inv_custom s)
  qed
qed

lemma mask_inv_update: "mask_inv s \<Longrightarrow> types_no_mask (TypeField u) \<Longrightarrow> mask_inv (updateField u s)"
  by (cases u) (simp_all add: updateField_def mask_inv_def unmasked_def)

lemma initial_unmasked: "unmasked (in_form (initialEntryForm target cat))"
  by (cases target) (simp_all add: initialEntryForm_def EMPTY_ENTRY_def unmasked_def Let_def mask_def has_totp_mark_def)

lemma mask_inv_submit:
  assumes "mask_inv s"
  shows "mask_inv (handleSubmit env now uuid uuid' s)"
proof -
  have "[] \<noteq> mask" by (simp add: mask_def)
  then have "unmasked (submitted_entry env now uuid uuid' t)" if "unmasked (ef_form t)" for t
    using that by (simp add: unmasked_def submitted_frame)
  then show ?thesis
    using assms by (auto simp: handleSubmit_def Let_def mask_inv_def form_called_def)
qed

lemma mask_inv_got: "mask_inv s \<Longrightarrow> mask_inv (entry_got cat e s)"
  using initial_unmasked by (simp add: entry_got_def mask_inv_def Let_def)

lemma mask_inv_saved: "mask_inv s \<Longrightarrow> mask_inv (save_answered ans s)"
proof -
  assume "mask_inv s"
  then have "mask_inv (s\<lparr>ef_saving := b, ef_loading := b'\<rparr>)" for b b' by (simp add: mask_inv_def)
  then show ?thesis
    by (auto simp: save_answered_def Let_def mask_inv_toast mask_inv_close split: sum.split bool.split)
qed

lemma mask_inv_resume: "mask_inv s \<Longrightarrow> mask_inv (resume_form env cat w ans s)"
  by (auto simp: resume_form_def mask_inv_toast intro: mask_inv_totp mask_inv_file mask_inv_got mask_inv_saved
      split: form_wait.split form_answer.split option.split)

lemma mask_inv_step:
  assumes s: "mask_inv s" and e: "types_no_mask e"
  shows "mask_inv (form_step env cat e s)"
proof -
  have drop: "mask_inv (t\<lparr>ef_waits := ws\<rparr>) = mask_inv t" "mask_inv (t\<lparr>ef_showGenerator := b\<rparr>) = mask_inv t"
    "mask_inv (t\<lparr>ef_customGenerator := i\<rparr>) = mask_inv t" "mask_inv (t\<lparr>ef_delete := d\<rparr>) = mask_inv t"
    "mask_inv (t\<lparr>ef_staged := fs\<rparr>) = mask_inv t" for t ws b i d fs
    by (simp_all add: mask_inv_def)
  have "mask_inv (form_handle env cat e s)"
    using s e
    by (cases e)
      (auto simp: when_form_def mask_inv_set_order mask_inv_attachments mask_inv_close mask_inv_tags drop remove_staged_def
        settle_form_def use_tag_url_def
        intro!: mask_inv_update mask_inv_preset mask_inv_add mask_inv_custom mask_inv_rename mask_inv_totp mask_inv_called
          mask_inv_read mask_inv_submit mask_inv_resume)
  then show ?thesis using s by (simp add: form_step_def when_form_def)
qed

lemma mask_inv_run: "mask_inv s \<Longrightarrow> list_all types_no_mask es \<Longrightarrow> mask_inv (run (form_step env cat) es s)"
  by (induction es arbitrary: s) (auto intro: mask_inv_step)

lemma mask_inv_mount: "mask_inv (mount_form edit cat tags)"
  using initial_unmasked [of edit cat]
  by (cases edit) (simp_all add: mount_form_def mask_inv_def form_called_def Let_def)

text \<open>
  Claim C12. Editing an entry never overwrites its password with the mask of its preview, nor its one-time secret with
  the mark: unless the user types them, no save carries either, whatever is loaded, scanned or failed to load.
\<close>

theorem masks_never_saved:
  assumes "list_all types_no_mask es"
    and "UpdateEntryFrom e \<in> set (ef_calls (run (form_step env cat) es (mount_form edit cat tags)))"
  shows "pe_password e \<noteq> mask \<and> pe_totpSecret e \<noteq> Some has_totp_mark"
  using mask_inv_run [OF mask_inv_mount assms(1)] assms(2)
  by (fastforce simp: mask_inv_def list_all_iff unmasked_def)

definition demo_preview_entry :: password_entry where
  "demo_preview_entry = EMPTY_ENTRY\<lparr>pe_id := ''e1'', pe_title := ''Mail'', pe_password := mask, pe_totpSecret := Some has_totp_mark\<rparr>"

definition demo_edit :: "form_event list" where
  "demo_edit = [SubmitForm ''now'' ''u'' ''v'', SettleForm 0 (EntryGot (demo_preview_entry\<lparr>pe_password := ''s3cret'', pe_totpSecret := None\<rparr>)),
     TypeField (SetTitle ''Post''), SubmitForm ''now'' ''u'' ''v'']"

theorem masks_never_saved_witness:
  "\<exists>e. UpdateEntryFrom e \<in> set (ef_calls (run (form_step demo_env ''all'') demo_edit (mount_form (Some demo_preview_entry) ''all'' []))) \<and>
       pe_title e = ''Post'' \<and> pe_password e = ''s3cret'' \<and> pe_password e \<noteq> mask"
proof -
  let ?s = "run (form_step demo_env ''all'') (take 3 demo_edit) (mount_form (Some demo_preview_entry) ''all'' [])"
  let ?c = "ef_calls (run (form_step demo_env ''all'') demo_edit (mount_form (Some demo_preview_entry) ''all'' []))"
  let ?e = "submitted_entry demo_env ''now'' ''u'' ''v'' (?s\<lparr>ef_passwordError := [], ef_saving := True, ef_loading := True\<rparr>)"
  have form: "ef_loading ?s = False" "ef_saving ?s = False" "ef_mounted ?s" "ef_edit ?s = Some demo_preview_entry"
    "pe_title (ef_form ?s) = ''Post''" "pe_password (ef_form ?s) = ''s3cret''" "ef_order ?s = [''password'']"
    by code_simp+
  have "run (form_step demo_env ''all'') demo_edit (mount_form (Some demo_preview_entry) ''all'' []) =
        form_step demo_env ''all'' (SubmitForm ''now'' ''u'' ''v'') ?s"
    by (simp add: demo_edit_def)
  then have mem: "UpdateEntryFrom ?e \<in> set ?c"
    using form by (simp add: form_step_def when_form_def handleSubmit_def validate_def form_called_def Let_def)
  have "list_all types_no_mask demo_edit" by (simp add: demo_edit_def)
  from masks_never_saved [OF this mem] have "pe_password ?e \<noteq> mask" by simp
  moreover have "pe_title ?e = ''Post''" "pe_password ?e = ''s3cret''"
    using form by (simp_all add: submitted_entry_def merged_entry_def cleaned_form_def Let_def activeFields_def form_keys_def
        deriveTitle_def trim_def trim_start_def trim_end_def is_ws_def)
  ultimately show ?thesis using mem by blast
qed

section \<open>Staged files\<close>

text \<open>
  Addresses are in the store; once the form is gone the buffers of the staged files hold zeros only.
\<close>

definition in_store :: "nat list list \<Rightarrow> staged_file list \<Rightarrow> bool" where
  "in_store store fs \<longleftrightarrow> (\<forall>f \<in> set fs. sf_buffer f < length store)"

definition zeroed :: "nat list list \<Rightarrow> staged_file list \<Rightarrow> bool" where
  "zeroed store fs \<longleftrightarrow> (\<forall>f \<in> set fs. \<forall>b \<in> set (store ! sf_buffer f). b = 0)"

fun staged_of :: "form_wait \<Rightarrow> staged_file list" where
  "staged_of (WaitFiles _ fs) = fs"
| "staged_of _ = []"

definition buffer_inv :: "entry_form \<Rightarrow> bool" where
  "buffer_inv s \<longleftrightarrow> in_store (ef_store s) (ef_staged s) \<and>
     (\<forall>w \<in> set (ef_waits s). in_store (ef_store s) (staged_of w)) \<and>
     (\<not> ef_mounted s \<longrightarrow> zeroed (ef_store s) (ef_staged s))"

lemma buffer_inv_cong:
  assumes "ef_store t = ef_store s" and "ef_staged t = ef_staged s" and "ef_mounted t = ef_mounted s"
    and "set (ef_waits t) \<subseteq> set (ef_waits s)"
  shows "buffer_inv s \<Longrightarrow> buffer_inv t"
  using assms by (auto simp: buffer_inv_def)

lemma buffer_inv_called:
  "buffer_inv s \<Longrightarrow> in_store (ef_store s) (staged_of w) \<Longrightarrow> buffer_inv (form_called c w s)"
  by (simp add: buffer_inv_def form_called_def)

lemma buffer_frames [simp]:
  "buffer_inv (set_order f s) = buffer_inv s" "buffer_inv (set_form g s) = buffer_inv s" "buffer_inv (form_toast m ty s) = buffer_inv s"
  "buffer_inv (updateField u s) = buffer_inv s" "buffer_inv (toggleTag n s) = buffer_inv s"
  "buffer_inv (tags_changed tags s) = buffer_inv s"
  by (simp_all add: buffer_inv_def set_order_def set_form_def form_toast_def updateField_def toggleTag_def tags_changed_def Let_def
      split: option.split)

lemma length_zero_buffers [simp]: "length (zero_buffers fs store) = length store"
  by (induction fs arbitrary: store) (simp_all add: zero_buffers_def)

lemma zero_kept: "\<forall>b \<in> set (store ! i). b = 0 \<Longrightarrow> \<forall>b \<in> set (zero_buffers fs store ! i). b = 0"
proof (induction fs arbitrary: store)
  case (Cons f fs)
  have "\<forall>b \<in> set (store[sf_buffer f := map (\<lambda>_. 0) (store ! sf_buffer f)] ! i). b = 0"
    using Cons.prems by (cases "sf_buffer f < length store"; cases "i = sf_buffer f") (auto simp: list_update_beyond)
  from Cons.IH [OF this] show ?case by (simp add: zero_buffers_def)
qed (simp add: zero_buffers_def)

lemma zero_buffers_zero: "in_store store fs \<Longrightarrow> zeroed (zero_buffers fs store) fs"
proof (induction fs arbitrary: store)
  case (Cons f fs)
  let ?st = "store[sf_buffer f := map (\<lambda>_. 0) (store ! sf_buffer f)]"
  have eq: "zero_buffers (f # fs) store = zero_buffers fs ?st" by (simp add: zero_buffers_def)
  have "zeroed (zero_buffers fs ?st) fs" using Cons by (simp add: in_store_def)
  moreover have "\<forall>b \<in> set (zero_buffers fs ?st ! sf_buffer f). b = 0"
    by (rule zero_kept) (use Cons.prems in \<open>auto simp: in_store_def\<close>)
  ultimately show ?case unfolding eq by (simp add: zeroed_def)
qed (simp add: zeroed_def)

lemma in_store_zero [simp]: "in_store (zero_buffers xs store) fs = in_store store fs"
  by (simp add: in_store_def)

lemma in_store_Nil [simp]: "in_store store []"
  by (simp add: in_store_def)

lemma buffer_inv_unmount: "buffer_inv s \<Longrightarrow> buffer_inv (unmount_form s)"
  by (auto simp: buffer_inv_def unmount_form_def zero_buffers_zero in_store_Nil split: form_wait.splits)

lemma buffer_inv_close: "buffer_inv s \<Longrightarrow> buffer_inv (request_close s)" "buffer_inv s \<Longrightarrow> buffer_inv (onClose s)"
proof -
  assume "buffer_inv s"
  then have "buffer_inv (s\<lparr>ef_closes := n\<rparr>)" for n by (simp add: buffer_inv_def)
  then show "buffer_inv (request_close s)" unfolding request_close_def by (rule buffer_inv_unmount)
  then show "buffer_inv (onClose s)" using \<open>buffer_inv s\<close> by (simp add: onClose_def)
qed

lemma buffer_inv_stage: "buffer_inv s \<Longrightarrow> in_store (ef_store s) fs \<Longrightarrow> buffer_inv (stage_files fs s)"
  by (auto simp: stage_files_def) (auto simp: buffer_inv_def in_store_def)

lemma toast_store [simp]: "ef_store (form_toast m ty s) = ef_store s"
  by (simp add: form_toast_def)

lemma buffer_inv_read: "buffer_inv s \<Longrightarrow> in_store (ef_store s) st \<Longrightarrow> buffer_inv (read_files fs st s)"
  by (induction fs st s rule: read_files.induct) (auto intro: buffer_inv_stage buffer_inv_called)

lemma in_store_more: "in_store store fs \<Longrightarrow> in_store (store @ [x]) fs"
  by (simp add: in_store_def less_SucI)

lemma zeroed_more: "in_store store fs \<Longrightarrow> zeroed store fs \<Longrightarrow> zeroed (store @ [x]) fs"
  by (simp add: in_store_def zeroed_def nth_append)

lemma buffer_inv_file:
  assumes s: "buffer_inv s" and st: "in_store (ef_store s) st"
  shows "buffer_inv (file_answered fs st ans s)"
proof -
  have "buffer_inv (s\<lparr>ef_store := ef_store s @ [x]\<rparr>)" for x
    using s by (auto simp: buffer_inv_def intro: in_store_more zeroed_more)
  moreover have "in_store (ef_store s @ [x]) (st @ [\<lparr>sf_name = n, sf_mimeType = m, sf_buffer = length (ef_store s), sf_size = z\<rparr>])" for x n m z
    using in_store_more [OF st] by (simp add: in_store_def)
  ultimately show ?thesis
    using s st by (auto simp: file_answered_def intro!: buffer_inv_read split: list.split sum.split)
qed

lemma buffer_inv_custom: "buffer_inv (removeField k s) = buffer_inv s" "buffer_inv (addCustomField i ty n s) = buffer_inv s"
  "buffer_inv (removeCustomField i s) = buffer_inv s" "buffer_inv (updateCustomField i g s) = buffer_inv s"
  "buffer_inv (choose_preset j s) = buffer_inv s" "buffer_inv (use_tag_url url s) = buffer_inv s"
  "buffer_inv (applyTotpSecret env seen raw s) = buffer_inv s"
  by (simp_all add: removeField_def addCustomField_def removeCustomField_def updateCustomField_def choose_preset_def
      use_tag_url_def applyTemplatePreset_def applyTotpSecret_def Let_def split: prod.split)

lemma buffer_inv_rename: "buffer_inv (rename_custom env i pre s) = buffer_inv s" "buffer_inv (retype_custom env i ty s) = buffer_inv s"
  by (simp_all add: rename_custom_def retype_custom_def buffer_inv_custom Let_def split: option.split)

lemma buffer_inv_fields [simp]:
  "buffer_inv (s\<lparr>ef_delete := d\<rparr>) = buffer_inv s" "buffer_inv (s\<lparr>ef_showGenerator := b\<rparr>) = buffer_inv s"
  "buffer_inv (s\<lparr>ef_customGenerator := i\<rparr>) = buffer_inv s" "buffer_inv (s\<lparr>ef_passwordError := e\<rparr>) = buffer_inv s"
  "buffer_inv (s\<lparr>ef_saving := b\<rparr>) = buffer_inv s" "buffer_inv (s\<lparr>ef_loading := b\<rparr>) = buffer_inv s"
  by (simp_all add: buffer_inv_def)

lemma buffer_inv_add: "buffer_inv (handleAddField env uuid key s) = buffer_inv s"
proof -
  consider "key = ''attachments''" | "key \<noteq> ''attachments''" "key \<in> set form_keys" "key \<notin> set (ef_order s)"
    | "key \<noteq> ''attachments''" "\<not> (key \<in> set form_keys \<and> key \<notin> set (ef_order s))" by blast
  then show ?thesis
  proof cases
    case 1
    then show ?thesis unfolding handleAddField_def 1 by simp
  next
    case 2
    then show ?thesis unfolding handleAddField_def by (simp only: if_False if_True simp_thms buffer_frames)
  next
    case 3
    then show ?thesis unfolding handleAddField_def Let_def by (simp only: if_False buffer_inv_custom)
  qed
qed

lemma buffer_inv_attachments: "buffer_inv s \<Longrightarrow> buffer_inv (remove_attachments s)"
  by (simp add: remove_attachments_def) (simp add: buffer_inv_def zeroed_def)

lemma buffer_inv_remove_staged: "buffer_inv s \<Longrightarrow> buffer_inv (remove_staged i s)"
  by (auto simp: buffer_inv_def remove_staged_def in_store_def zeroed_def dest!: in_set_takeD in_set_dropD)

lemma buffer_inv_escape: "buffer_inv s \<Longrightarrow> buffer_inv (closeOrCollapseGenerator s)"
  by (simp add: closeOrCollapseGenerator_def buffer_inv_close)

lemma buffer_inv_submit: "buffer_inv s \<Longrightarrow> buffer_inv (handleSubmit env now uuid uuid' s)"
  by (auto simp: handleSubmit_def Let_def intro!: buffer_inv_called)

lemma buffer_inv_saved: "buffer_inv s \<Longrightarrow> buffer_inv (save_answered ans s)"
  by (auto simp: save_answered_def Let_def intro!: buffer_inv_close split: sum.split bool.split)

lemma buffer_inv_got: "buffer_inv s \<Longrightarrow> buffer_inv (entry_got cat e s)"
  by (simp add: entry_got_def Let_def buffer_inv_def)

lemma buffer_inv_settle:
  assumes s: "buffer_inv s"
  shows "buffer_inv (settle_form env cat i ans s)"
proof (cases "i < length (ef_waits s)")
  case True
  let ?t = "s\<lparr>ef_waits := take i (ef_waits s) @ drop (Suc i) (ef_waits s)\<rparr>"
  have t: "buffer_inv ?t"
    by (rule buffer_inv_cong [OF _ _ _ _ s]) (auto dest: in_set_takeD in_set_dropD)
  have "in_store (ef_store ?t) (staged_of (ef_waits s ! i))" using s nth_mem [OF True] by (simp add: buffer_inv_def)
  then have "buffer_inv (resume_form env cat (ef_waits s ! i) ans ?t)"
    using t by (cases "ef_waits s ! i")
      (auto simp: resume_form_def buffer_inv_custom intro: buffer_inv_got buffer_inv_file buffer_inv_saved
        split: form_answer.split option.split)
  then show ?thesis using s by (simp add: settle_form_def)
qed (simp add: settle_form_def s)

lemma buffer_inv_step: "buffer_inv s \<Longrightarrow> buffer_inv (form_step env cat e s)"
  by (cases e)
    (auto simp: form_step_def when_form_def buffer_inv_custom buffer_inv_rename buffer_inv_add
      intro!: buffer_inv_read buffer_inv_attachments buffer_inv_remove_staged buffer_inv_submit buffer_inv_close
        buffer_inv_escape buffer_inv_unmount buffer_inv_settle buffer_inv_called)

interpretation form_buffers: invariant_machine "form_step env cat" buffer_inv for env cat
  by unfold_locales (rule buffer_inv_step)

lemma buffer_inv_mount: "buffer_inv (mount_form edit cat tags)"
  by (cases edit) (simp_all add: mount_form_def buffer_inv_def form_called_def Let_def)

text \<open>
  Claim C22. Once the form is gone, however it was left, the bytes of every file that was still staged in it when it
  went are overwritten with zeros, and they stay so whatever is answered later. A file taken away before keeps its
  bytes (\<open>removed_file_not_overwritten\<close>).
\<close>

theorem staged_files_overwritten:
  assumes "s = run (form_step env cat) es (mount_form edit cat tags)" and "\<not> ef_mounted s"
  shows "list_all (\<lambda>f. sf_buffer f < length (ef_store s) \<and> list_all (\<lambda>b. b = 0) (ef_store s ! sf_buffer f)) (ef_staged s)"
  using form_buffers.run_inv [OF buffer_inv_mount, of env cat es edit cat tags] assms
  by (auto simp: buffer_inv_def in_store_def zeroed_def list_all_iff)

definition demo_file :: picked_file where
  "demo_file = \<lparr>fi_name = ''id.png'', fi_type = ''image/png'', fi_size = 3\<rparr>"

lemmas file_eval = form_eval onClose_def request_close_def unmount_form_def zero_buffers_def settle_form_def resume_form_def
  answers_form_def file_answered_def stage_files_def max_file_size_def remove_staged_def

theorem staged_files_overwritten_witness:
  "let s = run (form_step demo_env ''all'') [FilesGiven [demo_file], SettleForm 0 (FileBytes [7, 8, 9]), CloseForm] (mount_form None ''all'' [])
   in length (ef_staged s) = 1 \<and>
      list_all (\<lambda>f. sf_buffer f < length (ef_store s) \<and> list_all (\<lambda>b. b = 0) (ef_store s ! sf_buffer f)) (ef_staged s)"
proof -
  let ?s = "run (form_step demo_env ''all'') [FilesGiven [demo_file], SettleForm 0 (FileBytes [7, 8, 9]), CloseForm] (mount_form None ''all'' [])"
  have gone: "\<not> ef_mounted ?s" by (simp add: demo_file_def file_eval)
  have one: "length (ef_staged ?s) = 1" by (simp add: demo_file_def file_eval)
  show ?thesis unfolding Let_def by (rule conjI [OF one staged_files_overwritten [OF refl gone]])
qed

section \<open>Three behaviours worth knowing\<close>

text \<open>
  A custom field that is given the name of recovery codes is shown and can be filled in, but it is left out of
  what is saved, and its value is not among the recovery codes either (line 472).
\<close>

lemma recovery_named_field_lost:
  "isRecoveryField ''2FA recovery codes''"
  "list_all (\<lambda>c. \<not> isRecoveryField (cf_name c)) (pe_customFields (submitted_entry env now uuid uuid' s))"
  "pe_recoveryCodes (ef_form (rename_custom env i n s)) = pe_recoveryCodes (ef_form s)"
proof -
  show "isRecoveryField ''2FA recovery codes''" by code_simp
  show "list_all (\<lambda>c. \<not> isRecoveryField (cf_name c)) (pe_customFields (submitted_entry env now uuid uuid' s))"
    by (simp add: submitted_frame list_all_iff kept_fields_def layout_not_recovery)
qed (simp add: rename_custom_def Let_def updateCustomField_def set_form_def split: option.split)

text \<open>
  A staged file that is taken away again keeps its bytes: they are only overwritten for the files that are
  still staged when the form goes (lines 225 and 941).
\<close>

lemma removed_file_not_overwritten:
  "let s = run (form_step demo_env ''all'') [FilesGiven [demo_file], SettleForm 0 (FileBytes [7, 8, 9]), RemoveStaged 0, CloseForm]
             (mount_form None ''all'' [])
   in \<not> ef_mounted s \<and> ef_store s = [[7, 8, 9]]"
  by (simp add: demo_file_def file_eval)

text \<open>
  The path of an \<open>otpauth:\<close> address is, by the URL standard, what follows the kind: the pattern that cuts off the
  kind finds none, and the slash stays in the account and the issuer that are filled in (line 150).
\<close>

lemma otp_label_keeps_slash:
  assumes "fe_totpUrl env ''otpauth://totp/GitHub:ann'' = Some \<lparr>tu_secret = Some ''ABC'', tu_issuer = None, tu_pathname = ''/GitHub:ann''\<rparr>"
    and "fe_decodeUri env ''/GitHub:ann'' = Some ''/GitHub:ann''"
  shows "read_totp env ''otpauth://totp/GitHub:ann'' = (''ABC'', ''/GitHub'', ''ann'')"
proof -
  have strings: "trim ''otpauth://totp/GitHub:ann'' = ''otpauth://totp/GitHub:ann''"
    "starts_with (to_lower ''otpauth://totp/GitHub:ann'') ''otpauth://''" "clean_secret ''ABC'' = ''ABC''"
    "strip_otp_kind ''/GitHub:ann'' = ''/GitHub:ann''" "CHR '':'' \<in> set ''/GitHub:ann''"
    "split_on (CHR '':'') ''/GitHub:ann'' = [''/GitHub'', ''ann'']" "trim ''/GitHub'' = ''/GitHub''" "trim ''ann'' = ''ann''"
    by code_simp+
  show ?thesis unfolding read_totp_def Let_def strings(1) using assms strings by (simp add: truthy_str_def)
qed

end
