(* ===== verification/Recovery_Kit.thy ===== *)
theory Recovery_Kit
  imports Text_Utils Entries_State
begin

text \<open>
  Changing the master password: \<open>RecoveryKitCards\<close> of
  \<open>features/auth/components/RecoveryKitWizard.tsx\<close>, the dialog that shows the replacement shares, and
  \<open>features/auth/components/ChangeMasterPasswordModal.tsx\<close>, the form that starts the change and
  shows that dialog. Both are step functions over clicks, timers and answers; a widget that is not
  there, or is disabled, delivers no event. Left out: autofocus, the visibility of the passwords,
  the markup.
\<close>

section \<open>The recovery shares\<close>

record emergency_share =
  sh_share_index :: nat
  sh_label :: string
  sh_share_data :: string

record emergency_kit =
  ek_vault_id :: string
  ek_vault_name :: string
  ek_created_at :: string
  ek_generated_at :: string
  ek_format_version :: nat
  ek_total_entries :: nat
  ek_shares :: "emergency_share list"
  ek_verification_hash :: string
  ek_document_markdown :: string

datatype kit_call =
    SaveShareDialog string
  | ExportRecoveryShare string string
  | WriteClipboard string

text \<open>Where \<open>exportShare\<close> waits, with the share it captured.\<close>

datatype export_stage =
    AwaitExportBackend emergency_share
  | AwaitSharePath emergency_share
  | AwaitExport emergency_share

record kit_state =
  kc_kit :: emergency_kit
  kc_step :: nat
  kc_shareIndex :: nat
  kc_saved :: "nat list"
  kc_visible :: bool
  kc_busy :: bool
  kc_inFlight :: bool
  kc_error :: string
  kc_exported :: "nat list"
  kc_copied :: bool
  kc_copyTimer :: bool
  kc_export :: "export_stage option"
  kc_copies :: nat
  kc_calls :: "kit_call list"

definition init_kit :: "emergency_kit \<Rightarrow> kit_state" where
  "init_kit k = \<lparr>kc_kit = k, kc_step = 0, kc_shareIndex = 0, kc_saved = [], kc_visible = False, kc_busy = False,
     kc_inFlight = False, kc_error = [], kc_exported = [], kc_copied = False, kc_copyTimer = False,
     kc_export = None, kc_copies = 0, kc_calls = []\<rparr>"

definition current_share :: "kit_state \<Rightarrow> emergency_share option" where
  "current_share s =
     (let shares = ek_shares (kc_kit s) in if kc_shareIndex s < length shares then Some (shares ! kc_shareIndex s) else None)"

definition savedCount :: "kit_state \<Rightarrow> nat" where
  "savedCount s = length (uniq (kc_saved s))"

definition kit_called :: "kit_call \<Rightarrow> kit_state \<Rightarrow> kit_state" where
  "kit_called c s = s\<lparr>kc_calls := kc_calls s @ [c]\<rparr>"

definition chooseShare :: "nat \<Rightarrow> kit_state \<Rightarrow> kit_state" where
  "chooseShare i s = s\<lparr>kc_shareIndex := i, kc_visible := False, kc_error := []\<rparr>"

text \<open>\<open>exportShare\<close>, cut at its awaits; \<open>export_done\<close> is its \<open>finally\<close>.\<close>

definition exportShare :: "kit_state \<Rightarrow> kit_state" where
  "exportShare s =
     (case current_share s of
        None \<Rightarrow> s
      | Some share \<Rightarrow>
          if kc_inFlight s then s
          else s\<lparr>kc_inFlight := True, kc_error := [], kc_busy := True, kc_export := Some (AwaitExportBackend share)\<rparr>)"

definition export_done :: "kit_state \<Rightarrow> kit_state" where
  "export_done s = s\<lparr>kc_inFlight := False, kc_busy := False, kc_export := None\<rparr>"

definition share_file :: "kit_state \<Rightarrow> emergency_share \<Rightarrow> string" where
  "share_file s share = ''yntra-recovery-'' @ ek_verification_hash (kc_kit s) @ ''-share-'' @
     show_nat (sh_share_index share) @ ''.txt''"

text \<open>An answer to the export: a rejection, or for the file dialog a path or nothing.\<close>

definition resume_export :: "string + string option \<Rightarrow> kit_state \<Rightarrow> kit_state" where
  "resume_export ans s =
     (case kc_export s of
        None \<Rightarrow> s
      | Some stage \<Rightarrow>
          (case ans of
             Inl e \<Rightarrow> export_done (s\<lparr>kc_error := e\<rparr>)
           | Inr path \<Rightarrow>
               (case stage of
                  AwaitExportBackend share \<Rightarrow>
                    kit_called (SaveShareDialog (share_file s share)) (s\<lparr>kc_export := Some (AwaitSharePath share)\<rparr>)
                | AwaitSharePath share \<Rightarrow>
                    if truthy_str path
                    then kit_called (ExportRecoveryShare (the path) (sh_share_data share))
                           (s\<lparr>kc_export := Some (AwaitExport share)\<rparr>)
                    else export_done s
                | AwaitExport share \<Rightarrow>
                    export_done (s\<lparr>kc_exported := uniq (kc_exported s @ [sh_share_index share])\<rparr>))))"

definition copyShareText :: "kit_state \<Rightarrow> kit_state" where
  "copyShareText s =
     (case current_share s of
        None \<Rightarrow> s
      | Some share \<Rightarrow> kit_called (WriteClipboard (sh_share_data share)) (s\<lparr>kc_copies := Suc (kc_copies s)\<rparr>))"

definition copy_settled :: "bool \<Rightarrow> kit_state \<Rightarrow> kit_state" where
  "copy_settled ok s =
     (if kc_copies s = 0 then s
      else let s = s\<lparr>kc_copies := kc_copies s - 1\<rparr> in if ok then s\<lparr>kc_copied := True, kc_copyTimer := True\<rparr> else s)"

definition toggle_saved :: "bool \<Rightarrow> kit_state \<Rightarrow> kit_state" where
  "toggle_saved checked s =
     (case current_share s of
        None \<Rightarrow> s
      | Some share \<Rightarrow>
          s\<lparr>kc_saved := if checked then uniq (kc_saved s @ [sh_share_index share])
                       else filter (\<lambda>i. i \<noteq> sh_share_index share) (kc_saved s)\<rparr>)"

datatype kit_event =
    StartSaving
  | ContinueKit
  | KitBack
  | PickShare nat
  | NextShare
  | ExportClicked
  | ToggleVisible
  | CopyClicked
  | ToggleSaved bool
  | SettleExport "string + string option"
  | SettleCopy bool
  | CopyTimer

text \<open>The share page shows its widgets for an existing share; most of them are disabled while busy.\<close>

definition share_page :: "kit_state \<Rightarrow> bool" where
  "share_page s \<longleftrightarrow> kc_step s = 1 \<and> current_share s \<noteq> None"

fun kit_step :: "kit_event \<Rightarrow> kit_state \<Rightarrow> kit_state" where
  "kit_step StartSaving s = (if kc_step s = 0 then s\<lparr>kc_step := 1\<rparr> else s)"
| "kit_step ContinueKit s =
     (if kc_step s = 1 \<and> \<not> kc_busy s \<and> 2 \<le> savedCount s then s\<lparr>kc_visible := False, kc_step := 2\<rparr> else s)"
| "kit_step KitBack s =
     (if 0 < kc_step s \<and> \<not> kc_busy s then s\<lparr>kc_visible := False, kc_step := kc_step s - 1\<rparr> else s)"
| "kit_step (PickShare i) s =
     (if share_page s \<and> \<not> kc_busy s \<and> i < length (ek_shares (kc_kit s)) then chooseShare i s else s)"
| "kit_step NextShare s =
     (if share_page s \<and> \<not> kc_busy s \<and> Suc (kc_shareIndex s) < length (ek_shares (kc_kit s))
      then chooseShare (Suc (kc_shareIndex s)) s else s)"
| "kit_step ExportClicked s = (if share_page s \<and> \<not> kc_busy s then exportShare s else s)"
| "kit_step ToggleVisible s = (if share_page s then s\<lparr>kc_visible := \<not> kc_visible s\<rparr> else s)"
| "kit_step CopyClicked s = (if share_page s \<and> kc_visible s then copyShareText s else s)"
| "kit_step (ToggleSaved b) s = (if share_page s \<and> \<not> kc_busy s then toggle_saved b s else s)"
| "kit_step (SettleExport ans) s = resume_export ans s"
| "kit_step (SettleCopy ok) s = copy_settled ok s"
| "kit_step CopyTimer s = (if kc_copyTimer s then s\<lparr>kc_copied := False, kc_copyTimer := False\<rparr> else s)"

text \<open>When the button that calls \<open>onDone\<close> can be pressed.\<close>

definition done_enabled :: "kit_state \<Rightarrow> bool" where
  "done_enabled s \<longleftrightarrow> 2 \<le> kc_step s \<and> 2 \<le> savedCount s \<and> \<not> kc_busy s"

subsection \<open>What a confirmed and an exported share are\<close>

definition share_indices :: "kit_state \<Rightarrow> nat set" where
  "share_indices s = sh_share_index ` set (ek_shares (kc_kit s))"

definition written :: "kit_state \<Rightarrow> nat \<Rightarrow> bool" where
  "written s i \<longleftrightarrow> (\<exists>share \<in> set (ek_shares (kc_kit s)). sh_share_index share = i \<and>
     (\<exists>path. ExportRecoveryShare path (sh_share_data share) \<in> set (kc_calls s)))"

definition stage_ok :: "kit_state \<Rightarrow> export_stage \<Rightarrow> bool" where
  "stage_ok s stage \<longleftrightarrow>
     (case stage of
        AwaitExportBackend share \<Rightarrow> share \<in> set (ek_shares (kc_kit s))
      | AwaitSharePath share \<Rightarrow> share \<in> set (ek_shares (kc_kit s))
      | AwaitExport share \<Rightarrow> share \<in> set (ek_shares (kc_kit s)) \<and>
          (\<exists>path. ExportRecoveryShare path (sh_share_data share) \<in> set (kc_calls s)))"

definition kit_inv :: "kit_state \<Rightarrow> bool" where
  "kit_inv s \<longleftrightarrow> set (kc_saved s) \<subseteq> share_indices s \<and> (kc_step s = 2 \<longrightarrow> 2 \<le> savedCount s) \<and> kc_step s \<le> 2 \<and>
     (\<forall>i \<in> set (kc_exported s). written s i) \<and>
     (case kc_export s of None \<Rightarrow> True | Some stage \<Rightarrow> stage_ok s stage)"

lemma current_share_mem: "current_share s = Some share \<Longrightarrow> share \<in> set (ek_shares (kc_kit s))"
  by (auto simp: current_share_def Let_def split: if_splits)

lemma savedCount_card: "savedCount s = card (set (kc_saved s))"
  using distinct_card [of "uniq (kc_saved s)"] by (simp add: savedCount_def)

lemma kit_inv_called:
  assumes "kit_inv s" and "case st of None \<Rightarrow> True | Some stage \<Rightarrow> stage_ok (kit_called c s) stage"
  shows "kit_inv (kit_called c (s\<lparr>kc_export := st\<rparr>))"
  using assms
  by (fastforce simp: kit_inv_def kit_called_def share_indices_def savedCount_def written_def stage_ok_def
      split: option.splits export_stage.splits)

text \<open>The invariant depends on these parts of the state only.\<close>

lemma kit_inv_cong:
  assumes "kc_kit t = kc_kit s" and "kc_saved t = kc_saved s" and "kc_exported t = kc_exported s"
    and "kc_calls t = kc_calls s" and "kc_export t = None \<or> kc_export t = kc_export s"
    and "kc_step t \<le> 2" and "kc_step t = 2 \<longrightarrow> 2 \<le> savedCount s"
  shows "kit_inv s \<Longrightarrow> kit_inv t"
  using assms
  by (auto simp: kit_inv_def share_indices_def savedCount_def written_def stage_ok_def split: option.splits export_stage.splits)

lemma kit_inv_start: "kit_inv s \<Longrightarrow> kit_inv (exportShare s)"
  by (auto simp: exportShare_def kit_inv_def share_indices_def savedCount_def written_def stage_ok_def current_share_mem
      split: option.splits)

lemma kit_inv_copy: "kit_inv s \<Longrightarrow> kit_inv (copyShareText s)"
  by (fastforce simp: copyShareText_def kit_called_def kit_inv_def share_indices_def savedCount_def written_def stage_ok_def
      split: option.splits export_stage.splits)

lemma kit_inv_toggle: "kit_inv s \<Longrightarrow> kc_step s = 1 \<Longrightarrow> kit_inv (toggle_saved b s)"
  by (auto simp: toggle_saved_def kit_inv_def share_indices_def written_def stage_ok_def dest!: current_share_mem
      split: option.splits export_stage.splits)

lemma kit_inv_resume:
  assumes inv: "kit_inv s"
  shows "kit_inv (resume_export ans s)"
proof (cases "kc_export s")
  case None
  then show ?thesis using inv by (simp add: resume_export_def)
next
  case (Some stage)
  with inv have ok: "stage_ok s stage" by (simp add: kit_inv_def)
  have forgotten: "kit_inv (s\<lparr>kc_error := e, kc_inFlight := a, kc_busy := b, kc_export := None\<rparr>)" for a b e
    by (rule kit_inv_cong [OF _ _ _ _ _ _ _ inv]) (use inv in \<open>simp_all add: kit_inv_def\<close>)
  show ?thesis
  proof (cases ans)
    case (Inl e)
    then show ?thesis using Some forgotten by (simp add: resume_export_def export_done_def)
  next
    case (Inr path)
    show ?thesis
    proof (cases stage)
      case (AwaitExportBackend share)
      then show ?thesis
        using Inr Some ok kit_inv_called [OF inv, where st = "Some (AwaitSharePath share)"]
        by (simp add: resume_export_def share_file_def stage_ok_def kit_called_def)
    next
      case (AwaitSharePath share)
      have "kit_inv (export_done s)"
        unfolding export_done_def by (rule kit_inv_cong [OF _ _ _ _ _ _ _ inv]) (use inv in \<open>simp_all add: kit_inv_def\<close>)
      then show ?thesis
        using AwaitSharePath Inr Some ok
          kit_inv_called [OF inv, where st = "Some (AwaitExport share)"
            and c = "ExportRecoveryShare (the path) (sh_share_data share)"]
        by (auto simp: resume_export_def stage_ok_def kit_called_def)
    next
      case (AwaitExport share)
      then show ?thesis
        using Inr Some ok inv
        by (auto simp: resume_export_def export_done_def stage_ok_def kit_inv_def share_indices_def savedCount_def written_def)
    qed
  qed
qed

interpretation kit: invariant_machine kit_step kit_inv
proof
  fix s e
  assume inv: "kit_inv s"
  then have le: "kc_step s \<le> 2" and two: "kc_step s = 2 \<longrightarrow> 2 \<le> savedCount s" by (simp_all add: kit_inv_def)
  note same = kit_inv_cong [OF _ _ _ _ _ _ _ inv]
  show "kit_inv (kit_step e s)"
  proof (cases e)
    case ExportClicked
    then show ?thesis using kit_inv_start [OF inv] inv by simp
  next
    case CopyClicked
    then show ?thesis using kit_inv_copy [OF inv] inv by simp
  next
    case (ToggleSaved b)
    then show ?thesis using kit_inv_toggle [OF inv] inv by (simp add: share_page_def)
  next
    case (SettleExport ans)
    then show ?thesis using kit_inv_resume [OF inv] by simp
  qed (use inv le two in \<open>auto simp: chooseShare_def copy_settled_def Let_def intro!: same\<close>)
qed

lemma kit_inv_init: "kit_inv (init_kit k)"
  by (simp add: kit_inv_def init_kit_def savedCount_def)

section \<open>The form\<close>

datatype change_page = CurrentPage | NewPage

datatype change_call =
    GenerateKeyFile string
  | ChangeMasterPassword string string "string option" "string option"
  | AnalyzeNewPassword string
  | OpenKeyFileDialog
  | SaveKeyFileDialog

datatype change_stage = AwaitBackend | AwaitKeyFile | AwaitChange

text \<open>A submission under way, with the values it captured.\<close>

record change_job =
  cj_current :: string
  cj_new :: string
  cj_currentKey :: "string option"
  cj_newKey :: "string option"
  cj_generate :: bool
  cj_stage :: change_stage

datatype key_dialog = ForCurrentKey | ForNewKey

record change_state =
  cm_mounted :: bool
  cm_tauri :: bool
  cm_swedish :: bool
  cm_step :: change_page
  cm_current :: string
  cm_new :: string
  cm_confirm :: string
  cm_useCurrentKey :: bool
  cm_currentKey :: string
  cm_useNewKey :: bool
  cm_newKey :: string
  cm_generateKey :: bool
  cm_loading :: bool
  cm_submitting :: bool
  cm_pending :: bool
  cm_kit :: "kit_state option"
  cm_error :: "message option"
  cm_strength :: "(string \<times> strength_score) option"
  cm_timer :: bool
  cm_analyses :: "(string \<times> bool) list"
  cm_dialogs :: "key_dialog list"
  cm_job :: "change_job option"
  cm_calls :: "change_call list"
  cm_toasts :: "(message \<times> toast_type) list"
  cm_closes :: nat

definition init_change :: "bool \<Rightarrow> bool \<Rightarrow> change_state" where
  "init_change tauri swedish = \<lparr>cm_mounted = True, cm_tauri = tauri, cm_swedish = swedish, cm_step = CurrentPage,
     cm_current = [], cm_new = [], cm_confirm = [], cm_useCurrentKey = False, cm_currentKey = [], cm_useNewKey = False,
     cm_newKey = [], cm_generateKey = False, cm_loading = False, cm_submitting = False, cm_pending = False,
     cm_kit = None, cm_error = None, cm_strength = None, cm_timer = False, cm_analyses = [], cm_dialogs = [],
     cm_job = None, cm_calls = [], cm_toasts = [], cm_closes = 0\<rparr>"

definition change_called :: "change_call \<Rightarrow> change_state \<Rightarrow> change_state" where
  "change_called c s = s\<lparr>cm_calls := cm_calls s @ [c]\<rparr>"

definition change_toast :: "message \<Rightarrow> toast_type \<Rightarrow> change_state \<Rightarrow> change_state" where
  "change_toast m ty s = s\<lparr>cm_toasts := cm_toasts s @ [(m, ty)]\<rparr>"

text \<open>\<open>onClose\<close> of the settings panel: the form is rendered closed, and the key remounts it.\<close>

definition close_change :: "change_state \<Rightarrow> change_state" where
  "close_change s = s\<lparr>cm_closes := Suc (cm_closes s), cm_mounted := False\<rparr>"

definition requestClose :: "change_state \<Rightarrow> change_state" where
  "requestClose s = (if cm_submitting s \<or> cm_pending s then s else close_change s)"

definition unsaved_kit_text :: "bool \<Rightarrow> string" where
  "unsaved_kit_text swedish =
     (if swedish
      then ''L'' @ [CHR 0xF6] @ ''senordet '' @ [CHR 0xE4] @ ''ndrades, men de nya '' @ [CHR 0xE5] @
           ''terst'' @ [CHR 0xE4] @ ''llningsnycklarna sparades inte.''
      else ''The password changed, but the new recovery shares were not saved.'')"

definition cancelReplacementKit :: "bool \<Rightarrow> change_state \<Rightarrow> change_state" where
  "cancelReplacementKit confirmed s =
     (if cm_kit s = None \<or> \<not> confirmed then s
      else close_change (change_toast (Plain (unsaved_kit_text (cm_swedish s))) ToastInfo
             (s\<lparr>cm_pending := False, cm_kit := None\<rparr>)))"

definition kit_finished :: "change_state \<Rightarrow> change_state" where
  "kit_finished s =
     close_change (change_toast (Tr ''toast.master_password_changed'' []) ToastSuccess
       (s\<lparr>cm_pending := False, cm_kit := None\<rparr>))"

subsection \<open>The strength of the new password\<close>

text \<open>\<open>setNewPassword\<close> with the effect that depends on it: the cleanup of the old run, the timer of the new.\<close>

definition set_new :: "string \<Rightarrow> change_state \<Rightarrow> change_state" where
  "set_new v s =
     (if v = cm_new s then s
      else s\<lparr>cm_new := v, cm_timer := (v \<noteq> []), cm_analyses := map (\<lambda>(pw, _). (pw, False)) (cm_analyses s)\<rparr>)"

definition strength_timer :: "change_state \<Rightarrow> change_state" where
  "strength_timer s =
     (if \<not> cm_timer s then s
      else change_called (AnalyzeNewPassword (cm_new s))
             (s\<lparr>cm_timer := False, cm_analyses := cm_analyses s @ [(cm_new s, True)]\<rparr>))"

definition strength_answered :: "nat \<Rightarrow> strength_score option \<Rightarrow> change_state \<Rightarrow> change_state" where
  "strength_answered i ans s =
     (if i < length (cm_analyses s)
      then let (pw, live) = cm_analyses s ! i;
               s = s\<lparr>cm_analyses := take i (cm_analyses s) @ drop (Suc i) (cm_analyses s)\<rparr>
           in case ans of Some score \<Rightarrow> if live then s\<lparr>cm_strength := Some (pw, score)\<rparr> else s | None \<Rightarrow> s
      else s)"

definition strengthScore :: "change_state \<Rightarrow> strength_score option" where
  "strengthScore s =
     (case cm_strength s of Some (pw, score) \<Rightarrow> if pw = cm_new s then Some score else None | None \<Rightarrow> None)"

subsection \<open>Checks and submission\<close>

definition complain :: "string \<Rightarrow> change_state \<Rightarrow> change_state" where
  "complain key s = s\<lparr>cm_error := Some (Tr key [])\<rparr>"

definition handleAdvanceToStep1 :: "change_state \<Rightarrow> change_state" where
  "handleAdvanceToStep1 s =
     (if cm_submitting s then s
      else let s = s\<lparr>cm_error := None\<rparr>
           in if cm_current s = [] then complain ''cmp.err_enter_current'' s
              else if cm_useCurrentKey s \<and> trim (cm_currentKey s) = [] then complain ''cmp.err_current_keyfile'' s
              else s\<lparr>cm_step := NewPage\<rparr>)"

definition change_finished :: "change_state \<Rightarrow> change_state" where
  "change_finished s =
     set_new [] (s\<lparr>cm_current := [], cm_confirm := [], cm_submitting := False, cm_loading := False, cm_job := None\<rparr>)"

definition change_succeeded :: "change_state \<Rightarrow> change_state" where
  "change_succeeded s =
     change_finished (close_change (change_toast (Tr ''toast.master_password_changed'' []) ToastSuccess s))"

definition wrong_secret :: "string \<Rightarrow> bool" where
  "wrong_secret e \<longleftrightarrow> (let e = to_lower e in has_sub e ''password'' \<or> has_sub e ''key'' \<or> has_sub e ''invalid'')"

definition change_failed :: "string \<Rightarrow> change_state \<Rightarrow> change_state" where
  "change_failed e s =
     (let e = (if e = [] then ''Failed to change password'' else e);
          s = s\<lparr>cm_error := Some (Plain e)\<rparr>
      in change_finished (if wrong_secret e then s\<lparr>cm_step := CurrentPage\<rparr> else s))"

definition given_key :: "bool \<Rightarrow> string \<Rightarrow> string option" where
  "given_key use key = (if use \<and> trim key \<noteq> [] then Some (trim key) else None)"

definition handleSubmit :: "change_state \<Rightarrow> change_state" where
  "handleSubmit s =
     (if cm_submitting s then s
      else let s = s\<lparr>cm_error := None\<rparr>
           in if cm_current s = [] then complain ''cmp.err_enter_current'' (s\<lparr>cm_step := CurrentPage\<rparr>)
              else if cm_useCurrentKey s \<and> trim (cm_currentKey s) = []
                   then complain ''cmp.err_current_keyfile'' (s\<lparr>cm_step := CurrentPage\<rparr>)
              else if \<not> isValidNewMasterPassword (cm_new s) then complain ''cmp.err_min_chars'' s
              else if cm_confirm s = [] then complain ''cmp.err_confirm_pass'' s
              else if cm_new s \<noteq> cm_confirm s then complain ''create_vault.err_pass_mismatch'' s
              else if cm_useNewKey s \<and> trim (cm_newKey s) = [] then complain ''cmp.err_new_keyfile'' s
              else let s = s\<lparr>cm_submitting := True, cm_loading := True\<rparr>
                   in if \<not> cm_tauri s then change_succeeded s
                      else s\<lparr>cm_job := Some \<lparr>cj_current = cm_current s, cj_new = cm_new s,
                               cj_currentKey = given_key (cm_useCurrentKey s) (cm_currentKey s),
                               cj_newKey = given_key (cm_useNewKey s) (cm_newKey s),
                               cj_generate = (cm_useNewKey s \<and> cm_generateKey s), cj_stage = AwaitBackend\<rparr>\<rparr>)"

definition call_change :: "change_job \<Rightarrow> change_state \<Rightarrow> change_state" where
  "call_change j s =
     change_called (ChangeMasterPassword (cj_current j) (cj_new j) (cj_currentKey j) (cj_newKey j))
       (s\<lparr>cm_job := Some (j\<lparr>cj_stage := AwaitChange\<rparr>)\<rparr>)"

text \<open>The answer to the submission: a rejection, or for the change itself the replacement kit if there is one.\<close>

definition change_answered :: "string + emergency_kit option \<Rightarrow> change_state \<Rightarrow> change_state" where
  "change_answered ans s =
     (case cm_job s of
        None \<Rightarrow> s
      | Some j \<Rightarrow>
          (case ans of
             Inl e \<Rightarrow> change_failed e s
           | Inr kit \<Rightarrow>
               (case cj_stage j of
                  AwaitBackend \<Rightarrow>
                    (case (cj_generate j, cj_newKey j) of
                       (True, Some path) \<Rightarrow>
                         change_called (GenerateKeyFile path) (s\<lparr>cm_job := Some (j\<lparr>cj_stage := AwaitKeyFile\<rparr>)\<rparr>)
                     | _ \<Rightarrow> call_change j s)
                | AwaitKeyFile \<Rightarrow> call_change j s
                | AwaitChange \<Rightarrow>
                    (case kit of
                       Some k \<Rightarrow> change_finished (s\<lparr>cm_pending := True, cm_kit := Some (init_kit k)\<rparr>)
                     | None \<Rightarrow> change_succeeded s))))"

definition browse_key :: "key_dialog \<Rightarrow> change_state \<Rightarrow> change_state" where
  "browse_key d s =
     (if \<not> cm_tauri s then s
      else change_called (if d = ForNewKey \<and> cm_generateKey s then SaveKeyFileDialog else OpenKeyFileDialog)
             (s\<lparr>cm_dialogs := cm_dialogs s @ [d]\<rparr>))"

definition key_chosen :: "nat \<Rightarrow> string option \<Rightarrow> change_state \<Rightarrow> change_state" where
  "key_chosen i path s =
     (if i < length (cm_dialogs s)
      then let d = cm_dialogs s ! i; s = s\<lparr>cm_dialogs := take i (cm_dialogs s) @ drop (Suc i) (cm_dialogs s)\<rparr>
           in if truthy_str path
              then (case d of ForCurrentKey \<Rightarrow> s\<lparr>cm_currentKey := the path\<rparr> | ForNewKey \<Rightarrow> s\<lparr>cm_newKey := the path\<rparr>)
              else s
      else s)"

subsection \<open>Events\<close>

text \<open>
  Typing clears the error. The Escape key is a window listener; while the shares are shown their dialog
  takes it first (\<open>KitCancelled\<close>, with the answer to the question whether to close anyway).
  \<open>Unmounted\<close> is the settings panel taking the form away: a lock, or the back gesture of a phone.
\<close>

datatype change_event =
    TypeCurrent string
  | TypeNew string
  | TypeConfirm string
  | UseCurrentKey bool
  | TypeCurrentKey string
  | UseNewKey bool
  | TypeNewKey string
  | GenerateKey bool
  | BrowseKey key_dialog
  | KeyChosen nat "string option"
  | AdvancePressed
  | BackPressed
  | SubmitPressed
  | ClosePressed
  | StrengthTimer
  | StrengthAnswered nat "strength_score option"
  | ChangeAnswered "string + emergency_kit option"
  | KitEvent kit_event
  | KitDone
  | KitCancelled bool
  | Unmounted

definition form_shown :: "change_page \<Rightarrow> change_state \<Rightarrow> bool" where
  "form_shown p s \<longleftrightarrow> cm_mounted s \<and> cm_kit s = None \<and> cm_step s = p"

definition typed :: "change_state \<Rightarrow> change_state" where
  "typed s = s\<lparr>cm_error := None\<rparr>"

definition on_page :: "change_page \<Rightarrow> (change_state \<Rightarrow> change_state) \<Rightarrow> change_state \<Rightarrow> change_state" where
  "on_page p f s = (if form_shown p s then f s else s)"

definition on_kit :: "(kit_state \<Rightarrow> change_state) \<Rightarrow> change_state \<Rightarrow> change_state" where
  "on_kit f s = (if cm_mounted s then (case cm_kit s of Some k \<Rightarrow> f k | None \<Rightarrow> s) else s)"

fun change_step :: "change_event \<Rightarrow> change_state \<Rightarrow> change_state" where
  "change_step (TypeCurrent v) s = on_page CurrentPage (\<lambda>s. typed (s\<lparr>cm_current := v\<rparr>)) s"
| "change_step (UseCurrentKey b) s = on_page CurrentPage (\<lambda>s. typed (s\<lparr>cm_useCurrentKey := b\<rparr>)) s"
| "change_step (TypeCurrentKey v) s =
     on_page CurrentPage (\<lambda>s. if cm_useCurrentKey s then typed (s\<lparr>cm_currentKey := v\<rparr>) else s) s"
| "change_step (TypeNew v) s = on_page NewPage (\<lambda>s. typed (set_new v s)) s"
| "change_step (TypeConfirm v) s = on_page NewPage (\<lambda>s. typed (s\<lparr>cm_confirm := v\<rparr>)) s"
| "change_step (UseNewKey b) s = on_page NewPage (\<lambda>s. typed (s\<lparr>cm_useNewKey := b\<rparr>)) s"
| "change_step (TypeNewKey v) s = on_page NewPage (\<lambda>s. if cm_useNewKey s then typed (s\<lparr>cm_newKey := v\<rparr>) else s) s"
| "change_step (GenerateKey b) s = on_page NewPage (\<lambda>s. if cm_useNewKey s then s\<lparr>cm_generateKey := b\<rparr> else s) s"
| "change_step (BrowseKey d) s =
     (case d of ForCurrentKey \<Rightarrow> on_page CurrentPage (\<lambda>s. if cm_useCurrentKey s then browse_key d s else s) s
              | ForNewKey \<Rightarrow> on_page NewPage (\<lambda>s. if cm_useNewKey s then browse_key d s else s) s)"
| "change_step (KeyChosen i path) s = key_chosen i path s"
| "change_step AdvancePressed s = on_page CurrentPage handleAdvanceToStep1 s"
| "change_step BackPressed s = on_page NewPage (\<lambda>s. s\<lparr>cm_error := None, cm_step := CurrentPage\<rparr>) s"
| "change_step SubmitPressed s = on_page NewPage handleSubmit s"
| "change_step ClosePressed s = (if cm_mounted s \<and> cm_kit s = None then requestClose s else s)"
| "change_step StrengthTimer s = (if cm_mounted s then strength_timer s else s)"
| "change_step (StrengthAnswered i ans) s = strength_answered i ans s"
| "change_step (ChangeAnswered ans) s = change_answered ans s"
| "change_step (KitEvent e) s = on_kit (\<lambda>k. s\<lparr>cm_kit := Some (kit_step e k)\<rparr>) s"
| "change_step KitDone s = on_kit (\<lambda>k. if done_enabled k then kit_finished s else s) s"
| "change_step (KitCancelled ok) s = on_kit (\<lambda>_. cancelReplacementKit ok s) s"
| "change_step Unmounted s = s\<lparr>cm_mounted := False, cm_timer := False,
      cm_analyses := map (\<lambda>(pw, _). (pw, False)) (cm_analyses s)\<rparr>"

section \<open>What holds in every run\<close>

text \<open>
  While a replacement kit is to be confirmed nothing is submitted; what is submitted was checked; the kit
  satisfies its own invariant; every call was made with checked values.
\<close>

definition job_checked :: "change_job \<Rightarrow> bool" where
  "job_checked j \<longleftrightarrow> cj_current j \<noteq> [] \<and> isValidNewMasterPassword (cj_new j) \<and>
     cj_currentKey j \<noteq> Some [] \<and> cj_newKey j \<noteq> Some []"

fun call_checked :: "change_call \<Rightarrow> bool" where
  "call_checked (ChangeMasterPassword cur new ck nk) \<longleftrightarrow>
     cur \<noteq> [] \<and> isValidNewMasterPassword new \<and> ck \<noteq> Some [] \<and> nk \<noteq> Some []"
| "call_checked (GenerateKeyFile path) \<longleftrightarrow> path \<noteq> []"
| "call_checked (AnalyzeNewPassword pw) \<longleftrightarrow> pw \<noteq> []"
| "call_checked _ \<longleftrightarrow> True"

definition change_inv :: "change_state \<Rightarrow> bool" where
  "change_inv s \<longleftrightarrow>
     (cm_pending s \<longleftrightarrow> cm_kit s \<noteq> None) \<and> (cm_pending s \<longrightarrow> \<not> cm_submitting s) \<and>
     (cm_job s \<noteq> None \<longleftrightarrow> cm_submitting s) \<and> (\<forall>k. cm_kit s = Some k \<longrightarrow> kit_inv k) \<and>
     (\<forall>j. cm_job s = Some j \<longrightarrow> job_checked j) \<and> (cm_timer s \<longrightarrow> cm_new s \<noteq> []) \<and>
     list_all call_checked (cm_calls s)"

lemma given_key_ok: "given_key use key \<noteq> Some []"
  by (simp add: given_key_def)

lemma change_inv_set_new: "change_inv s \<Longrightarrow> change_inv (set_new v s)"
  by (simp add: change_inv_def set_new_def)

lemma change_inv_finished:
  assumes "change_inv (s\<lparr>cm_submitting := False, cm_job := None\<rparr>)"
  shows "change_inv (change_finished s)"
  using assms unfolding change_finished_def by (intro change_inv_set_new) (simp add: change_inv_def)

lemma change_inv_succeeded: "change_inv s \<Longrightarrow> change_inv (change_succeeded s)"
  unfolding change_succeeded_def
  by (rule change_inv_finished) (auto simp: change_inv_def close_change_def change_toast_def)

lemma change_inv_failed: "change_inv s \<Longrightarrow> change_inv (change_failed e s)"
  unfolding change_failed_def Let_def
  by (rule change_inv_finished) (auto simp: change_inv_def)

lemma change_inv_complain: "change_inv s \<Longrightarrow> change_inv (complain key (s\<lparr>cm_error := e\<rparr>))"
  "change_inv s \<Longrightarrow> change_inv (complain key (s\<lparr>cm_error := e, cm_step := p\<rparr>))"
  by (simp_all add: change_inv_def complain_def)

lemma change_inv_begin:
  "change_inv s \<Longrightarrow> cm_kit s = None \<Longrightarrow> job_checked j \<Longrightarrow>
   change_inv (s\<lparr>cm_error := e, cm_submitting := True, cm_loading := b, cm_job := Some j\<rparr>)"
  by (simp add: change_inv_def)

lemma change_inv_submit: "change_inv s \<Longrightarrow> cm_kit s = None \<Longrightarrow> change_inv (handleSubmit s)"
proof -
  assume inv: "change_inv s" and none: "cm_kit s = None"
  have go: "change_succeeded (s\<lparr>cm_error := None, cm_submitting := True, cm_loading := True\<rparr>) =
            change_succeeded (s\<lparr>cm_error := None\<rparr>)"
    by (simp add: change_succeeded_def change_finished_def close_change_def change_toast_def set_new_def)
  have "change_inv (s\<lparr>cm_error := None\<rparr>)" using inv by (simp add: change_inv_def)
  note fin = change_inv_succeeded [OF this]
  show ?thesis
    unfolding handleSubmit_def Let_def go
    using inv none fin
    by (auto simp: change_inv_complain go job_checked_def given_key_ok intro!: change_inv_begin)
qed

lemma change_inv_call: "change_inv s \<Longrightarrow> cm_job s = Some j \<Longrightarrow> change_inv (call_change j s)"
  by (auto simp: change_inv_def call_change_def change_called_def job_checked_def)

lemma change_inv_answered: "change_inv s \<Longrightarrow> change_inv (change_answered ans s)"
proof (cases "cm_job s")
  case (Some j)
  assume inv: "change_inv s"
  show ?thesis
  proof (cases ans)
    case (Inl e)
    then show ?thesis using Some change_inv_failed [OF inv] by (simp add: change_answered_def)
  next
    case (Inr kit)
    show ?thesis
    proof (cases "cj_stage j")
      case AwaitBackend
      have "change_inv (change_called (GenerateKeyFile path) (s\<lparr>cm_job := Some (j\<lparr>cj_stage := AwaitKeyFile\<rparr>)\<rparr>))"
        if "cj_newKey j = Some path" for path
        using inv Some that by (auto simp: change_inv_def change_called_def job_checked_def)
      then show ?thesis
        using Some Inr AwaitBackend change_inv_call [OF inv Some]
        by (auto simp: change_answered_def split: option.split bool.split)
    next
      case AwaitKeyFile
      then show ?thesis using Some Inr change_inv_call [OF inv Some] by (simp add: change_answered_def)
    next
      case AwaitChange
      have "change_inv (change_finished (s\<lparr>cm_pending := True, cm_kit := Some (init_kit k)\<rparr>))" for k
        by (rule change_inv_finished) (use inv in \<open>simp add: change_inv_def kit_inv_init\<close>)
      then show ?thesis
        using Some Inr AwaitChange change_inv_succeeded [OF inv]
        by (auto simp: change_answered_def split: option.split)
    qed
  qed
qed (simp add: change_answered_def)

lemma change_inv_kit_event: "change_inv s \<Longrightarrow> change_inv (change_step (KitEvent e) s)"
  by (auto simp: on_kit_def change_inv_def intro: kit.step_inv split: option.split)

lemma change_inv_page: "change_inv s \<Longrightarrow> (\<And>s. change_inv s \<Longrightarrow> cm_kit s = None \<Longrightarrow> change_inv (f s)) \<Longrightarrow> change_inv (on_page p f s)"
  by (simp add: on_page_def form_shown_def)

lemma change_inv_typed: "change_inv (typed s) = change_inv s"
  by (simp add: typed_def change_inv_def)

lemma change_inv_browse: "change_inv s \<Longrightarrow> change_inv (browse_key d s)"
  by (simp add: browse_key_def change_inv_def change_called_def)

lemma change_inv_timer: "change_inv s \<Longrightarrow> change_inv (strength_timer s)"
  by (simp add: strength_timer_def change_inv_def change_called_def)

lemma change_inv_advance: "change_inv s \<Longrightarrow> change_inv (handleAdvanceToStep1 s)"
  by (auto simp: handleAdvanceToStep1_def complain_def change_inv_def Let_def)

lemma change_inv_key: "change_inv s \<Longrightarrow> change_inv (key_chosen i path s)"
  by (simp add: key_chosen_def change_inv_def Let_def split: key_dialog.split)

lemma change_inv_strength: "change_inv s \<Longrightarrow> change_inv (strength_answered i ans s)"
  by (simp add: strength_answered_def change_inv_def Let_def split: option.split prod.split)

lemma change_inv_close: "change_inv s \<Longrightarrow> change_inv (requestClose s)" "change_inv s \<Longrightarrow> change_inv (kit_finished s)"
  "change_inv s \<Longrightarrow> change_inv (cancelReplacementKit ok s)"
  by (auto simp: requestClose_def kit_finished_def cancelReplacementKit_def close_change_def change_toast_def change_inv_def)

lemma change_inv_set: "change_inv s \<Longrightarrow> change_inv (s\<lparr>cm_current := v\<rparr>)" "change_inv s \<Longrightarrow> change_inv (s\<lparr>cm_confirm := v\<rparr>)"
  "change_inv s \<Longrightarrow> change_inv (s\<lparr>cm_useCurrentKey := b\<rparr>)" "change_inv s \<Longrightarrow> change_inv (s\<lparr>cm_useNewKey := b\<rparr>)"
  "change_inv s \<Longrightarrow> change_inv (s\<lparr>cm_currentKey := v\<rparr>)" "change_inv s \<Longrightarrow> change_inv (s\<lparr>cm_newKey := v\<rparr>)"
  "change_inv s \<Longrightarrow> change_inv (s\<lparr>cm_generateKey := b\<rparr>)" "change_inv s \<Longrightarrow> change_inv (s\<lparr>cm_error := er, cm_step := p\<rparr>)"
  "change_inv s \<Longrightarrow> change_inv (s\<lparr>cm_mounted := b, cm_timer := False, cm_analyses := xs\<rparr>)"
  by (simp_all add: change_inv_def)

lemmas change_inv_rules = change_inv_page change_inv_set change_inv_typed [THEN iffD2] change_inv_set_new
  change_inv_browse change_inv_timer change_inv_advance change_inv_submit change_inv_key change_inv_strength
  change_inv_close change_inv_answered

lemma change_inv_on_kit: "change_inv s \<Longrightarrow> (\<And>k. change_inv (f k)) \<Longrightarrow> change_inv (on_kit f s)"
  by (simp add: on_kit_def split: option.split)

interpretation change: invariant_machine change_step change_inv
proof
  fix s e
  assume inv: "change_inv s"
  show "change_inv (change_step e s)"
  proof (cases e)
    case (KitEvent x)
    then show ?thesis using change_inv_kit_event [OF inv] by simp
  next
    case KitDone
    then show ?thesis using inv by (auto intro!: change_inv_on_kit change_inv_close)
  next
    case (KitCancelled ok)
    then show ?thesis using inv by (auto intro!: change_inv_on_kit change_inv_close)
  next
    case (BrowseKey d)
    then show ?thesis using inv by (cases d) (auto intro!: change_inv_rules)
  qed (use inv in \<open>auto intro!: change_inv_rules\<close>)
qed

lemma change_inv_init: "change_inv (init_change tauri swedish)"
  by (simp add: change_inv_def init_change_def)

section \<open>Properties\<close>

text \<open>Two of the three shares are needed to restore access.\<close>

definition two_confirmed :: "kit_state \<Rightarrow> bool" where
  "two_confirmed k \<longleftrightarrow> set (kc_saved k) \<subseteq> share_indices k \<and> 2 \<le> card (set (kc_saved k))"

lemma closes_frame [simp]:
  "cm_closes (set_new v s) = cm_closes s" "cm_closes (typed s) = cm_closes s" "cm_closes (browse_key d s) = cm_closes s"
  "cm_closes (key_chosen i p s) = cm_closes s" "cm_closes (strength_timer s) = cm_closes s"
  "cm_closes (strength_answered i a s) = cm_closes s" "cm_closes (handleAdvanceToStep1 s) = cm_closes s"
  by (auto simp: set_new_def typed_def browse_key_def key_chosen_def strength_timer_def strength_answered_def complain_def
      handleAdvanceToStep1_def change_called_def Let_def split: option.split key_dialog.split prod.split)

lemma on_page_kit: "cm_kit s \<noteq> None \<Longrightarrow> on_page p f s = s"
  by (auto simp: on_page_def form_shown_def)

text \<open>
  Claim C21. When the change of the master password has issued replacement shares, the form asks to be closed in one
  of two ways only: at least two different shares of that kit have been confirmed as stored, or the user
  has answered that it may close without.
\<close>

theorem replacement_shares_confirmed:
  assumes "s = run change_step es (init_change tauri swedish)" and "cm_kit s = Some k"
    and "cm_closes (change_step e s) \<noteq> cm_closes s"
  shows "e = KitCancelled True \<or> e = KitDone \<and> two_confirmed k"
proof -
  have inv: "change_inv s" using assms(1) change.run_inv [OF change_inv_init] by simp
  then have k: "kit_inv k" and idle: "cm_job s = None" using assms(2) by (auto simp: change_inv_def)
  have some: "cm_kit s \<noteq> None" using assms(2) by simp
  show ?thesis
  proof (cases e)
    case KitDone
    then have "done_enabled k" using assms(2,3) by (auto simp: on_kit_def split: if_splits)
    then show ?thesis using KitDone k by (simp add: two_confirmed_def done_enabled_def kit_inv_def savedCount_card)
  next
    case (KitCancelled ok)
    then show ?thesis using assms(2,3) by (auto simp: on_kit_def cancelReplacementKit_def split: if_splits)
  next
    case (BrowseKey d)
    then show ?thesis using assms(3) some by (cases d) (simp_all add: on_page_kit)
  qed (use assms(2,3) some idle in \<open>auto simp: on_page_kit on_kit_def change_answered_def split: if_splits\<close>)
qed

definition demo_kit :: emergency_kit where
  "demo_kit = \<lparr>ek_vault_id = ''v'', ek_vault_name = ''Vault'', ek_created_at = [], ek_generated_at = [],
     ek_format_version = 1, ek_total_entries = 3,
     ek_shares = [\<lparr>sh_share_index = 1, sh_label = [], sh_share_data = ''one''\<rparr>,
                  \<lparr>sh_share_index = 2, sh_label = [], sh_share_data = ''two''\<rparr>,
                  \<lparr>sh_share_index = 3, sh_label = [], sh_share_data = ''three''\<rparr>],
     ek_verification_hash = ''h'', ek_document_markdown = []\<rparr>"

definition demo_change :: "change_event list" where
  "demo_change = [TypeCurrent ''old secret'', AdvancePressed, TypeNew ''a new long secret'', TypeConfirm ''a new long secret'',
     SubmitPressed, ChangeAnswered (Inr None), ChangeAnswered (Inr (Some demo_kit))]"

definition demo_confirm :: "change_event list" where
  "demo_confirm = map KitEvent [StartSaving, ToggleSaved True, NextShare, ToggleSaved True, ContinueKit]"

lemmas change_eval = demo_change_def demo_confirm_def init_change_def on_page_def form_shown_def typed_def set_new_def
  handleAdvanceToStep1_def handleSubmit_def isValidNewMasterPassword_def given_key_def change_answered_def call_change_def
  change_called_def change_finished_def on_kit_def init_kit_def demo_kit_def share_page_def current_share_def
  toggle_saved_def chooseShare_def savedCount_def uniq_def done_enabled_def Let_def

theorem replacement_shares_confirmed_witness:
  "let s = run change_step (demo_change @ demo_confirm) (init_change True False) in
   cm_closes (change_step KitDone s) = 1 \<and> (\<exists>k. cm_kit s = Some k \<and> two_confirmed k)"
proof -
  let ?s = "run change_step (demo_change @ demo_confirm) (init_change True False)"
  have s: "cm_kit ?s \<noteq> None" "cm_closes ?s = 0" "cm_closes (change_step KitDone ?s) = 1"
    by (simp_all add: change_eval trim_def trim_start_def trim_end_def is_ws_def
        kit_finished_def close_change_def change_toast_def)
  then obtain k where k: "cm_kit ?s = Some k" by blast
  have "two_confirmed k"
    using replacement_shares_confirmed [OF refl k, of KitDone] s by simp
  then show ?thesis using s k by auto
qed

text \<open>
  Whatever is typed and answered, the native side is only asked to change the password with a current
  password, a new one that satisfies the rule of \<open>isValidNewMasterPassword\<close>, and key files that have a name.
\<close>

theorem change_calls_checked: "list_all call_checked (cm_calls (run change_step es (init_change tauri swedish)))"
  using change.run_inv [OF change_inv_init] by (simp add: change_inv_def)

text \<open>
  Whichever way a submission ends, in the step in which it ends the three passwords of the form are
  cleared, and the form can be used again.
\<close>

theorem submitted_passwords_forgotten:
  assumes "cm_job s \<noteq> None" and "t = change_step (ChangeAnswered ans) s" and "cm_job t = None"
  shows "cm_current t = [] \<and> cm_new t = [] \<and> cm_confirm t = [] \<and> \<not> cm_submitting t \<and> \<not> cm_loading t"
  using assms
  by (auto simp: change_answered_def change_succeeded_def change_failed_def change_finished_def set_new_def call_change_def
      change_called_def Let_def split: sum.splits option.splits change_stage.splits bool.splits)

theorem submitted_passwords_forgotten_witness:
  "let s = run change_step (take 6 demo_change) (init_change True False);
       t = change_step (ChangeAnswered (Inl ''InvalidPassword'')) s
   in cm_job s \<noteq> None \<and> cm_current s = ''old secret'' \<and> cm_job t = None \<and> cm_current t = [] \<and> cm_new t = []"
proof -
  let ?s = "run change_step (take 6 demo_change) (init_change True False)"
  let ?t = "change_step (ChangeAnswered (Inl ''InvalidPassword'')) ?s"
  have "cm_job ?s \<noteq> None" "cm_current ?s = ''old secret''" "cm_job ?t = None"
    by (simp_all add: change_eval trim_def trim_start_def trim_end_def is_ws_def change_failed_def)
  with submitted_passwords_forgotten [OF this(1) refl this(3)] show ?thesis by simp
qed

text \<open>
  A share carries the mark of a saved file only after the native side has been asked to write that share's own
  data, whichever share has been chosen since.
\<close>

theorem exported_shares_written:
  assumes "i \<in> set (kc_exported (run kit_step es (init_kit k)))"
  shows "written (run kit_step es (init_kit k)) i"
  using assms kit.run_inv [OF kit_inv_init, of es k] by (simp add: kit_inv_def)

section \<open>Three behaviours worth knowing\<close>

text \<open>
  If the form is taken away while the change is under way, the replacement shares arrive for nobody: there
  is no dialog, no question and no message (lines 205 to 222; the settings panel closes on the back
  gesture, \<open>AppLayout.tsx\<close> 107).
\<close>

lemma replacement_shares_lost:
  "let s = run change_step (take 6 demo_change @ [Unmounted, ChangeAnswered (Inr (Some demo_kit))]) (init_change True False)
   in \<not> cm_mounted s \<and> cm_toasts s = [] \<and> (\<forall>e. change_step (KitEvent e) s = s)"
  by (simp add: change_eval trim_def trim_start_def trim_end_def is_ws_def)

text \<open>
  The rating keeps the text it belongs to: the new master password is still in memory after the form
  has cleared its three fields (lines 83 and 119).
\<close>

lemma rating_keeps_password:
  "let s = run change_step (take 3 demo_change @ [StrengthTimer, StrengthAnswered 0 (Some sc)] @ drop 3 demo_change) (init_change True False)
   in cm_new s = [] \<and> cm_strength s = Some (''a new long secret'', sc)"
  by (simp add: change_eval strength_timer_def strength_answered_def trim_def trim_start_def trim_end_def is_ws_def)

text \<open>Choosing another share leaves the label \<open>Copied\<close> in place: it then stands beside a share that was not copied.\<close>

lemma copied_label_moves:
  "let s = run kit_step [StartSaving, ToggleVisible, CopyClicked, SettleCopy True, NextShare, ToggleVisible] (init_kit demo_kit)
   in kc_copied s \<and> kc_visible s \<and> kc_shareIndex s = 1 \<and> kc_calls s = [WriteClipboard ''one'']"
  by (simp add: change_eval copyShareText_def copy_settled_def kit_called_def)

end
