(* ===== verification/Import_Dialog.thy ===== *)
theory Import_Dialog
  imports Entries_State
begin

text \<open>
  Importing from another password manager: \<open>features/sync/components/ImportModal.tsx\<close> and its table
  of sources, \<open>features/sync/brands.model.ts\<close>. The dialog is a step function over clicks, drops, answers
  of the file dialog, of the file reader and of the back end. It stays mounted while it is closed.
  The rows of the preview are found by object identity; an element of a parsed list is identical to
  itself only, so a row is the index of its entry.
\<close>

section \<open>Sources\<close>

datatype competitor_brand =
    AutoDetect | Bitwarden | OnePassword | Keepass | Chrome | Lastpass | Dashlane | Protonpass | GenericCsv

record brand_info =
  bi_id :: competitor_brand
  bi_name :: string
  bi_badge :: string
  bi_description :: string
  bi_instructions :: "string list"
  bi_supportedFormatKey :: string

definition brand :: "competitor_brand \<Rightarrow> string \<Rightarrow> string \<Rightarrow> string \<Rightarrow> string list \<Rightarrow> string \<Rightarrow> brand_info" where
  "brand i name badge description instructions key = \<lparr>bi_id = i, bi_name = name, bi_badge = badge,
     bi_description = description, bi_instructions = instructions, bi_supportedFormatKey = key\<rparr>"

text \<open>The arrow in the instructions lies outside Latin-1; it is a private code unit.\<close>

definition arrow :: char where
  "arrow = CHR 0x1A"

definition BRANDS :: "brand_info list" where
  "BRANDS = [
      brand AutoDetect ''Smart Auto-Detect'' ''Recommended''
        ''Select or drop any export file (JSON, CSV, XML). Format is automatically recognized.''
        [''Export your vault from your existing password manager'',
         ''Drop the file directly into the dropzone or select it from disk'',
         ''Yntra Vault will automatically identify the format and structure'']
        ''auto'',
      brand Bitwarden ''Bitwarden'' ''JSON / CSV''
        ''Export your vault as encrypted or unencrypted JSON or CSV from Bitwarden.''
        [''Open Bitwarden Web Vault or Desktop app'',
         ''Go to Settings '' @ [arrow] @ '' Export Vault'',
         ''Select JSON or CSV format and enter your master password'',
         ''Save the file to your computer and select it below'']
        ''bitwarden_json'',
      brand OnePassword ''1Password'' ''1PUX / CSV''
        ''Export logins and items from 1Password 7 or 8 as CSV format.''
        [''Open 1Password on your desktop'',
         ''Click File '' @ [arrow] @ '' Export '' @ [arrow] @ '' All Items'',
         ''Choose CSV format and save the exported file'',
         ''Select the generated CSV file below'']
        ''onepassword_csv'',
      brand Keepass ''KeePass / XC'' ''XML / CSV''
        ''Import database entries exported from KeePass 2.x or KeePassXC.''
        [''Open KeePassXC or KeePass 2.x'',
         ''Go to Database '' @ [arrow] @ '' Export '' @ [arrow] @ '' XML or CSV File'',
         ''Confirm export and save to disk'',
         ''Select the XML or CSV file below'']
        ''keepass_csv'',
      brand Chrome ''Google Chrome / Edge'' ''Browser CSV''
        ''Import passwords saved in Chrome, Edge, Brave, or Firefox browsers.''
        [''Open Chrome/Edge Settings '' @ [arrow] @ '' Passwords'',
         ''Click the three dots next to Saved Passwords '' @ [arrow] @ '' Export passwords'',
         ''Confirm with your OS password and save CSV'',
         ''Select the browser CSV file below'']
        ''chrome_csv'',
      brand Lastpass ''LastPass'' ''CSV Export''
        ''Import items exported from your LastPass vault.''
        [''Log into LastPass browser extension or website'',
         ''Go to Advanced Options '' @ [arrow] @ '' Export'',
         ''Enter Master Password and download CSV'',
         ''Select the LastPass CSV file below'']
        ''lastpass_csv'',
      brand Dashlane ''Dashlane'' ''CSV Export''
        ''Import credentials exported from Dashlane web application.''
        [''Open Dashlane Web App '' @ [arrow] @ '' Settings '' @ [arrow] @ '' Export Data'',
         ''Choose CSV format and export'',
         ''Select the exported CSV file below'']
        ''dashlane_csv'',
      brand Protonpass ''Proton Pass'' ''JSON / CSV''
        ''Import logins and notes exported from Proton Pass.''
        [''Open Proton Pass web or desktop application'',
         ''Go to Settings '' @ [arrow] @ '' Export Vault '' @ [arrow] @ '' JSON or CSV'',
         ''Select the exported file below'']
        ''protonpass_json'',
      brand GenericCsv ''Generic CSV'' ''Any CSV''
        ''Import from any password manager CSV with automatic column header detection.''
        [''Ensure CSV has column headers like Title, Username, Password, URL, Notes'',
         ''Save as .csv file'',
         ''Select the file below for auto-detection'']
        ''generic_csv'']"

section \<open>Data\<close>

record parsed_entry =
  ie_title :: string
  ie_username :: string
  ie_password :: string
  ie_url :: string
  ie_email :: string
  ie_notes :: string
  ie_totp_secret :: "string option"
  ie_custom_fields :: "ipc_custom_field list option"
  ie_entry_type :: "string option"
  ie_tags :: "string list"
  ie_is_duplicate :: bool
  ie_duplicate_reason :: "string option"
  ie_duplicate_target_id :: "string option"
  ie_duplicate_target_title :: "string option"

record import_preview =
  ip_format_detected :: string
  ip_detected_format_key :: string
  ip_is_format_mismatch :: bool
  ip_suggested_brand_name :: "string option"
  ip_total_found :: nat
  ip_entries :: "parsed_entry list"
  ip_duplicates_count :: nat

datatype import_page = BrandPage | FilePage | PreviewPage | ImportingPage | CompletePage

datatype duplicate_strategy = SkipDuplicates | OverwriteDuplicates | KeepBoth

datatype import_call =
    OpenImportDialog
  | ParseImportFile string string
  | ParseImportContent string string
  | ImportEntries "parsed_entry list" duplicate_strategy
  | RefreshAll

text \<open>What the dialog waits for. A file dialog and a file reader keep the format chosen when they were opened.\<close>

datatype import_wait =
    WaitFile string
  | WaitReader string
  | WaitParse
  | WaitImport
  | WaitRefresh nat

record import_state =
  im_isOpen :: bool
  im_step :: import_page
  im_brand :: brand_info
  im_dragging :: bool
  im_parsing :: bool
  im_preview :: "import_preview option"
  im_query :: string
  im_selected :: "(nat, bool) omap"
  im_strategy :: duplicate_strategy
  im_count :: nat
  im_waits :: "import_wait list"
  im_calls :: "import_call list"
  im_toasts :: "(message \<times> toast_type) list"
  im_successes :: nat
  im_closes :: nat

definition init_import :: import_state where
  "init_import = \<lparr>im_isOpen = False, im_step = BrandPage, im_brand = hd BRANDS, im_dragging = False, im_parsing = False,
     im_preview = None, im_query = [], im_selected = [], im_strategy = SkipDuplicates, im_count = 0, im_waits = [],
     im_calls = [], im_toasts = [], im_successes = 0, im_closes = 0\<rparr>"

section \<open>Operations\<close>

definition import_called :: "import_call \<Rightarrow> import_wait \<Rightarrow> import_state \<Rightarrow> import_state" where
  "import_called c w s = s\<lparr>im_calls := im_calls s @ [c], im_waits := im_waits s @ [w]\<rparr>"

definition import_toast :: "message \<Rightarrow> toast_type \<Rightarrow> import_state \<Rightarrow> import_state" where
  "import_toast m ty s = s\<lparr>im_toasts := im_toasts s @ [(m, ty)]\<rparr>"

definition handleReset :: "import_state \<Rightarrow> import_state" where
  "handleReset s = s\<lparr>im_step := BrandPage, im_preview := None, im_selected := [], im_query := [], im_count := 0,
     im_dragging := False\<rparr>"

definition close_import :: "import_state \<Rightarrow> import_state" where
  "close_import s = (handleReset s)\<lparr>im_closes := Suc (im_closes s), im_isOpen := False\<rparr>"

definition select_all :: "nat \<Rightarrow> bool \<Rightarrow> (nat, bool) omap" where
  "select_all n check = map (\<lambda>i. (i, check)) [0..<n]"

definition applyPreviewResult :: "import_preview \<Rightarrow> import_state \<Rightarrow> import_state" where
  "applyPreviewResult res s = s\<lparr>im_preview := Some res, im_selected := select_all (length (ip_entries res)) True,
     im_step := PreviewPage\<rparr>"

definition parseFile :: "string \<Rightarrow> string \<Rightarrow> import_state \<Rightarrow> import_state" where
  "parseFile key path s = import_called (ParseImportFile path key) WaitParse (s\<lparr>im_parsing := True\<rparr>)"

definition parseContent :: "string \<Rightarrow> string \<Rightarrow> import_state \<Rightarrow> import_state" where
  "parseContent key content s = import_called (ParseImportContent content key) WaitParse (s\<lparr>im_parsing := True\<rparr>)"

definition format_key :: "import_state \<Rightarrow> string" where
  "format_key s = bi_supportedFormatKey (im_brand s)"

definition handleSelectFile :: "import_state \<Rightarrow> import_state" where
  "handleSelectFile s = import_called OpenImportDialog (WaitFile (format_key s)) s"

text \<open>A dropped file: none, one with a path, or one that is read.\<close>

datatype dropped = NoFile | FileAt string | FileToRead

definition handleDrop :: "dropped \<Rightarrow> import_state \<Rightarrow> import_state" where
  "handleDrop d s =
     (let s = s\<lparr>im_dragging := False\<rparr>
      in case d of NoFile \<Rightarrow> s
                 | FileAt path \<Rightarrow> parseFile (format_key s) path s
                 | FileToRead \<Rightarrow> s\<lparr>im_waits := im_waits s @ [WaitReader (format_key s)]\<rparr>)"

text \<open>The rows shown, as indices into the entries.\<close>

definition matches_query :: "string \<Rightarrow> parsed_entry \<Rightarrow> bool" where
  "matches_query q e \<longleftrightarrow> has_sub (to_lower (ie_title e)) q \<or> has_sub (to_lower (ie_username e)) q \<or> has_sub (to_lower (ie_url e)) q"

definition filteredPreviewEntries :: "import_state \<Rightarrow> nat list" where
  "filteredPreviewEntries s =
     (case im_preview s of
        None \<Rightarrow> []
      | Some res \<Rightarrow>
          if trim (im_query s) = [] then [0..<length (ip_entries res)]
          else filter (\<lambda>i. matches_query (trim (to_lower (im_query s))) (ip_entries res ! i)) [0..<length (ip_entries res)])"

definition checked :: "import_state \<Rightarrow> nat \<Rightarrow> bool" where
  "checked s i \<longleftrightarrow> om_get (im_selected s) i = Some True"

definition toggle_row :: "nat \<Rightarrow> import_state \<Rightarrow> import_state" where
  "toggle_row i s = s\<lparr>im_selected := om_set i (\<not> checked s i) (im_selected s)\<rparr>"

definition toggleSelectAll :: "bool \<Rightarrow> import_state \<Rightarrow> import_state" where
  "toggleSelectAll check s =
     (case im_preview s of None \<Rightarrow> s | Some res \<Rightarrow> s\<lparr>im_selected := select_all (length (ip_entries res)) check\<rparr>)"

text \<open>The number on the button.\<close>

definition selected_count :: "import_state \<Rightarrow> nat" where
  "selected_count s = length (filter snd (im_selected s))"

definition all_selected :: "import_state \<Rightarrow> bool" where
  "all_selected s \<longleftrightarrow> (case im_preview s of Some res \<Rightarrow> selected_count s = length (ip_entries res) | None \<Rightarrow> False)"

definition toImport :: "import_state \<Rightarrow> parsed_entry list" where
  "toImport s =
     (case im_preview s of
        None \<Rightarrow> []
      | Some res \<Rightarrow> map (\<lambda>i. ip_entries res ! i) (filter (checked s) [0..<length (ip_entries res)]))"

definition handleExecuteImport :: "import_state \<Rightarrow> import_state" where
  "handleExecuteImport s =
     (if im_preview s = None then s
      else import_called (ImportEntries (toImport s) (im_strategy s)) WaitImport (s\<lparr>im_step := ImportingPage\<rparr>))"

text \<open>An answer: \<open>Failed\<close> with the text of the rejection, or what was asked for.\<close>

datatype import_answer =
    Failed string
  | FileChosen "string option"
  | FileRead string
  | Parsed import_preview
  | Imported nat
  | Refreshed

definition resume_import :: "import_wait \<Rightarrow> import_answer \<Rightarrow> import_state \<Rightarrow> import_state" where
  "resume_import w ans s =
     (case w of
        WaitFile key \<Rightarrow> (case ans of FileChosen path \<Rightarrow> if truthy_str path then parseFile key (the path) s else s | _ \<Rightarrow> s)
      | WaitReader key \<Rightarrow> (case ans of FileRead text \<Rightarrow> if text \<noteq> [] then parseContent key text s else s | _ \<Rightarrow> s)
      | WaitParse \<Rightarrow>
          (case ans of
             Parsed res \<Rightarrow> (applyPreviewResult res s)\<lparr>im_parsing := False\<rparr>
           | Failed e \<Rightarrow> (import_toast (Tr ''toast.parse_failed'' [(''err'', e)]) ToastError s)\<lparr>im_parsing := False\<rparr>
           | _ \<Rightarrow> s)
      | WaitImport \<Rightarrow>
          (case ans of
             Imported n \<Rightarrow> import_called RefreshAll (WaitRefresh n) (s\<lparr>im_count := n\<rparr>)
           | Failed e \<Rightarrow> (import_toast (Tr ''toast.import_failed'' [(''err'', e)]) ToastError s)\<lparr>im_step := PreviewPage\<rparr>
           | _ \<Rightarrow> s)
      | WaitRefresh n \<Rightarrow>
          (case ans of
             Refreshed \<Rightarrow>
               (import_toast (Tr ''toast.import_success'' [(''count'', show_nat n)]) ToastSuccess (s\<lparr>im_step := CompletePage\<rparr>))
                 \<lparr>im_successes := Suc (im_successes s)\<rparr>
           | Failed e \<Rightarrow> (import_toast (Tr ''toast.import_failed'' [(''err'', e)]) ToastError s)\<lparr>im_step := PreviewPage\<rparr>
           | _ \<Rightarrow> s))"

definition answers_import :: "import_wait \<Rightarrow> import_answer \<Rightarrow> bool" where
  "answers_import w ans \<longleftrightarrow>
     (case ans of
        Failed _ \<Rightarrow> True
      | FileChosen _ \<Rightarrow> (case w of WaitFile _ \<Rightarrow> True | _ \<Rightarrow> False)
      | FileRead _ \<Rightarrow> (case w of WaitReader _ \<Rightarrow> True | _ \<Rightarrow> False)
      | Parsed _ \<Rightarrow> w = WaitParse
      | Imported _ \<Rightarrow> w = WaitImport
      | Refreshed \<Rightarrow> (case w of WaitRefresh _ \<Rightarrow> True | _ \<Rightarrow> False))"

definition settle_import :: "nat \<Rightarrow> import_answer \<Rightarrow> import_state \<Rightarrow> import_state" where
  "settle_import i ans s =
     (if i < length (im_waits s) \<and> answers_import (im_waits s ! i) ans
      then resume_import (im_waits s ! i) ans (s\<lparr>im_waits := take i (im_waits s) @ drop (Suc i) (im_waits s)\<rparr>)
      else s)"

section \<open>Events\<close>

datatype import_event =
    OpenImport
  | CloseImport
  | PickBrand nat
  | ChangeSource
  | BackToFile
  | BrowseFile
  | Dragging bool
  | Drop dropped
  | Search string
  | Strategy duplicate_strategy
  | ToggleRow nat
  | ToggleAll bool
  | ToggleAllButton
  | ExecuteImport
  | SettleImport nat import_answer

definition import_page_shown :: "import_page \<Rightarrow> import_state \<Rightarrow> bool" where
  "import_page_shown p s \<longleftrightarrow> im_isOpen s \<and> im_step s = p"

definition preview_shown :: "import_state \<Rightarrow> bool" where
  "preview_shown s \<longleftrightarrow> import_page_shown PreviewPage s \<and> im_preview s \<noteq> None"

fun import_step :: "import_event \<Rightarrow> import_state \<Rightarrow> import_state" where
  "import_step OpenImport s = s\<lparr>im_isOpen := True\<rparr>"
| "import_step CloseImport s = (if im_isOpen s then close_import s else s)"
| "import_step (PickBrand i) s =
     (if import_page_shown BrandPage s \<and> i < length BRANDS then s\<lparr>im_brand := BRANDS ! i, im_step := FilePage\<rparr> else s)"
| "import_step ChangeSource s = (if import_page_shown FilePage s then s\<lparr>im_step := BrandPage\<rparr> else s)"
| "import_step BackToFile s = (if import_page_shown PreviewPage s then s\<lparr>im_step := FilePage\<rparr> else s)"
| "import_step BrowseFile s = (if import_page_shown FilePage s \<and> \<not> im_parsing s then handleSelectFile s else s)"
| "import_step (Dragging b) s = (if import_page_shown FilePage s then s\<lparr>im_dragging := b\<rparr> else s)"
| "import_step (Drop d) s = (if import_page_shown FilePage s then handleDrop d s else s)"
| "import_step (Search q) s = (if preview_shown s then s\<lparr>im_query := q\<rparr> else s)"
| "import_step (Strategy d) s = (if preview_shown s then s\<lparr>im_strategy := d\<rparr> else s)"
| "import_step (ToggleRow j) s =
     (if preview_shown s \<and> j < length (filteredPreviewEntries s) then toggle_row (filteredPreviewEntries s ! j) s else s)"
| "import_step (ToggleAll b) s = (if preview_shown s then toggleSelectAll b s else s)"
| "import_step ToggleAllButton s = (if preview_shown s then toggleSelectAll (\<not> all_selected s) s else s)"
| "import_step ExecuteImport s = (if import_page_shown PreviewPage s \<and> selected_count s \<noteq> 0 then handleExecuteImport s else s)"
| "import_step (SettleImport i ans) s = settle_import i ans s"

section \<open>The selection and the preview belong together\<close>

text \<open>
  The selection only has entries of the preview; without a preview it is empty. \<open>R\<close> are the previews that
  have been delivered; everything that is imported is part of one of them.
\<close>

fun selection_fits :: "import_preview option \<Rightarrow> (nat, bool) omap \<Rightarrow> bool" where
  "selection_fits None sel \<longleftrightarrow> sel = []"
| "selection_fits (Some res) sel \<longleftrightarrow> om_wf sel \<and> fst ` set sel \<subseteq> {..<length (ip_entries res)}"

definition selection_ok :: "import_state \<Rightarrow> bool" where
  "selection_ok s \<longleftrightarrow> selection_fits (im_preview s) (im_selected s)"

definition part_of :: "import_preview set \<Rightarrow> import_call \<Rightarrow> bool" where
  "part_of R c \<longleftrightarrow> (case c of ImportEntries xs _ \<Rightarrow> xs \<noteq> [] \<and> (\<exists>res \<in> R. subseq xs (ip_entries res)) | _ \<Rightarrow> True)"

definition import_inv :: "import_preview set \<Rightarrow> import_state \<Rightarrow> bool" where
  "import_inv R s \<longleftrightarrow> selection_ok s \<and> (\<forall>res. im_preview s = Some res \<longrightarrow> res \<in> R) \<and> (\<forall>c \<in> set (im_calls s). part_of R c)"

lemma select_all_keys: "fst ` set (select_all n b) = {..<n}" "om_wf (select_all n b)"
  by (auto simp: select_all_def image_image comp_def)

lemma checked_in: "selection_ok s \<Longrightarrow> im_preview s = Some res \<Longrightarrow> checked s i \<Longrightarrow> i < length (ip_entries res)"
  by (auto simp: selection_ok_def checked_def dest!: map_of_SomeD)

lemma selected_count_sent:
  assumes ok: "selection_ok s"
  shows "selected_count s = length (toImport s)"
proof (cases "im_preview s")
  case None
  then show ?thesis using ok by (simp add: selection_ok_def selected_count_def toImport_def)
next
  case (Some res)
  have wf: "distinct (map fst (im_selected s))" using ok Some by (simp add: selection_ok_def)
  have "fst ` set (filter snd (im_selected s)) = {i. checked s i}"
    using wf by (auto simp: checked_def image_iff dest: map_of_SomeD)
  moreover have "distinct (map fst (filter snd (im_selected s)))" using wf by (simp add: distinct_map_filter)
  ultimately have "selected_count s = card {i. checked s i}"
    unfolding selected_count_def by (metis distinct_card length_map set_map)
  moreover have "{i. checked s i} = set (filter (checked s) [0..<length (ip_entries res)])"
    using checked_in [OF ok Some] by auto
  ultimately show ?thesis using Some by (simp add: toImport_def distinct_card del: set_filter)
qed

lemma subseq_nths: "subseq (map (\<lambda>i. xs ! i) (filter P [0..<length xs])) xs"
  using subseq_map [OF subseq_filter_left [of P "[0..<length xs]"], of "\<lambda>i. xs ! i"] by (simp add: map_nth)

lemma toImport_part: "im_preview s = Some res \<Longrightarrow> subseq (toImport s) (ip_entries res)"
  by (simp add: toImport_def subseq_nths)

lemma import_inv_cong:
  assumes "im_preview t = im_preview s" and "im_selected t = im_selected s" and "im_calls t = im_calls s"
  shows "import_inv R s \<Longrightarrow> import_inv R t"
  using assms by (simp add: import_inv_def selection_ok_def)

lemma import_inv_called:
  "import_inv R s \<Longrightarrow> part_of R c \<Longrightarrow> import_inv R (import_called c w s)"
  by (auto simp: import_inv_def import_called_def selection_ok_def)

lemma import_inv_reset: "import_inv R s \<Longrightarrow> import_inv R (close_import s)"
  by (simp add: import_inv_def close_import_def handleReset_def selection_ok_def)

lemma import_inv_select: "import_inv R s \<Longrightarrow> import_inv R (toggleSelectAll b s)"
  by (auto simp: import_inv_def toggleSelectAll_def selection_ok_def select_all_keys split: option.split)

lemma filtered_in: "i \<in> set (filteredPreviewEntries s) \<Longrightarrow> \<exists>res. im_preview s = Some res \<and> i < length (ip_entries res)"
  by (cases "im_preview s") (auto simp: filteredPreviewEntries_def split: if_splits)

lemma import_inv_row: "import_inv R s \<Longrightarrow> i \<in> set (filteredPreviewEntries s) \<Longrightarrow> import_inv R (toggle_row i s)"
  by (auto simp: import_inv_def toggle_row_def selection_ok_def dest!: filtered_in)

lemma import_inv_apply: "import_inv R s \<Longrightarrow> res \<in> R \<Longrightarrow> import_inv R (applyPreviewResult res s)"
  by (auto simp: import_inv_def applyPreviewResult_def selection_ok_def select_all_keys)

lemma import_inv_execute:
  assumes "import_inv R s" and "selected_count s \<noteq> 0"
  shows "import_inv R (handleExecuteImport s)"
proof (cases "im_preview s")
  case (Some res)
  have "part_of R (ImportEntries (toImport s) (im_strategy s))"
    using assms Some toImport_part [OF Some] selected_count_sent [of s] by (auto simp: import_inv_def part_of_def)
  moreover have "import_inv R (s\<lparr>im_step := ImportingPage\<rparr>)" by (rule import_inv_cong [OF _ _ _ assms(1)]) simp_all
  ultimately show ?thesis by (simp add: handleExecuteImport_def Some import_inv_called)
qed (simp add: handleExecuteImport_def assms)

lemma import_inv_parse:
  "import_inv R s \<Longrightarrow> import_inv R (parseFile key path s)" "import_inv R s \<Longrightarrow> import_inv R (parseContent key text s)"
  "import_inv R s \<Longrightarrow> import_inv R (handleSelectFile s)"
  unfolding parseFile_def parseContent_def handleSelectFile_def
  by (auto simp: part_of_def intro!: import_inv_called elim: import_inv_cong [rotated 3])

lemma import_inv_drop: "import_inv R s \<Longrightarrow> import_inv R (handleDrop d s)"
  unfolding handleDrop_def Let_def
  by (auto intro!: import_inv_parse elim: import_inv_cong [rotated 3] split: dropped.split)

lemma import_inv_toast: "import_inv R s \<Longrightarrow> import_inv R (import_toast m ty s)"
  by (rule import_inv_cong) (simp_all add: import_toast_def)

lemma import_inv_set: "import_inv R s \<Longrightarrow> import_inv R (s\<lparr>im_step := p\<rparr>)" "import_inv R s \<Longrightarrow> import_inv R (s\<lparr>im_parsing := b\<rparr>)"
  "import_inv R s \<Longrightarrow> import_inv R (s\<lparr>im_count := n\<rparr>)" "import_inv R s \<Longrightarrow> import_inv R (s\<lparr>im_successes := n\<rparr>)"
  "import_inv R s \<Longrightarrow> import_inv R (s\<lparr>im_waits := ws\<rparr>)" "import_inv R s \<Longrightarrow> import_inv R (s\<lparr>im_isOpen := b\<rparr>)"
  "import_inv R s \<Longrightarrow> import_inv R (s\<lparr>im_brand := br, im_step := p\<rparr>)" "import_inv R s \<Longrightarrow> import_inv R (s\<lparr>im_dragging := b\<rparr>)"
  "import_inv R s \<Longrightarrow> import_inv R (s\<lparr>im_query := q\<rparr>)" "import_inv R s \<Longrightarrow> import_inv R (s\<lparr>im_strategy := d\<rparr>)"
  by (simp_all add: import_inv_def selection_ok_def)

lemma import_inv_resume:
  "import_inv R s \<Longrightarrow> (\<And>res. ans = Parsed res \<Longrightarrow> res \<in> R) \<Longrightarrow> import_inv R (resume_import w ans s)"
  unfolding resume_import_def
  by (auto intro!: import_inv_parse import_inv_apply import_inv_toast import_inv_set import_inv_called simp: part_of_def
      split: import_wait.split import_answer.split)

lemma import_inv_step:
  assumes "import_inv R s" and "\<And>i res. e = SettleImport i (Parsed res) \<Longrightarrow> res \<in> R"
  shows "import_inv R (import_step e s)"
  using assms
  by (cases e)
    (auto simp: settle_import_def intro!: import_inv_set import_inv_reset import_inv_parse import_inv_drop import_inv_row
      import_inv_select import_inv_execute import_inv_resume)

lemma import_inv_run:
  assumes "import_inv R s" and "\<And>i res. SettleImport i (Parsed res) \<in> set es \<Longrightarrow> res \<in> R"
  shows "import_inv R (run import_step es s)"
  using assms
proof (induction es arbitrary: s)
  case (Cons e es)
  have "import_inv R (import_step e s)" using Cons.prems by (intro import_inv_step) auto
  then have "import_inv R (run import_step es (import_step e s))"
    by (rule Cons.IH) (use Cons.prems in \<open>auto\<close>)
  then show ?case by simp
qed simp

lemma import_inv_init: "import_inv R init_import"
  by (simp add: import_inv_def init_import_def selection_ok_def)

section \<open>Properties\<close>

text \<open>
  What is imported was parsed before: every import that is asked for has at least one entry, and its
  entries are, in their order, entries of one preview that was delivered before.
\<close>

theorem imports_come_from_previews:
  assumes "ImportEntries xs d \<in> set (im_calls (run import_step es init_import))"
  shows "xs \<noteq> [] \<and> (\<exists>i res. SettleImport i (Parsed res) \<in> set es \<and> subseq xs (ip_entries res))"
proof -
  let ?R = "{res. \<exists>i. SettleImport i (Parsed res) \<in> set es}"
  have "import_inv ?R (run import_step es init_import)"
    by (rule import_inv_run [OF import_inv_init]) auto
  then have "part_of ?R (ImportEntries xs d)" using assms by (auto simp: import_inv_def)
  then show ?thesis by (auto simp: part_of_def)
qed

text \<open>
  Claim C27. The number on the button is the number of entries that are sent, and the entries sent are those whose
  boxes are checked: whatever has been searched, toggled, selected, and parsed again in between.
\<close>

theorem import_sends_number_shown:
  assumes "s = run import_step es init_import" and "import_page_shown PreviewPage s" and "im_preview s = Some res"
    and "selected_count s \<noteq> 0"
  shows "im_calls (import_step ExecuteImport s) = im_calls s @ [ImportEntries (toImport s) (im_strategy s)] \<and>
         length (toImport s) = selected_count s \<and>
         set (toImport s) = {ip_entries res ! i | i. checked s i \<and> i < length (ip_entries res)}"
proof -
  have "import_inv UNIV s" using assms(1) import_inv_run [OF import_inv_init, where es = es and R = UNIV] by simp
  then have "selection_ok s" by (simp add: import_inv_def)
  then show ?thesis
    using assms selected_count_sent [of s]
    by (auto simp: handleExecuteImport_def import_called_def toImport_def)
qed

definition demo_entry :: "string \<Rightarrow> parsed_entry" where
  "demo_entry t = \<lparr>ie_title = t, ie_username = [], ie_password = ''secret'', ie_url = [], ie_email = [], ie_notes = [],
     ie_totp_secret = None, ie_custom_fields = None, ie_entry_type = None, ie_tags = [], ie_is_duplicate = False,
     ie_duplicate_reason = None, ie_duplicate_target_id = None, ie_duplicate_target_title = None\<rparr>"

definition demo_preview :: import_preview where
  "demo_preview = \<lparr>ip_format_detected = ''CSV'', ip_detected_format_key = ''generic_csv'', ip_is_format_mismatch = False,
     ip_suggested_brand_name = None, ip_total_found = 3, ip_entries = [demo_entry ''mail'', demo_entry ''bank'', demo_entry ''shop''],
     ip_duplicates_count = 0\<rparr>"

text \<open>The file is parsed, the search finds the second entry, and its row is unchecked.\<close>

definition demo_import :: "import_event list" where
  "demo_import = [OpenImport, PickBrand 0, BrowseFile, SettleImport 0 (FileChosen (Some ''f'')), SettleImport 0 (Parsed demo_preview),
     Search ''Bank'', ToggleRow 0]"

lemmas import_eval = demo_import_def demo_preview_def demo_entry_def init_import_def import_page_shown_def preview_shown_def
  settle_import_def answers_import_def resume_import_def handleSelectFile_def import_called_def parseFile_def
  applyPreviewResult_def select_all_def toggle_row_def checked_def filteredPreviewEntries_def matches_query_def
  handleExecuteImport_def toImport_def selected_count_def close_import_def handleReset_def import_toast_def

lemma nine_brands: "length BRANDS = 9"
  by (simp add: BRANDS_def)

lemma demo_rows: "trim ''Bank'' = ''Bank''" "trim (to_lower ''Bank'') = ''bank''" "to_lower ''bank'' = ''bank''"
  "to_lower ''mail'' = ''mail''" "to_lower ''shop'' = ''shop''" "to_lower [] = []"
  by code_simp+

lemma demo_selected:
  "let s = run import_step demo_import init_import
   in import_page_shown PreviewPage s \<and> im_preview s = Some demo_preview \<and> im_selected s = [(0, True), (1, False), (2, True)] \<and>
      im_strategy s = SkipDuplicates"
  by (simp add: import_eval nine_brands demo_rows upt_rec)

theorem imports_come_from_previews_witness:
  "ImportEntries [demo_entry ''mail'', demo_entry ''shop''] SkipDuplicates
     \<in> set (im_calls (run import_step (demo_import @ [ExecuteImport]) init_import)) \<and>
   (\<exists>i res. SettleImport i (Parsed res) \<in> set (demo_import @ [ExecuteImport]) \<and>
      subseq [demo_entry ''mail'', demo_entry ''shop''] (ip_entries res))"
proof -
  let ?s = "run import_step demo_import init_import"
  have "selected_count ?s = 2" "toImport ?s = [demo_entry ''mail'', demo_entry ''shop'']"
    using demo_selected by (simp_all add: Let_def selected_count_def toImport_def checked_def demo_preview_def upt_rec)
  then have call: "ImportEntries [demo_entry ''mail'', demo_entry ''shop''] SkipDuplicates
     \<in> set (im_calls (run import_step (demo_import @ [ExecuteImport]) init_import))"
    using demo_selected by (simp add: Let_def handleExecuteImport_def import_called_def)
  with imports_come_from_previews [OF this] show ?thesis by simp
qed

theorem import_sends_number_shown_witness:
  "let s = run import_step demo_import init_import
   in selected_count s = 2 \<and> length (toImport s) = 2 \<and>
      im_calls (import_step ExecuteImport s) = im_calls s @ [ImportEntries (toImport s) SkipDuplicates]"
proof -
  let ?s = "run import_step demo_import init_import"
  have n: "selected_count ?s = 2" using demo_selected by (simp add: Let_def selected_count_def)
  then show ?thesis
    using demo_selected import_sends_number_shown [of ?s demo_import demo_preview] by (simp add: Let_def)
qed

section \<open>Two behaviours worth knowing\<close>

text \<open>
  Closing the dialog forgets the preview, but a file that is still being parsed brings it back: the
  passwords of the export stay in memory behind the closed dialog (lines 56 to 59, 75 to 83 and 88).
\<close>

lemma closed_import_keeps_passwords:
  "let s = run import_step (take 4 demo_import @ [CloseImport, SettleImport 0 (Parsed demo_preview)]) init_import
   in \<not> im_isOpen s \<and> im_preview s = Some demo_preview"
  by (simp add: import_eval nine_brands)

text \<open>
  An import that ends after the dialog was closed and opened again moves the new dialog to its last page,
  although nothing has been imported in it (lines 170 to 176).
\<close>

lemma import_ends_in_new_dialog:
  "let s = run import_step (take 5 demo_import @ [ExecuteImport, CloseImport, OpenImport, PickBrand 1,
       SettleImport 0 (Imported 3), SettleImport 0 Refreshed]) init_import
   in im_isOpen s \<and> im_step s = CompletePage \<and> im_preview s = None"
  by (simp add: import_eval nine_brands upt_rec)

end
