(* ===== verification/Sign_In.thy ===== *)
theory Sign_In
  imports Text_Utils Entries_State
begin

text \<open>
  The page that opens a vault: \<open>pages/Login.tsx\<close>. One mounted page is a step function over typing, clicks,
  timers, the visibility of the window and the answers of the native side. \<open>Date.now()\<close> reads the clock
  of the state, which \<open>Elapse\<close> moves; a timer of \<open>setTimeout\<close> is its due time. What the page does to the
  rest of the application (the current vault, the lock, the route) is a list of effects in their order.
  \<open>RecoveryForm\<close> of \<open>features/auth/components/LocalProtection.tsx\<close> is part of the page. Left out: focus,
  shaking, the visibility of the password.
\<close>

section \<open>Data\<close>

datatype login_view = MasterView | BiometricView | HardwareView | RecoveryView

record hw_challenge =
  hc_enabled :: bool
  hc_protocol :: string
  hc_salt :: "nat list"
  hc_credential :: "nat list"

datatype login_call =
    CheckVaultFileExists string
  | IsHardware2FaEnabled string
  | IsBiometricEnabled string
  | CheckBiometricAvailable
  | OpenVaultBytes string string "string option"
  | GetHardware2FaChallenge string
  | PerformHardware2FaChallenge string "nat list" "nat list option"
  | OpenVaultWithHardware2Fa string string "string option" "nat list"
  | UnlockVaultBiometric string
  | RecoverVault string string string string
  | OpenKeyFile

datatype login_effect = SetCurrentVault "vault option" | SetUnlocked | Navigate string

datatype sign_in_kind = ByPassword | ByHardware | ByBiometric

datatype sign_in_stage = AwaitNative | AwaitChallenge | AwaitTouch | AwaitOpened

text \<open>An attempt under way, with the values its handler captured.\<close>

record sign_in_job =
  sj_kind :: sign_in_kind
  sj_stage :: sign_in_stage
  sj_path :: string
  sj_password :: string
  sj_keyFile :: "string option"
  sj_attempts :: nat

text \<open>The effect on the current vault: the search for one, or what the vault asks for.\<close>

datatype start_stage =
    FindBackend
  | FindVault vault "vault list"
  | CheckBackend string
  | CheckHardware string
  | CheckBiometric string bool
  | CheckDevice bool bool

text \<open>
  The recovery form: its fields, and its submissions with the values they captured. A submission goes on when
  the form is gone; \<open>rr_live\<close> says whether its form is still there.
\<close>

datatype recovery_error = CheckFields | RecoveryRejected string

record recovery_form =
  rf_a :: string
  rf_b :: string
  rf_password :: string
  rf_confirm :: string
  rf_busy :: bool
  rf_error :: "recovery_error option"

record recovery_run =
  rr_live :: bool
  rr_called :: bool
  rr_path :: string
  rr_a :: string
  rr_b :: string
  rr_password :: string

definition new_recovery_form :: recovery_form where
  "new_recovery_form = \<lparr>rf_a = [], rf_b = [], rf_password = [], rf_confirm = [], rf_busy = False, rf_error = None\<rparr>"

text \<open>
  \<open>si_recent\<close> is the stored list of recent vaults, or the error of reading it. \<open>si_autoBio\<close> is the ref that
  remembers that the biometric prompt came up by itself, \<open>si_autoTimer\<close> its pending timer,
  \<open>si_listening\<close> says whether the last run of that effect listens for the window to come back.
\<close>

record sign_in =
  si_mounted :: bool
  si_tauri :: bool
  si_clock :: nat
  si_vault :: "vault option"
  si_recent :: "string + vault list"
  si_password :: string
  si_useKeyFile :: bool
  si_keyFilePath :: string
  si_error :: "message option"
  si_loading :: bool
  si_attempts :: nat
  si_lockedUntil :: nat
  si_now :: nat
  si_timers :: "nat list"
  si_bioAvailable :: bool
  si_bioType :: string
  si_prompting :: bool
  si_hardware :: bool
  si_view :: login_view
  si_autoBio :: bool
  si_autoTimer :: bool
  si_listening :: bool
  si_visible :: bool
  si_start :: "start_stage option"
  si_job :: "sign_in_job option"
  si_dialogs :: nat
  si_form :: recovery_form
  si_recoveries :: "recovery_run list"
  si_calls :: "login_call list"
  si_effects :: "login_effect list"

section \<open>Limits\<close>

definition MAX_ATTEMPTS :: nat where
  "MAX_ATTEMPTS = 5"

definition LOCKOUT_DELAYS :: "nat list" where
  "LOCKOUT_DELAYS = [0, 0, 0, 5000, 15000, 30000]"

definition lockout_delay :: "nat \<Rightarrow> nat" where
  "lockout_delay n = LOCKOUT_DELAYS ! min n (length LOCKOUT_DELAYS - 1)"

definition locked_out :: "sign_in \<Rightarrow> bool" where
  "locked_out s \<longleftrightarrow> si_now s < si_lockedUntil s"

text \<open>The number of attempts left, shown from the third refused one on.\<close>

definition attempts_shown :: "sign_in \<Rightarrow> int option" where
  "attempts_shown s = (if si_attempts s \<ge> 3 then Some (int MAX_ATTEMPTS - int (si_attempts s)) else None)"

definition lockoutRemaining :: "sign_in \<Rightarrow> nat" where
  "lockoutRemaining s = (si_lockedUntil s - si_now s + 999) div 1000"

section \<open>The first effect\<close>

definition login_called :: "login_call \<Rightarrow> sign_in \<Rightarrow> sign_in" where
  "login_called c s = s\<lparr>si_calls := si_calls s @ [c]\<rparr>"

definition affect :: "login_effect list \<Rightarrow> sign_in \<Rightarrow> sign_in" where
  "affect es s = s\<lparr>si_effects := si_effects s @ es\<rparr>"

definition leave_login :: "string \<Rightarrow> sign_in \<Rightarrow> sign_in" where
  "leave_login route s = (affect [Navigate route] s)\<lparr>si_mounted := False, si_autoTimer := False\<rparr>"

definition begin_start :: "sign_in \<Rightarrow> sign_in" where
  "begin_start s =
     (if \<not> si_tauri s then leave_login ''/'' s
      else case si_vault s of
             None \<Rightarrow> s\<lparr>si_start := Some FindBackend\<rparr>
           | Some v \<Rightarrow> if va_path v \<noteq> [] then s\<lparr>si_start := Some (CheckBackend (va_path v))\<rparr> else s)"

text \<open>The search for a vault whose file exists, from the first of \<open>saved\<close>.\<close>

definition find_vault :: "vault list \<Rightarrow> sign_in \<Rightarrow> sign_in" where
  "find_vault saved s =
     (case saved of
        [] \<Rightarrow> leave_login ''/'' (s\<lparr>si_start := None\<rparr>)
      | v # vs \<Rightarrow> login_called (CheckVaultFileExists (va_path v)) (s\<lparr>si_start := Some (FindVault v vs)\<rparr>))"

datatype start_answer = StartFailed | StartReady | StartBool bool | DeviceInfo bool string

definition resume_start :: "start_stage \<Rightarrow> start_answer \<Rightarrow> sign_in \<Rightarrow> sign_in" where
  "resume_start stage ans s =
     (case (stage, ans) of
        (FindBackend, StartReady) \<Rightarrow>
          (case si_recent s of Inl _ \<Rightarrow> leave_login ''/'' (s\<lparr>si_start := None\<rparr>) | Inr saved \<Rightarrow> find_vault saved s)
      | (FindVault v vs, StartBool True) \<Rightarrow>
          (let s = affect [SetCurrentVault (Some v)] (s\<lparr>si_vault := Some v, si_start := None\<rparr>)
           in if si_mounted s then begin_start s else s)
      | (FindVault v vs, StartBool False) \<Rightarrow> find_vault vs s
      | (FindVault v vs, StartFailed) \<Rightarrow> find_vault vs s
      | (CheckBackend p, StartReady) \<Rightarrow> login_called (IsHardware2FaEnabled p) (s\<lparr>si_start := Some (CheckHardware p)\<rparr>)
      | (CheckHardware p, StartBool hw) \<Rightarrow>
          login_called (IsBiometricEnabled p) (s\<lparr>si_hardware := hw, si_start := Some (CheckBiometric p hw)\<rparr>)
      | (CheckBiometric p hw, StartBool enabled) \<Rightarrow>
          login_called CheckBiometricAvailable (s\<lparr>si_start := Some (CheckDevice hw enabled)\<rparr>)
      | (CheckDevice hw enabled, DeviceInfo available ty) \<Rightarrow>
          s\<lparr>si_start := None, si_bioAvailable := enabled \<and> available,
            si_bioType := (if ty \<noteq> [] then ty else si_bioType s),
            si_view := (if hw then HardwareView else if enabled \<and> available then BiometricView else MasterView)\<rparr>
      | (_, StartFailed) \<Rightarrow> s\<lparr>si_start := None\<rparr>
      | _ \<Rightarrow> s)"

definition mount_sign_in :: "bool \<Rightarrow> nat \<Rightarrow> vault option \<Rightarrow> string + vault list \<Rightarrow> bool \<Rightarrow> sign_in" where
  "mount_sign_in tauri clock vault recent visible =
     begin_start \<lparr>si_mounted = True, si_tauri = tauri, si_clock = clock, si_vault = vault, si_recent = recent,
       si_password = [], si_useKeyFile = False, si_keyFilePath = [], si_error = None, si_loading = False, si_attempts = 0,
       si_lockedUntil = 0, si_now = clock, si_timers = [], si_bioAvailable = False, si_bioType = ''Windows Hello'',
       si_prompting = False, si_hardware = False, si_view = MasterView, si_autoBio = False, si_autoTimer = False,
       si_listening = True, si_visible = visible, si_start = None, si_job = None, si_dialogs = 0, si_form = new_recovery_form, si_recoveries = [], si_calls = [], si_effects = []\<rparr>"

section \<open>Starting an attempt\<close>

definition complain_login :: "message \<Rightarrow> sign_in \<Rightarrow> sign_in" where
  "complain_login m s = s\<lparr>si_error := Some m\<rparr>"

definition locked_message :: "nat \<Rightarrow> message" where
  "locked_message seconds = Tr ''login.err_locked'' [(''seconds'', show_nat seconds)]"

definition given_key_file :: "sign_in \<Rightarrow> string option" where
  "given_key_file s = (if si_useKeyFile s \<and> trim (si_keyFilePath s) \<noteq> [] then Some (trim (si_keyFilePath s)) else None)"

definition start_job :: "sign_in_kind \<Rightarrow> string \<Rightarrow> sign_in \<Rightarrow> sign_in" where
  "start_job kind path s = s\<lparr>si_loading := True,
     si_job := Some \<lparr>sj_kind = kind, sj_stage = AwaitNative, sj_path = path, sj_password = si_password s,
       sj_keyFile = given_key_file s, sj_attempts = si_attempts s\<rparr>\<rparr>"

definition handleUnlockBiometric :: "sign_in \<Rightarrow> sign_in" where
  "handleUnlockBiometric s =
     (case si_vault s of
        Some v \<Rightarrow>
          if va_path v = [] \<or> \<not> si_tauri s then s
          else if \<not> si_visible s then s\<lparr>si_autoBio := False\<rparr>
          else start_job ByBiometric (va_path v) (s\<lparr>si_error := None, si_prompting := True\<rparr>)
      | None \<Rightarrow> s)"

definition handleHardwareUnlock :: "sign_in \<Rightarrow> sign_in" where
  "handleHardwareUnlock s =
     (let s = s\<lparr>si_error := None\<rparr>
      in if locked_out s then complain_login (locked_message (lockoutRemaining s)) s
         else if si_password s = [] then complain_login (Tr ''login.err_enter_password'' []) s
         else case si_vault s of
                Some v \<Rightarrow> if si_tauri s then start_job ByHardware (va_path v) s else s
              | None \<Rightarrow> s)"

text \<open>What every success does first; reading the list of recent vaults may throw.\<close>

definition vault_of :: "vault_info \<Rightarrow> vault" where
  "vault_of i = \<lparr>va_id = vi_id i, va_name = vi_name i, va_path = vi_path i\<rparr>"

definition remember_recent :: "vault \<Rightarrow> vault list \<Rightarrow> vault list" where
  "remember_recent v recent = v # take 9 (filter (\<lambda>w. va_id w \<noteq> va_id v \<and> va_path w \<noteq> va_path v) recent)"

definition sign_in_done :: "sign_in_kind \<Rightarrow> vault \<Rightarrow> vault list \<Rightarrow> sign_in \<Rightarrow> sign_in" where
  "sign_in_done kind v recent s =
     leave_login ''/app''
       (affect [SetCurrentVault (Some v), SetUnlocked]
         (s\<lparr>si_recent := Inr (remember_recent v recent), si_vault := Some v, si_attempts := 0,
            si_password := (if kind = ByBiometric then si_password s else []),
            si_prompting := (if kind = ByBiometric then False else si_prompting s),
            si_loading := False, si_job := None\<rparr>))"

section \<open>Failures\<close>

definition lock_until :: "nat \<Rightarrow> sign_in \<Rightarrow> sign_in" where
  "lock_until delay s =
     complain_login (locked_message (delay div 1000)) (s\<lparr>si_lockedUntil := si_clock s + delay\<rparr>)"

definition needs_hardware :: "string \<Rightarrow> bool" where
  "needs_hardware e \<longleftrightarrow> has_sub e ''Hardware 2FA / YubiKey required'' \<or> has_sub e ''Hardware2FaRequired''"

definition password_failed :: "nat \<Rightarrow> string \<Rightarrow> sign_in \<Rightarrow> sign_in" where
  "password_failed tried e s =
     (if needs_hardware e
      then complain_login (Tr ''error.hardware_2fa_required'' []) (s\<lparr>si_hardware := True, si_view := HardwareView\<rparr>)
      else let n = Suc tried; delay = lockout_delay n; s = s\<lparr>si_attempts := n\<rparr>;
               s = (if delay > 0
                    then (lock_until delay s)\<lparr>si_timers := si_timers s @ [si_clock s + delay]\<rparr>
                    else complain_login (Tr ''login.err_incorrect'' []) s)
           in s\<lparr>si_password := []\<rparr>)"

definition hardware_failed :: "nat \<Rightarrow> string \<Rightarrow> sign_in \<Rightarrow> sign_in" where
  "hardware_failed tried e s =
     (let n = Suc tried; s = s\<lparr>si_attempts := n\<rparr>; e = (if e \<noteq> [] then e else ''Hardware key authentication failed'')
      in if n \<ge> MAX_ATTEMPTS then lock_until (lockout_delay n) s
         else complain_login
                (if has_sub e ''InvalidPassword'' then Tr ''error.invalid_password'' []
                 else if has_sub e ''Hardware2FaAuthFailed'' then Tr ''error.hardware_2fa_auth_failed'' []
                 else Plain e) s)"

definition biometric_failed :: "string \<Rightarrow> sign_in \<Rightarrow> sign_in" where
  "biometric_failed e s =
     (if has_sub e ''Window is hidden'' \<or> has_sub e ''Window is not visible'' then s\<lparr>si_autoBio := False\<rparr>
      else if has_sub (to_lower e) ''canceled'' \<or> has_sub (to_lower e) ''cancelled''
      then complain_login (Tr ''login.biometric_canceled'' []) s
      else if has_sub e ''Hardware2FaRequired'' then s\<lparr>si_hardware := True, si_view := HardwareView\<rparr>
      else complain_login (if e \<noteq> [] then Plain e else Tr ''login.biometric_failed'' []) s)"

definition sign_in_failed :: "sign_in_job \<Rightarrow> string \<Rightarrow> sign_in \<Rightarrow> sign_in" where
  "sign_in_failed j e s =
     (let s = (case sj_kind j of
                 ByPassword \<Rightarrow> password_failed (sj_attempts j) e s
               | ByHardware \<Rightarrow> hardware_failed (sj_attempts j) e s
               | ByBiometric \<Rightarrow> (biometric_failed e s)\<lparr>si_prompting := False\<rparr>)
      in s\<lparr>si_loading := False, si_job := None\<rparr>)"

section \<open>Answers\<close>

datatype sign_in_answer =
    SignInFailed string
  | NativeReady
  | ChallengeGot "hw_challenge option"
  | TouchedKey "nat list"
  | VaultOpened vault_info

definition vault_opened :: "sign_in_job \<Rightarrow> vault_info \<Rightarrow> sign_in \<Rightarrow> sign_in" where
  "vault_opened j i s =
     (case si_recent s of
        Inl e \<Rightarrow> sign_in_failed j e s
      | Inr recent \<Rightarrow> sign_in_done (sj_kind j) (vault_of i) recent s)"

definition go_on :: "sign_in_job \<Rightarrow> sign_in_stage \<Rightarrow> login_call \<Rightarrow> sign_in \<Rightarrow> sign_in" where
  "go_on j stage c s = login_called c (s\<lparr>si_job := Some (j\<lparr>sj_stage := stage\<rparr>)\<rparr>)"

definition native_ready :: "sign_in_job \<Rightarrow> sign_in \<Rightarrow> sign_in" where
  "native_ready j =
     (case sj_kind j of
        ByPassword \<Rightarrow> go_on j AwaitOpened (OpenVaultBytes (sj_path j) (sj_password j) (sj_keyFile j))
      | ByHardware \<Rightarrow> go_on j AwaitChallenge (GetHardware2FaChallenge (sj_path j))
      | ByBiometric \<Rightarrow> go_on j AwaitOpened (UnlockVaultBiometric (sj_path j)))"

definition challenge_got :: "sign_in_job \<Rightarrow> hw_challenge option \<Rightarrow> sign_in \<Rightarrow> sign_in" where
  "challenge_got j c =
     (case c of
        Some h \<Rightarrow>
          if hc_enabled h
          then go_on j AwaitTouch (PerformHardware2FaChallenge (hc_protocol h) (hc_salt h)
                 (if hc_credential h \<noteq> [] then Some (hc_credential h) else None))
          else sign_in_failed j ''Error: Hardware 2FA header not found in vault file''
      | None \<Rightarrow> sign_in_failed j ''Error: Hardware 2FA header not found in vault file'')"

fun resume_sign_in :: "sign_in_job \<Rightarrow> sign_in_answer \<Rightarrow> sign_in_stage \<Rightarrow> sign_in \<Rightarrow> sign_in" where
  "resume_sign_in j (SignInFailed e) _ s = sign_in_failed j e s"
| "resume_sign_in j NativeReady AwaitNative s = native_ready j s"
| "resume_sign_in j (ChallengeGot c) AwaitChallenge s = challenge_got j c s"
| "resume_sign_in j (TouchedKey r) AwaitTouch s =
     go_on j AwaitOpened (OpenVaultWithHardware2Fa (sj_path j) (sj_password j) (sj_keyFile j) r) s"
| "resume_sign_in j (VaultOpened i) AwaitOpened s = vault_opened j i s"
| "resume_sign_in j _ _ s = s"

definition settle_sign_in :: "sign_in_answer \<Rightarrow> sign_in \<Rightarrow> sign_in" where
  "settle_sign_in ans s = (case si_job s of None \<Rightarrow> s | Some j \<Rightarrow> resume_sign_in j ans (sj_stage j) s)"

section \<open>Submitting the master password\<close>

text \<open>Without the native side (a browser) the vault is only named; \<open>uuid\<close> is what \<open>crypto.randomUUID\<close> makes.\<close>

definition browser_vault :: "string \<Rightarrow> vault option \<Rightarrow> vault" where
  "browser_vault uuid v =
     (case v of
        None \<Rightarrow> \<lparr>va_id = uuid, va_name = ''Vault'', va_path = []\<rparr>
      | Some v \<Rightarrow> \<lparr>va_id = (if va_id v \<noteq> [] then va_id v else uuid),
                   va_name = (if va_name v \<noteq> [] then va_name v else ''Vault''), va_path = va_path v\<rparr>)"

definition handleSubmit :: "string \<Rightarrow> sign_in \<Rightarrow> sign_in" where
  "handleSubmit uuid s =
     (let s = s\<lparr>si_error := None\<rparr>
      in if locked_out s then complain_login (locked_message (lockoutRemaining s)) s
         else if si_password s = [] then complain_login (Tr ''login.err_enter_password'' []) s
         else if si_useKeyFile s \<and> trim (si_keyFilePath s) = [] then complain_login (Tr ''login.err_specify_keyfile'' []) s
         else if si_hardware s then handleHardwareUnlock s
         else if si_tauri s
         then (case si_vault s of
                 None \<Rightarrow> leave_login ''/'' s
               | Some v \<Rightarrow> start_job ByPassword (va_path v) s)
         else (case si_recent s of
                 Inl e \<Rightarrow> (password_failed (si_attempts s) e s)\<lparr>si_loading := False\<rparr>
               | Inr recent \<Rightarrow> sign_in_done ByPassword (browser_vault uuid (si_vault s)) recent s))"

section \<open>Recovery\<close>

datatype recovery_field = ShareA | ShareB | NewPassword | ConfirmPassword

fun put_field :: "recovery_field \<Rightarrow> string \<Rightarrow> recovery_form \<Rightarrow> recovery_form" where
  "put_field ShareA v f = f\<lparr>rf_a := v\<rparr>"
| "put_field ShareB v f = f\<lparr>rf_b := v\<rparr>"
| "put_field NewPassword v f = f\<lparr>rf_password := v\<rparr>"
| "put_field ConfirmPassword v f = f\<lparr>rf_confirm := v\<rparr>"

definition fields_ok :: "recovery_form \<Rightarrow> bool" where
  "fields_ok f \<longleftrightarrow> trim (rf_a f) \<noteq> [] \<and> trim (rf_b f) \<noteq> [] \<and> trim (rf_a f) \<noteq> trim (rf_b f) \<and>
     isValidNewMasterPassword (rf_password f) \<and> rf_password f = rf_confirm f"

text \<open>The ref \<open>recovering\<close> and the state \<open>busy\<close> are set and cleared together.\<close>

definition submit_recovery :: "sign_in \<Rightarrow> sign_in" where
  "submit_recovery s =
     (let f = si_form s
      in if rf_busy f then s
         else if \<not> fields_ok f then s\<lparr>si_form := f\<lparr>rf_error := Some CheckFields\<rparr>\<rparr>
         else s\<lparr>si_form := f\<lparr>rf_error := None, rf_busy := True\<rparr>,
                si_recoveries := si_recoveries s @
                  [\<lparr>rr_live = True, rr_called = False, rr_path = (case si_vault s of Some v \<Rightarrow> va_path v | None \<Rightarrow> []),
                    rr_a = rf_a f, rr_b = rf_b f, rr_password = rf_password f\<rparr>]\<rparr>)"

datatype recovery_answer = RecoveryFailed string | RecoveryReady | RecoveryDone vault_info

definition drop_run :: "nat \<Rightarrow> sign_in \<Rightarrow> sign_in" where
  "drop_run i s = s\<lparr>si_recoveries := take i (si_recoveries s) @ drop (Suc i) (si_recoveries s)\<rparr>"

definition resume_recovery :: "nat \<Rightarrow> recovery_answer \<Rightarrow> sign_in \<Rightarrow> sign_in" where
  "resume_recovery i ans s =
     (let r = si_recoveries s ! i
      in case ans of
           RecoveryFailed e \<Rightarrow>
             (drop_run i s)\<lparr>si_form := (if rr_live r then (si_form s)\<lparr>rf_busy := False, rf_error := Some (RecoveryRejected e)\<rparr> else si_form s)\<rparr>
         | RecoveryReady \<Rightarrow>
             if rr_called r then s
             else login_called (RecoverVault (rr_path r) (rr_a r) (rr_b r) (rr_password r))
                    (s\<lparr>si_recoveries := (si_recoveries s)[i := r\<lparr>rr_called := True\<rparr>]\<rparr>)
         | RecoveryDone info \<Rightarrow>
             if \<not> rr_called r then s
             else leave_login ''/app''
                    (affect [SetCurrentVault (Some (vault_of info)), SetUnlocked]
                      ((drop_run i s)\<lparr>si_form := (if rr_live r then new_recovery_form else si_form s),
                         si_vault := Some (vault_of info)\<rparr>)))"

section \<open>Events\<close>

datatype sign_in_event =
    Elapse nat
  | Tick
  | LockoutTimer nat
  | TypePassword string
  | KeyPressed
  | UseKeyFile bool
  | TypeKeyFile string
  | BrowseKeyFile
  | KeyFileChosen "string option"
  | SubmitMaster string
  | SubmitHardware
  | PressBiometric
  | UseMasterPassword
  | UseRecovery
  | RecoveryBack
  | RecoveryTyped recovery_field string
  | RecoverySubmit
  | SettleRecovery nat recovery_answer
  | SwitchToBiometric
  | SwitchToHardware
  | Visibility bool
  | AutoBiometric
  | BackToVaults
  | SettleStart start_answer
  | SettleSignIn sign_in_answer

text \<open>The fields are disabled while an attempt runs or the page is locked; in the hardware view only the password is.\<close>

definition usable :: "sign_in \<Rightarrow> bool" where
  "usable s \<longleftrightarrow> \<not> si_loading s \<and> \<not> locked_out s"

definition key_file_usable :: "sign_in \<Rightarrow> bool" where
  "key_file_usable s \<longleftrightarrow> si_view s = HardwareView \<or> si_view s = MasterView \<and> usable s"

definition clears_error :: "sign_in \<Rightarrow> sign_in" where
  "clears_error s = (if si_view s = MasterView then s\<lparr>si_error := None\<rparr> else s)"

definition wants_prompt :: "sign_in \<Rightarrow> bool" where
  "wants_prompt s \<longleftrightarrow> si_view s = BiometricView \<and> si_bioAvailable s \<and> \<not> si_autoBio s \<and> \<not> si_loading s \<and> si_visible s"

text \<open>\<open>sign_in_handle\<close> are the events a mounted page reacts to.\<close>

fun sign_in_handle :: "sign_in_event \<Rightarrow> sign_in \<Rightarrow> sign_in" where
  "sign_in_handle (TypePassword v) s =
     (if si_view s = HardwareView \<and> usable s then s\<lparr>si_password := v, si_error := None\<rparr>
      else if si_view s = MasterView \<and> usable s then s\<lparr>si_password := v\<rparr> else s)"
| "sign_in_handle KeyPressed s = (if si_view s = MasterView \<and> usable s then s\<lparr>si_error := None\<rparr> else s)"
| "sign_in_handle (UseKeyFile b) s = (if key_file_usable s then clears_error (s\<lparr>si_useKeyFile := b\<rparr>) else s)"
| "sign_in_handle (TypeKeyFile v) s =
     (if key_file_usable s \<and> si_useKeyFile s then clears_error (s\<lparr>si_keyFilePath := v\<rparr>) else s)"
| "sign_in_handle BrowseKeyFile s =
     (if key_file_usable s \<and> si_useKeyFile s \<and> si_tauri s
      then login_called OpenKeyFile (s\<lparr>si_dialogs := Suc (si_dialogs s)\<rparr>) else s)"
| "sign_in_handle (KeyFileChosen path) s =
     (if si_dialogs s = 0 then s
      else let s = s\<lparr>si_dialogs := si_dialogs s - 1\<rparr>
           in if truthy_str path then s\<lparr>si_keyFilePath := the path\<rparr> else s)"
| "sign_in_handle (SubmitMaster uuid) s = (if si_view s = MasterView \<and> usable s then handleSubmit uuid s else s)"
| "sign_in_handle SubmitHardware s =
     (if si_view s = HardwareView \<and> usable s \<and> si_password s \<noteq> [] then handleHardwareUnlock s else s)"
| "sign_in_handle PressBiometric s = (if si_view s = BiometricView \<and> \<not> si_loading s then handleUnlockBiometric s else s)"
| "sign_in_handle UseMasterPassword s =
     (if si_view s = BiometricView \<and> \<not> si_loading s then s\<lparr>si_error := None, si_view := MasterView\<rparr> else s)"
| "sign_in_handle UseRecovery s =
     (if si_view s = HardwareView \<or> si_view s = MasterView \<and> \<not> si_loading s
      then s\<lparr>si_error := None, si_view := RecoveryView\<rparr> else s)"
| "sign_in_handle RecoveryBack s =
     (if si_view s = RecoveryView \<and> \<not> rf_busy (si_form s) then s\<lparr>si_view := MasterView\<rparr> else s)"
| "sign_in_handle (RecoveryTyped k v) s =
     (if si_view s = RecoveryView \<and> \<not> rf_busy (si_form s) then s\<lparr>si_form := put_field k v (si_form s)\<rparr> else s)"
| "sign_in_handle RecoverySubmit s = (if si_view s = RecoveryView \<and> fields_ok (si_form s) then submit_recovery s else s)"
| "sign_in_handle SwitchToBiometric s =
     (if si_view s = MasterView \<and> si_bioAvailable s \<and> usable s
      then handleUnlockBiometric (s\<lparr>si_error := None, si_view := BiometricView\<rparr>) else s)"
| "sign_in_handle SwitchToHardware s =
     (if si_view s = MasterView \<and> si_hardware s then s\<lparr>si_error := None, si_view := HardwareView\<rparr> else s)"
| "sign_in_handle (Visibility b) s =
     (let s = s\<lparr>si_visible := b\<rparr>
      in if si_listening s \<and> wants_prompt s then handleUnlockBiometric (s\<lparr>si_autoBio := True\<rparr>) else s)"
| "sign_in_handle AutoBiometric s =
     (if si_autoTimer s then handleUnlockBiometric (s\<lparr>si_autoTimer := False\<rparr>) else s)"
| "sign_in_handle Tick s = (if si_lockedUntil s \<noteq> 0 then s\<lparr>si_now := si_clock s\<rparr> else s)"
| "sign_in_handle BackToVaults s = leave_login ''/'' (affect [SetCurrentVault None] (s\<lparr>si_vault := None\<rparr>))"
| "sign_in_handle _ s = s"

text \<open>Time, timers and answers go on when the page is gone.\<close>

fun sign_in_outside :: "sign_in_event \<Rightarrow> sign_in \<Rightarrow> sign_in" where
  "sign_in_outside (Elapse d) s = s\<lparr>si_clock := si_clock s + d\<rparr>"
| "sign_in_outside (LockoutTimer i) s =
     (if i < length (si_timers s) \<and> si_timers s ! i \<le> si_clock s
      then s\<lparr>si_timers := take i (si_timers s) @ drop (Suc i) (si_timers s), si_lockedUntil := 0, si_error := None\<rparr> else s)"
| "sign_in_outside (SettleStart ans) s = (case si_start s of None \<Rightarrow> s | Some stage \<Rightarrow> resume_start stage ans s)"
| "sign_in_outside (SettleSignIn ans) s = settle_sign_in ans s"
| "sign_in_outside (SettleRecovery i ans) s = (if i < length (si_recoveries s) then resume_recovery i ans s else s)"
| "sign_in_outside e s = (if si_mounted s then sign_in_handle e s else s)"

text \<open>
  The effect that brings the biometric prompt up by itself runs again when the view, the availability, the
  current vault or the loading flag has changed: its cleanup cancels the timer and stops listening, the new run
  starts a timer or listens.
\<close>

definition prompt_deps :: "sign_in \<Rightarrow> login_view \<times> bool \<times> bool \<times> vault option" where
  "prompt_deps s = (si_view s, si_bioAvailable s, si_loading s, si_vault s)"

definition prompt_effect :: "sign_in \<Rightarrow> sign_in \<Rightarrow> sign_in" where
  "prompt_effect old s =
     (if \<not> si_mounted s \<or> prompt_deps s = prompt_deps old then s
      else if wants_prompt s then s\<lparr>si_autoBio := True, si_autoTimer := True, si_listening := False\<rparr>
      else s\<lparr>si_autoTimer := False, si_listening := True\<rparr>)"

text \<open>The recovery form comes and goes with its view; a new one is empty.\<close>

definition form_shown :: "sign_in \<Rightarrow> bool" where
  "form_shown s \<longleftrightarrow> si_mounted s \<and> si_view s = RecoveryView"

definition form_effect :: "sign_in \<Rightarrow> sign_in \<Rightarrow> sign_in" where
  "form_effect old s =
     (if form_shown s = form_shown old then s
      else s\<lparr>si_form := new_recovery_form, si_recoveries := map (\<lambda>r. r\<lparr>rr_live := False\<rparr>) (si_recoveries s)\<rparr>)"

definition sign_in_step :: "sign_in_event \<Rightarrow> sign_in \<Rightarrow> sign_in" where
  "sign_in_step e s = prompt_effect s (form_effect s (sign_in_outside e s))"

text \<open>The two effects leave these parts of the state alone.\<close>

lemma step_fields:
  "si_job (sign_in_step e s) = si_job (sign_in_outside e s)" "si_calls (sign_in_step e s) = si_calls (sign_in_outside e s)"
  "si_effects (sign_in_step e s) = si_effects (sign_in_outside e s)" "si_mounted (sign_in_step e s) = si_mounted (sign_in_outside e s)"
  by (simp_all add: sign_in_step_def prompt_effect_def form_effect_def)

section \<open>Invariants of the page\<close>

text \<open>
  Timers run on time in \<open>punctual\<close> runs: once one is due, nothing else happens before it fires. The lock then
  has at most one timer, which ends it, and an attempt with the password only runs without one.
\<close>

definition timer_due :: "sign_in \<Rightarrow> bool" where
  "timer_due s \<longleftrightarrow> (\<exists>t \<in> set (si_timers s). t \<le> si_clock s)"

fun is_timer :: "sign_in_event \<Rightarrow> bool" where
  "is_timer (LockoutTimer _) \<longleftrightarrow> True"
| "is_timer _ \<longleftrightarrow> False"

fun punctual :: "sign_in_event list \<Rightarrow> sign_in \<Rightarrow> bool" where
  "punctual [] s \<longleftrightarrow> True"
| "punctual (e # es) s \<longleftrightarrow> (timer_due s \<longrightarrow> is_timer e) \<and> punctual es (sign_in_step e s)"

definition lock_inv :: "sign_in \<Rightarrow> bool" where
  "lock_inv s \<longleftrightarrow> si_now s \<le> si_clock s \<and> (si_timers s = [] \<or> si_timers s = [si_lockedUntil s]) \<and>
     (\<forall>j. si_job s = Some j \<longrightarrow> si_loading s \<and> sj_attempts j = si_attempts s \<and> (sj_kind j \<noteq> ByBiometric \<longrightarrow> si_timers s = []))"

text \<open>A page locked until \<open>D\<close> runs no attempt with the password before.\<close>

definition locked_to :: "nat \<Rightarrow> sign_in \<Rightarrow> bool" where
  "locked_to D s \<longleftrightarrow> D \<le> si_clock s \<or> si_lockedUntil s = D \<and> (\<forall>j. si_job s = Some j \<longrightarrow> sj_kind j = ByBiometric)"

definition same_lock :: "sign_in \<Rightarrow> sign_in \<Rightarrow> bool" where
  "same_lock s t \<longleftrightarrow> si_now t = si_now s \<and> si_clock t = si_clock s \<and> si_timers t = si_timers s \<and>
     si_lockedUntil t = si_lockedUntil s \<and> si_job t = si_job s \<and> si_loading t = si_loading s \<and> si_attempts t = si_attempts s"

lemma same_lock_inv: "same_lock s t \<Longrightarrow> lock_inv s \<Longrightarrow> lock_inv t"
  by (simp add: same_lock_def lock_inv_def)

lemma same_lock_to: "same_lock s t \<Longrightarrow> locked_to D s \<Longrightarrow> locked_to D t"
  by (simp add: same_lock_def locked_to_def)

lemma same_lock_both: "same_lock s t \<Longrightarrow> lock_inv s \<and> locked_to D s \<Longrightarrow> lock_inv t \<and> locked_to D t"
  by (blast intro: same_lock_inv same_lock_to)

lemma same_lock_refl [simp]: "same_lock s s"
  by (simp add: same_lock_def)

lemma same_lock_basics [simp]:
  "same_lock s (complain_login m s)" "same_lock s (affect es s)" "same_lock s (leave_login r s)" "same_lock s (login_called c s)"
  by (simp_all add: same_lock_def complain_login_def affect_def leave_login_def login_called_def)

lemma same_lock_trans: "same_lock s t \<Longrightarrow> same_lock t u \<Longrightarrow> same_lock s u"
  by (simp add: same_lock_def)

lemma same_lock_begin: "same_lock s (begin_start s)"
  by (auto simp: begin_start_def same_lock_def leave_login_def affect_def split: option.split)

lemma same_lock_start: "same_lock s (resume_start stage ans s)"
  by (auto simp: resume_start_def find_vault_def begin_start_def same_lock_def leave_login_def affect_def login_called_def Let_def
      split: start_stage.split start_answer.split bool.split sum.split list.split option.split)

lemma same_lock_prompt: "same_lock s (prompt_effect old s)"
  by (simp add: prompt_effect_def same_lock_def)

lemma same_lock_form: "same_lock s (form_effect old s)"
  by (simp add: form_effect_def same_lock_def Let_def)

lemma same_lock_recovery: "same_lock s (resume_recovery i ans s)" "same_lock s (submit_recovery s)"
  by (cases ans) (simp_all add: resume_recovery_def submit_recovery_def drop_run_def leave_login_def affect_def login_called_def
      same_lock_def Let_def)

lemma same_lock_effects: "same_lock s (prompt_effect old (form_effect old s))"
  by (rule same_lock_trans [OF same_lock_form same_lock_prompt])

lemma usable_no_timer:
  assumes "lock_inv s" and "\<not> timer_due s" and "usable s"
  shows "si_timers s = [] \<and> si_job s = None \<and> si_lockedUntil s \<le> si_clock s"
  using assms by (auto simp: lock_inv_def timer_due_def usable_def locked_out_def)

text \<open>What an attempt does to the lock.\<close>

lemma lock_start:
  assumes "lock_inv s" and "\<not> si_loading s" and "locked_to D s" and "kind = ByBiometric \<or> si_timers s = [] \<and> si_lockedUntil s \<le> si_clock s"
  shows "lock_inv (start_job kind p s) \<and> locked_to D (start_job kind p s)"
  using assms by (auto simp: lock_inv_def locked_to_def start_job_def)

lemma lock_biometric:
  assumes "lock_inv s \<and> locked_to D s" and "\<not> si_loading s"
  shows "lock_inv (handleUnlockBiometric s) \<and> locked_to D (handleUnlockBiometric s)"
  using assms by (auto simp: handleUnlockBiometric_def start_job_def lock_inv_def locked_to_def split: option.split)

lemma lock_hardware:
  assumes both: "lock_inv s \<and> locked_to D s" and due: "\<not> timer_due s" and u: "usable s"
  shows "lock_inv (handleHardwareUnlock s) \<and> locked_to D (handleHardwareUnlock s)"
proof -
  let ?s = "s\<lparr>si_error := None\<rparr>"
  have free: "si_timers s = []" "si_lockedUntil s \<le> si_clock s" using usable_no_timer [of s] both due u by auto
  have both': "lock_inv ?s \<and> locked_to D ?s" using both by (simp add: lock_inv_def locked_to_def)
  have "lock_inv (start_job ByHardware p ?s) \<and> locked_to D (start_job ByHardware p ?s)" for p
    using lock_start [of ?s D ByHardware p] both' free u by (simp add: usable_def)
  moreover have "lock_inv (complain_login m ?s) \<and> locked_to D (complain_login m ?s)" for m
    using same_lock_both [OF _ both'] same_lock_basics by blast
  ultimately show ?thesis using both' unfolding handleHardwareUnlock_def Let_def by (simp split: option.split)
qed

lemma lock_failed_password:
  assumes "si_timers s = []" and "si_now s \<le> si_clock s" and "si_job s = None" and "locked_to D s" and "si_lockedUntil s \<le> si_clock s"
  shows "lock_inv (password_failed n e s) \<and> locked_to D (password_failed n e s)"
  using assms by (auto simp: password_failed_def Let_def lock_until_def complain_login_def lock_inv_def locked_to_def)

lemma lock_submit:
  assumes both: "lock_inv s \<and> locked_to D s" and due: "\<not> timer_due s" and u: "usable s"
  shows "lock_inv (handleSubmit uuid s) \<and> locked_to D (handleSubmit uuid s)"
proof -
  let ?s = "s\<lparr>si_error := None\<rparr>"
  have free: "si_timers s = []" "si_job s = None" "si_lockedUntil s \<le> si_clock s"
    using usable_no_timer [of s] both due u by auto
  have both': "lock_inv ?s \<and> locked_to D ?s" using both by (simp add: lock_inv_def locked_to_def)
  have hw: "lock_inv (handleHardwareUnlock ?s) \<and> locked_to D (handleHardwareUnlock ?s)"
    by (rule lock_hardware [OF both']) (use due u in \<open>simp_all add: timer_due_def usable_def locked_out_def\<close>)
  have start: "lock_inv (start_job ByPassword p ?s) \<and> locked_to D (start_job ByPassword p ?s)" for p
    using lock_start [of ?s D ByPassword p] both' free u by (simp add: usable_def)
  have bad: "lock_inv (complain_login m ?s) \<and> locked_to D (complain_login m ?s)"
    "lock_inv (leave_login r ?s) \<and> locked_to D (leave_login r ?s)" for m r
    using same_lock_both [OF _ both'] same_lock_basics by blast+
  have failed: "lock_inv (password_failed n e ?s) \<and> locked_to D (password_failed n e ?s)" for n e
    by (rule lock_failed_password) (use both' free in \<open>simp_all add: lock_inv_def\<close>)
  have "si_job (password_failed n e ?s) = None" for n e
    using free by (simp add: password_failed_def Let_def lock_until_def complain_login_def)
  with failed have failed': "lock_inv ((password_failed n e ?s)\<lparr>si_loading := b\<rparr>) \<and> locked_to D ((password_failed n e ?s)\<lparr>si_loading := b\<rparr>)" for n e b
    by (simp add: lock_inv_def locked_to_def)
  have finished: "lock_inv (sign_in_done k v r ?s) \<and> locked_to D (sign_in_done k v r ?s)" for k v r
    using both' by (auto simp: sign_in_done_def leave_login_def affect_def lock_inv_def locked_to_def)
  show ?thesis
    unfolding handleSubmit_def Let_def using hw start bad failed' finished
    by (simp split: option.split sum.split)
qed

lemma lock_failed:
  assumes "lock_inv s \<and> locked_to D s" and "si_job s = Some j"
  shows "lock_inv (sign_in_failed j e s) \<and> locked_to D (sign_in_failed j e s)"
  using assms
  by (cases "sj_kind j")
    (auto simp: sign_in_failed_def password_failed_def hardware_failed_def biometric_failed_def lock_until_def complain_login_def
      lock_inv_def locked_to_def Let_def)

lemma lock_go_on:
  assumes "lock_inv s \<and> locked_to D s" and "si_job s = Some j"
  shows "lock_inv (go_on j st c s) \<and> locked_to D (go_on j st c s)"
  using assms by (auto simp: go_on_def login_called_def lock_inv_def locked_to_def)

lemma lock_settle:
  assumes "lock_inv s \<and> locked_to D s"
  shows "lock_inv (settle_sign_in ans s) \<and> locked_to D (settle_sign_in ans s)"
proof (cases "si_job s")
  case (Some j)
  have "lock_inv (vault_opened j i s) \<and> locked_to D (vault_opened j i s)" for i
    using assms lock_failed [OF assms Some]
    by (auto simp: vault_opened_def sign_in_done_def leave_login_def affect_def lock_inv_def locked_to_def split: sum.split)
  then show ?thesis
    using assms Some lock_failed [OF assms Some] lock_go_on [OF assms Some]
    by (cases ans; cases "sj_stage j")
      (simp_all add: settle_sign_in_def native_ready_def challenge_got_def split: sign_in_kind.split option.split)
qed (simp add: settle_sign_in_def assms)

lemma lock_handle:
  assumes both: "lock_inv s \<and> locked_to D s" and due: "timer_due s \<longrightarrow> is_timer e" and timer: "si_autoTimer s \<longrightarrow> \<not> si_loading s"
  shows "lock_inv (sign_in_handle e s) \<and> locked_to D (sign_in_handle e s)"
proof -
  note same = same_lock_both [OF _ both]
  have bio: "lock_inv (handleUnlockBiometric t) \<and> locked_to D (handleUnlockBiometric t)"
    if "same_lock s t" "\<not> si_loading s" for t
    by (rule lock_biometric) (use same [OF that(1)] that in \<open>auto simp: same_lock_def\<close>)
  show ?thesis
  proof (cases e)
    case (SubmitMaster uuid)
    then show ?thesis using both due lock_submit [OF both, of uuid] by auto
  next
    case SubmitHardware
    then show ?thesis using both due lock_hardware [OF both] by auto
  next
    case PressBiometric
    then show ?thesis using both bio [of s] by simp
  next
    case SwitchToBiometric
    then show ?thesis using both bio [of "s\<lparr>si_error := None, si_view := BiometricView\<rparr>"] by (simp add: usable_def same_lock_def)
  next
    case (Visibility b)
    have "lock_inv (s\<lparr>si_visible := b\<rparr>) \<and> locked_to D (s\<lparr>si_visible := b\<rparr>)" by (rule same) (simp add: same_lock_def)
    then show ?thesis
      using Visibility bio [of "s\<lparr>si_visible := b, si_autoBio := True\<rparr>"]
      by (cases b) (simp_all add: Let_def wants_prompt_def same_lock_def)
  next
    case AutoBiometric
    then show ?thesis using bio [of "s\<lparr>si_autoTimer := False\<rparr>"] both timer by (simp add: same_lock_def)
  next
    case Tick
    then show ?thesis using both by (auto simp: lock_inv_def locked_to_def)
  next
    case RecoverySubmit
    then show ?thesis using both same [OF same_lock_recovery(2)] by simp
  next
    case BackToVaults
    then show ?thesis by (auto intro!: same simp: same_lock_def leave_login_def affect_def)
  next
    case BrowseKeyFile
    then show ?thesis using both by (auto intro!: same simp: same_lock_def login_called_def)
  qed (use both in \<open>auto intro!: same simp: same_lock_def clears_error_def Let_def\<close>)
qed

text \<open>The prompt's timer only runs while the page is there and idle.\<close>

definition timer_idle :: "sign_in \<Rightarrow> bool" where
  "timer_idle s \<longleftrightarrow> (si_autoTimer s \<longrightarrow> si_mounted s \<and> \<not> si_loading s)"

lemma auto_basics [simp]:
  "si_autoTimer (complain_login m s) = si_autoTimer s" "si_autoTimer (affect es s) = si_autoTimer s"
  "si_autoTimer (login_called c s) = si_autoTimer s" "si_autoTimer (leave_login r s) = False"
  "si_mounted (complain_login m s) = si_mounted s" "si_mounted (affect es s) = si_mounted s"
  "si_mounted (login_called c s) = si_mounted s" "si_mounted (leave_login r s) = False"
  "si_autoTimer (start_job k p s) = si_autoTimer s" "si_mounted (start_job k p s) = si_mounted s"
  by (simp_all add: complain_login_def affect_def login_called_def leave_login_def start_job_def)

lemma auto_timer_only:
  "si_autoTimer (sign_in_outside e s) \<Longrightarrow> si_autoTimer s \<and> si_mounted (sign_in_outside e s) = si_mounted s"
proof -
  define R where "R t u \<longleftrightarrow> (si_autoTimer u \<longrightarrow> si_autoTimer t \<and> si_mounted u = si_mounted t)" for t u :: sign_in
  have failed: "R s (sign_in_failed j x s)" for j x
    by (cases "sj_kind j") (simp_all add: R_def sign_in_failed_def password_failed_def hardware_failed_def biometric_failed_def
        lock_until_def Let_def)
  have opened: "R s (vault_opened j i s)" for j i
    using failed by (simp add: vault_opened_def sign_in_done_def R_def split: sum.split)
  have goon: "R s (go_on j st c s)" for j st c by (simp add: R_def go_on_def)
  have settle: "R s (settle_sign_in ans s)" for ans
  proof (cases "si_job s")
    case (Some j)
    then show ?thesis using failed opened goon
      by (cases ans; cases "sj_stage j")
        (simp_all add: settle_sign_in_def native_ready_def challenge_got_def R_def split: sign_in_kind.split option.split)
  qed (simp add: settle_sign_in_def R_def)
  have start: "R s (resume_start st ans s)" for st ans
    by (auto simp: R_def resume_start_def find_vault_def begin_start_def Let_def
        split: start_stage.split start_answer.split bool.split sum.split list.split option.split)
  have hw: "R t (handleHardwareUnlock t)" for t
    by (simp add: R_def handleHardwareUnlock_def Let_def split: option.split)
  have submit: "R s (handleSubmit uuid s)" for uuid
    using hw [of "s\<lparr>si_error := None\<rparr>"]
    by (simp add: R_def handleSubmit_def Let_def sign_in_done_def password_failed_def lock_until_def split: option.split sum.split)
  have bio: "R t (handleUnlockBiometric t)" for t by (simp add: R_def handleUnlockBiometric_def split: option.split)
  have refl: "R s s" by (simp add: R_def)
  have recover: "R s (resume_recovery i ans s)" "R s (submit_recovery s)" for i ans
    by (cases ans; simp add: R_def resume_recovery_def submit_recovery_def drop_run_def Let_def)+
  have handle: "R s (sign_in_handle e s)"
  proof (cases e)
    case SwitchToBiometric
    then show ?thesis using bio [of "s\<lparr>si_error := None, si_view := BiometricView\<rparr>"] by (simp add: R_def)
  next
    case (Visibility b)
    then show ?thesis using bio [of "s\<lparr>si_visible := b, si_autoBio := True\<rparr>"] by (simp add: R_def Let_def)
  next
    case AutoBiometric
    then show ?thesis using bio [of "s\<lparr>si_autoTimer := False\<rparr>"] refl by (simp add: R_def)
  next
    case (SubmitMaster uuid)
    then show ?thesis using submit refl by simp
  next
    case SubmitHardware
    then show ?thesis using hw refl by simp
  next
    case RecoverySubmit
    then show ?thesis using recover(2) refl by simp
  next
    case PressBiometric
    then show ?thesis using bio refl by simp
  qed (simp_all add: R_def Let_def clears_error_def)
  have "R s (sign_in_outside e s)"
  proof (cases e)
    case (SettleStart ans)
    then show ?thesis using start refl by (simp split: option.split)
  next
    case (SettleSignIn ans)
    then show ?thesis using settle by simp
  next
    case (SettleRecovery i ans)
    then show ?thesis using recover(1) refl by simp
  next
    case (LockoutTimer i)
    then show ?thesis by (simp add: R_def)
  next
    case (Elapse d)
    then show ?thesis by (simp add: R_def)
  qed (use handle refl in simp_all)
  then show "si_autoTimer (sign_in_outside e s) \<Longrightarrow> si_autoTimer s \<and> si_mounted (sign_in_outside e s) = si_mounted s"
    by (simp add: R_def)
qed

lemma timer_idle_step: "timer_idle s \<Longrightarrow> timer_idle (sign_in_step e s)"
  using auto_timer_only [of e s]
  by (auto simp: timer_idle_def sign_in_step_def form_effect_def prompt_effect_def prompt_deps_def wants_prompt_def Let_def)

lemma timer_idle_mount: "timer_idle (mount_sign_in tauri clock v recent vis)"
  by (simp add: mount_sign_in_def begin_start_def timer_idle_def split: option.split)

interpretation login_timer: invariant_machine sign_in_step timer_idle
  by unfold_locales (rule timer_idle_step)

lemma lock_step:
  assumes "lock_inv s \<and> locked_to D s" and "timer_due s \<longrightarrow> is_timer e" and "timer_idle s"
  shows "lock_inv (sign_in_step e s) \<and> locked_to D (sign_in_step e s)"
proof -
  have other: "lock_inv (if si_mounted s then sign_in_handle f s else s) \<and> locked_to D (if si_mounted s then sign_in_handle f s else s)"
    if "f = e" for f
    using that lock_handle [OF assms(1,2)] assms(1,3) by (simp add: timer_idle_def)
  have "lock_inv (sign_in_outside e s) \<and> locked_to D (sign_in_outside e s)"
  proof (cases e)
    case (LockoutTimer i)
    then show ?thesis using assms(1) by (auto simp: lock_inv_def locked_to_def)
  next
    case (SettleStart ans)
    then show ?thesis using assms same_lock_both [OF same_lock_start assms(1)] by (simp split: option.split)
  next
    case (SettleSignIn ans)
    then show ?thesis using lock_settle [OF assms(1), of ans] by simp
  next
    case (SettleRecovery i ans)
    then show ?thesis using assms(1) same_lock_both [OF same_lock_recovery(1) assms(1)] by simp
  next
    case (Elapse d)
    then show ?thesis using assms(1) by (auto simp: lock_inv_def locked_to_def)
  qed (simp_all only: sign_in_outside.simps other)
  then show ?thesis unfolding sign_in_step_def by (rule same_lock_both [OF same_lock_effects])
qed

lemma lock_run:
  assumes "punctual es s" and "lock_inv s \<and> locked_to D s" and "timer_idle s"
  shows "lock_inv (run sign_in_step es s) \<and> locked_to D (run sign_in_step es s)"
  using assms
proof (induction es arbitrary: s)
  case (Cons e es)
  then show ?case using lock_step [of s D e] timer_idle_step [of s e] by simp
qed simp

lemma lock_inv_mount: "lock_inv (mount_sign_in tauri clock v recent vis)"
proof -
  have "lock_inv s \<Longrightarrow> lock_inv (begin_start s)" for s by (rule same_lock_inv [OF same_lock_begin])
  then show ?thesis unfolding mount_sign_in_def by (simp add: lock_inv_def)
qed

lemma punctual_append: "punctual (es @ fs) s \<longleftrightarrow> punctual es s \<and> punctual fs (run sign_in_step es s)"
  by (induction es arbitrary: s) auto

section \<open>The lockout is waited for\<close>

lemma recovery_job [simp]: "si_job (submit_recovery s) = si_job s" "si_job (resume_recovery i ans s) = si_job s"
  using same_lock_recovery by (simp_all add: same_lock_def)

lemma starts_usable:
  assumes "si_job s = None" and "si_job (sign_in_step e s) = Some j" and "sj_kind j \<noteq> ByBiometric"
  shows "usable s"
proof -
  have "si_job (sign_in_outside e s) = Some j" using assms(2) by (simp add: step_fields)
  then show ?thesis
    using assms(1,3)
    by (cases e)
      (auto simp: settle_sign_in_def handleUnlockBiometric_def start_job_def Let_def clears_error_def leave_login_def affect_def
        login_called_def resume_start_def find_vault_def begin_start_def
        split: if_splits option.splits start_stage.splits start_answer.splits bool.splits sum.splits list.splits)
qed

lemma failed_attempt:
  assumes "si_job s = Some j" and "sj_kind j = ByPassword" and "\<not> needs_hardware e" and "lock_inv s"
    and "t = sign_in_step (SettleSignIn (SignInFailed e)) s"
  shows "si_attempts t = Suc (si_attempts s)" and "lock_inv t"
    and "locked_to (si_clock s + lockout_delay (Suc (si_attempts s))) t"
proof -
  let ?u = "settle_sign_in (SignInFailed e) s" and ?D = "si_clock s + lockout_delay (Suc (si_attempts s))"
  have j: "sj_attempts j = si_attempts s" "si_timers s = []" using assms(1,2,4) by (auto simp: lock_inv_def)
  have u: "?u = (password_failed (si_attempts s) e s)\<lparr>si_loading := False, si_job := None\<rparr>"
    using assms(1,2) j by (simp add: settle_sign_in_def sign_in_failed_def)
  have "si_attempts ?u = Suc (si_attempts s)" "lock_inv ?u" "locked_to ?D ?u"
    unfolding u using assms(3,4) j
    by (auto simp: password_failed_def Let_def lock_until_def complain_login_def lock_inv_def locked_to_def)
  moreover have "t = prompt_effect s (form_effect s ?u)" using assms(5) by (simp add: sign_in_step_def)
  then have "same_lock ?u t" using same_lock_effects by simp
  ultimately show "si_attempts t = Suc (si_attempts s)" "lock_inv t" "locked_to ?D t"
    using same_lock_inv [of ?u t] same_lock_to [of ?u t] by (simp_all add: same_lock_def)
qed

text \<open>
  Claim C4. After a refused master password the page waits: when the attempt was the n-th refused one, no attempt with the
  password or the security key starts before the n-th delay of the table has passed, whatever is typed, clicked, shown
  and answered in between, as long as the page stays mounted and its timers fire on time. (Going back to the list of
  vaults and choosing the vault again mounts a new page, with no attempt counted: \<open>lockout_forgotten\<close>.)
\<close>

theorem lockout_enforced:
  assumes "s = run sign_in_step es (mount_sign_in tauri clock vault recent visible)"
    and "si_job s = Some j" and "sj_kind j = ByPassword" and "\<not> needs_hardware e"
    and "s' = sign_in_step (SettleSignIn (SignInFailed e)) s" and "t = run sign_in_step fs s'"
    and "punctual (es @ SettleSignIn (SignInFailed e) # fs @ [f]) (mount_sign_in tauri clock vault recent visible)"
    and "si_job t = None" and "si_job (sign_in_step f t) = Some k" and "sj_kind k \<noteq> ByBiometric"
  shows "si_attempts s' = Suc (si_attempts s) \<and> si_clock s + lockout_delay (si_attempts s') \<le> si_clock t"
proof -
  let ?m = "mount_sign_in tauri clock vault recent visible" and ?D = "si_clock s + lockout_delay (Suc (si_attempts s))"
  have p: "punctual es ?m" "punctual fs s'" "timer_due t \<longrightarrow> is_timer f"
    using assms(1,5,6,7) by (simp_all add: punctual_append)
  have "lock_inv ?m \<and> locked_to 0 ?m" by (simp add: lock_inv_mount locked_to_def)
  then have inv: "lock_inv s" using lock_run [OF p(1) _ timer_idle_mount] assms(1) by blast
  note fail = failed_attempt [OF assms(2,3,4) inv assms(5)]
  have idle: "timer_idle s'" "timer_idle t"
    using login_timer.run_inv [OF timer_idle_mount] timer_idle_step login_timer.run_inv assms(1,5,6) by metis+
  have t: "lock_inv t \<and> locked_to ?D t" using lock_run [OF p(2) _ idle(1)] fail assms(6) by blast
  have u: "usable t" by (rule starts_usable [OF assms(8,9,10)])
  have "\<not> is_timer f" using assms(8,9) by (cases f) (auto simp: step_fields split: if_splits)
  then have "si_lockedUntil t \<le> si_clock t" using usable_no_timer [of t] t u p(3) by blast
  then show ?thesis using t fail(1) by (auto simp: locked_to_def)
qed

definition demo_login :: sign_in where
  "demo_login = mount_sign_in True 1000 (Some \<lparr>va_id = ''v'', va_name = ''Home'', va_path = ''/v''\<rparr>) (Inr []) True"

definition refused :: "sign_in_event list" where
  "refused = [TypePassword ''guess'', SubmitMaster ''u'', SettleSignIn NativeReady, SettleSignIn (SignInFailed ''InvalidPassword'')]"

lemmas login_eval = demo_login_def refused_def mount_sign_in_def begin_start_def sign_in_step_def prompt_effect_def form_effect_def form_shown_def prompt_deps_def
  wants_prompt_def usable_def locked_out_def handleSubmit_def start_job_def given_key_file_def settle_sign_in_def native_ready_def
  go_on_def login_called_def sign_in_failed_def password_failed_def lock_until_def complain_login_def lockout_delay_def
  LOCKOUT_DELAYS_def Let_def

lemma refused_text: "\<not> needs_hardware ''InvalidPassword''"
  by code_simp

theorem lockout_enforced_witness:
  "let s = run sign_in_step (refused @ refused @ take 3 refused) demo_login;
       s' = sign_in_step (SettleSignIn (SignInFailed ''InvalidPassword'')) s;
       t = run sign_in_step [Elapse 5000, LockoutTimer 0, TypePassword ''right''] s'
   in si_attempts s' = 3 \<and> si_clock t = 6000 \<and> si_job (sign_in_step (SubmitMaster ''u'') t) \<noteq> None \<and>
      si_clock s + lockout_delay (si_attempts s') \<le> si_clock t"
proof -
  let ?es = "refused @ refused @ take 3 refused" and ?fs = "[Elapse 5000, LockoutTimer 0, TypePassword ''right'']"
  let ?f = "SubmitMaster ''u''" and ?x = "SettleSignIn (SignInFailed ''InvalidPassword'')"
  let ?s = "run sign_in_step ?es demo_login"
  let ?s' = "sign_in_step ?x ?s"
  let ?t = "run sign_in_step ?fs ?s'"
  have three: "si_attempts ?s' = 3" "si_clock ?t = 6000"
    by (simp_all add: login_eval refused_text)
  obtain j where j: "si_job ?s = Some j" "sj_kind j = ByPassword"
    by (simp add: login_eval refused_text)
  obtain k where k: "si_job ?t = None" "si_job (sign_in_step ?f ?t) = Some k" "sj_kind k \<noteq> ByBiometric"
    by (simp add: login_eval refused_text)
  have "punctual (?es @ ?x # ?fs @ [?f]) demo_login"
    by (simp add: login_eval refused_text timer_due_def)
  then have "si_clock ?s + lockout_delay (si_attempts ?s') \<le> si_clock ?t"
    using lockout_enforced [OF _ j refused_text refl refl _ k] unfolding demo_login_def by blast
  with three k show ?thesis by (simp only: Let_def) simp
qed

section \<open>Unlocking\<close>




























definition demo_info :: vault_info where
  "demo_info = \<lparr>vi_id = ''v'', vi_name = ''Home'', vi_path = ''/v'', vi_entry_count = 3, vi_last_opened = None\<rparr>"

lemmas opened_eval = demo_info_def vault_opened_def sign_in_done_def vault_of_def remember_recent_def leave_login_def affect_def


section \<open>Behaviours worth knowing\<close>

text \<open>
  If the stored list of recent vaults cannot be read, the right password is refused: the native side has opened the
  vault, and the page counts a failed attempt (lines 323 to 327 and 337 to 366).
\<close>

lemma unreadable_recents_refuse:
  "let s = run sign_in_step (take 3 refused @ [SettleSignIn (VaultOpened demo_info)]) (demo_login\<lparr>si_recent := Inl ''SyntaxError''\<rparr>)
   in OpenVaultBytes ''/v'' ''guess'' None \<in> set (si_calls s) \<and> si_effects s = [] \<and> si_attempts s = 1 \<and>
      si_error s = Some (Tr ''login.err_incorrect'' [])"
proof -
  have "\<not> needs_hardware ''SyntaxError''" by code_simp
  then show ?thesis by (simp add: login_eval opened_eval)
qed

text \<open>The lockout is state of the page: leaving it and coming back ends it.\<close>

lemma lockout_forgotten:
  "let s = run sign_in_step (refused @ refused @ refused) demo_login
   in locked_out s \<and> usable (mount_sign_in True (si_clock s) (si_vault s) (si_recent s) (si_visible s))"
  by (simp add: login_eval refused_text)

text \<open>
  Going back to the list of vaults does not end an attempt: its answer unlocks the application and opens it, whatever
  has been chosen since.
\<close>

lemma unlock_after_leaving:
  "si_effects (run sign_in_step (take 3 refused @ [BackToVaults, SettleSignIn (VaultOpened demo_info)]) demo_login) =
     [SetCurrentVault None, Navigate ''/'', SetCurrentVault (Some (vault_of demo_info)), SetUnlocked, Navigate ''/app'']"
  by (simp add: login_eval opened_eval)

text \<open>
  A biometric prompt that was asked for by hand and dismissed comes back by itself once, when it has not come up by itself
  before (lines 181 to 191).
\<close>

lemma dismissed_prompt_returns:
  "let s = run sign_in_step [SettleStart StartReady, SettleStart (StartBool True), SettleStart (StartBool True),
        SettleStart (DeviceInfo True ''Hello''), UseRecovery, RecoveryBack, SwitchToBiometric, SettleSignIn NativeReady,
        SettleSignIn (SignInFailed ''canceled''), AutoBiometric, SettleSignIn NativeReady] demo_login
   in filter (\<lambda>c. c = UnlockVaultBiometric ''/v'') (si_calls s) = [UnlockVaultBiometric ''/v'', UnlockVaultBiometric ''/v'']"
  by code_simp

text \<open>
  The refused attempts with the master password are counted without an end, they only wait longer; the sixth leaves the page saying that minus
  one attempt is left.
\<close>

lemma attempts_left_negative:
  assumes "\<not> needs_hardware e"
  shows "attempts_shown (password_failed 5 e s) = Some (- 1)" "lockout_delay (6 + n) = 30000"
  using assms by (simp_all add: attempts_shown_def password_failed_def MAX_ATTEMPTS_def Let_def lockout_delay_def LOCKOUT_DELAYS_def
      complain_login_def lock_until_def)

end
