(* ===== verification/Secret_Input.thy ===== *)
theory Secret_Input
  imports Vault_Prelude "HOL-Library.Word"
begin

text \<open>
  The field secrets are typed in: \<open>components/ui/SecureSecretInput.tsx\<close>. It mirrors its text as UTF-8 in a byte
  buffer that its owner reads and clears. Buffers that have been replaced, and the arrays the encoder
  returned, are kept in the state (\<open>sc_dropped\<close>): they stay in memory until they are collected. The text shown
  in the browser's own input is left out. Text is Latin-1, as
  everywhere in this development, so a character takes one or two bytes.
\<close>

type_synonym bytes = "8 word list"

section \<open>The encoder\<close>

definition utf8_char :: "char \<Rightarrow> bytes" where
  "utf8_char c =
     (let n = of_char c :: nat
      in if n < 128 then [word_of_nat n] else [word_of_nat (192 + n div 64), word_of_nat (128 + n mod 64)])"

definition encode :: "string \<Rightarrow> bytes" where
  "encode v = concat (map utf8_char v)"

fun decode :: "bytes \<Rightarrow> string" where
  "decode [] = []"
| "decode (b # bs) =
     (if unat b < 128 then char_of (unat b) # decode bs
      else case bs of
             [] \<Rightarrow> []
           | c # cs \<Rightarrow> char_of ((unat b - 192) * 64 + (unat c - 128)) # decode cs)"

section \<open>The field\<close>

definition fresh_buffer :: "nat \<Rightarrow> bytes" where
  "fresh_buffer n = replicate n 0"

record secret_input =
  sc_mounted :: bool
  sc_buffer :: bytes
  sc_length :: nat
  sc_value :: "string option"
  sc_dropped :: "bytes list"

definition mount_secret :: "string option \<Rightarrow> secret_input" where
  "mount_secret v = \<lparr>sc_mounted = True, sc_buffer = fresh_buffer 256, sc_length = 0, sc_value = v, sc_dropped = []\<rparr>"

text \<open>\<open>fill(0)\<close> and \<open>set\<close> of a typed array.\<close>

definition zeros_for :: "bytes \<Rightarrow> bytes" where
  "zeros_for b = fresh_buffer (length b)"

definition set_bytes :: "bytes \<Rightarrow> bytes \<Rightarrow> bytes" where
  "set_bytes new b = new @ drop (length new) b"

text \<open>
  The bytes of a text replace the content: the buffer is cleared first, and one that is too small is replaced by
  one with room to grow. The encoder's array is cleared when it has been copied.
\<close>

definition store_text :: "string \<Rightarrow> secret_input \<Rightarrow> secret_input" where
  "store_text v s =
     (let encoded = encode v; cleared = zeros_for (sc_buffer s)
      in if length encoded \<le> length cleared
         then s\<lparr>sc_buffer := set_bytes encoded cleared, sc_length := length encoded,
                sc_dropped := sc_dropped s @ [zeros_for encoded]\<rparr>
         else s\<lparr>sc_buffer := set_bytes encoded (fresh_buffer (length encoded + 64)), sc_length := length encoded,
                sc_dropped := sc_dropped s @ [cleared, zeros_for encoded]\<rparr>)"

definition handleInput :: "string \<Rightarrow> secret_input \<Rightarrow> secret_input" where
  "handleInput v s = store_text v s"

text \<open>The effect on the \<open>value\<close> the owner renders: it runs when the value is another one.\<close>

definition render_value :: "string option \<Rightarrow> secret_input \<Rightarrow> secret_input" where
  "render_value v s =
     (if v = sc_value s then s
      else case v of
             None \<Rightarrow> s\<lparr>sc_value := None\<rparr>
           | Some x \<Rightarrow> store_text x (s\<lparr>sc_value := v\<rparr>))"

definition getSecretBytes :: "secret_input \<Rightarrow> bytes" where
  "getSecretBytes s = take (sc_length s) (sc_buffer s)"

definition clearSecretBytes :: "secret_input \<Rightarrow> secret_input" where
  "clearSecretBytes s = s\<lparr>sc_buffer := zeros_for (sc_buffer s), sc_length := 0\<rparr>"

text \<open>The cleanup of the focus effect: when \<open>autoFocus\<close> changes and when the field goes.\<close>

definition cleanup_secret :: "secret_input \<Rightarrow> secret_input" where
  "cleanup_secret s = s\<lparr>sc_buffer := zeros_for (sc_buffer s), sc_length := 0\<rparr>"

definition first_effect :: "string option \<Rightarrow> secret_input \<Rightarrow> secret_input" where
  "first_effect v s = (case v of Some x \<Rightarrow> store_text x s | None \<Rightarrow> s)"

datatype secret_event = Input string | RenderValue "string option" | ClearSecret | FocusChanged | UnmountSecret

fun secret_handle :: "secret_event \<Rightarrow> secret_input \<Rightarrow> secret_input" where
  "secret_handle (Input v) s = handleInput v s"
| "secret_handle (RenderValue v) s = render_value v s"
| "secret_handle ClearSecret s = clearSecretBytes s"
| "secret_handle FocusChanged s = cleanup_secret s"
| "secret_handle UnmountSecret s = (cleanup_secret s)\<lparr>sc_mounted := False\<rparr>"

definition secret_step :: "secret_event \<Rightarrow> secret_input \<Rightarrow> secret_input" where
  "secret_step e s = (if sc_mounted s then secret_handle e s else s)"

definition open_secret :: "string option \<Rightarrow> secret_input" where
  "open_secret v = first_effect v (mount_secret v)"

section \<open>Reading back\<close>

lemma unat_byte: "k < 256 \<Longrightarrow> unat (word_of_nat k :: 8 word) = k"
  by (simp add: unat_of_nat)

lemma decode_char: "decode (utf8_char c @ bs) = c # decode bs"
proof -
  let ?n = "of_char c :: nat"
  have n: "?n < 256" using of_char_mod_256 [of c, where ?'a = nat] by (metis mod_less_divisor zero_less_numeral)
  show ?thesis
  proof (cases "?n < 128")
    case True
    then have "unat (word_of_nat ?n :: 8 word) = ?n" by (simp add: unat_of_nat)
    then show ?thesis using True by (simp add: utf8_char_def Let_def)
  next
    case False
    have small: "192 + ?n div 64 < 256" "128 + ?n mod 64 < 256" using n by linarith+
    define a b :: "8 word" where "a = word_of_nat (192 + ?n div 64)" and "b = word_of_nat (128 + ?n mod 64)"
    have ab: "unat a = 192 + ?n div 64" "unat b = 128 + ?n mod 64"
      unfolding a_def b_def by (rule unat_byte [OF small(1)], rule unat_byte [OF small(2)])
    have "utf8_char c = [a, b]" using False by (simp only: utf8_char_def Let_def a_def b_def if_False)
    moreover have "decode ([a, b] @ bs) = char_of (?n div 64 * 64 + ?n mod 64) # decode bs"
      by (simp only: append_Cons append_Nil decode.simps list.case ab) simp
    ultimately show ?thesis by simp
  qed
qed

lemma decode_encode: "decode (encode v) = v"
  by (induction v) (simp_all add: encode_def decode_char)

text \<open>The buffer holds the encoding of a text and zeros behind it; what has been dropped is zeros.\<close>

definition all_zero :: "bytes \<Rightarrow> bool" where
  "all_zero b \<longleftrightarrow> list_all (\<lambda>x. x = 0) b"

definition holds_text :: "string \<Rightarrow> secret_input \<Rightarrow> bool" where
  "holds_text v s \<longleftrightarrow> getSecretBytes s = encode v \<and> sc_length s \<le> length (sc_buffer s) \<and>
     all_zero (drop (sc_length s) (sc_buffer s)) \<and> list_all all_zero (sc_dropped s)"

lemma all_zero_fresh [simp]: "all_zero (fresh_buffer n)" "all_zero (zeros_for b)" "length (fresh_buffer n) = n"
  "length (zeros_for b) = length b" "drop k (fresh_buffer n) = fresh_buffer (n - k)" "drop k (zeros_for b) = fresh_buffer (length b - k)"
  by (simp_all add: all_zero_def fresh_buffer_def zeros_for_def list_all_iff)

lemma store_text_holds: "list_all all_zero (sc_dropped s) \<Longrightarrow> holds_text v (store_text v s)"
  by (auto simp: holds_text_def store_text_def getSecretBytes_def set_bytes_def Let_def)

lemma cleared_holds: "list_all all_zero (sc_dropped s) \<Longrightarrow> holds_text [] (cleanup_secret s)"
  by (simp add: holds_text_def cleanup_secret_def getSecretBytes_def encode_def)

text \<open>What the buffer is to hold after an event: the text of the last input or value, nothing after a clearing.\<close>

fun text_after :: "secret_event \<Rightarrow> secret_input \<Rightarrow> string \<Rightarrow> string" where
  "text_after (Input v) s t = v"
| "text_after (RenderValue v) s t = (case v of Some x \<Rightarrow> if v = sc_value s then t else x | None \<Rightarrow> t)"
| "text_after _ s t = []"

fun text_of_run :: "secret_event list \<Rightarrow> secret_input \<Rightarrow> string \<Rightarrow> string" where
  "text_of_run [] s t = t"
| "text_of_run (e # es) s t = text_of_run es (secret_step e s) (if sc_mounted s then text_after e s t else t)"

lemma holds_cong:
  "sc_buffer t = sc_buffer s \<Longrightarrow> sc_length t = sc_length s \<Longrightarrow> sc_dropped t = sc_dropped s \<Longrightarrow> holds_text v t = holds_text v s"
  by (simp add: holds_text_def getSecretBytes_def)

lemma holds_step:
  assumes "holds_text t s"
  shows "holds_text (if sc_mounted s then text_after e s t else t) (secret_step e s)"
proof -
  have drop: "list_all all_zero (sc_dropped s)" using assms by (simp add: holds_text_def)
  show ?thesis
  proof (cases "sc_mounted s")
    case True
    show ?thesis
    proof (cases e)
      case (Input v)
      then show ?thesis using True store_text_holds [OF drop, of v] by (simp add: secret_step_def handleInput_def)
    next
      case (RenderValue v)
      then show ?thesis
        using True assms store_text_holds [of "s\<lparr>sc_value := v\<rparr>" "the v"] drop
          holds_cong [of "s\<lparr>sc_value := None\<rparr>" s]
        by (cases v) (auto simp: secret_step_def render_value_def)
    next
      case ClearSecret
      then show ?thesis using True cleared_holds [OF drop] by (simp add: secret_step_def clearSecretBytes_def cleanup_secret_def)
    next
      case FocusChanged
      then show ?thesis using True cleared_holds [OF drop] by (simp add: secret_step_def)
    next
      case UnmountSecret
      then show ?thesis using True cleared_holds [OF drop] holds_cong [of "(cleanup_secret s)\<lparr>sc_mounted := False\<rparr>" "cleanup_secret s"]
        by (simp add: secret_step_def)
    qed
  qed (simp add: secret_step_def assms)
qed

lemma holds_run: "holds_text t s \<Longrightarrow> holds_text (text_of_run es s t) (run secret_step es s)"
proof (induction es arbitrary: s t)
  case (Cons e es)
  then show ?case using holds_step [of t s e] by simp
qed simp

lemma holds_open: "holds_text (case v of Some x \<Rightarrow> x | None \<Rightarrow> []) (open_secret v)"
  by (cases v) (simp_all add: open_secret_def first_effect_def store_text_holds mount_secret_def,
    simp add: holds_text_def getSecretBytes_def encode_def)

text \<open>
  Claim C25. The bytes a secret field hands out decode to the text it was given last (to nothing when it was cleared since), and
  no other byte of the secret remains: the rest of the buffer, every buffer it outgrew and every array the encoder
  made are zero, whatever has been typed, rendered and cleared, and in which order.
\<close>

theorem secret_bytes_exact:
  "decode (getSecretBytes (run secret_step es (open_secret v))) =
     text_of_run es (open_secret v) (case v of Some x \<Rightarrow> x | None \<Rightarrow> []) \<and>
   all_zero (drop (sc_length (run secret_step es (open_secret v))) (sc_buffer (run secret_step es (open_secret v)))) \<and>
   list_all all_zero (sc_dropped (run secret_step es (open_secret v)))"
  using holds_run [OF holds_open [of v], of es] by (simp add: holds_text_def decode_encode)

section \<open>A behaviour worth knowing\<close>

text \<open>
  Clearing the bytes does not tell the owner: a value that is rendered again unchanged is not stored again (the effect
  runs only for another value), so the owner still has it and is handed out nothing.
\<close>

lemma cleared_value_not_restored:
  assumes "sc_value s = Some v"
  shows "sc_value (run secret_step [ClearSecret, RenderValue (Some v)] s) = Some v"
    and "sc_mounted s \<Longrightarrow> getSecretBytes (run secret_step [ClearSecret, RenderValue (Some v)] s) = []"
  using assms by (simp_all add: secret_step_def clearSecretBytes_def render_value_def getSecretBytes_def)

end
