(* ===== verification/Entry_Detail.thy ===== *)
theory Entry_Detail
  imports Entry_Model Keybinds Entries_State
begin

text \<open>
  The pane that shows an entry: \<open>features/entries/components/PasswordDetail.tsx\<close>. What is shown of an entry, what a
  keyboard shortcut does, and the pane as a step function: revealed secrets, inline editing, and attachments with
  the cache of their bytes. The bytes are in a store of buffers, since the cache, the preview and a download refer to
  the same ones; a buffer remembers the attachment it was fetched for. A selected entry that is rendered is a
  new object, so every \<open>ShowEntry\<close> resets what depends on it. Left out: the markup, the display of
  one-time codes, the safety section, and the buttons that only forward (pin, favourite, tags, the dialog that deletes).
\<close>

section \<open>What is shown of an entry\<close>

definition activeStandard :: "bool \<Rightarrow> password_entry \<Rightarrow> string list" where
  "activeStandard editing e =
     filter (\<lambda>f. f \<noteq> ''passkey'' \<and> f \<noteq> ''attachments'' \<and>
              (editing \<or> trim (entry_text e f) \<noteq> [] \<and> entry_text e f \<noteq> mask \<and> entry_text e f \<noteq> has_totp_mark))
       (entryStandardFields e [])"

definition effectiveRecoveryCodes :: "password_entry \<Rightarrow> string option" where
  "effectiveRecoveryCodes e =
     (case pe_recoveryCodes e of
        Some codes \<Rightarrow>
          if trim codes \<noteq> [] then Some codes
          else let legacy = join_with nl (map (\<lambda>c. trim (cf_value c))
                 (filter (\<lambda>c. isRecoveryField (cf_name c) \<and> trim (cf_value c) \<noteq> []) (pe_customFields e)))
               in if legacy \<noteq> [] then Some legacy else None
      | None \<Rightarrow>
          let legacy = join_with nl (map (\<lambda>c. trim (cf_value c))
                 (filter (\<lambda>c. isRecoveryField (cf_name c) \<and> trim (cf_value c) \<noteq> []) (pe_customFields e)))
          in if legacy \<noteq> [] then Some legacy else None)"

definition displayCustomFields :: "bool \<Rightarrow> password_entry \<Rightarrow> custom_field list" where
  "displayCustomFields editing e =
     filter (\<lambda>c. cf_name c \<noteq> field_order_name \<and> \<not> isRecoveryField (cf_name c) \<and> (editing \<or> trim (cf_value c) \<noteq> []))
       (pe_customFields e)"

definition layoutOrder :: "bool \<Rightarrow> password_entry \<Rightarrow> string list" where
  "layoutOrder editing e =
     getFieldLayout (displayCustomFields editing e @ filter (\<lambda>c. cf_name c = field_order_name) (pe_customFields e))
       (activeStandard editing e)"

section \<open>Keyboard shortcuts\<close>

datatype copy_action =
    CopyEntryPassword string int
  | CopyEntryUsername string
  | CopyEntryTotp string int
  | CopyToClipboard string bool "int option"
  | WriteClipboardText string
  | CopyTotpOf string int

datatype detail_shortcut = CopyField string string copy_action | OpenEditor | AskDelete | OpenWebsite string

text \<open>What the handler reads of the page: an open panel or dialog, a selection, the focus.\<close>

record shortcut_env =
  se_tauri :: bool
  se_backend :: bool
  se_clearSeconds :: int
  se_keybinds :: "partial_keybinds option"
  se_panel :: bool
  se_dialog :: bool
  se_selection :: bool
  se_inputFocused :: bool

definition copy_text :: "shortcut_env \<Rightarrow> string \<Rightarrow> bool \<Rightarrow> copy_action" where
  "copy_text env v sensitive =
     (if se_backend env then CopyToClipboard v sensitive (if sensitive then Some (se_clearSeconds env) else None)
      else WriteClipboardText v)"

definition copy_password :: "shortcut_env \<Rightarrow> password_entry \<Rightarrow> detail_shortcut option" where
  "copy_password env e =
     (if \<not> se_selection env \<and> \<not> se_inputFocused env \<and> pe_password e \<noteq> []
      then Some (CopyField ''toast.copied_password'' ''toast.copy_failed''
             (if se_tauri env \<and> se_backend env then CopyEntryPassword (pe_id e) (se_clearSeconds env)
              else copy_text env (pe_password e) True))
      else None)"

definition copy_username :: "shortcut_env \<Rightarrow> password_entry \<Rightarrow> detail_shortcut option" where
  "copy_username env e =
     (if pe_username e \<noteq> []
      then Some (CopyField ''toast.copied_username'' ''toast.copy_failed''
             (if se_tauri env \<and> se_backend env then CopyEntryUsername (pe_id e) else copy_text env (pe_username e) False))
      else None)"

definition copy_url :: "shortcut_env \<Rightarrow> password_entry \<Rightarrow> detail_shortcut option" where
  "copy_url env e =
     (if pe_url e \<noteq> [] then Some (CopyField ''toast.copied_url'' ''toast.copy_failed'' (copy_text env (pe_url e) False)) else None)"

definition copy_totp :: "shortcut_env \<Rightarrow> password_entry \<Rightarrow> detail_shortcut option" where
  "copy_totp env e =
     (if truthy_str (pe_totpSecret e) \<and> se_backend env
      then Some (CopyField ''toast.copied_totp'' ''toast.totp_failed''
             (if se_tauri env then CopyEntryTotp (pe_id e) (se_clearSeconds env) else CopyTotpOf (the (pe_totpSecret e)) (se_clearSeconds env)))
      else None)"

definition shortcut_action :: "shortcut_env \<Rightarrow> keyboard_event \<Rightarrow> password_entry \<Rightarrow> detail_shortcut option" where
  "shortcut_action env ev e =
     (if se_panel env \<or> se_dialog env then None
      else let kb = getKeybinds (se_keybinds env); hit = (\<lambda>k. matchesShortcut ev (Some k))
           in if hit (kb_copyPassword kb) then copy_password env e
              else if hit (kb_copyUsername kb) then copy_username env e
              else if hit (kb_copyUrl kb) then copy_url env e
              else if hit (kb_copyTotp kb) then copy_totp env e
              else if hit (kb_editEntry kb) then Some OpenEditor
              else if hit (kb_deleteEntry kb) then Some AskDelete
              else if hit (kb_openUrl kb) then (if pe_url e \<noteq> [] then Some (OpenWebsite (pe_url e)) else None)
              else None)"

section \<open>The pane\<close>

text \<open>A buffer: the attachment its bytes were fetched for, and the bytes.\<close>

type_synonym buffer = "string \<times> nat list"

datatype detail_call =
    GetAttachmentData string string
  | SaveAttachmentDialog string
  | ExportAttachment string string string
  | DeleteAttachmentOf string string
  | SaveEntry password_entry
  | CopyCall copy_action
  | GenerateTotpOf string
  | OpenEditModal password_entry
  | OpenExternal string
  | DownloadBlob string "nat list"

text \<open>What a handler waits for, with the entry and the attachment it captured.\<close>

datatype detail_wait =
    WaitPrefetch string
  | WaitPreview attachment_info
  | WaitDownloadPath string attachment_info
  | WaitExportDone attachment_info
  | WaitDownloadData attachment_info
  | WaitDelete string
  | WaitPasskey
  | WaitSaveEdit
  | WaitTotp int
  | WaitCopy message toast_type "string option"

record entry_detail =
  ed_mounted :: bool
  ed_tauri :: bool
  ed_backend :: bool
  ed_selected :: "password_entry option"
  ed_editing :: bool
  ed_editData :: "password_entry option"
  ed_showPassword :: bool
  ed_showCustom :: "string list"
  ed_showRecovery :: bool
  ed_stats :: bool
  ed_delConfirm :: bool
  ed_previewAtt :: "attachment_info option"
  ed_previewData :: "nat option"
  ed_loadingPreview :: "string option"
  ed_activePreview :: "string option"
  ed_downloading :: "string option"
  ed_cache :: "(string, nat) omap"
  ed_store :: "buffer list"
  ed_saving :: bool
  ed_waits :: "detail_wait list"
  ed_calls :: "detail_call list"
  ed_toasts :: "(message \<times> toast_type) list"

definition mount_detail :: "bool \<Rightarrow> password_entry option \<Rightarrow> bool \<Rightarrow> entry_detail" where
  "mount_detail tauri e editing = \<lparr>ed_mounted = True, ed_tauri = tauri, ed_backend = False, ed_selected = e,
     ed_editing = editing, ed_editData = e,
     ed_showPassword = False, ed_showCustom = [], ed_showRecovery = False, ed_stats = False, ed_delConfirm = False,
     ed_previewAtt = None, ed_previewData = None, ed_loadingPreview = None, ed_activePreview = None, ed_downloading = None,
     ed_cache = [], ed_store = [], ed_saving = False, ed_waits = [], ed_calls = [], ed_toasts = []\<rparr>"

definition detail_called :: "detail_call \<Rightarrow> detail_wait \<Rightarrow> entry_detail \<Rightarrow> entry_detail" where
  "detail_called c w s = s\<lparr>ed_calls := ed_calls s @ [c], ed_waits := ed_waits s @ [w]\<rparr>"

definition detail_toast :: "message \<Rightarrow> toast_type \<Rightarrow> entry_detail \<Rightarrow> entry_detail" where
  "detail_toast m ty s = s\<lparr>ed_toasts := ed_toasts s @ [(m, ty)]\<rparr>"

definition detail_err :: "string \<Rightarrow> string \<Rightarrow> entry_detail \<Rightarrow> entry_detail" where
  "detail_err key e = detail_toast (Tr key [(''err'', e)]) ToastError"

subsection \<open>Buffers\<close>

definition zero_at :: "nat \<Rightarrow> buffer list \<Rightarrow> buffer list" where
  "zero_at a st = st[a := (fst (st ! a), map (\<lambda>_. 0) (snd (st ! a)))]"

definition zero_all :: "nat list \<Rightarrow> buffer list \<Rightarrow> buffer list" where
  "zero_all as st = fold zero_at as st"

text \<open>The cleanup of the cache: when another entry is shown, and when the pane goes.\<close>

definition wipe_cache :: "entry_detail \<Rightarrow> entry_detail" where
  "wipe_cache s = s\<lparr>ed_store := zero_all (map snd (ed_cache s)) (ed_store s), ed_cache := []\<rparr>"

definition cache_bytes :: "string \<Rightarrow> nat list \<Rightarrow> entry_detail \<Rightarrow> entry_detail" where
  "cache_bytes i bytes s = s\<lparr>ed_store := ed_store s @ [(i, bytes)], ed_cache := om_set i (length (ed_store s)) (ed_cache s)\<rparr>"

definition entry_id :: "entry_detail \<Rightarrow> string option" where
  "entry_id s = map_option pe_id (ed_selected s)"

subsection \<open>Another entry, another mode\<close>

text \<open>
  The state that is set during the render, when the entry or the mode is another one. \<open>ShowEntry\<close> is the render with
  another entry object; a render with the same object is no event here.
\<close>

definition reset_shown :: "entry_detail \<Rightarrow> entry_detail" where
  "reset_shown s = s\<lparr>ed_editData := ed_selected s, ed_showRecovery := False, ed_showPassword := False, ed_showCustom := [],
     ed_stats := (ed_selected s \<noteq> None)\<rparr>"

definition show_entry :: "password_entry option \<Rightarrow> entry_detail \<Rightarrow> entry_detail" where
  "show_entry e s =
     (let t = reset_shown (s\<lparr>ed_selected := e\<rparr>) in if map_option pe_id e \<noteq> entry_id s then wipe_cache t else t)"

definition set_editing :: "bool \<Rightarrow> entry_detail \<Rightarrow> entry_detail" where
  "set_editing b s = (if b = ed_editing s then s else reset_shown (s\<lparr>ed_editing := b\<rparr>))"

definition unmount_detail :: "entry_detail \<Rightarrow> entry_detail" where
  "unmount_detail s = (wipe_cache s)\<lparr>ed_mounted := False\<rparr>"

definition shown_data :: "entry_detail \<Rightarrow> password_entry option" where
  "shown_data s =
     (case ed_editData s of
        Some d \<Rightarrow> if ed_editing s \<and> Some (pe_id d) = entry_id s then Some d else ed_selected s
      | None \<Rightarrow> ed_selected s)"

subsection \<open>Attachments\<close>

definition handlePrefetchAttachment :: "attachment_info \<Rightarrow> entry_detail \<Rightarrow> entry_detail" where
  "handlePrefetchAttachment att s =
     (case ed_selected s of
        None \<Rightarrow> s
      | Some e \<Rightarrow>
          if \<not> ed_backend s \<or> at_size att > 256 * 1024 \<or> om_get (ed_cache s) (at_id att) \<noteq> None then s
          else detail_called (GetAttachmentData (pe_id e) (at_id att)) (WaitPrefetch (at_id att)) s)"

definition handlePreviewAttachment :: "attachment_info \<Rightarrow> entry_detail \<Rightarrow> entry_detail" where
  "handlePreviewAttachment att s =
     (case ed_selected s of
        None \<Rightarrow> s
      | Some e \<Rightarrow>
          if \<not> ed_backend s then s
          else let s = s\<lparr>ed_activePreview := Some (at_id att), ed_previewAtt := Some att\<rparr>
          in case om_get (ed_cache s) (at_id att) of
               Some a \<Rightarrow> s\<lparr>ed_previewData := Some a\<rparr>
             | None \<Rightarrow> detail_called (GetAttachmentData (pe_id e) (at_id att)) (WaitPreview att)
                         (s\<lparr>ed_previewData := None, ed_loadingPreview := Some (at_id att)\<rparr>))"

definition preview_answered :: "attachment_info \<Rightarrow> string + nat list \<Rightarrow> entry_detail \<Rightarrow> entry_detail" where
  "preview_answered att ans s =
     (if ed_activePreview s \<noteq> Some (at_id att) then s
      else (case ans of
              Inr bytes \<Rightarrow> cache_bytes (at_id att) bytes (s\<lparr>ed_previewData := Some (length (ed_store s))\<rparr>)
            | Inl e \<Rightarrow> detail_err ''toast.load_preview_failed'' e (s\<lparr>ed_previewAtt := None\<rparr>))\<lparr>ed_loadingPreview := None\<rparr>)"

definition handleClosePreview :: "entry_detail \<Rightarrow> entry_detail" where
  "handleClosePreview s =
     s\<lparr>ed_activePreview := None, ed_loadingPreview := None, ed_previewAtt := None, ed_previewData := None\<rparr>"

definition downloaded :: "attachment_info \<Rightarrow> entry_detail \<Rightarrow> entry_detail" where
  "downloaded att s =
     (detail_toast (Tr ''toast.downloaded_attachment'' [(''name'', at_name att)]) ToastSuccess s)\<lparr>ed_downloading := None\<rparr>"

definition handleDownloadAttachment :: "attachment_info \<Rightarrow> entry_detail \<Rightarrow> entry_detail" where
  "handleDownloadAttachment att s =
     (case ed_selected s of
        None \<Rightarrow> s
      | Some e \<Rightarrow>
          if \<not> ed_backend s then s
          else let s = s\<lparr>ed_downloading := Some (at_id att)\<rparr>
          in if ed_tauri s then detail_called (SaveAttachmentDialog (at_name att)) (WaitDownloadPath (pe_id e) att) s
             else case om_get (ed_cache s) (at_id att) of
                    Some a \<Rightarrow> downloaded att (s\<lparr>ed_calls := ed_calls s @ [DownloadBlob (at_name att) (snd (ed_store s ! a))]\<rparr>)
                  | None \<Rightarrow> detail_called (GetAttachmentData (pe_id e) (at_id att)) (WaitDownloadData att) s)"

text \<open>Bytes fetched for a download only are overwritten once they have been handed over.\<close>

definition download_answered :: "attachment_info \<Rightarrow> nat list \<Rightarrow> entry_detail \<Rightarrow> entry_detail" where
  "download_answered att bytes s =
     downloaded att (s\<lparr>ed_calls := ed_calls s @ [DownloadBlob (at_name att) bytes],
                       ed_store := zero_at (length (ed_store s)) (ed_store s @ [(at_id att, bytes)])\<rparr>)"

definition handleDeleteAttachment :: "bool \<Rightarrow> attachment_info \<Rightarrow> entry_detail \<Rightarrow> entry_detail" where
  "handleDeleteAttachment confirmed att s =
     (case ed_selected s of
        None \<Rightarrow> s
      | Some e \<Rightarrow> if confirmed then detail_called (DeleteAttachmentOf (pe_id e) (at_id att)) (WaitDelete (at_id att)) s else s)"

definition attachment_deleted :: "string \<Rightarrow> entry_detail \<Rightarrow> entry_detail" where
  "attachment_deleted i s =
     detail_toast (Tr ''toast.attachment_deleted'' []) ToastSuccess
       (case om_get (ed_cache s) i of
          Some a \<Rightarrow> s\<lparr>ed_store := zero_at a (ed_store s), ed_cache := om_del i (ed_cache s)\<rparr>
        | None \<Rightarrow> s)"

subsection \<open>Editing, copying\<close>

datatype detail_edit =
    EditTitle string
  | EditUsername string
  | EditPassword string
  | EditUrl string
  | EditEmail string
  | EditNotes string
  | EditCustom string string

fun edit_field :: "detail_edit \<Rightarrow> password_entry \<Rightarrow> password_entry" where
  "edit_field (EditTitle v) d = d\<lparr>pe_title := v\<rparr>"
| "edit_field (EditUsername v) d = d\<lparr>pe_username := v\<rparr>"
| "edit_field (EditPassword v) d = d\<lparr>pe_password := v\<rparr>"
| "edit_field (EditUrl v) d = d\<lparr>pe_url := v\<rparr>"
| "edit_field (EditEmail v) d = d\<lparr>pe_email := v\<rparr>"
| "edit_field (EditNotes v) d = d\<lparr>pe_notes := v\<rparr>"
| "edit_field (EditCustom i v) d =
     d\<lparr>pe_customFields := map (\<lambda>c. if cf_id c = i then c\<lparr>cf_value := v\<rparr> else c) (pe_customFields d)\<rparr>"

text \<open>\<open>handleSave\<close> through the gate that lets one save run at a time.\<close>

definition handleSave :: "entry_detail \<Rightarrow> entry_detail" where
  "handleSave s =
     (case ed_editData s of
        None \<Rightarrow> s
      | Some d \<Rightarrow> if ed_saving s then s else detail_called (SaveEntry d) WaitSaveEdit (s\<lparr>ed_saving := True\<rparr>))"

definition remove_passkey :: "bool \<Rightarrow> entry_detail \<Rightarrow> entry_detail" where
  "remove_passkey confirmed s =
     (case ed_selected s of
        None \<Rightarrow> s
      | Some e \<Rightarrow> if confirmed then detail_called (SaveEntry (e\<lparr>pe_passkeyAction := Some RemovePasskey\<rparr>)) WaitPasskey s else s)"

definition copy_started :: "message \<Rightarrow> toast_type \<Rightarrow> string option \<Rightarrow> copy_action \<Rightarrow> entry_detail \<Rightarrow> entry_detail" where
  "copy_started ok ty failed a s =
     (case a of
        CopyTotpOf secret secs \<Rightarrow> detail_called (GenerateTotpOf secret) (WaitTotp secs) s
      | _ \<Rightarrow> detail_called (CopyCall a) (WaitCopy ok ty failed) s)"

definition handleCopyTitle :: "entry_detail \<Rightarrow> entry_detail" where
  "handleCopyTitle s =
     (case shown_data s of
        None \<Rightarrow> s
      | Some d \<Rightarrow>
          if pe_title d = [] then s
          else copy_started (Tr ''detail.copied_title'' [(''title'', pe_title d)]) ToastInfo (Some ''toast.copied_title_failed'')
                 (if ed_tauri s then CopyToClipboard (pe_title d) False None else WriteClipboardText (pe_title d)) s)"

text \<open>The keyboard handler is there while an entry is shown and not edited; a panel counts the preview and the question.\<close>

definition handle_shortcut :: "shortcut_env \<Rightarrow> keyboard_event \<Rightarrow> entry_detail \<Rightarrow> entry_detail" where
  "handle_shortcut env ev s =
     (case ed_selected s of
        None \<Rightarrow> s
      | Some e \<Rightarrow>
          if ed_editing s then s
          else case shortcut_action (env\<lparr>se_tauri := ed_tauri s, se_backend := ed_backend s,
                        se_panel := (se_panel env \<or> ed_delConfirm s \<or> ed_previewAtt s \<noteq> None)\<rparr>) ev e of
                 Some (CopyField ok failed a) \<Rightarrow> copy_started (Tr ok []) ToastInfo (Some failed) a s
               | Some OpenEditor \<Rightarrow> s\<lparr>ed_calls := ed_calls s @ [OpenEditModal e]\<rparr>
               | Some AskDelete \<Rightarrow> s\<lparr>ed_delConfirm := True\<rparr>
               | Some (OpenWebsite url) \<Rightarrow> s\<lparr>ed_calls := ed_calls s @ [OpenExternal url]\<rparr>
               | None \<Rightarrow> s)"

text \<open>The recovery codes: shown one by one, copied together or alone, cleared after thirty seconds.\<close>

definition code_break :: "char \<Rightarrow> bool" where
  "code_break c \<longleftrightarrow> is_ws c \<or> c = CHR '','' \<or> c = CHR '';''"

fun words_between :: "(char \<Rightarrow> bool) \<Rightarrow> string \<Rightarrow> string list" where
  "words_between p [] = [[]]"
| "words_between p (c # cs) =
     (if p c then [] # words_between p cs else (c # hd (words_between p cs)) # tl (words_between p cs))"

definition codeList :: "string \<Rightarrow> string list" where
  "codeList codes = filter (\<lambda>w. w \<noteq> []) (words_between code_break codes)"

definition recovery_clipboard :: "bool \<Rightarrow> string \<Rightarrow> copy_action" where
  "recovery_clipboard tauri v = (if tauri then CopyToClipboard v True (Some 30) else WriteClipboardText v)"

definition copy_all_codes :: "entry_detail \<Rightarrow> entry_detail" where
  "copy_all_codes s =
     (case Option.bind (shown_data s) effectiveRecoveryCodes of
        Some codes \<Rightarrow>
          if ed_showRecovery s
          then copy_started (Tr ''detail.copied_all_recovery'' []) ToastSuccess (Some ''toast.copy_failed'')
                 (recovery_clipboard (ed_tauri s) codes) s
          else s
      | None \<Rightarrow> s)"

definition copy_one_code :: "nat \<Rightarrow> entry_detail \<Rightarrow> entry_detail" where
  "copy_one_code i s =
     (case Option.bind (shown_data s) effectiveRecoveryCodes of
        Some codes \<Rightarrow>
          if ed_showRecovery s \<and> i < length (codeList codes)
          then copy_started (Tr ''toast.recovery_code_copied'' [(''index'', show_nat (i + 1))]) ToastSuccess None
                 (recovery_clipboard (ed_tauri s) (codeList codes ! i)) s
          else s
      | None \<Rightarrow> s)"

subsection \<open>Answers and events\<close>

datatype detail_answer =
    DetailFailed string
  | GotBytes "nat list"
  | GotPath "string option"
  | DetailDone
  | DetailSaved bool
  | GotCode "string option"

definition resume_pane :: "detail_wait \<Rightarrow> detail_answer \<Rightarrow> entry_detail \<Rightarrow> entry_detail" where
  "resume_pane w ans s =
     (case (w, ans) of
        (WaitPrefetch i, GotBytes bytes) \<Rightarrow> cache_bytes i bytes s
      | (WaitPreview att, GotBytes bytes) \<Rightarrow> preview_answered att (Inr bytes) s
      | (WaitPreview att, DetailFailed e) \<Rightarrow> preview_answered att (Inl e) s
      | (WaitDownloadPath eid att, GotPath path) \<Rightarrow>
          if truthy_str path
          then detail_called (ExportAttachment eid (at_id att) (the path)) (WaitExportDone att) s
          else s\<lparr>ed_downloading := None\<rparr>
      | (WaitDownloadPath eid att, DetailFailed e) \<Rightarrow> (detail_err ''toast.download_failed'' e s)\<lparr>ed_downloading := None\<rparr>
      | (WaitExportDone att, DetailDone) \<Rightarrow> downloaded att s
      | (WaitExportDone att, DetailFailed e) \<Rightarrow> (detail_err ''toast.download_failed'' e s)\<lparr>ed_downloading := None\<rparr>
      | (WaitDownloadData att, GotBytes bytes) \<Rightarrow> download_answered att bytes s
      | (WaitDownloadData att, DetailFailed e) \<Rightarrow> (detail_err ''toast.download_failed'' e s)\<lparr>ed_downloading := None\<rparr>
      | (WaitDelete i, DetailDone) \<Rightarrow> attachment_deleted i s
      | (WaitDelete i, DetailFailed e) \<Rightarrow> detail_err ''toast.delete_attachment_failed'' e s
      | (WaitPasskey, DetailSaved ok) \<Rightarrow> if ok then detail_toast (Tr ''toast.passkey_removed'' []) ToastSuccess s else s
      | (WaitPasskey, DetailFailed e) \<Rightarrow> detail_err ''toast.remove_passkey_failed'' e s
      | (WaitSaveEdit, DetailSaved ok) \<Rightarrow> (let s = s\<lparr>ed_saving := False\<rparr> in if ok then set_editing False s else s)
      | (WaitSaveEdit, DetailFailed e) \<Rightarrow> s\<lparr>ed_saving := False\<rparr>
      | (WaitTotp secs, GotCode code) \<Rightarrow>
          if truthy_str code
          then copy_started (Tr ''toast.copied_totp'' []) ToastInfo (Some ''toast.totp_failed'')
                 (CopyToClipboard (the code) True (Some secs)) s
          else s
      | (WaitTotp secs, DetailFailed e) \<Rightarrow> detail_toast (Tr ''toast.totp_failed'' []) ToastError s
      | (WaitCopy ok ty failed, DetailDone) \<Rightarrow> detail_toast ok ty s
      | (WaitCopy ok ty failed, DetailFailed e) \<Rightarrow>
          (case failed of Some key \<Rightarrow> detail_toast (Tr key []) ToastError s | None \<Rightarrow> s)
      | _ \<Rightarrow> s)"

text \<open>Answers of another kind than the wait's are none.\<close>

definition answers_detail :: "detail_wait \<Rightarrow> detail_answer \<Rightarrow> bool" where
  "answers_detail w ans \<longleftrightarrow>
     (case ans of
        DetailFailed _ \<Rightarrow> True
      | GotBytes _ \<Rightarrow> (case w of WaitPrefetch _ \<Rightarrow> True | WaitPreview _ \<Rightarrow> True | WaitDownloadData _ \<Rightarrow> True | _ \<Rightarrow> False)
      | GotPath _ \<Rightarrow> (case w of WaitDownloadPath _ _ \<Rightarrow> True | _ \<Rightarrow> False)
      | DetailDone \<Rightarrow> (case w of WaitExportDone _ \<Rightarrow> True | WaitDelete _ \<Rightarrow> True | WaitCopy _ _ _ \<Rightarrow> True | _ \<Rightarrow> False)
      | DetailSaved _ \<Rightarrow> w = WaitPasskey \<or> w = WaitSaveEdit
      | GotCode _ \<Rightarrow> (case w of WaitTotp _ \<Rightarrow> True | _ \<Rightarrow> False))"

definition settle_detail :: "nat \<Rightarrow> detail_answer \<Rightarrow> entry_detail \<Rightarrow> entry_detail" where
  "settle_detail i ans s =
     (if i < length (ed_waits s) \<and> answers_detail (ed_waits s ! i) ans
      then resume_pane (ed_waits s ! i) ans (s\<lparr>ed_waits := take i (ed_waits s) @ drop (Suc i) (ed_waits s)\<rparr>)
      else s)"

datatype detail_event =
    BackendReady
  | ShowEntry "password_entry option"
  | SetEditing bool
  | Edit detail_edit
  | TogglePassword
  | ToggleCustom string
  | ToggleRecovery
  | StatsTimer
  | HoverAttachment attachment_info
  | PreviewClicked attachment_info
  | ClosePreview
  | DownloadClicked attachment_info
  | DownloadPreviewed
  | DeleteClicked bool attachment_info
  | DeleteAsked bool
  | PasskeyClicked bool
  | SaveClicked
  | TitleClicked
  | CopyAllCodes
  | CopyOneCode nat
  | KeyDown shortcut_env keyboard_event
  | UnmountDetail
  | SettleDetail nat detail_answer

definition toggle_in :: "string \<Rightarrow> string list \<Rightarrow> string list" where
  "toggle_in i xs = (if i \<in> set xs then filter (\<lambda>x. x \<noteq> i) xs else i # xs)"

fun detail_handle :: "detail_event \<Rightarrow> entry_detail \<Rightarrow> entry_detail" where
  "detail_handle BackendReady s = s\<lparr>ed_backend := True\<rparr>"
| "detail_handle (ShowEntry e) s = show_entry e s"
| "detail_handle (SetEditing b) s = set_editing b s"
| "detail_handle (Edit u) s = (if ed_editing s then s\<lparr>ed_editData := map_option (edit_field u) (ed_editData s)\<rparr> else s)"
| "detail_handle TogglePassword s = s\<lparr>ed_showPassword := \<not> ed_showPassword s\<rparr>"
| "detail_handle (ToggleCustom i) s = s\<lparr>ed_showCustom := toggle_in i (ed_showCustom s)\<rparr>"
| "detail_handle ToggleRecovery s = s\<lparr>ed_showRecovery := \<not> ed_showRecovery s\<rparr>"
| "detail_handle StatsTimer s = s\<lparr>ed_stats := False\<rparr>"
| "detail_handle (HoverAttachment att) s = handlePrefetchAttachment att s"
| "detail_handle (PreviewClicked att) s = handlePreviewAttachment att s"
| "detail_handle ClosePreview s = handleClosePreview s"
| "detail_handle (DownloadClicked att) s = handleDownloadAttachment att s"
| "detail_handle DownloadPreviewed s = (case ed_previewAtt s of Some att \<Rightarrow> handleDownloadAttachment att s | None \<Rightarrow> s)"
| "detail_handle (DeleteClicked ok att) s = handleDeleteAttachment ok att s"
| "detail_handle (DeleteAsked b) s = s\<lparr>ed_delConfirm := b\<rparr>"
| "detail_handle (PasskeyClicked ok) s = remove_passkey ok s"
| "detail_handle SaveClicked s = (if ed_editing s then handleSave s else s)"
| "detail_handle TitleClicked s = handleCopyTitle s"
| "detail_handle CopyAllCodes s = copy_all_codes s"
| "detail_handle (CopyOneCode i) s = copy_one_code i s"
| "detail_handle (KeyDown env ev) s = handle_shortcut env ev s"
| "detail_handle UnmountDetail s = unmount_detail s"
| "detail_handle (SettleDetail i ans) s = settle_detail i ans s"

definition detail_step :: "detail_event \<Rightarrow> entry_detail \<Rightarrow> entry_detail" where
  "detail_step e s = (if ed_mounted s \<or> (\<exists>i ans. e = SettleDetail i ans) then detail_handle e s else s)"

section \<open>Revealed secrets\<close>

datatype secret = EntryPassword | EntryCustom string | RecoveryCodes

fun revealed :: "secret \<Rightarrow> entry_detail \<Rightarrow> bool" where
  "revealed EntryPassword s = ed_showPassword s"
| "revealed (EntryCustom i) s = (i \<in> set (ed_showCustom s))"
| "revealed RecoveryCodes s = ed_showRecovery s"

fun reveal_click :: "secret \<Rightarrow> detail_event" where
  "reveal_click EntryPassword = TogglePassword"
| "reveal_click (EntryCustom i) = ToggleCustom i"
| "reveal_click RecoveryCodes = ToggleRecovery"

lemmas detail_defs = detail_called_def detail_toast_def detail_err_def wipe_cache_def cache_bytes_def reset_shown_def
  show_entry_def set_editing_def unmount_detail_def handlePrefetchAttachment_def handlePreviewAttachment_def
  preview_answered_def handleClosePreview_def downloaded_def handleDownloadAttachment_def download_answered_def
  handleDeleteAttachment_def attachment_deleted_def handleSave_def remove_passkey_def copy_started_def
  handleCopyTitle_def handle_shortcut_def copy_all_codes_def copy_one_code_def

lemmas detail_splits = option.splits if_splits sum.splits prod.splits detail_wait.splits detail_answer.splits
  detail_shortcut.splits copy_action.splits

text \<open>What a selected entry shows: its entry, its mode and the three switches.\<close>

definition shown_part :: "entry_detail \<Rightarrow> password_entry option \<times> bool \<times> bool \<times> string list \<times> bool" where
  "shown_part s = (ed_selected s, ed_editing s, ed_showPassword s, ed_showCustom s, ed_showRecovery s)"

lemma shown_part_resume:
  "shown_part (resume_pane w ans s) = shown_part s \<or>
   ed_showPassword (resume_pane w ans s) = False \<and> ed_showCustom (resume_pane w ans s) = [] \<and>
   ed_showRecovery (resume_pane w ans s) = False"
  by (cases w; cases ans) (auto simp: resume_pane_def shown_part_def detail_defs Let_def split: detail_splits)

lemma shown_part_handlers [simp]:
  "shown_part (handlePrefetchAttachment att s) = shown_part s"
  "shown_part (handlePreviewAttachment att s) = shown_part s"
  "shown_part (handleClosePreview s) = shown_part s"
  "shown_part (handleDownloadAttachment att s) = shown_part s"
  "shown_part (handleDeleteAttachment b att s) = shown_part s"
  "shown_part (remove_passkey b s) = shown_part s"
  "shown_part (handleSave s) = shown_part s"
  "shown_part (handleCopyTitle s) = shown_part s"
  "shown_part (copy_all_codes s) = shown_part s"
  "shown_part (copy_one_code i s) = shown_part s"
  "shown_part (unmount_detail s) = shown_part s"
  by (auto simp: shown_part_def detail_defs Let_def split: option.splits copy_action.splits)

lemma shown_part_shortcut [simp]: "shown_part (handle_shortcut env ev s) = shown_part s"
  by (auto simp: shown_part_def handle_shortcut_def copy_started_def detail_called_def
      split: option.splits copy_action.splits detail_shortcut.splits)

lemma revealed_same: "shown_part t = shown_part s \<Longrightarrow> revealed x t = revealed x s"
  by (cases x) (auto simp: shown_part_def)

fun changes_shown :: "detail_event \<Rightarrow> bool" where
  "changes_shown (ShowEntry e) = True"
| "changes_shown (SetEditing b) = True"
| "changes_shown TogglePassword = True"
| "changes_shown (ToggleCustom i) = True"
| "changes_shown ToggleRecovery = True"
| "changes_shown (SettleDetail i ans) = True"
| "changes_shown e = False"

lemma shown_part_neutral: "\<not> changes_shown e \<Longrightarrow> shown_part (detail_handle e s) = shown_part s"
  by (cases e) (simp_all split: option.split, simp_all add: shown_part_def)

lemma shown_part_settle:
  "shown_part (settle_detail i ans s) = shown_part s \<or>
   ed_showPassword (settle_detail i ans s) = False \<and> ed_showCustom (settle_detail i ans s) = [] \<and>
   ed_showRecovery (settle_detail i ans s) = False"
proof -
  let ?s = "s\<lparr>ed_waits := take i (ed_waits s) @ drop (Suc i) (ed_waits s)\<rparr>"
  have "shown_part ?s = shown_part s" by (simp add: shown_part_def)
  then show ?thesis using shown_part_resume[of "ed_waits s ! i" ans ?s] by (simp add: settle_detail_def)
qed

lemma revealed_handle:
  assumes "revealed x (detail_handle e s)"
  shows "(revealed x s \<or> e = reveal_click x) \<and> ed_selected (detail_handle e s) = ed_selected s \<and>
         ed_editing (detail_handle e s) = ed_editing s"
proof -
  have keep: ?thesis if "shown_part (detail_handle e s) = shown_part s"
    using that assms revealed_same[OF that] by (auto simp: shown_part_def)
  show ?thesis
  proof (cases "changes_shown e")
    case False then show ?thesis using keep shown_part_neutral by blast
  next
    case True
    then show ?thesis
    proof (cases e)
      case (ShowEntry f) then show ?thesis using assms by (cases x) (auto simp: show_entry_def reset_shown_def wipe_cache_def Let_def split: if_splits)
    next
      case (SetEditing b) then show ?thesis using assms by (cases x) (auto simp: set_editing_def reset_shown_def split: if_splits)
    next
      case TogglePassword then show ?thesis using assms by (cases x) auto
    next
      case (ToggleCustom i) then show ?thesis using assms by (cases x) (auto simp: toggle_in_def split: if_splits)
    next
      case ToggleRecovery then show ?thesis using assms by (cases x) auto
    next
      case (SettleDetail i ans)
      have "\<not> (ed_showPassword t = False \<and> ed_showCustom t = [] \<and> ed_showRecovery t = False)" if "revealed x t" for t
        using that by (cases x) auto
      then show ?thesis using keep shown_part_settle[of i ans s] assms SettleDetail by auto
    qed simp_all
  qed
qed

lemma revealed_step:
  assumes "revealed x (detail_step e s)"
  shows "(revealed x s \<or> e = reveal_click x) \<and> ed_selected (detail_step e s) = ed_selected s \<and>
         ed_editing (detail_step e s) = ed_editing s"
  using assms revealed_handle[of x e s] by (auto simp: detail_step_def split: if_splits)

text \<open>
  Claim C23. A secret on the screen was revealed for the entry it belongs to. Whatever the page did before, when the
  password, a custom secret or the recovery codes are shown, the user has clicked to show exactly that one while the same
  entry was displayed in the same mode, and since then neither another entry nor the other mode was shown.
\<close>

theorem reveal_not_carried:
  assumes "revealed x (run detail_step es (mount_detail tauri e0 mode))"
  shows "\<exists>es1 es2. es = es1 @ reveal_click x # es2 \<and>
           (\<forall>n \<le> length es2. let s = run detail_step (reveal_click x # take n es2) (run detail_step es1 (mount_detail tauri e0 mode))
              in revealed x s \<and> ed_selected s = ed_selected (run detail_step es (mount_detail tauri e0 mode)) \<and>
                 ed_editing s = ed_editing (run detail_step es (mount_detail tauri e0 mode)))"
  using assms
proof (induction es rule: rev_induct)
  case Nil then show ?case by (cases x) (simp_all add: mount_detail_def)
next
  case (snoc e es)
  let ?m = "mount_detail tauri e0 mode"
  have st: "revealed x (detail_step e (run detail_step es ?m))" using snoc.prems by simp
  note step = revealed_step[OF st]
  show ?case
  proof (cases "revealed x (run detail_step es ?m)")
    case True
    from snoc.IH[OF True] obtain es1 es2 where es: "es = es1 @ reveal_click x # es2"
      and h: "\<forall>n \<le> length es2. let s = run detail_step (reveal_click x # take n es2) (run detail_step es1 ?m)
              in revealed x s \<and> ed_selected s = ed_selected (run detail_step es ?m) \<and>
                 ed_editing s = ed_editing (run detail_step es ?m)" by blast
    show ?thesis
    proof (intro exI conjI allI impI)
      show "es @ [e] = es1 @ reveal_click x # (es2 @ [e])" using es by simp
      fix n assume n: "n \<le> length (es2 @ [e])"
      show "let s = run detail_step (reveal_click x # take n (es2 @ [e])) (run detail_step es1 ?m)
            in revealed x s \<and> ed_selected s = ed_selected (run detail_step (es @ [e]) ?m) \<and>
               ed_editing s = ed_editing (run detail_step (es @ [e]) ?m)"
      proof (cases "n \<le> length es2")
        case True then show ?thesis using h[rule_format, of n] step by (simp add: Let_def)
      next
        case False
        then have "take n (es2 @ [e]) = es2 @ [e]" using n by simp
        then show ?thesis using st es by (simp add: Let_def)
      qed
    qed
  next
    case False
    then have "e = reveal_click x" using step by blast
    then show ?thesis using st by (intro exI[of _ es] exI[of _ "[]"]) (simp add: Let_def)
  qed
qed

section \<open>The bytes of attachments\<close>

definition zeroed :: "nat \<Rightarrow> buffer list \<Rightarrow> bool" where
  "zeroed a st \<longleftrightarrow> a < length st \<and> (\<forall>b \<in> set (snd (st ! a)). b = 0)"

lemma length_zero_at [simp]: "length (zero_at a st) = length st"
  by (simp add: zero_at_def)

lemma owner_zero_at [simp]: "a < length st \<Longrightarrow> fst (zero_at b st ! a) = fst (st ! a)"
  by (cases "a = b") (simp_all add: zero_at_def)

lemma zeroed_zero_at: "a < length st \<Longrightarrow> a = b \<or> zeroed a st \<Longrightarrow> zeroed a (zero_at b st)"
  by (cases "a = b") (auto simp: zero_at_def zeroed_def)

lemma length_zero_all [simp]: "length (zero_all as st) = length st"
  by (induction as arbitrary: st) (simp_all add: zero_all_def)

lemma owner_zero_all [simp]: "a < length st \<Longrightarrow> fst (zero_all as st ! a) = fst (st ! a)"
  by (induction as arbitrary: st) (simp_all add: zero_all_def)

lemma zeroed_zero_all: "a < length st \<Longrightarrow> a \<in> set as \<or> zeroed a st \<Longrightarrow> zeroed a (zero_all as st)"
proof (induction as arbitrary: st)
  case Nil then show ?case by (simp add: zero_all_def)
next
  case (Cons b as)
  have "a \<in> set as \<or> zeroed a (zero_at b st)" using Cons.prems zeroed_zero_at[of a st b] by auto
  then have "zeroed a (zero_all as (zero_at b st))" using Cons.IH[of "zero_at b st"] Cons.prems(1) by simp
  then show ?case by (simp add: zero_all_def)
qed

text \<open>A store grows from another one: no buffer is lost or given to another attachment, and what is zero stays zero.\<close>

definition store_grows :: "buffer list \<Rightarrow> buffer list \<Rightarrow> bool" where
  "store_grows st st' \<longleftrightarrow> length st \<le> length st' \<and>
     (\<forall>a < length st. fst (st' ! a) = fst (st ! a) \<and> (zeroed a st \<longrightarrow> zeroed a st'))"

lemma grows_refl [simp]: "store_grows st st"
  by (simp add: store_grows_def)

lemma grows_trans: "store_grows a b \<Longrightarrow> store_grows b c \<Longrightarrow> store_grows a c"
  by (auto simp: store_grows_def)

lemma grows_append [simp]: "store_grows st (st @ [b])"
  by (auto simp: store_grows_def nth_append zeroed_def)

lemma grows_zero_at [simp]: "store_grows st (zero_at a st)"
  by (auto simp: store_grows_def zeroed_zero_at)

lemma grows_zero_all [simp]: "store_grows st (zero_all as st)"
  by (auto simp: store_grows_def zeroed_zero_all)

lemma grows_download [simp]: "store_grows st (zero_at a (st @ [b]))"
  using grows_trans[OF grows_append grows_zero_at] .

text \<open>What the pane holds of attachments, and how it hangs together.\<close>

definition bytes_part where
  "bytes_part s = (ed_cache s, ed_store s, ed_previewAtt s, ed_previewData s, ed_activePreview s)"

definition bytes_inv :: "entry_detail \<Rightarrow> bool" where
  "bytes_inv s \<longleftrightarrow>
     (\<forall>(i, a) \<in> set (ed_cache s). a < length (ed_store s) \<and> fst (ed_store s ! a) = i) \<and>
     (\<forall>att. ed_previewAtt s = Some att \<longrightarrow> ed_activePreview s = Some (at_id att) \<and>
        (\<forall>a. ed_previewData s = Some a \<longrightarrow> a < length (ed_store s) \<and> fst (ed_store s ! a) = at_id att))"

definition bytes_ok :: "entry_detail \<Rightarrow> entry_detail \<Rightarrow> bool" where
  "bytes_ok s t \<longleftrightarrow> store_grows (ed_store s) (ed_store t) \<and> (bytes_inv s \<longrightarrow> bytes_inv t)"

lemma bytes_ok_same: "bytes_part t = bytes_part s \<Longrightarrow> bytes_ok s t"
  by (auto simp: bytes_part_def bytes_ok_def bytes_inv_def)

lemma bytes_ok_refl [simp]: "bytes_ok s s"
  by (simp add: bytes_ok_def)

lemma bytes_ok_trans: "bytes_ok s t \<Longrightarrow> bytes_ok t u \<Longrightarrow> bytes_ok s u"
  by (auto simp: bytes_ok_def intro: grows_trans)

lemma bytes_ok_wipe: "bytes_ok s (wipe_cache s)"
  by (auto simp: bytes_ok_def wipe_cache_def bytes_inv_def)

lemma bytes_ok_cache: "bytes_ok s (cache_bytes i bytes s)"
proof -
  have "bytes_inv (cache_bytes i bytes s)" if inv: "bytes_inv s"
  proof -
    have "a < length (ed_store s @ [(i, bytes)]) \<and> fst ((ed_store s @ [(i, bytes)]) ! a) = j"
      if "(j, a) \<in> set (om_set i (length (ed_store s)) (ed_cache s))" for j a
    proof -
      have "(j, a) = (i, length (ed_store s)) \<or> (j, a) \<in> set (ed_cache s)" using that set_om_set_sub by fast
      then show ?thesis using inv by (auto simp: bytes_inv_def nth_append)
    qed
    moreover have "fst ((ed_store s @ [(i, bytes)]) ! a) = fst (ed_store s ! a)" if "a < length (ed_store s)" for a
      using that by (simp add: nth_append)
    ultimately show ?thesis using inv by (auto simp: bytes_inv_def cache_bytes_def)
  qed
  then show ?thesis by (simp add: bytes_ok_def cache_bytes_def)
qed

lemma bytes_ok_preview: "bytes_ok s (handlePreviewAttachment att s)"
proof -
  have "bytes_inv (handlePreviewAttachment att s)" if "bytes_inv s"
    using that by (auto simp: handlePreviewAttachment_def bytes_inv_def detail_called_def Let_def
        dest: map_of_SomeD split: option.splits)
  moreover have "ed_store (handlePreviewAttachment att s) = ed_store s"
    by (simp add: handlePreviewAttachment_def detail_called_def Let_def split: option.split)
  ultimately show ?thesis by (simp add: bytes_ok_def)
qed

lemma bytes_ok_close: "bytes_ok s (handleClosePreview s)"
  by (simp add: bytes_ok_def bytes_inv_def handleClosePreview_def)

lemma bytes_ok_answered: "bytes_ok s (preview_answered att ans s)"
proof (cases "ed_activePreview s = Some (at_id att)")
  case False then show ?thesis by (simp add: preview_answered_def)
next
  case True
  show ?thesis
  proof (cases ans)
    case (Inl e)
    then show ?thesis using True
      by (auto simp: preview_answered_def bytes_ok_def bytes_inv_def detail_err_def detail_toast_def)
  next
    case (Inr bytes)
    let ?t = "cache_bytes (at_id att) bytes s"
    have eq: "preview_answered att ans s = ?t\<lparr>ed_previewData := Some (length (ed_store s)), ed_loadingPreview := None\<rparr>"
      using True Inr by (simp add: preview_answered_def cache_bytes_def)
    have "bytes_inv (?t\<lparr>ed_previewData := Some (length (ed_store s)), ed_loadingPreview := None\<rparr>)" if "bytes_inv s"
      using bytes_ok_cache[of s "at_id att" bytes] that True
      by (auto simp: bytes_ok_def bytes_inv_def cache_bytes_def)
    then show ?thesis using bytes_ok_cache[of s "at_id att" bytes] by (simp add: eq bytes_ok_def)
  qed
qed

lemma bytes_ok_store:
  assumes "store_grows (ed_store s) (ed_store t)" "set (ed_cache t) \<subseteq> set (ed_cache s)"
    "ed_previewAtt t = ed_previewAtt s" "ed_previewData t = ed_previewData s" "ed_activePreview t = ed_activePreview s"
  shows "bytes_ok s t"
proof -
  have kept: "a < length (ed_store t) \<and> fst (ed_store t ! a) = fst (ed_store s ! a)" if "a < length (ed_store s)" for a
    using assms(1) that by (auto simp: store_grows_def)
  have "bytes_inv t" if inv: "bytes_inv s"
    unfolding bytes_inv_def
  proof (intro conjI ballI allI impI, clarify)
    fix i a assume "(i, a) \<in> set (ed_cache t)"
    then have "(i, a) \<in> set (ed_cache s)" using assms(2) by blast
    then have "a < length (ed_store s) \<and> fst (ed_store s ! a) = i" using inv by (auto simp: bytes_inv_def)
    then show "a < length (ed_store t) \<and> fst (ed_store t ! a) = i" using kept by simp
  next
    fix att assume "ed_previewAtt t = Some att"
    then show "ed_activePreview t = Some (at_id att)" using inv assms(3,5) by (simp add: bytes_inv_def)
  next
    fix att a assume "ed_previewAtt t = Some att" "ed_previewData t = Some a"
    then have "a < length (ed_store s) \<and> fst (ed_store s ! a) = at_id att" using inv assms(3,4) by (simp add: bytes_inv_def)
    then show "a < length (ed_store t)" "fst (ed_store t ! a) = at_id att" using kept by simp_all
  qed
  then show ?thesis using assms(1) by (simp add: bytes_ok_def)
qed

lemma bytes_ok_download: "bytes_ok s (download_answered att bytes s)"
  by (rule bytes_ok_store) (simp_all add: download_answered_def downloaded_def detail_toast_def)

lemma bytes_ok_deleted: "bytes_ok s (attachment_deleted i s)"
  by (rule bytes_ok_store) (auto simp: attachment_deleted_def detail_toast_def om_del_def split: option.split)

lemma bytes_part_handlers [simp]:
  "bytes_part (handlePrefetchAttachment att s) = bytes_part s"
  "bytes_part (handleDownloadAttachment att s) = bytes_part s"
  "bytes_part (handleDeleteAttachment b att s) = bytes_part s"
  "bytes_part (remove_passkey b s) = bytes_part s"
  "bytes_part (handleSave s) = bytes_part s"
  "bytes_part (handleCopyTitle s) = bytes_part s"
  "bytes_part (copy_all_codes s) = bytes_part s"
  "bytes_part (copy_one_code i s) = bytes_part s"
  "bytes_part (set_editing b s) = bytes_part s"
  "bytes_part (copy_started ok ty failed a s) = bytes_part s"
  "bytes_part (detail_toast m ty s) = bytes_part s"
  "bytes_part (detail_err key e s) = bytes_part s"
  "bytes_part (detail_called c w s) = bytes_part s"
  "bytes_part (downloaded att s) = bytes_part s"
  by (auto simp: bytes_part_def detail_defs Let_def split: option.splits copy_action.splits)

lemma bytes_part_updates [simp]:
  "bytes_part (s\<lparr>ed_downloading := d\<rparr>) = bytes_part s"
  "bytes_part (s\<lparr>ed_saving := b\<rparr>) = bytes_part s"
  "bytes_part (s\<lparr>ed_waits := ws\<rparr>) = bytes_part s"
  "bytes_part (s\<lparr>ed_calls := cs\<rparr>) = bytes_part s"
  "bytes_part (s\<lparr>ed_delConfirm := b\<rparr>) = bytes_part s"
  "bytes_part (s\<lparr>ed_backend := b\<rparr>) = bytes_part s"
  "bytes_part (s\<lparr>ed_editData := e\<rparr>) = bytes_part s"
  "bytes_part (s\<lparr>ed_showPassword := b\<rparr>) = bytes_part s"
  "bytes_part (s\<lparr>ed_showCustom := xs\<rparr>) = bytes_part s"
  "bytes_part (s\<lparr>ed_showRecovery := b\<rparr>) = bytes_part s"
  "bytes_part (s\<lparr>ed_stats := b\<rparr>) = bytes_part s"
  by (simp_all add: bytes_part_def)

lemma bytes_part_shortcut [simp]: "bytes_part (handle_shortcut env ev s) = bytes_part s"
  by (simp add: handle_shortcut_def split: option.split detail_shortcut.split)

lemma bytes_ok_show: "bytes_ok s (show_entry e s)"
proof -
  let ?t = "reset_shown (s\<lparr>ed_selected := e\<rparr>)"
  have "bytes_ok s ?t" by (rule bytes_ok_same) (simp add: bytes_part_def reset_shown_def)
  then show ?thesis using bytes_ok_trans[OF _ bytes_ok_wipe[of ?t]] by (simp add: show_entry_def Let_def)
qed

lemma bytes_ok_unmount: "bytes_ok s (unmount_detail s)"
  using bytes_ok_trans[OF bytes_ok_wipe[of s] bytes_ok_same[of "unmount_detail s" "wipe_cache s"]]
  by (simp add: unmount_detail_def bytes_part_def)

lemma bytes_ok_resume: "bytes_ok s (resume_pane w ans s)"
  by (cases w; cases ans)
    (simp_all add: resume_pane_def bytes_ok_cache bytes_ok_answered bytes_ok_download bytes_ok_deleted bytes_ok_same Let_def
      split: option.split)

lemma bytes_ok_step: "bytes_ok s (detail_step e s)"
proof -
  have "bytes_ok s (settle_detail i ans s)" for i ans
  proof -
    let ?s = "s\<lparr>ed_waits := take i (ed_waits s) @ drop (Suc i) (ed_waits s)\<rparr>"
    have "bytes_ok s ?s" by (rule bytes_ok_same) simp
    then show ?thesis using bytes_ok_trans[OF _ bytes_ok_resume[of ?s "ed_waits s ! i" ans]] by (simp add: settle_detail_def)
  qed
  then have "bytes_ok s (detail_handle e s)"
    by (cases e) (simp_all add: bytes_ok_show bytes_ok_preview bytes_ok_close bytes_ok_unmount bytes_ok_same split: option.split)
  then show ?thesis by (simp add: detail_step_def)
qed

interpretation detail_bytes: invariant_machine detail_step bytes_inv
  by unfold_locales (use bytes_ok_step in \<open>auto simp: bytes_ok_def\<close>)

interpretation detail_store: invariant_machine detail_step "\<lambda>s. store_grows st (ed_store s)" for st
  by unfold_locales (use bytes_ok_step in \<open>auto simp: bytes_ok_def intro: grows_trans\<close>)

lemma bytes_inv_mount: "bytes_inv (mount_detail tauri e0 mode)"
  by (simp add: bytes_inv_def mount_detail_def)

text \<open>
  Claim C26. The preview shows the attachment it names. Whatever clicks, hovers, answers in any order and changes of the
  entry there were, the bytes the preview dialog shows were fetched for the attachment whose name it shows.
\<close>

theorem preview_shows_its_attachment:
  "case (ed_previewAtt (run detail_step es (mount_detail tauri e0 mode)), ed_previewData (run detail_step es (mount_detail tauri e0 mode))) of
     (Some att, Some a) \<Rightarrow> fst (ed_store (run detail_step es (mount_detail tauri e0 mode)) ! a) = at_id att
   | _ \<Rightarrow> True"
  using detail_bytes.run_inv[OF bytes_inv_mount, of es tauri e0 mode] by (simp add: bytes_inv_def split: option.split)

text \<open>
  Claim C24. The cache of attachment bytes is wiped. When an entry with another id is shown, or no entry, or the pane goes,
  every buffer that was in the cache is overwritten with zeros and the cache is empty; the buffers stay zero whatever
  happens afterwards.
\<close>

theorem preview_cache_wiped:
  assumes "s = run detail_step es (mount_detail tauri e0 mode)" "ed_mounted s"
    "e = UnmountDetail \<or> (\<exists>new. e = ShowEntry new \<and> map_option pe_id new \<noteq> map_option pe_id (ed_selected s))"
    "om_get (ed_cache s) i = Some a"
  shows "ed_cache (detail_step e s) = [] \<and> length (ed_store (detail_step e s)) = length (ed_store s) \<and>
         (\<forall>b \<in> set (snd (ed_store (run detail_step later (detail_step e s)) ! a)). b = 0)"
proof -
  have "bytes_inv s" using assms(1) detail_bytes.run_inv[OF bytes_inv_mount] by simp
  then have a: "a < length (ed_store s)" using map_of_SomeD[OF assms(4)] by (auto simp: bytes_inv_def)
  have mem: "a \<in> set (map snd (ed_cache s))" using map_of_SomeD[OF assms(4)] by force
  have wiped: "ed_cache (detail_step e s) = [] \<and> ed_store (detail_step e s) = zero_all (map snd (ed_cache s)) (ed_store s)"
    using assms(2,3) by (auto simp: detail_step_def unmount_detail_def wipe_cache_def show_entry_def entry_id_def reset_shown_def)
  then have "zeroed a (ed_store (detail_step e s))" using zeroed_zero_all[OF a] mem by simp
  moreover have "store_grows (ed_store (detail_step e s)) (ed_store (run detail_step later (detail_step e s)))"
    by (rule detail_store.run_inv) simp
  ultimately have "zeroed a (ed_store (run detail_step later (detail_step e s)))" by (auto simp: store_grows_def zeroed_def)
  then show ?thesis using wiped by (simp add: zeroed_def)
qed

section \<open>Concrete runs\<close>

definition pdf_file :: attachment_info where
  "pdf_file = \<lparr>at_id = ''f1'', at_name = ''scan.pdf'', at_size = 3, at_mimeType = None, at_mime_type = None,
     at_createdAt = None, at_created_at = None\<rparr>"

definition prefetched :: "detail_event list" where
  "prefetched = [BackendReady, HoverAttachment pdf_file, SettleDetail 0 (GotBytes [7, 8, 9])]"

lemma prefetched_run:
  "run detail_step prefetched (mount_detail True (Some sample_entry) False) =
     (mount_detail True (Some sample_entry) False)\<lparr>ed_backend := True, ed_cache := [(''f1'', 0)], ed_store := [(''f1'', [7, 8, 9])],
        ed_calls := [GetAttachmentData (pe_id sample_entry) ''f1'']\<rparr>"
  by (simp add: prefetched_def mount_detail_def detail_step_def handlePrefetchAttachment_def pdf_file_def detail_called_def
      settle_detail_def answers_detail_def resume_pane_def cache_bytes_def)

theorem reveal_not_carried_witness:
  "\<exists>es1 es2. [TogglePassword, StatsTimer] = es1 @ reveal_click EntryPassword # es2"
  using reveal_not_carried[of EntryPassword "[TogglePassword, StatsTimer]" True "Some sample_entry" False]
  by (auto simp: detail_step_def mount_detail_def)

theorem preview_cache_wiped_witness:
  "list_all (\<lambda>b. b = 0) (snd (ed_store (run detail_step [BackendReady] (detail_step UnmountDetail
     (run detail_step prefetched (mount_detail True (Some sample_entry) False)))) ! 0))"
  using preview_cache_wiped[OF refl, of prefetched True "Some sample_entry" False UnmountDetail "''f1''" 0 "[BackendReady]"]
  unfolding prefetched_run by (simp add: mount_detail_def list_all_iff)

text \<open>
  What the cache misses. Two hovers before the first answer fetch the bytes twice; the second answer takes the place of the
  first in the cache, so the first copy is never overwritten. And an answer that comes after the pane has gone, or after another
  entry was shown, is put into the cache all the same, after its wipe.
\<close>

lemma second_hover_leaks:
  "ed_store (run detail_step [BackendReady, HoverAttachment pdf_file, HoverAttachment pdf_file, SettleDetail 0 (GotBytes [7, 8, 9]),
       SettleDetail 0 (GotBytes [7, 8, 9]), UnmountDetail] (mount_detail True (Some sample_entry) False)) =
     [(''f1'', [7, 8, 9]), (''f1'', [0, 0, 0])]"
  by (simp add: mount_detail_def detail_step_def handlePrefetchAttachment_def pdf_file_def detail_called_def settle_detail_def
      answers_detail_def resume_pane_def cache_bytes_def unmount_detail_def wipe_cache_def zero_all_def zero_at_def)

lemma late_answer_stays:
  "(let s = run detail_step [BackendReady, HoverAttachment pdf_file, UnmountDetail, SettleDetail 0 (GotBytes [7, 8, 9])]
        (mount_detail True (Some sample_entry) False)
    in ed_mounted s = False \<and> ed_cache s = [(''f1'', 0)] \<and> ed_store s = [(''f1'', [7, 8, 9])])"
  by (simp add: mount_detail_def detail_step_def handlePrefetchAttachment_def pdf_file_def detail_called_def settle_detail_def
      answers_detail_def resume_pane_def cache_bytes_def unmount_detail_def wipe_cache_def zero_all_def)

text \<open>Recovery codes are cleared from the clipboard after thirty seconds, whatever the user chose in the settings.\<close>

lemma recovery_ignores_clear_setting:
  "recovery_clipboard True v = CopyToClipboard v True (Some 30) \<and>
   (copy_text env v True = CopyToClipboard v True (Some 30) \<longleftrightarrow> se_backend env \<and> se_clearSeconds env = 30)"
  by (simp add: recovery_clipboard_def copy_text_def)

text \<open>What a copy shortcut can put on the clipboard, and when.\<close>

lemma shortcut_copies_password:
  assumes "shortcut_action env ev e = Some (CopyField ''toast.copied_password'' failed a)"
  shows "\<not> se_panel env \<and> \<not> se_dialog env \<and> \<not> se_selection env \<and> \<not> se_inputFocused env \<and> pe_password e \<noteq> [] \<and>
         (a = CopyEntryPassword (pe_id e) (se_clearSeconds env) \<or>
          a = CopyToClipboard (pe_password e) True (Some (se_clearSeconds env)) \<or>
          a = WriteClipboardText (pe_password e) \<and> \<not> se_backend env)"
  using assms
  by (auto simp: shortcut_action_def copy_password_def copy_username_def copy_url_def copy_totp_def copy_text_def Let_def
      split: if_splits)

end
