(* ===== verification/Ipc_Types.thy ===== *)
theory Ipc_Types
  imports Vault_Prelude
begin

text \<open>
  The type language of the interface to the native side: the TypeScript types that
  \<open>src/src/types/ipc.ts\<close> and \<open>src/src/lib/backend.ts\<close> are written in, the values they
  describe, and assignability between them. The checker of assignability is executable and
  sound for the values, so a check on the declared types is a statement about every call.
\<close>

section \<open>Values and types\<close>

datatype js =
    JUndef
  | JNull
  | JBool bool
  | JNum int
  | JStr string
  | JBytes "nat list"
  | JArr "js list"
  | JObj "(string \<times> js) list"

datatype ty =
    TVoid
  | TNull
  | TBool
  | TNum
  | TStr
  | TLit string
  | TBytes
  | TUnknown
  | TArr ty
  | TMap ty
  | TUnion "ty list"
  | TRec "field list"
and field = Req string ty | Opt string ty

fun js_get :: "(string \<times> js) list \<Rightarrow> string \<Rightarrow> js" where
  "js_get [] n = JUndef"
| "js_get ((k, v) # kvs) n = (if k = n then v else js_get kvs n)"

text \<open>Structural typing: an object may have more properties than its type names.\<close>

fun conforms :: "ty \<Rightarrow> js \<Rightarrow> bool"
  and conforms_any :: "ty list \<Rightarrow> js \<Rightarrow> bool"
  and conforms_fields :: "field list \<Rightarrow> (string \<times> js) list \<Rightarrow> bool"
where
  "conforms TVoid v \<longleftrightarrow> v = JUndef"
| "conforms TNull v \<longleftrightarrow> v = JNull"
| "conforms TBool v \<longleftrightarrow> (case v of JBool _ \<Rightarrow> True | _ \<Rightarrow> False)"
| "conforms TNum v \<longleftrightarrow> (case v of JNum _ \<Rightarrow> True | _ \<Rightarrow> False)"
| "conforms TStr v \<longleftrightarrow> (case v of JStr _ \<Rightarrow> True | _ \<Rightarrow> False)"
| "conforms (TLit s) v \<longleftrightarrow> v = JStr s"
| "conforms TBytes v \<longleftrightarrow> (case v of JBytes _ \<Rightarrow> True | _ \<Rightarrow> False)"
| "conforms TUnknown v \<longleftrightarrow> True"
| "conforms (TArr t) v \<longleftrightarrow> (case v of JArr vs \<Rightarrow> list_all (conforms t) vs | _ \<Rightarrow> False)"
| "conforms (TMap t) v \<longleftrightarrow> (case v of JObj kvs \<Rightarrow> list_all (\<lambda>(k, x). conforms t x) kvs | _ \<Rightarrow> False)"
| "conforms (TUnion ts) v \<longleftrightarrow> conforms_any ts v"
| "conforms (TRec fs) v \<longleftrightarrow> (case v of JObj kvs \<Rightarrow> conforms_fields fs kvs | _ \<Rightarrow> False)"
| "conforms_any [] v \<longleftrightarrow> False"
| "conforms_any (t # ts) v \<longleftrightarrow> conforms t v \<or> conforms_any ts v"
| "conforms_fields [] kvs \<longleftrightarrow> True"
| "conforms_fields (Req n t # fs) kvs \<longleftrightarrow> conforms t (js_get kvs n) \<and> conforms_fields fs kvs"
| "conforms_fields (Opt n t # fs) kvs \<longleftrightarrow>
     (js_get kvs n = JUndef \<or> conforms t (js_get kvs n)) \<and> conforms_fields fs kvs"

fun field_name :: "field \<Rightarrow> string" where
  "field_name (Req n t) = n"
| "field_name (Opt n t) = n"

fun field_conforms :: "field \<Rightarrow> js \<Rightarrow> bool" where
  "field_conforms (Req n t) v \<longleftrightarrow> conforms t v"
| "field_conforms (Opt n t) v \<longleftrightarrow> v = JUndef \<or> conforms t v"

lemma conforms_any_iff: "conforms_any ts v \<longleftrightarrow> (\<exists>t \<in> set ts. conforms t v)"
  by (induction ts) auto

lemma conforms_fields_iff: "conforms_fields fs kvs \<longleftrightarrow> (\<forall>f \<in> set fs. field_conforms f (js_get kvs (field_name f)))"
proof (induction fs)
  case (Cons f fs)
  then show ?case by (cases f) auto
qed simp

section \<open>Assignability\<close>

definition find_field :: "string \<Rightarrow> field list \<Rightarrow> field option" where
  "find_field n fs = List.find (\<lambda>f. field_name f = n) fs"

text \<open>A field of the target against the fields of the source, with a check for their types.\<close>

definition field_ok :: "(ty \<Rightarrow> ty \<Rightarrow> bool) \<Rightarrow> field list \<Rightarrow> field \<Rightarrow> bool" where
  "field_ok check fs g =
     (case g of
        Req m u \<Rightarrow> (case find_field m fs of Some (Req m' t) \<Rightarrow> check t u | _ \<Rightarrow> False)
      | Opt m u \<Rightarrow>
          (case find_field m fs of
             Some (Req m' t) \<Rightarrow> check t u
           | Some (Opt m' t) \<Rightarrow> check t u
           | None \<Rightarrow> False))"

text \<open>
  Whether every value of the first type is one of the second, to a depth given by the fuel; with
  the fuel spent the answer is no.
\<close>

fun assignable :: "nat \<Rightarrow> ty \<Rightarrow> ty \<Rightarrow> bool" where
  "assignable 0 a b = False"
| "assignable (Suc n) a b =
     (case a of
        TUnion ts \<Rightarrow> list_all (\<lambda>t. assignable n t b) ts
      | _ \<Rightarrow>
          (case b of
             TUnknown \<Rightarrow> True
           | TUnion us \<Rightarrow> list_ex (assignable n a) us
           | TVoid \<Rightarrow> a = TVoid
           | TNull \<Rightarrow> a = TNull
           | TBool \<Rightarrow> a = TBool
           | TNum \<Rightarrow> a = TNum
           | TStr \<Rightarrow> (case a of TStr \<Rightarrow> True | TLit s \<Rightarrow> True | _ \<Rightarrow> False)
           | TLit s \<Rightarrow> a = TLit s
           | TBytes \<Rightarrow> a = TBytes
           | TArr u \<Rightarrow> (case a of TArr t \<Rightarrow> assignable n t u | _ \<Rightarrow> False)
           | TMap u \<Rightarrow> (case a of TMap t \<Rightarrow> assignable n t u | _ \<Rightarrow> False)
           | TRec gs \<Rightarrow>
               (case a of
                  TRec fs \<Rightarrow> list_all (field_ok (assignable n) fs) gs
                | _ \<Rightarrow> False)))"

declare assignable.simps(2) [simp del]

lemma find_field_name: "find_field n fs = Some f \<Longrightarrow> f \<in> set fs \<and> field_name f = n"
  unfolding find_field_def by (drule find_SomeD) simp

lemma field_ok_sound:
  assumes "field_ok check fs g" and "\<And>t u v. check t u \<Longrightarrow> conforms t v \<Longrightarrow> conforms u v"
    and "conforms_fields fs kvs"
  shows "field_conforms g (js_get kvs (field_name g))"
proof -
  have fc: "field_conforms f (js_get kvs (field_name f))" if "f \<in> set fs" for f
    using assms(3) that by (simp add: conforms_fields_iff)
  show ?thesis
  proof (cases g)
    case (Req m u)
    with assms(1) obtain m' t where f: "find_field m fs = Some (Req m' t)" and c: "check t u"
      by (auto simp: field_ok_def split: option.splits field.splits)
    with fc find_field_name [OF f] assms(2) [OF c] Req show ?thesis by fastforce
  next
    case (Opt m u)
    with assms(1) obtain f t where f: "find_field m fs = Some f" and c: "check t u"
        and k: "f = Req (field_name f) t \<or> f = Opt (field_name f) t"
      by (auto simp: field_ok_def split: option.splits field.splits)
    have "f \<in> set fs" "field_name f = m" using find_field_name [OF f] by auto
    with fc have "field_conforms f (js_get kvs m)" by blast
    with k have "js_get kvs m = JUndef \<or> conforms t (js_get kvs m)"
      by (metis field_conforms.simps)
    with assms(2) [OF c] Opt show ?thesis by auto
  qed
qed

text \<open>The checker is sound: a value of an assignable type is a value of the target.\<close>

lemma assignable_sound: "assignable n a b \<Longrightarrow> conforms a v \<Longrightarrow> conforms b v"
proof (induction n arbitrary: a b v)
  case (Suc n)
  show ?case
  proof (cases "\<exists>ts. a = TUnion ts")
    case True
    then obtain ts where "a = TUnion ts" by blast
    with Suc.prems Suc.IH show ?thesis
      by (auto simp: assignable.simps(2) conforms_any_iff list_all_iff)
  next
    case na: False
    show ?thesis
    proof (cases b)
      case (TUnion us)
      with Suc.prems(1) na obtain u where "u \<in> set us" "assignable n a u"
        by (auto simp: assignable.simps(2) list_ex_iff split: ty.splits)
      with Suc.IH Suc.prems(2) TUnion show ?thesis by (auto simp: conforms_any_iff)
    next
      case (TArr u)
      with Suc.prems na Suc.IH show ?thesis
        by (auto simp: assignable.simps(2) list_all_iff split: ty.splits js.splits)
    next
      case (TMap u)
      with Suc.prems na Suc.IH show ?thesis
        by (fastforce simp: assignable.simps(2) list_all_iff split: ty.splits js.splits)
    next
      case (TRec gs)
      with Suc.prems(1) na obtain fs where a: "a = TRec fs"
        by (auto simp: assignable.simps(2) split: ty.splits)
      with Suc.prems(2) obtain kvs where v: "v = JObj kvs" and fs: "conforms_fields fs kvs"
        by (auto split: js.splits)
      have "field_conforms g (js_get kvs (field_name g))" if "g \<in> set gs" for g
        using Suc.prems(1) a TRec that
        by (intro field_ok_sound [OF _ Suc.IH fs]) (auto simp: assignable.simps(2) list_all_iff)
      with v TRec show ?thesis by (simp add: conforms_fields_iff)
    qed (use Suc.prems na in \<open>auto simp: assignable.simps(2) split: ty.splits js.splits\<close>)
  qed
qed simp

end
