(* ===== verification/Ipc_Contract.thy ===== *)
theory Ipc_Contract
  imports Ipc_Types
begin

text \<open>
  The registry of \<open>src/src/types/ipc.ts\<close>: the interfaces that cross the boundary to the
  native side (with the synchronisation types of \<open>features/sync/types.ts\<close> and the payload types
  of \<open>lib/backend.ts\<close> they mention), and for every command of \<open>IpcCommands\<close> its argument and
  return type. An omitted argument is the value \<open>undefined\<close>; \<open>Record<string, never>\<close> is the
  record without fields.
\<close>

section \<open>Data types\<close>

definition ty_MobileAutofillStatus :: ty where
  "ty_MobileAutofillStatus =
     TRec [Req ''supported'' TBool, Req ''enabled'' TBool, Req ''active_provider'' TStr,
     Req ''mapped_packages_count'' TNum, Req ''strict_domain_matching'' TBool,
     Req ''asset_links_enforced'' TBool, Req ''webview_origin_protected'' TBool,
     Req ''biometric_stepup_required'' TBool]"

definition ty_AutofillCredentialItem :: ty where
  "ty_AutofillCredentialItem =
     TRec [Req ''entry_id'' TStr, Req ''title'' TStr, Req ''username'' TStr, Req ''domain'' TStr,
     Req ''matched_by'' TStr, Req ''is_exact_package_match'' TBool,
     Req ''requires_user_consent'' TBool, Req ''requires_biometric_reauth'' TBool]"

definition ty_AutofillDatasetPayload :: ty where
  "ty_AutofillDatasetPayload =
     TRec [Req ''package_name'' TStr, Opt ''web_domain'' TStr,
     Req ''matched_credentials'' (TArr ty_AutofillCredentialItem),
     Req ''asset_links_verified'' TBool]"

definition ty_SmartLoginBrowserInfo :: ty where
  "ty_SmartLoginBrowserInfo =
     TRec [Req ''name'' TStr, Req ''exe_path'' TStr, Req ''profile_dir'' TStr,
     Req ''process_name'' TStr, Req ''is_default'' TBool, Req ''is_running'' TBool]"

definition ty_SmartLoginPreCheckResult :: ty where
  "ty_SmartLoginPreCheckResult =
     TRec [Req ''browsers'' (TArr ty_SmartLoginBrowserInfo),
     Req ''recommended_index'' (TUnion [TNum, TNull]), Req ''needs_close'' TBool,
     Req ''error'' (TUnion [TStr, TNull])]"

definition ty_VaultInfo :: ty where
  "ty_VaultInfo =
     TRec [Req ''id'' TStr, Req ''name'' TStr, Req ''path'' TStr, Req ''entry_count'' TNum,
     Req ''last_opened'' (TUnion [TStr, TNull])]"

definition ty_FieldType :: ty where
  "ty_FieldType =
     TUnion [TLit ''Text'', TLit ''Password'', TLit ''Username'', TLit ''Email'', TLit ''Url'',
     TLit ''Phone'', TLit ''Date'', TLit ''Address'', TLit ''Notes'', TLit ''Totp'', TLit ''File'']"

definition ty_CustomField :: ty where
  "ty_CustomField =
     TRec [Req ''id'' TStr, Req ''name'' TStr, Req ''field_type'' ty_FieldType, Req ''value'' TStr,
     Req ''sensitive'' TBool]"

definition ty_EntryType :: ty where
  "ty_EntryType =
     TUnion [TLit ''Login'', TLit ''CreditCard'', TLit ''Identity'', TLit ''SecureNote'',
     TLit ''SshKey'', TLit ''ApiKey'', TLit ''WifiPassword'', TLit ''CryptoWallet'',
     TLit ''Custom'']"

definition ty_BreachStatus :: ty where
  "ty_BreachStatus =
     TUnion [TLit ''Unknown'', TLit ''Checking'',
     TRec [Req ''Safe'' (TRec [Req ''checked_at'' TStr])],
     TRec [Req ''Breached'' (TRec [Req ''breach_count'' TNum, Req ''checked_at'' TStr])],
     TRec [Req ''Error'' (TRec [Req ''message'' TStr])]]"

definition ty_StrengthLevel :: ty where
  "ty_StrengthLevel =
     TUnion [TLit ''Critical'', TLit ''Weak'', TLit ''Fair'', TLit ''Strong'', TLit ''Excellent'']"

definition ty_StrengthScore :: ty where
  "ty_StrengthScore =
     TRec [Req ''entropy_bits'' TNum, Req ''crack_time'' TStr, Req ''level'' ty_StrengthLevel,
     Req ''warnings'' (TArr TStr)]"

definition ty_AttachmentInfo :: ty where
  "ty_AttachmentInfo =
     TRec [Req ''id'' TStr, Req ''name'' TStr, Req ''size'' TNum, Req ''mime_type'' TStr,
     Req ''created_at'' TStr]"

definition ty_NewAttachment :: ty where
  "ty_NewAttachment =
     TRec [Req ''name'' TStr, Req ''mime_type'' TStr, Req ''data'' (TUnion [TArr TNum, TBytes])]"

definition ty_PasswordHistoryItem :: ty where
  "ty_PasswordHistoryItem =
     TRec [Req ''password_encrypted'' (TRec [Req ''nonce'' (TArr TNum),
     Req ''ciphertext'' (TArr TNum)]), Req ''changed_at'' TStr,
     Req ''breach_status'' ty_BreachStatus]"

definition ty_EntryPreview :: ty where
  "ty_EntryPreview =
     TRec [Req ''id'' TStr, Req ''title'' TStr, Req ''username'' TStr, Req ''url'' TStr,
     Req ''email'' TStr, Req ''tags'' (TArr TStr), Req ''favorite'' TBool, Req ''pinned'' TBool,
     Req ''has_totp'' TBool, Req ''entry_type'' ty_EntryType, Req ''updated_at'' TStr,
     Req ''breach_status'' ty_BreachStatus, Req ''strength_score'' (TUnion [ty_StrengthScore,
     TNull]), Req ''password_age_days'' TNum, Req ''has_passkey'' TBool,
     Opt ''attachment_count'' TNum]"

definition ty_CheckUpdateResult :: ty where
  "ty_CheckUpdateResult =
     TRec [Req ''current_version'' TStr, Req ''latest_version'' TStr, Req ''has_update'' TBool,
     Opt ''release_notes'' (TUnion [TStr, TNull]), Opt ''pub_date'' (TUnion [TStr, TNull]),
     Opt ''download_url'' (TUnion [TStr, TNull]), Opt ''sha256'' (TUnion [TStr, TNull]),
     Opt ''signature'' (TUnion [TStr, TNull]), Req ''target_platform'' TStr]"

definition ty_DecryptedEntry :: ty where
  "ty_DecryptedEntry =
     TRec [Req ''id'' TStr, Req ''title'' TStr, Req ''username'' TStr, Req ''password'' TStr,
     Req ''url'' TStr, Req ''email'' TStr, Req ''notes'' TStr, Req ''tags'' (TArr TStr),
     Req ''favorite'' TBool, Req ''pinned'' TBool, Req ''totp_secret'' (TUnion [TStr, TNull]),
     Req ''custom_fields'' (TArr ty_CustomField), Req ''entry_type'' ty_EntryType,
     Req ''created_at'' TStr, Req ''updated_at'' TStr, Req ''password_changed_at'' TStr,
     Req ''breach_status'' ty_BreachStatus, Req ''strength_score'' (TUnion [ty_StrengthScore,
     TNull]), Req ''password_history_count'' TNum, Req ''has_passkey'' TBool,
     Req ''passkey_public_key'' (TUnion [TArr TNum, TNull]),
     Opt ''attachments'' (TArr ty_AttachmentInfo)]"

definition ty_NewEntry :: ty where
  "ty_NewEntry =
     TRec [Req ''title'' TStr, Req ''username'' TStr, Req ''password'' TStr, Opt ''url'' TStr,
     Opt ''email'' TStr, Opt ''notes'' TStr, Opt ''tags'' (TArr TStr), Opt ''favorite'' TBool,
     Opt ''pinned'' TBool, Opt ''totp_secret'' (TUnion [TStr, TNull]),
     Opt ''custom_fields'' (TArr ty_CustomField), Opt ''entry_type'' (TUnion [ty_EntryType, TNull]),
     Opt ''generate_passkey'' TBool, Opt ''attachments'' (TArr ty_NewAttachment)]"

definition ty_BulkEntryUpdate :: ty where
  "ty_BulkEntryUpdate =
     TRec [Opt ''title'' TStr, Opt ''username'' TStr, Opt ''url'' TStr, Opt ''favorite'' TBool,
     Opt ''pinned'' TBool, Opt ''notes'' TStr, Req ''append_notes'' TBool,
     Req ''tags_to_add'' (TArr TStr), Req ''tags_to_remove'' (TArr TStr)]"

definition ty_UpdateEntry :: ty where
  "ty_UpdateEntry =
     TRec [Opt ''title'' TStr, Opt ''username'' TStr, Opt ''password'' TStr, Opt ''url'' TStr,
     Opt ''email'' TStr, Opt ''notes'' TStr, Opt ''tags'' (TArr TStr), Opt ''favorite'' TBool,
     Opt ''pinned'' TBool, Opt ''totp_secret'' (TUnion [TStr, TNull]),
     Opt ''custom_fields'' (TArr ty_CustomField), Opt ''entry_type'' (TUnion [ty_EntryType, TNull]),
     Opt ''breach_status'' ty_BreachStatus, Opt ''passkey_action'' (TUnion [TLit ''generate'',
     TLit ''remove'']), Opt ''new_attachments'' (TArr ty_NewAttachment),
     Opt ''delete_attachment_ids'' (TArr TStr)]"

definition ty_TrashedEntryPreview :: ty where
  "ty_TrashedEntryPreview =
     TRec [Req ''id'' TStr, Req ''title'' TStr, Req ''deleted_at'' TStr,
     Req ''days_until_permanent'' TNum, Opt ''username'' TStr, Opt ''url'' TStr]"

definition ty_VaultStorageMetrics :: ty where
  "ty_VaultStorageMetrics =
     TRec [Req ''entry_count'' TNum, Req ''trashed_entry_count'' TNum, Req ''tag_count'' TNum,
     Req ''active_attachment_count'' TNum, Req ''active_attachment_bytes'' TNum,
     Req ''trashed_attachment_count'' TNum, Req ''trashed_attachment_bytes'' TNum,
     Req ''vault_file_bytes'' TNum]"

definition ty_DecryptedHistoryItem :: ty where
  "ty_DecryptedHistoryItem =
     TRec [Req ''password'' TStr, Req ''changed_at'' TStr, Req ''breach_status'' ty_BreachStatus]"

definition ty_TotpAlgorithm :: ty where
  "ty_TotpAlgorithm =
     TUnion [TLit ''SHA1'', TLit ''SHA256'', TLit ''SHA512'', TLit ''Steam'']"

definition ty_TotpConfig :: ty where
  "ty_TotpConfig =
     TRec [Req ''secret'' TStr, Req ''algorithm'' ty_TotpAlgorithm, Req ''digits'' TNum,
     Req ''period'' TNum, Req ''issuer'' (TUnion [TStr, TNull]), Req ''label'' (TUnion [TStr,
     TNull])]"

definition ty_TotpCode :: ty where
  "ty_TotpCode =
     TRec [Req ''code'' TStr, Req ''seconds_remaining'' TNum, Req ''period'' TNum]"

definition ty_GeneratorOptions :: ty where
  "ty_GeneratorOptions =
     TRec [Opt ''mode'' (TUnion [TLit ''Random'', TLit ''Diceware'']), Req ''length'' TNum,
     Req ''uppercase'' TBool, Req ''lowercase'' TBool, Req ''digits'' TBool, Req ''symbols'' TBool,
     Opt ''exclude_ambiguous'' TBool, Opt ''custom_symbols'' (TUnion [TStr, TNull]),
     Opt ''word_count'' TNum, Opt ''separator'' TStr, Opt ''min_uppercase'' TNum,
     Opt ''min_lowercase'' TNum, Opt ''min_digits'' TNum, Opt ''min_symbols'' TNum]"

definition ty_BreachResult :: ty where
  "ty_BreachResult =
     TRec [Req ''is_breached'' TBool, Req ''breach_count'' TNum, Req ''checked_at'' TStr]"

definition ty_IssueType :: ty where
  "ty_IssueType =
     TUnion [TLit ''Breached'', TLit ''WeakPassword'', TLit ''ReusedPassword'',
     TLit ''OldPassword'', TLit ''Missing2FA'', TLit ''ShortPassword'']"

definition ty_IssueSeverity :: ty where
  "ty_IssueSeverity =
     TUnion [TLit ''Info'', TLit ''Warning'', TLit ''Critical'']"

definition ty_SecurityIssue :: ty where
  "ty_SecurityIssue =
     TRec [Req ''entry_id'' TStr, Req ''entry_title'' TStr, Req ''issue_type'' ty_IssueType,
     Req ''severity'' ty_IssueSeverity, Req ''description'' TStr]"

definition ty_SecurityAudit :: ty where
  "ty_SecurityAudit =
     TRec [Req ''total_entries'' TNum, Req ''breached_count'' TNum, Req ''weak_count'' TNum,
     Req ''reused_count'' TNum, Req ''old_count'' TNum, Req ''no_2fa_count'' TNum,
     Req ''health_score'' TNum, Req ''issues'' (TArr ty_SecurityIssue)]"

definition ty_BiometricInfo :: ty where
  "ty_BiometricInfo =
     TRec [Req ''available'' TBool, Req ''biometric_type'' TStr]"

definition ty_Hardware2FaProtocol :: ty where
  "ty_Hardware2FaProtocol =
     TUnion [TLit ''YubiKeyChallengeResponse'', TLit ''Fido2Ctap2HmacSecret'']"

definition ty_HardwareKeyInfo :: ty where
  "ty_HardwareKeyInfo =
     TRec [Req ''id'' TStr, Req ''name'' TStr, Req ''protocol'' ty_Hardware2FaProtocol,
     Req ''serial'' (TUnion [TNum, TNull]), Req ''is_connected'' TBool]"

definition ty_Hardware2FaInfo :: ty where
  "ty_Hardware2FaInfo =
     TRec [Req ''available'' TBool, Req ''key_count'' TNum,
     Req ''supported_protocols'' (TArr ty_Hardware2FaProtocol),
     Req ''connected_keys'' (TArr ty_HardwareKeyInfo)]"

definition ty_Hardware2FaChallengeInfo :: ty where
  "ty_Hardware2FaChallengeInfo =
     TRec [Req ''enabled'' TBool, Opt ''payload_key_bound'' TBool,
     Req ''protocol'' ty_Hardware2FaProtocol, Req ''key_name'' TStr,
     Req ''challenge_salt'' (TArr TNum), Req ''credential_id'' (TArr TNum)]"

definition ty_EmergencyShare :: ty where
  "ty_EmergencyShare =
     TRec [Req ''share_index'' TNum, Req ''label'' TStr, Req ''share_data'' TStr]"

definition ty_EmergencyKit :: ty where
  "ty_EmergencyKit =
     TRec [Req ''vault_id'' TStr, Req ''vault_name'' TStr, Req ''created_at'' TStr,
     Req ''generated_at'' TStr, Req ''format_version'' TNum, Req ''total_entries'' TNum,
     Req ''shares'' (TArr ty_EmergencyShare), Req ''verification_hash'' TStr,
     Req ''document_markdown'' TStr]"

definition ty_EmergencyKitAuditEntry :: ty where
  "ty_EmergencyKitAuditEntry =
     TRec [Req ''timestamp'' TStr, Req ''fingerprint'' TStr,
     Req ''action'' (TUnion [TLit ''generated'', TLit ''reset'', TLit ''invalidated'', TStr])]"

definition ty_EmergencyKitAudit :: ty where
  "ty_EmergencyKitAudit =
     TRec [Req ''active_fingerprint'' TStr, Req ''last_generated_at'' TStr,
     Req ''generation_count'' TNum, Req ''history'' (TArr ty_EmergencyKitAuditEntry)]"

definition ty_Tag :: ty where
  "ty_Tag =
     TRec [Req ''id'' TStr, Req ''name'' TStr, Req ''color'' TStr, Req ''icon'' TStr,
     Opt ''default_url'' TStr, Req ''count'' TNum]"

definition ty_MergeStats :: ty where
  "ty_MergeStats =
     TRec [Req ''entries_added'' TNum, Req ''entries_updated'' TNum,
     Req ''entries_kept_local'' TNum, Req ''tags_merged'' TNum, Req ''trash_merged'' TNum]"

definition ty_PairingStats :: ty where
  "ty_PairingStats =
     TRec [Opt ''peer_saved'' (TUnion [TBool, TNull]), Req ''entries_sent'' TNum,
     Req ''entries_received'' TNum, Req ''entries_merged'' TNum, Req ''total_entries'' TNum,
     Opt ''vault_path'' (TUnion [TStr, TNull]), Opt ''peer_addr'' (TUnion [TStr, TNull])]"

definition ty_QrSessionInfo :: ty where
  "ty_QrSessionInfo =
     TRec [Req ''session_id'' TStr, Req ''qr_payload'' TStr, Req ''sas_code'' TStr,
     Req ''expires_at'' TNum]"

definition ty_QrClientPairingResult :: ty where
  "ty_QrClientPairingResult =
     TRec [Req ''stats'' ty_PairingStats, Req ''has_master_password'' TBool,
     Req ''needs_password'' TBool, Req ''sas_code'' TStr]"

definition ty_LocalDeviceInfo :: ty where
  "ty_LocalDeviceInfo =
     TRec [Req ''id'' TStr, Req ''name'' TStr, Req ''device_type'' TStr, Req ''os'' TStr]"

definition ty_TrustedDevice :: ty where
  "ty_TrustedDevice =
     TRec [Req ''id'' TStr, Req ''name'' TStr, Req ''device_type'' (TUnion [TLit ''desktop'',
     TLit ''mobile'', TLit ''tablet'', TLit ''other'', TStr]), Req ''os'' TStr,
     Req ''paired_at'' TStr, Opt ''last_sync_at'' (TUnion [TStr, TNull]), Opt ''token_hash'' TStr]"

definition ty_InstalledApp :: ty where
  "ty_InstalledApp =
     TRec [Req ''name'' TStr, Req ''path'' TStr, Opt ''category'' TStr, Opt ''is_system'' TBool]"

definition ty_ParsedImportEntry :: ty where
  "ty_ParsedImportEntry =
     TRec [Req ''title'' TStr, Req ''username'' TStr, Req ''password'' TStr, Req ''url'' TStr,
     Req ''email'' TStr, Req ''notes'' TStr, Req ''totp_secret'' (TUnion [TStr, TNull]),
     Opt ''custom_fields'' (TArr ty_CustomField), Opt ''entry_type'' ty_EntryType,
     Req ''tags'' (TArr TStr), Req ''is_duplicate'' TBool, Opt ''duplicate_reason'' (TUnion [TStr,
     TNull]), Opt ''duplicate_target_id'' TStr, Opt ''duplicate_target_title'' TStr]"

definition ty_ImportPreviewResult :: ty where
  "ty_ImportPreviewResult =
     TRec [Req ''format_detected'' TStr, Req ''detected_format_key'' TStr,
     Req ''is_format_mismatch'' TBool, Opt ''suggested_brand_name'' (TUnion [TStr, TNull]),
     Req ''total_found'' TNum, Req ''entries'' (TArr ty_ParsedImportEntry),
     Req ''duplicates_count'' TNum, Opt ''parse_errors'' (TArr TStr)]"

definition ty_SyncChoice :: ty where
  "ty_SyncChoice =
     TUnion [TLit ''local'', TLit ''remote'', TLit ''both'', TLit ''edited'']"

definition ty_SyncDecision :: ty where
  "ty_SyncDecision =
     TRec [Req ''key'' TStr, Req ''choice'' ty_SyncChoice, Opt ''text'' (TUnion [TStr, TNull])]"

definition ty_SyncPolicy :: ty where
  "ty_SyncPolicy =
     TRec [Req ''review_conflicts_only'' TBool, Req ''prefer_latest'' TBool]"

definition ty_SyncChange :: ty where
  "ty_SyncChange =
     TRec [Req ''key'' TStr, Req ''entry_id'' TStr, Req ''title'' TStr, Req ''field'' TStr,
     Opt ''custom_field_name'' (TUnion [TStr, TNull]), Req ''conflict'' TBool,
     Req ''suggested'' (TUnion [ty_SyncChoice, TNull]), Req ''local_changed_at'' (TUnion [TStr,
     TNull]), Req ''remote_changed_at'' (TUnion [TStr, TNull]), Req ''local_device'' (TUnion [TStr,
     TNull]), Req ''remote_device'' (TUnion [TStr, TNull]), Opt ''local_device_name'' (TUnion [TStr,
     TNull]), Opt ''remote_device_name'' (TUnion [TStr, TNull]), Req ''local_present'' TBool,
     Req ''remote_present'' TBool, Req ''sensitive'' TBool, Req ''can_keep_both'' TBool,
     Req ''can_edit'' TBool, Opt ''time_order_reliable'' TBool,
     Opt ''requires_explicit_choice'' TBool,
     Opt ''keep_both_entries'' (TUnion [TArr (TRec [Req ''id'' TStr, Req ''title'' TStr]), TNull]),
     Opt ''local_state'' (TUnion [TLit ''active'', TLit ''trash'', TLit ''deleted'',
     TLit ''absent'', TNull]), Opt ''remote_state'' (TUnion [TLit ''active'', TLit ''trash'',
     TLit ''deleted'', TLit ''absent'', TNull])]"

definition ty_SyncPreview :: ty where
  "ty_SyncPreview =
     TRec [Req ''id'' TStr, Opt ''background'' TBool, Req ''local_revision'' TStr,
     Req ''remote_revision'' TStr, Req ''changes'' (TArr ty_SyncChange)]"

definition ty_SyncOperation :: ty where
  "ty_SyncOperation =
     TRec [Req ''id'' TStr, Req ''transport'' (TUnion [TLit ''p2p_listener'', TLit ''p2p_client'',
     TLit ''webdav'', TLit ''sync'', TLit ''pairing'']), Req ''phase'' (TUnion [TLit ''connecting'',
     TLit ''listening'', TLit ''comparing'', TLit ''reviewing'', TLit ''awaiting_review'',
     TLit ''preparing'', TLit ''saving'', TLit ''waiting_peer'', TLit ''complete'',
     TLit ''incomplete'', TLit ''cancelled'', TLit ''failed'']), Req ''error'' (TUnion [TStr,
     TNull]), Opt ''peer_device_id'' (TUnion [TStr, TNull])]"

definition ty_SyncOutcome :: ty where
  "ty_SyncOutcome =
     TRec [Req ''operation'' ty_SyncOperation, Req ''stats'' ty_MergeStats]"


section \<open>Commands\<close>

type_synonym command = "string \<times> ty \<times> ty"

definition commands_runtime :: "command list" where
  "commands_runtime =
     [(''configure_auto_lock'', TRec [Req ''seconds'' TNum], TVoid),
      (''record_user_activity'', TVoid, TVoid),
      (''import_vault_document'', TRec [Req ''path'' TStr], TStr),
      (''export_attachment'', TRec [Req ''entryId'' TStr, Req ''attachmentId'' TStr, Req ''path'' TStr], TVoid),
      (''get_runtime_platform'', TVoid, TStr),
      (''load_ui_metadata'', TVoid, TMap TStr),
      (''save_ui_metadata'', TRec [Req ''values'' (TMap TStr), Opt ''initialize'' TBool], TVoid),
      (''list_usb_storage_devices'', TVoid, TArr (TRec [Req ''id'' TStr, Req ''name'' TStr])),
      (''get_local_protection'', TVoid, TRec [Req ''protected'' TBool, Req ''usb_bound'' TBool,
         Req ''recovery_enabled'' TBool]),
      (''set_usb_binding'', TRec [Req ''password'' TStr, Opt ''keyFilePath'' TStr, Opt ''usbId'' TStr],
         ty_EmergencyKit),
      (''revoke_recovery'', TRec [Req ''password'' TStr, Opt ''keyFilePath'' TStr], TVoid),
      (''recover_vault'', TRec [Req ''path'' TStr, Req ''shareA'' TStr, Req ''shareB'' TStr,
         Req ''newPassword'' TStr], ty_VaultInfo),
      (''create_protected_vault'', TRec [Req ''name'' TStr, Req ''password'' TStr, Req ''path'' TStr,
         Req ''usbId'' TStr, Opt ''keyFilePath'' TStr], TRec [Req ''info'' ty_VaultInfo, Req ''kit'' ty_EmergencyKit]),
      (''export_recovery_share'', TRec [Req ''path'' TStr, Req ''share'' TStr], TVoid)]"

definition commands_vault :: "command list" where
  "commands_vault =
     [(''create_vault'', TRec [Req ''name'' TStr, Req ''password'' TStr, Req ''path'' TStr,
         Opt ''keyFilePath'' (TUnion [TStr, TNull])], ty_VaultInfo),
      (''get_mobile_vault_path'', TRec [Req ''name'' TStr], TUnion [TStr, TNull]),
      (''open_vault'', TRec [Req ''path'' TStr, Req ''password'' TStr, Opt ''keyFilePath'' (TUnion [TStr, TNull])],
         ty_VaultInfo),
      (''lock_vault'', TUnion [TRec [], TVoid], TVoid),
      (''get_vault_info'', TUnion [TRec [], TVoid], TUnion [ty_VaultInfo, TNull]),
      (''generate_key_file'', TRec [Req ''path'' TStr], TVoid),
      (''get_vault_path'', TUnion [TRec [], TVoid], TStr),
      (''check_vault_file_exists'', TRec [Req ''path'' TStr], TBool),
      (''show_in_explorer'', TRec [Req ''path'' TStr], TVoid),
      (''check_biometric_available'', TUnion [TRec [], TVoid], ty_BiometricInfo),
      (''is_biometric_enabled'', TRec [Req ''path'' TStr], TBool),
      (''unlock_vault_biometric'', TRec [Req ''path'' TStr], ty_VaultInfo),
      (''enable_biometric'', TUnion [TRec [], TVoid], TVoid),
      (''disable_biometric'', TUnion [TRec [], TVoid], TVoid),
      (''verify_biometric_2fa'', TUnion [TRec [Opt ''prompt'' (TUnion [TStr, TNull])], TVoid], TVoid)]"

definition commands_hardware :: "command list" where
  "commands_hardware =
     [(''check_hardware2fa_available'', TUnion [TRec [], TVoid], ty_Hardware2FaInfo),
      (''list_hardware_keys'', TUnion [TRec [], TVoid], TArr ty_HardwareKeyInfo),
      (''is_hardware2fa_enabled'', TRec [Req ''path'' TStr], TBool),
      (''get_hardware2fa_challenge'', TRec [Req ''path'' TStr], TUnion [ty_Hardware2FaChallengeInfo, TNull]),
      (''open_vault_with_hardware2fa'', TRec [Req ''path'' TStr, Req ''password'' TStr,
         Opt ''keyFilePath'' (TUnion [TStr, TNull]), Req ''hardwareResponse'' (TUnion [TArr TNum, TBytes])],
         ty_VaultInfo),
      (''perform_hardware2fa_challenge'', TRec [Req ''protocol'' TStr, Opt ''challenge'' (TUnion [TArr TNum, TNull]),
         Opt ''credentialId'' (TUnion [TArr TNum, TNull])], TArr TNum),
      (''enable_hardware2fa'', TRec [Req ''password'' TStr, Opt ''keyFilePath'' (TUnion [TStr, TNull]),
         Req ''protocol'' TStr, Req ''keyName'' TStr, Opt ''challengeSalt'' (TUnion [TArr TNum, TNull]),
         Opt ''credentialId'' (TUnion [TArr TNum, TNull]), Req ''hardwareResponse'' (TUnion [TArr TNum, TBytes])],
         TVoid),
      (''disable_hardware2fa'', TUnion [TRec [], TVoid], TVoid)]"

definition commands_entries :: "command list" where
  "commands_entries =
     [(''list_entries'', TUnion [TRec [], TVoid], TArr ty_EntryPreview),
      (''search_entries'', TRec [Req ''query'' TStr], TArr ty_EntryPreview),
      (''get_entry'', TRec [Req ''id'' TStr], ty_DecryptedEntry),
      (''add_entry'', TRec [Req ''entry'' ty_NewEntry], TStr),
      (''update_entry'', TRec [Req ''id'' TStr, Req ''update'' ty_UpdateEntry], TVoid),
      (''bulk_update_entries'', TRec [Req ''ids'' (TArr TStr), Req ''patch'' ty_BulkEntryUpdate], TVoid),
      (''bulk_delete_entries'', TRec [Req ''ids'' (TArr TStr)], TVoid),
      (''update_entry_breach_status'', TRec [Req ''id'' TStr, Req ''breachStatus'' ty_BreachStatus], TVoid),
      (''save_vault'', TUnion [TRec [], TVoid], TVoid),
      (''reload_vault'', TUnion [TRec [], TVoid], TVoid),
      (''delete_entry'', TRec [Req ''id'' TStr], TVoid),
      (''toggle_favorite'', TRec [Req ''id'' TStr], TBool),
      (''toggle_pin'', TRec [Req ''id'' TStr], TBool),
      (''get_attachment_data'', TRec [Req ''entryId'' TStr, Req ''attachmentId'' TStr], TUnion [TBytes, TBytes,
         TArr TNum]),
      (''add_attachment'', TRec [Req ''entryId'' TStr, Req ''name'' TStr, Req ''mimeType'' TStr,
         Req ''data'' (TUnion [TArr TNum, TBytes])], ty_AttachmentInfo),
      (''delete_attachment'', TRec [Req ''entryId'' TStr, Req ''attachmentId'' TStr], TVoid)]"

definition commands_trash :: "command list" where
  "commands_trash =
     [(''list_trash'', TUnion [TRec [], TVoid], TArr ty_TrashedEntryPreview),
      (''restore_from_trash'', TRec [Req ''id'' TStr], TVoid),
      (''permanent_delete'', TRec [Req ''id'' TStr], TVoid),
      (''empty_trash'', TUnion [TRec [], TVoid], TVoid),
      (''purge_expired_trash'', TUnion [TRec [Opt ''maxAgeDays'' TNum], TVoid], TNum),
      (''get_storage_metrics'', TUnion [TRec [], TVoid], ty_VaultStorageMetrics),
      (''compact_vault'', TUnion [TRec [], TVoid], ty_VaultStorageMetrics),
      (''list_conflict_history'', TRec [Req ''entryId'' TStr], TArr (TRec [Req ''id'' TStr, Req ''saved_at'' TStr])),
      (''preview_conflict_history'', TRec [Req ''entryId'' TStr, Req ''versionId'' TStr], ty_SyncPreview),
      (''inspect_conflict_history'', TRec [Req ''entryId'' TStr, Req ''versionId'' TStr, Req ''field'' TStr], TStr),
      (''restore_conflict_history'', TRec [Req ''entryId'' TStr, Req ''versionId'' TStr,
         Req ''expectedRevision'' TStr], TVoid),
      (''get_password_history'', TRec [Req ''entryId'' TStr], TArr ty_DecryptedHistoryItem)]"

definition commands_tools :: "command list" where
  "commands_tools =
     [(''generate_totp'', TRec [Req ''secret'' TStr], ty_TotpCode),
      (''generate_totp_with_config'', TRec [Req ''config'' ty_TotpConfig], ty_TotpCode),
      (''parse_otpauth_uri'', TRec [Req ''uri'' TStr], ty_TotpConfig),
      (''generate_password'', TRec [Req ''options'' ty_GeneratorOptions], TStr),
      (''generate_password_default'', TUnion [TRec [], TVoid], TStr),
      (''check_password_breach'', TRec [Req ''password'' TStr], ty_BreachResult),
      (''analyze_password_strength'', TRec [Req ''password'' TStr], ty_StrengthScore),
      (''security_audit'', TUnion [TRec [], TVoid], ty_SecurityAudit),
      (''change_master_password'', TRec [Req ''current'' TStr, Req ''newPassword'' TStr,
         Opt ''currentKeyFile'' (TUnion [TStr, TNull]), Opt ''newKeyFile'' (TUnion [TStr, TNull])],
         TUnion [ty_EmergencyKit, TNull]),
      (''generate_emergency_kit'', TRec [Req ''masterPassword'' TStr, Opt ''keyFilePath'' TStr], ty_EmergencyKit)]"

definition commands_tags :: "command list" where
  "commands_tags =
     [(''get_tags'', TUnion [TRec [], TVoid], TArr ty_Tag),
      (''add_tag'', TRec [Req ''name'' TStr, Req ''color'' TStr, Req ''icon'' TStr, Opt ''defaultUrl'' TStr], TStr),
      (''delete_tag'', TRec [Req ''id'' TStr], TVoid),
      (''update_tag'', TRec [Req ''id'' TStr, Req ''name'' TStr, Req ''color'' TStr, Req ''icon'' TStr,
         Opt ''defaultUrl'' TStr], TVoid),
      (''reorder_tags'', TRec [Req ''tagIds'' (TArr TStr)], TVoid),
      (''autotype'', TRec [Req ''text'' TStr, Opt ''charDelayMs'' TNum, Opt ''settleDelayMs'' TNum], TVoid),
      (''run_smart_autotype'', TRec [Req ''username'' TStr, Req ''password'' TStr, Req ''totpSecret'' TStr,
         Req ''url'' TStr, Req ''launchBrowser'' TBool, Req ''charDelayMs'' TNum, Req ''fieldDelayMs'' TNum], TVoid),
      (''enable_autostart'', TUnion [TRec [], TVoid], TVoid),
      (''disable_autostart'', TUnion [TRec [], TVoid], TVoid),
      (''is_autostart_enabled'', TUnion [TRec [], TVoid], TBool),
      (''get_favicon'', TRec [Req ''domain'' TStr], TUnion [TStr, TNull]),
      (''set_external_favicons_enabled'', TRec [Req ''enabled'' TBool], TVoid),
      (''set_network_access'', TRec [Req ''enabled'' TBool], TVoid),
      (''is_external_favicons_enabled'', TUnion [TRec [], TVoid], TBool),
      (''set_minimize_to_tray'', TRec [Req ''enabled'' TBool], TVoid),
      (''get_installed_apps'', TUnion [TRec [], TVoid], TArr ty_InstalledApp),
      (''set_window_capture_protection'', TRec [Req ''enable'' TBool], TVoid),
      (''set_lock_on_focus_loss'', TRec [Req ''enabled'' TBool], TVoid),
      (''set_lock_on_system_lock'', TRec [Req ''enabled'' TBool], TVoid)]"

definition commands_sync :: "command list" where
  "commands_sync =
     [(''webdav_upload'', TRec [Req ''url'' TStr, Req ''username'' TStr, Opt ''password'' (TUnion [TStr, TNull]),
         Req ''dbPath'' TStr, Opt ''ifMatchEtag'' (TUnion [TStr, TNull])], TUnion [TStr, TNull]),
      (''webdav_download'', TRec [Req ''url'' TStr, Req ''username'' TStr, Opt ''password'' (TUnion [TStr, TNull]),
         Req ''destDbPath'' TStr], TVoid),
      (''get_sync_operations'', TUnion [TRec [], TVoid], TArr ty_SyncOperation),
      (''get_sync_review'', TRec [], TUnion [ty_SyncPreview, TNull]),
      (''inspect_sync_field'', TRec [Req ''id'' TStr, Req ''key'' TStr, Req ''remote'' TBool], TStr),
      (''approve_sync_review'', TRec [Req ''id'' TStr, Req ''decisions'' (TArr ty_SyncDecision)], TVoid),
      (''cancel_sync_review'', TRec [], TVoid),
      (''get_sync_policy'', TRec [], ty_SyncPolicy),
      (''set_sync_policy'', TRec [Req ''policy'' ty_SyncPolicy], TVoid),
      (''webdav_sync'', TRec [Req ''url'' TStr, Req ''username'' TStr, Opt ''password'' (TUnion [TStr, TNull]),
         Opt ''background'' TBool], ty_SyncOutcome),
      (''webdav_test_connection'', TRec [Req ''url'' TStr, Req ''username'' TStr, Opt ''password'' (TUnion [TStr,
         TNull])], TVoid),
      (''cancel_p2p_sync_listener'', TRec [], TVoid),
      (''run_p2p_sync_listener'', TRec [Req ''listenAddr'' TStr, Req ''dbPath'' TStr], ty_SyncOutcome),
      (''run_p2p_sync_client'', TRec [Req ''serverAddr'' TStr, Req ''dbPath'' TStr, Opt ''deviceId'' TStr,
         Opt ''background'' TBool], ty_SyncOutcome),
      (''get_local_ip'', TRec [], TUnion [TStr, TNull]),
      (''get_local_ips'', TUnion [TRec [], TVoid], TArr TStr),
      (''scan_p2p_discovery'', TRec [Opt ''timeoutMs'' (TUnion [TNum, TNull])], TUnion [TStr, TNull]),
      (''generate_pairing_code'', TUnion [TRec [], TVoid], TStr),
      (''get_local_device_info'', TUnion [TRec [], TVoid], ty_LocalDeviceInfo),
      (''get_trusted_devices'', TUnion [TRec [], TVoid], TArr ty_TrustedDevice),
      (''revoke_trusted_device'', TRec [Req ''deviceId'' TStr], TVoid),
      (''start_pairing_host'', TRec [Req ''listenAddr'' TStr, Req ''password'' TStr, Req ''pairingCode'' TStr,
         Opt ''deviceName'' TStr], ty_PairingStats),
      (''cancel_pairing_host'', TUnion [TRec [], TVoid], TVoid),
      (''start_pairing_client'', TRec [Req ''serverAddr'' TStr, Req ''password'' TStr, Req ''pairingCode'' TStr,
         Req ''dbPath'' TStr, Opt ''deviceName'' TStr], ty_PairingStats),
      (''scan_pairing_discovery'', TRec [Req ''password'' TStr, Req ''pairingCode'' TStr,
         Opt ''timeoutMs'' (TUnion [TNum, TNull])], TUnion [TStr, TNull]),
      (''generate_qr_pairing_session'', TRec [Opt ''deviceName'' TStr], ty_QrSessionInfo),
      (''start_qr_pairing_host'', TRec [Req ''password'' TStr, Req ''includePassword'' TBool,
         Opt ''deviceName'' TStr], ty_PairingStats),
      (''cancel_qr_pairing_host'', TUnion [TRec [], TVoid], TVoid),
      (''start_qr_pairing_client'', TRec [Req ''qrPayload'' TStr, Opt ''deviceName'' TStr, Opt ''password'' TStr],
         ty_QrClientPairingResult),
      (''complete_adopted_vault'', TRec [Req ''password'' TStr], ty_PairingStats)]"

definition commands_sharing :: "command list" where
  "commands_sharing =
     [(''split_master_password'', TRec [Req ''password'' TStr], TArr TStr),
      (''reconstruct_master_password'', TRec [Req ''shareA'' TStr, Req ''shareB'' TStr], TStr),
      (''reconstruct_master_password_hash'', TRec [Req ''shareA'' TStr, Req ''shareB'' TStr], TStr),
      (''get_emergency_kit_audit'', TUnion [TRec [], TVoid], TUnion [ty_EmergencyKitAudit, TNull]),
      (''reset_emergency_kit_audit'', TUnion [TRec [], TVoid], TVoid),
      (''export_vault'', TRec [Req ''destPath'' TStr], TVoid),
      (''export_vault_csv'', TRec [Req ''destPath'' TStr], TVoid),
      (''export_vault_json'', TRec [Req ''destPath'' TStr], TVoid),
      (''query_mobile_autofill_status'', TUnion [TRec [], TVoid], ty_MobileAutofillStatus),
      (''get_autofill_credentials_for_package'', TRec [Req ''packageName'' TStr, Opt ''webDomain'' (TUnion [TStr,
         TNull])], ty_AutofillDatasetPayload),
      (''parse_import_file'', TRec [Req ''filePath'' TStr, Opt ''format'' (TUnion [TStr, TNull])],
         ty_ImportPreviewResult),
      (''parse_import_content'', TRec [Req ''content'' TStr, Opt ''format'' (TUnion [TStr, TNull])],
         ty_ImportPreviewResult),
      (''import_entries'', TRec [Req ''entries'' (TArr ty_ParsedImportEntry), Req ''duplicateStrategy'' TStr], TNum)]"

definition commands_clipboard :: "command list" where
  "commands_clipboard =
     [(''copy_to_clipboard'', TRec [Req ''text'' TStr, Opt ''isSensitive'' (TUnion [TBool, TNull]),
         Opt ''clearAfterSecs'' (TUnion [TNum, TNull])], TVoid),
      (''clear_clipboard'', TUnion [TRec [], TVoid], TVoid),
      (''copy_entry_password'', TRec [Req ''entryId'' TStr, Opt ''clearAfterSecs'' (TUnion [TNum, TNull])], TVoid),
      (''copy_entry_username'', TRec [Req ''entryId'' TStr], TVoid),
      (''copy_entry_totp'', TRec [Req ''entryId'' TStr, Opt ''clearAfterSecs'' (TUnion [TNum, TNull])], TVoid),
      (''create_vault_bytes'', TRec [Req ''name'' TStr, Req ''passwordBytes'' (TArr TNum), Req ''path'' TStr,
         Opt ''keyFilePath'' (TUnion [TStr, TNull])], ty_VaultInfo),
      (''open_vault_bytes'', TRec [Req ''path'' TStr, Req ''passwordBytes'' (TArr TNum),
         Opt ''keyFilePath'' (TUnion [TStr, TNull])], ty_VaultInfo),
      (''change_master_password_bytes'', TRec [Req ''currentBytes'' (TArr TNum),
         Req ''newPasswordBytes'' (TArr TNum), Opt ''currentKeyFile'' (TUnion [TStr, TNull]),
         Opt ''newKeyFile'' (TUnion [TStr, TNull])], TUnion [ty_EmergencyKit, TNull]),
      (''autotype_entry_password'', TRec [Req ''entryId'' TStr, Opt ''charDelayMs'' (TUnion [TNum, TNull]),
         Opt ''settleDelayMs'' (TUnion [TNum, TNull])], TVoid),
      (''autotype_entry_smart'', TRec [Req ''entryId'' TStr, Opt ''launchBrowser'' (TUnion [TBool, TNull]),
         Opt ''charDelayMs'' (TUnion [TNum, TNull]), Opt ''fieldDelayMs'' (TUnion [TNum, TNull])], TVoid),
      (''smart_login_precheck'', TUnion [TRec [Opt ''entryId'' TStr], TVoid], ty_SmartLoginPreCheckResult),
      (''smart_login_close_browser'', TRec [Req ''processName'' TStr], TVoid),
      (''smart_login_start'', TRec [Req ''entryId'' TStr, Req ''browserIndex'' TNum], TVoid),
      (''smart_login_cancel'', TUnion [TRec [], TVoid], TVoid),
      (''check_app_update'', TUnion [TRec [Opt ''customEndpoint'' (TUnion [TStr, TNull])], TVoid],
         ty_CheckUpdateResult),
      (''download_and_install_apk'', TRec [Req ''apkUrl'' TStr, Opt ''expectedSha256'' (TUnion [TStr, TNull])], TStr),
      (''install_portable_update'', TRec [Req ''url'' TStr, Opt ''expectedSha256'' (TUnion [TStr, TNull])], TVoid),
      (''install_desktop_update'', TRec [Req ''url'' TStr, Req ''expectedSha256'' TStr], TVoid),
      (''get_app_version'', TUnion [TRec [], TVoid], TStr)]"


definition IpcCommands :: "command list" where
  "IpcCommands =
     commands_runtime @
     commands_vault @
     commands_hardware @
     commands_entries @
     commands_trash @
     commands_tools @
     commands_tags @
     commands_sync @
     commands_sharing @
     commands_clipboard"

definition registered :: "string \<Rightarrow> (ty \<times> ty) option" where
  "registered c = map_of IpcCommands c"

text \<open>The names a literal argument object may use.\<close>

fun object_names :: "ty \<Rightarrow> string list" where
  "object_names (TRec fs) = map field_name fs"
| "object_names (TUnion ts) = concat (map object_names ts)"
| "object_names t = []"


end
