(* ===== verification/Ui_Contract.thy ===== *)
theory Ui_Contract
  imports Ipc_Contract
begin

text \<open>
  The types of \<open>src/src/lib/backend.ts\<close>, which the user interface programs against. Where
  \<open>backend.ts\<close> re-exports a type of \<open>ipc.ts\<close> the definition of \<open>Ipc_Contract\<close> is used.
\<close>

definition ui_ConflictHistoryItem :: ty where
  "ui_ConflictHistoryItem =
     TRec [Req ''id'' TStr, Req ''saved_at'' TStr]"

definition ui_VaultInfo :: ty where
  "ui_VaultInfo =
     TRec [Req ''id'' TStr, Req ''name'' TStr, Req ''path'' TStr, Req ''entry_count'' TNum,
     Req ''last_opened'' (TUnion [TStr, TNull])]"

definition ui_BiometricInfo :: ty where
  "ui_BiometricInfo =
     TRec [Req ''available'' TBool, Req ''biometric_type'' TStr]"

definition ui_Hardware2FaProtocol :: ty where
  "ui_Hardware2FaProtocol =
     TUnion [TLit ''YubiKeyChallengeResponse'', TLit ''Fido2Ctap2HmacSecret'']"

definition ui_HardwareKeyInfo :: ty where
  "ui_HardwareKeyInfo =
     TRec [Req ''id'' TStr, Req ''name'' TStr, Req ''protocol'' ui_Hardware2FaProtocol,
     Req ''serial'' (TUnion [TNum, TNull]), Req ''is_connected'' TBool]"

definition ui_Hardware2FaInfo :: ty where
  "ui_Hardware2FaInfo =
     TRec [Req ''available'' TBool, Req ''key_count'' TNum,
     Req ''supported_protocols'' (TArr ui_Hardware2FaProtocol),
     Req ''connected_keys'' (TArr ui_HardwareKeyInfo)]"

definition ui_Hardware2FaChallengeInfo :: ty where
  "ui_Hardware2FaChallengeInfo =
     TRec [Req ''enabled'' TBool, Opt ''payload_key_bound'' TBool,
     Req ''protocol'' ui_Hardware2FaProtocol, Req ''key_name'' TStr,
     Req ''challenge_salt'' (TArr TNum), Req ''credential_id'' (TArr TNum)]"

definition ui_TrustedDevice :: ty where
  "ui_TrustedDevice =
     TRec [Req ''id'' TStr, Req ''name'' TStr, Req ''device_type'' (TUnion [TLit ''desktop'',
     TLit ''mobile'', TLit ''tablet'', TLit ''other'', TStr]), Req ''os'' TStr,
     Req ''paired_at'' TStr, Opt ''last_sync_at'' (TUnion [TStr, TNull]), Opt ''token_hash'' TStr]"

definition ui_MergeStats :: ty where
  "ui_MergeStats =
     TRec [Req ''entries_added'' TNum, Req ''entries_updated'' TNum,
     Req ''entries_kept_local'' TNum, Req ''tags_merged'' TNum, Req ''trash_merged'' TNum]"

definition ui_AttachmentInfo :: ty where
  "ui_AttachmentInfo =
     TRec [Req ''id'' TStr, Req ''name'' TStr, Req ''size'' TNum, Req ''mime_type'' TStr,
     Req ''created_at'' TStr]"

definition ui_NewAttachment :: ty where
  "ui_NewAttachment =
     TRec [Req ''name'' TStr, Req ''mime_type'' TStr, Req ''data'' (TUnion [TBytes, TArr TNum])]"

definition ui_EntryType :: ty where
  "ui_EntryType =
     TUnion [TLit ''Login'', TLit ''CreditCard'', TLit ''Identity'', TLit ''SecureNote'',
     TLit ''SshKey'', TLit ''ApiKey'', TLit ''WifiPassword'', TLit ''CryptoWallet'',
     TLit ''Custom'']"

definition ui_BreachStatus :: ty where
  "ui_BreachStatus =
     TUnion [TRec [Req ''type'' (TLit ''Unknown'')], TRec [Req ''type'' (TLit ''Checking'')],
     TRec [Req ''type'' (TLit ''Safe''), Req ''checked_at'' TStr],
     TRec [Req ''type'' (TLit ''Breached''), Req ''breach_count'' TNum, Req ''checked_at'' TStr],
     TRec [Req ''type'' (TLit ''Error''), Req ''message'' TStr]]"

definition ui_StrengthLevel :: ty where
  "ui_StrengthLevel =
     TUnion [TLit ''Critical'', TLit ''Weak'', TLit ''Fair'', TLit ''Strong'', TLit ''Excellent'']"

definition ui_StrengthScore :: ty where
  "ui_StrengthScore =
     TRec [Req ''entropy_bits'' TNum, Req ''crack_time'' TStr, Req ''level'' ui_StrengthLevel,
     Req ''warnings'' (TArr TStr)]"

definition ui_EntryPreview :: ty where
  "ui_EntryPreview =
     TRec [Req ''id'' TStr, Req ''title'' TStr, Req ''username'' TStr, Req ''url'' TStr,
     Req ''email'' TStr, Req ''tags'' (TArr TStr), Req ''favorite'' TBool, Req ''pinned'' TBool,
     Req ''has_totp'' TBool, Req ''entry_type'' ui_EntryType, Req ''updated_at'' TStr,
     Req ''breach_status'' ui_BreachStatus, Req ''strength_score'' (TUnion [ui_StrengthScore,
     TNull]), Req ''password_age_days'' TNum, Req ''has_passkey'' TBool,
     Opt ''attachment_count'' TNum]"

definition ui_FieldType :: ty where
  "ui_FieldType =
     TUnion [TLit ''Text'', TLit ''Password'', TLit ''Username'', TLit ''Email'', TLit ''Url'',
     TLit ''Phone'', TLit ''Date'', TLit ''Address'', TLit ''Notes'', TLit ''Totp'', TLit ''File'']"

definition ui_CustomField :: ty where
  "ui_CustomField =
     TRec [Req ''id'' TStr, Req ''name'' TStr, Req ''field_type'' ui_FieldType, Req ''value'' TStr,
     Req ''sensitive'' TBool]"

definition ui_DecryptedEntry :: ty where
  "ui_DecryptedEntry =
     TRec [Req ''id'' TStr, Req ''title'' TStr, Req ''username'' TStr, Req ''password'' TStr,
     Req ''url'' TStr, Req ''email'' TStr, Req ''notes'' TStr, Req ''tags'' (TArr TStr),
     Req ''favorite'' TBool, Req ''pinned'' TBool, Req ''totp_secret'' (TUnion [TStr, TNull]),
     Req ''custom_fields'' (TArr ui_CustomField), Req ''entry_type'' ui_EntryType,
     Req ''created_at'' TStr, Req ''updated_at'' TStr, Req ''password_changed_at'' TStr,
     Req ''breach_status'' ui_BreachStatus, Req ''strength_score'' (TUnion [ui_StrengthScore,
     TNull]), Req ''password_history_count'' TNum, Req ''has_passkey'' TBool,
     Req ''passkey_public_key'' (TUnion [TArr TNum, TNull]),
     Opt ''attachments'' (TArr ui_AttachmentInfo)]"

definition ui_NewEntry :: ty where
  "ui_NewEntry =
     TRec [Req ''title'' TStr, Req ''username'' TStr, Req ''password'' TStr, Req ''url'' TStr,
     Req ''email'' TStr, Req ''notes'' TStr, Req ''tags'' (TArr TStr),
     Req ''totp_secret'' (TUnion [TStr, TNull]), Req ''custom_fields'' (TArr ui_CustomField),
     Req ''entry_type'' (TUnion [ui_EntryType, TNull]), Opt ''generate_passkey'' TBool,
     Opt ''attachments'' (TArr ui_NewAttachment)]"

definition ui_BulkEntryUpdate :: ty where
  "ui_BulkEntryUpdate =
     TRec [Opt ''title'' TStr, Opt ''username'' TStr, Opt ''url'' TStr, Opt ''favorite'' TBool,
     Opt ''pinned'' TBool, Opt ''notes'' TStr, Req ''append_notes'' TBool,
     Req ''tags_to_add'' (TArr TStr), Req ''tags_to_remove'' (TArr TStr)]"

definition ui_UpdateEntry :: ty where
  "ui_UpdateEntry =
     TRec [Opt ''title'' TStr, Opt ''username'' TStr, Opt ''password'' TStr, Opt ''url'' TStr,
     Opt ''email'' TStr, Opt ''notes'' TStr, Opt ''tags'' (TArr TStr), Opt ''favorite'' TBool,
     Opt ''pinned'' TBool, Opt ''totp_secret'' TStr, Opt ''custom_fields'' (TArr ui_CustomField),
     Opt ''breach_status'' ui_BreachStatus, Opt ''passkey_action'' (TUnion [TLit ''generate'',
     TLit ''remove'']), Opt ''new_attachments'' (TArr ui_NewAttachment),
     Opt ''delete_attachment_ids'' (TArr TStr)]"

definition ui_TotpCode :: ty where
  "ui_TotpCode =
     TRec [Req ''code'' TStr, Req ''seconds_remaining'' TNum, Req ''period'' TNum]"

definition ui_TotpConfig :: ty where
  "ui_TotpConfig =
     TRec [Req ''secret'' TStr, Req ''algorithm'' (TUnion [TLit ''SHA1'', TLit ''SHA256'',
     TLit ''SHA512'', TLit ''Steam'']), Req ''digits'' TNum, Req ''period'' TNum,
     Req ''issuer'' (TUnion [TStr, TNull]), Req ''label'' (TUnion [TStr, TNull])]"

definition ui_GeneratorOptions :: ty where
  "ui_GeneratorOptions =
     TRec [Req ''mode'' (TUnion [TLit ''Random'', TLit ''Diceware'']), Req ''length'' TNum,
     Req ''uppercase'' TBool, Req ''lowercase'' TBool, Req ''digits'' TBool, Req ''symbols'' TBool,
     Req ''exclude_ambiguous'' TBool, Req ''custom_symbols'' (TUnion [TStr, TNull]),
     Req ''word_count'' TNum, Req ''separator'' TStr, Req ''capitalize_words'' TBool,
     Req ''add_number'' TBool]"

definition ui_BreachResult :: ty where
  "ui_BreachResult =
     TRec [Req ''is_breached'' TBool, Req ''breach_count'' TNum, Req ''checked_at'' TStr]"

definition ui_IssueType :: ty where
  "ui_IssueType =
     TUnion [TLit ''Breached'', TLit ''WeakPassword'', TLit ''ReusedPassword'',
     TLit ''OldPassword'', TLit ''Missing2FA'', TLit ''ShortPassword'']"

definition ui_IssueSeverity :: ty where
  "ui_IssueSeverity =
     TUnion [TLit ''Info'', TLit ''Warning'', TLit ''Critical'']"

definition ui_SecurityIssue :: ty where
  "ui_SecurityIssue =
     TRec [Req ''entry_id'' TStr, Req ''entry_title'' TStr, Req ''issue_type'' ui_IssueType,
     Req ''severity'' ui_IssueSeverity, Req ''description'' TStr]"

definition ui_SecurityAudit :: ty where
  "ui_SecurityAudit =
     TRec [Req ''total_entries'' TNum, Req ''breached_count'' TNum, Req ''weak_count'' TNum,
     Req ''reused_count'' TNum, Req ''old_count'' TNum, Req ''no_2fa_count'' TNum,
     Req ''health_score'' TNum, Req ''issues'' (TArr ui_SecurityIssue)]"

definition ui_Tag :: ty where
  "ui_Tag =
     TRec [Req ''id'' TStr, Req ''name'' TStr, Req ''color'' TStr, Req ''icon'' TStr,
     Opt ''default_url'' TStr]"

definition ui_TrashedEntryPreview :: ty where
  "ui_TrashedEntryPreview =
     TRec [Req ''id'' TStr, Req ''title'' TStr, Req ''deleted_at'' TStr,
     Req ''days_until_permanent'' TNum]"

definition ui_VaultStorageMetrics :: ty where
  "ui_VaultStorageMetrics =
     TRec [Req ''entry_count'' TNum, Req ''trashed_entry_count'' TNum, Req ''tag_count'' TNum,
     Req ''active_attachment_count'' TNum, Req ''active_attachment_bytes'' TNum,
     Req ''trashed_attachment_count'' TNum, Req ''trashed_attachment_bytes'' TNum,
     Req ''vault_file_bytes'' TNum]"

definition ui_DecryptedHistoryItem :: ty where
  "ui_DecryptedHistoryItem =
     TRec [Req ''password'' TStr, Req ''changed_at'' TStr]"

definition ui_ParsedImportEntry :: ty where
  "ui_ParsedImportEntry =
     TRec [Req ''title'' TStr, Req ''username'' TStr, Req ''password'' TStr, Req ''url'' TStr,
     Req ''email'' TStr, Req ''notes'' TStr, Req ''totp_secret'' (TUnion [TStr, TNull]),
     Req ''tags'' (TArr TStr), Req ''is_duplicate'' TBool, Opt ''duplicate_reason'' (TUnion [TStr,
     TNull])]"

definition ui_ImportPreviewResult :: ty where
  "ui_ImportPreviewResult =
     TRec [Req ''format_detected'' TStr, Req ''detected_format_key'' TStr,
     Req ''is_format_mismatch'' TBool, Opt ''suggested_brand_name'' (TUnion [TStr, TNull]),
     Req ''total_found'' TNum, Req ''entries'' (TArr ui_ParsedImportEntry),
     Req ''duplicates_count'' TNum]"

definition ui_MobileAutofillStatus :: ty where
  "ui_MobileAutofillStatus =
     TRec [Req ''supported'' TBool, Req ''enabled'' TBool, Req ''active_provider'' TStr,
     Req ''mapped_packages_count'' TNum, Req ''strict_domain_matching'' TBool,
     Req ''asset_links_enforced'' TBool, Req ''webview_origin_protected'' TBool,
     Req ''biometric_stepup_required'' TBool]"

definition ui_AutofillCredentialItem :: ty where
  "ui_AutofillCredentialItem =
     TRec [Req ''entry_id'' TStr, Req ''title'' TStr, Req ''username'' TStr, Req ''domain'' TStr,
     Req ''matched_by'' TStr, Req ''is_exact_package_match'' TBool,
     Req ''requires_user_consent'' TBool, Req ''requires_biometric_reauth'' TBool]"

definition ui_AutofillDatasetPayload :: ty where
  "ui_AutofillDatasetPayload =
     TRec [Req ''package_name'' TStr, Opt ''web_domain'' TStr,
     Req ''matched_credentials'' (TArr ui_AutofillCredentialItem),
     Req ''asset_links_verified'' TBool]"

definition ui_SmartLoginBrowserInfo :: ty where
  "ui_SmartLoginBrowserInfo =
     TRec [Req ''name'' TStr, Req ''exe_path'' TStr, Req ''profile_dir'' TStr,
     Req ''process_name'' TStr, Req ''is_default'' TBool, Req ''is_running'' TBool]"

definition ui_SmartLoginPreCheckResult :: ty where
  "ui_SmartLoginPreCheckResult =
     TRec [Req ''browsers'' (TArr ui_SmartLoginBrowserInfo),
     Req ''recommended_index'' (TUnion [TNum, TNull]), Req ''needs_close'' TBool,
     Req ''error'' (TUnion [TStr, TNull])]"

definition ui_InstalledApp :: ty where
  "ui_InstalledApp =
     TRec [Req ''name'' TStr, Req ''path'' TStr, Opt ''category'' TStr, Opt ''is_system'' TBool]"

end
