(* ===== verification/Tauri_Backend.thy ===== *)
theory Tauri_Backend
  imports Ui_Contract Vault_Types
begin

text \<open>
  \<open>src/src/lib/tauri-backend.ts\<close>: every method of \<open>TauriBackend\<close> that hands its parameters to
  one native command, as a row of a table (its parameters with their declared types, the command,
  the properties of the argument object, the part of the answer it returns and its declared return
  type); the remaining methods, which convert what they send or receive, as functions; and the two
  converters of the breach status.
\<close>

section \<open>Methods as rows\<close>

text \<open>
  The value of a property of the argument object: a parameter, a parameter with a default,
  \<open>p || null\<close>, or \<open>Array.from(p)\<close>. \<open>im_stats\<close> marks the methods that return \<open>answer.stats\<close>.
\<close>

datatype arg_expr = Par string | ParDefault string js | ParOrNull string | FromArray string

record ipc_method =
  im_name :: string
  im_params :: "field list"
  im_command :: string
  im_arg :: "(string \<times> arg_expr) list option"
  im_stats :: bool
  im_return :: ty

fun falsy :: "js \<Rightarrow> bool" where
  "falsy JUndef = True"
| "falsy JNull = True"
| "falsy (JBool b) = (\<not> b)"
| "falsy (JNum n) = (n = 0)"
| "falsy (JStr s) = (s = [])"
| "falsy _ = False"

fun array_from :: "js \<Rightarrow> js" where
  "array_from (JBytes ns) = JArr (map (\<lambda>n. JNum (int n)) ns)"
| "array_from v = v"

fun eval_arg :: "(string \<Rightarrow> js) \<Rightarrow> arg_expr \<Rightarrow> js" where
  "eval_arg env (Par p) = env p"
| "eval_arg env (ParDefault p d) = (if env p = JUndef then d else env p)"
| "eval_arg env (ParOrNull p) = (if falsy (env p) then JNull else env p)"
| "eval_arg env (FromArray p) = array_from (env p)"

definition invocation :: "ipc_method \<Rightarrow> (string \<Rightarrow> js) \<Rightarrow> js" where
  "invocation m env =
     (case im_arg m of None \<Rightarrow> JUndef | Some ps \<Rightarrow> JObj (map (\<lambda>(k, e). (k, eval_arg env e)) ps))"

definition method_result :: "ipc_method \<Rightarrow> js \<Rightarrow> js" where
  "method_result m r =
     (if im_stats m then (case r of JObj kvs \<Rightarrow> js_get kvs ''stats'' | _ \<Rightarrow> JUndef) else r)"

section \<open>The table\<close>

definition methods_vault :: "ipc_method list" where
  "methods_vault =
     [\<lparr>im_name = ''importVaultDocument'', im_params = [Req ''path'' TStr],
        im_command = ''import_vault_document'', im_arg = Some [(''path'', Par ''path'')],
        im_stats = False, im_return = TStr\<rparr>,
      \<lparr>im_name = ''exportAttachment'', im_params = [Req ''entryId'' TStr, Req ''attachmentId'' TStr,
         Req ''path'' TStr],
        im_command = ''export_attachment'', im_arg = Some [(''entryId'', Par ''entryId''), (''attachmentId'',
         Par ''attachmentId''), (''path'', Par ''path'')],
        im_stats = False, im_return = TVoid\<rparr>,
      \<lparr>im_name = ''createVault'', im_params = [Req ''name'' TStr, Req ''password'' TStr, Req ''path'' TStr,
         Opt ''keyFilePath'' TStr],
        im_command = ''create_vault'', im_arg = Some [(''name'', Par ''name''), (''password'', Par ''password''),
         (''path'', Par ''path''), (''keyFilePath'', Par ''keyFilePath'')],
        im_stats = False, im_return = ui_VaultInfo\<rparr>,
      \<lparr>im_name = ''openVault'', im_params = [Req ''path'' TStr, Req ''password'' TStr, Opt ''keyFilePath'' TStr],
        im_command = ''open_vault'', im_arg = Some [(''path'', Par ''path''), (''password'', Par ''password''),
         (''keyFilePath'', Par ''keyFilePath'')],
        im_stats = False, im_return = ui_VaultInfo\<rparr>,
      \<lparr>im_name = ''lockVault'', im_params = [],
        im_command = ''lock_vault'', im_arg = None,
        im_stats = False, im_return = TVoid\<rparr>,
      \<lparr>im_name = ''getVaultInfo'', im_params = [],
        im_command = ''get_vault_info'', im_arg = None,
        im_stats = False, im_return = TUnion [ui_VaultInfo, TNull]\<rparr>,
      \<lparr>im_name = ''generateKeyFile'', im_params = [Req ''path'' TStr],
        im_command = ''generate_key_file'', im_arg = Some [(''path'', Par ''path'')],
        im_stats = False, im_return = TVoid\<rparr>,
      \<lparr>im_name = ''bulkUpdateEntries'', im_params = [Req ''ids'' (TArr TStr), Req ''patch'' ui_BulkEntryUpdate],
        im_command = ''bulk_update_entries'', im_arg = Some [(''ids'', Par ''ids''), (''patch'', Par ''patch'')],
        im_stats = False, im_return = TVoid\<rparr>,
      \<lparr>im_name = ''bulkDeleteEntries'', im_params = [Req ''ids'' (TArr TStr)],
        im_command = ''bulk_delete_entries'', im_arg = Some [(''ids'', Par ''ids'')],
        im_stats = False, im_return = TVoid\<rparr>,
      \<lparr>im_name = ''saveVault'', im_params = [],
        im_command = ''save_vault'', im_arg = None,
        im_stats = False, im_return = TVoid\<rparr>,
      \<lparr>im_name = ''reloadVault'', im_params = [],
        im_command = ''reload_vault'', im_arg = None,
        im_stats = False, im_return = TVoid\<rparr>,
      \<lparr>im_name = ''deleteEntry'', im_params = [Req ''id'' TStr],
        im_command = ''delete_entry'', im_arg = Some [(''id'', Par ''id'')],
        im_stats = False, im_return = TVoid\<rparr>,
      \<lparr>im_name = ''toggleFavorite'', im_params = [Req ''id'' TStr],
        im_command = ''toggle_favorite'', im_arg = Some [(''id'', Par ''id'')],
        im_stats = False, im_return = TBool\<rparr>,
      \<lparr>im_name = ''togglePin'', im_params = [Req ''id'' TStr],
        im_command = ''toggle_pin'', im_arg = Some [(''id'', Par ''id'')],
        im_stats = False, im_return = TBool\<rparr>]"

definition methods_sharing_history :: "ipc_method list" where
  "methods_sharing_history =
     [\<lparr>im_name = ''addAttachment'', im_params = [Req ''entryId'' TStr, Req ''name'' TStr,
         Req ''mimeType'' TStr, Req ''data'' (TArr TNum)],
        im_command = ''add_attachment'', im_arg = Some [(''entryId'', Par ''entryId''), (''name'', Par ''name''),
         (''mimeType'', Par ''mimeType''), (''data'', Par ''data'')],
        im_stats = False, im_return = ui_AttachmentInfo\<rparr>,
      \<lparr>im_name = ''deleteAttachment'', im_params = [Req ''entryId'' TStr, Req ''attachmentId'' TStr],
        im_command = ''delete_attachment'', im_arg = Some [(''entryId'', Par ''entryId''), (''attachmentId'',
         Par ''attachmentId'')],
        im_stats = False, im_return = TVoid\<rparr>,
      \<lparr>im_name = ''listTrash'', im_params = [],
        im_command = ''list_trash'', im_arg = None,
        im_stats = False, im_return = TArr ui_TrashedEntryPreview\<rparr>,
      \<lparr>im_name = ''restoreFromTrash'', im_params = [Req ''id'' TStr],
        im_command = ''restore_from_trash'', im_arg = Some [(''id'', Par ''id'')],
        im_stats = False, im_return = TVoid\<rparr>,
      \<lparr>im_name = ''permanentDelete'', im_params = [Req ''id'' TStr],
        im_command = ''permanent_delete'', im_arg = Some [(''id'', Par ''id'')],
        im_stats = False, im_return = TVoid\<rparr>,
      \<lparr>im_name = ''emptyTrash'', im_params = [],
        im_command = ''empty_trash'', im_arg = None,
        im_stats = False, im_return = TVoid\<rparr>,
      \<lparr>im_name = ''purgeExpiredTrash'', im_params = [Opt ''maxAgeDays'' TNum],
        im_command = ''purge_expired_trash'', im_arg = Some [(''maxAgeDays'', Par ''maxAgeDays'')],
        im_stats = False, im_return = TNum\<rparr>,
      \<lparr>im_name = ''getStorageMetrics'', im_params = [],
        im_command = ''get_storage_metrics'', im_arg = None,
        im_stats = False, im_return = ui_VaultStorageMetrics\<rparr>,
      \<lparr>im_name = ''compactVault'', im_params = [],
        im_command = ''compact_vault'', im_arg = None,
        im_stats = False, im_return = ui_VaultStorageMetrics\<rparr>,
      \<lparr>im_name = ''listConflictHistory'', im_params = [Req ''entryId'' TStr],
        im_command = ''list_conflict_history'', im_arg = Some [(''entryId'', Par ''entryId'')],
        im_stats = False, im_return = TArr ui_ConflictHistoryItem\<rparr>,
      \<lparr>im_name = ''previewConflictHistory'', im_params = [Req ''entryId'' TStr, Req ''versionId'' TStr],
        im_command = ''preview_conflict_history'', im_arg = Some [(''entryId'', Par ''entryId''), (''versionId'',
         Par ''versionId'')],
        im_stats = False, im_return = ty_SyncPreview\<rparr>,
      \<lparr>im_name = ''inspectConflictHistory'', im_params = [Req ''entryId'' TStr, Req ''versionId'' TStr,
         Req ''field'' TStr],
        im_command = ''inspect_conflict_history'', im_arg = Some [(''entryId'', Par ''entryId''), (''versionId'',
         Par ''versionId''), (''field'', Par ''field'')],
        im_stats = False, im_return = TStr\<rparr>,
      \<lparr>im_name = ''restoreConflictHistory'', im_params = [Req ''entryId'' TStr, Req ''versionId'' TStr,
         Req ''expectedRevision'' TStr],
        im_command = ''restore_conflict_history'', im_arg = Some [(''entryId'', Par ''entryId''), (''versionId'',
         Par ''versionId''), (''expectedRevision'', Par ''expectedRevision'')],
        im_stats = False, im_return = TVoid\<rparr>,
      \<lparr>im_name = ''getPasswordHistory'', im_params = [Req ''entryId'' TStr],
        im_command = ''get_password_history'', im_arg = Some [(''entryId'', Par ''entryId'')],
        im_stats = False, im_return = TArr ui_DecryptedHistoryItem\<rparr>,
      \<lparr>im_name = ''generateTotp'', im_params = [Req ''secret'' TStr],
        im_command = ''generate_totp'', im_arg = Some [(''secret'', Par ''secret'')],
        im_stats = False, im_return = ui_TotpCode\<rparr>,
      \<lparr>im_name = ''generateTotpWithConfig'', im_params = [Req ''config'' ui_TotpConfig],
        im_command = ''generate_totp_with_config'', im_arg = Some [(''config'', Par ''config'')],
        im_stats = False, im_return = ui_TotpCode\<rparr>,
      \<lparr>im_name = ''parseOtpauthUri'', im_params = [Req ''uri'' TStr],
        im_command = ''parse_otpauth_uri'', im_arg = Some [(''uri'', Par ''uri'')],
        im_stats = False, im_return = ui_TotpConfig\<rparr>,
      \<lparr>im_name = ''generatePassword'', im_params = [Req ''options'' ui_GeneratorOptions],
        im_command = ''generate_password'', im_arg = Some [(''options'', Par ''options'')],
        im_stats = False, im_return = TStr\<rparr>,
      \<lparr>im_name = ''generatePasswordDefault'', im_params = [],
        im_command = ''generate_password_default'', im_arg = None,
        im_stats = False, im_return = TStr\<rparr>,
      \<lparr>im_name = ''analyzePasswordStrength'', im_params = [Req ''password'' TStr],
        im_command = ''analyze_password_strength'', im_arg = Some [(''password'', Par ''password'')],
        im_stats = False, im_return = ui_StrengthScore\<rparr>,
      \<lparr>im_name = ''securityAudit'', im_params = [],
        im_command = ''security_audit'', im_arg = None,
        im_stats = False, im_return = ui_SecurityAudit\<rparr>,
      \<lparr>im_name = ''changeMasterPassword'', im_params = [Req ''current'' TStr, Req ''newPassword'' TStr,
         Opt ''currentKeyFile'' TStr, Opt ''newKeyFile'' TStr],
        im_command = ''change_master_password'', im_arg = Some [(''current'', Par ''current''), (''newPassword'',
         Par ''newPassword''), (''currentKeyFile'', Par ''currentKeyFile''), (''newKeyFile'', Par ''newKeyFile'')],
        im_stats = False, im_return = TUnion [ty_EmergencyKit, TNull]\<rparr>,
      \<lparr>im_name = ''getTags'', im_params = [],
        im_command = ''get_tags'', im_arg = None,
        im_stats = False, im_return = TArr ui_Tag\<rparr>,
      \<lparr>im_name = ''addTag'', im_params = [Req ''name'' TStr, Req ''color'' TStr, Req ''icon'' TStr,
         Opt ''defaultUrl'' TStr],
        im_command = ''add_tag'', im_arg = Some [(''name'', Par ''name''), (''color'', Par ''color''), (''icon'',
         Par ''icon''), (''defaultUrl'', Par ''defaultUrl'')],
        im_stats = False, im_return = TStr\<rparr>,
      \<lparr>im_name = ''deleteTag'', im_params = [Req ''id'' TStr],
        im_command = ''delete_tag'', im_arg = Some [(''id'', Par ''id'')],
        im_stats = False, im_return = TVoid\<rparr>,
      \<lparr>im_name = ''updateTag'', im_params = [Req ''id'' TStr, Req ''name'' TStr, Req ''color'' TStr,
         Req ''icon'' TStr, Opt ''defaultUrl'' TStr],
        im_command = ''update_tag'', im_arg = Some [(''id'', Par ''id''), (''name'', Par ''name''), (''color'',
         Par ''color''), (''icon'', Par ''icon''), (''defaultUrl'', Par ''defaultUrl'')],
        im_stats = False, im_return = TVoid\<rparr>,
      \<lparr>im_name = ''reorderTags'', im_params = [Req ''tagIds'' (TArr TStr)],
        im_command = ''reorder_tags'', im_arg = Some [(''tagIds'', Par ''tagIds'')],
        im_stats = False, im_return = TVoid\<rparr>]"

definition methods_system :: "ipc_method list" where
  "methods_system =
     [\<lparr>im_name = ''checkVaultFileExists'', im_params = [Req ''path'' TStr],
        im_command = ''check_vault_file_exists'', im_arg = Some [(''path'', Par ''path'')],
        im_stats = False, im_return = TBool\<rparr>,
      \<lparr>im_name = ''showInExplorer'', im_params = [Req ''path'' TStr],
        im_command = ''show_in_explorer'', im_arg = Some [(''path'', Par ''path'')],
        im_stats = False, im_return = TVoid\<rparr>,
      \<lparr>im_name = ''getInstalledApps'', im_params = [],
        im_command = ''get_installed_apps'', im_arg = None,
        im_stats = False, im_return = TArr ui_InstalledApp\<rparr>,
      \<lparr>im_name = ''autotype'', im_params = [Req ''text'' TStr, Req ''charDelayMs'' TNum,
         Req ''settleDelayMs'' TNum],
        im_command = ''autotype'', im_arg = Some [(''text'', Par ''text''), (''charDelayMs'', Par ''charDelayMs''),
         (''settleDelayMs'', Par ''settleDelayMs'')],
        im_stats = False, im_return = TVoid\<rparr>,
      \<lparr>im_name = ''runSmartAutotype'', im_params = [Req ''username'' TStr, Req ''password'' TStr,
         Req ''totpSecret'' TStr, Req ''url'' TStr, Req ''launchBrowser'' TBool, Req ''charDelayMs'' TNum,
         Req ''fieldDelayMs'' TNum],
        im_command = ''run_smart_autotype'', im_arg = Some [(''username'', Par ''username''), (''password'',
         Par ''password''), (''totpSecret'', Par ''totpSecret''), (''url'', Par ''url''), (''launchBrowser'',
         Par ''launchBrowser''), (''charDelayMs'', Par ''charDelayMs''), (''fieldDelayMs'', Par ''fieldDelayMs'')],
        im_stats = False, im_return = TVoid\<rparr>,
      \<lparr>im_name = ''enableAutostart'', im_params = [],
        im_command = ''enable_autostart'', im_arg = None,
        im_stats = False, im_return = TVoid\<rparr>,
      \<lparr>im_name = ''disableAutostart'', im_params = [],
        im_command = ''disable_autostart'', im_arg = None,
        im_stats = False, im_return = TVoid\<rparr>,
      \<lparr>im_name = ''isAutostartEnabled'', im_params = [],
        im_command = ''is_autostart_enabled'', im_arg = None,
        im_stats = False, im_return = TBool\<rparr>,
      \<lparr>im_name = ''getFavicon'', im_params = [Req ''domain'' TStr],
        im_command = ''get_favicon'', im_arg = Some [(''domain'', Par ''domain'')],
        im_stats = False, im_return = TUnion [TStr, TNull]\<rparr>,
      \<lparr>im_name = ''setExternalFaviconsEnabled'', im_params = [Req ''enabled'' TBool],
        im_command = ''set_external_favicons_enabled'', im_arg = Some [(''enabled'', Par ''enabled'')],
        im_stats = False, im_return = TVoid\<rparr>,
      \<lparr>im_name = ''setNetworkAccess'', im_params = [Req ''enabled'' TBool],
        im_command = ''set_network_access'', im_arg = Some [(''enabled'', Par ''enabled'')],
        im_stats = False, im_return = TVoid\<rparr>,
      \<lparr>im_name = ''isExternalFaviconsEnabled'', im_params = [],
        im_command = ''is_external_favicons_enabled'', im_arg = None,
        im_stats = False, im_return = TBool\<rparr>,
      \<lparr>im_name = ''setMinimizeToTray'', im_params = [Req ''enabled'' TBool],
        im_command = ''set_minimize_to_tray'', im_arg = Some [(''enabled'', Par ''enabled'')],
        im_stats = False, im_return = TVoid\<rparr>,
      \<lparr>im_name = ''setWindowCaptureProtection'', im_params = [Req ''enable'' TBool],
        im_command = ''set_window_capture_protection'', im_arg = Some [(''enable'', Par ''enable'')],
        im_stats = False, im_return = TVoid\<rparr>,
      \<lparr>im_name = ''setLockOnFocusLoss'', im_params = [Req ''enabled'' TBool],
        im_command = ''set_lock_on_focus_loss'', im_arg = Some [(''enabled'', Par ''enabled'')],
        im_stats = False, im_return = TVoid\<rparr>,
      \<lparr>im_name = ''setLockOnSystemLock'', im_params = [Req ''enabled'' TBool],
        im_command = ''set_lock_on_system_lock'', im_arg = Some [(''enabled'', Par ''enabled'')],
        im_stats = False, im_return = TVoid\<rparr>,
      \<lparr>im_name = ''webdavTestConnection'', im_params = [Req ''url'' TStr, Req ''username'' TStr,
         Req ''password'' (TUnion [TStr, TNull])],
        im_command = ''webdav_test_connection'', im_arg = Some [(''url'', Par ''url''), (''username'',
         Par ''username''), (''password'', Par ''password'')],
        im_stats = False, im_return = TVoid\<rparr>,
      \<lparr>im_name = ''webdavUpload'', im_params = [Req ''url'' TStr, Req ''username'' TStr,
         Req ''password'' (TUnion [TStr, TNull]), Req ''dbPath'' TStr, Opt ''ifMatchEtag'' (TUnion [TStr, TNull])],
        im_command = ''webdav_upload'', im_arg = Some [(''url'', Par ''url''), (''username'', Par ''username''),
         (''password'', Par ''password''), (''dbPath'', Par ''dbPath''), (''ifMatchEtag'', ParOrNull ''ifMatchEtag'')],
        im_stats = False, im_return = TUnion [TStr, TNull]\<rparr>,
      \<lparr>im_name = ''webdavDownload'', im_params = [Req ''url'' TStr, Req ''username'' TStr,
         Req ''password'' (TUnion [TStr, TNull]), Req ''destDbPath'' TStr],
        im_command = ''webdav_download'', im_arg = Some [(''url'', Par ''url''), (''username'', Par ''username''),
         (''password'', Par ''password''), (''destDbPath'', Par ''destDbPath'')],
        im_stats = False, im_return = TVoid\<rparr>]"

definition methods_sync :: "ipc_method list" where
  "methods_sync =
     [\<lparr>im_name = ''getSyncOperations'', im_params = [],
        im_command = ''get_sync_operations'', im_arg = Some [],
        im_stats = False, im_return = TArr ty_SyncOperation\<rparr>,
      \<lparr>im_name = ''getSyncReview'', im_params = [],
        im_command = ''get_sync_review'', im_arg = Some [],
        im_stats = False, im_return = TUnion [ty_SyncPreview, TNull]\<rparr>,
      \<lparr>im_name = ''inspectSyncField'', im_params = [Req ''id'' TStr, Req ''key'' TStr, Req ''remote'' TBool],
        im_command = ''inspect_sync_field'', im_arg = Some [(''id'', Par ''id''), (''key'', Par ''key''),
         (''remote'', Par ''remote'')],
        im_stats = False, im_return = TStr\<rparr>,
      \<lparr>im_name = ''approveSyncReview'', im_params = [Req ''id'' TStr, Req ''decisions'' (TArr ty_SyncDecision)],
        im_command = ''approve_sync_review'', im_arg = Some [(''id'', Par ''id''), (''decisions'', Par ''decisions'')],
        im_stats = False, im_return = TVoid\<rparr>,
      \<lparr>im_name = ''cancelSyncReview'', im_params = [],
        im_command = ''cancel_sync_review'', im_arg = Some [],
        im_stats = False, im_return = TVoid\<rparr>,
      \<lparr>im_name = ''getSyncPolicy'', im_params = [],
        im_command = ''get_sync_policy'', im_arg = Some [],
        im_stats = False, im_return = ty_SyncPolicy\<rparr>,
      \<lparr>im_name = ''setSyncPolicy'', im_params = [Req ''policy'' ty_SyncPolicy],
        im_command = ''set_sync_policy'', im_arg = Some [(''policy'', Par ''policy'')],
        im_stats = False, im_return = TVoid\<rparr>,
      \<lparr>im_name = ''webdavSync'', im_params = [Req ''url'' TStr, Req ''username'' TStr,
         Req ''password'' (TUnion [TStr, TNull]), Opt ''background'' TBool],
        im_command = ''webdav_sync'', im_arg = Some [(''url'', Par ''url''), (''username'', Par ''username''),
         (''password'', Par ''password''), (''background'', ParDefault ''background'' (JBool False))],
        im_stats = True, im_return = ui_MergeStats\<rparr>,
      \<lparr>im_name = ''cancelP2pSyncListener'', im_params = [],
        im_command = ''cancel_p2p_sync_listener'', im_arg = Some [],
        im_stats = False, im_return = TVoid\<rparr>,
      \<lparr>im_name = ''runP2pSyncListener'', im_params = [Req ''listenAddr'' TStr, Req ''dbPath'' TStr],
        im_command = ''run_p2p_sync_listener'', im_arg = Some [(''listenAddr'', Par ''listenAddr''), (''dbPath'',
         Par ''dbPath'')],
        im_stats = True, im_return = ui_MergeStats\<rparr>,
      \<lparr>im_name = ''runP2pSyncClient'', im_params = [Req ''serverAddr'' TStr, Req ''dbPath'' TStr,
         Opt ''deviceId'' TStr, Opt ''background'' TBool],
        im_command = ''run_p2p_sync_client'', im_arg = Some [(''serverAddr'', Par ''serverAddr''), (''dbPath'',
         Par ''dbPath''), (''deviceId'', Par ''deviceId''), (''background'', ParDefault ''background'' (JBool False))],
        im_stats = True, im_return = ui_MergeStats\<rparr>,
      \<lparr>im_name = ''getLocalIp'', im_params = [],
        im_command = ''get_local_ip'', im_arg = Some [],
        im_stats = False, im_return = TUnion [TStr, TNull]\<rparr>,
      \<lparr>im_name = ''getLocalIps'', im_params = [],
        im_command = ''get_local_ips'', im_arg = Some [],
        im_stats = False, im_return = TArr TStr\<rparr>]"

definition methods_pairing :: "ipc_method list" where
  "methods_pairing =
     [\<lparr>im_name = ''scanP2pDiscovery'', im_params = [Opt ''timeoutMs'' (TUnion [TNum, TNull])],
        im_command = ''scan_p2p_discovery'', im_arg = Some [(''timeoutMs'', Par ''timeoutMs'')],
        im_stats = False, im_return = TUnion [TStr, TNull]\<rparr>,
      \<lparr>im_name = ''generatePairingCode'', im_params = [],
        im_command = ''generate_pairing_code'', im_arg = None,
        im_stats = False, im_return = TStr\<rparr>,
      \<lparr>im_name = ''getLocalDeviceInfo'', im_params = [],
        im_command = ''get_local_device_info'', im_arg = None,
        im_stats = False, im_return = ty_LocalDeviceInfo\<rparr>,
      \<lparr>im_name = ''getTrustedDevices'', im_params = [],
        im_command = ''get_trusted_devices'', im_arg = None,
        im_stats = False, im_return = TArr ui_TrustedDevice\<rparr>,
      \<lparr>im_name = ''revokeTrustedDevice'', im_params = [Req ''deviceId'' TStr],
        im_command = ''revoke_trusted_device'', im_arg = Some [(''deviceId'', Par ''deviceId'')],
        im_stats = False, im_return = TVoid\<rparr>,
      \<lparr>im_name = ''startPairingHost'', im_params = [Req ''listenAddr'' TStr, Req ''password'' TStr,
         Req ''pairingCode'' TStr, Opt ''deviceName'' TStr],
        im_command = ''start_pairing_host'', im_arg = Some [(''listenAddr'', Par ''listenAddr''), (''password'',
         Par ''password''), (''pairingCode'', Par ''pairingCode''), (''deviceName'', Par ''deviceName'')],
        im_stats = False, im_return = ty_PairingStats\<rparr>,
      \<lparr>im_name = ''cancelPairingHost'', im_params = [],
        im_command = ''cancel_pairing_host'', im_arg = None,
        im_stats = False, im_return = TVoid\<rparr>,
      \<lparr>im_name = ''startPairingClient'', im_params = [Req ''serverAddr'' TStr, Req ''password'' TStr,
         Req ''pairingCode'' TStr, Req ''dbPath'' TStr, Opt ''deviceName'' TStr],
        im_command = ''start_pairing_client'', im_arg = Some [(''serverAddr'', Par ''serverAddr''), (''password'',
         Par ''password''), (''pairingCode'', Par ''pairingCode''), (''dbPath'', Par ''dbPath''), (''deviceName'',
         Par ''deviceName'')],
        im_stats = False, im_return = ty_PairingStats\<rparr>,
      \<lparr>im_name = ''scanPairingDiscovery'', im_params = [Req ''password'' TStr, Req ''pairingCode'' TStr,
         Opt ''timeoutMs'' (TUnion [TNum, TNull])],
        im_command = ''scan_pairing_discovery'', im_arg = Some [(''password'', Par ''password''), (''pairingCode'',
         Par ''pairingCode''), (''timeoutMs'', Par ''timeoutMs'')],
        im_stats = False, im_return = TUnion [TStr, TNull]\<rparr>,
      \<lparr>im_name = ''generateQrPairingSession'', im_params = [Opt ''deviceName'' TStr],
        im_command = ''generate_qr_pairing_session'', im_arg = Some [(''deviceName'', Par ''deviceName'')],
        im_stats = False, im_return = ty_QrSessionInfo\<rparr>,
      \<lparr>im_name = ''startQrPairingHost'', im_params = [Req ''password'' TStr, Req ''includePassword'' TBool,
         Opt ''deviceName'' TStr],
        im_command = ''start_qr_pairing_host'', im_arg = Some [(''password'', Par ''password''),
         (''includePassword'', Par ''includePassword''), (''deviceName'', Par ''deviceName'')],
        im_stats = False, im_return = ty_PairingStats\<rparr>,
      \<lparr>im_name = ''cancelQrPairingHost'', im_params = [],
        im_command = ''cancel_qr_pairing_host'', im_arg = None,
        im_stats = False, im_return = TVoid\<rparr>,
      \<lparr>im_name = ''startQrPairingClient'', im_params = [Req ''qrPayload'' TStr, Opt ''deviceName'' TStr,
         Opt ''password'' TStr],
        im_command = ''start_qr_pairing_client'', im_arg = Some [(''qrPayload'', Par ''qrPayload''), (''deviceName'',
         Par ''deviceName''), (''password'', Par ''password'')],
        im_stats = False, im_return = ty_QrClientPairingResult\<rparr>,
      \<lparr>im_name = ''completeAdoptedVault'', im_params = [Req ''password'' TStr],
        im_command = ''complete_adopted_vault'', im_arg = Some [(''password'', Par ''password'')],
        im_stats = False, im_return = ty_PairingStats\<rparr>]"

definition methods_recovery :: "ipc_method list" where
  "methods_recovery =
     [\<lparr>im_name = ''splitMasterPassword'', im_params = [Req ''password'' TStr],
        im_command = ''split_master_password'', im_arg = Some [(''password'', Par ''password'')],
        im_stats = False, im_return = TArr TStr\<rparr>,
      \<lparr>im_name = ''reconstructMasterPassword'', im_params = [Req ''shareA'' TStr, Req ''shareB'' TStr],
        im_command = ''reconstruct_master_password'', im_arg = Some [(''shareA'', Par ''shareA''), (''shareB'',
         Par ''shareB'')],
        im_stats = False, im_return = TStr\<rparr>,
      \<lparr>im_name = ''reconstructMasterPasswordHash'', im_params = [Req ''shareA'' TStr, Req ''shareB'' TStr],
        im_command = ''reconstruct_master_password_hash'', im_arg = Some [(''shareA'', Par ''shareA''), (''shareB'',
         Par ''shareB'')],
        im_stats = False, im_return = TStr\<rparr>,
      \<lparr>im_name = ''generateEmergencyKit'', im_params = [Req ''masterPassword'' TStr, Opt ''keyFilePath'' TStr],
        im_command = ''generate_emergency_kit'', im_arg = Some [(''masterPassword'', Par ''masterPassword''),
         (''keyFilePath'', Par ''keyFilePath'')],
        im_stats = False, im_return = ty_EmergencyKit\<rparr>,
      \<lparr>im_name = ''listUsbStorageDevices'', im_params = [],
        im_command = ''list_usb_storage_devices'', im_arg = None,
        im_stats = False, im_return = TArr (TRec [Req ''id'' TStr, Req ''name'' TStr])\<rparr>,
      \<lparr>im_name = ''getLocalProtection'', im_params = [],
        im_command = ''get_local_protection'', im_arg = None,
        im_stats = False, im_return = TRec [Req ''protected'' TBool, Req ''usb_bound'' TBool,
         Req ''recovery_enabled'' TBool]\<rparr>,
      \<lparr>im_name = ''setUsbBinding'', im_params = [Req ''password'' TStr, Opt ''keyFilePath'' TStr,
         Opt ''usbId'' TStr],
        im_command = ''set_usb_binding'', im_arg = Some [(''password'', Par ''password''), (''keyFilePath'',
         Par ''keyFilePath''), (''usbId'', Par ''usbId'')],
        im_stats = False, im_return = ty_EmergencyKit\<rparr>,
      \<lparr>im_name = ''revokeRecovery'', im_params = [Req ''password'' TStr, Opt ''keyFilePath'' TStr],
        im_command = ''revoke_recovery'', im_arg = Some [(''password'', Par ''password''), (''keyFilePath'',
         Par ''keyFilePath'')],
        im_stats = False, im_return = TVoid\<rparr>,
      \<lparr>im_name = ''recoverVault'', im_params = [Req ''path'' TStr, Req ''shareA'' TStr, Req ''shareB'' TStr,
         Req ''newPassword'' TStr],
        im_command = ''recover_vault'', im_arg = Some [(''path'', Par ''path''), (''shareA'', Par ''shareA''),
         (''shareB'', Par ''shareB''), (''newPassword'', Par ''newPassword'')],
        im_stats = False, im_return = ui_VaultInfo\<rparr>,
      \<lparr>im_name = ''createProtectedVault'', im_params = [Req ''name'' TStr, Req ''password'' TStr,
         Req ''path'' TStr, Req ''usbId'' TStr, Opt ''keyFilePath'' TStr],
        im_command = ''create_protected_vault'', im_arg = Some [(''name'', Par ''name''), (''password'',
         Par ''password''), (''path'', Par ''path''), (''usbId'', Par ''usbId''), (''keyFilePath'',
         Par ''keyFilePath'')],
        im_stats = False, im_return = TRec [Req ''info'' ui_VaultInfo, Req ''kit'' ty_EmergencyKit]\<rparr>,
      \<lparr>im_name = ''exportRecoveryShare'', im_params = [Req ''path'' TStr, Req ''share'' TStr],
        im_command = ''export_recovery_share'', im_arg = Some [(''path'', Par ''path''), (''share'', Par ''share'')],
        im_stats = False, im_return = TVoid\<rparr>,
      \<lparr>im_name = ''getEmergencyKitAudit'', im_params = [],
        im_command = ''get_emergency_kit_audit'', im_arg = None,
        im_stats = False, im_return = TUnion [ty_EmergencyKitAudit, TNull]\<rparr>,
      \<lparr>im_name = ''resetEmergencyKitAudit'', im_params = [],
        im_command = ''reset_emergency_kit_audit'', im_arg = None,
        im_stats = False, im_return = TVoid\<rparr>]"

definition methods_import_hardware :: "ipc_method list" where
  "methods_import_hardware =
     [\<lparr>im_name = ''exportVault'', im_params = [Req ''destPath'' TStr],
        im_command = ''export_vault'', im_arg = Some [(''destPath'', Par ''destPath'')],
        im_stats = False, im_return = TVoid\<rparr>,
      \<lparr>im_name = ''exportVaultCsv'', im_params = [Req ''destPath'' TStr],
        im_command = ''export_vault_csv'', im_arg = Some [(''destPath'', Par ''destPath'')],
        im_stats = False, im_return = TVoid\<rparr>,
      \<lparr>im_name = ''exportVaultJson'', im_params = [Req ''destPath'' TStr],
        im_command = ''export_vault_json'', im_arg = Some [(''destPath'', Par ''destPath'')],
        im_stats = False, im_return = TVoid\<rparr>,
      \<lparr>im_name = ''getVaultPath'', im_params = [],
        im_command = ''get_vault_path'', im_arg = None,
        im_stats = False, im_return = TStr\<rparr>,
      \<lparr>im_name = ''parseImportFile'', im_params = [Req ''filePath'' TStr, Opt ''format'' TStr],
        im_command = ''parse_import_file'', im_arg = Some [(''filePath'', Par ''filePath''), (''format'',
         Par ''format'')],
        im_stats = False, im_return = ui_ImportPreviewResult\<rparr>,
      \<lparr>im_name = ''parseImportContent'', im_params = [Req ''content'' TStr, Opt ''format'' TStr],
        im_command = ''parse_import_content'', im_arg = Some [(''content'', Par ''content''), (''format'',
         Par ''format'')],
        im_stats = False, im_return = ui_ImportPreviewResult\<rparr>,
      \<lparr>im_name = ''importEntries'', im_params = [Req ''entries'' (TArr ui_ParsedImportEntry),
         Req ''duplicateStrategy'' (TUnion [TLit ''skip'', TLit ''overwrite'', TLit ''keep_both''])],
        im_command = ''import_entries'', im_arg = Some [(''entries'', Par ''entries''), (''duplicateStrategy'',
         Par ''duplicateStrategy'')],
        im_stats = False, im_return = TNum\<rparr>,
      \<lparr>im_name = ''checkBiometricAvailable'', im_params = [],
        im_command = ''check_biometric_available'', im_arg = None,
        im_stats = False, im_return = ui_BiometricInfo\<rparr>,
      \<lparr>im_name = ''isBiometricEnabled'', im_params = [Req ''path'' TStr],
        im_command = ''is_biometric_enabled'', im_arg = Some [(''path'', Par ''path'')],
        im_stats = False, im_return = TBool\<rparr>,
      \<lparr>im_name = ''unlockVaultBiometric'', im_params = [Req ''path'' TStr],
        im_command = ''unlock_vault_biometric'', im_arg = Some [(''path'', Par ''path'')],
        im_stats = False, im_return = ui_VaultInfo\<rparr>,
      \<lparr>im_name = ''enableBiometric'', im_params = [],
        im_command = ''enable_biometric'', im_arg = None,
        im_stats = False, im_return = TVoid\<rparr>,
      \<lparr>im_name = ''disableBiometric'', im_params = [],
        im_command = ''disable_biometric'', im_arg = None,
        im_stats = False, im_return = TVoid\<rparr>,
      \<lparr>im_name = ''checkHardware2FaAvailable'', im_params = [],
        im_command = ''check_hardware2fa_available'', im_arg = None,
        im_stats = False, im_return = ui_Hardware2FaInfo\<rparr>,
      \<lparr>im_name = ''listHardwareKeys'', im_params = [],
        im_command = ''list_hardware_keys'', im_arg = None,
        im_stats = False, im_return = TArr ui_HardwareKeyInfo\<rparr>,
      \<lparr>im_name = ''isHardware2FaEnabled'', im_params = [Req ''path'' TStr],
        im_command = ''is_hardware2fa_enabled'', im_arg = Some [(''path'', Par ''path'')],
        im_stats = False, im_return = TBool\<rparr>,
      \<lparr>im_name = ''getHardware2FaChallenge'', im_params = [Req ''path'' TStr],
        im_command = ''get_hardware2fa_challenge'', im_arg = Some [(''path'', Par ''path'')],
        im_stats = False, im_return = TUnion [ui_Hardware2FaChallengeInfo, TNull]\<rparr>,
      \<lparr>im_name = ''openVaultWithHardware2Fa'', im_params = [Req ''path'' TStr, Req ''password'' TStr,
         Opt ''keyFilePath'' TStr, Req ''hardwareResponse'' (TArr TNum)],
        im_command = ''open_vault_with_hardware2fa'', im_arg = Some [(''path'', Par ''path''), (''password'',
         Par ''password''), (''keyFilePath'', Par ''keyFilePath''), (''hardwareResponse'', Par ''hardwareResponse'')],
        im_stats = False, im_return = ui_VaultInfo\<rparr>,
      \<lparr>im_name = ''performHardware2FaChallenge'', im_params = [Req ''protocol'' ui_Hardware2FaProtocol,
         Opt ''challenge'' (TArr TNum), Opt ''credentialId'' (TArr TNum)],
        im_command = ''perform_hardware2fa_challenge'', im_arg = Some [(''protocol'', Par ''protocol''),
         (''challenge'', Par ''challenge''), (''credentialId'', Par ''credentialId'')],
        im_stats = False, im_return = TArr TNum\<rparr>,
      \<lparr>im_name = ''enableHardware2Fa'', im_params = [Req ''password'' TStr, Opt ''keyFilePath'' TStr,
         Req ''protocol'' ui_Hardware2FaProtocol, Req ''keyName'' TStr, Opt ''challengeSalt'' (TArr TNum),
         Opt ''credentialId'' (TArr TNum), Req ''hardwareResponse'' (TArr TNum)],
        im_command = ''enable_hardware2fa'', im_arg = Some [(''password'', Par ''password''), (''keyFilePath'',
         Par ''keyFilePath''), (''protocol'', Par ''protocol''), (''keyName'', Par ''keyName''), (''challengeSalt'',
         Par ''challengeSalt''), (''credentialId'', Par ''credentialId''), (''hardwareResponse'',
         Par ''hardwareResponse'')],
        im_stats = False, im_return = TVoid\<rparr>,
      \<lparr>im_name = ''disableHardware2Fa'', im_params = [],
        im_command = ''disable_hardware2fa'', im_arg = None,
        im_stats = False, im_return = TVoid\<rparr>]"

definition methods_clipboard_update :: "ipc_method list" where
  "methods_clipboard_update =
     [\<lparr>im_name = ''copyToClipboard'', im_params = [Req ''text'' TStr, Opt ''isSensitive'' TBool,
         Opt ''clearAfterSecs'' TNum],
        im_command = ''copy_to_clipboard'', im_arg = Some [(''text'', Par ''text''), (''isSensitive'',
         ParDefault ''isSensitive'' (JBool True)), (''clearAfterSecs'', Par ''clearAfterSecs'')],
        im_stats = False, im_return = TVoid\<rparr>,
      \<lparr>im_name = ''clearClipboard'', im_params = [],
        im_command = ''clear_clipboard'', im_arg = None,
        im_stats = False, im_return = TVoid\<rparr>,
      \<lparr>im_name = ''copyEntryPassword'', im_params = [Req ''entryId'' TStr, Opt ''clearAfterSecs'' TNum],
        im_command = ''copy_entry_password'', im_arg = Some [(''entryId'', Par ''entryId''), (''clearAfterSecs'',
         Par ''clearAfterSecs'')],
        im_stats = False, im_return = TVoid\<rparr>,
      \<lparr>im_name = ''copyEntryUsername'', im_params = [Req ''entryId'' TStr],
        im_command = ''copy_entry_username'', im_arg = Some [(''entryId'', Par ''entryId'')],
        im_stats = False, im_return = TVoid\<rparr>,
      \<lparr>im_name = ''copyEntryTotp'', im_params = [Req ''entryId'' TStr, Opt ''clearAfterSecs'' TNum],
        im_command = ''copy_entry_totp'', im_arg = Some [(''entryId'', Par ''entryId''), (''clearAfterSecs'',
         Par ''clearAfterSecs'')],
        im_stats = False, im_return = TVoid\<rparr>,
      \<lparr>im_name = ''createVaultBytes'', im_params = [Req ''name'' TStr, Req ''passwordBytes'' (TUnion [TBytes,
         TArr TNum]), Req ''path'' TStr, Opt ''keyFilePath'' TStr],
        im_command = ''create_vault_bytes'', im_arg = Some [(''name'', Par ''name''), (''passwordBytes'',
         FromArray ''passwordBytes''), (''path'', Par ''path''), (''keyFilePath'', Par ''keyFilePath'')],
        im_stats = False, im_return = ui_VaultInfo\<rparr>,
      \<lparr>im_name = ''openVaultBytes'', im_params = [Req ''path'' TStr, Req ''passwordBytes'' (TUnion [TBytes,
         TArr TNum]), Opt ''keyFilePath'' TStr],
        im_command = ''open_vault_bytes'', im_arg = Some [(''path'', Par ''path''), (''passwordBytes'',
         FromArray ''passwordBytes''), (''keyFilePath'', Par ''keyFilePath'')],
        im_stats = False, im_return = ui_VaultInfo\<rparr>,
      \<lparr>im_name = ''changeMasterPasswordBytes'', im_params = [Req ''currentBytes'' (TUnion [TBytes,
         TArr TNum]), Req ''newPasswordBytes'' (TUnion [TBytes, TArr TNum]), Opt ''currentKeyFile'' TStr,
         Opt ''newKeyFile'' TStr],
        im_command = ''change_master_password_bytes'', im_arg = Some [(''currentBytes'', FromArray ''currentBytes''),
         (''newPasswordBytes'', FromArray ''newPasswordBytes''), (''currentKeyFile'', Par ''currentKeyFile''),
         (''newKeyFile'', Par ''newKeyFile'')],
        im_stats = False, im_return = TUnion [ty_EmergencyKit, TNull]\<rparr>,
      \<lparr>im_name = ''autotypeEntryPassword'', im_params = [Req ''entryId'' TStr, Opt ''charDelayMs'' TNum,
         Opt ''settleDelayMs'' TNum],
        im_command = ''autotype_entry_password'', im_arg = Some [(''entryId'', Par ''entryId''), (''charDelayMs'',
         Par ''charDelayMs''), (''settleDelayMs'', Par ''settleDelayMs'')],
        im_stats = False, im_return = TVoid\<rparr>,
      \<lparr>im_name = ''autotypeEntrySmart'', im_params = [Req ''entryId'' TStr, Opt ''launchBrowser'' TBool,
         Opt ''charDelayMs'' TNum, Opt ''fieldDelayMs'' TNum],
        im_command = ''autotype_entry_smart'', im_arg = Some [(''entryId'', Par ''entryId''), (''launchBrowser'',
         Par ''launchBrowser''), (''charDelayMs'', Par ''charDelayMs''), (''fieldDelayMs'', Par ''fieldDelayMs'')],
        im_stats = False, im_return = TVoid\<rparr>,
      \<lparr>im_name = ''verifyBiometric2Fa'', im_params = [Opt ''prompt'' TStr],
        im_command = ''verify_biometric_2fa'', im_arg = Some [(''prompt'', Par ''prompt'')],
        im_stats = False, im_return = TVoid\<rparr>,
      \<lparr>im_name = ''queryMobileAutofillStatus'', im_params = [],
        im_command = ''query_mobile_autofill_status'', im_arg = None,
        im_stats = False, im_return = ui_MobileAutofillStatus\<rparr>,
      \<lparr>im_name = ''getAutofillCredentialsForPackage'', im_params = [Req ''packageName'' TStr,
         Opt ''webDomain'' TStr],
        im_command = ''get_autofill_credentials_for_package'', im_arg = Some [(''packageName'', Par ''packageName''),
         (''webDomain'', Par ''webDomain'')],
        im_stats = False, im_return = ui_AutofillDatasetPayload\<rparr>,
      \<lparr>im_name = ''getMobileVaultPath'', im_params = [Req ''name'' TStr],
        im_command = ''get_mobile_vault_path'', im_arg = Some [(''name'', Par ''name'')],
        im_stats = False, im_return = TUnion [TStr, TNull]\<rparr>,
      \<lparr>im_name = ''smartLoginPrecheck'', im_params = [Opt ''entryId'' TStr],
        im_command = ''smart_login_precheck'', im_arg = Some [(''entryId'', Par ''entryId'')],
        im_stats = False, im_return = ui_SmartLoginPreCheckResult\<rparr>,
      \<lparr>im_name = ''smartLoginCloseBrowser'', im_params = [Req ''processName'' TStr],
        im_command = ''smart_login_close_browser'', im_arg = Some [(''processName'', Par ''processName'')],
        im_stats = False, im_return = TVoid\<rparr>,
      \<lparr>im_name = ''smartLoginStart'', im_params = [Req ''entryId'' TStr, Req ''browserIndex'' TNum],
        im_command = ''smart_login_start'', im_arg = Some [(''entryId'', Par ''entryId''), (''browserIndex'',
         Par ''browserIndex'')],
        im_stats = False, im_return = TVoid\<rparr>,
      \<lparr>im_name = ''smartLoginCancel'', im_params = [],
        im_command = ''smart_login_cancel'', im_arg = None,
        im_stats = False, im_return = TVoid\<rparr>,
      \<lparr>im_name = ''checkAppUpdate'', im_params = [Opt ''customEndpoint'' TStr],
        im_command = ''check_app_update'', im_arg = Some [(''customEndpoint'', Par ''customEndpoint'')],
        im_stats = False, im_return = ty_CheckUpdateResult\<rparr>,
      \<lparr>im_name = ''downloadAndInstallApk'', im_params = [Req ''apkUrl'' TStr, Opt ''expectedSha256'' TStr],
        im_command = ''download_and_install_apk'', im_arg = Some [(''apkUrl'', Par ''apkUrl''), (''expectedSha256'',
         Par ''expectedSha256'')],
        im_stats = False, im_return = TStr\<rparr>,
      \<lparr>im_name = ''installPortableUpdate'', im_params = [Req ''url'' TStr, Opt ''expectedSha256'' TStr],
        im_command = ''install_portable_update'', im_arg = Some [(''url'', Par ''url''), (''expectedSha256'',
         Par ''expectedSha256'')],
        im_stats = False, im_return = TVoid\<rparr>,
      \<lparr>im_name = ''installDesktopUpdate'', im_params = [Req ''url'' TStr, Req ''expectedSha256'' TStr],
        im_command = ''install_desktop_update'', im_arg = Some [(''url'', Par ''url''), (''expectedSha256'',
         Par ''expectedSha256'')],
        im_stats = False, im_return = TVoid\<rparr>,
      \<lparr>im_name = ''getAppVersion'', im_params = [],
        im_command = ''get_app_version'', im_arg = None,
        im_stats = False, im_return = TStr\<rparr>]"

definition tauri_methods :: "ipc_method list" where
  "tauri_methods =
     methods_vault @
     methods_sharing_history @
     methods_system @
     methods_sync @
     methods_pairing @
     methods_recovery @
     methods_import_hardware @
     methods_clipboard_update"

section \<open>Checking the table against the registry\<close>

text \<open>The type of an argument property, from the declared types of the parameters.\<close>

fun retype :: "string \<Rightarrow> field \<Rightarrow> field" where
  "retype k (Req n t) = Req k t"
| "retype k (Opt n t) = Opt k t"

fun field_type_of :: "field \<Rightarrow> ty" where
  "field_type_of (Req n t) = t"
| "field_type_of (Opt n t) = t"

fun arg_field :: "field list \<Rightarrow> string \<times> arg_expr \<Rightarrow> field option" where
  "arg_field params (k, Par p) = map_option (retype k) (find_field p params)"
| "arg_field params (k, ParDefault p d) =
     (case find_field p params of
        Some f \<Rightarrow> if conforms (field_type_of f) d then Some (Req k (field_type_of f)) else None
      | None \<Rightarrow> None)"
| "arg_field params (k, ParOrNull p) =
     map_option (\<lambda>f. Req k (TUnion [field_type_of f, TNull])) (find_field p params)"
| "arg_field params (k, FromArray p) =
     (if find_field p params = Some (Req p (TUnion [TBytes, TArr TNum])) then Some (Req k (TArr TNum)) else None)"

definition arg_type :: "ipc_method \<Rightarrow> ty option" where
  "arg_type m =
     (case im_arg m of
        None \<Rightarrow> Some TVoid
      | Some ps \<Rightarrow>
          (let fs = map (arg_field (im_params m)) ps
           in if list_all (\<lambda>f. f \<noteq> None) fs then Some (TRec (map the fs)) else None))"

fun stats_type :: "ty \<Rightarrow> ty option" where
  "stats_type (TRec fs) = (case find_field ''stats'' fs of Some (Req n t) \<Rightarrow> Some t | _ \<Rightarrow> None)"
| "stats_type t = None"

definition type_depth :: nat where
  "type_depth = 12"

definition names_ok :: "ipc_method \<Rightarrow> ty \<Rightarrow> bool" where
  "names_ok m args =
     (case im_arg m of None \<Rightarrow> True
      | Some ps \<Rightarrow> distinct (map fst ps) \<and> list_all (\<lambda>(k, e). k \<in> set (object_names args)) ps)"

definition method_ok :: "command list \<Rightarrow> ipc_method \<Rightarrow> bool" where
  "method_ok cs m =
     (case map_of cs (im_command m) of
        None \<Rightarrow> False
      | Some (args, ret) \<Rightarrow>
          (case arg_type m of None \<Rightarrow> False | Some a \<Rightarrow> assignable type_depth a args) \<and> names_ok m args \<and>
          (case (if im_stats m then stats_type ret else Some ret) of
             None \<Rightarrow> False | Some t \<Rightarrow> assignable type_depth t (im_return m)))"

text \<open>
  Two methods take objects whose declared type omits properties the registry knows as optional;
  for them the declared types do not decide whether a value conforms.
\<close>

definition loose_methods :: "string list" where
  "loose_methods = [''generatePassword'', ''importEntries'']"

definition checked :: "command list \<Rightarrow> ipc_method \<Rightarrow> bool" where
  "checked cs m \<longleftrightarrow> im_name m \<in> set loose_methods \<or> method_ok cs m"

section \<open>What the check means\<close>

abbreviation params_typed :: "ipc_method \<Rightarrow> (string \<Rightarrow> js) \<Rightarrow> bool" where
  "params_typed m env \<equiv> \<forall>f \<in> set (im_params m). field_conforms f (env (field_name f))"

lemma find_field_typed:
  "find_field p params = Some f \<Longrightarrow> \<forall>f \<in> set params. field_conforms f (env (field_name f)) \<Longrightarrow> field_conforms f (env p)"
  using find_field_name by fastforce

lemma retype_conforms [simp]: "field_conforms (retype k f) v = field_conforms f v" "field_name (retype k f) = k"
  by (cases f; simp)+

lemma typed_or_undef: "field_conforms f v \<Longrightarrow> v \<noteq> JUndef \<Longrightarrow> conforms (field_type_of f) v"
  by (cases f) auto

lemma array_from_typed: "conforms (TUnion [TBytes, TArr TNum]) v \<Longrightarrow> conforms (TArr TNum) (array_from v)"
  by (cases v) (auto simp: list_all_iff)

lemma arg_field_sound:
  assumes "arg_field params (k, e) = Some f"
    and "\<forall>f \<in> set params. field_conforms f (env (field_name f))"
  shows "field_name f = k \<and> field_conforms f (eval_arg env e)"
proof (cases e)
  case (Par p)
  with assms show ?thesis by (auto dest: find_field_typed)
next
  case (ParDefault p d)
  with assms obtain g where g: "find_field p params = Some g" "conforms (field_type_of g) d" "f = Req k (field_type_of g)"
    by (auto split: option.splits if_splits)
  have "field_conforms g (env p)" using g(1) assms(2) by (rule find_field_typed)
  then have "env p \<noteq> JUndef \<Longrightarrow> conforms (field_type_of g) (env p)" by (rule typed_or_undef)
  with ParDefault g(2,3) show ?thesis by simp
next
  case (ParOrNull p)
  with assms obtain g where g: "find_field p params = Some g" "f = Req k (TUnion [field_type_of g, TNull])"
    by auto
  have "field_conforms g (env p)" using g(1) assms(2) by (rule find_field_typed)
  then have "\<not> falsy (env p) \<Longrightarrow> conforms (field_type_of g) (env p)" by (intro typed_or_undef) auto
  with ParOrNull g(2) show ?thesis by auto
next
  case (FromArray p)
  with assms(1) have g: "find_field p params = Some (Req p (TUnion [TBytes, TArr TNum]))" "f = Req k (TArr TNum)"
    by (auto split: if_splits)
  have "conforms (TArr TNum) (array_from (env p))"
    using find_field_typed [OF g(1) assms(2)] by (intro array_from_typed) simp
  with FromArray g(2) show ?thesis by simp
qed

lemma js_get_map: "distinct (map fst ps) \<Longrightarrow> (k, e) \<in> set ps \<Longrightarrow> js_get (map (\<lambda>(k, e). (k, g e)) ps) k = g e"
  by (induction ps) (force split: prod.splits)+

lemma arg_type_sound:
  assumes "arg_type m = Some a" and "names_ok m args" and "params_typed m env"
  shows "conforms a (invocation m env)"
proof (cases "im_arg m")
  case None
  with assms(1) show ?thesis by (simp add: arg_type_def invocation_def)
next
  case (Some ps)
  let ?fs = "map (arg_field (im_params m)) ps"
  have a: "list_all (\<lambda>f. f \<noteq> None) ?fs" "a = TRec (map the ?fs)"
    using assms(1) Some by (auto simp: arg_type_def Let_def split: if_splits)
  have "field_conforms f (js_get (map (\<lambda>(k, e). (k, eval_arg env e)) ps) (field_name f))"
    if f: "f \<in> set (map the ?fs)" for f
  proof -
    obtain k e where ke: "(k, e) \<in> set ps" "arg_field (im_params m) (k, e) = Some f"
      using f a(1) by (auto simp: list_all_iff)
    have "field_name f = k \<and> field_conforms f (eval_arg env e)"
      using ke(2) assms(3) by (rule arg_field_sound)
    moreover have "js_get (map (\<lambda>(k, e). (k, eval_arg env e)) ps) k = eval_arg env e"
      using assms(2) Some ke(1) by (intro js_get_map) (auto simp: names_ok_def)
    ultimately show ?thesis by simp
  qed
  then show ?thesis using Some a(2) by (simp add: invocation_def conforms_fields_iff)
qed

lemma stats_type_sound:
  assumes "stats_type t = Some u" and "conforms t r"
  shows "conforms u (case r of JObj kvs \<Rightarrow> js_get kvs ''stats'' | _ \<Rightarrow> JUndef)"
proof -
  obtain fs n where fs: "t = TRec fs" "find_field ''stats'' fs = Some (Req n u)"
    using assms(1) by (cases t) (auto split: option.splits field.splits)
  obtain kvs where "r = JObj kvs" "conforms_fields fs kvs"
    using assms(2) fs(1) by (auto split: js.splits)
  with find_field_name [OF fs(2)] show ?thesis by (fastforce simp: conforms_fields_iff)
qed

definition conforming_method :: "ipc_method \<Rightarrow> bool" where
  "conforming_method m \<longleftrightarrow>
     (\<exists>args ret. (im_command m, args, ret) \<in> set IpcCommands \<and>
        (\<forall>env. params_typed m env \<longrightarrow> conforms args (invocation m env)) \<and>
        (\<forall>ps. im_arg m = Some ps \<longrightarrow> fst ` set ps \<subseteq> set (object_names args)) \<and>
        (\<forall>r. conforms ret r \<longrightarrow> conforms (im_return m) (method_result m r)))"

lemma method_ok_sound:
  assumes "method_ok cs m" and "set cs \<subseteq> set IpcCommands"
  shows "conforming_method m"
proof -
  obtain args ret a where reg: "map_of cs (im_command m) = Some (args, ret)"
    and a: "arg_type m = Some a" "assignable type_depth a args" and names: "names_ok m args"
    and rt: "case (if im_stats m then stats_type ret else Some ret) of
        None \<Rightarrow> False | Some t \<Rightarrow> assignable type_depth t (im_return m)"
    using assms(1) by (auto simp: method_ok_def split: option.splits)
  have "(im_command m, args, ret) \<in> set IpcCommands"
    using map_of_SomeD [OF reg] assms(2) by blast
  moreover have "\<forall>env. params_typed m env \<longrightarrow> conforms args (invocation m env)"
    using arg_type_sound [OF a(1) names] assignable_sound [OF a(2)] by blast
  moreover have "\<forall>ps. im_arg m = Some ps \<longrightarrow> fst ` set ps \<subseteq> set (object_names args)"
    using names by (auto simp: names_ok_def list_all_iff)
  moreover have "conforms (im_return m) (method_result m r)" if r: "conforms ret r" for r
  proof (cases "im_stats m")
    case True
    with rt obtain t where "stats_type ret = Some t" "assignable type_depth t (im_return m)"
      by (auto split: option.splits)
    then show ?thesis
      using stats_type_sound [OF _ r] True by (auto simp: method_result_def intro: assignable_sound)
  next
    case False
    with rt r show ?thesis by (auto simp: method_result_def intro: assignable_sound)
  qed
  ultimately show ?thesis unfolding conforming_method_def by blast
qed

lemma checked_sound:
  "list_all (checked cs) ms \<Longrightarrow> set cs \<subseteq> set IpcCommands \<Longrightarrow> m \<in> set ms \<Longrightarrow> im_name m \<notin> set loose_methods \<Longrightarrow>
   conforming_method m"
  by (rule method_ok_sound) (auto simp: list_all_iff checked_def)

lemma methods_vault_ok:
  "list_all (checked (commands_entries @ commands_vault @ commands_runtime)) methods_vault"
  by code_simp

lemma methods_sharing_history_ok:
  "list_all (checked (commands_trash @ commands_tools @ commands_tags @ commands_entries)) methods_sharing_history"
  by code_simp

lemma methods_system_ok:
  "list_all (checked (commands_tags @ commands_sync @ commands_vault)) methods_system"
  by code_simp

lemma methods_sync_ok:
  "list_all (checked (commands_sync)) methods_sync"
  by code_simp

lemma methods_pairing_ok:
  "list_all (checked (commands_sync)) methods_pairing"
  by code_simp

lemma methods_recovery_ok:
  "list_all (checked (commands_runtime @ commands_sharing @ commands_tools)) methods_recovery"
  by code_simp

lemma methods_import_hardware_ok:
  "list_all (checked (commands_hardware @ commands_vault @ commands_sharing)) methods_import_hardware"
  by code_simp

lemma methods_clipboard_update_ok:
  "list_all (checked (commands_clipboard @ commands_vault @ commands_sharing)) methods_clipboard_update"
  by code_simp

lemma registry_parts:
  "set commands_runtime \<subseteq> set IpcCommands" "set commands_vault \<subseteq> set IpcCommands"
  "set commands_hardware \<subseteq> set IpcCommands" "set commands_entries \<subseteq> set IpcCommands"
  "set commands_trash \<subseteq> set IpcCommands" "set commands_tools \<subseteq> set IpcCommands"
  "set commands_tags \<subseteq> set IpcCommands" "set commands_sync \<subseteq> set IpcCommands"
  "set commands_sharing \<subseteq> set IpcCommands" "set commands_clipboard \<subseteq> set IpcCommands"
  unfolding IpcCommands_def set_append by blast+

lemma checked_group:
  "list_all (checked cs) ms \<Longrightarrow> set cs \<subseteq> set IpcCommands \<Longrightarrow>
   \<forall>m \<in> set ms. im_name m \<notin> set loose_methods \<longrightarrow> conforming_method m"
  using checked_sound by blast

lemma tauri_method_cases:
  "\<forall>m \<in> set tauri_methods. im_name m \<notin> set loose_methods \<longrightarrow> conforming_method m"
proof -
  have "\<forall>m \<in> set methods_vault. im_name m \<notin> set loose_methods \<longrightarrow> conforming_method m"
    by (rule checked_group [OF methods_vault_ok]) (simp only: set_append Un_subset_iff registry_parts simp_thms)
  moreover have "\<forall>m \<in> set methods_sharing_history. im_name m \<notin> set loose_methods \<longrightarrow> conforming_method m"
    by (rule checked_group [OF methods_sharing_history_ok]) (simp only: set_append Un_subset_iff registry_parts simp_thms)
  moreover have "\<forall>m \<in> set methods_system. im_name m \<notin> set loose_methods \<longrightarrow> conforming_method m"
    by (rule checked_group [OF methods_system_ok]) (simp only: set_append Un_subset_iff registry_parts simp_thms)
  moreover have "\<forall>m \<in> set methods_sync. im_name m \<notin> set loose_methods \<longrightarrow> conforming_method m"
    by (rule checked_group [OF methods_sync_ok]) (simp only: set_append Un_subset_iff registry_parts simp_thms)
  moreover have "\<forall>m \<in> set methods_pairing. im_name m \<notin> set loose_methods \<longrightarrow> conforming_method m"
    by (rule checked_group [OF methods_pairing_ok]) (simp only: set_append Un_subset_iff registry_parts simp_thms)
  moreover have "\<forall>m \<in> set methods_recovery. im_name m \<notin> set loose_methods \<longrightarrow> conforming_method m"
    by (rule checked_group [OF methods_recovery_ok]) (simp only: set_append Un_subset_iff registry_parts simp_thms)
  moreover have "\<forall>m \<in> set methods_import_hardware. im_name m \<notin> set loose_methods \<longrightarrow> conforming_method m"
    by (rule checked_group [OF methods_import_hardware_ok]) (simp only: set_append Un_subset_iff registry_parts simp_thms)
  moreover have "\<forall>m \<in> set methods_clipboard_update. im_name m \<notin> set loose_methods \<longrightarrow> conforming_method m"
    by (rule checked_group [OF methods_clipboard_update_ok]) (simp only: set_append Un_subset_iff registry_parts simp_thms)
  ultimately show ?thesis unfolding tauri_methods_def set_append by blast
qed

text \<open>
  Claim C6. The back end adapter keeps the wire contract: apart from the two methods whose
  declared parameters are wider than the registry, every method that forwards its parameters
  invokes a registered command, with an argument that has the registered type and no property the
  registry does not know, for all values of its declared parameter types, and any answer of the
  registered type gives a result of the method's declared return type.
\<close>

theorem tauri_invocations_conform:
  assumes "m \<in> set tauri_methods" and "im_name m \<notin> set loose_methods" and "params_typed m env"
  shows "\<exists>args ret. (im_command m, args, ret) \<in> set IpcCommands \<and> conforms args (invocation m env) \<and>
    (\<forall>ps. im_arg m = Some ps \<longrightarrow> fst ` set ps \<subseteq> set (object_names args)) \<and>
    (\<forall>r. conforms ret r \<longrightarrow> conforms (im_return m) (method_result m r))"
  using tauri_method_cases assms unfolding conforming_method_def by blast

definition sample_method :: ipc_method where
  "sample_method = hd (drop 2 methods_vault)"

theorem tauri_invocations_conform_witness:
  "\<exists>args ret. (''create_vault'', args, ret) \<in> set IpcCommands \<and>
     conforms args (JObj [(''name'', JStr ''n''), (''password'', JStr ''p''), (''path'', JStr ''f''), (''keyFilePath'', JUndef)])"
proof -
  let ?env = "\<lambda>x. if x = ''name'' then JStr ''n'' else if x = ''password'' then JStr ''p''
     else if x = ''path'' then JStr ''f'' else JUndef"
  have m: "sample_method \<in> set methods_vault" by (simp add: sample_method_def methods_vault_def)
  have "sample_method \<in> set tauri_methods" unfolding tauri_methods_def using m by simp
  moreover have "im_name sample_method \<notin> set loose_methods" "params_typed sample_method ?env"
    by (simp_all add: sample_method_def methods_vault_def loose_methods_def)
  ultimately obtain args ret where "(im_command sample_method, args, ret) \<in> set IpcCommands"
      "conforms args (invocation sample_method ?env)"
    using tauri_invocations_conform [of sample_method ?env] by blast
  then show ?thesis
    by (auto simp: sample_method_def methods_vault_def invocation_def)
qed

end
