(* ===== verification/Tauri_Convert.thy ===== *)
theory Tauri_Convert
  imports Ui_Contract Entry_Model
begin

text \<open>
  The methods of \<open>TauriBackend\<close> (\<open>src/src/lib/tauri-backend.ts\<close>) that convert what they send or
  receive: the breach status in its two forms (tagged objects in the interface, Rust's external
  enum on the wire), entries with it, staged attachments as plain arrays, and attachment data
  that is checked on arrival.
\<close>

section \<open>Breach status\<close>

fun ui_breach :: "breach_status \<Rightarrow> js" where
  "ui_breach Unknown = JObj [(''type'', JStr ''Unknown'')]"
| "ui_breach Checking = JObj [(''type'', JStr ''Checking'')]"
| "ui_breach (Safe t) = JObj [(''type'', JStr ''Safe''), (''checked_at'', JStr t)]"
| "ui_breach (Breached n t) =
     JObj [(''type'', JStr ''Breached''), (''breach_count'', JNum (int n)), (''checked_at'', JStr t)]"
| "ui_breach (BreachError e) = JObj [(''type'', JStr ''Error''), (''message'', JStr e)]"

fun serializeBreachStatus :: "breach_status \<Rightarrow> js" where
  "serializeBreachStatus Unknown = JStr ''Unknown''"
| "serializeBreachStatus Checking = JStr ''Checking''"
| "serializeBreachStatus (Safe t) = JObj [(''Safe'', JObj [(''checked_at'', JStr t)])]"
| "serializeBreachStatus (Breached n t) =
     JObj [(''Breached'', JObj [(''breach_count'', JNum (int n)), (''checked_at'', JStr t)])]"
| "serializeBreachStatus (BreachError e) = JObj [(''Error'', JObj [(''message'', JStr e)])]"

text \<open>Property access on values of the registered type.\<close>

fun str_of :: "js \<Rightarrow> string" where
  "str_of (JStr s) = s"
| "str_of _ = []"

fun nat_of :: "js \<Rightarrow> nat" where
  "nat_of (JNum n) = nat n"
| "nat_of _ = 0"

fun js_prop :: "js \<Rightarrow> string \<Rightarrow> js" where
  "js_prop (JObj kvs) n = js_get kvs n"
| "js_prop _ n = JUndef"

definition has_prop :: "string \<Rightarrow> (string \<times> js) list \<Rightarrow> bool" where
  "has_prop n kvs \<longleftrightarrow> list_ex (\<lambda>(k, v). k = n) kvs"

definition deserializeBreachStatus :: "js \<Rightarrow> breach_status" where
  "deserializeBreachStatus raw =
     (case raw of
        JStr s \<Rightarrow> if s = ''Checking'' then Checking else Unknown
      | JObj kvs \<Rightarrow>
          if has_prop ''Safe'' kvs then Safe (str_of (js_prop (js_get kvs ''Safe'') ''checked_at''))
          else if has_prop ''Breached'' kvs
          then Breached (nat_of (js_prop (js_get kvs ''Breached'') ''breach_count''))
                 (str_of (js_prop (js_get kvs ''Breached'') ''checked_at''))
          else if has_prop ''Error'' kvs then BreachError (str_of (js_prop (js_get kvs ''Error'') ''message''))
          else Unknown
      | _ \<Rightarrow> Unknown)"

section \<open>Entries received\<close>

text \<open>\<open>{ ...entry, breach_status: deserializeBreachStatus(entry.breach_status) }\<close>.\<close>

fun js_put :: "string \<Rightarrow> js \<Rightarrow> (string \<times> js) list \<Rightarrow> (string \<times> js) list" where
  "js_put n v [] = [(n, v)]"
| "js_put n v ((k, w) # kvs) = (if k = n then (k, v) # kvs else (k, w) # js_put n v kvs)"

fun with_breach :: "js \<Rightarrow> js" where
  "with_breach (JObj kvs) =
     JObj (js_put ''breach_status'' (ui_breach (deserializeBreachStatus (js_get kvs ''breach_status''))) kvs)"
| "with_breach v = v"

fun received_entries :: "js \<Rightarrow> js" where
  "received_entries (JArr es) = JArr (map with_breach es)"
| "received_entries v = v"

definition checkPasswordBreach_result :: "js \<Rightarrow> js" where
  "checkPasswordBreach_result r =
     JObj [(''is_breached'', js_prop r ''is_breached''), (''breach_count'', js_prop r ''breach_count''),
       (''checked_at'', js_prop r ''checked_at'')]"

text \<open>\<open>getAttachmentData\<close>: binary data, or an array of bytes; anything else is refused.\<close>

fun is_byte :: "js \<Rightarrow> bool" where
  "is_byte (JNum n) = (0 \<le> n \<and> n \<le> 255)"
| "is_byte _ = False"

definition getAttachmentData_result :: "js \<Rightarrow> string + js" where
  "getAttachmentData_result r =
     (case r of
        JBytes ns \<Rightarrow> Inr r
      | JArr vs \<Rightarrow> if list_all is_byte vs then Inr r else Inl ''Invalid attachment data returned by the backend''
      | _ \<Rightarrow> Inl ''Invalid attachment data returned by the backend'')"

section \<open>Entries sent\<close>

definition opt_js :: "('a \<Rightarrow> js) \<Rightarrow> 'a option \<Rightarrow> js" where
  "opt_js f x = (case x of None \<Rightarrow> JUndef | Some v \<Rightarrow> f v)"

definition null_js :: "('a \<Rightarrow> js) \<Rightarrow> 'a option \<Rightarrow> js" where
  "null_js f x = (case x of None \<Rightarrow> JNull | Some v \<Rightarrow> f v)"

definition strs_js :: "string list \<Rightarrow> js" where
  "strs_js ss = JArr (map JStr ss)"

definition field_js :: "ipc_custom_field \<Rightarrow> js" where
  "field_js f = JObj [(''id'', JStr (ic_id f)), (''name'', JStr (ic_name f)),
     (''field_type'', JStr (ic_field_type f)), (''value'', JStr (ic_value f)), (''sensitive'', JBool (ic_sensitive f))]"

definition attachment_js :: "new_attachment \<Rightarrow> js" where
  "attachment_js a = JObj [(''name'', JStr (na_name a)), (''mime_type'', JStr (na_mime_type a)),
     (''data'', JArr (map (\<lambda>n. JNum (int n)) (na_data a)))]"

fun entry_type_name :: "entry_type \<Rightarrow> string" where
  "entry_type_name Login = ''Login''"
| "entry_type_name CreditCard = ''CreditCard''"
| "entry_type_name Identity = ''Identity''"
| "entry_type_name SecureNote = ''SecureNote''"
| "entry_type_name SshKey = ''SshKey''"
| "entry_type_name ApiKey = ''ApiKey''"
| "entry_type_name WifiPassword = ''WifiPassword''"
| "entry_type_name CryptoWallet = ''CryptoWallet''"
| "entry_type_name CustomEntry = ''Custom''"

fun passkey_action_name :: "passkey_action \<Rightarrow> string" where
  "passkey_action_name GeneratePasskey = ''generate''"
| "passkey_action_name RemovePasskey = ''remove''"

definition addEntry_payload :: "new_entry \<Rightarrow> js" where
  "addEntry_payload e =
     JObj [(''title'', JStr (ne_title e)), (''username'', JStr (ne_username e)),
       (''password'', JStr (ne_password e)), (''url'', JStr (ne_url e)), (''email'', JStr (ne_email e)),
       (''notes'', JStr (ne_notes e)), (''tags'', strs_js (ne_tags e)),
       (''totp_secret'', null_js JStr (ne_totp_secret e)),
       (''custom_fields'', JArr (map field_js (ne_custom_fields e))),
       (''entry_type'', null_js (\<lambda>t. JStr (entry_type_name t)) (ne_entry_type e)),
       (''generate_passkey'', opt_js JBool (ne_generate_passkey e)),
       (''attachments'', opt_js (\<lambda>as. JArr (map attachment_js as)) (ne_attachments e))]"

definition updateEntry_payload :: "update_entry \<Rightarrow> js" where
  "updateEntry_payload u =
     JObj [(''title'', opt_js JStr (ue_title u)), (''username'', opt_js JStr (ue_username u)),
       (''password'', opt_js JStr (ue_password u)), (''url'', opt_js JStr (ue_url u)),
       (''email'', opt_js JStr (ue_email u)), (''notes'', opt_js JStr (ue_notes u)),
       (''tags'', opt_js strs_js (ue_tags u)), (''favorite'', opt_js JBool (ue_favorite u)),
       (''pinned'', opt_js JBool (ue_pinned u)), (''totp_secret'', opt_js JStr (ue_totp_secret u)),
       (''custom_fields'', opt_js (\<lambda>fs. JArr (map field_js fs)) (ue_custom_fields u)),
       (''breach_status'', opt_js serializeBreachStatus (ue_breach_status u)),
       (''passkey_action'', opt_js (\<lambda>a. JStr (passkey_action_name a)) (ue_passkey_action u)),
       (''new_attachments'', opt_js (\<lambda>as. JArr (map attachment_js as)) (ue_new_attachments u)),
       (''delete_attachment_ids'', opt_js strs_js (ue_delete_attachment_ids u))]"

definition addEntry_call :: "new_entry \<Rightarrow> string \<times> js" where
  "addEntry_call e = (''add_entry'', JObj [(''entry'', addEntry_payload e)])"

definition updateEntry_call :: "string \<Rightarrow> update_entry \<Rightarrow> string \<times> js" where
  "updateEntry_call i u = (''update_entry'', JObj [(''id'', JStr i), (''update'', updateEntry_payload u)])"

definition updateEntryBreachStatus_call :: "string \<Rightarrow> breach_status \<Rightarrow> string \<times> js" where
  "updateEntryBreachStatus_call i b =
     (''update_entry_breach_status'', JObj [(''id'', JStr i), (''breachStatus'', serializeBreachStatus b)])"

section \<open>Laws\<close>

lemma js_get_put [simp]: "js_get (js_put n v kvs) k = (if k = n then v else js_get kvs k)"
  by (induction n v kvs rule: js_put.induct) auto

lemma serialize_conforms [simp]: "conforms ty_BreachStatus (serializeBreachStatus b)"
  by (cases b) (simp_all add: ty_BreachStatus_def)

lemma ui_breach_conforms [simp]: "conforms ui_BreachStatus (ui_breach b)"
  by (cases b) (simp_all add: ui_BreachStatus_def)

text \<open>
  The breach status survives the wire: what the adapter sends for a status has the
  registered type, and reading it back gives the same status; every status object handed to the
  interface has the interface's type.
\<close>

theorem breach_status_roundtrip:
  "deserializeBreachStatus (serializeBreachStatus b) = b \<and>
   conforms ty_BreachStatus (serializeBreachStatus b) \<and> conforms ui_BreachStatus (ui_breach b)"
  by (cases b) (simp_all add: deserializeBreachStatus_def has_prop_def ty_BreachStatus_def ui_BreachStatus_def)

text \<open>Data that is bytes: binary, or an array holding the numbers of a list of bytes.\<close>

definition byte_data :: "js \<Rightarrow> bool" where
  "byte_data r \<longleftrightarrow> (\<exists>ns. r = JBytes ns) \<or>
     (\<exists>ns. r = JArr (map (\<lambda>n. JNum (int n)) ns) \<and> list_all (\<lambda>n. n < 256) ns)"

lemma is_byte_iff: "is_byte x \<longleftrightarrow> (\<exists>n. x = JNum (int n) \<and> n < 256)"
proof (cases x)
  case (JNum n)
  then show ?thesis by (auto intro: exI [of _ "nat n"])
qed auto

lemma all_bytes_iff: "list_all is_byte vs \<longleftrightarrow> (\<exists>ns. vs = map (\<lambda>n. JNum (int n)) ns \<and> list_all (\<lambda>n. n < 256) ns)"
proof (induction vs)
  case (Cons v vs)
  show ?case
  proof
    assume "list_all is_byte (v # vs)"
    then obtain n ns where "v = JNum (int n)" "n < 256" "vs = map (\<lambda>n. JNum (int n)) ns" "list_all (\<lambda>n. n < 256) ns"
      using Cons by (auto simp: is_byte_iff)
    then show "\<exists>ns. v # vs = map (\<lambda>n. JNum (int n)) ns \<and> list_all (\<lambda>n. n < 256) ns"
      by (intro exI [of _ "n # ns"]) simp
  next
    assume "\<exists>ns. v # vs = map (\<lambda>n. JNum (int n)) ns \<and> list_all (\<lambda>n. n < 256) ns"
    then obtain m ms where "v = JNum (int m)" "m < 256" "vs = map (\<lambda>n. JNum (int n)) ms" "list_all (\<lambda>n. n < 256) ms"
      by (auto simp: Cons_eq_map_conv)
    then have "is_byte v" "list_all is_byte vs" using Cons by auto
    then show "list_all is_byte (v # vs)" by simp
  qed
qed simp

text \<open>
  Attachment data is bytes or an error: the adapter passes the native answer on, as it
  is, exactly when it is binary data or an array of integers from 0 to 255; any other answer is
  the error that the data is invalid.
\<close>

theorem attachment_data_checked:
  "getAttachmentData_result r =
     (if byte_data r then Inr r else Inl ''Invalid attachment data returned by the backend'')"
  by (cases r) (auto simp: getAttachmentData_result_def byte_data_def all_bytes_iff)

section \<open>Entries sent and received conform\<close>

lemma fields_conform [simp]:
  "conforms (TArr ty_CustomField) (JArr (map field_js fs)) \<longleftrightarrow> list_all (\<lambda>f. ic_field_type f \<in> set ipc_field_types) fs"
  by (induction fs) (auto simp: ty_CustomField_def ty_FieldType_def field_js_def ipc_field_types_def)

lemma attachments_conform [simp]: "conforms (TArr ty_NewAttachment) (JArr (map attachment_js as))"
  by (auto simp: ty_NewAttachment_def attachment_js_def list_all_iff)

lemma strs_conform [simp]: "conforms (TArr TStr) (strs_js ss)"
  by (auto simp: strs_js_def list_all_iff)

lemma entry_type_conforms [simp]: "conforms ty_EntryType (JStr (entry_type_name t))"
  by (cases t) (simp_all add: ty_EntryType_def)

lemma add_payload_conforms:
  assumes "list_all (\<lambda>f. ic_field_type f \<in> set ipc_field_types) (ne_custom_fields e)"
  shows "conforms ty_NewEntry (addEntry_payload e)"
  using assms
  by (auto simp: ty_NewEntry_def addEntry_payload_def opt_js_def null_js_def simp del: conforms.simps(9) split: option.splits)

lemma opt_ok: "(\<And>v. x = Some v \<Longrightarrow> conforms t (f v)) \<Longrightarrow> opt_js f x = JUndef \<or> conforms t (opt_js f x)"
  by (cases x) (simp_all add: opt_js_def)

lemma update_payload_conforms:
  assumes "list_all (\<lambda>f. ic_field_type f \<in> set ipc_field_types) (or_else (ue_custom_fields u) [])"
  shows "conforms ty_UpdateEntry (updateEntry_payload u)"
proof -
  have action: "conforms (TUnion [TLit ''generate'', TLit ''remove'']) (JStr (passkey_action_name a))" for a
    by (cases a) simp_all
  have fs: "ue_custom_fields u = Some fs \<Longrightarrow> conforms (TArr ty_CustomField) (JArr (map field_js fs))" for fs
    using assms by (simp only: fields_conform or_else_simps)
  show ?thesis
    by (simp add: ty_UpdateEntry_def updateEntry_payload_def del: conforms.simps(3-11))
      (intro conjI opt_ok; (rule fs action serialize_conforms attachments_conform strs_conform | simp)+)
qed

lemma capitalize_types: "t \<in> set field_types \<Longrightarrow> capitalize t \<in> set ipc_field_types"
  by (auto simp: field_types_def ipc_field_types_def capitalize_def js_case_eval)

lemma sent_field_types:
  assumes "list_all (\<lambda>f. cf_type f \<in> set field_types) (pe_customFields e)"
  shows "list_all (\<lambda>f. ic_field_type f \<in> set ipc_field_types) (custom_fields_to_send uuid e)"
proof -
  have "ic_field_type (field_to_ipc f) \<in> set ipc_field_types" if "f \<in> set (cleaned_fields e)" for f
    using that assms capitalize_types [of "cf_type f"]
    by (auto simp: field_to_ipc_def cleaned_fields_def list_all_iff)
  moreover have "''Password'' \<in> set ipc_field_types" by (simp add: ipc_field_types_def)
  ultimately show ?thesis
    by (auto simp: custom_fields_to_send_def list_all_iff split: option.splits)
qed

text \<open>
  Claim C36. What the entries feature sends is what the registry expects: for an entry whose custom
  fields have the interface's field types, the payload built for adding or updating it, as the
  adapter puts it on the wire (capitalised types, recovery codes appended, attachments as arrays),
  has the registered type of its command.
\<close>

theorem entry_payloads_conform:
  assumes "list_all (\<lambda>f. cf_type f \<in> set field_types) (pe_customFields e)"
  shows "conforms ty_NewEntry (addEntry_payload (new_entry_payload uuid e)) \<and>
    conforms ty_UpdateEntry (updateEntry_payload (update_payload uuid e))"
proof -
  have "list_all (\<lambda>f. ic_field_type f \<in> set ipc_field_types) (custom_fields_to_send uuid e)"
    using assms by (rule sent_field_types)
  then show ?thesis
    by (intro conjI add_payload_conforms update_payload_conforms) (simp_all add: new_entry_payload_def update_payload_def)
qed

theorem entry_payloads_conform_witness:
  "conforms ty_NewEntry (addEntry_payload (new_entry_payload ''u'' sample_entry))"
proof -
  have "list_all (\<lambda>f. cf_type f \<in> set field_types) (pe_customFields sample_entry)"
    by (simp add: sample_entry_def field_types_def)
  from entry_payloads_conform [OF this] show ?thesis by blast
qed

text \<open>Received objects: every field of the interface's type comes from a field of the registry's.\<close>

definition swap_ok :: "field list \<Rightarrow> field list \<Rightarrow> bool" where
  "swap_ok fs gs \<longleftrightarrow>
     list_all (\<lambda>g. if field_name g = ''breach_status'' then g = Req ''breach_status'' ui_BreachStatus
                   else field_ok (assignable 12) fs g) gs"

lemma swap_ok_sound:
  assumes "swap_ok fs gs" and "conforms (TRec fs) v"
  shows "conforms (TRec gs) (with_breach v)"
proof -
  obtain kvs where v: "v = JObj kvs" "conforms_fields fs kvs"
    using assms(2) by (auto split: js.splits)
  let ?kvs = "js_put ''breach_status'' (ui_breach (deserializeBreachStatus (js_get kvs ''breach_status''))) kvs"
  have "field_conforms g (js_get ?kvs (field_name g))" if "g \<in> set gs" for g
  proof (cases "field_name g = ''breach_status''")
    case True
    with assms(1) that have "g = Req ''breach_status'' ui_BreachStatus"
      by (auto simp: swap_ok_def list_all_iff)
    then show ?thesis by simp
  next
    case False
    with assms(1) that have "field_ok (assignable 12) fs g" by (auto simp: swap_ok_def list_all_iff)
    then have "field_conforms g (js_get kvs (field_name g))"
      by (rule field_ok_sound) (rule assignable_sound, assumption+, rule v(2))
    with False show ?thesis by simp
  qed
  then show ?thesis using v(1) by (simp add: conforms_fields_iff)
qed

fun rec_fields :: "ty \<Rightarrow> field list" where
  "rec_fields (TRec fs) = fs"
| "rec_fields t = []"

lemma entry_types_swap:
  "swap_ok (rec_fields ty_EntryPreview) (rec_fields ui_EntryPreview)"
  "swap_ok (rec_fields ty_DecryptedEntry) (rec_fields ui_DecryptedEntry)"
  by code_simp+

text \<open>
  Entries arrive in the interface's form: whenever the native side answers with entries
  of the registered types, the list and the single entry the adapter returns have the types the
  user interface declares, with the breach status converted.
\<close>

theorem received_entries_typed:
  assumes "conforms (TArr ty_EntryPreview) es" and "conforms ty_DecryptedEntry d"
  shows "conforms (TArr ui_EntryPreview) (received_entries es) \<and> conforms ui_DecryptedEntry (with_breach d)"
proof -
  have rec: "ty_EntryPreview = TRec (rec_fields ty_EntryPreview)" "ui_EntryPreview = TRec (rec_fields ui_EntryPreview)"
    "ty_DecryptedEntry = TRec (rec_fields ty_DecryptedEntry)" "ui_DecryptedEntry = TRec (rec_fields ui_DecryptedEntry)"
    by (simp_all add: ty_EntryPreview_def ui_EntryPreview_def ty_DecryptedEntry_def ui_DecryptedEntry_def)
  have "conforms ui_EntryPreview (with_breach v)" if "conforms ty_EntryPreview v" for v
    using that swap_ok_sound [OF entry_types_swap(1)] by (subst rec(2)) (metis rec(1))
  moreover have "conforms ui_DecryptedEntry (with_breach d)"
    using assms(2) swap_ok_sound [OF entry_types_swap(2)] by (subst rec(4)) (metis rec(3))
  ultimately show ?thesis
    using assms(1) by (cases es) (auto simp: list_all_iff)
qed

theorem received_entries_typed_witness:
  "conforms ui_EntryPreview (with_breach (JObj [(''id'', JStr ''a''), (''title'', JStr ''t''), (''username'', JStr []),
     (''url'', JStr []), (''email'', JStr []), (''tags'', JArr []), (''favorite'', JBool False), (''pinned'', JBool False),
     (''has_totp'', JBool False), (''entry_type'', JStr ''Login''), (''updated_at'', JStr ''n''),
     (''breach_status'', JStr ''Unknown''), (''strength_score'', JNull), (''password_age_days'', JNum 1),
     (''has_passkey'', JBool False)]))"
proof -
  let ?p = "JObj [(''id'', JStr ''a''), (''title'', JStr ''t''), (''username'', JStr []),
     (''url'', JStr []), (''email'', JStr []), (''tags'', JArr []), (''favorite'', JBool False), (''pinned'', JBool False),
     (''has_totp'', JBool False), (''entry_type'', JStr ''Login''), (''updated_at'', JStr ''n''),
     (''breach_status'', JStr ''Unknown''), (''strength_score'', JNull), (''password_age_days'', JNum 1),
     (''has_passkey'', JBool False)]"
  let ?d = "JObj [(''id'', JStr ''a''), (''title'', JStr ''t''), (''username'', JStr []), (''password'', JStr []),
     (''url'', JStr []), (''email'', JStr []), (''notes'', JStr []), (''tags'', JArr []), (''favorite'', JBool False),
     (''pinned'', JBool False), (''totp_secret'', JNull), (''custom_fields'', JArr []), (''entry_type'', JStr ''Login''),
     (''created_at'', JStr ''n''), (''updated_at'', JStr ''n''), (''password_changed_at'', JStr ''n''),
     (''breach_status'', JStr ''Checking''), (''strength_score'', JNull), (''password_history_count'', JNum 0),
     (''has_passkey'', JBool False), (''passkey_public_key'', JNull)]"
  have p: "conforms (TArr ty_EntryPreview) (JArr [?p])"
    by (simp add: ty_EntryPreview_def ty_EntryType_def ty_BreachStatus_def)
  have d: "conforms ty_DecryptedEntry ?d"
    by (simp add: ty_DecryptedEntry_def ty_EntryType_def ty_BreachStatus_def)
  from received_entries_typed [OF p d] show ?thesis by (simp del: with_breach.simps)
qed

end
